(* ===== verification/Prelude.thy ===== *)
theory Prelude
  imports Main "HOL-Library.Word" "HOL-Library.Monad_Syntax"
begin

text \<open>
  Shared material of the development: the machine types of the 64-bit Linux build that
  the module is compiled for, the error codes its functions return, the iteration
  combinator that stands for the kernel's per-CPU loops, and the generic lemmas on
  lists, options and machine words that the component theories share.

  Conventions of all theories:
  \<^item> a value of type \<open>'a option\<close> returned by an operation is \<open>None\<close> exactly when the C
    code would not return normally: a dereference of a null pointer, an access outside an
    allocated array, or a loop that never ends;
  \<^item> an operation that returns 0 or a negative error code has a result of type
    \<open>errno + unit\<close>, one that returns a byte count or a negative error code a result of
    type \<open>errno + nat\<close>;
  \<^item> the state that an operation writes is taken as an argument and returned.
\<close>

section \<open>Machine types and error codes\<close>

type_synonym ulong = "64 word"
type_synonym u64 = "64 word"
type_synonym u32 = "32 word"

text \<open>
  The codes of \<^verbatim>\<open>linux/errno.h\<close> that the sources name; \<open>ECODE n\<close> stands for any
  other nonzero value that a callback of \<^verbatim>\<open>struct oprofile_operations\<close> may return.
\<close>

datatype errno =
    EPERM | EINTR | EAGAIN | ENOMEM | EFAULT | EBUSY | ENODEV | EINVAL | ECODE int

type_synonym rc = "errno + unit"

abbreviation rc_ok :: rc where
  "rc_ok \<equiv> Inr ()"

named_theorems ring_simps \<open>facts about the per-CPU ring buffer\<close>
named_theorems frame_simps \<open>fields that an operation leaves unchanged\<close>
named_theorems ev_simps \<open>facts about the event buffer as a list of words\<close>

section \<open>Loops over CPUs\<close>

text \<open>
  \<^verbatim>\<open>for_each_possible_cpu(i) \<dots>\<close>, \<^verbatim>\<open>for_each_online_cpu(i) \<dots>\<close> and the other loops that visit a
  list of indices and update the state: the body may fault.
\<close>

fun for_each :: "('i \<Rightarrow> 's \<Rightarrow> 's option) \<Rightarrow> 'i list \<Rightarrow> 's \<Rightarrow> 's option" where
  "for_each f [] s = Some s"
| "for_each f (i # is) s = (case f i s of None \<Rightarrow> None | Some s' \<Rightarrow> for_each f is s')"

lemma for_each_append:
  "for_each f (xs @ ys) s = Option.bind (for_each f xs s) (for_each f ys)"
  by (induction xs arbitrary: s) (auto split: option.splits)

text \<open>The rule for such loops: a predicate kept by the body is kept by the loop.\<close>

lemma for_each_invariant:
  assumes "I s" and "\<And>i s. i \<in> set is \<Longrightarrow> I s \<Longrightarrow> \<exists>s'. f i s = Some s' \<and> I s'"
  shows "\<exists>s'. for_each f is s = Some s' \<and> I s'"
  using assms
proof (induction "is" arbitrary: s)
  case Nil
  then show ?case by simp
next
  case (Cons i "is")
  from Cons.prems obtain s1 where "f i s = Some s1" "I s1"
    by (metis list.set_intros(1))
  moreover from Cons.IH [OF \<open>I s1\<close>] Cons.prems(2)
  obtain s2 where "for_each f is s1 = Some s2" "I s2" by auto
  ultimately show ?case by simp
qed

section \<open>Words\<close>

lemma unat_Suc_less:
  fixes w v :: "'a::len word"
  assumes "w < v"
  shows "unat (w + 1) = Suc (unat w)"
proof -
  from assms have "unat w < unat v" by (simp add: word_less_nat_alt)
  moreover have "unat v < 2 ^ LENGTH('a)" by simp
  ultimately have "unat w + 1 < 2 ^ LENGTH('a)" by linarith
  then show ?thesis by (simp add: unat_word_ariths)
qed

text \<open>The next index of a circular array of \<open>n\<close> slots.\<close>

lemma unat_next_pos:
  fixes p n :: "'a::len word"
  assumes "p < n"
  shows "unat (if p + 1 < n then p + 1 else 0) = Suc (unat p) mod unat n"
proof -
  have s: "unat (p + 1) = Suc (unat p)" using assms by (rule unat_Suc_less)
  from assms have "unat p < unat n" by (simp add: word_less_nat_alt)
  then show ?thesis
    by (cases "Suc (unat p) = unat n") (simp_all add: word_less_nat_alt s)
qed

lemma unat_ulong_bound: "unat (w :: ulong) < 2 ^ 64"
  using unsigned_less [of w] by simp

lemma unat_ucast_u32 [simp]: "unat (ucast (w :: u32) :: ulong) = unat w"
  by (simp add: unsigned_ucast_eq take_bit_nat_eq_self_iff less_le_trans [OF unsigned_less])

text \<open>A 32-bit value below the sign bit, as an \<^verbatim>\<open>int\<close> and converted to \<^verbatim>\<open>unsigned long\<close>.\<close>

lemma sint_eq_unat_u32:
  assumes "unat (w :: u32) < 2 ^ 31"
  shows "sint w = int (unat w)"
proof -
  have "int (unat w) < int (2 ^ 31)" using assms by (simp only: of_nat_less_iff)
  moreover have "- (2 ^ 31) \<le> uint w" by (rule order.trans [OF _ uint_ge_0]) simp
  ultimately have "signed_take_bit 31 (uint w) = uint w"
    by (intro signed_take_bit_int_eq_self) simp_all
  then show ?thesis by (simp add: sint_uint)
qed

lemma sint_nonneg_u32: "unat (w :: u32) < 2 ^ 31 \<Longrightarrow> 0 \<le> sint w"
  by (simp add: sint_eq_unat_u32)

lemma unat_scast_u32:
  assumes "unat (w :: u32) < 2 ^ 31"
  shows "unat (scast w :: ulong) = unat w"
proof -
  have "(scast w :: ulong) = word_of_int (sint w)" by (rule scast_eq)
  then have "(scast w :: ulong) = of_nat (unat w)" using sint_eq_unat_u32 [OF assms] by simp
  moreover have "unat w < 2 ^ 64" using assms by simp
  ultimately show ?thesis by (simp add: unat_of_nat)
qed

text \<open>A 32-bit counter compared with a 64-bit bound.\<close>

lemma counter_less:
  "j < 2 ^ 32 \<Longrightarrow> ucast (of_nat j :: u32) < (a :: ulong) \<longleftrightarrow> j < unat a"
  by (simp add: word_less_nat_alt unat_of_nat)

lemma word_gt_0_if_less:
  fixes w v :: "'a::len word"
  shows "w < v \<Longrightarrow> 0 < v"
  by (rule le_less_trans [OF word_zero_le])

section \<open>Circular slices of a list\<close>

text \<open>
  \<open>circ xs t n\<close> are the \<open>n\<close> elements of the circular array \<open>xs\<close> that start at index
  \<open>t\<close> and wrap at its end.
\<close>

definition circ :: "'a list \<Rightarrow> nat \<Rightarrow> nat \<Rightarrow> 'a list" where
  "circ xs t n = map (\<lambda>i. xs ! ((t + i) mod length xs)) [0..<n]"

lemma length_circ [simp]: "length (circ xs t n) = n"
  by (simp add: circ_def)

lemma circ_0 [simp]: "circ xs t 0 = []"
  by (simp add: circ_def)

lemma circ_snoc:
  "circ xs t (Suc n) = circ xs t n @ [xs ! ((t + n) mod length xs)]"
  by (simp add: circ_def)

lemma circ_Cons:
  "circ xs t (Suc n) = xs ! (t mod length xs) # circ xs (Suc t mod length xs) n"
  by (simp add: circ_def upt_rec [of 0] map_Suc_upt [symmetric] mod_simps
      del: upt_Suc map_Suc_upt)

text \<open>Writing the slot just behind a circular slice that does not fill the array leaves it as it is.\<close>

lemma circ_update:
  assumes "n < length xs"
  shows "circ (xs[(t + n) mod length xs := v]) t n = circ xs t n"
proof -
  let ?k = "length xs"
  have "(t + n) mod ?k \<noteq> (t + i) mod ?k" if "i < n" for i
  proof
    assume "(t + n) mod ?k = (t + i) mod ?k"
    then have "?k dvd (t + n) - (t + i)" using that by (metis mod_eq_dvd_iff_nat nat_add_left_cancel_le less_imp_le)
    then have "?k dvd n - i" by simp
    with that assms show False by (auto dest: dvd_imp_le)
  qed
  then show ?thesis by (auto simp: circ_def)
qed

lemma circ_update_snoc:
  assumes "n < length xs"
  shows "circ (xs[(t + n) mod length xs := v]) t (Suc n) = circ xs t n @ [v]"
proof -
  have "(t + n) mod length xs < length xs" using assms by (intro mod_less_divisor) linarith
  with assms show ?thesis by (simp add: circ_snoc circ_update)
qed

end
