(* ===== verification/Bounded_Fifo.thy ===== *)
theory Bounded_Fifo
  imports Prelude
begin

text \<open>
  The interface between the writers of a per-CPU ring (the interrupt handlers) and its
  reader (\<^verbatim>\<open>sync_buffer\<close>): a bounded first-in first-out queue. A client sees the queued
  items, a capacity, an operation that appends and operations that read and drop the
  oldest item. The contract includes what the ring really does when an item is added
  beyond its capacity: the queue reads as empty. The clients' facts (adding a batch that
  fits, draining a queue, what the last item of a batch that is one too long destroys) are
  proved here once.
\<close>

locale bounded_fifo =
  fixes inv :: "'q \<Rightarrow> bool"
    and items :: "'q \<Rightarrow> 'a list"
    and cap :: "'q \<Rightarrow> nat"
    and enq :: "'a \<Rightarrow> 'q \<Rightarrow> 'q"
    and front :: "'q \<Rightarrow> 'a option"
    and deq :: "'q \<Rightarrow> 'q"
  assumes inv_enq: "inv q \<Longrightarrow> inv (enq x q)"
    and cap_enq: "cap (enq x q) = cap q"
    and items_bound: "inv q \<Longrightarrow> length (items q) \<le> cap q"
    and items_enq: "inv q \<Longrightarrow>
      items (enq x q) = (if length (items q) = cap q then [] else items q @ [x])"
    and inv_deq: "inv q \<Longrightarrow> inv (deq q)"
    and cap_deq: "cap (deq q) = cap q"
    and front_items: "inv q \<Longrightarrow> items q \<noteq> [] \<Longrightarrow> front q = Some (hd (items q))"
    and items_deq: "inv q \<Longrightarrow> items q \<noteq> [] \<Longrightarrow> items (deq q) = tl (items q)"
begin

lemma inv_enq_all: "inv q \<Longrightarrow> inv (fold enq xs q)"
  by (induction xs arbitrary: q) (simp_all add: inv_enq)

lemma cap_enq_all: "cap (fold enq xs q) = cap q"
  by (induction xs arbitrary: q) (simp_all add: cap_enq)

text \<open>A batch that fits is appended in order.\<close>

lemma items_enq_all:
  "inv q \<Longrightarrow> length (items q) + length xs \<le> cap q \<Longrightarrow> items (fold enq xs q) = items q @ xs"
  by (induction xs arbitrary: q) (simp_all add: inv_enq cap_enq items_enq)

text \<open>A batch with one item too many leaves nothing: neither itself nor what was queued.\<close>

lemma items_enq_one_too_many:
  assumes "inv q" and "length (items q) + length xs = Suc (cap q)"
  shows "items (fold enq xs q) = []"
proof -
  have "xs \<noteq> []" using assms items_bound [of q] by auto
  then obtain ys x where xs: "xs = ys @ [x]" by (metis rev_exhaust)
  then have "items (fold enq ys q) = items q @ ys"
    using assms by (intro items_enq_all) simp_all
  then show ?thesis
    using assms xs by (simp add: items_enq inv_enq_all cap_enq_all)
qed

text \<open>Taking items one by one returns them oldest first.\<close>

lemma drained:
  assumes "inv q" and "n \<le> length (items q)"
  shows "inv ((deq ^^ n) q) \<and> items ((deq ^^ n) q) = drop n (items q)"
  using assms(2)
proof (induction n)
  case 0
  with assms(1) show ?case by simp
next
  case (Suc n)
  then have "items ((deq ^^ n) q) \<noteq> []" and "inv ((deq ^^ n) q)" by simp_all
  with Suc show ?case by (simp add: inv_deq items_deq tl_drop drop_Suc)
qed

end

end
