(* ===== verification/Cpu_Buffer.thy ===== *)
theory Cpu_Buffer
  imports Bounded_Fifo
begin

text \<open>
  \<^verbatim>\<open>driver/cpu_buffer.c\<close> and \<^verbatim>\<open>driver/cpu_buffer.h\<close>: the per-CPU ring buffer of
  \<^verbatim>\<open>struct op_sample\<close> entries into which the interrupt handlers log samples, backtrace
  entries, mode and task switch notes and timestamps. The second half refines the ring to
  a bounded queue of entries and states what each logging operation appends, and what
  happens when an operation writes without the room it needs.
\<close>

section \<open>Data\<close>

definition ESCAPE_CODE :: ulong where
  "ESCAPE_CODE = - 1"

definition CPU_IS_KERNEL :: ulong where "CPU_IS_KERNEL = 1"
definition CPU_TRACE_BEGIN :: ulong where "CPU_TRACE_BEGIN = 2"
definition RR_CPU_CTX_TGID :: ulong where "RR_CPU_CTX_TGID = 100"
definition RR_CPU_CTX_TID :: ulong where "RR_CPU_CTX_TID = 101"
definition RR_CPU_SAMPLING_START_TIMESTAMP :: ulong where
  "RR_CPU_SAMPLING_START_TIMESTAMP = 102"
definition RR_CPU_SAMPLING_STOP_TIMESTAMP :: ulong where
  "RR_CPU_SAMPLING_STOP_TIMESTAMP = 103"
definition RR_CPU_SAMPLE_START_TIMESTAMP :: ulong where
  "RR_CPU_SAMPLE_START_TIMESTAMP = 104"
definition RR_CPU_SAMPLE_STOP_TIMESTAMP :: ulong where
  "RR_CPU_SAMPLE_STOP_TIMESTAMP = 105"

lemmas cpu_code_defs =
  ESCAPE_CODE_def CPU_IS_KERNEL_def CPU_TRACE_BEGIN_def RR_CPU_CTX_TGID_def
  RR_CPU_CTX_TID_def RR_CPU_SAMPLING_START_TIMESTAMP_def
  RR_CPU_SAMPLING_STOP_TIMESTAMP_def RR_CPU_SAMPLE_START_TIMESTAMP_def
  RR_CPU_SAMPLE_STOP_TIMESTAMP_def

record op_sample =
  eip :: ulong
  event :: ulong
  timestamp :: u64

text \<open>
  A task is its address (the only thing compared by the code) and its \<^verbatim>\<open>tgid\<close> and
  \<^verbatim>\<open>pid\<close>, which are of the signed 32-bit type \<^verbatim>\<open>pid_t\<close>.
\<close>

record task_struct =
  task_addr :: ulong
  task_tgid :: u32
  task_pid :: u32

text \<open>
  \<^verbatim>\<open>last_task\<close> is a task address, 0 for \<^verbatim>\<open>NULL\<close>. \<^verbatim>\<open>buffer\<close> is the allocated array,
  \<open>None\<close> for \<^verbatim>\<open>NULL\<close>. \<^verbatim>\<open>tracing\<close> is the C flag.
\<close>

record oprofile_cpu_buffer =
  head_pos :: ulong
  tail_pos :: ulong
  buffer_size :: ulong
  last_task :: ulong
  last_is_kernel :: int
  tracing :: bool
  buffer :: "op_sample list option"
  sample_received :: ulong
  sample_lost_overflow :: ulong
  backtrace_aborted :: ulong
  sample_invalid_eip :: ulong
  cpu :: nat
  work_scheduled :: bool

section \<open>The ring\<close>

text \<open>\<^verbatim>\<open>cpu_buffer_reset\<close>\<close>

definition cpu_buffer_reset :: "oprofile_cpu_buffer \<Rightarrow> oprofile_cpu_buffer" where
  "cpu_buffer_reset b = b\<lparr>last_is_kernel := -1, last_task := 0\<rparr>"

text \<open>\<^verbatim>\<open>nr_available_slots\<close>: the slots a writer may still fill.\<close>

definition nr_available_slots :: "oprofile_cpu_buffer \<Rightarrow> ulong" where
  "nr_available_slots b =
    (let head = head_pos b; tail = tail_pos b
     in if tail > head then (tail - head) - 1
        else tail + (buffer_size b - head) - 1)"

text \<open>\<^verbatim>\<open>increment_head\<close>\<close>

definition increment_head :: "oprofile_cpu_buffer \<Rightarrow> oprofile_cpu_buffer" where
  "increment_head b =
    (let new_head = head_pos b + 1
     in if new_head < buffer_size b then b\<lparr>head_pos := new_head\<rparr>
        else b\<lparr>head_pos := 0\<rparr>)"

text \<open>
  \<^verbatim>\<open>add_sample\<close> of \<^verbatim>\<open>cpu_buffer.c\<close>: the slot is written first, then published by
  moving the head. Writing through a null pointer or outside the array is a fault.
\<close>

definition write_slot ::
  "oprofile_cpu_buffer \<Rightarrow> ulong \<Rightarrow> op_sample \<Rightarrow> oprofile_cpu_buffer option" where
  "write_slot b i s =
    (case buffer b of
       None \<Rightarrow> None
     | Some xs \<Rightarrow>
         if unat i < length xs then Some (b\<lparr>buffer := Some (xs[unat i := s])\<rparr>) else None)"

definition add_sample ::
  "oprofile_cpu_buffer \<Rightarrow> ulong \<Rightarrow> ulong \<Rightarrow> u64 \<Rightarrow> oprofile_cpu_buffer option" where
  "add_sample b pc ev ts =
    do { b \<leftarrow> write_slot b (head_pos b) \<lparr>eip = pc, event = ev, timestamp = ts\<rparr>;
         Some (increment_head b) }"

definition add_code :: "oprofile_cpu_buffer \<Rightarrow> ulong \<Rightarrow> oprofile_cpu_buffer option" where
  "add_code b value = add_sample b ESCAPE_CODE value 0"

definition add_code_ctx_rr ::
  "oprofile_cpu_buffer \<Rightarrow> ulong \<Rightarrow> ulong \<Rightarrow> oprofile_cpu_buffer option" where
  "add_code_ctx_rr b tgid tid =
    do { b \<leftarrow> add_sample b ESCAPE_CODE RR_CPU_CTX_TGID tgid;
         add_sample b ESCAPE_CODE RR_CPU_CTX_TID tid }"

text \<open>
  \<^verbatim>\<open>increment_tail\<close> of \<^verbatim>\<open>buffer_sync.c\<close>, the reader's counterpart of
  \<^verbatim>\<open>increment_head\<close>, and \<^verbatim>\<open>get_slots\<close>, which the reader calls to find out how many
  entries it may take, and which resets the switch notes.
\<close>

definition increment_tail :: "oprofile_cpu_buffer \<Rightarrow> oprofile_cpu_buffer" where
  "increment_tail b =
    (let new_tail = tail_pos b + 1
     in if new_tail < buffer_size b then b\<lparr>tail_pos := new_tail\<rparr>
        else b\<lparr>tail_pos := 0\<rparr>)"

definition get_slots :: "oprofile_cpu_buffer \<Rightarrow> ulong \<times> oprofile_cpu_buffer" where
  "get_slots b =
    (let head = head_pos b; tail = tail_pos b; b' = cpu_buffer_reset b
     in if head \<ge> tail then (head - tail, b')
        else (head + (buffer_size b' - tail), b'))"

text \<open>The entry at the tail: \<^verbatim>\<open>&cpu_buf->buffer[cpu_buf->tail_pos]\<close> in \<^verbatim>\<open>sync_buffer\<close>.\<close>

definition tail_entry :: "oprofile_cpu_buffer \<Rightarrow> op_sample option" where
  "tail_entry b =
    (case buffer b of
       None \<Rightarrow> None
     | Some xs \<Rightarrow> if unat (tail_pos b) < length xs then Some (xs ! unat (tail_pos b)) else None)"

section \<open>Logging\<close>

text \<open>
  \<^verbatim>\<open>log_sample\<close>. The C result 0 or 1 is the Boolean. \<^verbatim>\<open>current\<close> is the parameter
  \<open>task\<close>. The task's ids are converted from \<^verbatim>\<open>pid_t\<close> to \<^verbatim>\<open>unsigned long\<close>, which
  extends the sign.
\<close>

definition log_sample ::
  "task_struct \<Rightarrow> oprofile_cpu_buffer \<Rightarrow> ulong \<Rightarrow> int \<Rightarrow> ulong \<Rightarrow>
   (bool \<times> oprofile_cpu_buffer) option" where
  "log_sample task b pc is_kernel ev =
    (let b = b\<lparr>sample_received := sample_received b + 1\<rparr> in
     if pc = ESCAPE_CODE then
       Some (False, b\<lparr>sample_invalid_eip := sample_invalid_eip b + 1\<rparr>)
     else if nr_available_slots b < 3 then
       Some (False, b\<lparr>sample_lost_overflow := sample_lost_overflow b + 1\<rparr>)
     else
       let is_kernel = (if is_kernel \<noteq> 0 then 1 else 0) in
       do { b \<leftarrow> (if last_is_kernel b \<noteq> is_kernel
                 then add_code (b\<lparr>last_is_kernel := is_kernel\<rparr>) (of_int is_kernel)
                 else Some b);
            b \<leftarrow> (if last_task b \<noteq> task_addr task
                 then add_code_ctx_rr (b\<lparr>last_task := task_addr task\<rparr>)
                        (scast (task_tgid task)) (scast (task_pid task))
                 else Some b);
            b \<leftarrow> add_sample b pc ev 0;
            Some (True, b) })"

definition oprofile_begin_trace ::
  "oprofile_cpu_buffer \<Rightarrow> (bool \<times> oprofile_cpu_buffer) option" where
  "oprofile_begin_trace b =
    (if nr_available_slots b < 4 then
       Some (False, b\<lparr>sample_lost_overflow := sample_lost_overflow b + 1\<rparr>)
     else
       do { b \<leftarrow> add_code b CPU_TRACE_BEGIN;
            Some (True, b\<lparr>tracing := True\<rparr>) })"

definition oprofile_end_trace :: "oprofile_cpu_buffer \<Rightarrow> oprofile_cpu_buffer" where
  "oprofile_end_trace b = b\<lparr>tracing := False\<rparr>"

text \<open>
  \<^verbatim>\<open>oprofile_add_ext_sample\<close>. The callback \<^verbatim>\<open>oprofile_ops.backtrace\<close> is the argument
  \<open>backtrace\<close>, \<open>None\<close> for \<^verbatim>\<open>NULL\<close>: it takes the registers and the depth, converted to
  \<^verbatim>\<open>unsigned int\<close>, and acts on this CPU's buffer through \<^verbatim>\<open>oprofile_add_trace\<close>.
\<close>

type_synonym 'r backtrace_op =
  "'r \<Rightarrow> u32 \<Rightarrow> oprofile_cpu_buffer \<Rightarrow> oprofile_cpu_buffer option"

definition oprofile_add_ext_sample ::
  "'r backtrace_op option \<Rightarrow> ulong \<Rightarrow> task_struct \<Rightarrow> ulong \<Rightarrow> 'r \<Rightarrow> ulong \<Rightarrow> int \<Rightarrow>
   oprofile_cpu_buffer \<Rightarrow> oprofile_cpu_buffer option" where
  "oprofile_add_ext_sample backtrace backtrace_depth task pc regs ev is_kernel b =
    (case backtrace of
       Some bt \<Rightarrow>
         if backtrace_depth \<noteq> 0 then
           do { (begun, b) \<leftarrow> oprofile_begin_trace b;
                if \<not> begun then Some b
                else do { (logged, b) \<leftarrow> log_sample task b pc is_kernel ev;
                          b \<leftarrow> (if logged then bt regs (ucast backtrace_depth) b else Some b);
                          Some (oprofile_end_trace b) } }
         else map_option snd (log_sample task b pc is_kernel ev)
     | None \<Rightarrow> map_option snd (log_sample task b pc is_kernel ev))"

text \<open>
  \<^verbatim>\<open>oprofile_add_sample\<close>: the registers are a pointer that may be \<^verbatim>\<open>NULL\<close>; \<^verbatim>\<open>user_mode\<close>
  and \<^verbatim>\<open>instruction_pointer\<close> are the kernel's accessors, given as arguments.
\<close>

definition oprofile_add_sample ::
  "('r \<Rightarrow> bool) \<Rightarrow> ('r \<Rightarrow> ulong) \<Rightarrow> 'r option backtrace_op option \<Rightarrow> ulong \<Rightarrow> task_struct \<Rightarrow>
   'r option \<Rightarrow> ulong \<Rightarrow> oprofile_cpu_buffer \<Rightarrow> oprofile_cpu_buffer option" where
  "oprofile_add_sample user_mode instruction_pointer backtrace backtrace_depth task regs ev b =
    (let (is_kernel, pc) =
       (case regs of
          Some r \<Rightarrow> (if user_mode r then 0 else 1, instruction_pointer r)
        | None \<Rightarrow> (0, ESCAPE_CODE))
     in oprofile_add_ext_sample backtrace backtrace_depth task pc regs ev is_kernel b)"

definition oprofile_add_pc ::
  "task_struct \<Rightarrow> ulong \<Rightarrow> int \<Rightarrow> ulong \<Rightarrow> oprofile_cpu_buffer \<Rightarrow> oprofile_cpu_buffer option"
where
  "oprofile_add_pc task pc is_kernel ev b = map_option snd (log_sample task b pc is_kernel ev)"

definition oprofile_add_trace ::
  "ulong \<Rightarrow> oprofile_cpu_buffer \<Rightarrow> oprofile_cpu_buffer option" where
  "oprofile_add_trace pc b =
    (if \<not> tracing b then Some b
     else if nr_available_slots b < 1 then
       Some (b\<lparr>tracing := False, sample_lost_overflow := sample_lost_overflow b + 1\<rparr>)
     else if pc = ESCAPE_CODE then
       Some (b\<lparr>tracing := False, backtrace_aborted := backtrace_aborted b + 1\<rparr>)
     else add_sample b pc 0 0)"

text \<open>The timestamp entries; \<^verbatim>\<open>oprofile_get_tb()\<close> is the argument \<open>tb\<close>.\<close>

definition oprofile_add_start :: "u64 \<Rightarrow> oprofile_cpu_buffer \<Rightarrow> oprofile_cpu_buffer option"
where
  "oprofile_add_start tb b = add_sample b ESCAPE_CODE RR_CPU_SAMPLING_START_TIMESTAMP tb"

definition oprofile_add_stop :: "u64 \<Rightarrow> oprofile_cpu_buffer \<Rightarrow> oprofile_cpu_buffer option"
where
  "oprofile_add_stop tb b = add_sample b ESCAPE_CODE RR_CPU_SAMPLING_STOP_TIMESTAMP tb"

definition oprofile_add_sample_start ::
  "u64 \<Rightarrow> oprofile_cpu_buffer \<Rightarrow> oprofile_cpu_buffer option" where
  "oprofile_add_sample_start ts b = add_sample b ESCAPE_CODE RR_CPU_SAMPLE_START_TIMESTAMP ts"

definition oprofile_add_sample_stop ::
  "u64 \<Rightarrow> oprofile_cpu_buffer \<Rightarrow> oprofile_cpu_buffer option" where
  "oprofile_add_sample_stop ts b = add_sample b ESCAPE_CODE RR_CPU_SAMPLE_STOP_TIMESTAMP ts"

definition oprofile_cpu_buffer_inc_smpl_lost :: "oprofile_cpu_buffer \<Rightarrow> oprofile_cpu_buffer"
where
  "oprofile_cpu_buffer_inc_smpl_lost b =
     b\<lparr>sample_lost_overflow := sample_lost_overflow b + 1\<rparr>"

section \<open>Allocation\<close>

text \<open>
  The fields that \<^verbatim>\<open>alloc_cpu_buffers\<close> assigns for CPU \<open>i\<close> once \<^verbatim>\<open>vmalloc_node\<close> has
  returned the area \<open>xs\<close>; the delayed work is initialised and not pending.
\<close>

definition init_cpu_buffer :: "nat \<Rightarrow> ulong \<Rightarrow> op_sample list \<Rightarrow> oprofile_cpu_buffer" where
  "init_cpu_buffer i sz xs =
     \<lparr>head_pos = 0, tail_pos = 0, buffer_size = sz, last_task = 0, last_is_kernel = -1,
      tracing = False, buffer = Some xs, sample_received = 0, sample_lost_overflow = 0,
      backtrace_aborted = 0, sample_invalid_eip = 0, cpu = i, work_scheduled = False\<rparr>"

text \<open>\<^verbatim>\<open>free_cpu_buffers\<close>, over the possible CPUs\<close>

fun free_cpu_buffers ::
  "nat list \<Rightarrow> (nat \<Rightarrow> oprofile_cpu_buffer) \<Rightarrow> (nat \<Rightarrow> oprofile_cpu_buffer)" where
  "free_cpu_buffers [] bufs = bufs"
| "free_cpu_buffers (i # cpus) bufs =
     free_cpu_buffers cpus (bufs(i := (bufs i)\<lparr>buffer := None\<rparr>))"

text \<open>
  The loop of \<^verbatim>\<open>alloc_cpu_buffers\<close>; its first result tells whether it ran to its end.
  \<^verbatim>\<open>sizeof(struct op_sample)\<close> is 24, and the product with the number of entries is taken
  modulo the word size, as in C. \<open>vmalloc_node\<close> maps a CPU and a number of bytes to the
  entries of the allocated area.
\<close>

fun alloc_loop ::
  "(nat \<Rightarrow> ulong \<Rightarrow> op_sample list option) \<Rightarrow> ulong \<Rightarrow> nat list \<Rightarrow>
   (nat \<Rightarrow> oprofile_cpu_buffer) \<Rightarrow> bool \<times> (nat \<Rightarrow> oprofile_cpu_buffer)" where
  "alloc_loop vmalloc_node sz [] bufs = (True, bufs)"
| "alloc_loop vmalloc_node sz (i # cpus) bufs =
     (case vmalloc_node i (24 * sz) of
        None \<Rightarrow> (False, bufs(i := (bufs i)\<lparr>buffer := None\<rparr>))
      | Some xs \<Rightarrow> alloc_loop vmalloc_node sz cpus (bufs(i := init_cpu_buffer i sz xs)))"

definition alloc_cpu_buffers ::
  "(nat \<Rightarrow> ulong \<Rightarrow> op_sample list option) \<Rightarrow> nat list \<Rightarrow> ulong \<Rightarrow>
   (nat \<Rightarrow> oprofile_cpu_buffer) \<Rightarrow> rc \<times> (nat \<Rightarrow> oprofile_cpu_buffer)" where
  "alloc_cpu_buffers vmalloc_node possible oprofile_cpu_buffer_size bufs =
    (case alloc_loop vmalloc_node oprofile_cpu_buffer_size possible bufs of
       (True, bufs) \<Rightarrow> (rc_ok, bufs)
     | (False, bufs) \<Rightarrow> (Inl ENOMEM, free_cpu_buffers possible bufs))"

section \<open>The ring as a bounded queue\<close>

text \<open>
  The entries between tail and head, oldest first. One slot always stays empty, since
  equal positions mean an empty ring: the capacity is \<open>buffer_size - 1\<close>.
\<close>

definition ring_ok :: "oprofile_cpu_buffer \<Rightarrow> bool" where
  "ring_ok b \<longleftrightarrow>
     (case buffer b of None \<Rightarrow> False | Some xs \<Rightarrow> length xs = unat (buffer_size b)) \<and>
     head_pos b < buffer_size b \<and> tail_pos b < buffer_size b"

definition ring_count :: "oprofile_cpu_buffer \<Rightarrow> nat" where
  "ring_count b =
    (if tail_pos b \<le> head_pos b then unat (head_pos b) - unat (tail_pos b)
     else unat (head_pos b) + unat (buffer_size b) - unat (tail_pos b))"

definition contents :: "oprofile_cpu_buffer \<Rightarrow> op_sample list" where
  "contents b =
    (case buffer b of None \<Rightarrow> []
     | Some xs \<Rightarrow> circ xs (unat (tail_pos b)) (ring_count b))"

definition ring_cap :: "oprofile_cpu_buffer \<Rightarrow> nat" where
  "ring_cap b = unat (buffer_size b) - 1"

text \<open>What \<open>add_sample\<close> does when it does not fault.\<close>

definition put :: "op_sample \<Rightarrow> oprofile_cpu_buffer \<Rightarrow> oprofile_cpu_buffer" where
  "put s b =
     increment_head (b\<lparr>buffer := map_option (\<lambda>xs. xs[unat (head_pos b) := s]) (buffer b)\<rparr>)"

lemma ring_frame [ring_simps]:
  "ring_ok (b\<lparr>last_task := t\<rparr>) = ring_ok b"
  "ring_ok (b\<lparr>last_is_kernel := k\<rparr>) = ring_ok b"
  "ring_ok (b\<lparr>tracing := r\<rparr>) = ring_ok b"
  "ring_ok (b\<lparr>sample_received := w\<rparr>) = ring_ok b"
  "ring_ok (b\<lparr>sample_lost_overflow := w\<rparr>) = ring_ok b"
  "ring_ok (b\<lparr>backtrace_aborted := w\<rparr>) = ring_ok b"
  "ring_ok (b\<lparr>sample_invalid_eip := w\<rparr>) = ring_ok b"
  "ring_ok (b\<lparr>work_scheduled := r\<rparr>) = ring_ok b"
  "contents (b\<lparr>last_task := t\<rparr>) = contents b"
  "contents (b\<lparr>last_is_kernel := k\<rparr>) = contents b"
  "contents (b\<lparr>tracing := r\<rparr>) = contents b"
  "contents (b\<lparr>sample_received := w\<rparr>) = contents b"
  "contents (b\<lparr>sample_lost_overflow := w\<rparr>) = contents b"
  "contents (b\<lparr>backtrace_aborted := w\<rparr>) = contents b"
  "contents (b\<lparr>sample_invalid_eip := w\<rparr>) = contents b"
  "contents (b\<lparr>work_scheduled := r\<rparr>) = contents b"
  "ring_cap (b\<lparr>last_task := t\<rparr>) = ring_cap b"
  "ring_cap (b\<lparr>last_is_kernel := k\<rparr>) = ring_cap b"
  "ring_cap (b\<lparr>tracing := r\<rparr>) = ring_cap b"
  "ring_cap (b\<lparr>sample_received := w\<rparr>) = ring_cap b"
  "ring_cap (b\<lparr>sample_lost_overflow := w\<rparr>) = ring_cap b"
  "ring_cap (b\<lparr>backtrace_aborted := w\<rparr>) = ring_cap b"
  "ring_cap (b\<lparr>sample_invalid_eip := w\<rparr>) = ring_cap b"
  "ring_cap (b\<lparr>work_scheduled := r\<rparr>) = ring_cap b"
  by (simp_all add: ring_ok_def contents_def ring_cap_def ring_count_def split: option.split)

lemma put_frame [frame_simps]:
  "tail_pos (put s b) = tail_pos b" "buffer_size (put s b) = buffer_size b"
  "last_task (put s b) = last_task b" "last_is_kernel (put s b) = last_is_kernel b"
  "tracing (put s b) = tracing b" "sample_received (put s b) = sample_received b"
  "sample_lost_overflow (put s b) = sample_lost_overflow b"
  "backtrace_aborted (put s b) = backtrace_aborted b"
  "sample_invalid_eip (put s b) = sample_invalid_eip b"
  "cpu (put s b) = cpu b" "work_scheduled (put s b) = work_scheduled b"
  by (simp_all add: put_def increment_head_def Let_def)

lemma put_commute [frame_simps]:
  "put s (b\<lparr>last_task := t\<rparr>) = (put s b)\<lparr>last_task := t\<rparr>"
  "put s (b\<lparr>last_is_kernel := k\<rparr>) = (put s b)\<lparr>last_is_kernel := k\<rparr>"
  "put s (b\<lparr>tracing := r\<rparr>) = (put s b)\<lparr>tracing := r\<rparr>"
  "put s (b\<lparr>sample_received := w\<rparr>) = (put s b)\<lparr>sample_received := w\<rparr>"
  by (simp_all add: put_def increment_head_def Let_def)

lemma ring_okE:
  assumes "ring_ok b"
  obtains xs where "buffer b = Some xs" "length xs = unat (buffer_size b)"
    "unat (head_pos b) < length xs" "unat (tail_pos b) < length xs"
  using assms by (auto simp: ring_ok_def word_less_nat_alt split: option.splits)

lemma length_contents: "ring_ok b \<Longrightarrow> length (contents b) = ring_count b"
  by (auto simp: contents_def elim!: ring_okE)

lemma ring_count_bound: "ring_ok b \<Longrightarrow> ring_count b < unat (buffer_size b)"
  by (auto simp: ring_count_def word_le_nat_alt elim!: ring_okE)

lemma length_contents_le: "ring_ok b \<Longrightarrow> length (contents b) \<le> ring_cap b"
  using ring_count_bound [of b] by (simp add: length_contents ring_cap_def)

text \<open>The two counting routines of the code, read on the queue.\<close>

lemma unat_nr_available_slots [ring_simps]:
  assumes "ring_ok b"
  shows "unat (nr_available_slots b) = ring_cap b - length (contents b)"
proof -
  from assms obtain xs where xs: "buffer b = Some xs" "length xs = unat (buffer_size b)"
    "unat (head_pos b) < length xs" "unat (tail_pos b) < length xs" by (rule ring_okE)
  show ?thesis
  proof (cases "head_pos b < tail_pos b")
    case True
    then have "head_pos b \<le> tail_pos b" "tail_pos b - head_pos b \<noteq> 0" by auto
    then have "unat (nr_available_slots b) = unat (tail_pos b) - unat (head_pos b) - 1"
      using True by (simp add: nr_available_slots_def unat_minus_one unat_sub)
    with True xs assms show ?thesis
      by (simp add: length_contents ring_count_def ring_cap_def word_less_nat_alt word_le_nat_alt)
  next
    case False
    let ?r = "buffer_size b - head_pos b"
    have hs: "unat ?r = unat (buffer_size b) - unat (head_pos b)"
      using assms by (intro unat_sub) (simp add: ring_ok_def less_imp_le)
    moreover have "unat (tail_pos b) + unat ?r < 2 ^ LENGTH(64)"
      using False xs hs unat_ulong_bound [of "buffer_size b"]
      by (simp add: word_le_nat_alt not_less)
    ultimately have sum: "unat (tail_pos b + ?r) = unat (tail_pos b) + unat ?r"
      by (simp add: unat_word_ariths)
    with hs xs have "tail_pos b + ?r \<noteq> 0" by (auto simp: unat_eq_0 [symmetric])
    with False sum have "unat (nr_available_slots b) = unat (tail_pos b) + unat ?r - 1"
      by (simp add: nr_available_slots_def unat_minus_one add.assoc add_diff_eq)
    with False xs assms hs show ?thesis
      by (simp add: length_contents ring_count_def ring_cap_def word_le_nat_alt not_less)
  qed
qed

lemma unat_get_slots [ring_simps]:
  assumes "ring_ok b"
  shows "unat (fst (get_slots b)) = length (contents b)"
proof -
  from assms obtain xs where xs: "buffer b = Some xs" "length xs = unat (buffer_size b)"
    "unat (head_pos b) < length xs" "unat (tail_pos b) < length xs" by (rule ring_okE)
  show ?thesis
  proof (cases "tail_pos b \<le> head_pos b")
    case True
    with assms show ?thesis
      by (simp add: get_slots_def Let_def length_contents ring_count_def unat_sub)
  next
    case False
    let ?r = "buffer_size b - tail_pos b"
    have hs: "unat ?r = unat (buffer_size b) - unat (tail_pos b)"
      using assms by (intro unat_sub) (simp add: ring_ok_def less_imp_le)
    moreover have "unat (head_pos b) + unat ?r < 2 ^ LENGTH(64)"
      using False xs hs unat_ulong_bound [of "buffer_size b"]
      by (simp add: word_le_nat_alt not_le)
    ultimately have "unat (head_pos b + ?r) = unat (head_pos b) + unat ?r"
      by (simp add: unat_word_ariths)
    with False assms xs hs show ?thesis
      by (simp add: get_slots_def Let_def length_contents ring_count_def cpu_buffer_reset_def)
  qed
qed

lemma head_pos_put: "head_pos (put s b) = (if head_pos b + 1 < buffer_size b then head_pos b + 1 else 0)"
  by (simp add: put_def increment_head_def Let_def)

lemma buffer_put: "buffer (put s b) = map_option (\<lambda>xs. xs[unat (head_pos b) := s]) (buffer b)"
  by (simp add: put_def increment_head_def Let_def)

lemma ring_ok_put [ring_simps]: "ring_ok b \<Longrightarrow> ring_ok (put s b)"
  by (auto simp: ring_ok_def head_pos_put buffer_put frame_simps word_gt_0_if_less
      split: option.splits)

lemma add_sample_put [ring_simps]:
  "ring_ok b \<Longrightarrow>
   add_sample b pc ev ts = Some (put \<lparr>eip = pc, event = ev, timestamp = ts\<rparr> b)"
  by (auto simp: add_sample_def write_slot_def put_def elim!: ring_okE)

lemma ring_count_put:
  assumes "ring_ok b"
  shows "ring_count (put s b) = (if ring_count b = ring_cap b then 0 else Suc (ring_count b))"
proof -
  from assms obtain xs where xs: "buffer b = Some xs" "length xs = unat (buffer_size b)"
    "unat (head_pos b) < length xs" "unat (tail_pos b) < length xs" by (rule ring_okE)
  have h: "unat (head_pos (put s b)) = Suc (unat (head_pos b)) mod unat (buffer_size b)"
    using assms by (simp add: head_pos_put unat_next_pos ring_ok_def del: if_split)
  show ?thesis
    using xs by (auto simp: ring_count_def ring_cap_def h word_le_nat_alt put_frame mod_Suc)
qed

text \<open>
  The central fact: below capacity \<open>put\<close> appends; at capacity the head runs into the
  tail and the ring reads as empty.
\<close>

lemma contents_put [ring_simps]:
  assumes "ring_ok b"
  shows "contents (put s b) =
    (if length (contents b) = ring_cap b then [] else contents b @ [s])"
proof -
  from assms obtain xs where xs: "buffer b = Some xs" "length xs = unat (buffer_size b)"
    "unat (head_pos b) < length xs" "unat (tail_pos b) < length xs" by (rule ring_okE)
  let ?t = "unat (tail_pos b)" and ?n = "ring_count b"
  have hp: "unat (head_pos b) = (?t + ?n) mod length xs"
    using xs by (auto simp: ring_count_def word_le_nat_alt mod_if)
  have bound: "?n < length xs" using ring_count_bound [OF assms] xs by simp
  show ?thesis
  proof (cases "?n = ring_cap b")
    case True
    then have "ring_count (put s b) = 0" using ring_count_put [OF assms] by simp
    with True show ?thesis
      by (simp add: contents_def [of "put s b"] buffer_put xs length_contents assms)
  next
    case False
    then have "ring_count (put s b) = Suc ?n" using ring_count_put [OF assms] by simp
    moreover have "circ (xs[unat (head_pos b) := s]) ?t (Suc ?n) = circ xs ?t ?n @ [s]"
      unfolding hp using bound by (rule circ_update_snoc)
    ultimately show ?thesis
      using False by (simp add: contents_def buffer_put xs put_frame length_contents assms)
  qed
qed

lemma tail_pos_increment_tail:
  "tail_pos (increment_tail b) = (if tail_pos b + 1 < buffer_size b then tail_pos b + 1 else 0)"
  by (simp add: increment_tail_def Let_def)

lemma increment_tail_frame [frame_simps]:
  "buffer (increment_tail b) = buffer b" "head_pos (increment_tail b) = head_pos b"
  "buffer_size (increment_tail b) = buffer_size b" "ring_cap (increment_tail b) = ring_cap b"
  "last_task (increment_tail b) = last_task b"
  "last_is_kernel (increment_tail b) = last_is_kernel b"
  "tracing (increment_tail b) = tracing b" "cpu (increment_tail b) = cpu b"
  "sample_received (increment_tail b) = sample_received b"
  "sample_lost_overflow (increment_tail b) = sample_lost_overflow b"
  by (simp_all add: increment_tail_def Let_def ring_cap_def)

lemma ring_ok_increment_tail [ring_simps]: "ring_ok b \<Longrightarrow> ring_ok (increment_tail b)"
  by (auto simp: ring_ok_def tail_pos_increment_tail frame_simps word_gt_0_if_less
      split: option.splits)

text \<open>The reader's step takes the oldest entry.\<close>

lemma ring_front:
  assumes "ring_ok b" and "contents b \<noteq> []"
  shows "tail_entry b = Some (hd (contents b))"
    and "contents (increment_tail b) = tl (contents b)"
proof -
  from assms(1) obtain xs where xs: "buffer b = Some xs" "length xs = unat (buffer_size b)"
    "unat (head_pos b) < length xs" "unat (tail_pos b) < length xs" by (rule ring_okE)
  let ?t = "unat (tail_pos b)"
  from assms obtain n where n: "ring_count b = Suc n"
    by (metis Zero_not_Suc length_0_conv length_contents not0_implies_Suc)
  have cont: "contents b = xs ! ?t # circ xs (Suc ?t mod length xs) n"
    using xs by (simp add: contents_def n circ_Cons)
  then show "tail_entry b = Some (hd (contents b))"
    using xs by (simp add: tail_entry_def)
  have t: "unat (tail_pos (increment_tail b)) = Suc ?t mod length xs"
    using assms(1) xs by (simp add: tail_pos_increment_tail unat_next_pos ring_ok_def del: if_split)
  have "ring_count (increment_tail b) = n"
    using n xs t
    by (auto simp: ring_count_def word_le_nat_alt frame_simps mod_Suc split: if_splits)
  with t cont show "contents (increment_tail b) = tl (contents b)"
    by (simp add: contents_def [of "increment_tail b"] frame_simps xs)
qed

lemma ring_cap_put [frame_simps]: "ring_cap (put s b) = ring_cap b"
  by (simp add: ring_cap_def put_frame)

text \<open>The ring provides the interface.\<close>

interpretation ring: bounded_fifo ring_ok contents ring_cap put tail_entry increment_tail
  by unfold_locales
    (simp_all add: ring_simps frame_simps length_contents_le ring_front)

text \<open>How many more entries fit.\<close>

abbreviation free_slots :: "oprofile_cpu_buffer \<Rightarrow> nat" where
  "free_slots b \<equiv> ring_cap b - length (contents b)"

lemma nr_available_slots_less [ring_simps]:
  "ring_ok b \<Longrightarrow> nr_available_slots b < k \<longleftrightarrow> free_slots b < unat k"
  by (simp add: word_less_nat_alt ring_simps)

lemma nr_available_slots_0 [ring_simps]:
  "ring_ok b \<Longrightarrow> nr_available_slots b = 0 \<longleftrightarrow> free_slots b = 0"
  by (metis unat_eq_zero unat_nr_available_slots)

lemma put_all_frame [frame_simps]:
  "last_task (fold put ss b) = last_task b"
  "last_is_kernel (fold put ss b) = last_is_kernel b"
  "tracing (fold put ss b) = tracing b"
  "sample_received (fold put ss b) = sample_received b"
  "sample_lost_overflow (fold put ss b) = sample_lost_overflow b"
  "backtrace_aborted (fold put ss b) = backtrace_aborted b"
  "sample_invalid_eip (fold put ss b) = sample_invalid_eip b"
  "cpu (fold put ss b) = cpu b"
  "buffer_size (fold put ss b) = buffer_size b"
  by (induction ss arbitrary: b) (simp_all add: put_frame)

lemma reset_ring [ring_simps]:
  "ring_ok (cpu_buffer_reset b) = ring_ok b"
  "contents (cpu_buffer_reset b) = contents b"
  "ring_cap (cpu_buffer_reset b) = ring_cap b"
  by (simp_all add: cpu_buffer_reset_def ring_simps)

lemma get_slots_reset [ring_simps]: "snd (get_slots b) = cpu_buffer_reset b"
  by (simp add: get_slots_def Let_def)

end
