(* ===== verification/Cpu_Log.thy ===== *)
theory Cpu_Log
  imports Cpu_Buffer
begin

text \<open>
  What the logging operations of \<^verbatim>\<open>driver/cpu_buffer.c\<close> do to the queue of entries: which
  entries they append, how they count what they drop, and where they write more entries
  than they have checked room for. The facts rest on the ring's interpretation of
  \<open>bounded_fifo\<close>.
\<close>

section \<open>log_sample\<close>

text \<open>
  The entries \<open>log_sample\<close> appends for an accepted sample: a mode note when the mode
  changed, the two context notes when the task changed, and the sample.
\<close>

definition mode_of :: "int \<Rightarrow> int" where
  "mode_of is_kernel = (if is_kernel \<noteq> 0 then 1 else 0)"

definition mode_note :: "oprofile_cpu_buffer \<Rightarrow> int \<Rightarrow> op_sample list" where
  "mode_note b k =
    (if last_is_kernel b \<noteq> mode_of k
     then [\<lparr>eip = ESCAPE_CODE, event = of_int (mode_of k), timestamp = 0\<rparr>] else [])"

definition task_notes :: "oprofile_cpu_buffer \<Rightarrow> task_struct \<Rightarrow> op_sample list" where
  "task_notes b task =
    (if last_task b \<noteq> task_addr task
     then [\<lparr>eip = ESCAPE_CODE, event = RR_CPU_CTX_TGID, timestamp = scast (task_tgid task)\<rparr>,
           \<lparr>eip = ESCAPE_CODE, event = RR_CPU_CTX_TID, timestamp = scast (task_pid task)\<rparr>]
     else [])"

definition log_entries ::
  "oprofile_cpu_buffer \<Rightarrow> task_struct \<Rightarrow> ulong \<Rightarrow> int \<Rightarrow> ulong \<Rightarrow> op_sample list" where
  "log_entries b task pc k ev =
     mode_note b k @ task_notes b task @ [\<lparr>eip = pc, event = ev, timestamp = 0\<rparr>]"

lemma length_log_entries:
  "length (log_entries b task pc k ev) =
     (if last_is_kernel b \<noteq> mode_of k then 1 else 0) +
     (if last_task b \<noteq> task_addr task then 2 else 0) + 1"
  by (simp add: log_entries_def mode_note_def task_notes_def)

lemma log_entries_le_4: "length (log_entries b task pc k ev) \<le> 4"
  by (simp add: length_log_entries)

lemma log_sample_invalid:
  "log_sample task b ESCAPE_CODE k ev =
     Some (False, b\<lparr>sample_received := sample_received b + 1,
                    sample_invalid_eip := sample_invalid_eip b + 1\<rparr>)"
  by (simp add: log_sample_def)

lemma log_sample_no_room:
  "ring_ok b \<Longrightarrow> pc \<noteq> ESCAPE_CODE \<Longrightarrow> free_slots b < 3 \<Longrightarrow>
   log_sample task b pc k ev =
     Some (False, b\<lparr>sample_received := sample_received b + 1,
                    sample_lost_overflow := sample_lost_overflow b + 1\<rparr>)"
  by (simp add: log_sample_def ring_simps)

text \<open>The accepted case as one equation: the counters, the notes' memory, and the entries.\<close>

lemma log_sample_accept:
  assumes "ring_ok b" and "pc \<noteq> ESCAPE_CODE" and "3 \<le> free_slots b"
  shows "log_sample task b pc k ev =
    Some (True, fold put (log_entries b task pc k ev)
                 (b\<lparr>sample_received := sample_received b + 1,
                    last_is_kernel := mode_of k, last_task := task_addr task\<rparr>))"
proof -
  have k: "(if k \<noteq> 0 then 1 else 0) = mode_of k" by (simp add: mode_of_def)
  show ?thesis
    using assms
    by (simp add: log_sample_def Let_def k log_entries_def mode_note_def task_notes_def
        add_code_def add_code_ctx_rr_def ring_simps frame_simps bind_eq_Some_conv)
qed

lemma log_sample_fits:
  assumes "ring_ok b" and "pc \<noteq> ESCAPE_CODE" and "3 \<le> free_slots b"
    and "length (log_entries b task pc k ev) \<le> free_slots b"
  shows "\<exists>b'. log_sample task b pc k ev = Some (True, b') \<and> ring_ok b' \<and>
    contents b' = contents b @ log_entries b task pc k ev \<and>
    last_is_kernel b' = mode_of k \<and> last_task b' = task_addr task \<and>
    sample_received b' = sample_received b + 1 \<and>
    sample_lost_overflow b' = sample_lost_overflow b \<and>
    sample_invalid_eip b' = sample_invalid_eip b \<and> tracing b' = tracing b"
  using assms length_contents_le [OF assms(1)]
  by (simp add: log_sample_accept ring.inv_enq_all ring.items_enq_all ring_simps frame_simps)

text \<open>When the notes and the sample fit behind what is queued, \<open>log_sample\<close> returns 1,
  keeps the ring well-formed, and appends exactly these entries in order; it remembers the
  mode and the task it noted, and counts one received sample and nothing lost.\<close>

theorem log_sample_appends:
  assumes "ring_ok b" and "pc \<noteq> ESCAPE_CODE" and "3 \<le> free_slots b"
    and "length (log_entries b task pc k ev) \<le> free_slots b"
  shows "\<exists>b'. log_sample task b pc k ev = Some (True, b') \<and> ring_ok b' \<and>
    contents b' = contents b @ log_entries b task pc k ev \<and>
    last_is_kernel b' = mode_of k \<and> last_task b' = task_addr task \<and>
    sample_received b' = sample_received b + 1 \<and>
    sample_lost_overflow b' = sample_lost_overflow b \<and>
    sample_invalid_eip b' = sample_invalid_eip b \<and> tracing b' = tracing b"
  using assms by (rule log_sample_fits)

text \<open>C21: the room check of \<open>log_sample\<close> is one slot short of what it may write. With
  exactly three free slots and a sample that changes both the mode and the task, the code
  reports success, but the fourth entry moves the head onto the tail: everything that was
  queued, and the sample itself, is lost, and no counter records it.\<close>

theorem log_sample_three_slots_loses_all:
  assumes "ring_ok b" and "pc \<noteq> ESCAPE_CODE" and "free_slots b = 3"
    and "last_is_kernel b \<noteq> mode_of k" and "last_task b \<noteq> task_addr task"
  shows "\<exists>b'. log_sample task b pc k ev = Some (True, b') \<and> contents b' = [] \<and>
    sample_lost_overflow b' = sample_lost_overflow b"
proof -
  let ?b = "b\<lparr>sample_received := sample_received b + 1,
              last_is_kernel := mode_of k, last_task := task_addr task\<rparr>"
  have "length (contents ?b) + length (log_entries b task pc k ev) = Suc (ring_cap ?b)"
    using assms length_contents_le [OF assms(1)] by (simp add: length_log_entries ring_simps)
  with assms have "contents (fold put (log_entries b task pc k ev) ?b) = []"
    by (intro ring.items_enq_one_too_many) (simp_all add: ring_simps)
  with assms show ?thesis by (simp add: log_sample_accept frame_simps)
qed

text \<open>Whatever its arguments, \<open>log_sample\<close> returns normally on a well-formed ring, keeps
  it well-formed, and accounts for the sample: it is received, and either accepted or counted
  as invalid or as lost, and nothing is queued for a sample that is not accepted.\<close>

theorem log_sample_accounts:
  assumes "ring_ok b"
  shows "\<exists>r b'. log_sample task b pc k ev = Some (r, b') \<and> ring_ok b' \<and>
    sample_received b' = sample_received b + 1 \<and>
    (sample_invalid_eip b' + sample_lost_overflow b' =
       sample_invalid_eip b + sample_lost_overflow b + (if r then 0 else 1)) \<and>
    (\<not> r \<longrightarrow> contents b' = contents b)"
proof -
  consider "pc = ESCAPE_CODE" | "pc \<noteq> ESCAPE_CODE" "free_slots b < 3"
    | "pc \<noteq> ESCAPE_CODE" "3 \<le> free_slots b" by linarith
  then show ?thesis
    by cases (use assms in \<open>auto simp: log_sample_invalid log_sample_no_room
      log_sample_accept ring.inv_enq_all ring_simps frame_simps\<close>)
qed

section \<open>Backtraces\<close>

abbreviation trace_entry :: "ulong \<Rightarrow> op_sample" where
  "trace_entry pc \<equiv> \<lparr>eip = pc, event = 0, timestamp = 0\<rparr>"

lemma add_trace_ok:
  "ring_ok b \<Longrightarrow> tracing b \<Longrightarrow> 0 < free_slots b \<Longrightarrow> pc \<noteq> ESCAPE_CODE \<Longrightarrow>
   oprofile_add_trace pc b = Some (put (trace_entry pc) b)"
  by (simp add: oprofile_add_trace_def ring_simps)

lemma add_trace_idle: "\<not> tracing b \<Longrightarrow> oprofile_add_trace pc b = Some b"
  by (simp add: oprofile_add_trace_def)

lemma add_trace_aborts:
  assumes "ring_ok b" and "tracing b" and "free_slots b = 0 \<or> pc = ESCAPE_CODE"
  shows "\<exists>b'. oprofile_add_trace pc b = Some b' \<and> ring_ok b' \<and> \<not> tracing b' \<and>
    contents b' = contents b \<and> ring_cap b' = ring_cap b"
  using assms length_contents_le [OF assms(1)]
  by (cases "free_slots b = 0") (auto simp: oprofile_add_trace_def ring_simps)

lemma for_each_trace_idle: "\<not> tracing b \<Longrightarrow> for_each oprofile_add_trace pcs b = Some b"
  by (induction pcs) (simp_all add: add_trace_idle)

text \<open>A sequence of backtrace addresses is recorded up to the first one that equals the
  escape code or finds no room; from there on the trace is aborted and nothing more is
  written. The queue is never overrun.\<close>

lemma backtrace_appends_prefix:
  assumes "ring_ok b" and "tracing b"
  shows "\<exists>b'. for_each oprofile_add_trace pcs b = Some b' \<and> ring_ok b' \<and>
    contents b' = contents b @
      map trace_entry (take (free_slots b) (takeWhile (\<lambda>pc. pc \<noteq> ESCAPE_CODE) pcs))"
  using assms
proof (induction pcs arbitrary: b)
  case Nil
  then show ?case by simp
next
  case (Cons pc pcs)
  show ?case
  proof (cases "free_slots b = 0 \<or> pc = ESCAPE_CODE")
    case True
    with Cons.prems obtain b1 where "oprofile_add_trace pc b = Some b1" "ring_ok b1"
      "\<not> tracing b1" "contents b1 = contents b" using add_trace_aborts by blast
    with True show ?thesis by (auto simp: for_each_trace_idle)
  next
    case False
    then have free: "0 < free_slots b" "pc \<noteq> ESCAPE_CODE" by simp_all
    let ?b = "put (trace_entry pc) b"
    have b: "ring_ok ?b" "tracing ?b" "contents ?b = contents b @ [trace_entry pc]"
      "free_slots b = Suc (free_slots ?b)"
      using Cons.prems free by (simp_all add: ring_simps frame_simps)
    from Cons.IH [OF b(1,2)] show ?thesis
      using Cons.prems free b by (simp add: add_trace_ok)
  qed
qed

lemma begin_trace_ok:
  "ring_ok b \<Longrightarrow> 4 \<le> free_slots b \<Longrightarrow>
   oprofile_begin_trace b =
     Some (True, (put \<lparr>eip = ESCAPE_CODE, event = CPU_TRACE_BEGIN, timestamp = 0\<rparr> b)
                   \<lparr>tracing := True\<rparr>)"
  by (simp add: oprofile_begin_trace_def add_code_def ring_simps)

lemma ext_sample_trace:
  assumes "ring_ok b" and "pc \<noteq> ESCAPE_CODE" and "depth \<noteq> 0" and "4 \<le> free_slots b"
    and "Suc (length (log_entries b task pc k ev)) \<le> free_slots b"
    and "\<And>b. bt regs (ucast depth) b = for_each oprofile_add_trace pcs b"
  shows "\<exists>b'. oprofile_add_ext_sample (Some bt) depth task pc regs ev k b = Some b' \<and>
    ring_ok b' \<and> \<not> tracing b' \<and>
    contents b' = contents b @
      [\<lparr>eip = ESCAPE_CODE, event = CPU_TRACE_BEGIN, timestamp = 0\<rparr>] @
      log_entries b task pc k ev @
      map trace_entry (take (free_slots b - Suc (length (log_entries b task pc k ev)))
        (takeWhile (\<lambda>pc. pc \<noteq> ESCAPE_CODE) pcs))"
proof -
  let ?m = "\<lparr>eip = ESCAPE_CODE, event = CPU_TRACE_BEGIN, timestamp = 0\<rparr>"
  let ?b = "(put ?m b)\<lparr>tracing := True\<rparr>"
  have lt: "length (contents b) < ring_cap b" using assms(4) by linarith
  have b: "ring_ok ?b" "contents ?b = contents b @ [?m]"
    using assms lt by (simp_all add: ring_simps frame_simps)
  have f: "free_slots b = Suc (free_slots ?b)"
    using assms lt by (simp add: ring_simps frame_simps Suc_diff_Suc)
  have e: "log_entries ?b task pc k ev = log_entries b task pc k ev"
    by (simp add: log_entries_def mode_note_def task_notes_def frame_simps)
  obtain b1 where b1: "log_sample task ?b pc k ev = Some (True, b1)" "ring_ok b1" "tracing b1"
    "contents b1 = contents b @ [?m] @ log_entries b task pc k ev"
    using log_sample_fits [OF b(1) assms(2), of task k ev] assms b e f by auto
  from b1(1) have "ring_cap b1 = ring_cap b"
    using b assms by (auto simp: log_sample_accept ring.cap_enq_all ring_simps frame_simps)
  with backtrace_appends_prefix [OF b1(2,3), of pcs] b1 assms
  show ?thesis
    by (auto simp: oprofile_add_ext_sample_def begin_trace_ok oprofile_end_trace_def ring_simps)
qed

text \<open>C20: a sample with a backtrace is queued as the begin mark, the notes and the sample,
  and the recorded prefix of the callback's addresses, provided the mark, the notes and the
  sample fit. The trace is closed at the end.\<close>

theorem ext_sample_with_backtrace:
  assumes "ring_ok b" and "pc \<noteq> ESCAPE_CODE" and "depth \<noteq> 0" and "4 \<le> free_slots b"
    and "Suc (length (log_entries b task pc k ev)) \<le> free_slots b"
    and "bt = (\<lambda>regs d. for_each oprofile_add_trace (pcs regs d))"
  shows "\<exists>b'. oprofile_add_ext_sample (Some bt) depth task pc regs ev k b = Some b' \<and>
    ring_ok b' \<and> \<not> tracing b' \<and>
    contents b' = contents b @
      [\<lparr>eip = ESCAPE_CODE, event = CPU_TRACE_BEGIN, timestamp = 0\<rparr>] @
      log_entries b task pc k ev @
      map trace_entry (take (free_slots b - Suc (length (log_entries b task pc k ev)))
        (takeWhile (\<lambda>pc. pc \<noteq> ESCAPE_CODE) (pcs regs (ucast depth))))"
  using ext_sample_trace [OF assms(1-5), where bt = bt and regs = regs and pcs = "pcs regs (ucast depth)"]
    assms(6) by simp

section \<open>Writers that check no room\<close>

text \<open>The timestamp entries of a sample are written without a check for room. On a
  full ring the write moves the head onto the tail, and all queued entries are lost.\<close>

theorem sample_start_on_full_ring_loses_all:
  assumes "ring_ok b" and "free_slots b = 0"
  shows "\<exists>b'. oprofile_add_sample_start ts b = Some b' \<and> contents b' = [] \<and>
    sample_lost_overflow b' = sample_lost_overflow b"
  using assms length_contents_le [OF assms(1)]
  by (simp add: oprofile_add_sample_start_def ring_simps frame_simps)

section \<open>Allocation\<close>

lemma init_cpu_buffer_ok:
  assumes "length xs = unat sz" and "0 < sz"
  shows "ring_ok (init_cpu_buffer i sz xs) \<and> contents (init_cpu_buffer i sz xs) = [] \<and>
    ring_cap (init_cpu_buffer i sz xs) = unat sz - 1"
  using assms
  by (simp add: init_cpu_buffer_def ring_ok_def contents_def ring_count_def ring_cap_def)

lemma free_cpu_buffers_other:
  "j \<notin> set cpus \<Longrightarrow> free_cpu_buffers cpus bufs j = bufs j"
  by (induction cpus arbitrary: bufs) simp_all

lemma free_cpu_buffers_None:
  "buffer (bufs j) = None \<or> j \<in> set cpus \<Longrightarrow> buffer (free_cpu_buffers cpus bufs j) = None"
  by (induction cpus arbitrary: bufs) auto

lemma free_cpu_buffers_frame [frame_simps]:
  "work_scheduled (free_cpu_buffers cpus bufs i) = work_scheduled (bufs i)"
  "cpu (free_cpu_buffers cpus bufs i) = cpu (bufs i)"
  by (induction cpus arbitrary: bufs) auto

lemma alloc_loop_other:
  "j \<notin> set cpus \<Longrightarrow> snd (alloc_loop vm sz cpus bufs) j = bufs j"
  by (induction cpus arbitrary: bufs) (auto split: option.splits)

lemma alloc_loop_init:
  assumes "alloc_loop vm sz cpus bufs = (True, bufs')" and "distinct cpus" and "i \<in> set cpus"
  shows "\<exists>xs. vm i (24 * sz) = Some xs \<and> bufs' i = init_cpu_buffer i sz xs"
  using assms
proof (induction cpus arbitrary: bufs)
  case Nil
  then show ?case by simp
next
  case (Cons c cpus)
  then show ?case
    by (auto split: option.splits) (metis alloc_loop_other fun_upd_same snd_conv)
qed

text \<open>A successful allocation gives every possible CPU an empty ring, when the allocator
  returns areas of the requested number of bytes and that number did not wrap around.\<close>

lemma alloc_cpu_buffers_rings:
  assumes "distinct possible" and "alloc_cpu_buffers vm possible sz bufs = (rc_ok, bufs')"
    and "\<And>i n xs. vm i n = Some xs \<Longrightarrow> 0 < n \<and> length xs = unat n div 24"
    and "24 * unat sz < 2 ^ 64" and "i \<in> set possible"
  shows "ring_ok (bufs' i) \<and> contents (bufs' i) = [] \<and> ring_cap (bufs' i) = unat sz - 1 \<and>
    cpu (bufs' i) = i"
proof -
  have "alloc_loop vm sz possible bufs = (True, bufs')"
    using assms(2) by (auto simp: alloc_cpu_buffers_def split: prod.splits bool.splits)
  from alloc_loop_init [OF this assms(1,5)] obtain xs where
    xs: "vm i (24 * sz) = Some xs" "bufs' i = init_cpu_buffer i sz xs" by blast
  have "unat (24 * sz) = 24 * unat sz" using assms(4) by (simp add: unat_word_ariths)
  with assms(3) [OF xs(1)] have "length xs = unat sz" "0 < sz" by (auto simp: word_gt_0)
  then show ?thesis using init_cpu_buffer_ok [of xs sz i] xs(2) by (simp add: init_cpu_buffer_def)
qed

lemma alloc_cpu_buffers_work:
  assumes "alloc_cpu_buffers vm possible sz bufs = (r, bufs')" and "work_scheduled (bufs' i)"
  shows "work_scheduled (bufs i)"
proof -
  have loop: "\<not> work_scheduled (snd (alloc_loop vm sz cpus bs) i)"
    if "\<not> work_scheduled (bs i)" for cpus bs
    using that
    by (induction cpus arbitrary: bs) (auto simp: init_cpu_buffer_def split: option.split)
  show ?thesis
  proof (rule ccontr)
    assume "\<not> work_scheduled (bufs i)"
    with loop [of bufs possible] assms show False
      by (auto simp: alloc_cpu_buffers_def frame_simps split: prod.splits bool.splits)
  qed
qed

text \<open>Allocating the CPU buffers is all or nothing: either every possible CPU gets an empty,
  well-formed ring of the configured size, or the result is \<^verbatim>\<open>-ENOMEM\<close> and no possible CPU
  keeps a buffer, whatever areas the allocator returned before it failed.\<close>

theorem alloc_cpu_buffers_all_or_nothing:
  assumes "distinct possible" and "alloc_cpu_buffers vm possible sz bufs = (r, bufs')"
    and "\<And>i n xs. vm i n = Some xs \<Longrightarrow> 0 < n \<and> length xs = unat n div 24"
    and "24 * unat sz < 2 ^ 64"
  shows "if r = rc_ok then (\<forall>i \<in> set possible. ring_ok (bufs' i) \<and> contents (bufs' i) = [] \<and>
            ring_cap (bufs' i) = unat sz - 1)
    else r = Inl ENOMEM \<and> (\<forall>i \<in> set possible. buffer (bufs' i) = None)"
proof (cases "r = rc_ok")
  case True
  with alloc_cpu_buffers_rings [OF assms(1) _ assms(3,4)] assms(2) show ?thesis by simp
next
  case False
  with assms(2) show ?thesis
    by (auto simp: alloc_cpu_buffers_def free_cpu_buffers_None split: prod.splits bool.splits)
qed

text \<open>The byte count is not checked for overflow. With an \<^verbatim>\<open>oprofile_cpu_buffer_size\<close>
  whose product with the entry size wraps around to less than one entry per CPU, the
  allocation succeeds and the first logged entry is written outside the allocated area.\<close>

theorem alloc_size_wraps:
  assumes "vm i (24 * sz) = Some []" and "i \<in> set possible" and "distinct possible"
    and "\<And>j. j \<in> set possible \<Longrightarrow> vm j (24 * sz) \<noteq> None"
  shows "\<exists>bufs'. alloc_cpu_buffers vm possible sz bufs = (rc_ok, bufs') \<and>
    add_sample (bufs' i) pc ev ts = None"
proof -
  have ok: "fst (alloc_loop vm sz cpus bufs)" if "set cpus \<subseteq> set possible" for cpus bufs
    using that assms(4) by (induction cpus arbitrary: bufs) (auto split: option.splits)
  then obtain bufs' where l: "alloc_loop vm sz possible bufs = (True, bufs')"
    by (metis order.refl prod.exhaust_sel)
  with alloc_loop_init [OF this assms(3,2)] assms(1) show ?thesis
    by (auto simp: alloc_cpu_buffers_def add_sample_def write_slot_def init_cpu_buffer_def)
qed

end
