(* ===== verification/Bounded_Log.thy ===== *)
theory Bounded_Log
  imports Prelude
begin

text \<open>
  The interface of the global event buffer to the code that fills it (\<^verbatim>\<open>sync_buffer\<close>, the
  start and stop notes of \<^verbatim>\<open>oprof.c\<close>, \<^verbatim>\<open>oprofile_put_buff\<close>): a log of bounded length that
  accepts words one at a time, drops what does not fit, and counts what it drops. Clients
  add batches of words; what a batch does to the log is proved here once.
\<close>

locale bounded_log =
  fixes inv :: "'s \<Rightarrow> bool"
    and entries :: "'s \<Rightarrow> 'a list"
    and cap :: "'s \<Rightarrow> nat"
    and lost :: "'s \<Rightarrow> 'w::len word"
    and add :: "'a \<Rightarrow> 's \<Rightarrow> 's option"
  assumes add_ok: "inv s \<Longrightarrow> \<exists>s'. add v s = Some s' \<and> inv s' \<and> cap s' = cap s \<and>
      entries s' = (if length (entries s) < cap s then entries s @ [v] else entries s) \<and>
      lost s' = (if length (entries s) < cap s then lost s else lost s + 1)"
    and entries_bound: "inv s \<Longrightarrow> length (entries s) \<le> cap s"
begin

lemma add_all:
  assumes "inv s"
  shows "\<exists>s'. for_each add vs s = Some s' \<and> inv s' \<and> cap s' = cap s \<and>
    entries s' = take (cap s) (entries s @ vs) \<and>
    lost s' = lost s + of_nat (length vs - (cap s - length (entries s)))"
  using assms
proof (induction vs arbitrary: s)
  case Nil
  then show ?case using entries_bound [of s] by simp
next
  case (Cons v vs)
  from add_ok [OF Cons.prems, of v] obtain s1 where s1: "add v s = Some s1" "inv s1"
    "cap s1 = cap s"
    "entries s1 = (if length (entries s) < cap s then entries s @ [v] else entries s)"
    "lost s1 = (if length (entries s) < cap s then lost s else lost s + 1)" by blast
  from Cons.IH [OF s1(2)] entries_bound [OF Cons.prems] show ?case
    by (cases "length (entries s) < cap s") (auto simp: s1)
qed

text \<open>A batch that fits is appended in order, and nothing is counted as lost.\<close>

corollary add_all_fits:
  assumes "inv s" and "length (entries s) + length vs \<le> cap s"
  shows "\<exists>s'. for_each add vs s = Some s' \<and> inv s' \<and> cap s' = cap s \<and>
    entries s' = entries s @ vs \<and> lost s' = lost s"
  using add_all [OF assms(1), of vs] assms(2) by auto

end

end
