(* ===== verification/Event_Buffer.thy ===== *)
theory Event_Buffer
  imports Bounded_Log "HOL-Library.Sublist"
begin

text \<open>
  \<^verbatim>\<open>driver/event_buffer.c\<close>: the global buffer of machine words that the user-space daemon
  reads through \<^verbatim>\<open>/dev/oprofile/buffer\<close>. Each handler runs under \<^verbatim>\<open>buffer_sem\<close> or, for open
  and release, is serialised by the \<^verbatim>\<open>buffer_opened\<close> bit, and is one operation here. The
  second half reads the buffer as a bounded log of words, states what the reader gets, and
  when it is woken.
\<close>

section \<open>State and operations\<close>

text \<open>
  The static variables of the file and the counter
  \<^verbatim>\<open>oprofile_stats.event_lost_overflow\<close>. \<open>event_buffer\<close> is the allocated array or
  \<open>None\<close> for \<^verbatim>\<open>NULL\<close>; \<open>eb_size\<close> is the file's \<^verbatim>\<open>buffer_size\<close>; the atomic flags and the bit
  \<^verbatim>\<open>buffer_opened\<close> are Booleans.
\<close>

record event_buffer_state =
  event_buffer :: "ulong list option"
  eb_size :: ulong
  buffer_watershed :: ulong
  buffer_pos :: ulong
  buffer_ready :: bool
  buffer_dump :: bool
  buffer_opened :: bool
  event_lost_overflow :: u32

text \<open>The outcome of a blocking call: it sleeps, or it returns.\<close>

datatype 'a sysret = Blocks | Done 'a

definition add_event_entry ::
  "ulong \<Rightarrow> event_buffer_state \<Rightarrow> event_buffer_state option" where
  "add_event_entry value e =
    (if buffer_pos e = eb_size e then
       Some (e\<lparr>event_lost_overflow := event_lost_overflow e + 1\<rparr>)
     else
       case event_buffer e of
         None \<Rightarrow> None
       | Some xs \<Rightarrow>
           if unat (buffer_pos e) < length xs then
             let e = e\<lparr>event_buffer := Some (xs[unat (buffer_pos e) := value]),
                       buffer_pos := buffer_pos e + 1\<rparr>
             in Some (if buffer_pos e = eb_size e - buffer_watershed e
                      then e\<lparr>buffer_ready := True\<rparr> else e)
           else None)"

definition wake_up_buffer_waiter :: "event_buffer_state \<Rightarrow> event_buffer_state" where
  "wake_up_buffer_waiter e = e\<lparr>buffer_ready := True, buffer_dump := True\<rparr>"

text \<open>
  \<^verbatim>\<open>alloc_event_buffer\<close>; the two sizes are the values of \<^verbatim>\<open>oprofile_buffer_size\<close> and
  \<^verbatim>\<open>oprofile_buffer_watershed\<close>, and \<open>vmalloc\<close> maps a number of bytes to the words of the
  allocated area, \<open>None\<close> on failure.
\<close>

definition alloc_event_buffer ::
  "(ulong \<Rightarrow> ulong list option) \<Rightarrow> ulong \<Rightarrow> ulong \<Rightarrow> event_buffer_state \<Rightarrow>
   rc \<times> event_buffer_state" where
  "alloc_event_buffer vmalloc oprofile_buffer_size oprofile_buffer_watershed e =
    (let e = e\<lparr>eb_size := oprofile_buffer_size,
               buffer_watershed := oprofile_buffer_watershed\<rparr>
     in if buffer_watershed e \<ge> eb_size e then (Inl EINVAL, e)
        else
          let e = e\<lparr>event_buffer := vmalloc (8 * eb_size e)\<rparr>
          in if event_buffer e = None then (Inl ENOMEM, e) else (rc_ok, e))"

definition free_event_buffer :: "event_buffer_state \<Rightarrow> event_buffer_state" where
  "free_event_buffer e = e\<lparr>event_buffer := None\<rparr>"

text \<open>
  \<^verbatim>\<open>event_buffer_read\<close>. \<open>sig\<close>: a signal is pending for the caller; \<open>copy_ok\<close>:
  \<^verbatim>\<open>copy_to_user\<close> succeeds. On success the result is the words copied, the C result being
  their size in bytes. Copying from a null pointer is a fault unless nothing is copied.
\<close>

definition event_buffer_read ::
  "bool \<Rightarrow> bool \<Rightarrow> ulong \<Rightarrow> int \<Rightarrow> event_buffer_state \<Rightarrow>
   ((errno + ulong list) \<times> event_buffer_state) sysret option" where
  "event_buffer_read sig copy_ok count offset e =
    (let max = eb_size e * 8 in
     if count \<noteq> max \<or> offset \<noteq> 0 then Some (Done (Inl EINVAL, e))
     else if \<not> buffer_dump e \<and> \<not> buffer_ready e \<and> \<not> sig then Some Blocks
     else if sig then Some (Done (Inl EINTR, e))
     else if \<not> buffer_ready e then Some (Done (Inl EAGAIN, e))
     else
       let e = e\<lparr>buffer_ready := False\<rparr> in
       case (event_buffer e, buffer_pos e = 0) of
         (None, False) \<Rightarrow> None
       | (ev, _) \<Rightarrow>
           if \<not> copy_ok then Some (Done (Inl EFAULT, e))
           else Some (Done (Inr (take (unat (buffer_pos e)) (case ev of None \<Rightarrow> [] | Some xs \<Rightarrow> xs)),
                            e\<lparr>buffer_pos := 0\<rparr>)))"

definition event_buffer_write ::
  "nat \<Rightarrow> event_buffer_state \<Rightarrow> (errno + nat) \<times> event_buffer_state" where
  "event_buffer_write count e = (Inr count, wake_up_buffer_waiter e)"

section \<open>The buffer as a bounded log of words\<close>

definition eb_ok :: "event_buffer_state \<Rightarrow> bool" where
  "eb_ok e \<longleftrightarrow>
     (case event_buffer e of None \<Rightarrow> False | Some xs \<Rightarrow> length xs = unat (eb_size e)) \<and>
     buffer_pos e \<le> eb_size e \<and> buffer_watershed e < eb_size e"

definition ev_words :: "event_buffer_state \<Rightarrow> ulong list" where
  "ev_words e = (case event_buffer e of None \<Rightarrow> [] | Some xs \<Rightarrow> take (unat (buffer_pos e)) xs)"

abbreviation eb_cap :: "event_buffer_state \<Rightarrow> nat" where
  "eb_cap e \<equiv> unat (eb_size e)"

text \<open>The fill level at which the reader is woken.\<close>

definition wake_level :: "event_buffer_state \<Rightarrow> nat" where
  "wake_level e = unat (eb_size e) - unat (buffer_watershed e)"

lemma eb_okE:
  assumes "eb_ok e"
  obtains xs where "event_buffer e = Some xs" "length xs = unat (eb_size e)"
    "unat (buffer_pos e) \<le> unat (eb_size e)"
    "unat (buffer_watershed e) < unat (eb_size e)"
  using assms by (auto simp: eb_ok_def word_less_nat_alt word_le_nat_alt split: option.splits)

lemma length_ev_words [ev_simps]: "eb_ok e \<Longrightarrow> length (ev_words e) = unat (buffer_pos e)"
  by (auto simp: ev_words_def elim!: eb_okE)

lemma wake_level_unat:
  "eb_ok e \<Longrightarrow> unat (eb_size e - buffer_watershed e) = wake_level e"
  by (auto simp: wake_level_def eb_ok_def intro!: unat_sub)

lemma eb_lost_frame [ev_simps]:
  "eb_ok (e\<lparr>event_lost_overflow := n\<rparr>) = eb_ok e"
  "ev_words (e\<lparr>event_lost_overflow := n\<rparr>) = ev_words e"
  "eb_ok (e\<lparr>buffer_ready := r\<rparr>) = eb_ok e" "ev_words (e\<lparr>buffer_ready := r\<rparr>) = ev_words e"
  "eb_ok (e\<lparr>buffer_dump := r\<rparr>) = eb_ok e" "ev_words (e\<lparr>buffer_dump := r\<rparr>) = ev_words e"
  "eb_ok (e\<lparr>buffer_opened := r\<rparr>) = eb_ok e" "ev_words (e\<lparr>buffer_opened := r\<rparr>) = ev_words e"
  by (simp_all add: eb_ok_def ev_words_def split: option.split)

lemma wake_up_simps [ev_simps]:
  "eb_ok (wake_up_buffer_waiter e) = eb_ok e" "ev_words (wake_up_buffer_waiter e) = ev_words e"
  "buffer_ready (wake_up_buffer_waiter e)" "buffer_dump (wake_up_buffer_waiter e)"
  by (simp_all add: wake_up_buffer_waiter_def eb_lost_frame)

text \<open>One entry, on every branch.\<close>

lemma add_event_entry_full:
  assumes "eb_ok e" and "length (ev_words e) = eb_cap e"
  shows "add_event_entry v e = Some (e\<lparr>event_lost_overflow := event_lost_overflow e + 1\<rparr>)"
  using assms by (simp add: add_event_entry_def ev_simps word_unat_eq_iff)

lemma add_event_entry_room:
  assumes "eb_ok e" and "length (ev_words e) < eb_cap e"
  shows "\<exists>e'. add_event_entry v e = Some e' \<and> eb_ok e' \<and>
    ev_words e' = ev_words e @ [v] \<and> eb_size e' = eb_size e \<and>
    buffer_watershed e' = buffer_watershed e \<and>
    event_lost_overflow e' = event_lost_overflow e \<and>
    buffer_dump e' = buffer_dump e \<and> buffer_opened e' = buffer_opened e \<and>
    (buffer_ready e' \<longleftrightarrow> buffer_ready e \<or> Suc (length (ev_words e)) = wake_level e)"
proof -
  from assms(1) obtain xs where xs: "event_buffer e = Some xs" "length xs = unat (eb_size e)"
    "unat (buffer_pos e) \<le> unat (eb_size e)" "unat (buffer_watershed e) < unat (eb_size e)"
    by (rule eb_okE)
  have lt: "buffer_pos e < eb_size e" using assms by (simp add: ev_simps word_less_nat_alt)
  then have s: "unat (buffer_pos e + 1) = Suc (unat (buffer_pos e))" by (rule unat_Suc_less)
  have lvl: "buffer_pos e + 1 = eb_size e - buffer_watershed e \<longleftrightarrow>
      Suc (length (ev_words e)) = wake_level e"
    using wake_level_unat [OF assms(1)] s length_ev_words [OF assms(1)]
    by (metis word_unat_eq_iff)
  have le: "buffer_pos e + 1 \<le> eb_size e" using lt s xs by (simp add: word_le_nat_alt word_less_nat_alt)
  have ne: "buffer_pos e \<noteq> eb_size e" and i: "unat (buffer_pos e) < length xs"
    using lt xs by (auto simp: word_less_nat_alt)
  have app: "take (Suc (unat (buffer_pos e))) (xs[unat (buffer_pos e) := v]) =
      take (unat (buffer_pos e)) xs @ [v]"
    using i by (simp add: take_Suc_conv_app_nth)
  let ?e = "e\<lparr>event_buffer := Some (xs[unat (buffer_pos e) := v]), buffer_pos := buffer_pos e + 1\<rparr>"
  have "add_event_entry v e =
      Some (if Suc (length (ev_words e)) = wake_level e then ?e\<lparr>buffer_ready := True\<rparr> else ?e)"
    using ne i xs(1) lvl by (simp add: add_event_entry_def Let_def)
  moreover have "eb_ok ?e" using assms(1) xs le by (simp add: eb_ok_def)
  moreover have "ev_words ?e = ev_words e @ [v]"
    using xs app by (simp add: ev_words_def s)
  ultimately show ?thesis by (simp add: ev_simps)
qed

lemma ev_words_le_cap: "eb_ok e \<Longrightarrow> length (ev_words e) \<le> eb_cap e"
  by (auto simp: ev_simps elim!: eb_okE)

interpretation evlog: bounded_log eb_ok ev_words eb_cap event_lost_overflow add_event_entry
proof unfold_locales
  fix e v
  assume e: "eb_ok e"
  show "\<exists>e'. add_event_entry v e = Some e' \<and> eb_ok e' \<and> eb_cap e' = eb_cap e \<and>
      ev_words e' = (if length (ev_words e) < eb_cap e then ev_words e @ [v] else ev_words e) \<and>
      event_lost_overflow e' =
        (if length (ev_words e) < eb_cap e then event_lost_overflow e
         else event_lost_overflow e + 1)"
  proof (cases "length (ev_words e) < eb_cap e")
    case True
    with add_event_entry_room [OF e, of v] show ?thesis by auto
  next
    case False
    then have "length (ev_words e) = eb_cap e" using ev_words_le_cap [OF e] by simp
    with e show ?thesis by (simp add: add_event_entry_full ev_simps)
  qed
qed (rule ev_words_le_cap)

abbreviation add_event_entries ::
  "ulong list \<Rightarrow> event_buffer_state \<Rightarrow> event_buffer_state option" where
  "add_event_entries \<equiv> for_each add_event_entry"

text \<open>The fields a batch does not touch, and when it wakes the reader.\<close>

lemma add_event_entry_frame:
  assumes "add_event_entry v e = Some e'"
  shows "eb_size e' = eb_size e \<and> buffer_watershed e' = buffer_watershed e \<and>
    buffer_dump e' = buffer_dump e \<and> buffer_opened e' = buffer_opened e \<and>
    (buffer_ready e \<longrightarrow> buffer_ready e')"
  using assms by (auto simp: add_event_entry_def Let_def split: if_splits option.splits)

lemma add_event_entries_frame:
  assumes "add_event_entries vs e = Some e'"
  shows "eb_size e' = eb_size e \<and> buffer_watershed e' = buffer_watershed e \<and>
    buffer_dump e' = buffer_dump e \<and> buffer_opened e' = buffer_opened e \<and>
    (buffer_ready e \<longrightarrow> buffer_ready e')"
  using assms
proof (induction vs arbitrary: e)
  case Nil
  then show ?case by simp
next
  case (Cons v vs)
  then obtain e1 where "add_event_entry v e = Some e1" "add_event_entries vs e1 = Some e'"
    by (auto split: option.splits)
  with Cons.IH [of e1] add_event_entry_frame [of v e e1] show ?case by simp
qed

lemma add_event_entries_ok:
  assumes "eb_ok e" and "add_event_entries vs e = Some e'"
  shows "eb_ok e'"
  using evlog.add_all [OF assms(1), of vs] assms(2) by auto

lemma add_event_entries_ready:
  assumes "eb_ok e" and "add_event_entries vs e = Some e'"
  shows "buffer_ready e' \<longleftrightarrow>
    buffer_ready e \<or> (length (ev_words e) < wake_level e \<and> wake_level e \<le> length (ev_words e'))"
  using assms
proof (induction vs arbitrary: e)
  case Nil
  then show ?case by auto
next
  case (Cons v vs)
  then obtain e1 where e1: "add_event_entry v e = Some e1" "add_event_entries vs e1 = Some e'"
    by (auto split: option.splits)
  have le: "wake_level e \<le> eb_cap e" by (simp add: wake_level_def)
  show ?case
  proof (cases "length (ev_words e) < eb_cap e")
    case True
    with add_event_entry_room [OF Cons.prems(1), of v] e1(1)
    have 1: "eb_ok e1" "ev_words e1 = ev_words e @ [v]" "wake_level e1 = wake_level e"
      "buffer_ready e1 \<longleftrightarrow> buffer_ready e \<or> Suc (length (ev_words e)) = wake_level e"
      by (auto simp: wake_level_def)
    from evlog.add_all [OF 1(1), of vs] e1(2) ev_words_le_cap [OF 1(1)]
    have "length (ev_words e1) \<le> length (ev_words e')" by auto
    with Cons.IH [OF 1(1) e1(2)] 1 show ?thesis by auto
  next
    case False
    then have eq: "length (ev_words e) = eb_cap e"
      using ev_words_le_cap [OF Cons.prems(1)] by simp
    with Cons.prems e1 have "e1 = e\<lparr>event_lost_overflow := event_lost_overflow e + 1\<rparr>"
      by (simp add: add_event_entry_full)
    with Cons.IH [of e1] Cons.prems e1 eq le show ?thesis
      by (simp add: ev_simps wake_level_def)
  qed
qed

text \<open>Allocation, when the byte count does not wrap around.\<close>

lemma alloc_event_buffer_spec:
  assumes "alloc_event_buffer vm sz ws e = (r, e')" and "8 * unat sz < 2 ^ 64"
    and "\<And>n xs. vm n = Some xs \<Longrightarrow> length xs = unat n div 8" and "buffer_pos e = 0"
  shows "(r = rc_ok \<longrightarrow> eb_ok e' \<and> ev_words e' = [] \<and> eb_size e' = sz \<and> ws < sz) \<and>
    buffer_pos e' = 0 \<and> buffer_opened e' = buffer_opened e"
proof -
  have "length xs = unat sz" if "vm (8 * sz) = Some xs" for xs
    using assms(3) [OF that] assms(2) by (simp add: unat_word_ariths)
  then show ?thesis
    using assms(1,4)
    by (auto simp: alloc_event_buffer_def Let_def eb_ok_def ev_words_def not_le split: if_splits)
qed

section \<open>Properties\<close>

text \<open>C33: a batch of words written to an allocated event buffer never faults; the words that
  fit are appended in order, the rest is dropped from the end of the batch and counted in
  \<^verbatim>\<open>event_lost_overflow\<close>; and the reader is woken exactly when the fill level reaches
  \<^verbatim>\<open>buffer_size - buffer_watershed\<close> from below.\<close>

theorem add_event_entries_refines:
  assumes "eb_ok e"
  shows "\<exists>e'. add_event_entries vs e = Some e' \<and> eb_ok e' \<and>
    ev_words e' = take (eb_cap e) (ev_words e @ vs) \<and>
    event_lost_overflow e' =
      event_lost_overflow e + of_nat (length vs - (eb_cap e - length (ev_words e))) \<and>
    (buffer_ready e' \<longleftrightarrow> buffer_ready e \<or>
       (length (ev_words e) < wake_level e \<and> wake_level e \<le> length (ev_words e')))"
  using evlog.add_all [OF assms, of vs] add_event_entries_ready [OF assms, of vs] by auto

text \<open>
  A history of the buffer between one open and the release: words are added by the
  kernel, the daemon reads, someone writes the dump file. The result collects what the
  reads returned.
\<close>

datatype eb_event = Add ulong | Read bool bool | Wake

fun added :: "eb_event list \<Rightarrow> ulong list" where
  "added [] = []"
| "added (Add v # evs) = v # added evs"
| "added (_ # evs) = added evs"

fun eb_step :: "eb_event \<Rightarrow> event_buffer_state \<Rightarrow> (ulong list \<times> event_buffer_state) option"
where
  "eb_step (Add v) e = map_option (Pair []) (add_event_entry v e)"
| "eb_step (Read sig copy_ok) e =
     (case event_buffer_read sig copy_ok (eb_size e * 8) 0 e of
        None \<Rightarrow> None
      | Some Blocks \<Rightarrow> Some ([], e)
      | Some (Done (Inl err, e')) \<Rightarrow> Some ([], e')
      | Some (Done (Inr ws, e')) \<Rightarrow> Some (ws, e'))"
| "eb_step Wake e = Some ([], wake_up_buffer_waiter e)"

fun eb_run :: "eb_event list \<Rightarrow> event_buffer_state \<Rightarrow> (ulong list \<times> event_buffer_state) option"
where
  "eb_run [] e = Some ([], e)"
| "eb_run (ev # evs) e =
     do { (ws, e) \<leftarrow> eb_step ev e;
          (out, e) \<leftarrow> eb_run evs e;
          Some (ws @ out, e) }"

lemma read_outcome:
  assumes "eb_ok e"
  shows "\<exists>ws e'. eb_step (Read sig copy_ok) e = Some (ws, e') \<and> eb_ok e' \<and>
    eb_size e' = eb_size e \<and> event_lost_overflow e' = event_lost_overflow e \<and>
    ws @ ev_words e' = ev_words e"
proof -
  from assms obtain xs where xs: "event_buffer e = Some xs" by (rule eb_okE)
  have z: "eb_ok (e\<lparr>buffer_ready := False, buffer_pos := 0\<rparr>)"
    using assms by (simp add: eb_ok_def split: option.splits)
  show ?thesis
    using assms z xs
    by (auto simp: event_buffer_read_def Let_def ev_simps) (simp_all add: ev_words_def)
qed

text \<open>What a history of events does between two states, in its result and its loss count.\<close>

definition delivers :: "event_buffer_state \<Rightarrow> eb_event list \<Rightarrow> ulong list \<Rightarrow> event_buffer_state \<Rightarrow> bool" where
  "delivers e evs out e' \<longleftrightarrow> eb_ok e' \<and> subseq (out @ ev_words e') (ev_words e @ added evs) \<and>
     event_lost_overflow e' = event_lost_overflow e +
       of_nat (length (ev_words e) + length (added evs) - (length out + length (ev_words e')))"

lemma delivers_add:
  assumes "delivers e1 evs out e'"
    and "ev_words e1 = (if length (ev_words e) < eb_cap e then ev_words e @ [v] else ev_words e)"
    and "event_lost_overflow e1 = (if length (ev_words e) < eb_cap e then event_lost_overflow e
      else event_lost_overflow e + 1)"
  shows "delivers e (Add v # evs) out e'"
proof -
  have r: "eb_ok e'" "subseq (out @ ev_words e') (ev_words e1 @ added evs)"
    "event_lost_overflow e' = event_lost_overflow e1 +
      of_nat (length (ev_words e1) + length (added evs) - (length out + length (ev_words e')))"
    using assms(1) by (simp_all add: delivers_def)
  have len: "length out + length (ev_words e') \<le> length (ev_words e1) + length (added evs)"
    using list_emb_length [OF r(2)] by simp
  have "subseq (ev_words e1 @ added evs) (ev_words e @ v # added evs)"
    using assms(2) by (auto simp: subseq_append')
  with r(2) have "subseq (out @ ev_words e') (ev_words e @ v # added evs)" by (rule subseq_order.trans)
  moreover have "length (ev_words e) + length (v # added evs) - (length out + length (ev_words e')) =
      (if length (ev_words e) < eb_cap e then 0 else 1) +
      (length (ev_words e1) + length (added evs) - (length out + length (ev_words e')))"
    using len by (cases "length (ev_words e) < eb_cap e") (simp_all add: assms(2) Suc_diff_le)
  then have "event_lost_overflow e' = event_lost_overflow e +
      of_nat (length (ev_words e) + length (v # added evs) - (length out + length (ev_words e')))"
    unfolding r(3) assms(3) by (simp del: of_nat_diff)
  ultimately show ?thesis using r(1) by (simp add: delivers_def)
qed

lemma delivers_read:
  assumes "delivers e1 evs out e'" and "ws @ ev_words e1 = ev_words e"
    and "event_lost_overflow e1 = event_lost_overflow e"
  shows "delivers e (Read sig c # evs) (ws @ out) e'"
  using assms(1,3) unfolding delivers_def assms(2) [symmetric]
  by (simp add: subseq_append' del: of_nat_diff)

text \<open>C8: over any history of additions, reads (blocked, interrupted, failed or successful)
  and wake-ups, the words returned by the reads followed by the words still in the buffer
  are the added words in order, less those counted as lost: no word is duplicated, reordered
  or invented.\<close>

theorem reads_return_what_was_added:
  assumes "eb_ok e"
  shows "\<exists>out e'. eb_run evs e = Some (out, e') \<and> eb_ok e' \<and>
    subseq (out @ ev_words e') (ev_words e @ added evs) \<and>
    event_lost_overflow e' = event_lost_overflow e +
      of_nat (length (ev_words e) + length (added evs) - (length out + length (ev_words e')))"
proof -
  have "\<exists>out e'. eb_run evs e = Some (out, e') \<and> delivers e evs out e'"
    using assms
  proof (induction evs arbitrary: e)
    case (Cons ev evs)
    show ?case
    proof (cases ev)
      case (Add v)
      obtain e1 where e1: "add_event_entry v e = Some e1" "eb_ok e1"
        "ev_words e1 = (if length (ev_words e) < eb_cap e then ev_words e @ [v] else ev_words e)"
        "event_lost_overflow e1 = (if length (ev_words e) < eb_cap e then event_lost_overflow e
           else event_lost_overflow e + 1)"
        using evlog.add_ok [OF Cons.prems, of v] by blast
      from Cons.IH [OF e1(2)] delivers_add [OF _ e1(3,4)] Add e1(1) show ?thesis by fastforce
    next
      case (Read sig c)
      from read_outcome [OF Cons.prems, of sig c] obtain ws e1 where e1:
        "eb_step (Read sig c) e = Some (ws, e1)" "eb_ok e1"
        "event_lost_overflow e1 = event_lost_overflow e" "ws @ ev_words e1 = ev_words e" by blast
      from Cons.IH [OF e1(2)] obtain out e' where
        "eb_run evs e1 = Some (out, e')" "delivers e1 evs out e'" by blast
      with delivers_read [OF _ e1(4,3)] Read e1(1) show ?thesis by (simp del: eb_step.simps)
    next
      case Wake
      with Cons.IH [of "wake_up_buffer_waiter e"] Cons.prems show ?thesis
        by (auto simp: wake_up_buffer_waiter_def ev_simps delivers_def)
    qed
  qed (simp add: delivers_def)
  then show ?thesis by (simp add: delivers_def)
qed

text \<open>C38: a reader whose buffer cannot be written (\<^verbatim>\<open>-EFAULT\<close>) is not woken again by new
  events: the flag \<^verbatim>\<open>buffer_ready\<close> has been cleared, the fill level stays at or above the
  wake level, and no further entry crosses it. Until somebody dumps the buffer, a blocking
  reader sleeps while every additional event is lost.\<close>

theorem efault_starves_reader:
  assumes "eb_ok e" and "buffer_ready e" and "wake_level e \<le> length (ev_words e)"
    and "event_buffer_read False False (eb_size e * 8) 0 e = Some (Done (Inl EFAULT, e1))"
    and "add_event_entries vs e1 = Some e2" and "\<not> buffer_dump e"
  shows "event_buffer_read False True (eb_size e2 * 8) 0 e2 = Some Blocks"
proof -
  from assms(1) obtain xs where "event_buffer e = Some xs" by (rule eb_okE)
  with assms(2,4) have e1: "e1 = e\<lparr>buffer_ready := False\<rparr>"
    by (auto simp: event_buffer_read_def Let_def split: if_splits)
  then have "\<not> buffer_ready e2"
    using assms add_event_entries_ready [of e1 vs e2] by (simp add: ev_simps wake_level_def)
  moreover have "\<not> buffer_dump e2"
    using add_event_entries_frame [OF assms(5)] e1 assms(6) by simp
  ultimately show ?thesis by (simp add: event_buffer_read_def Let_def)
qed

text \<open>C24: a reader that waits below the wake level is woken by any batch of words that reaches it: its
  read then returns everything that was queued, with the batch as far as it fits, and leaves
  the buffer empty.\<close>

theorem waiting_reader_gets_words:
  assumes "eb_ok e" and "length (ev_words e) < wake_level e"
    and "wake_level e \<le> length (ev_words e) + length vs" and "add_event_entries vs e = Some e1"
  shows "\<exists>e2. event_buffer_read False True (eb_size e1 * 8) 0 e1 =
      Some (Done (Inr (take (eb_cap e) (ev_words e @ vs)), e2)) \<and> eb_ok e2 \<and> ev_words e2 = []"
proof -
  from evlog.add_all [OF assms(1), of vs] assms(4) have e1: "eb_ok e1"
    "ev_words e1 = take (eb_cap e) (ev_words e @ vs)" by auto
  have "wake_level e \<le> eb_cap e" by (simp add: wake_level_def)
  then have "wake_level e \<le> length (ev_words e1)" using e1(2) assms(3) by simp
  with add_event_entries_ready [OF assms(1,4)] assms(2) have ready: "buffer_ready e1" by simp
  from e1(1) obtain xs where xs: "event_buffer e1 = Some xs" by (rule eb_okE)
  let ?e2 = "e1\<lparr>buffer_ready := False, buffer_pos := 0\<rparr>"
  have "event_buffer_read False True (eb_size e1 * 8) 0 e1 = Some (Done (Inr (ev_words e1), ?e2))"
    using ready xs by (simp add: event_buffer_read_def Let_def ev_words_def)
  moreover have "eb_ok ?e2" using e1(1) by (simp add: eb_ok_def split: option.splits)
  moreover have "ev_words ?e2 = []" using xs by (simp add: ev_words_def)
  ultimately show ?thesis using e1(2) by auto
qed

text \<open>After the buffer has been dumped, the second of two successive reads does not wait
  and fails with \<^verbatim>\<open>-EAGAIN\<close>, the case that the comment in \<^verbatim>\<open>event_buffer_read\<close> calls
  impossible: \<^verbatim>\<open>buffer_dump\<close> stays set, and the first read has cleared \<^verbatim>\<open>buffer_ready\<close>.\<close>

theorem second_read_after_dump_fails:
  assumes "eb_ok e"
  shows "\<exists>e'. event_buffer_read False True (eb_size e * 8) 0 (wake_up_buffer_waiter e)
        = Some (Done (Inr (ev_words e), e')) \<and>
    event_buffer_read False True (eb_size e' * 8) 0 e' = Some (Done (Inl EAGAIN, e'))"
proof -
  from assms obtain xs where "event_buffer e = Some xs" by (rule eb_okE)
  then show ?thesis
    by (auto simp: event_buffer_read_def wake_up_buffer_waiter_def Let_def ev_words_def)
qed

end
