(* ===== verification/Driver_State.thy ===== *)
theory Driver_State
  imports Cpu_Log Event_Buffer
begin

text \<open>
  The state that the driver files share (the globals of \<^verbatim>\<open>cpu_buffer.c\<close>, \<^verbatim>\<open>buffer_sync.c\<close>,
  \<^verbatim>\<open>event_buffer.c\<close> and \<^verbatim>\<open>oprofile_stats.c\<close>, and \<^verbatim>\<open>oprofile_timer_count\<close>, which the timer
  back end shares with \<^verbatim>\<open>oprof.c\<close>), with the operations that act on all CPUs: starting and
  ending the periodic work of \<^verbatim>\<open>cpu_buffer.c\<close> and resetting the statistics. A back end adds
  its own fields by extending the record.
\<close>

record kstate =
  cpu_buffer :: "nat \<Rightarrow> oprofile_cpu_buffer"
  evb :: event_buffer_state
  marked_cpus :: "nat set"
  work_enabled :: bool
  sample_lost_no_mm :: u32
  sample_lost_no_mapping :: u32
  bt_lost_no_mapping :: u32
  oprofile_timer_count :: ulong

text \<open>\<^verbatim>\<open>&cpu_buffer[i]\<close> as the place an operation acts on.\<close>

definition upd_cpu ::
  "nat \<Rightarrow> (oprofile_cpu_buffer \<Rightarrow> oprofile_cpu_buffer) \<Rightarrow> 'h kstate_scheme \<Rightarrow> 'h kstate_scheme" where
  "upd_cpu i f k = k\<lparr>cpu_buffer := (cpu_buffer k)(i := f (cpu_buffer k i))\<rparr>"

definition on_cpu ::
  "nat \<Rightarrow> (oprofile_cpu_buffer \<Rightarrow> oprofile_cpu_buffer option) \<Rightarrow> 'h kstate_scheme \<Rightarrow>
   'h kstate_scheme option" where
  "on_cpu i f k = map_option (\<lambda>b. k\<lparr>cpu_buffer := (cpu_buffer k)(i := b)\<rparr>) (f (cpu_buffer k i))"

lemma upd_cpu_simps [simp]:
  "cpu_buffer (upd_cpu i f k) = (cpu_buffer k)(i := f (cpu_buffer k i))"
  "evb (upd_cpu i f k) = evb k" "marked_cpus (upd_cpu i f k) = marked_cpus k"
  "work_enabled (upd_cpu i f k) = work_enabled k"
  "bt_lost_no_mapping (upd_cpu i f k) = bt_lost_no_mapping k"
  "oprofile_timer_count (upd_cpu i f k) = oprofile_timer_count k"
  by (simp_all add: upd_cpu_def)

text \<open>
  \<^verbatim>\<open>start_cpu_work\<close> and \<^verbatim>\<open>end_cpu_work\<close>. Scheduling and cancelling set and clear the pending
  state of the CPU's delayed work; the delay and the flushing of work that is already running
  have no effect on the state.
\<close>

definition start_cpu_work :: "nat list \<Rightarrow> 'h kstate_scheme \<Rightarrow> 'h kstate_scheme" where
  "start_cpu_work online k =
     fold (\<lambda>i. upd_cpu i (\<lambda>b. b\<lparr>work_scheduled := True\<rparr>)) online (k\<lparr>work_enabled := True\<rparr>)"

definition end_cpu_work :: "nat list \<Rightarrow> 'h kstate_scheme \<Rightarrow> 'h kstate_scheme" where
  "end_cpu_work online k =
     fold (\<lambda>i. upd_cpu i (\<lambda>b. b\<lparr>work_scheduled := False\<rparr>)) online (k\<lparr>work_enabled := False\<rparr>)"

text \<open>\<^verbatim>\<open>oprofile_reset_stats\<close> of \<^verbatim>\<open>oprofile_stats.c\<close>\<close>

definition oprofile_reset_stats :: "nat list \<Rightarrow> 'h kstate_scheme \<Rightarrow> 'h kstate_scheme" where
  "oprofile_reset_stats possible k =
     (fold (\<lambda>i. upd_cpu i (\<lambda>b. b\<lparr>sample_received := 0, sample_lost_overflow := 0,
                                 backtrace_aborted := 0, sample_invalid_eip := 0\<rparr>))
           possible k)
       \<lparr>sample_lost_no_mm := 0, sample_lost_no_mapping := 0, bt_lost_no_mapping := 0,
        evb := (evb k)\<lparr>event_lost_overflow := 0\<rparr>\<rparr>"

text \<open>
  What holds between a successful \<^verbatim>\<open>oprofile_setup\<close> and the shutdown: every possible CPU has
  a well-formed ring, small enough for the 32-bit counter of \<^verbatim>\<open>sync_buffer\<close>, and the event
  buffer is allocated.
\<close>

definition buffers_ok :: "nat list \<Rightarrow> 'h kstate_scheme \<Rightarrow> bool" where
  "buffers_ok possible k \<longleftrightarrow>
     (\<forall>i \<in> set possible. ring_ok (cpu_buffer k i) \<and> ring_cap (cpu_buffer k i) < 2 ^ 32 \<and>
        cpu (cpu_buffer k i) = i) \<and>
     eb_ok (evb k)"

lemma fold_upd_cpu:
  assumes "\<And>b. f (f b) = f b"
  shows "cpu_buffer (fold (\<lambda>i. upd_cpu i f) is k) j =
      (if j \<in> set is then f (cpu_buffer k j) else cpu_buffer k j) \<and>
    evb (fold (\<lambda>i. upd_cpu i f) is k) = evb k \<and>
    marked_cpus (fold (\<lambda>i. upd_cpu i f) is k) = marked_cpus k \<and>
    work_enabled (fold (\<lambda>i. upd_cpu i f) is k) = work_enabled k \<and>
    oprofile_timer_count (fold (\<lambda>i. upd_cpu i f) is k) = oprofile_timer_count k"
  by (induction "is" arbitrary: k) (auto simp: assms)

lemma start_cpu_work_state:
  "cpu_buffer (start_cpu_work online k) j =
     (if j \<in> set online then (cpu_buffer k j)\<lparr>work_scheduled := True\<rparr> else cpu_buffer k j)"
  "evb (start_cpu_work online k) = evb k" "work_enabled (start_cpu_work online k)"
  "oprofile_timer_count (start_cpu_work online k) = oprofile_timer_count k"
  using fold_upd_cpu [of "\<lambda>b. b\<lparr>work_scheduled := True\<rparr>" online "k\<lparr>work_enabled := True\<rparr>" j]
  by (simp_all add: start_cpu_work_def)

lemma end_cpu_work_state:
  "cpu_buffer (end_cpu_work online k) j =
     (if j \<in> set online then (cpu_buffer k j)\<lparr>work_scheduled := False\<rparr> else cpu_buffer k j)"
  "evb (end_cpu_work online k) = evb k" "\<not> work_enabled (end_cpu_work online k)"
  "oprofile_timer_count (end_cpu_work online k) = oprofile_timer_count k"
  using fold_upd_cpu [of "\<lambda>b. b\<lparr>work_scheduled := False\<rparr>" online "k\<lparr>work_enabled := False\<rparr>" j]
  by (simp_all add: end_cpu_work_def)

lemma reset_stats_state:
  "cpu_buffer (oprofile_reset_stats possible k) j =
     (if j \<in> set possible
      then (cpu_buffer k j)\<lparr>sample_received := 0, sample_lost_overflow := 0,
                            backtrace_aborted := 0, sample_invalid_eip := 0\<rparr>
      else cpu_buffer k j)"
  "evb (oprofile_reset_stats possible k) = (evb k)\<lparr>event_lost_overflow := 0\<rparr>"
  "work_enabled (oprofile_reset_stats possible k) = work_enabled k"
  "oprofile_timer_count (oprofile_reset_stats possible k) = oprofile_timer_count k"
  using fold_upd_cpu [of "\<lambda>b. b\<lparr>sample_received := 0, sample_lost_overflow := 0,
    backtrace_aborted := 0, sample_invalid_eip := 0\<rparr>" possible k j]
  by (simp_all add: oprofile_reset_stats_def)

text \<open>These operations keep the rings, their contents and the event buffer's words.\<close>

lemma buffers_ok_frame [ring_simps]:
  "buffers_ok possible (start_cpu_work online k) = buffers_ok possible k"
  "buffers_ok possible (end_cpu_work online k) = buffers_ok possible k"
  "buffers_ok possible (oprofile_reset_stats possible' k) = buffers_ok possible k"
  by (simp_all add: buffers_ok_def start_cpu_work_state end_cpu_work_state reset_stats_state
      ring_simps ev_simps)

lemma work_ops_more [frame_simps]:
  "kstate.more (upd_cpu i f k) = kstate.more k"
  "kstate.more (start_cpu_work online k) = kstate.more k"
  "kstate.more (end_cpu_work online k) = kstate.more k"
  "kstate.more (oprofile_reset_stats possible k) = kstate.more k"
proof -
  have fold: "kstate.more (fold (\<lambda>i. upd_cpu i f) is k) = kstate.more k"
    for "is" and f and k :: "'a kstate_scheme"
    by (induction "is" arbitrary: k) (simp_all add: upd_cpu_def)
  show "kstate.more (upd_cpu i f k) = kstate.more k" by (simp add: upd_cpu_def)
  show "kstate.more (start_cpu_work online k) = kstate.more k"
    "kstate.more (end_cpu_work online k) = kstate.more k"
    "kstate.more (oprofile_reset_stats possible k) = kstate.more k"
    by (simp_all add: start_cpu_work_def end_cpu_work_def oprofile_reset_stats_def fold)
qed

lemma reset_stats_frame [frame_simps]:
  "work_scheduled (cpu_buffer (oprofile_reset_stats possible k) i) = work_scheduled (cpu_buffer k i)"
  "buffer_opened (evb (oprofile_reset_stats possible k)) = buffer_opened (evb k)"
  by (simp_all add: reset_stats_state)

end
