(* ===== verification/Buffer_Sync.thy ===== *)
theory Buffer_Sync
  imports Driver_State
begin

text \<open>
  \<^verbatim>\<open>driver/buffer_sync.c\<close>: moving the entries of a CPU's ring into the global event buffer.
  \<^verbatim>\<open>sync_buffer\<close> is the loop over the entries with its state machine for backtraces; what
  the loop appends is first given as a function on lists of entries, then the loop is proved
  to compute it for every well-formed state.
\<close>

section \<open>Codes of the event stream\<close>

definition CTX_SWITCH_CODE :: ulong where "CTX_SWITCH_CODE = 1"
definition CPU_SWITCH_CODE :: ulong where "CPU_SWITCH_CODE = 2"
definition KERNEL_ENTER_SWITCH_CODE :: ulong where "KERNEL_ENTER_SWITCH_CODE = 4"
definition KERNEL_EXIT_SWITCH_CODE :: ulong where "KERNEL_EXIT_SWITCH_CODE = 5"
definition TRACE_BEGIN_CODE :: ulong where "TRACE_BEGIN_CODE = 8"
definition RR_CPU_SAMPLING_BEGIN_TIMESTAMP_CODE :: ulong where
  "RR_CPU_SAMPLING_BEGIN_TIMESTAMP_CODE = 100"
definition RR_CPU_SAMPLING_END_TIMESTAMP_CODE :: ulong where
  "RR_CPU_SAMPLING_END_TIMESTAMP_CODE = 101"
definition RR_SAMPLE_BEGIN_TIMESTAMP_CODE :: ulong where "RR_SAMPLE_BEGIN_TIMESTAMP_CODE = 102"
definition RR_SAMPLE_END_TIMESTAMP_CODE :: ulong where "RR_SAMPLE_END_TIMESTAMP_CODE = 103"
definition RR_ADAPT_SAMPLING_INTERVAL_CODE :: ulong where
  "RR_ADAPT_SAMPLING_INTERVAL_CODE = 104"

lemmas ev_code_defs =
  CTX_SWITCH_CODE_def CPU_SWITCH_CODE_def KERNEL_ENTER_SWITCH_CODE_def
  KERNEL_EXIT_SWITCH_CODE_def TRACE_BEGIN_CODE_def RR_CPU_SAMPLING_BEGIN_TIMESTAMP_CODE_def
  RR_CPU_SAMPLING_END_TIMESTAMP_CODE_def RR_SAMPLE_BEGIN_TIMESTAMP_CODE_def
  RR_SAMPLE_END_TIMESTAMP_CODE_def RR_ADAPT_SAMPLING_INTERVAL_CODE_def

section \<open>Writing to the event buffer\<close>

definition add_cpu_switch :: "nat \<Rightarrow> event_buffer_state \<Rightarrow> event_buffer_state option" where
  "add_cpu_switch i e =
    do { e \<leftarrow> add_event_entry ESCAPE_CODE e;
         e \<leftarrow> add_event_entry CPU_SWITCH_CODE e;
         add_event_entry (of_nat i) e }"

definition add_kernel_ctx_switch ::
  "u32 \<Rightarrow> event_buffer_state \<Rightarrow> event_buffer_state option" where
  "add_kernel_ctx_switch in_kernel e =
    do { e \<leftarrow> add_event_entry ESCAPE_CODE e;
         if in_kernel \<noteq> 0 then add_event_entry KERNEL_ENTER_SWITCH_CODE e
         else add_event_entry KERNEL_EXIT_SWITCH_CODE e }"

definition add_user_ctx_switch_rr ::
  "ulong \<Rightarrow> ulong \<Rightarrow> event_buffer_state \<Rightarrow> event_buffer_state option" where
  "add_user_ctx_switch_rr tgid tid e =
    do { e \<leftarrow> add_event_entry ESCAPE_CODE e;
         e \<leftarrow> add_event_entry CTX_SWITCH_CODE e;
         e \<leftarrow> add_event_entry tid e;
         add_event_entry tgid e }"

definition add_trace_begin :: "event_buffer_state \<Rightarrow> event_buffer_state option" where
  "add_trace_begin e =
    do { e \<leftarrow> add_event_entry ESCAPE_CODE e;
         add_event_entry TRACE_BEGIN_CODE e }"

definition add_sample_entry ::
  "ulong \<Rightarrow> ulong \<Rightarrow> event_buffer_state \<Rightarrow> event_buffer_state option" where
  "add_sample_entry offset ev e =
    do { e \<leftarrow> add_event_entry offset e;
         add_event_entry ev e }"

text \<open>
  \<^verbatim>\<open>add_sample\<close> of \<^verbatim>\<open>buffer_sync.c\<close> in the \<^verbatim>\<open>RRPROFILE\<close> build: the task's memory map and the
  mode are not used.
\<close>

definition sync_add_sample ::
  "op_sample \<Rightarrow> event_buffer_state \<Rightarrow> (bool \<times> event_buffer_state) option" where
  "sync_add_sample s e =
    (if eip s \<noteq> 0 then
       do { e \<leftarrow> add_sample_entry (eip s) (event s) e;
            Some (True, e) }
     else Some (False, e))"

definition is_code :: "ulong \<Rightarrow> bool" where
  "is_code val \<longleftrightarrow> val = ESCAPE_CODE"

text \<open>The four copies of the timestamp branch of \<^verbatim>\<open>sync_buffer\<close>, for 8-byte words.\<close>

definition add_timestamp ::
  "ulong \<Rightarrow> u64 \<Rightarrow> event_buffer_state \<Rightarrow> event_buffer_state option" where
  "add_timestamp code ts e =
    do { e \<leftarrow> add_event_entry ESCAPE_CODE e;
         e \<leftarrow> add_event_entry code e;
         add_event_entry ts e }"

section \<open>The loop\<close>

text \<open>\<^verbatim>\<open>sync_buffer_state\<close>, ordered by the values of the C enumeration\<close>

datatype sync_buffer_state = sb_bt_ignore | sb_buffer_start | sb_bt_start | sb_sample_start

primrec sb_value :: "sync_buffer_state \<Rightarrow> int" where
  "sb_value sb_bt_ignore = -2"
| "sb_value sb_buffer_start = -1"
| "sb_value sb_bt_start = 0"
| "sb_value sb_sample_start = 1"

lemma sb_value_inj: "sb_value a = sb_value b \<longleftrightarrow> a = b"
  by (cases a; cases b) simp_all

instantiation sync_buffer_state :: linorder
begin

definition less_eq_sync_buffer_state :: "sync_buffer_state \<Rightarrow> sync_buffer_state \<Rightarrow> bool" where
  "less_eq_sync_buffer_state a b \<longleftrightarrow> sb_value a \<le> sb_value b"

definition less_sync_buffer_state :: "sync_buffer_state \<Rightarrow> sync_buffer_state \<Rightarrow> bool" where
  "less_sync_buffer_state a b \<longleftrightarrow> sb_value a < sb_value b"

instance
  by standard (auto simp: less_eq_sync_buffer_state_def less_sync_buffer_state_def sb_value_inj)

end

text \<open>The local variables of \<^verbatim>\<open>sync_buffer\<close> that live across iterations\<close>

record sync_locals =
  in_kernel :: int
  sb_state :: sync_buffer_state
  tgid :: ulong
  tid :: ulong

definition sync_start_locals :: sync_locals where
  "sync_start_locals = \<lparr>in_kernel = 1, sb_state = sb_buffer_start, tgid = 0, tid = 0\<rparr>"

text \<open>
  The loop body for the entry \<open>s\<close>: the event buffer and, for a backtrace whose sample
  could not be written, the counter \<^verbatim>\<open>bt_lost_no_mapping\<close>, are updated.
\<close>

definition sync_entry ::
  "op_sample \<Rightarrow> sync_locals \<Rightarrow> 'h kstate_scheme \<Rightarrow> (sync_locals \<times> 'h kstate_scheme) option" where
  "sync_entry s l k =
    (if is_code (eip s) then
       if event s \<le> CPU_IS_KERNEL then
         let l = l\<lparr>in_kernel := uint (event s),
                   sb_state := (if sb_state l = sb_buffer_start then sb_sample_start
                                else sb_state l)\<rparr>
         in map_option (\<lambda>e. (l, k\<lparr>evb := e\<rparr>)) (add_kernel_ctx_switch (ucast (event s)) (evb k))
       else if event s = CPU_TRACE_BEGIN then
         let l = l\<lparr>sb_state := sb_bt_start\<rparr>
         in map_option (\<lambda>e. (l, k\<lparr>evb := e\<rparr>)) (add_trace_begin (evb k))
       else if event s = RR_CPU_CTX_TGID then
         Some (l\<lparr>tgid := timestamp s\<rparr>, k)
       else if event s = RR_CPU_CTX_TID then
         let l = l\<lparr>tid := timestamp s\<rparr>
         in map_option (\<lambda>e. (l, k\<lparr>evb := e\<rparr>)) (add_user_ctx_switch_rr (tgid l) (tid l) (evb k))
       else if event s = RR_CPU_SAMPLING_START_TIMESTAMP then
         map_option (\<lambda>e. (l, k\<lparr>evb := e\<rparr>))
           (add_timestamp RR_CPU_SAMPLING_BEGIN_TIMESTAMP_CODE (timestamp s) (evb k))
       else if event s = RR_CPU_SAMPLING_STOP_TIMESTAMP then
         map_option (\<lambda>e. (l, k\<lparr>evb := e\<rparr>))
           (add_timestamp RR_CPU_SAMPLING_END_TIMESTAMP_CODE (timestamp s) (evb k))
       else if event s = RR_CPU_SAMPLE_START_TIMESTAMP then
         map_option (\<lambda>e. (l, k\<lparr>evb := e\<rparr>))
           (add_timestamp RR_SAMPLE_BEGIN_TIMESTAMP_CODE (timestamp s) (evb k))
       else if event s = RR_CPU_SAMPLE_STOP_TIMESTAMP then
         map_option (\<lambda>e. (l, k\<lparr>evb := e\<rparr>))
           (add_timestamp RR_SAMPLE_END_TIMESTAMP_CODE (timestamp s) (evb k))
       else Some (l, k)
     else if sb_state l \<ge> sb_bt_start then
       do { (ok, e) \<leftarrow> sync_add_sample s (evb k);
            let k = k\<lparr>evb := e\<rparr>;
            if \<not> ok \<and> sb_state l = sb_bt_start
            then Some (l\<lparr>sb_state := sb_bt_ignore\<rparr>,
                       k\<lparr>bt_lost_no_mapping := bt_lost_no_mapping k + 1\<rparr>)
            else Some (l, k) }
     else Some (l, k))"

text \<open>
  The loop. The counter is an \<^verbatim>\<open>unsigned int\<close> and the bound an \<^verbatim>\<open>unsigned long\<close>, so the
  loop need not end; \<open>None\<close> stands for not ending as well as for a fault.
\<close>

partial_function (option) sync_loop ::
  "nat \<Rightarrow> u32 \<Rightarrow> ulong \<Rightarrow> sync_locals \<Rightarrow> 'h kstate_scheme \<Rightarrow>
   (sync_locals \<times> 'h kstate_scheme) option" where
  "sync_loop c i available l k =
    (if ucast i < available then
       do { s \<leftarrow> tail_entry (cpu_buffer k c);
            (l, k) \<leftarrow> sync_entry s l k;
            sync_loop c (i + 1) available l (upd_cpu c increment_tail k) }
     else Some (l, k))"

text \<open>\<^verbatim>\<open>mark_done\<close>; \<open>online\<close> are the online CPUs.\<close>

definition mark_done :: "nat list \<Rightarrow> nat \<Rightarrow> 'h kstate_scheme \<Rightarrow> 'h kstate_scheme" where
  "mark_done online c k =
    (let k = k\<lparr>marked_cpus := insert c (marked_cpus k)\<rparr>
     in if \<exists>i \<in> set online. i \<notin> marked_cpus k then k else k\<lparr>marked_cpus := {}\<rparr>)"

definition sync_buffer :: "nat list \<Rightarrow> nat \<Rightarrow> 'h kstate_scheme \<Rightarrow> 'h kstate_scheme option" where
  "sync_buffer online c k =
    do { e \<leftarrow> add_cpu_switch c (evb k);
         let k = k\<lparr>evb := e\<rparr>;
         let (available, b) = get_slots (cpu_buffer k c);
         let k = k\<lparr>cpu_buffer := (cpu_buffer k)(c := b)\<rparr>;
         (l, k) \<leftarrow> sync_loop c 0 available sync_start_locals k;
         Some (mark_done online c k) }"

text \<open>
  \<^verbatim>\<open>wq_sync_buffer\<close>, the delayed work of CPU \<open>b\<close>'s buffer, running on CPU \<open>here\<close>: the
  work is no longer pending when it runs.
\<close>

definition wq_sync_buffer ::
  "nat list \<Rightarrow> nat \<Rightarrow> nat \<Rightarrow> 'h kstate_scheme \<Rightarrow> 'h kstate_scheme option" where
  "wq_sync_buffer online here i k =
    (let k = upd_cpu i (\<lambda>b. b\<lparr>work_scheduled := False\<rparr>) k; c = cpu (cpu_buffer k i) in
     if c \<noteq> here \<and> c \<notin> set online then Some (upd_cpu i (\<lambda>b. b\<lparr>work_scheduled := False\<rparr>) k)
     else do { k \<leftarrow> sync_buffer online c k;
               Some (if work_enabled k then upd_cpu i (\<lambda>b. b\<lparr>work_scheduled := True\<rparr>) k
                     else k) })"

text \<open>
  \<^verbatim>\<open>oprofile_put_buff\<close>: entries \<open>start\<close> up to \<open>stop\<close> of a circular array of \<open>mx\<close>
  words are copied to the event buffer. The loop ends only if the index meets \<open>stop\<close>;
  the index is an \<^verbatim>\<open>int\<close>, the bounds are \<^verbatim>\<open>unsigned int\<close>, so all comparisons are
  unsigned, and an index that is negative as an \<^verbatim>\<open>int\<close> is outside the array.
\<close>

partial_function (option) put_buff_loop ::
  "ulong list \<Rightarrow> u32 \<Rightarrow> u32 \<Rightarrow> u32 \<Rightarrow> event_buffer_state \<Rightarrow> event_buffer_state option" where
  "put_buff_loop buf i stop mx e =
    (if i \<noteq> stop then
       if 0 \<le> sint i \<and> unat i < length buf then
         do { e \<leftarrow> add_event_entry (buf ! unat i) e;
              put_buff_loop buf (if i + 1 \<ge> mx then 0 else i + 1) stop mx e }
       else None
     else Some e)"

definition oprofile_put_buff ::
  "ulong list \<Rightarrow> u32 \<Rightarrow> u32 \<Rightarrow> u32 \<Rightarrow> event_buffer_state \<Rightarrow> event_buffer_state option" where
  "oprofile_put_buff buf start stop mx e = put_buff_loop buf start stop mx e"

section \<open>What one entry contributes\<close>

text \<open>The words appended for an entry, the locals after it, and whether a backtrace is lost.\<close>

definition entry_words :: "op_sample \<Rightarrow> sync_locals \<Rightarrow> ulong list" where
  "entry_words s l =
    (if eip s = ESCAPE_CODE then
       if event s = 0 then [ESCAPE_CODE, KERNEL_EXIT_SWITCH_CODE]
       else if event s = CPU_IS_KERNEL then [ESCAPE_CODE, KERNEL_ENTER_SWITCH_CODE]
       else if event s = CPU_TRACE_BEGIN then [ESCAPE_CODE, TRACE_BEGIN_CODE]
       else if event s = RR_CPU_CTX_TID then
         [ESCAPE_CODE, CTX_SWITCH_CODE, timestamp s, tgid l]
       else if event s = RR_CPU_SAMPLING_START_TIMESTAMP then
         [ESCAPE_CODE, RR_CPU_SAMPLING_BEGIN_TIMESTAMP_CODE, timestamp s]
       else if event s = RR_CPU_SAMPLING_STOP_TIMESTAMP then
         [ESCAPE_CODE, RR_CPU_SAMPLING_END_TIMESTAMP_CODE, timestamp s]
       else if event s = RR_CPU_SAMPLE_START_TIMESTAMP then
         [ESCAPE_CODE, RR_SAMPLE_BEGIN_TIMESTAMP_CODE, timestamp s]
       else if event s = RR_CPU_SAMPLE_STOP_TIMESTAMP then
         [ESCAPE_CODE, RR_SAMPLE_END_TIMESTAMP_CODE, timestamp s]
       else []
     else if sb_bt_start \<le> sb_state l \<and> eip s \<noteq> 0 then [eip s, event s]
     else [])"

definition entry_drops :: "op_sample \<Rightarrow> sync_locals \<Rightarrow> bool" where
  "entry_drops s l \<longleftrightarrow> eip s = 0 \<and> sb_state l = sb_bt_start"

definition entry_locals :: "op_sample \<Rightarrow> sync_locals \<Rightarrow> sync_locals" where
  "entry_locals s l =
    (if eip s = ESCAPE_CODE then
       if event s \<le> CPU_IS_KERNEL then
         l\<lparr>in_kernel := uint (event s),
           sb_state := (if sb_state l = sb_buffer_start then sb_sample_start else sb_state l)\<rparr>
       else if event s = CPU_TRACE_BEGIN then l\<lparr>sb_state := sb_bt_start\<rparr>
       else if event s = RR_CPU_CTX_TGID then l\<lparr>tgid := timestamp s\<rparr>
       else if event s = RR_CPU_CTX_TID then l\<lparr>tid := timestamp s\<rparr>
       else l
     else if entry_drops s l then l\<lparr>sb_state := sb_bt_ignore\<rparr>
     else l)"

lemma word_le_1_cases: "(w :: ulong) \<le> 1 \<longleftrightarrow> w = 0 \<or> w = 1"
proof
  assume "w \<le> 1"
  then have "unat w \<le> 1" by (simp add: word_le_nat_alt)
  then show "w = 0 \<or> w = 1" by (metis le_Suc_eq le_zero_eq One_nat_def unat_1 unat_eq_zero word_unat_eq_iff)
qed auto

text \<open>The writers of the event buffer as batches of words.\<close>

lemma event_writers_batch:
  "add_cpu_switch i e = add_event_entries [ESCAPE_CODE, CPU_SWITCH_CODE, of_nat i] e"
  "add_kernel_ctx_switch m e = add_event_entries
     [ESCAPE_CODE, if m \<noteq> 0 then KERNEL_ENTER_SWITCH_CODE else KERNEL_EXIT_SWITCH_CODE] e"
  "add_user_ctx_switch_rr g t e = add_event_entries [ESCAPE_CODE, CTX_SWITCH_CODE, t, g] e"
  "add_trace_begin e = add_event_entries [ESCAPE_CODE, TRACE_BEGIN_CODE] e"
  "add_sample_entry off ev e = add_event_entries [off, ev] e"
  "add_timestamp code ts e = add_event_entries [ESCAPE_CODE, code, ts] e"
  by (simp_all add: add_cpu_switch_def add_kernel_ctx_switch_def add_user_ctx_switch_rr_def
      add_trace_begin_def add_sample_entry_def add_timestamp_def Option.bind_def
      split: option.splits)

lemma escape_not_dropped: "eip s = ESCAPE_CODE \<Longrightarrow> \<not> entry_drops s l"
  by (simp add: entry_drops_def ESCAPE_CODE_def)

lemma sync_entry_batch:
  "sync_entry s l k =
    map_option (\<lambda>e. (entry_locals s l,
        k\<lparr>evb := e, bt_lost_no_mapping :=
            (if entry_drops s l then bt_lost_no_mapping k + 1 else bt_lost_no_mapping k)\<rparr>))
      (add_event_entries (entry_words s l) (evb k))"
proof (cases "eip s = ESCAPE_CODE")
  case True
  then show ?thesis
    by (simp add: sync_entry_def is_code_def event_writers_batch entry_words_def entry_locals_def
        escape_not_dropped Let_def word_le_1_cases CPU_IS_KERNEL_def del: for_each.simps)
      (auto simp: cpu_code_defs)
next
  case False
  then show ?thesis
    by (auto simp: sync_entry_def is_code_def event_writers_batch entry_words_def
        entry_locals_def entry_drops_def sync_add_sample_def Let_def
        less_eq_sync_buffer_state_def map_option_case split: option.splits
        simp del: for_each.simps(2))
qed

section \<open>What a run of entries contributes\<close>

fun stream_words :: "op_sample list \<Rightarrow> sync_locals \<Rightarrow> ulong list" where
  "stream_words [] l = []"
| "stream_words (s # ss) l = entry_words s l @ stream_words ss (entry_locals s l)"

fun stream_drops :: "op_sample list \<Rightarrow> sync_locals \<Rightarrow> nat" where
  "stream_drops [] l = 0"
| "stream_drops (s # ss) l =
     of_bool (entry_drops s l) +
     stream_drops ss (entry_locals s l)"

abbreviation stream_locals :: "op_sample list \<Rightarrow> sync_locals \<Rightarrow> sync_locals" where
  "stream_locals ss l \<equiv> fold entry_locals ss l"

lemma stream_words_append:
  "stream_words (ss @ ts) l = stream_words ss l @ stream_words ts (stream_locals ss l)"
  by (induction ss arbitrary: l) simp_all

text \<open>The state after entries of CPU \<open>c\<close> have been moved.\<close>

definition synced ::
  "nat \<Rightarrow> oprofile_cpu_buffer \<Rightarrow> event_buffer_state \<Rightarrow> nat \<Rightarrow> 'h kstate_scheme \<Rightarrow>
   'h kstate_scheme" where
  "synced c b e n k =
     k\<lparr>evb := e, bt_lost_no_mapping := bt_lost_no_mapping k + of_nat n,
       cpu_buffer := (cpu_buffer k)(c := b)\<rparr>"

lemma synced_simps [simp]:
  "cpu_buffer (synced c b e n k) = (cpu_buffer k)(c := b)" "evb (synced c b e n k) = e"
  "marked_cpus (synced c b e n k) = marked_cpus k"
  "work_enabled (synced c b e n k) = work_enabled k"
  "oprofile_timer_count (synced c b e n k) = oprofile_timer_count k"
  "bt_lost_no_mapping (synced c b e n k) = bt_lost_no_mapping k + of_nat n"
  "synced c b' e' n' (synced c b e n k) = synced c b' e' (n + n') k"
  by (simp_all add: synced_def)

lemma funpow_frame:
  assumes "\<And>b. f (g b) = f b"
  shows "f ((g ^^ n) b) = f b"
  by (induction n) (simp_all add: assms)

text \<open>
  The loop over the remaining \<open>n\<close> entries, when the bound fits the 32-bit counter: it
  ends, consumes the \<open>n\<close> oldest entries, and appends their words.
\<close>

lemma sync_loop_runs:
  assumes "ring_ok (cpu_buffer k c)" and "n \<le> length (contents (cpu_buffer k c))"
    and "eb_ok (evb k)" and "unat available < 2 ^ 32" and "j + n = unat available"
  shows "\<exists>e. add_event_entries (stream_words (take n (contents (cpu_buffer k c))) l) (evb k) = Some e \<and>
    sync_loop c (of_nat j) available l k =
      Some (stream_locals (take n (contents (cpu_buffer k c))) l,
            synced c ((increment_tail ^^ n) (cpu_buffer k c)) e
              (stream_drops (take n (contents (cpu_buffer k c))) l) k)"
  using assms
proof (induction n arbitrary: j l k)
  case 0
  then have "\<not> ucast (of_nat j :: u32) < available"
    using counter_less [of j available] by linarith
  then show ?case by (subst sync_loop.simps) (simp add: synced_def)
next
  case (Suc n)
  let ?b = "cpu_buffer k c"
  from Suc.prems have lt: "ucast (of_nat j :: u32) < available"
    by (simp add: counter_less)
  from Suc.prems obtain s ss where c: "contents ?b = s # ss" by (cases "contents ?b") auto
  then have front: "tail_entry ?b = Some s" "contents (increment_tail ?b) = ss"
    using ring_front [OF Suc.prems(1)] by simp_all
  obtain e1 where e1: "add_event_entries (entry_words s l) (evb k) = Some e1" "eb_ok e1"
    using evlog.add_all [OF Suc.prems(3)] by blast
  let ?k = "synced c (increment_tail ?b) e1 (of_bool (entry_drops s l)) k"
  have "\<exists>e. add_event_entries (stream_words (take n ss) (entry_locals s l)) e1 = Some e \<and>
    sync_loop c (of_nat (Suc j)) available (entry_locals s l) ?k =
      Some (stream_locals (take n ss) (entry_locals s l),
        synced c ((increment_tail ^^ n) (increment_tail ?b)) e
          (of_bool (entry_drops s l) + stream_drops (take n ss) (entry_locals s l)) k)"
    using Suc.IH [of ?k "Suc j" "entry_locals s l"] Suc.prems c front(2) e1(2)
    by (simp add: ring_simps del: of_nat_Suc)
  moreover have "sync_loop c (of_nat j) available l k =
      sync_loop c (of_nat (Suc j)) available (entry_locals s l) ?k"
    using lt front(1) e1(1)
    by (subst sync_loop.simps)
      (simp add: sync_entry_batch upd_cpu_def synced_def add.commute)
  ultimately show ?case
    using e1(1) by (auto simp: c for_each_append funpow_swap1)
qed

text \<open>When more entries are acquired than the 32-bit loop counter can reach, the loop of
  \<open>sync_buffer\<close> never ends, whatever the ring and the event buffer hold.\<close>

theorem sync_loop_counter_too_narrow:
  assumes "2 ^ 32 \<le> unat available"
  shows "sync_loop c i available l k = None"
proof (rule ccontr)
  assume "sync_loop c i available l k \<noteq> None"
  then obtain r where "sync_loop c i available l k = Some r" by blast
  then have "\<exists>i :: u32. \<not> ucast i < available"
    by (rule sync_loop.raw_induct [rotated])
      (auto split: if_splits Option.bind_splits)
  then obtain i :: u32 where "\<not> ucast i < available" by blast
  then have "unat available \<le> unat (ucast i :: ulong)" by (simp add: word_le_nat_alt not_less)
  also have "\<dots> = unat i" by simp
  also have "\<dots> < 2 ^ 32" using unsigned_less [of i] by simp
  finally show False using assms by simp
qed

section \<open>sync_buffer\<close>

text \<open>The words one synchronisation of CPU \<open>c\<close> appends.\<close>

definition sync_words :: "nat \<Rightarrow> op_sample list \<Rightarrow> ulong list" where
  "sync_words c ss =
     [ESCAPE_CODE, CPU_SWITCH_CODE, of_nat c] @ stream_words ss sync_start_locals"

lemma drained_ring:
  assumes "ring_ok b"
  shows "ring_ok ((increment_tail ^^ length (contents b)) b)"
    "contents ((increment_tail ^^ length (contents b)) b) = []"
  using ring.drained [OF assms, of "length (contents b)"] by simp_all

lemma mark_done_state [simp]:
  "cpu_buffer (mark_done online c k) = cpu_buffer k" "evb (mark_done online c k) = evb k"
  "work_enabled (mark_done online c k) = work_enabled k"
  "bt_lost_no_mapping (mark_done online c k) = bt_lost_no_mapping k"
  "oprofile_timer_count (mark_done online c k) = oprofile_timer_count k"
  "marked_cpus (mark_done online c k) =
     (if set online \<subseteq> insert c (marked_cpus k) then {} else insert c (marked_cpus k))"
  by (auto simp: mark_done_def Let_def)

lemma sync_buffer_steps:
  assumes "ring_ok (cpu_buffer k c)" and "eb_ok (evb k)"
    and "length (contents (cpu_buffer k c)) < 2 ^ 32"
  shows "\<exists>e. add_event_entries (sync_words c (contents (cpu_buffer k c))) (evb k) = Some e \<and>
    sync_buffer online c k = Some (mark_done online c (synced c
      ((increment_tail ^^ length (contents (cpu_buffer k c))) (cpu_buffer_reset (cpu_buffer k c)))
      e (stream_drops (contents (cpu_buffer k c)) sync_start_locals) k))"
proof -
  let ?b = "cpu_buffer_reset (cpu_buffer k c)"
  obtain e1 where e1: "add_cpu_switch c (evb k) = Some e1" "eb_ok e1"
    using evlog.add_all [OF assms(2), of "[ESCAPE_CODE, CPU_SWITCH_CODE, of_nat c]"]
    by (auto simp: event_writers_batch simp del: for_each.simps)
  obtain av where av: "get_slots (cpu_buffer k c) = (av, ?b)"
    using get_slots_reset by (metis prod.collapse)
  then have n: "unat av = length (contents ?b)"
    using unat_get_slots [OF assms(1)] by (simp add: ring_simps)
  let ?k = "k\<lparr>evb := e1, cpu_buffer := (cpu_buffer k)(c := ?b)\<rparr>"
  obtain e where e: "add_event_entries (stream_words (contents ?b) sync_start_locals) e1 = Some e"
    "sync_loop c 0 av sync_start_locals ?k =
       Some (stream_locals (contents ?b) sync_start_locals,
         synced c ((increment_tail ^^ length (contents ?b)) ?b) e
           (stream_drops (contents ?b) sync_start_locals) ?k)"
    using sync_loop_runs [of ?k c "length (contents ?b)" av 0 sync_start_locals] assms e1 n
    by (auto simp: ring_simps)
  have "add_event_entries (sync_words c (contents ?b)) (evb k) = Some e"
    unfolding sync_words_def for_each_append
    using e1 e(1) by (simp add: event_writers_batch del: for_each.simps)
  with e e1 av show ?thesis
    by (simp add: sync_buffer_def ring_simps synced_def)
qed

text \<open>C4: synchronising CPU \<open>c\<close>, whose ring holds fewer than \<open>2 ^ 32\<close> entries, ends and
  never faults; it empties that ring and resets its switch notes, appends to the event
  buffer the CPU switch followed by the words of the entries in order, as far as they fit
  (the rest is counted as lost), counts the dropped backtraces, leaves every other CPU's
  ring alone, and clears the CPU marks exactly when all online CPUs are marked.\<close>

theorem sync_buffer_refines:
  assumes "ring_ok (cpu_buffer k c)" and "eb_ok (evb k)"
    and "length (contents (cpu_buffer k c)) < 2 ^ 32"
  shows "\<exists>k'. sync_buffer online c k = Some k' \<and>
    ring_ok (cpu_buffer k' c) \<and> contents (cpu_buffer k' c) = [] \<and>
    last_task (cpu_buffer k' c) = 0 \<and> last_is_kernel (cpu_buffer k' c) = -1 \<and>
    (\<forall>i. i \<noteq> c \<longrightarrow> cpu_buffer k' i = cpu_buffer k i) \<and>
    eb_ok (evb k') \<and>
    ev_words (evb k') =
      take (eb_cap (evb k)) (ev_words (evb k) @ sync_words c (contents (cpu_buffer k c))) \<and>
    event_lost_overflow (evb k') = event_lost_overflow (evb k) +
      of_nat (length (sync_words c (contents (cpu_buffer k c))) -
              (eb_cap (evb k) - length (ev_words (evb k)))) \<and>
    bt_lost_no_mapping k' = bt_lost_no_mapping k +
      of_nat (stream_drops (contents (cpu_buffer k c)) sync_start_locals) \<and>
    marked_cpus k' =
      (if set online \<subseteq> insert c (marked_cpus k) then {} else insert c (marked_cpus k))"
proof -
  let ?b = "cpu_buffer_reset (cpu_buffer k c)"
  let ?b' = "(increment_tail ^^ length (contents ?b)) ?b"
  obtain e where e: "add_event_entries (sync_words c (contents (cpu_buffer k c))) (evb k) = Some e"
    "sync_buffer online c k = Some (mark_done online c
       (synced c ?b' e (stream_drops (contents (cpu_buffer k c)) sync_start_locals) k))"
    using sync_buffer_steps [OF assms] by (auto simp: ring_simps)
  have r: "ring_ok ?b" using assms(1) by (simp add: ring_simps)
  have reset: "last_task ?b' = 0" "last_is_kernel ?b' = -1"
    by (simp_all add: funpow_frame frame_simps cpu_buffer_reset_def)
  from evlog.add_all [OF assms(2), of "sync_words c (contents (cpu_buffer k c))"] e(1)
  show ?thesis using e(2) drained_ring [OF r] reset by auto
qed

text \<open>The periodic work of a CPU's buffer synchronises that CPU when it runs on it or the
  CPU is online, and schedules itself again exactly as long as the work is enabled; for a CPU
  that has gone offline it touches neither the ring nor the event buffer and stays cancelled.\<close>

theorem wq_sync_buffer_reschedules:
  assumes "ring_ok (cpu_buffer k i)" and "eb_ok (evb k)" and "cpu (cpu_buffer k i) = i"
    and "length (contents (cpu_buffer k i)) < 2 ^ 32"
  shows "\<exists>k'. wq_sync_buffer online here i k = Some k' \<and>
    (if i = here \<or> i \<in> set online
     then contents (cpu_buffer k' i) = [] \<and>
       ev_words (evb k') = take (eb_cap (evb k))
         (ev_words (evb k) @ sync_words i (contents (cpu_buffer k i))) \<and>
       work_scheduled (cpu_buffer k' i) = work_enabled k
     else contents (cpu_buffer k' i) = contents (cpu_buffer k i) \<and> evb k' = evb k \<and>
       \<not> work_scheduled (cpu_buffer k' i))"
proof (cases "i = here \<or> i \<in> set online")
  case True
  let ?k = "upd_cpu i (\<lambda>b. b\<lparr>work_scheduled := False\<rparr>) k"
  have pre: "ring_ok (cpu_buffer ?k i)" "eb_ok (evb ?k)" "length (contents (cpu_buffer ?k i)) < 2 ^ 32"
    using assms by (simp_all add: ring_simps)
  from sync_buffer_steps [OF pre, of online]
  obtain e where e: "add_event_entries (sync_words i (contents (cpu_buffer k i))) (evb k) = Some e"
    "sync_buffer online i ?k = Some (mark_done online i (synced i
      ((increment_tail ^^ length (contents (cpu_buffer k i))) (cpu_buffer_reset (cpu_buffer ?k i)))
      e (stream_drops (contents (cpu_buffer k i)) sync_start_locals) ?k))"
    by (auto simp: ring_simps)
  let ?b = "(increment_tail ^^ length (contents (cpu_buffer k i))) (cpu_buffer_reset (cpu_buffer ?k i))"
  have "contents ?b = []"
    using drained_ring(2) [of "cpu_buffer_reset (cpu_buffer ?k i)"] pre(1)
    by (simp add: ring_simps)
  moreover have "\<not> work_scheduled ?b"
    by (subst funpow_frame) (simp_all add: cpu_buffer_reset_def increment_tail_def Let_def)
  ultimately show ?thesis
    using True assms(3) e evlog.add_all [OF assms(2), of "sync_words i (contents (cpu_buffer k i))"]
    by (auto simp: wq_sync_buffer_def Let_def ring_simps)
next
  case False
  with assms(3) show ?thesis
    by (simp add: wq_sync_buffer_def Let_def ring_simps)
qed

section \<open>oprofile_put_buff\<close>

lemma put_buff_loop_runs:
  assumes "unat stop = (unat i + n) mod unat mx" and "i < mx" and "n < unat mx"
    and "unat mx \<le> length buf" and "unat mx < 2 ^ 31"
  shows "put_buff_loop buf i stop mx e =
    add_event_entries (circ (take (unat mx) buf) (unat i) n) e"
  using assms
proof (induction n arbitrary: i e)
  case 0
  then have "i = stop" by (simp add: word_less_nat_alt word_unat_eq_iff)
  then show ?case by (subst put_buff_loop.simps) simp
next
  case (Suc n)
  let ?j = "if i + 1 \<ge> mx then 0 else i + 1" and ?m = "unat mx"
  have lt: "unat i < ?m" using Suc.prems by (simp add: word_less_nat_alt)
  have j: "unat ?j = Suc (unat i) mod ?m"
    using unat_next_pos [OF Suc.prems(2)] by (auto simp: not_less split: if_splits)
  then have j': "?j < mx" using lt by (simp add: word_less_nat_alt split del: if_split)
  have ne: "i \<noteq> stop"
  proof
    assume "i = stop"
    then have "(unat i + Suc n) mod ?m = unat i mod ?m" using Suc.prems lt by simp
    then have "?m dvd Suc n" by (metis add_diff_cancel_left' mod_eq_dvd_iff_nat le_add1)
    then show False using Suc.prems(3) by (auto dest: dvd_imp_le)
  qed
  have "unat i < 2 ^ 31" using lt Suc.prems(5) by linarith
  then have s: "0 \<le> sint i" by (rule sint_nonneg_u32)
  have st: "unat stop = (unat ?j + n) mod ?m" using Suc.prems(1) by (simp add: j mod_simps)
  have "put_buff_loop buf ?j stop mx e' =
      add_event_entries (circ (take ?m buf) (Suc (unat i) mod ?m) n) e'" for e'
    using Suc.IH [OF st j' _ Suc.prems(4,5)] Suc.prems(3) j by (simp split del: if_split)
  then show ?case
    using ne s lt Suc.prems(4)
    by (subst put_buff_loop.simps, cases "add_event_entry (buf ! unat i) e")
      (simp_all add: circ_Cons min_absorb2 split del: if_split)
qed

text \<open>The words of the circular array from \<open>start\<close> up to, not including, \<open>stop\<close> are
  added to the event buffer in order, wrapping at \<open>mx\<close>, when both indices are below \<open>mx\<close>.\<close>

theorem oprofile_put_buff_copies:
  assumes "start < mx" and "stop < mx" and "unat mx \<le> length buf" and "unat mx < 2 ^ 31"
  shows "oprofile_put_buff buf start stop mx e =
    add_event_entries (circ (take (unat mx) buf) (unat start)
      ((unat stop + unat mx - unat start) mod unat mx)) e"
proof -
  have lt: "unat start < unat mx" "unat stop < unat mx"
    using assms by (simp_all add: word_less_nat_alt)
  then have "unat stop = (unat start + (unat stop + unat mx - unat start) mod unat mx) mod unat mx"
    by (simp add: mod_simps)
  with put_buff_loop_runs [OF this assms(1) _ assms(3,4), of e] lt show ?thesis
    by (simp add: oprofile_put_buff_def)
qed

text \<open>An end index at or beyond \<open>mx\<close> is never met: the loop does not return, it copies the
  whole array round and round or leaves it.\<close>

theorem oprofile_put_buff_stop_beyond_end:
  assumes "start \<noteq> stop" and "mx \<le> stop" and "0 < mx"
  shows "oprofile_put_buff buf start stop mx e = None"
proof (rule ccontr)
  assume "oprofile_put_buff buf start stop mx e \<noteq> None"
  then obtain r where "put_buff_loop buf start stop mx e = Some r"
    by (auto simp: oprofile_put_buff_def)
  then have "\<not> (start \<noteq> stop \<and> mx \<le> stop \<and> 0 < mx)"
    by (rule put_buff_loop.raw_induct [rotated])
      (fastforce split: if_splits Option.bind_splits)
  with assms show False by blast
qed

end
