(* ===== verification/Event_Stream.thy ===== *)
theory Event_Stream
  imports Buffer_Sync
begin

text \<open>
  The stream of words that the daemon reads, as items: the format given by the code numbers
  of \<^verbatim>\<open>driver/event_buffer.h\<close> and by what \<^verbatim>\<open>buffer_sync.c\<close> writes after each of them. The
  format is shown to be uniquely readable, the words of a synchronisation to be in it, and
  a reader that keeps track of the switches to attribute every logged sample to the mode
  and the task it was taken in.
\<close>

section \<open>Items\<close>

datatype stream_item =
    Cpu_switch ulong
  | Kernel_enter
  | Kernel_exit
  | Task_switch (item_tid: ulong) (item_tgid: ulong)
  | Trace_begin
  | Sampling_begin u64
  | Sampling_end u64
  | Sample_begin u64
  | Sample_end u64
  | Sample (item_pc: ulong) (item_ev: ulong)

fun item_words :: "stream_item \<Rightarrow> ulong list" where
  "item_words (Cpu_switch c) = [ESCAPE_CODE, CPU_SWITCH_CODE, c]"
| "item_words Kernel_enter = [ESCAPE_CODE, KERNEL_ENTER_SWITCH_CODE]"
| "item_words Kernel_exit = [ESCAPE_CODE, KERNEL_EXIT_SWITCH_CODE]"
| "item_words (Task_switch t g) = [ESCAPE_CODE, CTX_SWITCH_CODE, t, g]"
| "item_words Trace_begin = [ESCAPE_CODE, TRACE_BEGIN_CODE]"
| "item_words (Sampling_begin ts) = [ESCAPE_CODE, RR_CPU_SAMPLING_BEGIN_TIMESTAMP_CODE, ts]"
| "item_words (Sampling_end ts) = [ESCAPE_CODE, RR_CPU_SAMPLING_END_TIMESTAMP_CODE, ts]"
| "item_words (Sample_begin ts) = [ESCAPE_CODE, RR_SAMPLE_BEGIN_TIMESTAMP_CODE, ts]"
| "item_words (Sample_end ts) = [ESCAPE_CODE, RR_SAMPLE_END_TIMESTAMP_CODE, ts]"
| "item_words (Sample pc ev) = [pc, ev]"

abbreviation items_words :: "stream_item list \<Rightarrow> ulong list" where
  "items_words items \<equiv> concat (map item_words items)"

text \<open>A reader of the format; \<open>None\<close> for words that are not in it.\<close>

definition code_item :: "ulong \<Rightarrow> ulong \<Rightarrow> stream_item option" where
  "code_item code arg =
    (if code = CPU_SWITCH_CODE then Some (Cpu_switch arg)
     else if code = RR_CPU_SAMPLING_BEGIN_TIMESTAMP_CODE then Some (Sampling_begin arg)
     else if code = RR_CPU_SAMPLING_END_TIMESTAMP_CODE then Some (Sampling_end arg)
     else if code = RR_SAMPLE_BEGIN_TIMESTAMP_CODE then Some (Sample_begin arg)
     else if code = RR_SAMPLE_END_TIMESTAMP_CODE then Some (Sample_end arg)
     else None)"

fun parse :: "ulong list \<Rightarrow> stream_item list option" where
  "parse [] = Some []"
| "parse [w] = None"
| "parse (w # v # ws) =
    (if w \<noteq> ESCAPE_CODE then map_option (Cons (Sample w v)) (parse ws)
     else if v = KERNEL_ENTER_SWITCH_CODE then map_option (Cons Kernel_enter) (parse ws)
     else if v = KERNEL_EXIT_SWITCH_CODE then map_option (Cons Kernel_exit) (parse ws)
     else if v = TRACE_BEGIN_CODE then map_option (Cons Trace_begin) (parse ws)
     else if v = CTX_SWITCH_CODE then
       (case ws of t # g # ws \<Rightarrow> map_option (Cons (Task_switch t g)) (parse ws) | _ \<Rightarrow> None)
     else
       (case ws of
          a # ws \<Rightarrow>
            (case (code_item v a, parse ws) of
               (Some item, Some items) \<Rightarrow> Some (item # items)
             | _ \<Rightarrow> None)
        | [] \<Rightarrow> None))"

definition item_ok :: "stream_item \<Rightarrow> bool" where
  "item_ok item \<longleftrightarrow> (case item of Sample pc ev \<Rightarrow> pc \<noteq> ESCAPE_CODE | _ \<Rightarrow> True)"

lemma parse_item:
  "item_ok item \<Longrightarrow> parse (item_words item @ ws) = map_option (Cons item) (parse ws)"
  by (cases item; cases "parse ws") (simp_all add: item_ok_def code_item_def ev_code_defs)

lemma parse_items:
  "list_all item_ok items \<Longrightarrow> parse (items_words items @ ws) = map_option ((@) items) (parse ws)"
  by (cases "parse ws"; induction items) (simp_all add: parse_item)

section \<open>The items of a synchronisation\<close>

definition entry_items :: "op_sample \<Rightarrow> sync_locals \<Rightarrow> stream_item list" where
  "entry_items s l =
    (if eip s = ESCAPE_CODE then
       if event s = 0 then [Kernel_exit]
       else if event s = CPU_IS_KERNEL then [Kernel_enter]
       else if event s = CPU_TRACE_BEGIN then [Trace_begin]
       else if event s = RR_CPU_CTX_TID then [Task_switch (timestamp s) (tgid l)]
       else if event s = RR_CPU_SAMPLING_START_TIMESTAMP then [Sampling_begin (timestamp s)]
       else if event s = RR_CPU_SAMPLING_STOP_TIMESTAMP then [Sampling_end (timestamp s)]
       else if event s = RR_CPU_SAMPLE_START_TIMESTAMP then [Sample_begin (timestamp s)]
       else if event s = RR_CPU_SAMPLE_STOP_TIMESTAMP then [Sample_end (timestamp s)]
       else []
     else if sb_bt_start \<le> sb_state l \<and> eip s \<noteq> 0 then [Sample (eip s) (event s)]
     else [])"

fun stream_items :: "op_sample list \<Rightarrow> sync_locals \<Rightarrow> stream_item list" where
  "stream_items [] l = []"
| "stream_items (s # ss) l = entry_items s l @ stream_items ss (entry_locals s l)"

lemma entry_items_words: "items_words (entry_items s l) = entry_words s l"
  by (simp add: entry_items_def entry_words_def)

lemma entry_items_ok: "list_all item_ok (entry_items s l)"
  by (simp add: entry_items_def item_ok_def)

lemma stream_items_append:
  "stream_items (ss @ ts) l = stream_items ss l @ stream_items ts (stream_locals ss l)"
  by (induction ss arbitrary: l) simp_all

lemma stream_items_words: "items_words (stream_items ss l) = stream_words ss l"
  by (induction ss arbitrary: l) (simp_all add: entry_items_words)

lemma stream_items_ok: "list_all item_ok (stream_items ss l)"
  by (induction ss arbitrary: l) (simp_all add: entry_items_ok)

definition sync_items :: "nat \<Rightarrow> op_sample list \<Rightarrow> stream_item list" where
  "sync_items c ss = Cpu_switch (of_nat c) # stream_items ss sync_start_locals"

text \<open>Whatever entries a ring holds, the words its synchronisation appends are a sequence
  of items of the format, and reading them gives the items of the entries after the CPU
  switch.\<close>

theorem sync_words_parse: "parse (sync_words c ss) = Some (sync_items c ss)"
proof -
  have "sync_words c ss = items_words (sync_items c ss)"
    by (simp add: sync_words_def sync_items_def stream_items_words)
  then show ?thesis
    using parse_items [of "sync_items c ss" "[]"]
    by (simp add: sync_items_def stream_items_ok item_ok_def)
qed

section \<open>Attribution of samples\<close>

text \<open>
  The daemon's view while it reads: the CPU, the mode and the task that the samples that
  follow belong to. \<open>attribute\<close> lists the samples with what they are attributed to.
\<close>

record view =
  v_cpu :: ulong
  v_kernel :: bool
  v_tgid :: ulong
  v_tid :: ulong

record attributed =
  a_cpu :: ulong
  a_kernel :: bool
  a_tgid :: ulong
  a_tid :: ulong
  a_pc :: ulong
  a_ev :: ulong

fun attribute :: "view \<Rightarrow> stream_item list \<Rightarrow> attributed list" where
  "attribute v [] = []"
| "attribute v (Cpu_switch c # items) = attribute (v\<lparr>v_cpu := c\<rparr>) items"
| "attribute v (Kernel_enter # items) = attribute (v\<lparr>v_kernel := True\<rparr>) items"
| "attribute v (Kernel_exit # items) = attribute (v\<lparr>v_kernel := False\<rparr>) items"
| "attribute v (Task_switch t g # items) = attribute (v\<lparr>v_tgid := g, v_tid := t\<rparr>) items"
| "attribute v (Sample pc ev # items) =
     \<lparr>a_cpu = v_cpu v, a_kernel = v_kernel v, a_tgid = v_tgid v, a_tid = v_tid v,
      a_pc = pc, a_ev = ev\<rparr> # attribute v items"
| "attribute v (_ # items) = attribute v items"

text \<open>A sample as the interrupt handler logs it, and the logging of a sequence of them.\<close>

record job =
  j_task :: task_struct
  j_pc :: ulong
  j_kernel :: int
  j_ev :: ulong

definition log_job :: "job \<Rightarrow> oprofile_cpu_buffer \<Rightarrow> oprofile_cpu_buffer option" where
  "log_job j b = oprofile_add_pc (j_task j) (j_pc j) (j_kernel j) (j_ev j) b"

definition job_attributed :: "nat \<Rightarrow> job \<Rightarrow> attributed" where
  "job_attributed c j =
     \<lparr>a_cpu = of_nat c, a_kernel = (j_kernel j \<noteq> 0), a_tgid = scast (task_tgid (j_task j)),
      a_tid = scast (task_pid (j_task j)), a_pc = j_pc j, a_ev = j_ev j\<rparr>"

text \<open>
  What is assumed of the samples: no null or escape address, no task at address 0, and
  (as \<open>last_task\<close> compares addresses only) one address, one task.
\<close>

definition job_ok :: "(ulong \<Rightarrow> u32 \<times> u32) \<Rightarrow> job \<Rightarrow> bool" where
  "job_ok ids j \<longleftrightarrow> j_pc j \<noteq> ESCAPE_CODE \<and> j_pc j \<noteq> 0 \<and> task_addr (j_task j) \<noteq> 0 \<and>
     ids (task_addr (j_task j)) = (task_tgid (j_task j), task_pid (j_task j))"

text \<open>The entries the jobs queue, from the switch notes at the start.\<close>

fun job_entries :: "job list \<Rightarrow> oprofile_cpu_buffer \<Rightarrow> op_sample list" where
  "job_entries [] b = []"
| "job_entries (j # js) b =
     log_entries b (j_task j) (j_pc j) (j_kernel j) (j_ev j) @
     job_entries js (b\<lparr>last_is_kernel := mode_of (j_kernel j), last_task := task_addr (j_task j)\<rparr>)"

lemma log_entries_cong:
  "last_is_kernel b = last_is_kernel b' \<Longrightarrow> last_task b = last_task b' \<Longrightarrow>
   log_entries b = log_entries b'"
  by (intro ext) (simp add: log_entries_def mode_note_def task_notes_def)

lemma job_entries_cong:
  "last_is_kernel b = last_is_kernel b' \<Longrightarrow> last_task b = last_task b' \<Longrightarrow>
   job_entries js b = job_entries js b'"
proof (induction js arbitrary: b b')
  case (Cons j js)
  then show ?case using log_entries_cong [of b b'] by simp
qed simp

lemma log_jobs_queue:
  assumes "ring_ok b" and "list_all (job_ok ids) js"
    and "length (contents b) + 4 * length js \<le> ring_cap b"
  shows "\<exists>b'. for_each log_job js b = Some b' \<and> ring_ok b' \<and> ring_cap b' = ring_cap b \<and>
    contents b' = contents b @ job_entries js b"
  using assms
proof (induction js arbitrary: b)
  case Nil
  then show ?case by simp
next
  case (Cons j js)
  let ?es = "log_entries b (j_task j) (j_pc j) (j_kernel j) (j_ev j)"
  let ?m = "b\<lparr>sample_received := sample_received b + 1,
    last_is_kernel := mode_of (j_kernel j), last_task := task_addr (j_task j)\<rparr>"
  let ?b = "fold put ?es ?m"
  have len: "length ?es \<le> 4" by (rule log_entries_le_4)
  have 0: "ring_ok ?m" "contents ?m = contents b" "ring_cap ?m = ring_cap b"
    using Cons.prems by (simp_all add: ring_simps)
  have c: "contents ?b = contents b @ ?es"
    using ring.items_enq_all [OF 0(1), of ?es] Cons.prems(3) len 0 by simp
  have "log_job j b = Some ?b"
    using Cons.prems by (simp add: log_job_def oprofile_add_pc_def log_sample_accept job_ok_def)
  moreover have "ring_ok ?b" "ring_cap ?b = ring_cap b"
    using 0 by (simp_all add: ring.inv_enq_all ring.cap_enq_all)
  moreover have "job_entries js ?b = job_entries js ?m"
    by (rule job_entries_cong) (simp_all add: frame_simps)
  moreover have "job_entries js ?m = job_entries js
      (b\<lparr>last_is_kernel := mode_of (j_kernel j), last_task := task_addr (j_task j)\<rparr>)"
    by (rule job_entries_cong) simp_all
  ultimately show ?case
    using Cons.IH [of ?b] Cons.prems c len by auto
qed

text \<open>
  What ties the handler's notes to the locals of the synchronisation and to the view: a
  noted mode or task is the one the view has.
\<close>

definition notes_seen ::
  "(ulong \<Rightarrow> u32 \<times> u32) \<Rightarrow> oprofile_cpu_buffer \<Rightarrow> sync_locals \<Rightarrow> view \<Rightarrow> bool" where
  "notes_seen ids b l v \<longleftrightarrow>
     (last_is_kernel b = -1 \<and> sb_state l = sb_buffer_start \<or>
      last_is_kernel b = of_bool (v_kernel v) \<and> sb_state l = sb_sample_start) \<and>
     (last_task b \<noteq> 0 \<longrightarrow>
      v_tgid v = scast (fst (ids (last_task b))) \<and> v_tid v = scast (snd (ids (last_task b))))"

definition job_view :: "job \<Rightarrow> view \<Rightarrow> view" where
  "job_view j v =
     v\<lparr>v_kernel := (j_kernel j \<noteq> 0), v_tgid := scast (task_tgid (j_task j)),
       v_tid := scast (task_pid (j_task j))\<rparr>"

lemma sample_start_ge: "sb_bt_start \<le> sb_sample_start"
  by (simp add: less_eq_sync_buffer_state_def)

text \<open>The entries of \<open>log_sample\<close>, one by one.\<close>

lemma mode_entry:
  defines "s \<equiv> \<lambda>k. \<lparr>eip = ESCAPE_CODE, event = of_int (mode_of k), timestamp = 0\<rparr>"
  shows "entry_items (s k) l = [if k \<noteq> 0 then Kernel_enter else Kernel_exit]"
    and "sb_state (entry_locals (s k) l) =
      (if sb_state l = sb_buffer_start then sb_sample_start else sb_state l)"
    and "tgid (entry_locals (s k) l) = tgid l"
  by (simp_all add: s_def entry_items_def entry_locals_def mode_of_def CPU_IS_KERNEL_def)

lemma tgid_entry:
  defines "s \<equiv> \<lambda>g. \<lparr>eip = ESCAPE_CODE, event = RR_CPU_CTX_TGID, timestamp = g\<rparr>"
  shows "entry_items (s g) l = []" and "entry_locals (s g) l = l\<lparr>tgid := g\<rparr>"
  by (simp_all add: s_def entry_items_def entry_locals_def cpu_code_defs word_le_1_cases)

lemma tid_entry:
  defines "s \<equiv> \<lambda>t. \<lparr>eip = ESCAPE_CODE, event = RR_CPU_CTX_TID, timestamp = t\<rparr>"
  shows "entry_items (s t) l = [Task_switch t (tgid l)]"
    and "entry_locals (s t) l = l\<lparr>tid := t\<rparr>"
  by (simp_all add: s_def entry_items_def entry_locals_def cpu_code_defs word_le_1_cases)

lemma sample_entry:
  assumes "pc \<noteq> ESCAPE_CODE" and "pc \<noteq> 0"
  shows "sb_state l = sb_sample_start \<Longrightarrow>
      entry_items \<lparr>eip = pc, event = ev, timestamp = ts\<rparr> l = [Sample pc ev]"
    and "entry_locals \<lparr>eip = pc, event = ev, timestamp = ts\<rparr> l = l"
  using assms by (simp_all add: entry_items_def entry_locals_def entry_drops_def sample_start_ge)

lemmas logged_entry = mode_entry tgid_entry tid_entry sample_entry

lemma attribute_job:
  assumes "notes_seen ids b l v" and "job_ok ids j"
  defines "es \<equiv> log_entries b (j_task j) (j_pc j) (j_kernel j) (j_ev j)"
  shows "attribute v (stream_items es l @ items) =
      (job_attributed c j)\<lparr>a_cpu := v_cpu v\<rparr> # attribute (job_view j v) items"
    and "notes_seen ids (b\<lparr>last_is_kernel := mode_of (j_kernel j), last_task := task_addr (j_task j)\<rparr>)
      (stream_locals es l) (job_view j v)"
proof -
  have neg: "mode_of k \<noteq> -1" for k by (simp add: mode_of_def)
  have same: "v_kernel v \<longleftrightarrow> k \<noteq> 0" if "of_bool (v_kernel v) = mode_of k" for k
    using that by (simp add: mode_of_def of_bool_def split: if_splits)
  note facts = es_def log_entries_def mode_note_def task_notes_def logged_entry
  show "attribute v (stream_items es l @ items) =
      (job_attributed c j)\<lparr>a_cpu := v_cpu v\<rparr> # attribute (job_view j v) items"
    using assms(1,2) neg same
    by (cases v; cases "last_is_kernel b = mode_of (j_kernel j)"; cases "last_task b = task_addr (j_task j)")
      (auto simp: facts notes_seen_def job_ok_def job_attributed_def job_view_def)
  have "of_bool (j_kernel j \<noteq> 0) = mode_of (j_kernel j)" by (simp add: mode_of_def)
  then show "notes_seen ids
      (b\<lparr>last_is_kernel := mode_of (j_kernel j), last_task := task_addr (j_task j)\<rparr>)
      (stream_locals es l) (job_view j v)"
    using assms(1,2) neg
    by (cases v; cases "last_is_kernel b = mode_of (j_kernel j)"; cases "last_task b = task_addr (j_task j)")
      (auto simp: facts notes_seen_def job_ok_def job_view_def)
qed

lemma attribute_jobs:
  assumes "notes_seen ids b l v" and "list_all (job_ok ids) js" and "v_cpu v = of_nat c"
  shows "attribute v (stream_items (job_entries js b) l) = map (job_attributed c) js"
  using assms
proof (induction js arbitrary: b l v)
  case (Cons j js)
  then have j: "notes_seen ids b l v" "job_ok ids j" by simp_all
  have "v_cpu (job_view j v) = of_nat c" using Cons.prems by (simp add: job_view_def)
  with Cons.IH [OF attribute_job(2) [OF j]] Cons.prems show ?case
    by (simp add: stream_items_append attribute_job(1) [OF j, of _ c] job_attributed_def)
qed simp

lemma length_job_words:
  assumes "job_ok ids j"
  shows "length (stream_words (log_entries b (j_task j) (j_pc j) (j_kernel j) (j_ev j)) l) \<le> 8"
  using assms
  by (simp add: stream_items_words [symmetric] log_entries_def mode_note_def task_notes_def
      mode_entry tgid_entry tid_entry job_ok_def)
    (simp add: entry_items_def)

lemma length_jobs_words:
  "list_all (job_ok ids) js \<Longrightarrow> length (stream_words (job_entries js b) l) \<le> 8 * length js"
proof (induction js arbitrary: b l)
  case (Cons j js)
  let ?es = "log_entries b (j_task j) (j_pc j) (j_kernel j) (j_ev j)"
  have "length (stream_words ?es l) \<le> 8" using Cons.prems length_job_words [of ids j b l] by simp
  moreover have "length (stream_words (job_entries js b') (stream_locals ?es l)) \<le> 8 * length js" for b'
    using Cons by simp
  ultimately show ?case by (simp add: stream_words_append add_mono)
qed simp

lemma length_job_entries: "length (job_entries js b) \<le> 4 * length js"
proof (induction js arbitrary: b)
  case (Cons j js)
  then show ?case using log_entries_le_4 by (simp add: add_mono)
qed simp

text \<open>C3: from interrupt to daemon: samples logged on a CPU whose ring has just been
  synchronised, with room for their entries and words, reach the event buffer with the next
  synchronisation as words of the format; reading these and keeping track of the switches
  gives back every sample, in order, with its CPU, its mode, its process and its thread.\<close>

theorem samples_reach_daemon_attributed:
  assumes "ring_ok (cpu_buffer k c)" and "contents (cpu_buffer k c) = []"
    and "last_task (cpu_buffer k c) = 0" and "last_is_kernel (cpu_buffer k c) = -1"
    and "eb_ok (evb k)" and "list_all (job_ok ids) js"
    and "4 * length js \<le> ring_cap (cpu_buffer k c)" and "4 * length js < 2 ^ 32"
    and "length (ev_words (evb k)) + 3 + 8 * length js \<le> eb_cap (evb k)"
  shows "\<exists>k1 k2 words items. on_cpu c (for_each log_job js) k = Some k1 \<and>
    sync_buffer online c k1 = Some k2 \<and>
    ev_words (evb k2) = ev_words (evb k) @ words \<and> parse words = Some items \<and>
    attribute v items = map (job_attributed c) js"
proof -
  obtain b where b: "for_each log_job js (cpu_buffer k c) = Some b" "ring_ok b"
    "contents b = job_entries js (cpu_buffer k c)"
    using log_jobs_queue [OF assms(1,6)] assms(2,7) by auto
  let ?k = "k\<lparr>cpu_buffer := (cpu_buffer k)(c := b)\<rparr>" and ?ss = "contents b"
  have n: "length ?ss < 2 ^ 32" 
    unfolding b(3) using length_job_entries [of js "cpu_buffer k c"] assms(8) by (rule le_less_trans)
  obtain e where e: "add_event_entries (sync_words c ?ss) (evb k) = Some e"
    "\<exists>k2. sync_buffer online c ?k = Some k2 \<and> evb k2 = e"
    using sync_buffer_steps [of ?k c online] b(2) assms(5) n by auto
  have "length (ev_words (evb k)) + length (sync_words c ?ss) \<le> eb_cap (evb k)"
    using assms(9) length_jobs_words [OF assms(6), of "cpu_buffer k c" sync_start_locals] b(3)
    by (simp add: sync_words_def)
  then have w: "ev_words e = ev_words (evb k) @ sync_words c ?ss"
    using evlog.add_all_fits [OF assms(5)] e(1) by fastforce
  have "sync_words c ?ss = items_words (sync_items c ?ss)"
    by (simp add: sync_words_def sync_items_def stream_items_words)
  then have p: "parse (sync_words c ?ss) = Some (sync_items c ?ss)"
    using parse_items [of "sync_items c ?ss" "[]"]
    by (simp add: sync_items_def stream_items_ok item_ok_def)
  have "notes_seen ids (cpu_buffer k c) sync_start_locals (v\<lparr>v_cpu := of_nat c\<rparr>)"
    using assms(3,4) by (simp add: notes_seen_def sync_start_locals_def)
  then have "attribute v (sync_items c ?ss) = map (job_attributed c) js"
    using attribute_jobs [of ids "cpu_buffer k c" sync_start_locals _ js c] assms(6) b(3)
    by (simp add: sync_items_def)
  with b(1) e(2) w p show ?thesis by (auto simp: on_cpu_def)
qed

end
