(* ===== verification/Oprof.thy ===== *)
theory Oprof
  imports Event_Stream
begin

text \<open>
  \<^verbatim>\<open>driver/oprof.c\<close> with the open and release handlers of \<^verbatim>\<open>driver/event_buffer.c\<close> and
  \<^verbatim>\<open>sync_start\<close> and \<^verbatim>\<open>sync_stop\<close> of \<^verbatim>\<open>driver/buffer_sync.c\<close>: setting up, starting, stopping,
  adapting and shutting down a profiling session through the operations of a back end
  (\<^verbatim>\<open>struct oprofile_operations\<close>). All operations run under \<^verbatim>\<open>start_sem\<close>, so each is one
  state change.
\<close>

section \<open>State\<close>

text \<open>
  \<^verbatim>\<open>struct oprofile_operations\<close> of \<^verbatim>\<open>oprofile.h\<close>, with operations that act on a kernel state
  \<open>'k\<close>; a null pointer is \<open>None\<close>. \<open>op_create_files\<close> is represented by the paths of the
  files that the callback creates.
\<close>

record ('k, 'r) oprofile_operations =
  op_create_files :: "string list option"
  op_setup :: "('k \<Rightarrow> (rc \<times> 'k) option) option"
  op_shutdown :: "('k \<Rightarrow> 'k option) option"
  op_start :: "('k \<Rightarrow> (rc \<times> 'k) option) option"
  op_stop :: "('k \<Rightarrow> 'k option) option"
  op_sync_start :: "('k \<Rightarrow> (int \<times> 'k) option) option"
  op_sync_stop :: "('k \<Rightarrow> (int \<times> 'k) option) option"
  op_backtrace :: "'r option backtrace_op option"
  op_adapt :: "('k \<Rightarrow> (bool \<times> 'k) option) option"
  op_cpu_type :: "string option"
  op_num_counters :: u32

text \<open>\<^verbatim>\<open>memset(ops, 0, sizeof(struct oprofile_operations))\<close>\<close>

definition no_operations :: "('k, 'r) oprofile_operations" where
  "no_operations =
     \<lparr>op_create_files = None, op_setup = None, op_shutdown = None, op_start = None,
      op_stop = None, op_sync_start = None, op_sync_stop = None, op_backtrace = None,
      op_adapt = None, op_cpu_type = None, op_num_counters = 0\<rparr>"

text \<open>
  The globals of \<^verbatim>\<open>oprof.c\<close> and of \<^verbatim>\<open>oprofile_files.c\<close>; \<open>kern\<close> is the state shared with
  the other files. \<^verbatim>\<open>oprofile_started\<close> and \<^verbatim>\<open>is_setup\<close> only ever hold 0 or 1.
\<close>

record ('h, 'r) driver =
  kern :: "'h kstate_scheme"
  oprofile_ops :: "('h kstate_scheme, 'r) oprofile_operations"
  arch_ops :: "('h kstate_scheme, 'r) oprofile_operations"
  timer_ops :: "('h kstate_scheme, 'r) oprofile_operations"
  oprofile_started :: bool
  is_setup :: bool
  oprofile_backtrace_depth :: ulong
  oprofile_adapt_value :: ulong
  oprofile_buffer_size :: ulong
  oprofile_cpu_buffer_size :: ulong
  oprofile_buffer_watershed :: ulong
  oprofile_cpu_type :: string
  oprofile_num_counters :: u32
  rrprofile_debug :: int

text \<open>What the kernel provides: the sets of CPUs and the allocators.\<close>

record kernel_env =
  possible_cpus :: "nat list"
  online_cpus :: "nat list"
  vmalloc_node :: "nat \<Rightarrow> ulong \<Rightarrow> op_sample list option"
  vmalloc :: "ulong \<Rightarrow> ulong list option"

definition ADAPT_DECAY_FACTOR :: ulong where "ADAPT_DECAY_FACTOR = 10"

abbreviation on_kern :: "('h kstate_scheme \<Rightarrow> 'h kstate_scheme) \<Rightarrow> ('h, 'r) driver \<Rightarrow> ('h, 'r) driver"
where
  "on_kern f d \<equiv> d\<lparr>kern := f (kern d)\<rparr>"

abbreviation on_evb ::
  "(event_buffer_state \<Rightarrow> event_buffer_state) \<Rightarrow> 'h kstate_scheme \<Rightarrow> 'h kstate_scheme" where
  "on_evb f k \<equiv> k\<lparr>evb := f (evb k)\<rparr>"

text \<open>Calls through the operations structure; calling a null pointer is a fault.\<close>

definition call_rc ::
  "('k \<Rightarrow> (rc \<times> 'k) option) option \<Rightarrow> 'k \<Rightarrow> (rc \<times> 'k) option" where
  "call_rc f k = (case f of None \<Rightarrow> None | Some g \<Rightarrow> g k)"

definition call_void :: "('k \<Rightarrow> 'k option) option \<Rightarrow> 'k \<Rightarrow> 'k option" where
  "call_void f k = (case f of None \<Rightarrow> None | Some g \<Rightarrow> g k)"

text \<open>\<^verbatim>\<open>if (oprofile_ops.shutdown) oprofile_ops.shutdown();\<close>\<close>

definition call_optional :: "('k \<Rightarrow> 'k option) option \<Rightarrow> 'k \<Rightarrow> 'k option" where
  "call_optional f k = (case f of None \<Rightarrow> Some k | Some g \<Rightarrow> g k)"

section \<open>Generic synchronisation\<close>

text \<open>\<^verbatim>\<open>sync_start\<close> and \<^verbatim>\<open>sync_stop\<close> of \<^verbatim>\<open>buffer_sync.c\<close>\<close>

definition sync_start :: "nat list \<Rightarrow> 'h kstate_scheme \<Rightarrow> rc \<times> 'h kstate_scheme" where
  "sync_start online k = (rc_ok, start_cpu_work online k)"

definition sync_stop :: "nat list \<Rightarrow> 'h kstate_scheme \<Rightarrow> 'h kstate_scheme" where
  "sync_stop online k = end_cpu_work online k"

section \<open>Setup\<close>

text \<open>
  The error exits of \<^verbatim>\<open>oprofile_setup\<close>, one for each label; all exits clear
  \<^verbatim>\<open>buffer_dump\<close>.
\<close>

definition setup_out :: "rc \<Rightarrow> ('h, 'r) driver \<Rightarrow> (rc \<times> ('h, 'r) driver) option" where
  "setup_out err d = Some (err, on_kern (on_evb (\<lambda>e. e\<lparr>buffer_dump := False\<rparr>)) d)"

definition setup_out1 ::
  "kernel_env \<Rightarrow> rc \<Rightarrow> ('h, 'r) driver \<Rightarrow> (rc \<times> ('h, 'r) driver) option" where
  "setup_out1 env err d =
     setup_out err
       (on_kern (\<lambda>k. k\<lparr>cpu_buffer := free_cpu_buffers (possible_cpus env) (cpu_buffer k)\<rparr>) d)"

definition setup_out2 ::
  "kernel_env \<Rightarrow> rc \<Rightarrow> ('h, 'r) driver \<Rightarrow> (rc \<times> ('h, 'r) driver) option" where
  "setup_out2 env err d = setup_out1 env err (on_kern (on_evb free_event_buffer) d)"

definition setup_out3 ::
  "kernel_env \<Rightarrow> rc \<Rightarrow> ('h, 'r) driver \<Rightarrow> (rc \<times> ('h, 'r) driver) option" where
  "setup_out3 env err d =
     do { k \<leftarrow> call_optional (op_shutdown (oprofile_ops d)) (kern d);
          setup_out2 env err (d\<lparr>kern := k\<rparr>) }"

definition setup_post_sync :: "('h, 'r) driver \<Rightarrow> (rc \<times> ('h, 'r) driver) option" where
  "setup_post_sync d =
     Some (rc_ok, on_kern (on_evb (\<lambda>e. e\<lparr>buffer_dump := False\<rparr>)) (d\<lparr>is_setup := True\<rparr>))"

definition setup_do_generic ::
  "kernel_env \<Rightarrow> ('h, 'r) driver \<Rightarrow> (rc \<times> ('h, 'r) driver) option" where
  "setup_do_generic env d =
     (case sync_start (online_cpus env) (kern d) of
        (Inl err, k) \<Rightarrow> setup_out3 env (Inl err) (d\<lparr>kern := k\<rparr>)
      | (Inr _, k) \<Rightarrow> setup_post_sync (d\<lparr>kern := k\<rparr>))"

text \<open>
  The part after the buffers and the back end are set up. At this point \<^verbatim>\<open>err\<close> is 0, and a
  failure of the back end's \<^verbatim>\<open>sync_start\<close> does not change it.
\<close>

definition setup_sync ::
  "kernel_env \<Rightarrow> ('h, 'r) driver \<Rightarrow> (rc \<times> ('h, 'r) driver) option" where
  "setup_sync env d =
     (case op_sync_start (oprofile_ops d) of
        None \<Rightarrow> setup_do_generic env d
      | Some f \<Rightarrow>
          do { (sync_ret, k) \<leftarrow> f (kern d);
               let d = d\<lparr>kern := k\<rparr>;
               if sync_ret = 0 then setup_post_sync d
               else if sync_ret = 1 then setup_do_generic env d
               else setup_out3 env rc_ok d })"

definition oprofile_setup ::
  "kernel_env \<Rightarrow> ('h, 'r) driver \<Rightarrow> (rc \<times> ('h, 'r) driver) option" where
  "oprofile_setup env d =
     (let (err, bufs) = alloc_cpu_buffers (vmalloc_node env) (possible_cpus env)
                          (oprofile_cpu_buffer_size d) (cpu_buffer (kern d));
          d = on_kern (\<lambda>k. k\<lparr>cpu_buffer := bufs\<rparr>) d
      in if err \<noteq> rc_ok then setup_out err d
      else
        let (err, e) = alloc_event_buffer (vmalloc env) (oprofile_buffer_size d)
                         (oprofile_buffer_watershed d) (evb (kern d));
            d = on_kern (\<lambda>k. k\<lparr>evb := e\<rparr>) d
        in if err \<noteq> rc_ok then setup_out1 env err d
        else
          case op_setup (oprofile_ops d) of
            None \<Rightarrow> setup_sync env d
          | Some f \<Rightarrow>
              do { (err, k) \<leftarrow> f (kern d);
                   let d = d\<lparr>kern := k\<rparr>;
                   if err \<noteq> rc_ok then setup_out2 env err d else setup_sync env d })"

section \<open>Start, stop, adapt, shutdown\<close>

text \<open>The three words of an adaption note, as \<^verbatim>\<open>oprof.c\<close> writes them.\<close>

definition note_adapt_value :: "('h, 'r) driver \<Rightarrow> ('h, 'r) driver option" where
  "note_adapt_value d =
     do { e \<leftarrow> add_event_entry ESCAPE_CODE (evb (kern d));
          e \<leftarrow> add_event_entry RR_ADAPT_SAMPLING_INTERVAL_CODE e;
          e \<leftarrow> add_event_entry (oprofile_adapt_value d) e;
          Some (d\<lparr>kern := (kern d)\<lparr>evb := e\<rparr>\<rparr>) }"

text \<open>Without event multiplexing, \<^verbatim>\<open>start_switch_worker\<close> and \<^verbatim>\<open>stop_switch_worker\<close> are empty.\<close>

definition oprofile_start ::
  "kernel_env \<Rightarrow> ('h, 'r) driver \<Rightarrow> (rc \<times> ('h, 'r) driver) option" where
  "oprofile_start env d =
     (if \<not> is_setup d then Some (Inl EINVAL, d)
      else if oprofile_started d then Some (rc_ok, d)
      else
        do { let d = on_kern (oprofile_reset_stats (possible_cpus env)) d;
             d \<leftarrow> note_adapt_value (d\<lparr>oprofile_adapt_value := 1\<rparr>);
             (err, k) \<leftarrow> call_rc (op_start (oprofile_ops d)) (kern d);
             let d = d\<lparr>kern := k\<rparr>;
             if err \<noteq> rc_ok then Some (err, d)
             else Some (rc_ok, on_kern (on_evb (\<lambda>e. e\<lparr>buffer_dump := False\<rparr>))
                                 (d\<lparr>oprofile_started := True\<rparr>)) })"

text \<open>Dumping the rings of all online CPUs into the event buffer.\<close>

definition sync_all :: "kernel_env \<Rightarrow> ('h, 'r) driver \<Rightarrow> ('h, 'r) driver option" where
  "sync_all env d =
     map_option (\<lambda>k. d\<lparr>kern := k\<rparr>)
       (for_each (sync_buffer (online_cpus env)) (online_cpus env) (kern d))"

definition oprofile_stop :: "kernel_env \<Rightarrow> ('h, 'r) driver \<Rightarrow> ('h, 'r) driver option" where
  "oprofile_stop env d =
     (if \<not> oprofile_started d then Some d
      else
        do { k \<leftarrow> call_void (op_stop (oprofile_ops d)) (kern d);
             d \<leftarrow> sync_all env (d\<lparr>kern := k, oprofile_started := False\<rparr>);
             d \<leftarrow> note_adapt_value d;
             Some (on_kern (on_evb wake_up_buffer_waiter) d) })"

definition oprofile_adapt ::
  "kernel_env \<Rightarrow> ('h, 'r) driver \<Rightarrow> (rc \<times> ('h, 'r) driver) option" where
  "oprofile_adapt env d =
     (if \<not> oprofile_started d then Some (Inl EINVAL, d)
      else
        do { k \<leftarrow> call_void (op_stop (oprofile_ops d)) (kern d);
             d \<leftarrow> sync_all env (d\<lparr>kern := k\<rparr>);
             case op_adapt (oprofile_ops d) of
               None \<Rightarrow> Some (Inl EINVAL, d)
             | Some f \<Rightarrow>
                 do { (changed, k) \<leftarrow> f (kern d);
                      let d = d\<lparr>kern := k\<rparr>;
                      d \<leftarrow> (if changed then
                              note_adapt_value
                                (d\<lparr>oprofile_adapt_value :=
                                     oprofile_adapt_value d * ADAPT_DECAY_FACTOR\<rparr>)
                            else Some d);
                      (err, k) \<leftarrow> call_rc (op_start (oprofile_ops d)) (kern d);
                      let d = d\<lparr>kern := k\<rparr>;
                      Some (err, if err \<noteq> rc_ok then d\<lparr>oprofile_started := False\<rparr> else d) } })"

definition oprofile_shutdown :: "kernel_env \<Rightarrow> ('h, 'r) driver \<Rightarrow> ('h, 'r) driver option" where
  "oprofile_shutdown env d =
     do { d \<leftarrow> (case op_sync_stop (oprofile_ops d) of
                 None \<Rightarrow> Some (on_kern (sync_stop (online_cpus env)) d)
               | Some f \<Rightarrow>
                   do { (sync_ret, k) \<leftarrow> f (kern d);
                        let d = d\<lparr>kern := k\<rparr>;
                        Some (if sync_ret = 1 then on_kern (sync_stop (online_cpus env)) d
                              else d) });
          k \<leftarrow> call_optional (op_shutdown (oprofile_ops d)) (kern d);
          Some (on_kern (\<lambda>k. k\<lparr>evb := free_event_buffer (evb k),
                              cpu_buffer := free_cpu_buffers (possible_cpus env) (cpu_buffer k)\<rparr>)
                 (d\<lparr>kern := k, is_setup := False\<rparr>)) }"

section \<open>Settings\<close>

text \<open>\<^verbatim>\<open>oprofile_set_ulong\<close>; the address is the field update \<open>upd\<close>.\<close>

definition oprofile_set_ulong ::
  "(ulong \<Rightarrow> ('h, 'r) driver \<Rightarrow> ('h, 'r) driver) \<Rightarrow> ulong \<Rightarrow> ('h, 'r) driver \<Rightarrow>
   rc \<times> ('h, 'r) driver" where
  "oprofile_set_ulong upd val d =
     (if \<not> oprofile_started d then (rc_ok, upd val d) else (Inl EBUSY, d))"

definition oprofile_set_oprofile_timer_count ::
  "ulong \<Rightarrow> ('h, 'r) driver \<Rightarrow> rc \<times> ('h, 'r) driver" where
  "oprofile_set_oprofile_timer_count val d =
     (if \<not> oprofile_started d then
        if val = 0 \<and> op_cpu_type (arch_ops d) \<noteq> None
        then (rc_ok, on_kern (\<lambda>k. k\<lparr>oprofile_timer_count := 0\<rparr>)
                       (d\<lparr>oprofile_ops := arch_ops d\<rparr>))
        else (rc_ok, on_kern (\<lambda>k. k\<lparr>oprofile_timer_count := val\<rparr>)
                       (d\<lparr>oprofile_ops := timer_ops d\<rparr>))
      else (Inl EBUSY, d))"

section \<open>Open and release of the buffer file\<close>

definition event_buffer_open ::
  "kernel_env \<Rightarrow> bool \<Rightarrow> ('h, 'r) driver \<Rightarrow> (rc \<times> ('h, 'r) driver) option" where
  "event_buffer_open env capable d =
     (if \<not> capable then Some (Inl EPERM, d)
      else if buffer_opened (evb (kern d)) then Some (Inl EBUSY, d)
      else
        do { (err, d) \<leftarrow> oprofile_setup env (on_kern (on_evb (\<lambda>e. e\<lparr>buffer_opened := True\<rparr>)) d);
             Some (err, if err \<noteq> rc_ok
                        then on_kern (on_evb (\<lambda>e. e\<lparr>buffer_opened := False\<rparr>)) d else d) })"

definition event_buffer_release :: "kernel_env \<Rightarrow> ('h, 'r) driver \<Rightarrow> ('h, 'r) driver option" where
  "event_buffer_release env d =
     do { d \<leftarrow> oprofile_stop env d;
          d \<leftarrow> oprofile_shutdown env d;
          Some (on_kern (on_evb (\<lambda>e. e\<lparr>buffer_pos := 0, buffer_ready := False,
                                      buffer_opened := False\<rparr>)) d) }"

section \<open>Initialisation\<close>

text \<open>
  \<^verbatim>\<open>oprofile_init\<close>: \<open>timer_init\<close> and \<open>arch_init\<close> are \<^verbatim>\<open>oprofile_timer_init\<close> and
  \<^verbatim>\<open>oprofile_arch_init\<close> of the build, \<open>register_fs\<close> is the result of registering the file
  system; \<open>arch_init\<close> changes the state that the architecture's files keep. Copying the CPU type reads through its pointer and writes an array of 80 characters.
\<close>

definition oprofile_init ::
  "(('h kstate_scheme, 'r) oprofile_operations \<Rightarrow> rc \<times> ('h kstate_scheme, 'r) oprofile_operations) \<Rightarrow>
   (('h kstate_scheme, 'r) oprofile_operations \<Rightarrow> 'h kstate_scheme \<Rightarrow>
      (rc \<times> ('h kstate_scheme, 'r) oprofile_operations \<times> 'h kstate_scheme) option) \<Rightarrow>
   rc \<Rightarrow> ('h, 'r) driver \<Rightarrow> (rc \<times> ('h, 'r) driver) option" where
  "oprofile_init timer_init arch_init register_fs d =
     do { let (_, timer) = timer_init no_operations;
          (err, arch, k) \<leftarrow> arch_init no_operations (kern d);
          let d = d\<lparr>kern := k\<rparr>;
          let timer = timer\<lparr>op_backtrace := op_backtrace arch\<rparr>;
          let d = (if err \<noteq> rc_ok
               then let arch = arch\<lparr>op_cpu_type := None\<rparr>
                    in d\<lparr>timer_ops := timer, arch_ops := arch, oprofile_num_counters := 0,
                         oprofile_ops := timer\<rparr>
               else d\<lparr>timer_ops := timer, arch_ops := arch,
                      oprofile_num_counters := op_num_counters arch, oprofile_ops := arch\<rparr>);
          let d = snd (oprofile_set_ulong (\<lambda>v d. d\<lparr>oprofile_backtrace_depth := v\<rparr>) 512 d);
          name \<leftarrow> op_cpu_type (oprofile_ops d);
          if size name < 80 then Some (register_fs, d\<lparr>oprofile_cpu_type := name\<rparr>) else None }"

end
