(* ===== verification/Backend.thy ===== *)
theory Backend
  imports Oprof
begin

text \<open>
  The contract between the session logic of \<^verbatim>\<open>driver/oprof.c\<close> and a back end, the provider of
  a \<^verbatim>\<open>struct oprofile_operations\<close>: its operations return normally, keep the rings and the
  event buffer usable, and move the back end's own state between an idle and a ready
  condition. The facts about the session operations that hold for every back end are proved
  inside the locale.
\<close>

section \<open>What is kept\<close>

text \<open>From \<open>k\<close> to \<open>k'\<close> the buffers stay usable, the file stays open or closed, and no work is
  scheduled or cancelled.\<close>

definition kernel_keeps :: "nat list \<Rightarrow> 'h kstate_scheme \<Rightarrow> 'h kstate_scheme \<Rightarrow> bool" where
  "kernel_keeps possible k k' \<longleftrightarrow>
     buffers_ok possible k' \<and> buffer_opened (evb k') = buffer_opened (evb k) \<and>
     (\<forall>i. work_scheduled (cpu_buffer k' i) = work_scheduled (cpu_buffer k i))"

lemma kernel_keeps_refl: "buffers_ok possible k \<Longrightarrow> kernel_keeps possible k k"
  by (simp add: kernel_keeps_def)

lemma kernel_keeps_trans:
  "kernel_keeps possible k k1 \<Longrightarrow> kernel_keeps possible k1 k2 \<Longrightarrow> kernel_keeps possible k k2"
  by (simp add: kernel_keeps_def)

lemma kernel_keeps_ok: "kernel_keeps possible k k' \<Longrightarrow> buffers_ok possible k'"
  by (simp add: kernel_keeps_def)

lemma sync_buffer_keeps:
  assumes "buffers_ok possible k" and "c \<in> set possible"
  shows "\<exists>k'. sync_buffer online c k = Some k' \<and> kernel_keeps possible k k' \<and>
    kstate.more k' = kstate.more k"
proof -
  let ?b = "cpu_buffer_reset (cpu_buffer k c)"
  let ?b' = "(increment_tail ^^ length (contents (cpu_buffer k c))) ?b"
  have c: "ring_ok (cpu_buffer k c)" "eb_ok (evb k)" "ring_cap (cpu_buffer k c) < 2 ^ 32"
    "cpu (cpu_buffer k c) = c"
    using assms by (auto simp: buffers_ok_def)
  then have "length (contents (cpu_buffer k c)) < 2 ^ 32"
    using length_contents_le [OF c(1)] by linarith
  from sync_buffer_steps [OF c(1,2) this, of online] obtain e where
    e: "add_event_entries (sync_words c (contents (cpu_buffer k c))) (evb k) = Some e"
    "sync_buffer online c k = Some (mark_done online c (synced c ?b' e
       (stream_drops (contents (cpu_buffer k c)) sync_start_locals) k))" by blast
  have "ring_ok ?b" using c(1) by (simp add: ring_simps)
  then have b: "ring_ok ?b'" using drained_ring(1) [of ?b] by (simp add: ring_simps)
  have f: "ring_cap ?b' = ring_cap (cpu_buffer k c)" "cpu ?b' = cpu (cpu_buffer k c)"
    "work_scheduled ?b' = work_scheduled (cpu_buffer k c)"
    by (subst funpow_frame; simp add: frame_simps ring_simps cpu_buffer_reset_def
        increment_tail_def Let_def ring_cap_def)+
  have "eb_ok e" using c(2) e(1) by (rule add_event_entries_ok)
  moreover have "kstate.more (mark_done online c (synced c b e n k)) = kstate.more k" for b n
    by (simp add: mark_done_def synced_def Let_def)
  ultimately show ?thesis
    using e b f c assms(1) add_event_entries_frame [OF e(1)]
    by (auto simp: kernel_keeps_def buffers_ok_def)
qed

lemma sync_all_keeps:
  assumes "buffers_ok (possible_cpus env) (kern d)"
    and "set (online_cpus env) \<subseteq> set (possible_cpus env)"
  shows "\<exists>k. sync_all env d = Some (d\<lparr>kern := k\<rparr>) \<and>
    kernel_keeps (possible_cpus env) (kern d) k \<and> kstate.more k = kstate.more (kern d)"
proof -
  let ?I = "\<lambda>k. kernel_keeps (possible_cpus env) (kern d) k \<and> kstate.more k = kstate.more (kern d)"
  have "\<exists>k'. for_each (sync_buffer (online_cpus env)) (online_cpus env) (kern d) = Some k' \<and> ?I k'"
  proof (rule for_each_invariant [where I = ?I])
    show "?I (kern d)" using assms(1) by (simp add: kernel_keeps_refl)
    fix c k
    assume "c \<in> set (online_cpus env)" and k: "?I k"
    then have "c \<in> set (possible_cpus env)" using assms(2) by blast
    with sync_buffer_keeps [of "possible_cpus env" k c "online_cpus env"] k kernel_keeps_ok
    show "\<exists>k'. sync_buffer (online_cpus env) c k = Some k' \<and> ?I k'"
      by (metis (no_types, lifting) kernel_keeps_trans)
  qed
  then show ?thesis by (auto simp: sync_all_def)
qed

lemma note_adapt_value_batch:
  "note_adapt_value d = map_option (\<lambda>e. on_kern (\<lambda>k. k\<lparr>evb := e\<rparr>) d)
     (add_event_entries [ESCAPE_CODE, RR_ADAPT_SAMPLING_INTERVAL_CODE, oprofile_adapt_value d]
        (evb (kern d)))"
  by (simp add: note_adapt_value_def Option.bind_def split: option.splits)

lemma note_adapt_value_keeps:
  assumes "buffers_ok possible (kern d)"
  shows "\<exists>k. note_adapt_value d = Some (d\<lparr>kern := k\<rparr>) \<and> kernel_keeps possible (kern d) k \<and>
    kstate.more k = kstate.more (kern d)"
proof -
  let ?vs = "[ESCAPE_CODE, RR_ADAPT_SAMPLING_INTERVAL_CODE, oprofile_adapt_value d]"
  have ok: "eb_ok (evb (kern d))" using assms by (simp add: buffers_ok_def)
  then obtain e where e: "add_event_entries ?vs (evb (kern d)) = Some e"
    using evlog.add_all by blast
  moreover have "eb_ok e" using ok e by (rule add_event_entries_ok)
  ultimately show ?thesis
    using assms add_event_entries_frame [OF e]
    by (auto simp: note_adapt_value_batch kernel_keeps_def buffers_ok_def simp del: for_each.simps)
qed

lemma buffers_ok_evb:
  "buffers_ok possible k \<Longrightarrow> eb_ok e \<Longrightarrow> buffers_ok possible (k\<lparr>evb := e\<rparr>)"
  by (simp add: buffers_ok_def)

lemma kern_update_inject [simp]:
  fixes d :: "('h, 'r) driver"
  shows "d\<lparr>kern := k\<rparr> = d\<lparr>kern := k'\<rparr> \<longleftrightarrow> k = k'"
  by (cases d) simp

text \<open>What is assumed of the kernel: allocators that return areas of the requested size, and
  online CPUs that are possible.\<close>

definition env_ok :: "kernel_env \<Rightarrow> bool" where
  "env_ok env \<longleftrightarrow> distinct (possible_cpus env) \<and>
     set (online_cpus env) \<subseteq> set (possible_cpus env) \<and>
     (\<forall>i n xs. vmalloc_node env i n = Some xs \<longrightarrow> 0 < n \<and> length xs = unat n div 24) \<and>
     (\<forall>n xs. vmalloc env n = Some xs \<longrightarrow> 0 < n \<and> length xs = unat n div 8)"

text \<open>Configured sizes that fit the 32-bit loop counter and whose byte counts do not wrap.\<close>

definition sizes_ok :: "('h, 'r) driver \<Rightarrow> bool" where
  "sizes_ok d \<longleftrightarrow> unat (oprofile_cpu_buffer_size d) \<le> 2 ^ 32 \<and>
     8 * unat (oprofile_buffer_size d) < 2 ^ 64"

text \<open>No work is scheduled on a CPU that is not online.\<close>

definition work_online :: "kernel_env \<Rightarrow> 'h kstate_scheme \<Rightarrow> bool" where
  "work_online env k \<longleftrightarrow>
     (\<forall>i. work_scheduled (cpu_buffer k i) \<longrightarrow> i \<in> set (online_cpus env))"

definition no_work :: "'h kstate_scheme \<Rightarrow> bool" where
  "no_work k \<longleftrightarrow> (\<forall>i. \<not> work_scheduled (cpu_buffer k i))"

text \<open>A closed session: nothing is scheduled, nothing queued, the back ends are idle.\<close>

definition session_down :: "('h \<Rightarrow> bool) \<Rightarrow> ('h, 'r) driver \<Rightarrow> bool" where
  "session_down idle d \<longleftrightarrow> \<not> is_setup d \<and> \<not> oprofile_started d \<and>
     idle (kstate.more (kern d)) \<and> no_work (kern d) \<and> buffer_pos (evb (kern d)) = 0"

section \<open>The contract\<close>

text \<open>
  \<open>idle\<close> is what holds of the back ends' own state while no session is open, \<open>ready\<close> what
  this back end needs between its \<^verbatim>\<open>setup\<close> and its \<^verbatim>\<open>shutdown\<close>.
\<close>

text \<open>The session as a whole: an open session with usable buffers and a ready back end, and
  what no operation inside a session changes.\<close>

definition session_up :: "kernel_env \<Rightarrow> ('h \<Rightarrow> bool) \<Rightarrow> ('h, 'r) driver \<Rightarrow> bool" where
  "session_up env ready d \<longleftrightarrow>
     is_setup d \<and> buffers_ok (possible_cpus env) (kern d) \<and> ready (kstate.more (kern d))"

definition session_keeps :: "kernel_env \<Rightarrow> ('h, 'r) driver \<Rightarrow> ('h, 'r) driver \<Rightarrow> bool" where
  "session_keeps env d d' \<longleftrightarrow>
     oprofile_ops d' = oprofile_ops d \<and> arch_ops d' = arch_ops d \<and> timer_ops d' = timer_ops d \<and>
     oprofile_buffer_size d' = oprofile_buffer_size d \<and>
     oprofile_cpu_buffer_size d' = oprofile_cpu_buffer_size d \<and>
     is_setup d' = is_setup d \<and> kernel_keeps (possible_cpus env) (kern d) (kern d')"

lemma keeps_flag:
  "kernel_keeps possible k (k'\<lparr>evb := (evb k')\<lparr>buffer_dump := b\<rparr>\<rparr>) = kernel_keeps possible k k'"
  "kernel_keeps possible k (k'\<lparr>evb := wake_up_buffer_waiter (evb k')\<rparr>) = kernel_keeps possible k k'"
  "buffers_ok possible (k'\<lparr>evb := (evb k')\<lparr>buffer_dump := b\<rparr>\<rparr>) = buffers_ok possible k'"
  "buffers_ok possible (k'\<lparr>evb := wake_up_buffer_waiter (evb k')\<rparr>) = buffers_ok possible k'"
  by (simp_all add: kernel_keeps_def buffers_ok_def wake_up_buffer_waiter_def ev_simps)

locale backend =
  fixes env :: kernel_env
    and idle :: "'h \<Rightarrow> bool"
    and ready :: "'h \<Rightarrow> bool"
    and ops :: "('h kstate_scheme, 'r) oprofile_operations"
  assumes setup_law: "op_setup ops = Some f \<Longrightarrow> buffers_ok (possible_cpus env) k \<Longrightarrow> idle (kstate.more k) \<Longrightarrow>
      \<exists>r k'. f k = Some (r, k') \<and> kernel_keeps (possible_cpus env) k k' \<and> evb k' = evb k \<and>
        (if r = rc_ok then ready (kstate.more k') else idle (kstate.more k'))"
    and no_setup_law: "op_setup ops = None \<Longrightarrow> idle h \<Longrightarrow> ready h"
    and start_law: "buffers_ok (possible_cpus env) k \<Longrightarrow> ready (kstate.more k) \<Longrightarrow>
      \<exists>r k'. call_rc (op_start ops) k = Some (r, k') \<and> kernel_keeps (possible_cpus env) k k' \<and>
        ready (kstate.more k')"
    and stop_law: "buffers_ok (possible_cpus env) k \<Longrightarrow> ready (kstate.more k) \<Longrightarrow>
      \<exists>k'. call_void (op_stop ops) k = Some k' \<and> kernel_keeps (possible_cpus env) k k' \<and>
        ready (kstate.more k')"
    and adapt_law: "op_adapt ops = Some f' \<Longrightarrow> buffers_ok (possible_cpus env) k \<Longrightarrow> ready (kstate.more k) \<Longrightarrow>
      \<exists>r k'. f' k = Some (r, k') \<and> kernel_keeps (possible_cpus env) k k' \<and> ready (kstate.more k')"
    and shutdown_law: "buffers_ok (possible_cpus env) k \<Longrightarrow> ready (kstate.more k) \<Longrightarrow>
      \<exists>k'. call_optional (op_shutdown ops) k = Some k' \<and> kernel_keeps (possible_cpus env) k k' \<and>
        idle (kstate.more k')"
    and no_sync_start: "op_sync_start ops = None"
    and no_sync_stop: "op_sync_stop ops = None"
begin

lemma start_keeps:
  assumes "session_up env ready d" and "oprofile_ops d = ops"
  shows "\<exists>r d'. oprofile_start env d = Some (r, d') \<and> session_keeps env d d' \<and>
    session_up env ready d' \<and> oprofile_started d' = (oprofile_started d \<or> r = rc_ok)"
proof (cases "oprofile_started d")
  case True
  with assms show ?thesis
    by (simp add: oprofile_start_def session_up_def session_keeps_def kernel_keeps_def)
next
  case False
  let ?d = "on_kern (oprofile_reset_stats (possible_cpus env)) d\<lparr>oprofile_adapt_value := 1\<rparr>"
  have up: "buffers_ok (possible_cpus env) (kern ?d)" "ready (kstate.more (kern ?d))"
    using assms(1) by (simp_all add: session_up_def ring_simps frame_simps)
  from note_adapt_value_keeps [OF up(1)] obtain k1 where k1:
    "note_adapt_value ?d = Some (?d\<lparr>kern := k1\<rparr>)" "kernel_keeps (possible_cpus env) (kern ?d) k1"
    "kstate.more k1 = kstate.more (kern ?d)" by blast
  from start_law [of k1] k1 up obtain r k2 where k2: "call_rc (op_start ops) k1 = Some (r, k2)"
    "kernel_keeps (possible_cpus env) k1 k2" "ready (kstate.more k2)"
    by (auto dest: kernel_keeps_ok)
  have "kernel_keeps (possible_cpus env) (kern d) (kern ?d)"
    using assms(1) by (simp add: kernel_keeps_def session_up_def ring_simps frame_simps)
  then have k: "kernel_keeps (possible_cpus env) (kern d) k2"
    using k1(2) k2(2) kernel_keeps_trans by blast
  show ?thesis
    using False assms k1 k2 k kernel_keeps_ok [OF k]
    by (auto simp: oprofile_start_def session_up_def session_keeps_def Let_def keeps_flag)
qed

lemma stop_keeps:
  assumes "session_up env ready d" and "oprofile_ops d = ops"
    and "set (online_cpus env) \<subseteq> set (possible_cpus env)"
  shows "\<exists>d'. oprofile_stop env d = Some d' \<and> session_keeps env d d' \<and>
    session_up env ready d' \<and> \<not> oprofile_started d'"
proof (cases "oprofile_started d")
  case False
  with assms show ?thesis
    by (simp add: oprofile_stop_def session_up_def session_keeps_def kernel_keeps_def)
next
  case True
  from stop_law [of "kern d"] assms obtain k1 where k1: "call_void (op_stop ops) (kern d) = Some k1"
    "kernel_keeps (possible_cpus env) (kern d) k1" "ready (kstate.more k1)"
    by (auto simp: session_up_def)
  let ?d = "d\<lparr>kern := k1, oprofile_started := False\<rparr>"
  from sync_all_keeps [of env ?d] k1 assms(3) obtain k2 where k2:
    "sync_all env ?d = Some (?d\<lparr>kern := k2\<rparr>)" "kernel_keeps (possible_cpus env) k1 k2"
    "kstate.more k2 = kstate.more k1" by (auto dest: kernel_keeps_ok)
  from note_adapt_value_keeps [of "possible_cpus env" "?d\<lparr>kern := k2\<rparr>"] k2 obtain k3 where k3:
    "note_adapt_value (?d\<lparr>kern := k2\<rparr>) = Some (?d\<lparr>kern := k3\<rparr>)"
    "kernel_keeps (possible_cpus env) k2 k3" "kstate.more k3 = kstate.more k2"
    by (auto dest: kernel_keeps_ok)
  have k: "kernel_keeps (possible_cpus env) (kern d) k3"
    using k1(2) k2(2) k3(2) kernel_keeps_trans by blast
  show ?thesis
    using True assms k1 k2 k3 k kernel_keeps_ok [OF k]
    by (auto simp: oprofile_stop_def session_up_def session_keeps_def keeps_flag)
qed

text \<open>
  Adapting keeps the session, on every exit. The profile is still marked as started exactly
  when the restart succeeds or was never attempted.
\<close>

lemma adapt_keeps:
  assumes "session_up env ready d" and "oprofile_ops d = ops"
    and "set (online_cpus env) \<subseteq> set (possible_cpus env)"
  shows "\<exists>r d'. oprofile_adapt env d = Some (r, d') \<and> session_keeps env d d' \<and>
    session_up env ready d' \<and> (oprofile_started d' \<longrightarrow> oprofile_started d)"
proof (cases "oprofile_started d")
  case False
  with assms show ?thesis
    by (simp add: oprofile_adapt_def session_up_def session_keeps_def kernel_keeps_def)
next
  case True
  from stop_law [of "kern d"] assms obtain k1 where k1: "call_void (op_stop ops) (kern d) = Some k1"
    "kernel_keeps (possible_cpus env) (kern d) k1" "ready (kstate.more k1)"
    by (auto simp: session_up_def)
  from sync_all_keeps [of env "d\<lparr>kern := k1\<rparr>"] k1 assms(3) obtain k2 where k2:
    "sync_all env (d\<lparr>kern := k1\<rparr>) = Some (d\<lparr>kern := k2\<rparr>)"
    "kernel_keeps (possible_cpus env) k1 k2"
    "kstate.more k2 = kstate.more k1" by (auto dest: kernel_keeps_ok)
  have kk: "kernel_keeps (possible_cpus env) (kern d) k2"
    using k1(2) k2(2) kernel_keeps_trans by blast
  show ?thesis
  proof (cases "op_adapt ops")
    case None
    with True assms k1 k2 kk kernel_keeps_ok [OF kk] show ?thesis
      by (auto simp: oprofile_adapt_def session_up_def session_keeps_def)
  next
    case (Some f)
    from adapt_law [OF Some, of k2] k1 k2 obtain ch k3 where k3: "f k2 = Some (ch, k3)"
      "kernel_keeps (possible_cpus env) k2 k3" "ready (kstate.more k3)"
      by (auto dest: kernel_keeps_ok)
    let ?v = "if ch then oprofile_adapt_value d * ADAPT_DECAY_FACTOR else oprofile_adapt_value d"
    let ?d = "d\<lparr>kern := k3, oprofile_adapt_value := ?v\<rparr>"
    from note_adapt_value_keeps [of "possible_cpus env" ?d] k3 obtain k4 where k4:
      "(if ch then note_adapt_value ?d else Some ?d) = Some (?d\<lparr>kern := k4\<rparr>)"
      "kernel_keeps (possible_cpus env) k3 k4" "kstate.more k4 = kstate.more k3"
      by (cases ch) (auto dest: kernel_keeps_ok kernel_keeps_refl)
    from start_law [of k4] k4 k3 obtain r k5 where k5: "call_rc (op_start ops) k4 = Some (r, k5)"
      "kernel_keeps (possible_cpus env) k4 k5" "ready (kstate.more k5)"
      by (auto dest: kernel_keeps_ok)
    have k: "kernel_keeps (possible_cpus env) (kern d) k5"
      using kk k3(2) k4(2) k5(2) kernel_keeps_trans by blast
    show ?thesis
      using True assms k1 k2 k3 k4 k5 k kernel_keeps_ok [OF k] Some
      by (cases ch) (auto simp: oprofile_adapt_def session_up_def session_keeps_def Let_def)
  qed
qed

lemma shutdown_keeps:
  assumes "session_up env ready d" and "oprofile_ops d = ops"
    and sched: "\<forall>i. work_scheduled (cpu_buffer (kern d) i) \<longrightarrow> i \<in> set (online_cpus env)"
  shows "\<exists>d'. oprofile_shutdown env d = Some d' \<and> \<not> is_setup d' \<and>
    idle (kstate.more (kern d')) \<and> oprofile_ops d' = ops \<and> arch_ops d' = arch_ops d \<and>
    timer_ops d' = timer_ops d \<and> oprofile_buffer_size d' = oprofile_buffer_size d \<and>
    oprofile_cpu_buffer_size d' = oprofile_cpu_buffer_size d \<and>
    oprofile_started d' = oprofile_started d \<and>
    buffer_opened (evb (kern d')) = buffer_opened (evb (kern d)) \<and>
    (\<forall>i. \<not> work_scheduled (cpu_buffer (kern d') i))"
proof -
  let ?k = "sync_stop (online_cpus env) (kern d)"
  have "buffers_ok (possible_cpus env) ?k" "ready (kstate.more ?k)"
    using assms(1) by (simp_all add: session_up_def sync_stop_def ring_simps frame_simps)
  from shutdown_law [OF this] obtain k' where k': "call_optional (op_shutdown ops) ?k = Some k'"
    "kernel_keeps (possible_cpus env) ?k k'" "idle (kstate.more k')" by blast
  have "\<not> work_scheduled (cpu_buffer k' i)" for i
    using k'(2) sched by (auto simp: kernel_keeps_def sync_stop_def end_cpu_work_state)
  moreover have "buffer_opened (evb k') = buffer_opened (evb (kern d))"
    using k'(2) by (simp add: kernel_keeps_def sync_stop_def end_cpu_work_state)
  ultimately show ?thesis
    using assms(2) k' no_sync_stop
    by (auto simp: oprofile_shutdown_def free_event_buffer_def free_cpu_buffers_frame)
qed

text \<open>
  Setting up is all or nothing: after success the session is up with empty rings, after any
  failure it is down as before.
\<close>

lemma setup_session:
  assumes "session_down idle d" and "oprofile_ops d = ops" and "env_ok env" and "sizes_ok d"
  shows "\<exists>r d'. oprofile_setup env d = Some (r, d') \<and>
    (if r = rc_ok then session_up env ready d' \<and> \<not> oprofile_started d' \<and> work_online env (kern d')
     else session_down idle d') \<and>
    oprofile_ops d' = ops \<and> arch_ops d' = arch_ops d \<and> timer_ops d' = timer_ops d \<and>
    oprofile_buffer_size d' = oprofile_buffer_size d \<and>
    oprofile_cpu_buffer_size d' = oprofile_cpu_buffer_size d \<and>
    buffer_opened (evb (kern d')) = buffer_opened (evb (kern d))"
proof -
  obtain r1 bufs where a: "alloc_cpu_buffers (vmalloc_node env) (possible_cpus env)
      (oprofile_cpu_buffer_size d) (cpu_buffer (kern d)) = (r1, bufs)" by fastforce
  let ?k1 = "(kern d)\<lparr>cpu_buffer := bufs\<rparr>"
  have nw: "\<not> work_scheduled (bufs i)" for i
    using alloc_cpu_buffers_work [OF a, of i] assms(1) by (auto simp: session_down_def no_work_def)
  obtain r2 e where e: "alloc_event_buffer (vmalloc env) (oprofile_buffer_size d)
      (oprofile_buffer_watershed d) (evb (kern d)) = (r2, e)" by fastforce
  let ?k2 = "?k1\<lparr>evb := e\<rparr>"
  have e': "(r2 = rc_ok \<longrightarrow> eb_ok e) \<and> buffer_pos e = 0 \<and>
      buffer_opened e = buffer_opened (evb (kern d))"
    using alloc_event_buffer_spec [OF e] assms by (auto simp: session_down_def env_ok_def sizes_ok_def)
  have bufs: "\<forall>i \<in> set (possible_cpus env). ring_ok (bufs i) \<and> cpu (bufs i) = i \<and>
      ring_cap (bufs i) < 2 ^ 32" if "r1 = rc_ok"
    using alloc_cpu_buffers_rings [OF _ a [unfolded that]] assms(3,4)
    by (auto simp: env_ok_def sizes_ok_def)
  show ?thesis
  proof (cases "r1 = rc_ok \<and> r2 = rc_ok")
    case False
    then show ?thesis
      using assms a e e' nw
      by (cases "r1 = rc_ok") (auto simp: oprofile_setup_def Let_def setup_out_def setup_out1_def session_down_def no_work_def
          frame_simps)
  next
    case True
    then have ok: "buffers_ok (possible_cpus env) ?k2" and id: "idle (kstate.more ?k2)"
      using bufs e' assms(1) by (auto simp: buffers_ok_def session_down_def)
    show ?thesis
    proof (cases "op_setup ops")
      case None
      with no_setup_law [OF None] id True ok assms a e e' nw no_sync_start show ?thesis
        by (auto simp: oprofile_setup_def Let_def setup_sync_def setup_do_generic_def setup_post_sync_def
            sync_start_def session_up_def session_down_def buffers_ok_evb ev_simps ring_simps
            frame_simps work_online_def start_cpu_work_state)
    next
      case (Some f)
      from setup_law [OF Some ok id] obtain r k where k: "f ?k2 = Some (r, k)"
        "kernel_keeps (possible_cpus env) ?k2 k" "evb k = e"
        "if r = rc_ok then ready (kstate.more k) else idle (kstate.more k)" by auto
      with True assms Some a e e' nw no_sync_start show ?thesis
        by (cases "r = rc_ok")
          (auto simp: oprofile_setup_def Let_def setup_sync_def setup_do_generic_def setup_post_sync_def
            setup_out1_def setup_out2_def setup_out_def free_event_buffer_def no_work_def
            sync_start_def session_up_def session_down_def buffers_ok_evb ev_simps ring_simps
            frame_simps work_online_def start_cpu_work_state kernel_keeps_def)
    qed
  qed
qed

end

end
