(* ===== verification/Timer_Int.thy ===== *)
theory Timer_Int
  imports Backend
begin

text \<open>
  \<^verbatim>\<open>driver/timer_int_2.6.35.c\<close>: the back end that samples from a high-resolution timer on every
  CPU, in its version for kernels from 3.3 on. Its operations satisfy the contract of a back
  end; the timer interrupt records one sample every \<^verbatim>\<open>oprofile_timer_count\<close> ticks.
\<close>

section \<open>State\<close>

text \<open>
  \<open>hrtimer_active\<close> is the state of \<^verbatim>\<open>oprofile_hrtimer\<close> on each CPU, \<open>hotcpu_registered\<close>
  whether \<^verbatim>\<open>oprofile_cpu_notifier\<close> is registered; the others are the variables of the file.
  \<^verbatim>\<open>timer_pop\<close> is an array of \<^verbatim>\<open>int\<close>.
\<close>

record timer_kstate = kstate +
  hrtimer_active :: "nat \<Rightarrow> bool"
  ctr_running :: bool
  timer_pop :: "nat \<Rightarrow> u32"
  start_timestamp :: "nat \<Rightarrow> u64"
  hotcpu_registered :: bool

text \<open>
  What the interrupt finds on CPU \<open>c\<close>: the clock before and after, the interrupted
  registers and the task, with the kernel's accessors for the registers and the driver's
  backtrace settings.
\<close>

record 'r tick =
  end_tb :: u64
  next_tb :: u64
  irq_regs :: "'r option"
  irq_task :: task_struct

record 'r sampler =
  user_mode :: "'r \<Rightarrow> bool"
  instruction_pointer :: "'r \<Rightarrow> ulong"
  bt_callback :: "'r option backtrace_op option"
  bt_depth :: ulong

definition take_sample :: "'r sampler \<Rightarrow> task_struct \<Rightarrow> 'r option \<Rightarrow> ulong \<Rightarrow>
    oprofile_cpu_buffer \<Rightarrow> oprofile_cpu_buffer option" where
  "take_sample sp task regs ev b =
     oprofile_add_sample (user_mode sp) (instruction_pointer sp) (bt_callback sp) (bt_depth sp)
       task regs ev b"

section \<open>Operations\<close>

text \<open>
  \<^verbatim>\<open>oprofile_hrtimer_notify\<close> on CPU \<open>c\<close>. The counter is compared with an \<^verbatim>\<open>unsigned long\<close>,
  so its sign is extended. The timer stays active (\<^verbatim>\<open>HRTIMER_RESTART\<close>).
\<close>

definition oprofile_hrtimer_notify ::
  "'r sampler \<Rightarrow> nat \<Rightarrow> 'r tick \<Rightarrow> 'h timer_kstate_scheme \<Rightarrow> 'h timer_kstate_scheme option"
where
  "oprofile_hrtimer_notify sp c t k =
     (let k = k\<lparr>timer_pop := (timer_pop k)(c := timer_pop k c + 1)\<rparr>
      in if oprofile_timer_count k \<le> scast (timer_pop k c) then
           do { k \<leftarrow> on_cpu c (oprofile_add_sample_start (start_timestamp k c)) k;
                k \<leftarrow> on_cpu c (oprofile_add_sample_stop (end_tb t)) k;
                k \<leftarrow> on_cpu c (take_sample sp (irq_task t) (irq_regs t) 0) k;
                Some (k\<lparr>timer_pop := (timer_pop k)(c := 0),
                        start_timestamp := (start_timestamp k)(c := next_tb t)\<rparr>) }
         else Some k)"

text \<open>\<^verbatim>\<open>__oprofile_hrtimer_start\<close> on CPU \<open>c\<close>; \<open>tb\<close> is the clock of each CPU.\<close>

definition oprofile_hrtimer_start_cpu ::
  "(nat \<Rightarrow> u64) \<Rightarrow> nat \<Rightarrow> 'h timer_kstate_scheme \<Rightarrow> 'h timer_kstate_scheme" where
  "oprofile_hrtimer_start_cpu tb c k =
     (if \<not> ctr_running k then k
      else k\<lparr>hrtimer_active := (hrtimer_active k)(c := True),
             timer_pop := (timer_pop k)(c := 0),
             start_timestamp := (start_timestamp k)(c := tb c)\<rparr>)"

definition oprofile_hrtimer_start ::
  "nat list \<Rightarrow> (nat \<Rightarrow> u64) \<Rightarrow> 'h timer_kstate_scheme \<Rightarrow> (rc \<times> 'h timer_kstate_scheme) option"
where
  "oprofile_hrtimer_start online tb k =
     Some (rc_ok, fold (oprofile_hrtimer_start_cpu tb) online (k\<lparr>ctr_running := True\<rparr>))"

text \<open>\<^verbatim>\<open>__oprofile_hrtimer_stop\<close>\<close>

definition oprofile_hrtimer_stop_cpu ::
  "nat \<Rightarrow> 'h timer_kstate_scheme \<Rightarrow> 'h timer_kstate_scheme" where
  "oprofile_hrtimer_stop_cpu c k =
     (if \<not> ctr_running k then k else k\<lparr>hrtimer_active := (hrtimer_active k)(c := False)\<rparr>)"

definition oprofile_hrtimer_stop ::
  "nat list \<Rightarrow> 'h timer_kstate_scheme \<Rightarrow> 'h timer_kstate_scheme option" where
  "oprofile_hrtimer_stop online k =
     Some ((fold oprofile_hrtimer_stop_cpu online k)\<lparr>ctr_running := False\<rparr>)"

text \<open>\<^verbatim>\<open>INT_MAX / ADAPT_DECAY_FACTOR\<close>\<close>

definition MAX_COUNTER_VALUE :: ulong where "MAX_COUNTER_VALUE = 214748364"

definition timer_adapt :: "'h kstate_scheme \<Rightarrow> (bool \<times> 'h kstate_scheme) option" where
  "timer_adapt k =
     (if MAX_COUNTER_VALUE \<le> oprofile_timer_count k then Some (False, k)
      else Some (True, k\<lparr>oprofile_timer_count := oprofile_timer_count k * ADAPT_DECAY_FACTOR\<rparr>))"

text \<open>The notifications of the CPU hotplug code that the file tells apart.\<close>

datatype cpu_action = CPU_ONLINE | CPU_ONLINE_FROZEN | CPU_DEAD | CPU_DEAD_FROZEN | CPU_OTHER

definition oprofile_cpu_notify ::
  "(nat \<Rightarrow> u64) \<Rightarrow> cpu_action \<Rightarrow> nat \<Rightarrow> 'h timer_kstate_scheme \<Rightarrow> 'h timer_kstate_scheme" where
  "oprofile_cpu_notify tb action c k =
     (case action of
        CPU_ONLINE \<Rightarrow> oprofile_hrtimer_start_cpu tb c k
      | CPU_ONLINE_FROZEN \<Rightarrow> oprofile_hrtimer_start_cpu tb c k
      | CPU_DEAD \<Rightarrow> oprofile_hrtimer_stop_cpu c k
      | CPU_DEAD_FROZEN \<Rightarrow> oprofile_hrtimer_stop_cpu c k
      | CPU_OTHER \<Rightarrow> k)"

text \<open>\<open>reg\<close> is the result of \<^verbatim>\<open>register_hotcpu_notifier\<close>.\<close>

definition oprofile_hrtimer_setup ::
  "rc \<Rightarrow> 'h timer_kstate_scheme \<Rightarrow> (rc \<times> 'h timer_kstate_scheme) option" where
  "oprofile_hrtimer_setup reg k =
     Some (reg, if reg = rc_ok then k\<lparr>hotcpu_registered := True\<rparr> else k)"

definition oprofile_hrtimer_shutdown ::
  "'h timer_kstate_scheme \<Rightarrow> 'h timer_kstate_scheme option" where
  "oprofile_hrtimer_shutdown k = Some (k\<lparr>hotcpu_registered := False\<rparr>)"

definition oprofile_timer_init ::
  "rc \<Rightarrow> nat list \<Rightarrow> (nat \<Rightarrow> u64) \<Rightarrow> ('h timer_kstate_scheme, 'r) oprofile_operations \<Rightarrow>
   rc \<times> ('h timer_kstate_scheme, 'r) oprofile_operations" where
  "oprofile_timer_init reg online tb ops =
     (rc_ok, ops\<lparr>op_create_files := None,
                 op_setup := Some (oprofile_hrtimer_setup reg),
                 op_shutdown := Some oprofile_hrtimer_shutdown,
                 op_start := Some (oprofile_hrtimer_start online tb),
                 op_stop := Some (oprofile_hrtimer_stop online),
                 op_adapt := Some timer_adapt,
                 op_backtrace := None,
                 op_cpu_type := Some ''timer''\<rparr>)"

abbreviation timer_operations ::
  "rc \<Rightarrow> nat list \<Rightarrow> (nat \<Rightarrow> u64) \<Rightarrow> ('h timer_kstate_scheme, 'r) oprofile_operations" where
  "timer_operations reg online tb \<equiv> snd (oprofile_timer_init reg online tb no_operations)"

section \<open>The timer as a back end\<close>

text \<open>
  The other fields of the back end's state (those of another back end in the same module)
  are untouched; \<open>timer_rest\<close> takes them out of the extension.
\<close>

definition timer_rest :: "'h timer_kstate_ext \<Rightarrow> 'h" where
  "timer_rest h = timer_kstate.more (kstate.extend undefined h)"

lemma timer_rest [simp]: "timer_rest (kstate.more k) = timer_kstate.more k"
  by (cases k) (simp add: timer_rest_def kstate.defs)

definition same_kernel :: "'h timer_kstate_scheme \<Rightarrow> 'h timer_kstate_scheme \<Rightarrow> bool" where
  "same_kernel k k' \<longleftrightarrow> cpu_buffer k' = cpu_buffer k \<and> evb k' = evb k \<and>
     timer_kstate.more k' = timer_kstate.more k"

lemma same_kernel_keeps:
  "same_kernel k k' \<Longrightarrow> buffers_ok possible k \<Longrightarrow> kernel_keeps possible k k'"
  by (simp add: same_kernel_def kernel_keeps_def buffers_ok_def)

lemma same_kernel_fold:
  "(\<And>c k. same_kernel k (f c k)) \<Longrightarrow> same_kernel k (fold f cs k)"
  by (induction cs arbitrary: k) (simp_all add: same_kernel_def)

lemma same_kernel_timer:
  "same_kernel k (oprofile_hrtimer_start_cpu tb c k)"
  "same_kernel k (oprofile_hrtimer_stop_cpu c k)"
  "same_kernel k (k\<lparr>ctr_running := r\<rparr>)" "same_kernel k (k\<lparr>hotcpu_registered := r\<rparr>)"
  "same_kernel k (k\<lparr>oprofile_timer_count := n\<rparr>)"
  by (simp_all add: same_kernel_def oprofile_hrtimer_start_cpu_def oprofile_hrtimer_stop_cpu_def)

lemma timer_start_same:
  "same_kernel k (fold (oprofile_hrtimer_start_cpu tb) online (k\<lparr>ctr_running := True\<rparr>))"
proof -
  have "same_kernel (k\<lparr>ctr_running := True\<rparr>)
      (fold (oprofile_hrtimer_start_cpu tb) online (k\<lparr>ctr_running := True\<rparr>))"
    by (rule same_kernel_fold) (rule same_kernel_timer)
  then show ?thesis by (simp add: same_kernel_def)
qed

lemma timer_stop_same:
  "same_kernel k ((fold oprofile_hrtimer_stop_cpu online k)\<lparr>ctr_running := False\<rparr>)"
proof -
  have "same_kernel k (fold oprofile_hrtimer_stop_cpu online k)"
    by (rule same_kernel_fold) (rule same_kernel_timer)
  then show ?thesis by (simp add: same_kernel_def)
qed

lemma same_kernel_rest:
  "same_kernel k k' \<Longrightarrow> timer_rest (kstate.more k') = timer_rest (kstate.more k)"
  by (simp add: same_kernel_def)

lemmas timer_op_defs =
  oprofile_timer_init_def no_operations_def oprofile_hrtimer_setup_def
  oprofile_hrtimer_shutdown_def oprofile_hrtimer_start_def oprofile_hrtimer_stop_def
  call_rc_def call_void_def call_optional_def

interpretation timer: backend env "\<lambda>h. P (timer_rest h)" "\<lambda>h. P (timer_rest h)"
    "timer_operations reg online tb"
  for env P reg online tb
proof (unfold_locales, goal_cases)
  case (1 f k)
  with same_kernel_timer(4) [of k True] show ?case
    by (auto simp: timer_op_defs same_kernel_keeps kernel_keeps_refl)
next
  case (3 k)
  with timer_start_same [of k tb online] show ?case
    by (auto simp: timer_op_defs same_kernel_keeps same_kernel_rest simp del: timer_rest)
next
  case (4 k)
  with timer_stop_same [of k online] show ?case
    by (auto simp: timer_op_defs same_kernel_keeps same_kernel_rest simp del: timer_rest)
next
  case (5 f k)
  with same_kernel_timer(5) [of k] show ?case
    by (auto simp: timer_op_defs timer_adapt_def same_kernel_keeps kernel_keeps_refl)
next
  case (6 k)
  with same_kernel_timer(4) [of k False] show ?case
    by (auto simp: timer_op_defs same_kernel_keeps)
qed (simp_all add: timer_op_defs)

section \<open>Properties\<close>

lemma timer_start_armed:
  assumes "ctr_running k"
  shows "ctr_running (fold (oprofile_hrtimer_start_cpu tb) cs k) \<and>
    (\<forall>c. hrtimer_active (fold (oprofile_hrtimer_start_cpu tb) cs k) c =
      (c \<in> set cs \<or> hrtimer_active k c)) \<and>
    (\<forall>c. (c \<in> set cs \<or> timer_pop k c = 0 \<and> start_timestamp k c = tb c) \<longrightarrow>
      timer_pop (fold (oprofile_hrtimer_start_cpu tb) cs k) c = 0 \<and>
      start_timestamp (fold (oprofile_hrtimer_start_cpu tb) cs k) c = tb c)"
  using assms by (induction cs arbitrary: k) (auto simp: oprofile_hrtimer_start_cpu_def)

lemma timer_stop_disarmed:
  assumes "ctr_running k"
  shows "hrtimer_active (fold oprofile_hrtimer_stop_cpu cs k) c =
    (c \<notin> set cs \<and> hrtimer_active k c)"
  using assms by (induction cs arbitrary: k) (auto simp: oprofile_hrtimer_stop_cpu_def)

lemma timer_start_count:
  "oprofile_timer_count (fold (oprofile_hrtimer_start_cpu tb) cs k) = oprofile_timer_count k"
  by (induction cs arbitrary: k) (simp_all add: oprofile_hrtimer_start_cpu_def)

lemma timer_stop_count:
  "oprofile_timer_count (fold oprofile_hrtimer_stop_cpu cs k) = oprofile_timer_count k"
  by (induction cs arbitrary: k) (simp_all add: oprofile_hrtimer_stop_cpu_def)

text \<open>Starting the timer arms it on every online CPU with a zero tick count and the CPU's
  current clock as the start of the sample, and stopping disarms it on all of them; neither
  touches a CPU that is not online.\<close>

theorem timer_start_stop:
  "\<exists>k1 k2. oprofile_hrtimer_start online tb k = Some (rc_ok, k1) \<and>
    (\<forall>c. hrtimer_active k1 c = (c \<in> set online \<or> hrtimer_active k c)) \<and>
    (\<forall>c. if c \<in> set online then timer_pop k1 c = 0 \<and> start_timestamp k1 c = tb c
         else timer_pop k1 c = timer_pop k c \<and> start_timestamp k1 c = start_timestamp k c) \<and>
    oprofile_hrtimer_stop online k1 = Some k2 \<and>
    (\<forall>c. hrtimer_active k2 c = (c \<notin> set online \<and> hrtimer_active k c))"
proof -
  let ?k = "k\<lparr>ctr_running := True\<rparr>"
  let ?k1 = "fold (oprofile_hrtimer_start_cpu tb) online ?k"
  have outside: "timer_pop (fold (oprofile_hrtimer_start_cpu tb) cs k) c = timer_pop k c \<and>
      start_timestamp (fold (oprofile_hrtimer_start_cpu tb) cs k) c = start_timestamp k c"
    if "c \<notin> set cs" for c cs and k :: "'a timer_kstate_scheme"
    using that by (induction cs arbitrary: k) (simp_all add: oprofile_hrtimer_start_cpu_def)
  have "ctr_running ?k1" using timer_start_armed [of ?k tb online] by simp
  from timer_stop_disarmed [OF this, where cs = online] timer_start_armed [of ?k tb online]
    outside [where cs = online and k = ?k]
  show ?thesis by (auto simp: oprofile_hrtimer_start_def oprofile_hrtimer_stop_def)
qed

lemma timer_adapt_bounded_step:
  assumes "oprofile_timer_count k < MAX_COUNTER_VALUE"
  shows "unat (oprofile_timer_count k * ADAPT_DECAY_FACTOR) = 10 * unat (oprofile_timer_count k)"
  using assms
  by (simp add: MAX_COUNTER_VALUE_def ADAPT_DECAY_FACTOR_def word_less_nat_alt unat_word_ariths)

text \<open>Adapting the timer multiplies the tick count of a sample by the decay factor without
  overflow, keeping it below \<open>2 ^ 31\<close>, the range of the \<^verbatim>\<open>int\<close> tick counter it is compared
  with; a count that could leave that range is refused and left as it is.\<close>

theorem timer_adapt_bounded:
  "\<exists>r k'. timer_adapt k = Some (r, k') \<and>
    (if r then unat (oprofile_timer_count k') = 10 * unat (oprofile_timer_count k) \<and>
               unat (oprofile_timer_count k') < 2 ^ 31
     else k' = k \<and> 2 ^ 31 \<le> 10 * (unat (oprofile_timer_count k) + 1))"
proof (cases "oprofile_timer_count k < MAX_COUNTER_VALUE")
  case True
  then have "unat (oprofile_timer_count k) < 214748364"
    by (simp add: MAX_COUNTER_VALUE_def word_less_nat_alt)
  moreover have "\<not> MAX_COUNTER_VALUE \<le> oprofile_timer_count k" using True by simp
  ultimately show ?thesis
    using timer_adapt_bounded_step [OF True] by (auto simp: timer_adapt_def)
next
  case False
  then show ?thesis by (auto simp: timer_adapt_def MAX_COUNTER_VALUE_def word_le_nat_alt not_less)
qed

lemma quiet_ticks:
  assumes "unat (timer_pop k c) + length ts < unat (oprofile_timer_count k)"
    and "unat (timer_pop k c) + length ts < 2 ^ 31"
  shows "for_each (oprofile_hrtimer_notify sp c) ts k =
    Some (k\<lparr>timer_pop := (timer_pop k)(c := timer_pop k c + of_nat (length ts))\<rparr>)"
  using assms
proof (induction ts arbitrary: k)
  case Nil
  then show ?case by simp
next
  case (Cons t ts)
  let ?k = "k\<lparr>timer_pop := (timer_pop k)(c := timer_pop k c + 1)\<rparr>"
  have p: "unat (timer_pop k c + 1) = Suc (unat (timer_pop k c))"
    using Cons.prems(2) by (simp add: unat_word_ariths)
  then have "\<not> oprofile_timer_count k \<le> scast (timer_pop k c + 1)"
    using Cons.prems by (simp add: word_le_nat_alt unat_scast_u32)
  then have "oprofile_hrtimer_notify sp c t k = Some ?k"
    by (simp add: oprofile_hrtimer_notify_def Let_def)
  moreover have "for_each (oprofile_hrtimer_notify sp c) ts ?k =
      Some (?k\<lparr>timer_pop := (timer_pop ?k)(c := timer_pop ?k c + of_nat (length ts))\<rparr>)"
    using Cons.prems p by (intro Cons.IH) simp_all
  ultimately show ?case by (simp add: add.assoc fun_upd_def cong: if_cong)
qed

text \<open>C23: with a count of \<open>n\<close> ticks per sample, the first \<open>n - 1\<close> ticks after a sample only
  count, and the \<open>n\<close>-th logs, given room, the start and the end of the interval and the
  sample of the interrupted registers, restarts the interval and resets the count.\<close>

theorem timer_samples_every_count_ticks:
  assumes "ring_ok (cpu_buffer k c)" and "timer_pop k c = 0"
    and "unat (oprofile_timer_count k) = Suc (length ts)" and "Suc (length ts) < 2 ^ 31"
    and "bt_callback sp = None" and "irq_regs t = Some regs"
    and "instruction_pointer sp regs \<noteq> ESCAPE_CODE" and "6 \<le> free_slots (cpu_buffer k c)"
  shows "\<exists>k1 k2. for_each (oprofile_hrtimer_notify sp c) ts k = Some k1 \<and>
    cpu_buffer k1 = cpu_buffer k \<and> oprofile_hrtimer_notify sp c t k1 = Some k2 \<and>
    timer_pop k2 c = 0 \<and> start_timestamp k2 c = next_tb t \<and>
    contents (cpu_buffer k2 c) = contents (cpu_buffer k c) @
      [\<lparr>eip = ESCAPE_CODE, event = RR_CPU_SAMPLE_START_TIMESTAMP, timestamp = start_timestamp k c\<rparr>,
       \<lparr>eip = ESCAPE_CODE, event = RR_CPU_SAMPLE_STOP_TIMESTAMP, timestamp = end_tb t\<rparr>] @
      log_entries (cpu_buffer k c) (irq_task t) (instruction_pointer sp regs)
        (if user_mode sp regs then 0 else 1) 0"
proof -
  let ?b = "cpu_buffer k c" and ?m = "if user_mode sp regs then 0 else 1 :: int"
  let ?k1 = "k\<lparr>timer_pop := (timer_pop k)(c := of_nat (length ts))\<rparr>"
  let ?s = "\<lparr>eip = ESCAPE_CODE, event = RR_CPU_SAMPLE_START_TIMESTAMP, timestamp = start_timestamp k c\<rparr>"
  let ?e = "\<lparr>eip = ESCAPE_CODE, event = RR_CPU_SAMPLE_STOP_TIMESTAMP, timestamp = end_tb t\<rparr>"
  let ?bb = "put ?e (put ?s ?b)"
  have 1: "for_each (oprofile_hrtimer_notify sp c) ts k = Some ?k1"
    using quiet_ticks [of k c ts sp] assms(2-4) by simp
  have "unat (of_nat (length ts) + 1 :: u32) = Suc (length ts)"
    using assms(4) by (simp add: unat_word_ariths unat_of_nat)
  then have due: "oprofile_timer_count k \<le> scast (of_nat (length ts) + 1 :: u32)"
    using assms(3,4) by (simp add: word_le_nat_alt unat_scast_u32)
  have lt: "length (contents ?b) < ring_cap ?b" "Suc (length (contents ?b)) < ring_cap ?b"
    using assms(8) by linarith+
  have bb: "ring_ok ?bb" "contents ?bb = contents ?b @ [?s, ?e]" "ring_cap ?bb = ring_cap ?b"
    using assms(1) lt by (simp_all add: ring_simps frame_simps)
  have room: "3 \<le> free_slots ?bb" using assms(8) bb by simp
  have le: "log_entries ?bb = log_entries ?b" by (rule log_entries_cong) (simp_all add: frame_simps)
  let ?es = "log_entries ?b (irq_task t) (instruction_pointer sp regs) ?m 0"
  have "length ?es \<le> 4" by (rule log_entries_le_4)
  then have "contents (fold put ?es (?bb\<lparr>sample_received := sample_received ?bb + 1,
      last_is_kernel := mode_of ?m, last_task := task_addr (irq_task t)\<rparr>)) = contents ?bb @ ?es"
    using bb assms(8) by (subst ring.items_enq_all) (simp_all add: ring_simps)
  then show ?thesis
    using 1 due assms bb room le
    by (simp add: oprofile_hrtimer_notify_def Let_def on_cpu_def oprofile_add_sample_start_def
        oprofile_add_sample_stop_def take_sample_def oprofile_add_sample_def
        oprofile_add_ext_sample_def log_sample_accept ring_simps frame_simps)
qed

end
