(* ===== verification/Lifecycle.thy ===== *)
theory Lifecycle
  imports Timer_Int
begin

text \<open>
  The profiling session as a state machine: the handlers of the device file and of the
  control files, the interrupt handlers, the periodic work and the daemon's reads, in any
  order. An invariant over the reachable states shows that no order of these operations
  makes the driver touch a buffer that is not there, and which states a session can be in.
\<close>

section \<open>What an interrupt handler does to a ring\<close>

text \<open>The parts of the logging calls, in any combination a handler may make.\<close>

datatype handler =
    H_begin_trace | H_end_trace | H_trace ulong
  | H_log task_struct ulong int ulong
  | H_sample_start u64 | H_sample_stop u64 | H_start u64 | H_stop u64 | H_inc_lost

fun handle :: "handler \<Rightarrow> oprofile_cpu_buffer \<Rightarrow> oprofile_cpu_buffer option" where
  "handle H_begin_trace b = map_option snd (oprofile_begin_trace b)"
| "handle H_end_trace b = Some (oprofile_end_trace b)"
| "handle (H_trace pc) b = oprofile_add_trace pc b"
| "handle (H_log task pc k ev) b = map_option snd (log_sample task b pc k ev)"
| "handle (H_sample_start ts) b = oprofile_add_sample_start ts b"
| "handle (H_sample_stop ts) b = oprofile_add_sample_stop ts b"
| "handle (H_start tb) b = oprofile_add_start tb b"
| "handle (H_stop tb) b = oprofile_add_stop tb b"
| "handle H_inc_lost b = Some (oprofile_cpu_buffer_inc_smpl_lost b)"

definition ring_keeps :: "oprofile_cpu_buffer \<Rightarrow> oprofile_cpu_buffer \<Rightarrow> bool" where
  "ring_keeps b b' \<longleftrightarrow> ring_ok b' \<and> ring_cap b' = ring_cap b \<and> cpu b' = cpu b \<and>
     work_scheduled b' = work_scheduled b"

lemma ring_keeps_put:
  assumes "ring_ok b"
  shows "\<exists>b'. add_sample b pc ev ts = Some b' \<and> ring_keeps b b'"
  using assms by (simp add: ring_keeps_def ring_simps frame_simps)

lemma ring_keeps_put_all:
  assumes "ring_ok b"
  shows "ring_keeps b (fold put es b)"
proof -
  have "work_scheduled (fold put es b) = work_scheduled b"
    by (induction es arbitrary: b) (simp_all add: frame_simps)
  then show ?thesis
    using assms by (simp add: ring_keeps_def ring.inv_enq_all ring.cap_enq_all frame_simps)
qed

lemma handle_keeps:
  assumes "ring_ok b"
  shows "\<exists>b'. handle h b = Some b' \<and> ring_keeps b b'"
proof (cases h)
  case H_begin_trace
  with assms show ?thesis
    by (auto simp: oprofile_begin_trace_def add_code_def ring_keeps_def ring_simps frame_simps)
next
  case (H_trace pc)
  with assms show ?thesis
    by (auto simp: oprofile_add_trace_def ring_keeps_def ring_simps frame_simps)
next
  case (H_log task pc k ev)
  consider "pc = ESCAPE_CODE" | "pc \<noteq> ESCAPE_CODE" "free_slots b < 3"
    | "pc \<noteq> ESCAPE_CODE" "3 \<le> free_slots b" by linarith
  then show ?thesis
  proof cases
    case 3
    let ?b = "b\<lparr>sample_received := sample_received b + 1, last_is_kernel := mode_of k,
                last_task := task_addr task\<rparr>"
    have "ring_ok ?b" using assms by (simp add: ring_simps)
    from ring_keeps_put_all [OF this] 3 H_log assms show ?thesis
      by (simp add: log_sample_accept ring_keeps_def ring_simps)
  qed (use H_log assms in \<open>simp_all add: log_sample_invalid log_sample_no_room ring_keeps_def ring_simps\<close>)
qed (use assms ring_keeps_put [OF assms] in \<open>simp_all add: oprofile_add_sample_start_def
    oprofile_add_sample_stop_def oprofile_add_start_def oprofile_add_stop_def ring_keeps_def
    oprofile_end_trace_def oprofile_cpu_buffer_inc_smpl_lost_def ring_simps\<close>)

lemma on_cpu_keeps:
  assumes "buffers_ok possible k" and "i \<in> set possible"
  shows "\<exists>k'. on_cpu i (handle h) k = Some k' \<and> kernel_keeps possible k k' \<and>
    kstate.more k' = kstate.more k \<and> evb k' = evb k"
proof -
  from assms obtain b where "handle h (cpu_buffer k i) = Some b" "ring_keeps (cpu_buffer k i) b"
    using handle_keeps [of "cpu_buffer k i" h] by (auto simp: buffers_ok_def)
  with assms show ?thesis
    by (auto simp: on_cpu_def kernel_keeps_def buffers_ok_def ring_keeps_def)
qed

section \<open>The state machine\<close>

inductive driver_step :: "kernel_env \<Rightarrow> ('h, 'r) driver \<Rightarrow> ('h, 'r) driver \<Rightarrow> bool" for env where
  open_file: "event_buffer_open env cap d = Some (r, d') \<Longrightarrow> driver_step env d d'"
| release: "buffer_opened (evb (kern d)) \<Longrightarrow> event_buffer_release env d = Some d' \<Longrightarrow>
    driver_step env d d'"
| start: "oprofile_start env d = Some (r, d') \<Longrightarrow> driver_step env d d'"
| stop: "oprofile_stop env d = Some d' \<Longrightarrow> driver_step env d d'"
| adapt: "oprofile_adapt env d = Some (r, d') \<Longrightarrow> driver_step env d d'"
| timer_count: "\<not> buffer_opened (evb (kern d)) \<Longrightarrow>
    oprofile_set_oprofile_timer_count v d = (r, d') \<Longrightarrow> driver_step env d d'"
| setting: "oprofile_set_ulong upd v d = (r, d') \<Longrightarrow>
    upd = (\<lambda>v d. d\<lparr>oprofile_backtrace_depth := v\<rparr>) \<or> upd = (\<lambda>v d. d\<lparr>oprofile_buffer_size := v\<rparr>) \<or>
    upd = (\<lambda>v d. d\<lparr>oprofile_cpu_buffer_size := v\<rparr>) \<or>
    upd = (\<lambda>v d. d\<lparr>oprofile_buffer_watershed := v\<rparr>) \<Longrightarrow>
    sizes_ok d' \<Longrightarrow> driver_step env d d'"
| interrupt: "oprofile_started d \<Longrightarrow> i \<in> set (possible_cpus env) \<Longrightarrow>
    on_cpu i (handle h) (kern d) = Some k \<Longrightarrow> driver_step env d (d\<lparr>kern := k\<rparr>)"
| work: "work_scheduled (cpu_buffer (kern d) i) \<Longrightarrow>
    wq_sync_buffer (online_cpus env) here i (kern d) = Some k \<Longrightarrow>
    driver_step env d (d\<lparr>kern := k\<rparr>)"
| read_buffer: "buffer_opened (evb (kern d)) \<Longrightarrow>
    event_buffer_read sig copy_ok count off (evb (kern d)) = Some (Done (r, e)) \<Longrightarrow>
    driver_step env d (on_kern (\<lambda>k. k\<lparr>evb := e\<rparr>) d)"
| dump: "driver_step env d (on_kern (on_evb wake_up_buffer_waiter) d)"
| debug: "driver_step env d (d\<lparr>rrprofile_debug := v\<rparr>)"

inductive driver_reach :: "kernel_env \<Rightarrow> ('h, 'r) driver \<Rightarrow> ('h, 'r) driver \<Rightarrow> bool" for env d0 where
  initial: "driver_reach env d0 d0"
| further: "driver_reach env d0 d \<Longrightarrow> driver_step env d d' \<Longrightarrow> driver_reach env d0 d'"

section \<open>The invariant\<close>

text \<open>A structure of operations that satisfies the contract; the condition for a session may
  depend on which operations are in use.\<close>

type_synonym ('h, 'r) ops_ready = "('h kstate_scheme, 'r) oprofile_operations \<Rightarrow> 'h \<Rightarrow> bool"

definition good_ops ::
  "kernel_env \<Rightarrow> ('h \<Rightarrow> bool) \<Rightarrow> ('h, 'r) ops_ready \<Rightarrow>
   ('h kstate_scheme, 'r) oprofile_operations \<Rightarrow> bool" where
  "good_ops env idle rdy ops \<longleftrightarrow> backend env idle (rdy ops) ops"

definition session_open ::
  "kernel_env \<Rightarrow> ('h, 'r) ops_ready \<Rightarrow> ('h, 'r) driver \<Rightarrow> bool" where
  "session_open env rdy d \<longleftrightarrow> session_up env (rdy (oprofile_ops d)) d \<and> work_online env (kern d)"

definition driver_ops_ok ::
  "kernel_env \<Rightarrow> ('h \<Rightarrow> bool) \<Rightarrow> ('h, 'r) ops_ready \<Rightarrow> ('h, 'r) driver \<Rightarrow> bool" where
  "driver_ops_ok env idle rdy d \<longleftrightarrow>
     good_ops env idle rdy (oprofile_ops d) \<and> good_ops env idle rdy (timer_ops d) \<and>
     (op_cpu_type (arch_ops d) \<noteq> None \<longrightarrow> good_ops env idle rdy (arch_ops d))"

definition life_inv ::
  "kernel_env \<Rightarrow> ('h \<Rightarrow> bool) \<Rightarrow> ('h, 'r) ops_ready \<Rightarrow> ('h, 'r) driver \<Rightarrow> bool" where
  "life_inv env idle rdy d \<longleftrightarrow> sizes_ok d \<and> driver_ops_ok env idle rdy d \<and>
     (if buffer_opened (evb (kern d)) then session_open env rdy d else session_down idle d)"

lemma life_invE:
  assumes "life_inv env idle rdy d"
  obtains (opened) "buffer_opened (evb (kern d))"
      "backend env idle (rdy (oprofile_ops d)) (oprofile_ops d)" "session_up env (rdy (oprofile_ops d)) d" "work_online env (kern d)"
      "sizes_ok d" "driver_ops_ok env idle rdy d"
  | (closed) "\<not> buffer_opened (evb (kern d))" "session_down idle d" "sizes_ok d"
      "driver_ops_ok env idle rdy d"
  using assms by (auto simp: life_inv_def session_open_def driver_ops_ok_def good_ops_def split: if_splits)

lemma life_inv_opened:
  assumes "life_inv env idle rdy d" and "buffer_opened (evb (kern d))"
  shows "buffers_ok (possible_cpus env) (kern d)" "rdy (oprofile_ops d) (kstate.more (kern d))"
  using assms by (simp_all add: life_inv_def session_open_def session_up_def)

lemma life_inv_closed:
  "life_inv env idle rdy d \<Longrightarrow> \<not> buffer_opened (evb (kern d)) \<Longrightarrow> idle (kstate.more (kern d))"
  by (simp add: life_inv_def session_down_def)

lemma life_inv_session:
  assumes "life_inv env idle rdy d" and "buffer_opened (evb (kern d))"
    and "kernel_keeps (possible_cpus env) (kern d) k" and "rdy (oprofile_ops d) (kstate.more k)"
  shows "life_inv env idle rdy (d\<lparr>kern := k\<rparr>)"
  using assms by (auto simp: life_inv_def session_open_def session_up_def kernel_keeps_def
      work_online_def sizes_ok_def driver_ops_ok_def)

lemma life_inv_kern:
  assumes "life_inv env idle rdy d" and "buffer_opened (evb (kern d))"
    and "kernel_keeps (possible_cpus env) (kern d) k" and "kstate.more k = kstate.more (kern d)"
  shows "life_inv env idle rdy (d\<lparr>kern := k\<rparr>)"
  using life_inv_session [OF assms(1-3)] life_inv_opened(2) [OF assms(1,2)] assms(4) by simp

lemma session_keeps_inv:
  assumes "buffer_opened (evb (kern d))" and "backend env idle (rdy (oprofile_ops d)) (oprofile_ops d)"
    and "work_online env (kern d)" and "sizes_ok d" and "driver_ops_ok env idle rdy d"
    and "session_keeps env d d'" and "session_up env (rdy (oprofile_ops d)) d'"
  shows "life_inv env idle rdy d'"
  using assms by (auto simp: life_inv_def session_open_def session_keeps_def kernel_keeps_def
      work_online_def sizes_ok_def driver_ops_ok_def)

lemma open_inv:
  assumes "life_inv env idle rdy d" and "env_ok env"
  shows "\<exists>r d'. event_buffer_open env cap d = Some (r, d') \<and> life_inv env idle rdy d'"
  using assms(1)
proof (cases rule: life_invE)
  case opened
  with assms(1) show ?thesis by (auto simp: event_buffer_open_def)
next
  case closed
  let ?d = "on_kern (on_evb (\<lambda>e. e\<lparr>buffer_opened := True\<rparr>)) d"
  from closed have be: "backend env idle (rdy (oprofile_ops d)) (oprofile_ops d)"
    by (auto simp: driver_ops_ok_def good_ops_def)
  have down: "session_down idle ?d" "sizes_ok ?d"
    using closed by (simp_all add: session_down_def no_work_def sizes_ok_def)
  from backend.setup_session [OF be down(1) _ assms(2) down(2)] obtain r d' where s:
    "oprofile_setup env ?d = Some (r, d')"
    "if r = rc_ok then session_up env (rdy (oprofile_ops d)) d' \<and> \<not> oprofile_started d' \<and> work_online env (kern d')
     else session_down idle d'"
    "oprofile_ops d' = oprofile_ops d" "arch_ops d' = arch_ops d" "timer_ops d' = timer_ops d"
    "oprofile_buffer_size d' = oprofile_buffer_size d"
    "oprofile_cpu_buffer_size d' = oprofile_cpu_buffer_size d"
    "buffer_opened (evb (kern d'))" by auto
  have "session_down idle (on_kern (on_evb (\<lambda>e. e\<lparr>buffer_opened := False\<rparr>)) d')"
    if "session_down idle d'"
    using that by (simp add: session_down_def no_work_def)
  with s closed be assms(1) show ?thesis
    by (cases cap) (auto simp: event_buffer_open_def life_inv_def session_open_def
        sizes_ok_def driver_ops_ok_def)
qed

lemma release_inv:
  assumes "life_inv env idle rdy d" and "env_ok env" and "buffer_opened (evb (kern d))"
  shows "\<exists>d'. event_buffer_release env d = Some d' \<and> life_inv env idle rdy d'"
  using assms(1)
proof (cases rule: life_invE)
  case opened
  from assms(2) have on: "set (online_cpus env) \<subseteq> set (possible_cpus env)" by (simp add: env_ok_def)
  from backend.stop_keeps [OF opened(2,3) refl on] obtain d1 where d1:
    "oprofile_stop env d = Some d1" "session_keeps env d d1" "session_up env (rdy (oprofile_ops d)) d1"
    "\<not> oprofile_started d1" by blast
  then have "oprofile_ops d1 = oprofile_ops d"
    "\<forall>i. work_scheduled (cpu_buffer (kern d1) i) \<longrightarrow> i \<in> set (online_cpus env)"
    using opened(4) by (auto simp: session_keeps_def kernel_keeps_def work_online_def)
  from backend.shutdown_keeps [OF opened(2) d1(3) this] obtain d2 where d2:
    "oprofile_shutdown env d1 = Some d2" "\<not> is_setup d2" "idle (kstate.more (kern d2))"
    "oprofile_ops d2 = oprofile_ops d" "arch_ops d2 = arch_ops d1" "timer_ops d2 = timer_ops d1"
    "oprofile_buffer_size d2 = oprofile_buffer_size d1"
    "oprofile_cpu_buffer_size d2 = oprofile_cpu_buffer_size d1"
    "oprofile_started d2 = oprofile_started d1"
    "\<forall>i. \<not> work_scheduled (cpu_buffer (kern d2) i)" by blast
  with d1 opened show ?thesis
    by (auto simp: event_buffer_release_def life_inv_def session_down_def no_work_def
        session_keeps_def sizes_ok_def driver_ops_ok_def)
qed (use assms(3) in simp)

lemma start_inv:
  assumes "life_inv env idle rdy d"
  shows "\<exists>r d'. oprofile_start env d = Some (r, d') \<and> life_inv env idle rdy d'"
  using assms
proof (cases rule: life_invE)
  case opened
  from backend.start_keeps [OF opened(2,3) refl] opened session_keeps_inv show ?thesis by blast
next
  case closed
  with assms show ?thesis by (simp add: oprofile_start_def session_down_def)
qed

lemma stop_inv:
  assumes "life_inv env idle rdy d" and "env_ok env"
  shows "\<exists>d'. oprofile_stop env d = Some d' \<and> life_inv env idle rdy d'"
  using assms(1)
proof (cases rule: life_invE)
  case opened
  from assms(2) have on: "set (online_cpus env) \<subseteq> set (possible_cpus env)" by (simp add: env_ok_def)
  from backend.stop_keeps [OF opened(2,3) refl on] opened session_keeps_inv show ?thesis by blast
next
  case closed
  with assms show ?thesis by (simp add: oprofile_stop_def session_down_def)
qed

lemma adapt_inv:
  assumes "life_inv env idle rdy d" and "env_ok env"
  shows "\<exists>r d'. oprofile_adapt env d = Some (r, d') \<and> life_inv env idle rdy d'"
  using assms(1)
proof (cases rule: life_invE)
  case opened
  from assms(2) have on: "set (online_cpus env) \<subseteq> set (possible_cpus env)" by (simp add: env_ok_def)
  from backend.adapt_keeps [OF opened(2,3) refl on] opened session_keeps_inv show ?thesis by blast
next
  case closed
  with assms show ?thesis by (simp add: oprofile_adapt_def session_down_def)
qed

lemma started_opened:
  "life_inv env idle rdy d \<Longrightarrow> oprofile_started d \<Longrightarrow> buffer_opened (evb (kern d))"
  by (auto simp: life_inv_def session_down_def split: if_splits)

lemma interrupt_inv:
  assumes "life_inv env idle rdy d" and "oprofile_started d" and "i \<in> set (possible_cpus env)"
  shows "\<exists>k. on_cpu i (handle h) (kern d) = Some k \<and> life_inv env idle rdy (d\<lparr>kern := k\<rparr>)"
proof -
  have op: "buffer_opened (evb (kern d))" using assms(1,2) by (rule started_opened)
  then have "buffers_ok (possible_cpus env) (kern d)"
    using assms(1) by (auto simp: life_inv_def session_open_def session_up_def)
  from on_cpu_keeps [OF this assms(3)] life_inv_kern [OF assms(1) op] show ?thesis by blast
qed

lemma buffers_ok_work [ring_simps]:
  "buffers_ok possible (upd_cpu i (\<lambda>b. b\<lparr>work_scheduled := w\<rparr>) k) = buffers_ok possible k"
  by (auto simp: buffers_ok_def ring_simps)

lemma work_inv:
  assumes "life_inv env idle rdy d" and "env_ok env" and "work_scheduled (cpu_buffer (kern d) i)"
  shows "\<exists>k. wq_sync_buffer (online_cpus env) here i (kern d) = Some k \<and>
    life_inv env idle rdy (d\<lparr>kern := k\<rparr>)"
  using assms(1)
proof (cases rule: life_invE)
  case opened
  from opened(4) assms(2,3) have i: "i \<in> set (online_cpus env)" "i \<in> set (possible_cpus env)"
    by (auto simp: work_online_def env_ok_def)
  let ?k1 = "upd_cpu i (\<lambda>b. b\<lparr>work_scheduled := False\<rparr>) (kern d)"
  have ok: "buffers_ok (possible_cpus env) (kern d)" using opened(3) by (simp add: session_up_def)
  then have c: "cpu (cpu_buffer (kern d) i) = i" using i(2) by (simp add: buffers_ok_def)
  from ok have "buffers_ok (possible_cpus env) ?k1" by (simp add: ring_simps)
  from sync_buffer_keeps [OF this i(2)] obtain k2 where k2:
    "sync_buffer (online_cpus env) i ?k1 = Some k2" "kernel_keeps (possible_cpus env) ?k1 k2"
    "kstate.more k2 = kstate.more (kern d)" by (auto simp: frame_simps)
  let ?k = "if work_enabled k2 then upd_cpu i (\<lambda>b. b\<lparr>work_scheduled := True\<rparr>) k2 else k2"
  have "wq_sync_buffer (online_cpus env) here i (kern d) = Some ?k"
    using k2(1) c i(1) by (simp add: wq_sync_buffer_def Let_def)
  moreover have "life_inv env idle rdy (d\<lparr>kern := ?k\<rparr>)"
    using opened k2(2,3) i(1)
    by (auto simp: life_inv_def session_open_def session_up_def sizes_ok_def driver_ops_ok_def
        kernel_keeps_def ring_simps frame_simps work_online_def)
  ultimately show ?thesis by blast
next
  case closed
  with assms(3) show ?thesis by (simp add: session_down_def no_work_def)
qed

lemma read_inv:
  assumes "life_inv env idle rdy d" and "buffer_opened (evb (kern d))"
  shows "\<exists>r. event_buffer_read sig copy_ok count off (evb (kern d)) = Some r \<and>
    (\<forall>x e. r = Done (x, e) \<longrightarrow> life_inv env idle rdy (on_kern (\<lambda>k. k\<lparr>evb := e\<rparr>) d))"
  using assms(1)
proof (cases rule: life_invE)
  case opened
  then have ok: "buffers_ok (possible_cpus env) (kern d)" by (simp add: session_up_def)
  then have eb: "eb_ok (evb (kern d))" by (simp add: buffers_ok_def)
  then obtain xs where xs: "event_buffer (evb (kern d)) = Some xs" by (rule eb_okE)
  have z: "eb_ok (e\<lparr>buffer_pos := 0\<rparr>)" if "eb_ok e" for e
    using that by (simp add: eb_ok_def split: option.splits)
  have inv: "life_inv env idle rdy (on_kern (\<lambda>k. k\<lparr>evb := e\<rparr>) d)"
    if "eb_ok e" "buffer_opened e" for e
    using that ok opened(1) by (intro life_inv_kern [OF assms(1,2)])
      (simp_all add: kernel_keeps_def buffers_ok_def)
  show ?thesis
    using xs eb opened(1) inv [of "evb (kern d)"] inv [of "(evb (kern d))\<lparr>buffer_ready := False\<rparr>"]
      inv [of "(evb (kern d))\<lparr>buffer_ready := False, buffer_pos := 0\<rparr>"] z
    by (simp add: event_buffer_read_def Let_def ev_simps)
qed (use assms(2) in simp)

lemma dump_inv:
  assumes "life_inv env idle rdy d"
  shows "life_inv env idle rdy (on_kern (on_evb wake_up_buffer_waiter) d)"
  using assms
proof (cases rule: life_invE)
  case opened
  then show ?thesis
    by (intro life_inv_kern [OF assms])
      (auto simp: session_up_def kernel_keeps_def buffers_ok_def wake_up_buffer_waiter_def ev_simps)
next
  case closed
  then show ?thesis
    by (auto simp: life_inv_def session_down_def no_work_def wake_up_buffer_waiter_def
        sizes_ok_def driver_ops_ok_def)
qed

lemma timer_count_inv:
  assumes "life_inv env idle rdy d" and "\<not> buffer_opened (evb (kern d))"
    and "oprofile_set_oprofile_timer_count v d = (r, d')"
  shows "life_inv env idle rdy d'"
  using assms
  by (auto simp: life_inv_def oprofile_set_oprofile_timer_count_def session_down_def no_work_def
      sizes_ok_def driver_ops_ok_def split: if_splits)

lemma setting_inv:
  assumes "life_inv env idle rdy d" and "oprofile_set_ulong upd v d = (r, d')" and "sizes_ok d'"
    and "upd = (\<lambda>v d. d\<lparr>oprofile_backtrace_depth := v\<rparr>) \<or>
      upd = (\<lambda>v d. d\<lparr>oprofile_buffer_size := v\<rparr>) \<or>
      upd = (\<lambda>v d. d\<lparr>oprofile_cpu_buffer_size := v\<rparr>) \<or>
      upd = (\<lambda>v d. d\<lparr>oprofile_buffer_watershed := v\<rparr>)"
  shows "life_inv env idle rdy d'"
  using assms
  by (auto simp: life_inv_def oprofile_set_ulong_def session_open_def session_up_def
      session_down_def no_work_def driver_ops_ok_def split: if_splits)

text \<open>The invariant speaks of neither the debug switch nor the particular sizes.\<close>

lemma life_inv_unrelated:
  assumes "kern d' = kern d" and "oprofile_ops d' = oprofile_ops d" and "arch_ops d' = arch_ops d"
    and "timer_ops d' = timer_ops d" and "oprofile_started d' = oprofile_started d"
    and "is_setup d' = is_setup d" and "sizes_ok d'"
  shows "life_inv env idle rdy d \<Longrightarrow> life_inv env idle rdy d'"
  using assms by (auto simp: life_inv_def session_open_def session_up_def session_down_def
      driver_ops_ok_def split: if_splits)

lemma driver_step_inv:
  assumes "driver_step env d d'" and "life_inv env idle rdy d" and "env_ok env"
  shows "life_inv env idle rdy d'"
  using assms
proof (induction rule: driver_step.induct)
  case (open_file cap d r d')
  with open_inv [of env idle rdy d cap] show ?case by simp
next
  case (release d d')
  with release_inv [of env idle rdy d] show ?case by simp
next
  case (start d r d')
  with start_inv [of env idle rdy d] show ?case by simp
next
  case (stop d d')
  with stop_inv [of env idle rdy d] show ?case by simp
next
  case (adapt d r d')
  with adapt_inv [of env idle rdy d] show ?case by simp
next
  case (timer_count d v r d')
  then show ?case using timer_count_inv by blast
next
  case (setting upd v d r d')
  then show ?case using setting_inv by blast
next
  case (interrupt d i h k)
  with interrupt_inv [of env idle rdy d i h] show ?case by simp
next
  case (work d i here k)
  with work_inv [of env idle rdy d i here] show ?case by simp
next
  case (read_buffer d sig copy_ok count off r e)
  with read_inv [of env idle rdy d sig copy_ok count off] show ?case by auto
next
  case (dump d)
  then show ?case using dump_inv by blast
next
  case (debug d v)
  then show ?case using life_inv_unrelated [of "d\<lparr>rrprofile_debug := v\<rparr>" d]
    by (auto simp: life_inv_def sizes_ok_def)
qed

lemma driver_reach_inv:
  assumes "driver_reach env d0 d" and "life_inv env idle rdy d0" and "env_ok env"
  shows "life_inv env idle rdy d"
  using assms by (induction rule: driver_reach.induct) (blast intro: driver_step_inv)+

text \<open>What the invariant says of a state.\<close>

lemma life_inv_no_fault:
  assumes "life_inv env idle rdy d" and "env_ok env"
  shows "event_buffer_open env cap d \<noteq> None \<and> oprofile_start env d \<noteq> None \<and>
    oprofile_stop env d \<noteq> None \<and> oprofile_adapt env d \<noteq> None \<and>
    (buffer_opened (evb (kern d)) \<longrightarrow> event_buffer_release env d \<noteq> None \<and>
       event_buffer_read sig copy_ok count off (evb (kern d)) \<noteq> None) \<and>
    (oprofile_started d \<and> i \<in> set (possible_cpus env) \<longrightarrow> on_cpu i (handle h) (kern d) \<noteq> None) \<and>
    (work_scheduled (cpu_buffer (kern d) i) \<longrightarrow>
       wq_sync_buffer (online_cpus env) here i (kern d) \<noteq> None)"
  using open_inv [OF assms, of cap] start_inv [OF assms(1)] stop_inv [OF assms]
    adapt_inv [OF assms] release_inv [OF assms] read_inv [OF assms(1)] interrupt_inv [OF assms(1)]
    work_inv [OF assms]
  by (metis option.distinct(1))

lemma life_inv_states:
  assumes "life_inv env idle rdy d"
  shows "(oprofile_started d \<longrightarrow> is_setup d) \<and> (is_setup d \<longleftrightarrow> buffer_opened (evb (kern d))) \<and>
    (is_setup d \<longrightarrow> buffers_ok (possible_cpus env) (kern d)) \<and>
    (\<not> is_setup d \<longrightarrow> no_work (kern d) \<and> buffer_pos (evb (kern d)) = 0)"
  using assms by (auto simp: life_inv_def session_open_def session_up_def session_down_def
      split: if_splits)

end
