(* ===== verification/Sampling.thy ===== *)
theory Sampling
  imports Lifecycle
begin

text \<open>
  What a sample does to a ring: \<^verbatim>\<open>oprofile_add_sample\<close> and \<^verbatim>\<open>oprofile_add_ext_sample\<close> keep it
  usable, whatever backtrace callback adds to it, as long as the callback does. The interrupt
  handlers of every architecture rest on these facts.
\<close>

section \<open>Samples\<close>

text \<open>
  The samples of a handler, on a usable ring. The backtrace callback is only ever called with
  registers: a sample without them has the address \<open>ESCAPE_CODE\<close>, which \<open>log_sample\<close> refuses.
\<close>

definition sampler_ok :: "'r sampler \<Rightarrow> bool" where
  "sampler_ok sp \<longleftrightarrow> (\<forall>bt r depth b. bt_callback sp = Some bt \<longrightarrow> ring_ok b \<longrightarrow>
     (\<exists>b'. bt (Some r) depth b = Some b' \<and> ring_keeps b b'))"

lemma ring_keeps_trans: "ring_keeps b b1 \<Longrightarrow> ring_keeps b1 b2 \<Longrightarrow> ring_keeps b b2"
  by (simp add: ring_keeps_def)

lemma log_sample_keeps:
  assumes "ring_ok b"
  shows "\<exists>r b'. log_sample task b pc k ev = Some (r, b') \<and> ring_keeps b b'"
  using handle_keeps [OF assms, of "H_log task pc k ev"] by auto

lemma ext_sample_keeps:
  assumes "ring_ok b" and "\<And>bt b. backtrace = Some bt \<Longrightarrow> pc \<noteq> ESCAPE_CODE \<Longrightarrow> ring_ok b \<Longrightarrow>
    \<exists>b'. bt regs depth b = Some b' \<and> ring_keeps b b'" and "depth = ucast bdepth"
  shows "\<exists>b'. oprofile_add_ext_sample backtrace bdepth task pc regs ev k b = Some b' \<and> ring_keeps b b'"
proof (cases "backtrace = None \<or> bdepth = 0")
  case True
  with log_sample_keeps [OF assms(1), of task pc k ev] show ?thesis
    by (auto simp: oprofile_add_ext_sample_def split: option.splits)
next
  case False
  then obtain bt where bt: "backtrace = Some bt" "bdepth \<noteq> 0" by auto
  obtain begun b1 where b1: "oprofile_begin_trace b = Some (begun, b1)" "ring_keeps b b1"
    using handle_keeps [OF assms(1), of H_begin_trace] by auto
  then have "ring_ok b1" by (simp add: ring_keeps_def)
  from log_sample_keeps [OF this, of task pc k ev] obtain r b2 where
    b2: "log_sample task b1 pc k ev = Some (r, b2)" "ring_keeps b1 b2" by blast
  then have "ring_ok b2" by (simp add: ring_keeps_def)
  then have b3: "\<exists>b3. bt regs depth b2 = Some b3 \<and> ring_keeps b2 b3" if r
    using assms(2) [OF bt(1)] that b2(1) log_sample_invalid [of task b1 k ev] by (cases "pc = ESCAPE_CODE") auto
  have end_keeps: "ring_keeps b4 (oprofile_end_trace b4)" if "ring_ok b4" for b4
    using handle_keeps [OF that, of H_end_trace] by simp
  show ?thesis
  proof (cases r)
    case True
    with b3 obtain b3 where "bt regs depth b2 = Some b3" "ring_keeps b2 b3" by blast
    with True show ?thesis
      using bt b1 b2 assms(3) end_keeps [of b3] by (auto simp: oprofile_add_ext_sample_def ring_keeps_def)
  next
    case False
    then show ?thesis
      using bt b1 b2 end_keeps [of b2] \<open>ring_ok b2\<close> by (auto simp: oprofile_add_ext_sample_def ring_keeps_def)
  qed
qed

lemma take_sample_keeps:
  assumes "ring_ok b" and "sampler_ok sp"
  shows "\<exists>b'. take_sample sp task regs ev b = Some b' \<and> ring_keeps b b'"
proof -
  obtain k pc where kp: "(case regs of Some r \<Rightarrow> (if user_mode sp r then 0 else 1, instruction_pointer sp r)
      | None \<Rightarrow> (0 :: int, ESCAPE_CODE)) = (k, pc)" by fastforce
  have cb: "\<exists>b'. bt regs depth b = Some b' \<and> ring_keeps b b'"
    if "bt_callback sp = Some bt" and "pc \<noteq> ESCAPE_CODE" and "ring_ok b" for bt depth b
    using that kp assms(2) by (cases regs) (auto simp: sampler_ok_def)
  have "\<exists>b'. oprofile_add_ext_sample (bt_callback sp) (bt_depth sp) task pc regs ev k b = Some b' \<and>
      ring_keeps b b'"
    using assms(1) by (rule ext_sample_keeps) (use cb in auto)
  with kp show ?thesis
    by (simp add: take_sample_def oprofile_add_sample_def)
qed

section \<open>Backtraces\<close>

text \<open>A callback that adds a list of addresses keeps the ring usable.\<close>

lemma trace_all_keeps:
  "ring_ok b \<Longrightarrow> \<exists>b'. for_each oprofile_add_trace pcs b = Some b' \<and> ring_keeps b b'"
proof (induction pcs arbitrary: b)
  case Nil
  then show ?case by (simp add: ring_keeps_def)
next
  case (Cons pc pcs)
  from handle_keeps [OF Cons.prems, of "H_trace pc"] obtain b1 where
    b1: "oprofile_add_trace pc b = Some b1" "ring_keeps b b1" by auto
  then have "ring_ok b1" by (simp add: ring_keeps_def)
  from Cons.IH [OF this] b1 show ?case by (auto intro: ring_keeps_trans)
qed

end
