(* ===== verification/Poll_Idle.thy ===== *)
theory Poll_Idle
  imports Prelude
begin

text \<open>
  \<^verbatim>\<open>x86/process.c\<close>, in its version for kernels after 2.6.39: while profiling, the idle task can
  be made to poll instead of sleeping. The kernel's variable \<^verbatim>\<open>pm_idle\<close> and the two cpuidle
  functions are found by name; what the cpuidle functions do is recorded in a flag.
\<close>

section \<open>State and operations\<close>

text \<open>The idle functions that \<^verbatim>\<open>pm_idle\<close> may point to: the driver's own and those of the kernel.\<close>

datatype idle_fn = poll_idle | kernel_idle nat

text \<open>
  \<open>pm_idle\<close> is the kernel's variable itself, \<open>pm_idle_p\<close> tells whether its address was found;
  \<open>uninstall_handler\<close> and \<open>install_handler\<close> tell it of the cpuidle functions, and
  \<open>cpuidle_installed\<close> which of the two was called last.
\<close>

record poll_state =
  poll_idle_enabled :: u32
  pm_idle :: "idle_fn option"
  pm_idle_p :: bool
  pm_idle_save :: "idle_fn option"
  uninstall_handler :: bool
  install_handler :: bool
  cpuidle_installed :: bool

text \<open>The arguments tell which of the three symbols \<^verbatim>\<open>kallsyms_lookup_name\<close> finds.\<close>

definition init_poll_idle :: "bool \<Rightarrow> bool \<Rightarrow> bool \<Rightarrow> poll_state \<Rightarrow> poll_state" where
  "init_poll_idle found_pm_idle found_uninstall found_install p =
     (let p = p\<lparr>pm_idle_p := found_pm_idle\<rparr>;
          p = (if \<not> pm_idle_p p then p else p\<lparr>pm_idle_save := pm_idle p\<rparr>)
      in p\<lparr>uninstall_handler := found_uninstall, install_handler := found_install\<rparr>)"

definition poll_unavailable :: "poll_state \<Rightarrow> bool" where
  "poll_unavailable p \<longleftrightarrow>
     \<not> pm_idle_p p \<or> pm_idle_save p = None \<or> \<not> install_handler p \<or> \<not> uninstall_handler p"

definition enable_poll_idle :: "poll_state \<Rightarrow> poll_state" where
  "enable_poll_idle p =
     (if poll_unavailable p then p
      else if pm_idle p \<noteq> Some poll_idle
      then p\<lparr>pm_idle := Some poll_idle, cpuidle_installed := False\<rparr>
      else p)"

definition disable_poll_idle :: "poll_state \<Rightarrow> poll_state" where
  "disable_poll_idle p =
     (if poll_unavailable p then p
      else if pm_idle p \<noteq> pm_idle_save p
      then p\<lparr>pm_idle := pm_idle_save p, cpuidle_installed := True\<rparr>
      else p)"

text \<open>\<^verbatim>\<open>cpu_idle_wait\<close> makes the CPUs leave their idle functions once; it has no other effect.\<close>

definition exit_poll_idle :: "poll_state \<Rightarrow> poll_state" where
  "exit_poll_idle p = disable_poll_idle p"

section \<open>Properties\<close>

text \<open>\<open>switch on\<close> is one of the calls that profiling makes in between.\<close>

definition switch_poll :: "bool \<Rightarrow> poll_state \<Rightarrow> poll_state" where
  "switch_poll on = (if on then enable_poll_idle else disable_poll_idle)"

lemmas poll_defs =
  init_poll_idle_def poll_unavailable_def enable_poll_idle_def disable_poll_idle_def
  exit_poll_idle_def switch_poll_def

text \<open>The saved function and the symbols stay; the kernel's variable holds the saved function,
  or the driver's one with cpuidle uninstalled.\<close>

definition poll_inv :: "poll_state \<Rightarrow> poll_state \<Rightarrow> bool" where
  "poll_inv p0 p \<longleftrightarrow> (if poll_unavailable p
     then pm_idle p = pm_idle p0 \<and> cpuidle_installed p = cpuidle_installed p0
     else pm_idle_save p = pm_idle p0 \<and>
       (pm_idle p = pm_idle p0 \<and> (cpuidle_installed p0 \<longrightarrow> cpuidle_installed p) \<or>
        pm_idle p = Some poll_idle \<and> \<not> cpuidle_installed p))"

lemma poll_inv_switches:
  assumes "poll_inv p0 p"
  shows "poll_inv p0 (fold switch_poll ops p)"
  using assms
proof (induction ops arbitrary: p)
  case (Cons on ops)
  have "poll_inv p0 (switch_poll on p)"
    using Cons.prems by (auto simp: poll_inv_def poll_defs split: if_splits)
  then show ?case by (simp add: Cons.IH)
qed simp

text \<open>Whatever symbols were found and however often polling was switched on and off, leaving
  puts the kernel's own idle function back, and cpuidle is installed again if it was.\<close>

theorem poll_idle_restored:
  assumes "pm_idle p0 \<noteq> Some poll_idle"
  shows "pm_idle (exit_poll_idle (fold switch_poll ops (init_poll_idle a b c p0))) = pm_idle p0 \<and>
    (cpuidle_installed p0 \<longrightarrow>
       cpuidle_installed (exit_poll_idle (fold switch_poll ops (init_poll_idle a b c p0))))"
proof -
  have "poll_inv p0 (init_poll_idle a b c p0)" by (auto simp: poll_inv_def poll_defs Let_def)
  then have "poll_inv p0 (fold switch_poll ops (init_poll_idle a b c p0))"
    by (rule poll_inv_switches)
  with assms show ?thesis by (auto simp: poll_inv_def poll_defs split: if_splits)
qed

end
