(* ===== verification/X86_Machine.thy ===== *)
theory X86_Machine
  imports Sampling Poll_Idle
begin

unbundle bit_operations_syntax

text \<open>
  What the files of \<^verbatim>\<open>x86/\<close> share: the model-specific registers and the local APIC of each CPU,
  the structures of \<^verbatim>\<open>op_x86_model.h\<close> and \<^verbatim>\<open>op_counter.h\<close>, the variables of \<^verbatim>\<open>nmi_int.c\<close> and of
  the counter models, and the macros with which \<^verbatim>\<open>op_model_ppro.c\<close> and \<^verbatim>\<open>op_model_athlon.c\<close> access
  the registers. The addresses of registers, and the bits of the APIC, come from the kernel's
  headers and are parameters.
\<close>

section \<open>Structures\<close>

record op_saved_msr =
  saved_high :: u32
  saved_low :: u32

record op_msr =
  addr :: ulong
  saved :: op_saved_msr

text \<open>Pointers to arrays, null or with their contents.\<close>

record op_msrs =
  counters :: "op_msr list option"
  controls :: "op_msr list option"

record op_counter_config =
  cc_count :: ulong
  cc_enabled :: ulong
  cc_event :: ulong
  cc_kernel :: ulong
  cc_user :: ulong
  cc_unit_mask :: ulong

definition OP_MAX_COUNTER :: nat where "OP_MAX_COUNTER = 8"

text \<open>The structures of counter models that \<^verbatim>\<open>nmi_int.c\<close> chooses from.\<close>

datatype model_spec = ppro_spec | p4_spec | p4_ht2_spec | athlon_spec | arch_perfmon_spec

text \<open>The two entries of the local APIC's vector table that the driver uses.\<close>

datatype apic_reg = APIC_LVTPC | APIC_LVTERR

text \<open>
  \<open>msr c a\<close> are the halves \<open>(low, high)\<close> of register \<open>a\<close> of CPU \<open>c\<close>. The variables named
  after a model file are its static ones; \<open>arch_num_counters\<close> and \<open>arch_num_controls\<close> are
  the fields of \<^verbatim>\<open>op_arch_perfmon_spec\<close> that are filled in at run time. \<open>nmi_handler\<close> tells
  whether the driver's NMI handler is registered, \<open>driverfs\<close> whether its power management
  operations are; \<open>nmi_model\<close> is the pointer \<^verbatim>\<open>model\<close>.
\<close>

record x86_state =
  msr :: "nat \<Rightarrow> u32 \<Rightarrow> u32 \<times> u32"
  apic :: "nat \<Rightarrow> apic_reg \<Rightarrow> u32"
  cpu_msrs :: "nat \<Rightarrow> op_msrs"
  saved_lvtpc :: "nat \<Rightarrow> ulong"
  nmi_ctr_running :: bool
  nmi_enabled :: bool
  nmi_handler :: bool
  nmi_model :: "model_spec option"
  has_arch_perfmon :: bool
  force_arch_perfmon :: bool
  using_nmi :: bool
  driverfs :: bool
  counter_config :: "op_counter_config list"
  ppro_num_counters :: nat
  counter_width :: nat
  ppro_reset_value :: "u64 list option"
  ppro_start_timestamp :: "nat \<Rightarrow> u64"
  arch_num_counters :: u32
  arch_num_controls :: u32
  athlon_reset_value :: "ulong list"
  athlon_start_timestamp :: "nat \<Rightarrow> u64"
  p4_num_counters :: nat
  p4_reset_value :: "ulong list"
  p4_start_timestamp :: "nat \<Rightarrow> u64"
  poll :: poll_state

record nmi_kstate = timer_kstate +
  x86 :: x86_state

definition on_x86 ::
  "(x86_state \<Rightarrow> x86_state option) \<Rightarrow> 'h nmi_kstate_scheme \<Rightarrow> 'h nmi_kstate_scheme option" where
  "on_x86 f k = map_option (\<lambda>x. k\<lparr>x86 := x\<rparr>) (f (x86 k))"

section \<open>Registers\<close>

text \<open>The address of a register is the low half of the number that the structures hold.\<close>

definition rdmsr :: "nat \<Rightarrow> ulong \<Rightarrow> x86_state \<Rightarrow> u32 \<times> u32" where
  "rdmsr c a x = msr x c (ucast a)"

definition wrmsr :: "nat \<Rightarrow> ulong \<Rightarrow> u32 \<Rightarrow> u32 \<Rightarrow> x86_state \<Rightarrow> x86_state" where
  "wrmsr c a low high x = x\<lparr>msr := (msr x)(c := (msr x c)(ucast a := (low, high)))\<rparr>"

definition apic_read :: "nat \<Rightarrow> apic_reg \<Rightarrow> x86_state \<Rightarrow> u32" where
  "apic_read c r x = apic x c r"

definition apic_write :: "nat \<Rightarrow> apic_reg \<Rightarrow> u32 \<Rightarrow> x86_state \<Rightarrow> x86_state" where
  "apic_write c r v x = x\<lparr>apic := (apic x)(c := (apic x c)(r := v))\<rparr>"

text \<open>\<^verbatim>\<open>msrs->counters[i].addr\<close> and \<^verbatim>\<open>msrs->controls[i].addr\<close> of CPU \<open>c\<close>\<close>

definition elem :: "'a list option \<Rightarrow> nat \<Rightarrow> 'a option" where
  "elem arr i = (case arr of None \<Rightarrow> None | Some xs \<Rightarrow> if i < length xs then Some (xs ! i) else None)"

definition ctr_addr :: "nat \<Rightarrow> nat \<Rightarrow> x86_state \<Rightarrow> ulong option" where
  "ctr_addr c i x = map_option addr (elem (counters (cpu_msrs x c)) i)"

definition ctrl_addr :: "nat \<Rightarrow> nat \<Rightarrow> x86_state \<Rightarrow> ulong option" where
  "ctrl_addr c i x = map_option addr (elem (controls (cpu_msrs x c)) i)"

definition CTR_READ :: "nat \<Rightarrow> nat \<Rightarrow> x86_state \<Rightarrow> (u32 \<times> u32) option" where
  "CTR_READ c i x = map_option (\<lambda>a. rdmsr c a x) (ctr_addr c i x)"

definition CTR_WRITE :: "u64 \<Rightarrow> nat \<Rightarrow> nat \<Rightarrow> x86_state \<Rightarrow> x86_state option" where
  "CTR_WRITE l c i x = map_option (\<lambda>a. wrmsr c a (- ucast l) (- 1) x) (ctr_addr c i x)"

definition CTR_OVERFLOWED :: "u32 \<Rightarrow> bool" where
  "CTR_OVERFLOWED n \<longleftrightarrow> n AND push_bit 31 1 = 0"

definition CTRL_READ :: "nat \<Rightarrow> nat \<Rightarrow> x86_state \<Rightarrow> (u32 \<times> u32) option" where
  "CTRL_READ c i x = map_option (\<lambda>a. rdmsr c a x) (ctrl_addr c i x)"

definition CTRL_WRITE :: "u32 \<Rightarrow> u32 \<Rightarrow> nat \<Rightarrow> nat \<Rightarrow> x86_state \<Rightarrow> x86_state option" where
  "CTRL_WRITE low high c i x = map_option (\<lambda>a. wrmsr c a low high x) (ctrl_addr c i x)"

definition CTRL_SET_ACTIVE :: "u32 \<Rightarrow> u32" where
  "CTRL_SET_ACTIVE n = n OR push_bit 22 1"

definition CTRL_SET_INACTIVE :: "u32 \<Rightarrow> u32" where
  "CTRL_SET_INACTIVE n = n AND NOT (push_bit 22 1)"

definition CTRL_CLEAR :: "u32 \<Rightarrow> u32" where
  "CTRL_CLEAR x = x AND push_bit 21 1"

definition CTRL_SET_ENABLE :: "u32 \<Rightarrow> u32" where
  "CTRL_SET_ENABLE val = val OR push_bit 20 1"

definition CTRL_SET_USR :: "ulong \<Rightarrow> u32 \<Rightarrow> u32" where
  "CTRL_SET_USR u val = val OR ucast (push_bit 16 (u AND 1))"

definition CTRL_SET_KERN :: "ulong \<Rightarrow> u32 \<Rightarrow> u32" where
  "CTRL_SET_KERN k val = val OR ucast (push_bit 17 (k AND 1))"

definition CTRL_SET_UM :: "ulong \<Rightarrow> u32 \<Rightarrow> u32" where
  "CTRL_SET_UM m val = val OR ucast (push_bit 8 m)"

text \<open>A control register read, changed and written back.\<close>

definition ctrl_modify ::
  "nat \<Rightarrow> (u32 \<Rightarrow> u32 \<Rightarrow> u32 \<times> u32) \<Rightarrow> nat \<Rightarrow> x86_state \<Rightarrow> x86_state option" where
  "ctrl_modify c f i x =
     do { (low, high) \<leftarrow> CTRL_READ c i x;
          let (low, high) = f low high in CTRL_WRITE low high c i x }"

definition config :: "nat \<Rightarrow> x86_state \<Rightarrow> op_counter_config option" where
  "config i x = elem (Some (counter_config x)) i"

section \<open>Interrupts\<close>

text \<open>
  A counter interrupt: the clock on entry, at each sample, and the two readings after the
  restart of the counters; the interrupted registers and task.
\<close>

record 'r nmi =
  entry_tb :: u64
  sample_tb :: "nat \<Rightarrow> u64"
  restart_tb :: u64
  exit_tb :: u64
  nmi_regs :: 'r
  nmi_task :: task_struct

text \<open>The two timestamps and the sample that a handler logs for counter \<open>i\<close>.\<close>

definition add_counter_sample ::
  "'r sampler \<Rightarrow> nat \<Rightarrow> 'r nmi \<Rightarrow> u64 \<Rightarrow> u64 \<Rightarrow> nat \<Rightarrow> 'h nmi_kstate_scheme \<Rightarrow>
   'h nmi_kstate_scheme option" where
  "add_counter_sample sp c t start stop i k =
     do { k \<leftarrow> on_cpu c (oprofile_add_sample_start start) k;
          k \<leftarrow> on_cpu c (oprofile_add_sample_stop stop) k;
          on_cpu c (take_sample sp (nmi_task t) (Some (nmi_regs t)) (of_nat i)) k }"

section \<open>Frames\<close>

text \<open>The registers that CPU \<open>c\<close>'s structures list.\<close>

definition entries :: "nat \<Rightarrow> x86_state \<Rightarrow> op_msr list" where
  "entries c x = (case counters (cpu_msrs x c) of None \<Rightarrow> [] | Some xs \<Rightarrow> xs) @
     (case controls (cpu_msrs x c) of None \<Rightarrow> [] | Some xs \<Rightarrow> xs)"

definition listed :: "nat \<Rightarrow> x86_state \<Rightarrow> u32 set" where
  "listed c x = (\<lambda>m. ucast (addr m)) ` set (entries c x)"

text \<open>What the operations of a counter model leave alone on CPU \<open>c\<close>: all registers that are
  not listed, the structures, the other CPUs, and the variables of \<^verbatim>\<open>nmi_int.c\<close>.\<close>

definition only_regs :: "nat \<Rightarrow> x86_state \<Rightarrow> x86_state \<Rightarrow> bool" where
  "only_regs c x x' \<longleftrightarrow> cpu_msrs x' = cpu_msrs x \<and> saved_lvtpc x' = saved_lvtpc x \<and>
     nmi_ctr_running x' = nmi_ctr_running x \<and> nmi_enabled x' = nmi_enabled x \<and>
     nmi_handler x' = nmi_handler x \<and> counter_config x' = counter_config x \<and> poll x' = poll x \<and>
     arch_num_counters x' = arch_num_counters x \<and> arch_num_controls x' = arch_num_controls x \<and>
     (\<forall>c'. c' \<noteq> c \<longrightarrow> msr x' c' = msr x c' \<and> apic x' c' = apic x c') \<and>
     (\<forall>a. a \<notin> listed c x \<longrightarrow> msr x' c a = msr x c a) \<and>
     apic x' c APIC_LVTERR = apic x c APIC_LVTERR"

lemma only_regs_refl [simp]: "only_regs c x x"
  by (simp add: only_regs_def)

lemma only_regs_listed:
  "only_regs c x x' \<Longrightarrow> listed c' x' = listed c' x \<and> entries c' x' = entries c' x"
  by (simp add: only_regs_def listed_def entries_def)

lemma only_regs_trans:
  "only_regs c x x1 \<Longrightarrow> only_regs c x1 x2 \<Longrightarrow> only_regs c x x2"
  using only_regs_listed [of c x x1 c] by (simp add: only_regs_def)

lemma elem_Some: "elem arr i = Some v \<longleftrightarrow> (\<exists>xs. arr = Some xs \<and> i < length xs \<and> v = xs ! i)"
  by (auto simp: elem_def split: option.splits)

lemma ctr_addr_listed: "ctr_addr c i x = Some a \<Longrightarrow> ucast a \<in> listed c x"
  by (auto simp: ctr_addr_def elem_Some listed_def entries_def)

lemma ctrl_addr_listed: "ctrl_addr c i x = Some a \<Longrightarrow> ucast a \<in> listed c x"
  by (auto simp: ctrl_addr_def elem_Some listed_def entries_def)

lemma only_regs_wrmsr: "ucast a \<in> listed c x \<Longrightarrow> only_regs c x (wrmsr c a low high x)"
  by (auto simp: only_regs_def wrmsr_def)

text \<open>A CPU whose structures are allocated with at least \<open>m\<close> counters and \<open>n\<close> controls.\<close>

definition msrs_sized :: "nat \<Rightarrow> nat \<Rightarrow> nat \<Rightarrow> x86_state \<Rightarrow> bool" where
  "msrs_sized m n c x \<longleftrightarrow>
     (\<exists>cs ds. cpu_msrs x c = \<lparr>counters = Some cs, controls = Some ds\<rparr> \<and> length cs = m \<and> length ds = n)"

lemma sized_only_regs: "only_regs c x x' \<Longrightarrow> msrs_sized m n c' x' = msrs_sized m n c' x"
  by (simp add: only_regs_def msrs_sized_def)

lemma sized_addr:
  "msrs_sized m n c x \<Longrightarrow> i < m \<Longrightarrow> \<exists>a. ctr_addr c i x = Some a"
  "msrs_sized m n c x \<Longrightarrow> i < n \<Longrightarrow> \<exists>a. ctrl_addr c i x = Some a"
  by (auto simp: msrs_sized_def ctr_addr_def ctrl_addr_def elem_def)

lemma ctr_write_frame:
  assumes "msrs_sized m n c x" and "i < m"
  shows "\<exists>ms. CTR_WRITE l c i x = Some (x\<lparr>msr := ms\<rparr>) \<and> only_regs c x (x\<lparr>msr := ms\<rparr>)"
proof -
  from sized_addr(1) [OF assms] obtain a where a: "ctr_addr c i x = Some a" by blast
  from only_regs_wrmsr [OF ctr_addr_listed [OF a]] a show ?thesis
    by (auto simp: CTR_WRITE_def wrmsr_def)
qed

lemma ctr_read_ok:
  assumes "msrs_sized m n c x" and "i < m"
  shows "\<exists>low high. CTR_READ c i x = Some (low, high)"
proof -
  from sized_addr(1) [OF assms] obtain a where "ctr_addr c i x = Some a" by blast
  then show ?thesis by (cases "rdmsr c a x") (simp add: CTR_READ_def)
qed

lemma ctrl_modify_frame:
  assumes "msrs_sized m n c x" and "i < n"
  shows "\<exists>ms. ctrl_modify c f i x = Some (x\<lparr>msr := ms\<rparr>) \<and> only_regs c x (x\<lparr>msr := ms\<rparr>)"
proof -
  from sized_addr(2) [OF assms] obtain a where a: "ctrl_addr c i x = Some a" by blast
  obtain low high where lh: "f (fst (rdmsr c a x)) (snd (rdmsr c a x)) = (low, high)" by fastforce
  from only_regs_wrmsr [OF ctrl_addr_listed [OF a]] a lh show ?thesis
    by (auto simp: ctrl_modify_def CTRL_READ_def CTRL_WRITE_def wrmsr_def split: prod.splits)
qed

text \<open>A loop whose rounds keep a condition on the model's variables.\<close>

lemma reg_loop:
  assumes "\<And>i x. i \<in> set js \<Longrightarrow> Q x \<Longrightarrow> msrs_sized m n c x \<Longrightarrow>
      \<exists>x'. f i x = Some x' \<and> Q x' \<and> only_regs c x x' \<and> apic x' = apic x"
    and "Q x" and "msrs_sized m n c x"
  shows "\<exists>x'. for_each f js x = Some x' \<and> Q x' \<and> only_regs c x x' \<and> apic x' = apic x \<and>
    msrs_sized m n c x'"
proof (rule for_each_invariant [where
      I = "\<lambda>x'. Q x' \<and> only_regs c x x' \<and> apic x' = apic x \<and> msrs_sized m n c x'"])
  show "Q x \<and> only_regs c x x \<and> apic x = apic x \<and> msrs_sized m n c x" using assms(2,3) by simp
  fix i y
  assume i: "i \<in> set js" and y: "Q y \<and> only_regs c x y \<and> apic y = apic x \<and> msrs_sized m n c y"
  with assms(1) [OF i, of y] obtain z where "f i y = Some z" "Q z" "only_regs c y z" "apic z = apic y"
    by blast
  with y show "\<exists>x'. f i y = Some x' \<and> Q x' \<and> only_regs c x x' \<and> apic x' = apic x \<and> msrs_sized m n c x'"
    using only_regs_trans [of c x y z] sized_only_regs [of c y z] by simp
qed

lemma ctrl_loop:
  assumes "\<And>x ms. Q x \<Longrightarrow> Q (x\<lparr>msr := ms\<rparr>)" and "\<forall>i \<in> set js. i < n"
    and "Q x" and "msrs_sized m n c x"
  shows "\<exists>x'. for_each (ctrl_modify c f) js x = Some x' \<and> Q x' \<and> only_regs c x x' \<and> apic x' = apic x \<and>
    msrs_sized m n c x'"
proof (rule reg_loop [where Q = Q, OF _ assms(3,4)])
  fix i x assume "i \<in> set js" "Q x" "msrs_sized m n c x"
  with ctrl_modify_frame [of m n c x i f] assms(1,2)
  show "\<exists>x'. ctrl_modify c f i x = Some x' \<and> Q x' \<and> only_regs c x x' \<and> apic x' = apic x" by auto
qed

lemma ctr_loop:
  assumes "\<And>x ms. Q x \<Longrightarrow> Q (x\<lparr>msr := ms\<rparr>)" and "\<forall>i \<in> set js. i < m"
    and "Q x" and "msrs_sized m n c x"
  shows "\<exists>x'. for_each (CTR_WRITE l c) js x = Some x' \<and> Q x' \<and> only_regs c x x' \<and> apic x' = apic x \<and>
    msrs_sized m n c x'"
proof (rule reg_loop [where Q = Q, OF _ assms(3,4)])
  fix i x assume "i \<in> set js" "Q x" "msrs_sized m n c x"
  with ctr_write_frame [of m n c x i l] assms(1,2)
  show "\<exists>x'. CTR_WRITE l c i x = Some x' \<and> Q x' \<and> only_regs c x x' \<and> apic x' = apic x" by auto
qed

text \<open>The sample that a handler logs for a counter keeps the ring usable.\<close>

lemma counter_sample_keeps:
  assumes "ring_ok (cpu_buffer k c)" and "sampler_ok sp"
  shows "\<exists>b'. add_counter_sample sp c t start stop i k = Some (k\<lparr>cpu_buffer := (cpu_buffer k)(c := b')\<rparr>) \<and>
    ring_keeps (cpu_buffer k c) b'"
proof -
  from handle_keeps [OF assms(1), of "H_sample_start start"] obtain b1 where
    b1: "oprofile_add_sample_start start (cpu_buffer k c) = Some b1" "ring_keeps (cpu_buffer k c) b1"
    by auto
  then have "ring_ok b1" by (simp add: ring_keeps_def)
  from handle_keeps [OF this, of "H_sample_stop stop"] obtain b2 where
    b2: "oprofile_add_sample_stop stop b1 = Some b2" "ring_keeps b1 b2" by auto
  then have "ring_ok b2" by (simp add: ring_keeps_def)
  from take_sample_keeps [OF this assms(2)] obtain b3 where
    "take_sample sp (nmi_task t) (Some (nmi_regs t)) (of_nat i) b2 = Some b3" "ring_keeps b2 b3" by blast
  with b1 b2 show ?thesis
    by (auto simp: add_counter_sample_def on_cpu_def intro: ring_keeps_trans)
qed

section \<open>What a handler does\<close>

text \<open>Where an operation runs on the kernel state: only the ring of CPU \<open>c\<close> and the x86 state
  may change, and the ring stays usable.\<close>

definition only_cpu ::
  "nat \<Rightarrow> 'h nmi_kstate_scheme \<Rightarrow> 'h nmi_kstate_scheme \<Rightarrow> bool" where
  "only_cpu c k k' \<longleftrightarrow> ring_keeps (cpu_buffer k c) (cpu_buffer k' c) \<and>
     k' = k\<lparr>cpu_buffer := (cpu_buffer k)(c := cpu_buffer k' c), x86 := x86 k'\<rparr>"

lemma only_cpu_trans:
  assumes "only_cpu c k k1" and "only_cpu c k1 k2"
  shows "only_cpu c k k2"
proof -
  obtain b1 x1 where 1: "k1 = k\<lparr>cpu_buffer := (cpu_buffer k)(c := b1), x86 := x1\<rparr>"
    "ring_keeps (cpu_buffer k c) b1" using assms(1) unfolding only_cpu_def by blast
  obtain b2 x2 where 2: "k2 = k1\<lparr>cpu_buffer := (cpu_buffer k1)(c := b2), x86 := x2\<rparr>"
    "ring_keeps (cpu_buffer k1 c) b2" using assms(2) unfolding only_cpu_def by blast
  have "k2 = k\<lparr>cpu_buffer := (cpu_buffer k)(c := b2), x86 := x2\<rparr>"
    using 1(1) 2(1) by simp
  moreover have "ring_keeps (cpu_buffer k c) b2"
    using 1(2) 2(2) unfolding 1(1) by (auto intro: ring_keeps_trans)
  ultimately show ?thesis by (simp add: only_cpu_def)
qed

text \<open>What every part of a handler keeps; \<open>Q\<close> is what the model needs of its variables.\<close>

definition handler_keeps ::
  "(x86_state \<Rightarrow> bool) \<Rightarrow> nat \<Rightarrow> nat \<Rightarrow> nat \<Rightarrow> 'h nmi_kstate_scheme \<Rightarrow> 'h nmi_kstate_scheme \<Rightarrow> bool" where
  "handler_keeps Q m n c k k' \<longleftrightarrow> Q (x86 k') \<and> msrs_sized m n c (x86 k') \<and> ring_ok (cpu_buffer k' c) \<and>
     only_regs c (x86 k) (x86 k') \<and> only_cpu c k k'"

lemma handler_keeps_refl:
  "Q (x86 k) \<Longrightarrow> msrs_sized m n c (x86 k) \<Longrightarrow> ring_ok (cpu_buffer k c) \<Longrightarrow> handler_keeps Q m n c k k"
  by (simp add: handler_keeps_def only_cpu_def ring_keeps_def)

lemma handler_keeps_trans:
  "handler_keeps Q m n c k k1 \<Longrightarrow> handler_keeps Q m n c k1 k2 \<Longrightarrow> handler_keeps Q m n c k k2"
  unfolding handler_keeps_def using only_regs_trans only_cpu_trans by blast

lemma handler_x86:
  assumes "handler_keeps Q m n c k0 k" and "Q x'" and "only_regs c (x86 k) x'"
  shows "handler_keeps Q m n c k0 (k\<lparr>x86 := x'\<rparr>)"
proof -
  have "handler_keeps Q m n c k (k\<lparr>x86 := x'\<rparr>)"
    using assms sized_only_regs [OF assms(3)]
    by (simp add: handler_keeps_def only_cpu_def ring_keeps_def)
  with assms(1) show ?thesis by (rule handler_keeps_trans)
qed

lemma handler_sample:
  assumes "handler_keeps Q m n c k0 k" and "sampler_ok sp"
  shows "\<exists>k'. add_counter_sample sp c t start stop i k = Some k' \<and> handler_keeps Q m n c k0 k' \<and>
    x86 k' = x86 k"
proof -
  have k: "ring_ok (cpu_buffer k c)" "Q (x86 k)" "msrs_sized m n c (x86 k)"
    using assms(1) by (simp_all add: handler_keeps_def)
  from counter_sample_keeps [OF k(1) assms(2), of t start stop i] obtain b where
    b: "add_counter_sample sp c t start stop i k = Some (k\<lparr>cpu_buffer := (cpu_buffer k)(c := b)\<rparr>)"
    "ring_keeps (cpu_buffer k c) b" by blast
  have "handler_keeps Q m n c k (k\<lparr>cpu_buffer := (cpu_buffer k)(c := b)\<rparr>)"
    using b(2) k by (simp add: handler_keeps_def only_cpu_def ring_keeps_def)
  with assms(1) b(1) show ?thesis by (auto intro: handler_keeps_trans)
qed

lemma handler_loop:
  assumes "handler_keeps Q m n c k0 k" and "\<And>i k. i \<in> set js \<Longrightarrow> handler_keeps Q m n c k0 k \<Longrightarrow>
      \<exists>k'. f i k = Some k' \<and> handler_keeps Q m n c k0 k'"
  shows "\<exists>k'. for_each f js k = Some k' \<and> handler_keeps Q m n c k0 k'"
  using assms by (rule for_each_invariant)

end
