(* ===== verification/Oprofilefs.thy ===== *)
theory Oprofilefs
  imports Oprof
begin

text \<open>
  \<^verbatim>\<open>driver/oprofilefs.c\<close>: the control file system through which the daemon reads and writes
  the driver's numbers, with the statistics files of \<^verbatim>\<open>driver/oprofile_stats.c\<close>. The text of
  a number is that of \<^verbatim>\<open>snprintf\<close>; the kernel's \<^verbatim>\<open>simple_strtoul\<close> and
  \<^verbatim>\<open>simple_read_from_buffer\<close> are parameters, and what is assumed of them is stated where it
  is used.
\<close>

section \<open>Decimal text\<close>

definition digit :: "nat \<Rightarrow> char" where
  "digit d = char_of (48 + d)"

fun dec :: "nat \<Rightarrow> string" where
  "dec n = (if n < 10 then [digit n] else dec (n div 10) @ [digit (n mod 10)])"

declare dec.simps [simp del]

abbreviation NUL :: char where "NUL \<equiv> CHR 0x00"
abbreviation NEWLINE :: char where "NEWLINE \<equiv> CHR 0x0A"

definition is_digit :: "char \<Rightarrow> bool" where
  "is_digit c \<longleftrightarrow> 48 \<le> (of_char c :: nat) \<and> (of_char c :: nat) \<le> 57"

definition digits_value :: "string \<Rightarrow> nat" where
  "digits_value s = fold (\<lambda>c a. 10 * a + (of_char c - 48)) (takeWhile is_digit s) 0"

lemma digit_simps:
  assumes "d < 10"
  shows "is_digit (digit d)" "of_char (digit d) - (48 :: nat) = d" "digit d \<noteq> NUL"
proof -
  have c: "of_char (digit d) = 48 + d" using assms by (simp add: digit_def)
  then show "is_digit (digit d)" "of_char (digit d) - (48 :: nat) = d"
    using assms by (simp_all add: is_digit_def)
  show "digit d \<noteq> NUL"
  proof
    assume "digit d = NUL"
    then have "(of_char (digit d) :: nat) = of_char NUL" by simp
    with c show False by simp
  qed
qed

lemma dec_digits: "\<forall>c \<in> set (dec n). is_digit c \<and> c \<noteq> NUL"
  by (induction n rule: dec.induct) (subst dec.simps, auto simp: digit_simps)

lemma dec_value: "fold (\<lambda>c a. 10 * a + (of_char c - 48)) (dec n) 0 = n"
  by (induction n rule: dec.induct) (subst dec.simps, auto simp: digit_simps)

lemma digits_value_dec:
  assumes "rest = [] \<or> \<not> is_digit (hd rest)"
  shows "digits_value (dec n @ rest) = n"
proof -
  have "takeWhile is_digit rest = []" using assms by (cases rest) auto
  then have "takeWhile is_digit (dec n @ rest) = dec n"
    using dec_digits [of n] by (subst takeWhile_append2) auto
  then show ?thesis by (simp add: digits_value_def dec_value)
qed

lemma dec_nonempty: "dec n \<noteq> []"
  by (subst dec.simps) simp

lemma length_dec: "n < 10 ^ Suc k \<Longrightarrow> length (dec n) \<le> Suc k"
proof (induction k arbitrary: n)
  case 0
  then show ?case by (simp add: dec.simps [of n])
next
  case (Suc k)
  then have "n div 10 < 10 ^ Suc k" by (simp add: div_less_iff_less_mult mult.commute)
  from Suc.IH [OF this] show ?case by (simp add: dec.simps [of n])
qed

section \<open>Numbers to and from user space\<close>

definition TMPBUFSIZE :: nat where "TMPBUFSIZE = 50"

text \<open>
  \<^verbatim>\<open>simple_read_from_buffer\<close> takes the number of bytes asked for, the file position and the
  text, and returns an error or the bytes delivered with the new position.
\<close>

type_synonym read_from_buffer = "nat \<Rightarrow> nat \<Rightarrow> string \<Rightarrow> errno + (string \<times> nat)"

definition oprofilefs_str_to_user ::
  "read_from_buffer \<Rightarrow> string \<Rightarrow> nat \<Rightarrow> nat \<Rightarrow> errno + (string \<times> nat)" where
  "oprofilefs_str_to_user read_buf str count off = read_buf count off str"

text \<open>
  \<^verbatim>\<open>snprintf(tmpbuf, TMPBUFSIZE, "%lu\n", val)\<close> writes at most \<open>TMPBUFSIZE - 1\<close> characters and
  a \<open>NUL\<close>, and returns the length of the untruncated text.
\<close>

definition oprofilefs_ulong_to_user ::
  "read_from_buffer \<Rightarrow> ulong \<Rightarrow> nat \<Rightarrow> nat \<Rightarrow> errno + (string \<times> nat)" where
  "oprofilefs_ulong_to_user read_buf val count off =
     (let text = dec (unat val) @ [NEWLINE];
          tmpbuf = take (TMPBUFSIZE - 1) text @ [NUL];
          maxlen = (if length text > TMPBUFSIZE then TMPBUFSIZE else length text)
      in read_buf count off (take maxlen tmpbuf))"

text \<open>
  \<^verbatim>\<open>oprofilefs_ulong_from_user\<close>: \<open>user\<close> is what \<^verbatim>\<open>copy_from_user\<close> delivers of the user's
  memory, \<open>None\<close> if it is not readable. The result also tells what \<^verbatim>\<open>*val\<close> holds after the
  call: it is \<open>old\<close>, whatever was there, unless a number was read. \<open>strtoul\<close> is
  \<^verbatim>\<open>simple_strtoul\<close> with base 0, applied to the zero-terminated text.
\<close>

definition oprofilefs_ulong_from_user ::
  "(string \<Rightarrow> ulong) \<Rightarrow> string option \<Rightarrow> nat \<Rightarrow> ulong \<Rightarrow> rc \<times> ulong" where
  "oprofilefs_ulong_from_user strtoul user count old =
     (if count = 0 then (rc_ok, old)
      else if count > TMPBUFSIZE - 1 then (Inl EINVAL, old)
      else
        case user of
          None \<Rightarrow> (Inl EFAULT, old)
        | Some bytes \<Rightarrow> (rc_ok, strtoul (takeWhile (\<lambda>c. c \<noteq> NUL) (take count bytes))))"

text \<open>A write request, and the results of handlers that return the count on success.\<close>

record write_request =
  w_user :: "string option"
  w_count :: nat
  w_offset :: int

definition count_or_error :: "rc \<Rightarrow> nat \<Rightarrow> errno + nat" where
  "count_or_error r count = (case r of Inl err \<Rightarrow> Inl err | Inr _ \<Rightarrow> Inr count)"

definition ulong_read_file ::
  "read_from_buffer \<Rightarrow> ulong \<Rightarrow> nat \<Rightarrow> nat \<Rightarrow> errno + (string \<times> nat)" where
  "ulong_read_file read_buf val count off = oprofilefs_ulong_to_user read_buf val count off"

text \<open>\<open>stack\<close> is what the uninitialised local variable \<^verbatim>\<open>value\<close> holds.\<close>

definition ulong_write_file ::
  "(string \<Rightarrow> ulong) \<Rightarrow> ulong \<Rightarrow> (ulong \<Rightarrow> ('h, 'r) driver \<Rightarrow> ('h, 'r) driver) \<Rightarrow> write_request \<Rightarrow>
   ('h, 'r) driver \<Rightarrow> (errno + nat) \<times> ('h, 'r) driver" where
  "ulong_write_file strtoul stack upd w d =
     (if w_offset w \<noteq> 0 then (Inl EINVAL, d)
      else
        let (r, value) = oprofilefs_ulong_from_user strtoul (w_user w) (w_count w) stack
        in case r of
             Inl err \<Rightarrow> (Inl err, d)
           | Inr _ \<Rightarrow>
               let (r, d) = oprofile_set_ulong upd value d
               in (count_or_error r (w_count w), d))"

text \<open>An \<^verbatim>\<open>atomic_t\<close> is a signed 32-bit value that is converted to \<^verbatim>\<open>unsigned long\<close>.\<close>

definition atomic_read_file ::
  "read_from_buffer \<Rightarrow> u32 \<Rightarrow> nat \<Rightarrow> nat \<Rightarrow> errno + (string \<times> nat)" where
  "atomic_read_file read_buf val count off = oprofilefs_ulong_to_user read_buf (scast val) count off"

section \<open>Files\<close>

text \<open>The file operations of the driver, and the inodes of the file system.\<close>

datatype fops =
    enable_fops | dump_fops | event_buffer_fops | ulong_fops | ulong_ro_fops | atomic_ro_fops
  | cpu_type_fops | depth_fops | pointer_size_fops | oprofile_timer_count_fops | timer_freq_fops
  | user_freq_fops | cpu_khz_fops | num_counters_fops | adapt_fops | debug_fops | idle_poll_fops

datatype inode =
    Dir "string list"
  | File "string list" fops nat "string option"

fun inode_path :: "inode \<Rightarrow> string" where
  "inode_path (Dir path) = concat (map (\<lambda>s. CHR ''/'' # s) path)"
| "inode_path (File path _ _ _) = concat (map (\<lambda>s. CHR ''/'' # s) path)"

text \<open>
  \<^verbatim>\<open>__oprofilefs_create_file\<close> in the directory \<open>dir\<close>, with the permissions in octal notation and
  the name of the variable that is the file's private data. \<open>alloc\<close> tells whether the directory
  entry and the inode can be allocated.
\<close>

definition oprofilefs_create_file_priv ::
  "(string list \<Rightarrow> bool \<times> bool) \<Rightarrow> string list \<Rightarrow> string \<Rightarrow> fops \<Rightarrow> nat \<Rightarrow> string option \<Rightarrow>
   inode list \<Rightarrow> rc \<times> inode list" where
  "oprofilefs_create_file_priv alloc dir name fo perm priv fs =
     (case alloc (dir @ [name]) of
        (False, _) \<Rightarrow> (Inl ENOMEM, fs)
      | (True, False) \<Rightarrow> (Inl ENOMEM, fs)
      | (True, True) \<Rightarrow> (rc_ok, fs @ [File (dir @ [name]) fo perm priv]))"

definition oprofilefs_create_ulong ::
  "(string list \<Rightarrow> bool \<times> bool) \<Rightarrow> string list \<Rightarrow> string \<Rightarrow> string \<Rightarrow> inode list \<Rightarrow> rc \<times> inode list"
where
  "oprofilefs_create_ulong alloc dir name var =
     oprofilefs_create_file_priv alloc dir name ulong_fops 644 (Some var)"

definition oprofilefs_create_ro_ulong ::
  "(string list \<Rightarrow> bool \<times> bool) \<Rightarrow> string list \<Rightarrow> string \<Rightarrow> string \<Rightarrow> inode list \<Rightarrow> rc \<times> inode list"
where
  "oprofilefs_create_ro_ulong alloc dir name var =
     oprofilefs_create_file_priv alloc dir name ulong_ro_fops 444 (Some var)"

definition oprofilefs_create_ro_atomic ::
  "(string list \<Rightarrow> bool \<times> bool) \<Rightarrow> string list \<Rightarrow> string \<Rightarrow> string \<Rightarrow> inode list \<Rightarrow> rc \<times> inode list"
where
  "oprofilefs_create_ro_atomic alloc dir name var =
     oprofilefs_create_file_priv alloc dir name atomic_ro_fops 444 (Some var)"

definition oprofilefs_create_file ::
  "(string list \<Rightarrow> bool \<times> bool) \<Rightarrow> string list \<Rightarrow> string \<Rightarrow> fops \<Rightarrow> inode list \<Rightarrow> rc \<times> inode list"
where
  "oprofilefs_create_file alloc dir name fo =
     oprofilefs_create_file_priv alloc dir name fo 644 None"

definition oprofilefs_create_file_perm ::
  "(string list \<Rightarrow> bool \<times> bool) \<Rightarrow> string list \<Rightarrow> string \<Rightarrow> fops \<Rightarrow> nat \<Rightarrow> inode list \<Rightarrow>
   rc \<times> inode list" where
  "oprofilefs_create_file_perm alloc dir name fo perm =
     oprofilefs_create_file_priv alloc dir name fo perm None"

text \<open>\<^verbatim>\<open>oprofilefs_mkdir\<close>; the result is the new directory or \<^verbatim>\<open>NULL\<close>.\<close>

definition oprofilefs_mkdir ::
  "(string list \<Rightarrow> bool \<times> bool) \<Rightarrow> string list \<Rightarrow> string \<Rightarrow> inode list \<Rightarrow>
   string list option \<times> inode list" where
  "oprofilefs_mkdir alloc dir name fs =
     (case alloc (dir @ [name]) of
        (True, True) \<Rightarrow> (Some (dir @ [name]), fs @ [Dir (dir @ [name])])
      | _ \<Rightarrow> (None, fs))"

section \<open>Statistics files\<close>

text \<open>
  \<^verbatim>\<open>oprofile_create_stats_files\<close>: a directory per possible CPU; creating a file in a directory
  that could not be made dereferences a null pointer. The private data of a file is written as
  the C expression of the variable.
\<close>

definition create_cpu_stats ::
  "(string list \<Rightarrow> bool \<times> bool) \<Rightarrow> string list \<Rightarrow> nat \<Rightarrow> inode list \<Rightarrow> inode list option" where
  "create_cpu_stats alloc dir i fs =
     (case oprofilefs_mkdir alloc dir (take 9 (''cpu'' @ dec i)) fs of
        (None, fs) \<Rightarrow> None
      | (Some cpudir, fs) \<Rightarrow>
          Some (fold (\<lambda>name fs. snd (oprofilefs_create_ro_ulong alloc cpudir name
                          (''cpu_buffer['' @ dec i @ ''].'' @ name) fs))
            [''sample_received'', ''sample_lost_overflow'', ''backtrace_aborted'',
             ''sample_invalid_eip''] fs))"

definition oprofile_create_stats_files ::
  "(string list \<Rightarrow> bool \<times> bool) \<Rightarrow> nat list \<Rightarrow> string list \<Rightarrow> inode list \<Rightarrow> inode list option" where
  "oprofile_create_stats_files alloc possible root fs =
     (case oprofilefs_mkdir alloc root ''stats'' fs of
        (None, fs) \<Rightarrow> Some fs
      | (Some dir, fs) \<Rightarrow>
          do { fs \<leftarrow> for_each (create_cpu_stats alloc dir) possible fs;
               Some (fold (\<lambda>name fs. snd (oprofilefs_create_ro_atomic alloc dir name
                               (''oprofile_stats.'' @ name) fs))
                 [''sample_lost_no_mm'', ''sample_lost_no_mapping'', ''event_lost_overflow'',
                  ''bt_lost_no_mapping''] fs) })"

section \<open>Properties\<close>

text \<open>What is assumed of \<^verbatim>\<open>simple_strtoul\<close>: it reads decimal text up to the first character that
  is no digit, text of one digit 0 included.\<close>

definition reads_decimal :: "(string \<Rightarrow> ulong) \<Rightarrow> bool" where
  "reads_decimal strtoul \<longleftrightarrow> (\<forall>n rest. n < 2 ^ 64 \<longrightarrow> rest = [] \<or> hd rest = NEWLINE \<longrightarrow>
     strtoul (dec n @ rest) = of_nat n)"

text \<open>What is assumed of \<^verbatim>\<open>simple_read_from_buffer\<close>: a read at the start that asks for enough
  delivers the text.\<close>

definition delivers :: "read_from_buffer \<Rightarrow> bool" where
  "delivers read_buf \<longleftrightarrow> (\<forall>count str. length str \<le> count \<longrightarrow>
     read_buf count 0 str = Inr (str, length str))"

lemma ulong_text_fits: "length (dec (unat (val :: ulong)) @ [NEWLINE]) \<le> 21"
proof -
  have "unat val < 2 ^ 64" by (rule unat_ulong_bound)
  then have "unat val < 10 ^ Suc 19" by simp
  from length_dec [OF this] show ?thesis by simp
qed

lemma ulong_to_user_text:
  "oprofilefs_ulong_to_user read_buf val count off =
     read_buf count off (dec (unat val) @ [NEWLINE])"
proof -
  have "length (dec (unat val)) \<le> 20" using ulong_text_fits [of val] by simp
  then show ?thesis by (simp add: oprofilefs_ulong_to_user_def TMPBUFSIZE_def Let_def)
qed

text \<open>A number read through the control file system and written back is the same number: the
  text is never truncated, and what the read delivers is what the write accepts.\<close>

theorem ulong_user_roundtrip:
  assumes "reads_decimal strtoul" and "delivers read_buf" and "21 \<le> count"
  shows "\<exists>text pos. oprofilefs_ulong_to_user read_buf val count 0 = Inr (text, pos) \<and>
    oprofilefs_ulong_from_user strtoul (Some text) (length text) old = (rc_ok, val)"
proof -
  let ?text = "dec (unat val) @ [NEWLINE]"
  have len: "length ?text \<le> 21" by (rule ulong_text_fits)
  have "takeWhile (\<lambda>c. c \<noteq> NUL) ?text = ?text"
    using dec_digits [of "unat val"] by (intro takeWhile_eq_all_conv [THEN iffD2]) auto
  moreover have "strtoul ?text = val"
    using assms(1) unat_ulong_bound [of val] by (simp add: reads_decimal_def)
  ultimately show ?thesis
    using assms(2,3) len
    by (auto simp: ulong_to_user_text delivers_def oprofilefs_ulong_from_user_def TMPBUFSIZE_def)
qed

text \<open>A write of no bytes to a file that holds a number succeeds and stores whatever the
  kernel stack held: the number is taken from a variable that was never assigned.\<close>

theorem empty_write_stores_stack_content:
  assumes "w_offset w = 0" and "w_count w = 0" and "\<not> oprofile_started d"
  shows "ulong_write_file strtoul stack upd w d = (Inr 0, upd stack d)"
  using assms
  by (simp add: ulong_write_file_def oprofilefs_ulong_from_user_def oprofile_set_ulong_def
      count_or_error_def)

text \<open>While profiling runs, no write to a file that holds a number changes the setting: it
  fails with \<^verbatim>\<open>-EINVAL\<close>, \<^verbatim>\<open>-EFAULT\<close> or \<^verbatim>\<open>-EBUSY\<close> and leaves the driver as it is.\<close>

theorem ulong_write_while_started:
  assumes "oprofile_started d"
  shows "\<exists>err \<in> {EINVAL, EFAULT, EBUSY}. ulong_write_file strtoul stack upd w d = (Inl err, d)"
  using assms
  by (auto simp: ulong_write_file_def oprofilefs_ulong_from_user_def oprofile_set_ulong_def
      count_or_error_def Let_def split: option.split)

end
