(* ===== verification/Nmi_Int.thy ===== *)
theory Nmi_Int
  imports X86_Machine Oprofilefs
begin

text \<open>
  \<^verbatim>\<open>x86/nmi_int.c\<close>: the back end that samples from the performance counters of x86 processors,
  by non-maskable interrupts. Its operations are written over a counter model
  (\<^verbatim>\<open>struct op_x86_model_spec\<close>) \<open>M\<close>; what they rely on is the contract \<open>x86_model\<close>. A function
  that the code runs with \<^verbatim>\<open>on_each_cpu\<close> takes the CPU it runs on as an argument. Configuration:
  \<^verbatim>\<open>CONFIG_PM\<close>, kernels from 3.2 on.
\<close>

section \<open>Counter models\<close>

text \<open>
  \<^verbatim>\<open>struct op_x86_model_spec\<close>. The functions find the structures of their CPU by its number;
  \<open>check_ctrs\<close> always returns 1, so its result is left out. The numbers of counters and
  controls of the architectural model are variables.
\<close>

record ('h, 'r) op_x86_model_spec =
  num_counters :: "x86_state \<Rightarrow> u32"
  num_controls :: "x86_state \<Rightarrow> u32"
  spec_init :: "(x86_state \<Rightarrow> rc \<times> x86_state) option"
  spec_exit :: "(x86_state \<Rightarrow> x86_state) option"
  fill_in_addresses :: "nat \<Rightarrow> x86_state \<Rightarrow> x86_state option"
  setup_ctrs :: "nat \<Rightarrow> x86_state \<Rightarrow> x86_state option"
  check_ctrs :: "'r sampler \<Rightarrow> nat \<Rightarrow> 'r nmi \<Rightarrow> 'h nmi_kstate_scheme \<Rightarrow> 'h nmi_kstate_scheme option"
  spec_start :: "u64 \<Rightarrow> nat \<Rightarrow> x86_state \<Rightarrow> x86_state option"
  spec_stop :: "nat \<Rightarrow> x86_state \<Rightarrow> x86_state option"
  spec_shutdown :: "(nat \<Rightarrow> x86_state \<Rightarrow> x86_state option) option"

text \<open>
  What the kernel and the hardware provide: the contents of newly allocated structures, the
  result of registering the handler, the clocks that the starting and stopping functions read
  on each CPU, and two constants of the APIC.
\<close>

record x86_hw =
  kmalloc_counters :: "nat \<Rightarrow> nat \<Rightarrow> op_msr list option"
  kmalloc_controls :: "nat \<Rightarrow> nat \<Rightarrow> op_msr list option"
  register_nmi_handler :: rc
  start_tb :: "nat \<Rightarrow> u64"
  model_tb :: "nat \<Rightarrow> u64"
  stop_tb :: "nat \<Rightarrow> u64"
  APIC_DM_NMI :: u32
  APIC_LVT_MASKED :: u32

section \<open>Saving and restoring registers\<close>

text \<open>The loops over the first \<open>n\<close> elements of an array, which is not read when \<open>n = 0\<close>.\<close>

definition map_array :: "nat \<Rightarrow> ('a \<Rightarrow> 'a) \<Rightarrow> 'a list option \<Rightarrow> 'a list option option" where
  "map_array n f arr =
     (if n = 0 then Some arr
      else case arr of None \<Rightarrow> None
         | Some xs \<Rightarrow> if length xs < n then None else Some (Some (map f (take n xs) @ drop n xs)))"

definition for_array :: "nat \<Rightarrow> ('a \<Rightarrow> 's \<Rightarrow> 's) \<Rightarrow> 'a list option \<Rightarrow> 's \<Rightarrow> 's option" where
  "for_array n f arr s =
     (if n = 0 then Some s
      else case arr of None \<Rightarrow> None
         | Some xs \<Rightarrow> if length xs < n then None else Some (fold f (take n xs) s))"

definition save_entry :: "nat \<Rightarrow> x86_state \<Rightarrow> op_msr \<Rightarrow> op_msr" where
  "save_entry c x m =
     (if addr m \<noteq> 0
      then let (low, high) = rdmsr c (addr m) x
           in m\<lparr>saved := \<lparr>saved_high = high, saved_low = low\<rparr>\<rparr>
      else m)"

definition set_msrs :: "nat \<Rightarrow> op_msrs \<Rightarrow> x86_state \<Rightarrow> x86_state" where
  "set_msrs c ms x = x\<lparr>cpu_msrs := (cpu_msrs x)(c := ms)\<rparr>"

definition nmi_cpu_save_registers ::
  "('h, 'r) op_x86_model_spec \<Rightarrow> nat \<Rightarrow> x86_state \<Rightarrow> x86_state option" where
  "nmi_cpu_save_registers M c x =
     do { cs \<leftarrow> map_array (unat (num_counters M x)) (save_entry c x) (counters (cpu_msrs x c));
          ds \<leftarrow> map_array (unat (num_controls M x)) (save_entry c x) (controls (cpu_msrs x c));
          Some (set_msrs c \<lparr>counters = cs, controls = ds\<rparr> x) }"

definition nmi_save_registers ::
  "('h, 'r) op_x86_model_spec \<Rightarrow> nat \<Rightarrow> x86_state \<Rightarrow> x86_state option" where
  "nmi_save_registers M c x = do { x \<leftarrow> fill_in_addresses M c x; nmi_cpu_save_registers M c x }"

definition restore_entry :: "nat \<Rightarrow> op_msr \<Rightarrow> x86_state \<Rightarrow> x86_state" where
  "restore_entry c m x =
     (if addr m \<noteq> 0 then wrmsr c (addr m) (saved_low (saved m)) (saved_high (saved m)) x else x)"

definition nmi_restore_registers ::
  "('h, 'r) op_x86_model_spec \<Rightarrow> nat \<Rightarrow> x86_state \<Rightarrow> x86_state option" where
  "nmi_restore_registers M c x =
     do { y \<leftarrow> for_array (unat (num_controls M x)) (restore_entry c) (controls (cpu_msrs x c)) x;
          for_array (unat (num_counters M x)) (restore_entry c) (counters (cpu_msrs x c)) y }"

text \<open>\<open>arr[i].addr = a\<close>\<close>

definition set_addr :: "nat \<Rightarrow> u32 \<Rightarrow> op_msr list option \<Rightarrow> op_msr list option option" where
  "set_addr i a arr = map_option (\<lambda>e. map_option (\<lambda>xs. xs[i := e\<lparr>addr := ucast a\<rparr>]) arr) (elem arr i)"

section \<open>Allocation\<close>

definition free_msrs :: "nat list \<Rightarrow> x86_state \<Rightarrow> x86_state" where
  "free_msrs possible x = fold (\<lambda>i. set_msrs i \<lparr>counters = None, controls = None\<rparr>) possible x"

text \<open>The loop of \<^verbatim>\<open>allocate_msrs\<close>, which stops at the first failure.\<close>

fun allocate_loop :: "x86_hw \<Rightarrow> nat \<Rightarrow> nat \<Rightarrow> nat list \<Rightarrow> x86_state \<Rightarrow> bool \<times> x86_state" where
  "allocate_loop H m n [] x = (True, x)"
| "allocate_loop H m n (i # is) x =
     (let x = set_msrs i ((cpu_msrs x i)\<lparr>counters := kmalloc_counters H i m\<rparr>) x
      in if counters (cpu_msrs x i) = None then (False, x)
         else let x = set_msrs i ((cpu_msrs x i)\<lparr>controls := kmalloc_controls H i n\<rparr>) x
              in if controls (cpu_msrs x i) = None then (False, x)
                 else allocate_loop H m n is x)"

definition allocate_msrs ::
  "x86_hw \<Rightarrow> ('h, 'r) op_x86_model_spec \<Rightarrow> nat list \<Rightarrow> x86_state \<Rightarrow> bool \<times> x86_state" where
  "allocate_msrs H M possible x =
     (let (success, x) = allocate_loop H (unat (num_counters M x)) (unat (num_controls M x)) possible x
      in if \<not> success then (success, free_msrs possible x) else (success, x))"

section \<open>Setup and shutdown\<close>

definition nmi_cpu_setup ::
  "x86_hw \<Rightarrow> ('h, 'r) op_x86_model_spec \<Rightarrow> nat \<Rightarrow> x86_state \<Rightarrow> x86_state option" where
  "nmi_cpu_setup H M c x =
     do { x \<leftarrow> setup_ctrs M c x;
          let x = x\<lparr>saved_lvtpc := (saved_lvtpc x)(c := ucast (apic_read c APIC_LVTPC x))\<rparr>
          in Some (apic_write c APIC_LVTPC (APIC_DM_NMI H) x) }"

definition nmi_setup ::
  "x86_hw \<Rightarrow> ('h, 'r) op_x86_model_spec \<Rightarrow> kernel_env \<Rightarrow> x86_state \<Rightarrow> (rc \<times> x86_state) option" where
  "nmi_setup H M env x =
     (let (success, x) = allocate_msrs H M (possible_cpus env) x
      in if \<not> success then Some (Inl ENOMEM, x)
         else
           let x = x\<lparr>nmi_enabled := False, nmi_ctr_running := False\<rparr>
           in case register_nmi_handler H of
                Inl err \<Rightarrow> Some (Inl err, free_msrs (possible_cpus env) x)
              | Inr _ \<Rightarrow>
                  do { x \<leftarrow> for_each (nmi_save_registers M) (online_cpus env) (x\<lparr>nmi_handler := True\<rparr>);
                       x \<leftarrow> for_each (nmi_cpu_setup H M) (online_cpus env) x;
                       Some (rc_ok, x\<lparr>nmi_enabled := True\<rparr>) })"

definition nmi_cpu_shutdown ::
  "x86_hw \<Rightarrow> ('h, 'r) op_x86_model_spec \<Rightarrow> nat \<Rightarrow> x86_state \<Rightarrow> x86_state option" where
  "nmi_cpu_shutdown H M c x =
     (let v = apic_read c APIC_LVTERR x;
          x = apic_write c APIC_LVTERR (v OR APIC_LVT_MASKED H) x;
          x = apic_write c APIC_LVTPC (ucast (saved_lvtpc x c)) x;
          x = apic_write c APIC_LVTERR v x
      in do { x \<leftarrow> (case spec_shutdown M of None \<Rightarrow> Some x | Some f \<Rightarrow> f c x);
              nmi_restore_registers M c x })"

definition nmi_shutdown ::
  "x86_hw \<Rightarrow> ('h, 'r) op_x86_model_spec \<Rightarrow> kernel_env \<Rightarrow> x86_state \<Rightarrow> x86_state option" where
  "nmi_shutdown H M env x =
     do { x \<leftarrow> for_each (nmi_cpu_shutdown H M) (online_cpus env)
                 (x\<lparr>poll := disable_poll_idle (poll x), nmi_enabled := False\<rparr>);
          Some (free_msrs (possible_cpus env) (x\<lparr>nmi_handler := False\<rparr>)) }"

section \<open>Start and stop\<close>

definition nmi_cpu_start ::
  "x86_hw \<Rightarrow> ('h, 'r) op_x86_model_spec \<Rightarrow> nat \<Rightarrow> 'h nmi_kstate_scheme \<Rightarrow> 'h nmi_kstate_scheme option"
where
  "nmi_cpu_start H M c k =
     do { k \<leftarrow> on_cpu c (oprofile_add_start (start_tb H c)) k;
          on_x86 (spec_start M (model_tb H c) c) k }"

definition nmi_start ::
  "x86_hw \<Rightarrow> ('h, 'r) op_x86_model_spec \<Rightarrow> kernel_env \<Rightarrow> 'h nmi_kstate_scheme \<Rightarrow>
   (rc \<times> 'h nmi_kstate_scheme) option" where
  "nmi_start H M env k =
     do { k \<leftarrow> for_each (nmi_cpu_start H M) (online_cpus env) (k\<lparr>x86 := (x86 k)\<lparr>nmi_ctr_running := True\<rparr>\<rparr>);
          Some (rc_ok,
            if poll_idle_enabled (poll (x86 k)) \<noteq> 0
            then k\<lparr>x86 := (x86 k)\<lparr>poll := enable_poll_idle (poll (x86 k))\<rparr>\<rparr>
            else k) }"

definition nmi_cpu_stop ::
  "x86_hw \<Rightarrow> ('h, 'r) op_x86_model_spec \<Rightarrow> nat \<Rightarrow> 'h nmi_kstate_scheme \<Rightarrow> 'h nmi_kstate_scheme option"
where
  "nmi_cpu_stop H M c k =
     do { k \<leftarrow> on_x86 (spec_stop M c) k;
          k \<leftarrow> on_cpu c (oprofile_add_stop (stop_tb H c)) k;
          Some (k\<lparr>x86 := (x86 k)\<lparr>poll := disable_poll_idle (poll (x86 k))\<rparr>\<rparr>) }"

definition nmi_stop ::
  "x86_hw \<Rightarrow> ('h, 'r) op_x86_model_spec \<Rightarrow> kernel_env \<Rightarrow> 'h nmi_kstate_scheme \<Rightarrow>
   'h nmi_kstate_scheme option" where
  "nmi_stop H M env k =
     do { k \<leftarrow> for_each (nmi_cpu_stop H M) (online_cpus env) k;
          Some (k\<lparr>x86 := (x86 k)\<lparr>nmi_ctr_running := False\<rparr>\<rparr>) }"

text \<open>Power management; \<^verbatim>\<open>nmi_suspend\<close> and \<^verbatim>\<open>nmi_resume\<close> are registered while the module is loaded.\<close>

definition nmi_suspend ::
  "x86_hw \<Rightarrow> ('h, 'r) op_x86_model_spec \<Rightarrow> kernel_env \<Rightarrow> 'h nmi_kstate_scheme \<Rightarrow>
   'h nmi_kstate_scheme option" where
  "nmi_suspend H M env k = (if nmi_enabled (x86 k) then nmi_stop H M env k else Some k)"

definition nmi_resume ::
  "x86_hw \<Rightarrow> ('h, 'r) op_x86_model_spec \<Rightarrow> kernel_env \<Rightarrow> 'h nmi_kstate_scheme \<Rightarrow>
   'h nmi_kstate_scheme option" where
  "nmi_resume H M env k =
     (if nmi_enabled (x86 k) then map_option snd (nmi_start H M env k) else Some k)"

section \<open>The interrupt\<close>

datatype nmi_result = NMI_DONE | NMI_HANDLED

definition profile_exceptions_notify ::
  "('h, 'r) op_x86_model_spec \<Rightarrow> 'r sampler \<Rightarrow> nat \<Rightarrow> 'r nmi \<Rightarrow> 'h nmi_kstate_scheme \<Rightarrow>
   (nmi_result \<times> 'h nmi_kstate_scheme) option" where
  "profile_exceptions_notify M sp c t k =
     (if nmi_ctr_running (x86 k) then
        do { k \<leftarrow> check_ctrs M sp c t k; Some (NMI_HANDLED, k) }
      else if \<not> nmi_enabled (x86 k) then Some (NMI_DONE, k)
      else do { k \<leftarrow> on_x86 (spec_stop M c) k; Some (NMI_HANDLED, k) })"

section \<open>Adaption\<close>

definition nmi_cpu_adapt ::
  "('h, 'r) op_x86_model_spec \<Rightarrow> nat \<Rightarrow> x86_state \<Rightarrow> x86_state option" where
  "nmi_cpu_adapt M c x = setup_ctrs M c x"

definition nmi_max_counter_value :: ulong where
  "nmi_max_counter_value = 0x7FFFFFFF div ADAPT_DECAY_FACTOR"

definition decay_counter :: "op_counter_config \<Rightarrow> op_counter_config" where
  "decay_counter g =
     (if cc_enabled g \<noteq> 0 then g\<lparr>cc_count := cc_count g * ADAPT_DECAY_FACTOR\<rparr> else g)"

text \<open>The loops read \<^verbatim>\<open>counter_config[i]\<close> for \<open>i\<close> below the number of counters.\<close>

definition nmi_adapt ::
  "('h, 'r) op_x86_model_spec \<Rightarrow> kernel_env \<Rightarrow> x86_state \<Rightarrow> (bool \<times> x86_state) option" where
  "nmi_adapt M env x =
     (let n = unat (num_counters M x); cfg = counter_config x
      in if length cfg < n then None
         else if \<exists>g \<in> set (take n cfg). cc_enabled g \<noteq> 0 \<and> nmi_max_counter_value \<le> cc_count g
         then Some (False, x)
         else
           do { x \<leftarrow> for_each (nmi_cpu_adapt M) (online_cpus env)
                      (x\<lparr>counter_config := map decay_counter (take n cfg) @ drop n cfg\<rparr>);
                Some (True, x) })"

section \<open>Control files\<close>

definition idle_poll_read ::
  "read_from_buffer \<Rightarrow> x86_state \<Rightarrow> nat \<Rightarrow> nat \<Rightarrow> errno + (string \<times> nat)" where
  "idle_poll_read read_buf x count off =
     oprofilefs_ulong_to_user read_buf (ucast (poll_idle_enabled (poll x))) count off"

definition idle_poll_write ::
  "(string \<Rightarrow> ulong) \<Rightarrow> ulong \<Rightarrow> write_request \<Rightarrow> x86_state \<Rightarrow> (errno + nat) \<times> x86_state" where
  "idle_poll_write strtoul stack w x =
     (if w_offset w \<noteq> 0 then (Inl EINVAL, x)
      else
        let (r, val) = oprofilefs_ulong_from_user strtoul (w_user w) (w_count w) stack
        in case r of
             Inl err \<Rightarrow> (Inl err, x)
           | Inr _ \<Rightarrow> (Inr (w_count w), x\<lparr>poll := (poll x)\<lparr>poll_idle_enabled := ucast val\<rparr>\<rparr>))"

definition create_counter_dir ::
  "(string list \<Rightarrow> bool \<times> bool) \<Rightarrow> string list \<Rightarrow> nat \<Rightarrow> inode list \<Rightarrow> inode list option" where
  "create_counter_dir alloc root i fs =
     (case oprofilefs_mkdir alloc root (take 6 (''pmc'' @ dec i)) fs of
        (None, fs) \<Rightarrow> None
      | (Some dir, fs) \<Rightarrow>
          Some (fold (\<lambda>name fs. snd (oprofilefs_create_ulong alloc dir name
                          (''counter_config['' @ dec i @ ''].'' @ name) fs))
            [''enabled'', ''event'', ''count'', ''unit_mask'', ''kernel'', ''user''] fs))"

definition nmi_create_files ::
  "(string list \<Rightarrow> bool \<times> bool) \<Rightarrow> nat \<Rightarrow> string list \<Rightarrow> inode list \<Rightarrow> inode list option" where
  "nmi_create_files alloc n root fs =
     do { fs \<leftarrow> for_each (create_counter_dir alloc root) [0..<n] fs;
          Some (snd (oprofilefs_create_file alloc root ''idle_poll'' idle_poll_fops fs)) }"

section \<open>The operations structure\<close>

text \<open>
  The operations that \<^verbatim>\<open>op_nmi_init\<close> stores, on the driver's state. The files of the back end
  with \<open>n\<close> counters are listed by their paths (theory Oprofilefs).
\<close>

definition x86_rc ::
  "(x86_state \<Rightarrow> ('a \<times> x86_state) option) \<Rightarrow> 'h nmi_kstate_scheme \<Rightarrow>
   ('a \<times> 'h nmi_kstate_scheme) option" where
  "x86_rc f k = map_option (\<lambda>(r, x). (r, k\<lparr>x86 := x\<rparr>)) (f (x86 k))"

definition nmi_operations ::
  "x86_hw \<Rightarrow> ('h, 'r) op_x86_model_spec \<Rightarrow> kernel_env \<Rightarrow> string \<Rightarrow> u32 \<Rightarrow>
   ('h nmi_kstate_scheme, 'r) oprofile_operations \<Rightarrow>
   ('h nmi_kstate_scheme, 'r) oprofile_operations" where
  "nmi_operations H M env cpu_type n ops =
     ops\<lparr>op_create_files := map_option (map inode_path) (nmi_create_files (\<lambda>_. (True, True)) (unat n) [] []),
         op_setup := Some (x86_rc (nmi_setup H M env)),
         op_shutdown := Some (on_x86 (nmi_shutdown H M env)),
         op_start := Some (nmi_start H M env),
         op_stop := Some (nmi_stop H M env),
         op_adapt := Some (x86_rc (nmi_adapt M env)),
         op_cpu_type := Some cpu_type\<rparr>"

end
