(* ===== verification/Nmi_Contract.thy ===== *)
theory Nmi_Contract
  imports Nmi_Int
begin

text \<open>
  The contract between \<^verbatim>\<open>x86/nmi_int.c\<close> and a counter model: the model's operations return
  normally on a CPU with allocated structures and touch only the registers these list. From it
  follows that the NMI back end meets the contract of a back end (theory Backend), and that a
  session gives the registers back as it found them.
\<close>

lemma ucast_ucast_u32 [simp]: "ucast (ucast (w :: u32) :: ulong) = w"
  by (rule bit_word_eqI) (simp add: bit_ucast_iff)

lemma ucast_u32_nonzero [simp]: "(ucast (w :: u32) :: ulong) = 0 \<longleftrightarrow> w = 0"
  by (metis ucast_ucast_u32 unsigned_0)

lemma saved_lvtpc_apic_write [simp]: "saved_lvtpc (apic_write c r v x) = saved_lvtpc x"
  by (simp add: apic_write_def)

section \<open>Preserved parts of the state\<close>

text \<open>The variables of the model files, up to the contents of the counter configuration.\<close>

definition same_vars :: "x86_state \<Rightarrow> x86_state \<Rightarrow> bool" where
  "same_vars x x' \<longleftrightarrow> ppro_num_counters x' = ppro_num_counters x \<and>
     ppro_reset_value x' = ppro_reset_value x \<and> arch_num_counters x' = arch_num_counters x \<and>
     arch_num_controls x' = arch_num_controls x \<and> athlon_reset_value x' = athlon_reset_value x \<and>
     p4_num_counters x' = p4_num_counters x \<and> p4_reset_value x' = p4_reset_value x \<and>
     length (counter_config x') = length (counter_config x)"

lemma same_vars_trans: "same_vars x y \<Longrightarrow> same_vars y z \<Longrightarrow> same_vars x z"
  by (simp add: same_vars_def)

lemma same_vars_refl [simp]: "same_vars x x"
  by (simp add: same_vars_def)

text \<open>What a session leaves alone on all CPUs: it changes registers of the online CPUs that are
  listed there, and the vector of the performance counters.\<close>

definition only_listed :: "nat list \<Rightarrow> x86_state \<Rightarrow> x86_state \<Rightarrow> bool" where
  "only_listed cs x x' \<longleftrightarrow> cpu_msrs x' = cpu_msrs x \<and> saved_lvtpc x' = saved_lvtpc x \<and>
     (\<forall>c. c \<notin> set cs \<longrightarrow> msr x' c = msr x c \<and> apic x' c = apic x c) \<and>
     (\<forall>c a. a \<notin> listed c x \<longrightarrow> msr x' c a = msr x c a) \<and>
     (\<forall>c. apic x' c APIC_LVTERR = apic x c APIC_LVTERR)"

lemma only_listed_refl [simp]: "only_listed cs x x"
  by (simp add: only_listed_def)

lemma only_listed_entries: "only_listed cs x x' \<Longrightarrow> entries c x' = entries c x"
  by (simp add: only_listed_def entries_def)

lemma only_listed_trans:
  "only_listed cs x x1 \<Longrightarrow> only_listed cs x1 x2 \<Longrightarrow> only_listed cs x x2"
  using only_listed_entries [of cs x x1] by (simp add: only_listed_def listed_def)

lemma only_regs_only_listed:
  assumes "only_regs c x x'" and "c \<in> set cs"
  shows "only_listed cs x x'"
proof -
  have "apic x' c' APIC_LVTERR = apic x c' APIC_LVTERR" for c'
    using assms by (cases "c' = c") (auto simp: only_regs_def)
  moreover have "msr x' c' a = msr x c' a" if "a \<notin> listed c' x" for c' a
    using assms that by (cases "c' = c") (auto simp: only_regs_def)
  moreover have "msr x' c' = msr x c' \<and> apic x' c' = apic x c'" if "c' \<notin> set cs" for c'
    using assms that by (cases "c' = c") (simp_all add: only_regs_def)
  ultimately show ?thesis using assms(1) by (simp add: only_listed_def) (simp add: only_regs_def)
qed

lemma sized_only_listed: "only_listed cs x x' \<Longrightarrow> msrs_sized m n c x' = msrs_sized m n c x"
  by (simp add: only_listed_def msrs_sized_def)

text \<open>The variables of \<^verbatim>\<open>nmi_int.c\<close> itself, which the registers do not depend on.\<close>

lemma only_listed_flags [simp]:
  "only_listed cs x (y\<lparr>nmi_ctr_running := r\<rparr>) = only_listed cs x y"
  "only_listed cs x (y\<lparr>nmi_enabled := e\<rparr>) = only_listed cs x y"
  "only_listed cs x (y\<lparr>nmi_handler := e\<rparr>) = only_listed cs x y"
  "only_listed cs x (y\<lparr>poll := p\<rparr>) = only_listed cs x y"
  "only_listed cs x (y\<lparr>counter_config := g\<rparr>) = only_listed cs x y"
  by (simp_all add: only_listed_def)

lemma sized_flags [simp]:
  "msrs_sized m n c (y\<lparr>nmi_ctr_running := r\<rparr>) = msrs_sized m n c y"
  "msrs_sized m n c (y\<lparr>nmi_enabled := e\<rparr>) = msrs_sized m n c y"
  "msrs_sized m n c (y\<lparr>nmi_handler := e\<rparr>) = msrs_sized m n c y"
  "msrs_sized m n c (y\<lparr>poll := p\<rparr>) = msrs_sized m n c y"
  "msrs_sized m n c (y\<lparr>counter_config := g\<rparr>) = msrs_sized m n c y"
  by (simp_all add: msrs_sized_def)

section \<open>Saving and restoring\<close>

text \<open>On CPU \<open>c\<close> the structures hold what the registers held in \<open>x0\<close>, and all registers that
  they do not list are as they were.\<close>

definition saved_from :: "x86_state \<Rightarrow> nat \<Rightarrow> x86_state \<Rightarrow> bool" where
  "saved_from x0 c x \<longleftrightarrow>
     (\<forall>e \<in> set (entries c x). addr e \<noteq> 0 \<and>
        (saved_low (saved e), saved_high (saved e)) = msr x0 c (ucast (addr e))) \<and>
     (\<forall>a. a \<notin> listed c x \<longrightarrow> msr x c a = msr x0 c a) \<and>
     apic x c APIC_LVTERR = apic x0 c APIC_LVTERR"

lemma saved_from_only_listed:
  assumes "saved_from x0 c x" and "only_listed cs x x'"
  shows "saved_from x0 c x'"
  using assms only_listed_entries [OF assms(2), of c]
  by (simp add: saved_from_def listed_def) (simp add: only_listed_def listed_def)

lemma map_array_full: "length xs = n \<Longrightarrow> map_array n f (Some xs) = Some (Some (map f xs))"
  by (cases n) (simp_all add: map_array_def)

lemma for_array_full: "length xs = n \<Longrightarrow> for_array n f (Some xs) s = Some (fold f xs s)"
  by (cases n) (simp_all add: for_array_def)

lemma addr_save_entry [simp]: "addr (save_entry c x m) = addr m"
  by (simp add: save_entry_def split: prod.splits)

lemma saved_save_entry:
  "addr m \<noteq> 0 \<Longrightarrow> (saved_low (saved (save_entry c x m)), saved_high (saved (save_entry c x m))) =
     msr x c (ucast (addr m))"
  by (simp add: save_entry_def rdmsr_def split: prod.splits)

text \<open>Writing a list of saved values: the last write to an address is the one that stays, and
  all entries for an address hold the same value.\<close>

lemma restore_entries:
  assumes "\<forall>e \<in> set es. addr e \<noteq> 0 \<and> (saved_low (saved e), saved_high (saved e)) = v (ucast (addr e))"
  shows "msr (fold (restore_entry c) es x) c a =
      (if a \<in> (\<lambda>m. ucast (addr m)) ` set es then v a else msr x c a)"
    and "\<exists>m. fold (restore_entry c) es x = x\<lparr>msr := m\<rparr>"
    and "c' \<noteq> c \<Longrightarrow> msr (fold (restore_entry c) es x) c' = msr x c'"
proof -
  show "msr (fold (restore_entry c) es x) c a =
      (if a \<in> (\<lambda>m. ucast (addr m)) ` set es then v a else msr x c a)"
    using assms
    by (induction es arbitrary: x) (auto simp: restore_entry_def wrmsr_def)
  show "\<exists>m. fold (restore_entry c) es x = x\<lparr>msr := m\<rparr>"
  proof (induction es arbitrary: x)
    case Nil
    show ?case by (rule exI [of _ "msr x"]) simp
  next
    case (Cons e es)
    obtain m where "restore_entry c e x = x\<lparr>msr := m\<rparr>"
      by (cases "addr e = 0") (auto simp: restore_entry_def wrmsr_def intro: that [of "msr x"])
    with Cons.IH [of "x\<lparr>msr := m\<rparr>"] show ?case by simp
  qed
  show "c' \<noteq> c \<Longrightarrow> msr (fold (restore_entry c) es x) c' = msr x c'"
    by (induction es arbitrary: x) (simp_all add: restore_entry_def wrmsr_def)
qed

section \<open>The contract of a counter model\<close>

text \<open>Filling in addresses and saving registers change only the structures of the CPU.\<close>

definition only_structs :: "nat \<Rightarrow> x86_state \<Rightarrow> x86_state \<Rightarrow> bool" where
  "only_structs c x x' \<longleftrightarrow> msr x' = msr x \<and> apic x' = apic x \<and> saved_lvtpc x' = saved_lvtpc x \<and>
     nmi_handler x' = nmi_handler x \<and> counter_config x' = counter_config x \<and> poll x' = poll x \<and>
     nmi_ctr_running x' = nmi_ctr_running x \<and>
     (\<forall>c'. c' \<noteq> c \<longrightarrow> cpu_msrs x' c' = cpu_msrs x c')"

text \<open>
  What holds between setup and shutdown relative to the state \<open>x0\<close> before: the online CPUs have
  saved their registers and vectors, the others are untouched.
\<close>

definition session_saved :: "nat list \<Rightarrow> x86_state \<Rightarrow> x86_state \<Rightarrow> bool" where
  "session_saved cs x0 x \<longleftrightarrow>
     (\<forall>c \<in> set cs. saved_from x0 c x \<and> ucast (saved_lvtpc x c) = apic x0 c APIC_LVTPC) \<and>
     (\<forall>c. c \<notin> set cs \<longrightarrow> msr x c = msr x0 c \<and> apic x c = apic x0 c)"

lemma session_saved_only_listed:
  assumes "session_saved cs x0 x" and "only_listed cs x x'"
  shows "session_saved cs x0 x'"
  using assms(1) saved_from_only_listed [OF _ assms(2)] assms(2)
  by (simp add: session_saved_def) (simp add: only_listed_def)

text \<open>The addresses that the structures of CPU \<open>c\<close> hold.\<close>

definition addrs :: "nat \<Rightarrow> x86_state \<Rightarrow> ulong list option \<times> ulong list option" where
  "addrs c x = (map_option (map addr) (counters (cpu_msrs x c)),
     map_option (map addr) (controls (cpu_msrs x c)))"

lemma sized_addrs:
  assumes "msrs_sized m n c x" and "addrs c x' = addrs c x"
  shows "msrs_sized m n c x'"
proof -
  from assms(1) obtain cs ds where cd: "cpu_msrs x c = \<lparr>counters = Some cs, controls = Some ds\<rparr>"
    "length cs = m" "length ds = n" by (auto simp: msrs_sized_def)
  with assms(2) obtain cs' ds' where "cpu_msrs x' c = \<lparr>counters = Some cs', controls = Some ds'\<rparr>"
    "map addr cs' = map addr cs" "map addr ds' = map addr ds"
    by (cases "cpu_msrs x' c") (auto simp: addrs_def)
  moreover from this(2,3) have "length cs' = length cs" "length ds' = length ds"
    by (auto dest: map_eq_imp_length_eq)
  ultimately show ?thesis using cd by (simp add: msrs_sized_def)
qed

text \<open>Structures as the kernel allocates them, with any contents.\<close>

definition hw_ok :: "x86_hw \<Rightarrow> bool" where
  "hw_ok H \<longleftrightarrow> (\<forall>i k xs. kmalloc_counters H i k = Some xs \<longrightarrow> length xs = k) \<and>
     (\<forall>i k xs. kmalloc_controls H i k = Some xs \<longrightarrow> length xs = k)"

lemma free_msrs_structs: "\<exists>ms. free_msrs possible x = x\<lparr>cpu_msrs := ms\<rparr>"
proof (induction possible arbitrary: x)
  case Nil
  show ?case by (rule exI [of _ "cpu_msrs x"]) (simp add: free_msrs_def)
next
  case (Cons i possible)
  from Cons.IH [of "set_msrs i \<lparr>counters = None, controls = None\<rparr> x"] show ?case
    by (simp add: free_msrs_def set_msrs_def)
qed

lemma allocate_loop_structs:
  assumes "hw_ok H" and "allocate_loop H m n is x = (ok, x')" and "distinct is"
  shows "\<exists>ms. x' = x\<lparr>cpu_msrs := ms\<rparr> \<and> (\<forall>c. c \<notin> set is \<longrightarrow> ms c = cpu_msrs x c) \<and>
    (ok \<longrightarrow> (\<forall>c \<in> set is. msrs_sized m n c x'))"
  using assms(2,3)
proof (induction "is" arbitrary: x)
  case Nil
  then show ?case by (auto intro: exI [of _ "cpu_msrs x"])
next
  case (Cons i "is")
  let ?x1 = "set_msrs i ((cpu_msrs x i)\<lparr>counters := kmalloc_counters H i m\<rparr>) x"
  let ?x2 = "set_msrs i ((cpu_msrs ?x1 i)\<lparr>controls := kmalloc_controls H i n\<rparr>) ?x1"
  consider "kmalloc_counters H i m = None"
    | cs where "kmalloc_counters H i m = Some cs" "kmalloc_controls H i n = None"
    | cs ds where "kmalloc_counters H i m = Some cs" "kmalloc_controls H i n = Some ds"
    by (cases "kmalloc_counters H i m"; cases "kmalloc_controls H i n") auto
  then show ?case
  proof cases
    case 1
    then have "x' = ?x1" "\<not> ok" using Cons.prems(1) by (simp_all add: Let_def set_msrs_def)
    then show ?thesis by (auto simp: set_msrs_def)
  next
    case 2
    then have "x' = ?x2" "\<not> ok" using Cons.prems(1) by (simp_all add: Let_def set_msrs_def)
    then show ?thesis by (auto simp: set_msrs_def)
  next
    case cd: (3 cs ds)
    then have loop: "allocate_loop H m n is ?x2 = (ok, x')"
      using Cons.prems(1) by (simp add: Let_def set_msrs_def)
    from Cons.IH [OF this] Cons.prems(2) obtain ms where ms: "x' = ?x2\<lparr>cpu_msrs := ms\<rparr>"
      "\<forall>c. c \<notin> set is \<longrightarrow> ms c = cpu_msrs ?x2 c" "ok \<longrightarrow> (\<forall>c \<in> set is. msrs_sized m n c x')" by auto
    have "ms i = \<lparr>counters = Some cs, controls = Some ds\<rparr>"
      using ms(2) Cons.prems(2) cd by (cases "cpu_msrs x i") (simp add: set_msrs_def)
    then have "msrs_sized m n i x'"
      using assms(1) cd ms(1) by (auto simp: msrs_sized_def hw_ok_def)
    with ms Cons.prems(2) show ?thesis by (auto simp: set_msrs_def)
  qed
qed

text \<open>
  \<open>M\<close> is the model, \<open>mwf\<close> what it needs of its variables, with \<open>m\<close> counters and \<open>n\<close> controls;
  \<open>ready c x\<close> what it needs of the addresses in the structures of a CPU.
\<close>

locale x86_model =
  fixes M :: "('h, 'r) op_x86_model_spec"
    and mwf :: "x86_state \<Rightarrow> bool"
    and m n :: nat
    and ready :: "nat \<Rightarrow> x86_state \<Rightarrow> bool"
  assumes sizes: "mwf x \<Longrightarrow> unat (num_counters M x) = m \<and> unat (num_controls M x) = n"
    and config_size: "mwf x \<Longrightarrow> m \<le> length (counter_config x)"
    and mwf_same: "mwf x \<Longrightarrow> same_vars x x' \<Longrightarrow> mwf x'"
    and ready_sized: "ready c x \<Longrightarrow> msrs_sized m n c x"
    and ready_addrs: "ready c x \<Longrightarrow> addrs c x' = addrs c x \<Longrightarrow> ready c x'"
    and fill_law: "mwf x \<Longrightarrow> msrs_sized m n c x \<Longrightarrow>
      \<exists>x'. fill_in_addresses M c x = Some x' \<and> mwf x' \<and> ready c x' \<and>
        (\<forall>e \<in> set (entries c x'). addr e \<noteq> 0) \<and> only_structs c x x'"
    and setup_law: "mwf x \<Longrightarrow> ready c x \<Longrightarrow>
      \<exists>x'. setup_ctrs M c x = Some x' \<and> mwf x' \<and> only_regs c x x' \<and> apic x' = apic x"
    and start_law: "mwf x \<Longrightarrow> ready c x \<Longrightarrow>
      \<exists>x'. spec_start M tb c x = Some x' \<and> mwf x' \<and> only_regs c x x'"
    and stop_law: "mwf x \<Longrightarrow> ready c x \<Longrightarrow>
      \<exists>x'. spec_stop M c x = Some x' \<and> mwf x' \<and> only_regs c x x'"
    and shutdown_law: "spec_shutdown M = Some f \<Longrightarrow> mwf x \<Longrightarrow> ready c x \<Longrightarrow>
      \<exists>x'. f c x = Some x' \<and> mwf x' \<and> only_regs c x x' \<and> apic x' = apic x"
    and check_law: "mwf (x86 k) \<Longrightarrow> ready c (x86 k) \<Longrightarrow> ring_ok (cpu_buffer k c) \<Longrightarrow>
      sampler_ok sp \<Longrightarrow>
      \<exists>k'. check_ctrs M sp c t k = Some k' \<and> mwf (x86 k') \<and> only_regs c (x86 k) (x86 k') \<and>
        only_cpu c k k'"
begin

text \<open>Between sessions the driver has no handler registered and is not enabled.\<close>

definition quiet :: "x86_state \<Rightarrow> bool" where
  "quiet x \<longleftrightarrow> mwf x \<and> \<not> nmi_handler x \<and> \<not> nmi_enabled x"

text \<open>Every online CPU has its structures filled in.\<close>

definition armed :: "nat list \<Rightarrow> x86_state \<Rightarrow> bool" where
  "armed cs x \<longleftrightarrow> mwf x \<and> (\<forall>c \<in> set cs. ready c x)"

lemma ready_cong: "cpu_msrs x' c = cpu_msrs x c \<Longrightarrow> ready c x' = ready c x"
  using ready_addrs [of c x x'] ready_addrs [of c x' x] by (auto simp: addrs_def)

lemma ready_flags [simp]:
  "ready c (y\<lparr>nmi_ctr_running := r\<rparr>) = ready c y"
  "ready c (y\<lparr>nmi_enabled := e\<rparr>) = ready c y"
  "ready c (y\<lparr>nmi_handler := e\<rparr>) = ready c y"
  "ready c (y\<lparr>poll := p\<rparr>) = ready c y"
  "ready c (y\<lparr>counter_config := g\<rparr>) = ready c y"
  "ready c (y\<lparr>msr := ml\<rparr>) = ready c y"
  by (rule ready_cong, simp)+

lemma ready_only_regs: "only_regs c' x x' \<Longrightarrow> ready c x' = ready c x"
  by (rule ready_cong) (simp add: only_regs_def)

lemma mwf_flags [simp]:
  assumes "mwf x"
  shows "mwf (x\<lparr>nmi_ctr_running := r\<rparr>)" "mwf (x\<lparr>nmi_enabled := e\<rparr>)" "mwf (x\<lparr>nmi_handler := e\<rparr>)"
    "mwf (x\<lparr>poll := p\<rparr>)" "mwf (set_msrs c ms x)" "mwf (apic_write c' r' v x)"
    "mwf (x\<lparr>saved_lvtpc := sl\<rparr>)" "mwf (x\<lparr>msr := ml\<rparr>)"
  by (rule mwf_same [OF assms]; simp add: same_vars_def set_msrs_def apic_write_def)+

lemma armed_flags [simp]:
  assumes "armed cs x"
  shows "armed cs (x\<lparr>nmi_ctr_running := r\<rparr>)" "armed cs (x\<lparr>nmi_enabled := e\<rparr>)"
    "armed cs (x\<lparr>nmi_handler := e\<rparr>)" "armed cs (x\<lparr>poll := p\<rparr>)"
  using assms by (simp_all add: armed_def)

lemma armed_only_regs: "armed cs x \<Longrightarrow> mwf x' \<Longrightarrow> only_regs c x x' \<Longrightarrow> armed cs x'"
  by (simp add: armed_def ready_only_regs)

text \<open>A loop over CPUs whose body keeps the model usable and touches its own CPU's registers.\<close>

lemma armed_loop:
  assumes "armed cs x"
    and "\<And>c x. mwf x \<Longrightarrow> ready c x \<Longrightarrow> \<exists>x'. f c x = Some x' \<and> mwf x' \<and> only_regs c x x'"
  shows "\<exists>x'. for_each f cs x = Some x' \<and> armed cs x' \<and> only_listed cs x x'"
proof (rule for_each_invariant [where I = "\<lambda>x'. armed cs x' \<and> only_listed cs x x'"])
  show "armed cs x \<and> only_listed cs x x" using assms(1) by simp
  fix c y
  assume c: "c \<in> set cs" and y: "armed cs y \<and> only_listed cs x y"
  then have "mwf y" "ready c y" by (auto simp: armed_def)
  from assms(2) [OF this] obtain x' where x': "f c y = Some x'" "mwf x'" "only_regs c y x'" by blast
  moreover have "only_listed cs y x'" using x'(3) c by (auto intro: only_regs_only_listed)
  ultimately show "\<exists>x'. f c y = Some x' \<and> armed cs x' \<and> only_listed cs x x'"
    using y armed_only_regs only_listed_trans by blast
qed

lemma adapt_armed:
  assumes "armed (online_cpus env) x"
  shows "\<exists>r x'. nmi_adapt M env x = Some (r, x') \<and> armed (online_cpus env) x' \<and>
    only_listed (online_cpus env) x x'"
proof -
  have mwf: "mwf x" using assms(1) by (simp add: armed_def)
  let ?x = "x\<lparr>counter_config := map decay_counter (take m (counter_config x)) @ drop m (counter_config x)\<rparr>"
  have "mwf ?x" using config_size [OF mwf] by (intro mwf_same [OF mwf]) (simp add: same_vars_def)
  then have "armed (online_cpus env) ?x" using assms(1) by (simp add: armed_def)
  moreover have "\<exists>x'. nmi_cpu_adapt M c x = Some x' \<and> mwf x' \<and> only_regs c x x'"
    if "mwf x" "ready c x" for c x
    using setup_law [OF that] by (auto simp: nmi_cpu_adapt_def)
  ultimately obtain x' where "for_each (nmi_cpu_adapt M) (online_cpus env) ?x = Some x'"
    "armed (online_cpus env) x'" "only_listed (online_cpus env) ?x x'"
    using armed_loop [of "online_cpus env" ?x "nmi_cpu_adapt M"] by blast
  moreover from this(3) have "only_listed (online_cpus env) x x'"
    by (rule only_listed_trans [rotated]) simp
  moreover have "unat (num_counters M x) = m" using sizes [OF mwf] by simp
  ultimately show ?thesis
    using assms(1) config_size [OF mwf] by (auto simp: nmi_adapt_def Let_def)
qed

lemma save_registers_step:
  assumes "mwf x" and "msrs_sized m n c x"
  shows "\<exists>x'. nmi_save_registers M c x = Some x' \<and> mwf x' \<and> only_structs c x x' \<and>
    ready c x' \<and> saved_from x c x'"
proof -
  from fill_law [OF assms] obtain y where y: "fill_in_addresses M c x = Some y" "mwf y"
    "ready c y" "\<forall>e \<in> set (entries c y). addr e \<noteq> 0" "only_structs c x y" by blast
  from ready_sized [OF y(3)] obtain cs ds where cd: "cpu_msrs y c = \<lparr>counters = Some cs, controls = Some ds\<rparr>"
    "length cs = m" "length ds = n" by (auto simp: msrs_sized_def)
  let ?x' = "set_msrs c \<lparr>counters = Some (map (save_entry c y) cs),
                        controls = Some (map (save_entry c y) ds)\<rparr> y"
  have save: "nmi_cpu_save_registers M c y = Some ?x'"
    using sizes [OF y(2)] cd by (simp add: nmi_cpu_save_registers_def map_array_full)
  have entries: "entries c ?x' = map (save_entry c y) (entries c y)"
    using cd(1) by (simp add: entries_def set_msrs_def)
  then have "listed c ?x' = listed c y" by (simp add: listed_def image_image)
  then have "saved_from x c ?x'"
    using y(4,5) entries by (auto simp: saved_from_def saved_save_entry only_structs_def set_msrs_def)
  moreover have "ready c ?x'"
    by (rule ready_addrs [OF y(3)]) (simp add: addrs_def set_msrs_def cd(1))
  moreover have "mwf ?x'" using y(2) by simp
  moreover have "only_structs c x ?x'" using y(5) by (simp add: only_structs_def set_msrs_def)
  ultimately show ?thesis using y(1) save by (auto simp: nmi_save_registers_def)
qed

lemma saved_from_structs:
  assumes "saved_from x0 c x" and "only_structs c' x x'" and "c' \<noteq> c"
  shows "saved_from x0 c x'"
proof -
  have "entries c x' = entries c x" using assms(2,3) by (auto simp: only_structs_def entries_def)
  with assms show ?thesis by (simp add: saved_from_def listed_def only_structs_def)
qed

lemma save_loop:
  assumes "mwf x" and "\<forall>c \<in> set cs. msrs_sized m n c x" and "distinct cs"
  shows "\<exists>x'. for_each (nmi_save_registers M) cs x = Some x' \<and> mwf x' \<and>
    (\<forall>c \<in> set cs. ready c x' \<and> saved_from x c x') \<and> msr x' = msr x \<and> apic x' = apic x \<and>
    nmi_ctr_running x' = nmi_ctr_running x \<and> (\<forall>c. c \<notin> set cs \<longrightarrow> cpu_msrs x' c = cpu_msrs x c)"
  using assms
proof (induction cs arbitrary: x)
  case Nil
  then show ?case by simp
next
  case (Cons c cs)
  from save_registers_step [of x c] Cons.prems obtain y where y: "nmi_save_registers M c x = Some y"
    "mwf y" "only_structs c x y" "ready c y" "saved_from x c y" by auto
  have "\<forall>d \<in> set cs. msrs_sized m n d y"
    using y(3) Cons.prems(2,3) by (auto simp: only_structs_def msrs_sized_def)
  from Cons.IH [OF y(2) this] Cons.prems(3) obtain x' where x':
    "for_each (nmi_save_registers M) cs y = Some x'" "mwf x'"
    "\<forall>d \<in> set cs. ready d x' \<and> saved_from y d x'" "msr x' = msr y" "apic x' = apic y" "nmi_ctr_running x' = nmi_ctr_running y"
    "\<forall>d. d \<notin> set cs \<longrightarrow> cpu_msrs x' d = cpu_msrs y d" by auto
  have c: "cpu_msrs x' c = cpu_msrs y c" using x'(7) Cons.prems(3) by simp
  then have "saved_from x c x'"
    using y(5) x'(4,5) by (simp add: saved_from_def entries_def listed_def)
  moreover have "saved_from x d x'" if "d \<in> set cs" for d
    using x'(3) that y(3) by (simp add: saved_from_def only_structs_def)
  ultimately show ?case
    using x' y ready_cong [OF c] c by (auto simp: only_structs_def)
qed

text \<open>The state of a CPU set up for a session that began in \<open>x0\<close>.\<close>

lemma cpu_setup_step:
  assumes "mwf x" and "ready c x"
  shows "\<exists>x'. nmi_cpu_setup H M c x = Some x' \<and> mwf x' \<and>
    nmi_ctr_running x' = nmi_ctr_running x \<and>
    cpu_msrs x' = cpu_msrs x \<and> (\<forall>a. a \<notin> listed c x \<longrightarrow> msr x' c a = msr x c a) \<and>
    saved_lvtpc x' = (saved_lvtpc x)(c := ucast (apic x c APIC_LVTPC)) \<and>
    apic x' c APIC_LVTERR = apic x c APIC_LVTERR \<and>
    (\<forall>c'. c' \<noteq> c \<longrightarrow> msr x' c' = msr x c' \<and> apic x' c' = apic x c')"
proof -
  from setup_law [OF assms] obtain y where y: "setup_ctrs M c x = Some y" "mwf y"
    "only_regs c x y" "apic y = apic x" by blast
  let ?x' = "apic_write c APIC_LVTPC (APIC_DM_NMI H)
      (y\<lparr>saved_lvtpc := (saved_lvtpc y)(c := ucast (apic_read c APIC_LVTPC y))\<rparr>)"
  have "mwf ?x'" by (rule mwf_same [OF y(2)]) (simp add: same_vars_def apic_write_def)
  moreover have "nmi_cpu_setup H M c x = Some ?x'" using y(1) by (simp add: nmi_cpu_setup_def)
  ultimately show ?thesis
    using y(3,4) by (simp add: apic_write_def apic_read_def) (simp add: only_regs_def)
qed

lemma setup_loop:
  assumes "mwf x" and "\<forall>c \<in> set cs. ready c x \<and> saved_from x0 c x \<and> apic x c = apic x0 c"
    and "distinct cs"
  shows "\<exists>x'. for_each (nmi_cpu_setup H M) cs x = Some x' \<and> mwf x' \<and> cpu_msrs x' = cpu_msrs x \<and>
    nmi_ctr_running x' = nmi_ctr_running x \<and> (\<forall>c \<in> set cs. saved_from x0 c x' \<and> ucast (saved_lvtpc x' c) = apic x0 c APIC_LVTPC) \<and>
    (\<forall>c. c \<notin> set cs \<longrightarrow> msr x' c = msr x c \<and> apic x' c = apic x c \<and>
       saved_lvtpc x' c = saved_lvtpc x c)"
  using assms
proof (induction cs arbitrary: x)
  case Nil
  then show ?case by simp
next
  case (Cons c cs)
  from cpu_setup_step [of x c H] Cons.prems obtain y where y: "nmi_cpu_setup H M c x = Some y"
    "mwf y" "cpu_msrs y = cpu_msrs x" "\<forall>a. a \<notin> listed c x \<longrightarrow> msr y c a = msr x c a"
    "saved_lvtpc y = (saved_lvtpc x)(c := ucast (apic x c APIC_LVTPC))"
    "apic y c APIC_LVTERR = apic x c APIC_LVTERR"
    "\<forall>c'. c' \<noteq> c \<longrightarrow> msr y c' = msr x c' \<and> apic y c' = apic x c'"
    "nmi_ctr_running y = nmi_ctr_running x" by auto
  have en: "entries d y = entries d x" for d using y(3) by (simp add: entries_def)
  have "\<forall>d \<in> set cs. ready d y \<and> saved_from x0 d y \<and> apic y d = apic x0 d"
  proof
    fix d assume "d \<in> set cs"
    then have "d \<noteq> c" "ready d x" "saved_from x0 d x" "apic x d = apic x0 d"
      using Cons.prems by auto
    with y(3,7) en ready_cong [of y d x] show "ready d y \<and> saved_from x0 d y \<and> apic y d = apic x0 d"
      by (simp add: saved_from_def listed_def)
  qed
  from Cons.IH [OF y(2) this] Cons.prems(3) obtain x' where x':
    "for_each (nmi_cpu_setup H M) cs y = Some x'" "mwf x'" "cpu_msrs x' = cpu_msrs y"
    "\<forall>c \<in> set cs. saved_from x0 c x' \<and> ucast (saved_lvtpc x' c) = apic x0 c APIC_LVTPC"
    "\<forall>d. d \<notin> set cs \<longrightarrow> msr x' d = msr y d \<and> apic x' d = apic y d \<and> saved_lvtpc x' d = saved_lvtpc y d"
    "nmi_ctr_running x' = nmi_ctr_running y" by auto
  have c: "c \<notin> set cs" using Cons.prems(3) by simp
  have "saved_from x0 c x'"
    using Cons.prems(2) x'(3,5) y(3,4,6) c
    by (simp add: saved_from_def entries_def listed_def)
  moreover have "ucast (ucast (apic x c APIC_LVTPC) :: ulong) = apic x0 c APIC_LVTPC"
    using Cons.prems(2) by simp
  ultimately show ?case using x' y c by (auto)
qed

lemma setup_armed:
  assumes "mwf x" and "env_ok env" and "distinct (online_cpus env)" and "hw_ok H"
  shows "\<exists>r x'. nmi_setup H M env x = Some (r, x') \<and> mwf x' \<and>
    (if r = rc_ok
     then armed (online_cpus env) x' \<and> session_saved (online_cpus env) x x' \<and> nmi_enabled x' \<and>
       \<not> nmi_ctr_running x'
     else msr x' = msr x \<and> apic x' = apic x \<and> (quiet x \<longrightarrow> quiet x'))"
proof -
  obtain ok y where loop: "allocate_loop H m n (possible_cpus env) x = (ok, y)" by fastforce
  have "distinct (possible_cpus env)" using assms(2) by (simp add: env_ok_def)
  from allocate_loop_structs [OF assms(4) loop this] obtain ms where y: "y = x\<lparr>cpu_msrs := ms\<rparr>"
    "ok \<longrightarrow> (\<forall>c \<in> set (possible_cpus env). msrs_sized m n c y)" by blast
  obtain fs where fs: "free_msrs (possible_cpus env) z = z\<lparr>cpu_msrs := fs z\<rparr>" for z
    using free_msrs_structs [of "possible_cpus env"] by metis
  have mwf: "mwf (x\<lparr>cpu_msrs := ms\<rparr>)" for ms
    by (rule mwf_same [OF assms(1)]) (simp add: same_vars_def)
  have alloc: "allocate_msrs H M (possible_cpus env) x =
      (ok, if ok then y else free_msrs (possible_cpus env) y)"
    using loop sizes [OF assms(1)] by (simp add: allocate_msrs_def)
  let ?z = "y\<lparr>nmi_enabled := False, nmi_ctr_running := False\<rparr>"
  consider "\<not> ok" | err where "ok" "register_nmi_handler H = Inl err"
    | "ok" "register_nmi_handler H = rc_ok" by (cases "register_nmi_handler H") auto
  then show ?thesis
  proof cases
    case 1
    then show ?thesis using alloc fs y(1) mwf by (simp add: nmi_setup_def quiet_def)
  next
    case (2 err)
    have "mwf (?z\<lparr>cpu_msrs := fs ?z\<rparr>)"
      using y(1) by (intro mwf_same [OF assms(1)]) (simp add: same_vars_def)
    with 2 show ?thesis using alloc fs y(1) by (simp add: nmi_setup_def quiet_def)
  next
    case 3
    let ?w = "?z\<lparr>nmi_handler := True\<rparr>"
    have w: "mwf ?w" using mwf [of ms] y(1) by simp
    have on: "set (online_cpus env) \<subseteq> set (possible_cpus env)" using assms(2) by (simp add: env_ok_def)
    have sz: "msrs_sized m n c ?w" if "c \<in> set (possible_cpus env)" for c using y(2) 3(1) that by simp
    from save_loop [OF w _ assms(3)] sz on obtain u where u:
      "for_each (nmi_save_registers M) (online_cpus env) ?w = Some u" "mwf u"
      "\<forall>c \<in> set (online_cpus env). ready c u \<and> saved_from ?w c u"
      "msr u = msr ?w" "apic u = apic ?w"
      "\<forall>c. c \<notin> set (online_cpus env) \<longrightarrow> cpu_msrs u c = cpu_msrs ?w c" "\<not> nmi_ctr_running u" by auto
    have sf: "saved_from x c u" if "c \<in> set (online_cpus env)" for c
      using u(3) that y(1) by (simp add: saved_from_def)
    from setup_loop [OF u(2) _ assms(3), of x H] u(3,5,7) sf y(1) obtain v where v:
      "for_each (nmi_cpu_setup H M) (online_cpus env) u = Some v" "mwf v" "cpu_msrs v = cpu_msrs u"
      "\<forall>c \<in> set (online_cpus env). saved_from x c v \<and> ucast (saved_lvtpc v c) = apic x c APIC_LVTPC"
      "\<forall>c. c \<notin> set (online_cpus env) \<longrightarrow> msr v c = msr u c \<and> apic v c = apic u c \<and>
         saved_lvtpc v c = saved_lvtpc u c" "\<not> nmi_ctr_running v" by auto
    have "nmi_setup H M env x = Some (rc_ok, v\<lparr>nmi_enabled := True\<rparr>)"
      using alloc 3 u(1) v(1) by (simp add: nmi_setup_def)
    moreover have "armed (online_cpus env) v"
      using v(2,3) u(3) ready_cong [of v _ u] by (auto simp: armed_def)
    ultimately show ?thesis using v u(4,5) y(1)
      by (simp add: session_saved_def saved_from_def listed_def entries_def)
  qed
qed

lemma restore_registers_step:
  assumes "mwf x" and "ready c x"
  shows "\<exists>ms. nmi_restore_registers M c x = Some (x\<lparr>msr := ms\<rparr>) \<and>
    (\<forall>c'. c' \<noteq> c \<longrightarrow> ms c' = msr x c') \<and> (saved_from x0 c x \<longrightarrow> ms c = msr x0 c)"
proof -
  from ready_sized [OF assms(2)] obtain cs ds where cd: "cpu_msrs x c = \<lparr>counters = Some cs, controls = Some ds\<rparr>"
    "length cs = m" "length ds = n" by (auto simp: msrs_sized_def)
  let ?y = "fold (restore_entry c) ds x"
  let ?z = "fold (restore_entry c) cs ?y"
  have "\<exists>a. fold (restore_entry c) es z = z\<lparr>msr := a\<rparr> \<and> (\<forall>c'. c' \<noteq> c \<longrightarrow> a c' = msr z c')" for es z
  proof (induction es arbitrary: z)
    case Nil
    show ?case by (rule exI [of _ "msr z"]) simp
  next
    case (Cons e es)
    obtain a where "restore_entry c e z = z\<lparr>msr := a\<rparr>" "\<forall>c'. c' \<noteq> c \<longrightarrow> a c' = msr z c'"
      by (cases "addr e = 0") (auto simp: restore_entry_def wrmsr_def intro: that [of "msr z"])
    with Cons.IH [of "z\<lparr>msr := a\<rparr>"] show ?case by auto
  qed
  note fold = this
  from fold [of ds x] fold [of cs ?y] obtain a where a: "?z = x\<lparr>msr := a\<rparr>"
    "\<forall>c'. c' \<noteq> c \<longrightarrow> a c' = msr x c'" by auto
  have "nmi_restore_registers M c x = Some ?z"
    using sizes [OF assms(1)] cd by (simp add: nmi_restore_registers_def for_array_full)
  moreover have "msr ?z c r = msr x0 c r" if s: "saved_from x0 c x" for r
  proof -
    have en: "set (entries c x) = set cs \<union> set ds" using cd(1) by (auto simp: entries_def)
    then have "\<forall>e \<in> set es. addr e \<noteq> 0 \<and>
        (saved_low (saved e), saved_high (saved e)) = msr x0 c (ucast (addr e))"
      if "es = cs \<or> es = ds" for es
      using s that by (auto simp: saved_from_def)
    then show ?thesis
      using restore_entries(1) [of cs "msr x0 c" c ?y r] restore_entries(1) [of ds "msr x0 c" c x r] s en
      by (auto simp: saved_from_def listed_def)
  qed
  ultimately show ?thesis using a by auto
qed

lemma cpu_shutdown_step:
  assumes "mwf x" and "ready c x"
  shows "\<exists>x'. nmi_cpu_shutdown H M c x = Some x' \<and> mwf x' \<and> cpu_msrs x' = cpu_msrs x \<and>
    nmi_enabled x' = nmi_enabled x \<and> saved_lvtpc x' = saved_lvtpc x \<and> (\<forall>c'. c' \<noteq> c \<longrightarrow> msr x' c' = msr x c' \<and> apic x' c' = apic x c') \<and>
    (saved_from x0 c x \<and> ucast (saved_lvtpc x c) = apic x0 c APIC_LVTPC \<longrightarrow>
       msr x' c = msr x0 c \<and> apic x' c = apic x0 c)"
proof -
  let ?x1 = "apic_write c APIC_LVTERR (apic_read c APIC_LVTERR x)
      (apic_write c APIC_LVTPC (ucast (saved_lvtpc x c))
        (apic_write c APIC_LVTERR (apic_read c APIC_LVTERR x OR APIC_LVT_MASKED H) x))"
  have x1: "cpu_msrs ?x1 = cpu_msrs x" "msr ?x1 = msr x" "saved_lvtpc ?x1 = saved_lvtpc x"
    "apic ?x1 c APIC_LVTPC = ucast (saved_lvtpc x c)" "apic ?x1 c APIC_LVTERR = apic x c APIC_LVTERR"
    "\<forall>c'. c' \<noteq> c \<longrightarrow> apic ?x1 c' = apic x c'" "entries c ?x1 = entries c x"
    "nmi_enabled ?x1 = nmi_enabled x"
    by (simp_all add: apic_write_def apic_read_def entries_def)
  have m1: "mwf ?x1" by (rule mwf_same [OF assms(1)]) (simp add: same_vars_def apic_write_def)
  have s1: "ready c ?x1" using assms(2) ready_cong [of ?x1 c x] x1(1) by simp
  have "\<exists>y. (case spec_shutdown M of None \<Rightarrow> Some ?x1 | Some f \<Rightarrow> f c ?x1) = Some y \<and> mwf y \<and>
      only_regs c ?x1 y \<and> apic y = apic ?x1"
    using m1 shutdown_law [OF _ m1 s1] by (cases "spec_shutdown M") auto
  then obtain y where y: "(case spec_shutdown M of None \<Rightarrow> Some ?x1 | Some f \<Rightarrow> f c ?x1) = Some y"
    "mwf y" "only_regs c ?x1 y" "apic y = apic ?x1" by blast
  from restore_registers_step [OF y(2), of c x0] y(3) s1 obtain ms where ms:
    "nmi_restore_registers M c y = Some (y\<lparr>msr := ms\<rparr>)" "\<forall>c'. c' \<noteq> c \<longrightarrow> ms c' = msr y c'"
    "saved_from x0 c y \<longrightarrow> ms c = msr x0 c" by (auto simp: ready_only_regs)
  have run: "nmi_cpu_shutdown H M c x = Some (y\<lparr>msr := ms\<rparr>)"
    unfolding nmi_cpu_shutdown_def Let_def saved_lvtpc_apic_write y(1) by (simp add: ms(1))
  have en: "entries c y = entries c x" using y(3) x1(1) by (simp add: only_regs_def entries_def)
  have "ms c = msr x0 c \<and> apic y c = apic x0 c"
    if s: "saved_from x0 c x" "ucast (saved_lvtpc x c) = apic x0 c APIC_LVTPC"
  proof
    have "saved_from x0 c y"
      using s(1) y(3,4) en x1 by (simp add: saved_from_def listed_def only_regs_def)
    then show "ms c = msr x0 c" using ms(3) by simp
    show "apic y c = apic x0 c"
    proof
      fix r show "apic y c r = apic x0 c r"
        using s y(4) x1 by (cases r) (simp_all add: saved_from_def)
    qed
  qed
  then show ?thesis
    using run y(2-4) ms(2) x1 by (auto simp: only_regs_def)
qed

lemma shutdown_loop:
  assumes "mwf x" and "\<forall>c \<in> set cs. ready c x" and "distinct cs"
  shows "\<exists>x'. for_each (nmi_cpu_shutdown H M) cs x = Some x' \<and> mwf x' \<and>
    nmi_enabled x' = nmi_enabled x \<and> (\<forall>c. c \<notin> set cs \<longrightarrow> msr x' c = msr x c \<and> apic x' c = apic x c) \<and>
    ((\<forall>c \<in> set cs. saved_from x0 c x \<and> ucast (saved_lvtpc x c) = apic x0 c APIC_LVTPC) \<longrightarrow>
       (\<forall>c \<in> set cs. msr x' c = msr x0 c \<and> apic x' c = apic x0 c))"
  using assms
proof (induction cs arbitrary: x)
  case Nil
  then show ?case by simp
next
  case (Cons c cs)
  from cpu_shutdown_step [of x c H x0] Cons.prems obtain y where y: "nmi_cpu_shutdown H M c x = Some y"
    "mwf y" "nmi_enabled y = nmi_enabled x" "cpu_msrs y = cpu_msrs x" "saved_lvtpc y = saved_lvtpc x"
    "\<forall>c'. c' \<noteq> c \<longrightarrow> msr y c' = msr x c' \<and> apic y c' = apic x c'"
    "saved_from x0 c x \<and> ucast (saved_lvtpc x c) = apic x0 c APIC_LVTPC \<longrightarrow>
       msr y c = msr x0 c \<and> apic y c = apic x0 c" by auto
  have en: "entries d y = entries d x" for d using y(4) by (simp add: entries_def)
  have "\<forall>d \<in> set cs. ready d y" using Cons.prems(2) ready_cong [of y _ x] y(4) by simp
  from Cons.IH [OF y(2) this] Cons.prems(3) obtain x' where x':
    "for_each (nmi_cpu_shutdown H M) cs y = Some x'" "mwf x'" "nmi_enabled x' = nmi_enabled y"
    "\<forall>c. c \<notin> set cs \<longrightarrow> msr x' c = msr y c \<and> apic x' c = apic y c"
    "(\<forall>c \<in> set cs. saved_from x0 c y \<and> ucast (saved_lvtpc y c) = apic x0 c APIC_LVTPC) \<longrightarrow>
       (\<forall>c \<in> set cs. msr x' c = msr x0 c \<and> apic x' c = apic x0 c)" by auto
  have "saved_from x0 d y" if "d \<in> set cs" "saved_from x0 d x" for d
  proof -
    have "d \<noteq> c" using that(1) Cons.prems(3) by auto
    with that(2) y(6) en show ?thesis by (simp add: saved_from_def listed_def)
  qed
  with x' y Cons.prems(3) show ?case by auto
qed

lemma shutdown_restores:
  assumes "armed (online_cpus env) x" and "distinct (online_cpus env)"
  shows "\<exists>x'. nmi_shutdown H M env x = Some x' \<and> quiet x' \<and>
    (session_saved (online_cpus env) x0 x \<longrightarrow> msr x' = msr x0 \<and> apic x' = apic x0)"
proof -
  let ?x = "x\<lparr>poll := disable_poll_idle (poll x), nmi_enabled := False\<rparr>"
  have "mwf ?x" "\<forall>c \<in> set (online_cpus env). ready c ?x"
    using assms(1) by (auto simp: armed_def)
  from shutdown_loop [OF this assms(2), of H x0] obtain y where y:
    "for_each (nmi_cpu_shutdown H M) (online_cpus env) ?x = Some y" "mwf y" "\<not> nmi_enabled y"
    "\<forall>c. c \<notin> set (online_cpus env) \<longrightarrow> msr y c = msr x c \<and> apic y c = apic x c"
    "(\<forall>c \<in> set (online_cpus env). saved_from x0 c ?x \<and> ucast (saved_lvtpc x c) = apic x0 c APIC_LVTPC)
       \<longrightarrow> (\<forall>c \<in> set (online_cpus env). msr y c = msr x0 c \<and> apic y c = apic x0 c)" by auto
  have sf: "saved_from x0 c ?x = saved_from x0 c x" for c
    by (simp add: saved_from_def listed_def entries_def)
  obtain ms where f: "free_msrs (possible_cpus env) (y\<lparr>nmi_handler := False\<rparr>) =
      y\<lparr>nmi_handler := False, cpu_msrs := ms\<rparr>" using free_msrs_structs by blast
  have "mwf (y\<lparr>nmi_handler := False, cpu_msrs := ms\<rparr>)"
    by (rule mwf_same [OF y(2)]) (simp add: same_vars_def)
  moreover have "msr y = msr x0 \<and> apic y = apic x0" if "session_saved (online_cpus env) x0 x"
  proof -
    have "msr y c = msr x0 c \<and> apic y c = apic x0 c" for c
      using that y(4,5) sf by (cases "c \<in> set (online_cpus env)") (simp_all add: session_saved_def)
    then show ?thesis by auto
  qed
  ultimately show ?thesis using y(1,3) f by (simp add: nmi_shutdown_def quiet_def)
qed

end

section \<open>The back end\<close>

text \<open>The x86 state out of the back ends' part of the driver's state.\<close>

definition x86_of :: "('h nmi_kstate_ext) timer_kstate_ext \<Rightarrow> x86_state" where
  "x86_of h = x86 (kstate.extend undefined h)"

lemma x86_of [simp]: "x86_of (kstate.more k) = x86 k"
  by (cases k) (simp add: x86_of_def kstate.defs)

lemma x86_update_more: "kstate.more k' = kstate.more k \<Longrightarrow> x86 k' = x86 k"
  by (metis x86_of)

lemma kernel_keeps_x86 [simp]: "kernel_keeps possible k (k'\<lparr>x86 := x\<rparr>) = kernel_keeps possible k k'"
  by (simp add: kernel_keeps_def buffers_ok_def)

text \<open>
  What happens between setup and shutdown: the operations of the back end, interrupts on online
  CPUs, the counting of the hardware in the listed registers, writes to the control files, and
  the other activity of the driver, which keeps the buffers usable.
\<close>

inductive nmi_step ::
  "x86_hw \<Rightarrow> ('h, 'r) op_x86_model_spec \<Rightarrow> kernel_env \<Rightarrow> 'h nmi_kstate_scheme \<Rightarrow>
   'h nmi_kstate_scheme \<Rightarrow> bool" for H M env where
  start: "nmi_start H M env k = Some (r, k') \<Longrightarrow> nmi_step H M env k k'"
| stop: "nmi_stop H M env k = Some k' \<Longrightarrow> nmi_step H M env k k'"
| adapt: "x86_rc (nmi_adapt M env) k = Some (b, k') \<Longrightarrow> nmi_step H M env k k'"
| suspend: "nmi_suspend H M env k = Some k' \<Longrightarrow> nmi_step H M env k k'"
| resume: "nmi_resume H M env k = Some k' \<Longrightarrow> nmi_step H M env k k'"
| interrupt: "c \<in> set (online_cpus env) \<Longrightarrow> sampler_ok sp \<Longrightarrow>
    profile_exceptions_notify M sp c t k = Some (d, k') \<Longrightarrow> nmi_step H M env k k'"
| counting: "\<forall>c a. c \<notin> set (online_cpus env) \<or> a \<notin> listed c (x86 k) \<longrightarrow> ms c a = msr (x86 k) c a \<Longrightarrow>
    nmi_step H M env k (k\<lparr>x86 := (x86 k)\<lparr>msr := ms\<rparr>\<rparr>)"
| idle_poll: "nmi_step H M env k (k\<lparr>x86 := (x86 k)\<lparr>poll := (poll (x86 k))\<lparr>poll_idle_enabled := v\<rparr>\<rparr>\<rparr>)"
| configure: "length cfg = length (counter_config (x86 k)) \<Longrightarrow>
    nmi_step H M env k (k\<lparr>x86 := (x86 k)\<lparr>counter_config := cfg\<rparr>\<rparr>)"
| driver: "kernel_keeps (possible_cpus env) k k' \<Longrightarrow> x86 k' = x86 k \<Longrightarrow> nmi_step H M env k k'"

inductive nmi_run ::
  "x86_hw \<Rightarrow> ('h, 'r) op_x86_model_spec \<Rightarrow> kernel_env \<Rightarrow> 'h nmi_kstate_scheme \<Rightarrow>
   'h nmi_kstate_scheme \<Rightarrow> bool" for H M env k0 where
  begin_run: "nmi_run H M env k0 k0"
| further_step: "nmi_run H M env k0 k \<Longrightarrow> nmi_step H M env k k' \<Longrightarrow> nmi_run H M env k0 k'"

text \<open>The kernel around the back end: CPUs that are listed once, and allocations of the size
  asked for.\<close>

definition sys_ok :: "kernel_env \<Rightarrow> x86_hw \<Rightarrow> bool" where
  "sys_ok env H \<longleftrightarrow> env_ok env \<and> distinct (online_cpus env) \<and> hw_ok H"

locale nmi_backend = x86_model M mwf m n ready
  for M :: "('h, 'r) op_x86_model_spec" and mwf m n ready +
  fixes env :: kernel_env and H :: x86_hw
  assumes surroundings: "mwf x \<Longrightarrow> sys_ok env H"
begin

lemma online_possible:
  "armed cs x \<Longrightarrow> set (online_cpus env) \<subseteq> set (possible_cpus env)"
  "armed cs x \<Longrightarrow> distinct (online_cpus env)"
  using surroundings [of x] by (simp_all add: armed_def sys_ok_def env_ok_def)

lemma nmi_setup_armed:
  assumes "mwf x"
  shows "\<exists>r x'. nmi_setup H M env x = Some (r, x') \<and> mwf x' \<and>
    (if r = rc_ok
     then armed (online_cpus env) x' \<and> session_saved (online_cpus env) x x' \<and> nmi_enabled x' \<and>
       \<not> nmi_ctr_running x'
     else msr x' = msr x \<and> apic x' = apic x \<and> (quiet x \<longrightarrow> quiet x'))"
  using setup_armed [OF assms] surroundings [OF assms] by (simp add: sys_ok_def)

text \<open>What start, stop and interrupts keep of the kernel state.\<close>

definition nmi_keeps :: "'h nmi_kstate_scheme \<Rightarrow> 'h nmi_kstate_scheme \<Rightarrow> bool" where
  "nmi_keeps k k' \<longleftrightarrow> kernel_keeps (possible_cpus env) k k' \<and> armed (online_cpus env) (x86 k') \<and>
     only_listed (online_cpus env) (x86 k) (x86 k')"

lemma nmi_keeps_refl:
  "buffers_ok (possible_cpus env) k \<Longrightarrow> armed (online_cpus env) (x86 k) \<Longrightarrow> nmi_keeps k k"
  by (simp add: nmi_keeps_def kernel_keeps_refl)

lemma nmi_keeps_trans: "nmi_keeps k k1 \<Longrightarrow> nmi_keeps k1 k2 \<Longrightarrow> nmi_keeps k k2"
  by (auto simp: nmi_keeps_def intro: kernel_keeps_trans only_listed_trans)

lemma nmi_keeps_flags:
  "nmi_keeps k k' \<Longrightarrow> nmi_keeps k (k'\<lparr>x86 := (x86 k')\<lparr>nmi_ctr_running := r\<rparr>\<rparr>)"
  "nmi_keeps k k' \<Longrightarrow> nmi_keeps k (k'\<lparr>x86 := (x86 k')\<lparr>poll := p\<rparr>\<rparr>)"
  by (simp_all add: nmi_keeps_def)

lemma nmi_on_x86:
  assumes "nmi_keeps k0 k" and "c \<in> set (online_cpus env)"
    and "\<And>x. mwf x \<Longrightarrow> ready c x \<Longrightarrow> \<exists>x'. f x = Some x' \<and> mwf x' \<and> only_regs c x x'"
  shows "\<exists>k'. on_x86 f k = Some k' \<and> nmi_keeps k0 k'"
proof -
  have ar: "armed (online_cpus env) (x86 k)" using assms(1) by (simp add: nmi_keeps_def)
  then have "mwf (x86 k)" "ready c (x86 k)" using assms(2) by (auto simp: armed_def)
  from assms(3) [OF this] obtain x' where x': "f (x86 k) = Some x'" "mwf x'" "only_regs c (x86 k) x'"
    by blast
  have "armed (online_cpus env) x'"
    using assms(1) armed_only_regs [OF _ x'(2,3)] by (simp add: nmi_keeps_def)
  moreover have "only_listed (online_cpus env) (x86 k0) x'"
    using assms(1) only_regs_only_listed [OF x'(3) assms(2)] only_listed_trans
    by (auto simp: nmi_keeps_def)
  ultimately show ?thesis
    using assms(1) x'(1) by (simp add: on_x86_def nmi_keeps_def)
qed

lemma nmi_on_cpu:
  assumes "nmi_keeps k0 k" and "c \<in> set (online_cpus env)"
  shows "\<exists>k'. on_cpu c (handle h) k = Some k' \<and> nmi_keeps k0 k'"
proof -
  have "armed (online_cpus env) (x86 k)" using assms(1) by (simp add: nmi_keeps_def)
  from online_possible(1) [OF this]
  have "buffers_ok (possible_cpus env) k" "c \<in> set (possible_cpus env)"
    using assms by (auto simp: nmi_keeps_def kernel_keeps_def)
  from on_cpu_keeps [OF this] obtain k' where k': "on_cpu c (handle h) k = Some k'"
    "kernel_keeps (possible_cpus env) k k'" "kstate.more k' = kstate.more k" by blast
  then have "x86 k' = x86 k" by (intro x86_update_more)
  with assms(1) k' show ?thesis by (auto simp: nmi_keeps_def intro: kernel_keeps_trans)
qed

lemma start_ok:
  assumes "buffers_ok (possible_cpus env) k" and "armed (online_cpus env) (x86 k)"
  shows "\<exists>k'. nmi_start H M env k = Some (rc_ok, k') \<and> nmi_keeps k k'"
proof -
  let ?k = "k\<lparr>x86 := (x86 k)\<lparr>nmi_ctr_running := True\<rparr>\<rparr>"
  have "\<exists>k'. for_each (nmi_cpu_start H M) (online_cpus env) ?k = Some k' \<and> nmi_keeps k k'"
  proof (rule for_each_invariant [where I = "nmi_keeps k"])
    show "nmi_keeps k ?k" using nmi_keeps_refl [OF assms] nmi_keeps_flags(1) by blast
    fix c k1 assume c: "c \<in> set (online_cpus env)" and k1: "nmi_keeps k k1"
    from nmi_on_cpu [OF k1 c, of "H_start (start_tb H c)"] obtain k2 where
      k2: "on_cpu c (oprofile_add_start (start_tb H c)) k1 = Some k2" "nmi_keeps k k2"
      by (auto simp: on_cpu_def)
    from nmi_on_x86 [OF k2(2) c start_law] k2(1)
    show "\<exists>k'. nmi_cpu_start H M c k1 = Some k' \<and> nmi_keeps k k'"
      by (simp add: nmi_cpu_start_def)
  qed
  then show ?thesis using nmi_keeps_flags(2) by (auto simp: nmi_start_def)
qed

lemma stop_ok:
  assumes "buffers_ok (possible_cpus env) k" and "armed (online_cpus env) (x86 k)"
  shows "\<exists>k'. nmi_stop H M env k = Some k' \<and> nmi_keeps k k'"
proof -
  have "\<exists>k'. for_each (nmi_cpu_stop H M) (online_cpus env) k = Some k' \<and> nmi_keeps k k'"
  proof (rule for_each_invariant [where I = "nmi_keeps k"])
    show "nmi_keeps k k" using nmi_keeps_refl [OF assms] .
    fix c k1 assume c: "c \<in> set (online_cpus env)" and k1: "nmi_keeps k k1"
    from nmi_on_x86 [OF k1 c stop_law] obtain k2 where
      k2: "on_x86 (spec_stop M c) k1 = Some k2" "nmi_keeps k k2" by blast
    from nmi_on_cpu [OF k2(2) c, of "H_stop (stop_tb H c)"] obtain k3 where
      k3: "on_cpu c (oprofile_add_stop (stop_tb H c)) k2 = Some k3" "nmi_keeps k k3"
      by (auto simp: on_cpu_def)
    with k2(1) nmi_keeps_flags(2) show "\<exists>k'. nmi_cpu_stop H M c k1 = Some k' \<and> nmi_keeps k k'"
      by (simp add: nmi_cpu_stop_def)
  qed
  then show ?thesis using nmi_keeps_flags(1) by (auto simp: nmi_stop_def)
qed

lemma only_cpu_keeps:
  assumes "buffers_ok possible k" and "only_cpu c k k'"
  shows "kernel_keeps possible k k'"
proof -
  obtain b where b: "b = cpu_buffer k' c" by blast
  then have "k' = k\<lparr>cpu_buffer := (cpu_buffer k)(c := b), x86 := x86 k'\<rparr>"
    "ring_keeps (cpu_buffer k c) b" using assms(2) by (simp_all add: only_cpu_def)
  then obtain x where "k' = k\<lparr>cpu_buffer := (cpu_buffer k)(c := b), x86 := x\<rparr>" by blast
  with assms(1) \<open>ring_keeps (cpu_buffer k c) b\<close> show ?thesis
    by (auto simp: kernel_keeps_def buffers_ok_def ring_keeps_def)
qed

lemma check_keeps:
  assumes "buffers_ok (possible_cpus env) k" and "armed (online_cpus env) (x86 k)"
    and "c \<in> set (online_cpus env)" and "sampler_ok sp"
  shows "\<exists>k'. check_ctrs M sp c t k = Some k' \<and> nmi_keeps k k'"
proof -
  have c: "c \<in> set (possible_cpus env)" using assms(3) online_possible(1) [OF assms(2)] by blast
  then have rdy: "mwf (x86 k)" "ready c (x86 k)" "ring_ok (cpu_buffer k c)"
    using assms(1-3) by (auto simp: armed_def buffers_ok_def)
  from check_law [OF rdy assms(4)] obtain k' where k': "check_ctrs M sp c t k = Some k'"
    "mwf (x86 k')" "only_regs c (x86 k) (x86 k')" "only_cpu c k k'" by blast
  then have "nmi_keeps k k'"
    using only_cpu_keeps [OF assms(1) k'(4)] armed_only_regs [OF assms(2) k'(2,3)]
      only_regs_only_listed [OF k'(3) assms(3)] by (simp add: nmi_keeps_def)
  with k'(1) show ?thesis by blast
qed

lemma interrupt_ok:
  assumes "buffers_ok (possible_cpus env) k" and "armed (online_cpus env) (x86 k)"
    and "c \<in> set (online_cpus env)" and "sampler_ok sp"
  shows "\<exists>r k'. profile_exceptions_notify M sp c t k = Some (r, k') \<and> nmi_keeps k k'"
proof -
  from nmi_on_x86 [OF nmi_keeps_refl [OF assms(1,2)] assms(3) stop_law]
  have "\<exists>k'. on_x86 (spec_stop M c) k = Some k' \<and> nmi_keeps k k'" by blast
  with check_keeps [OF assms, of t] nmi_keeps_refl [OF assms(1,2)] show ?thesis
    by (auto simp: profile_exceptions_notify_def)
qed

lemma step_keeps:
  assumes "nmi_step H M env k k'" and "buffers_ok (possible_cpus env) k"
    and "armed (online_cpus env) (x86 k)"
  shows "nmi_keeps k k'"
  using assms
proof (induction rule: nmi_step.induct)
  case (start k r k')
  with start_ok [of k] show ?case by auto
next
  case (stop k k')
  with stop_ok [of k] show ?case by auto
next
  case (adapt k b k')
  with adapt_armed [of env "x86 k"] online_possible(1) show ?case
    by (auto simp: x86_rc_def nmi_keeps_def kernel_keeps_refl)
next
  case (suspend k k')
  with stop_ok [of k] nmi_keeps_refl [of k] show ?case by (auto simp: nmi_suspend_def split: if_splits)
next
  case (resume k k')
  with start_ok [of k] nmi_keeps_refl [of k] show ?case by (auto simp: nmi_resume_def split: if_splits)
next
  case (interrupt c sp t k d k')
  with interrupt_ok [of k c sp t] show ?case by auto
next
  case (counting k ms)
  then have "only_listed (online_cpus env) (x86 k) ((x86 k)\<lparr>msr := ms\<rparr>)"
    by (auto simp: only_listed_def)
  with counting show ?case
    by (simp add: nmi_keeps_def kernel_keeps_refl armed_def)
next
  case (idle_poll k v)
  show ?case by (intro nmi_keeps_flags(2) nmi_keeps_refl idle_poll)
next
  case (configure cfg k)
  then have "mwf ((x86 k)\<lparr>counter_config := cfg\<rparr>)"
    by - (rule mwf_same [of "x86 k"], simp_all add: armed_def same_vars_def)
  with configure show ?case by (simp add: nmi_keeps_def kernel_keeps_refl armed_def)
next
  case (driver k k')
  then show ?case by (simp add: nmi_keeps_def)
qed

lemma run_keeps:
  assumes "nmi_run H M env k k'" and "buffers_ok (possible_cpus env) k"
    and "armed (online_cpus env) (x86 k)"
  shows "nmi_keeps k k'"
  using assms
proof (induction rule: nmi_run.induct)
  case begin_run
  then show ?case by (rule nmi_keeps_refl)
next
  case (further_step k1 k2)
  then have k1: "nmi_keeps k k1" by simp
  then have "buffers_ok (possible_cpus env) k1" "armed (online_cpus env) (x86 k1)"
    by (simp_all add: nmi_keeps_def kernel_keeps_def)
  from step_keeps [OF further_step.hyps(2) this] k1 show ?case by (rule nmi_keeps_trans [rotated])
qed

text \<open>A session gives every register and every APIC entry back as it found it.\<close>

lemma session_restores:
  assumes "buffers_ok (possible_cpus env) k" and "mwf (x86 k)"
    and "nmi_setup H M env (x86 k) = Some (rc_ok, x1)"
    and "nmi_run H M env (k\<lparr>x86 := x1\<rparr>) k2"
  shows "\<exists>x3. nmi_shutdown H M env (x86 k2) = Some x3 \<and> msr x3 = msr (x86 k) \<and>
    apic x3 = apic (x86 k)"
proof -
  from nmi_setup_armed [OF assms(2)] assms(3)
  have x1: "armed (online_cpus env) x1" "session_saved (online_cpus env) (x86 k) x1" by auto
  have "buffers_ok (possible_cpus env) (k\<lparr>x86 := x1\<rparr>)" using assms(1) by (simp add: buffers_ok_def)
  from run_keeps [OF assms(4) this] x1(1)
  have k2: "armed (online_cpus env) (x86 k2)" "only_listed (online_cpus env) x1 (x86 k2)"
    by (simp_all add: nmi_keeps_def)
  from shutdown_restores [OF k2(1) online_possible(2) [OF k2(1)], of H "x86 k"]
    session_saved_only_listed [OF x1(2) k2(2)] show ?thesis by blast
qed

end

sublocale nmi_backend \<subseteq> session: backend env "\<lambda>h. quiet (x86_of h)"
    "\<lambda>h. armed (online_cpus env) (x86_of h)" "nmi_operations H M env cpu_type nc no_operations"
  for cpu_type nc
proof (unfold_locales, goal_cases)
  case (1 f k)
  then have "mwf (x86 k)" by (simp add: quiet_def)
  from nmi_setup_armed [OF this] 1 show ?case
    by (auto simp: nmi_operations_def no_operations_def x86_rc_def kernel_keeps_refl
        split: if_splits)
next
  case (3 k)
  then show ?case
    using start_ok [of k] by (auto simp: nmi_operations_def call_rc_def nmi_keeps_def)
next
  case (4 k)
  then show ?case
    using stop_ok [of k] by (auto simp: nmi_operations_def call_void_def nmi_keeps_def)
next
  case (5 f k)
  then show ?case
    using adapt_armed [of env "x86 k"] online_possible(1)
    by (auto simp: nmi_operations_def x86_rc_def kernel_keeps_refl)
next
  case (6 k)
  then show ?case
    using shutdown_restores [of env "x86 k" H "x86 k"] online_possible
    by (auto simp: nmi_operations_def call_optional_def on_x86_def kernel_keeps_refl)
qed (simp_all add: nmi_operations_def no_operations_def)

end
