(* ===== verification/Op_Ppro.thy ===== *)
theory Op_Ppro
  imports Nmi_Contract
begin

text \<open>
  \<^verbatim>\<open>x86/op_model_ppro.c\<close>: the two counters of the P6 family, used for the architectural
  performance monitoring of later processors as well. The model meets the contract of a counter
  model (theory Nmi\_Contract).
\<close>

section \<open>The model\<close>

text \<open>The addresses of the registers, from the kernel's headers.\<close>

record p6_msrs =
  MSR_P6_PERFCTR0 :: u32
  MSR_P6_PERFCTR1 :: u32
  MSR_P6_EVNTSEL0 :: u32
  MSR_P6_EVNTSEL1 :: u32

text \<open>The macro of the file for the event; the others are in theory X86\_Machine.\<close>

definition CTRL_SET_EVENT :: "ulong \<Rightarrow> u32 \<Rightarrow> u32" where
  "CTRL_SET_EVENT e val = val OR ucast e"

text \<open>\<^verbatim>\<open>ppro_init\<close>; \<open>kmalloc\<close> gives the contents of a newly allocated array.\<close>

definition ppro_init :: "(nat \<Rightarrow> u64 list option) \<Rightarrow> x86_state \<Rightarrow> rc \<times> x86_state" where
  "ppro_init kmalloc x =
     (if ppro_reset_value x = None then
        let x = x\<lparr>ppro_reset_value := kmalloc (ppro_num_counters x)\<rparr>
        in if ppro_reset_value x = None then (Inl ENOMEM, x) else (rc_ok, x)
      else (rc_ok, x))"

definition ppro_fill_in_addresses :: "p6_msrs \<Rightarrow> nat \<Rightarrow> x86_state \<Rightarrow> x86_state option" where
  "ppro_fill_in_addresses P c x =
     do { cs \<leftarrow> set_addr 0 (MSR_P6_PERFCTR0 P) (counters (cpu_msrs x c));
          cs \<leftarrow> set_addr 1 (MSR_P6_PERFCTR1 P) cs;
          ds \<leftarrow> set_addr 0 (MSR_P6_EVNTSEL0 P) (controls (cpu_msrs x c));
          ds \<leftarrow> set_addr 1 (MSR_P6_EVNTSEL1 P) ds;
          Some (set_msrs c \<lparr>counters = cs, controls = ds\<rparr> x) }"

text \<open>The control word of an enabled counter, from what the register held.\<close>

definition ppro_control :: "op_counter_config \<Rightarrow> u32 \<Rightarrow> u32" where
  "ppro_control g low =
     CTRL_SET_EVENT (cc_event g) (CTRL_SET_UM (cc_unit_mask g) (CTRL_SET_KERN (cc_kernel g)
       (CTRL_SET_USR (cc_user g) (CTRL_SET_ENABLE (CTRL_CLEAR low)))))"

definition ppro_enable_ctr :: "nat \<Rightarrow> nat \<Rightarrow> x86_state \<Rightarrow> x86_state option" where
  "ppro_enable_ctr c i x =
     do { g \<leftarrow> config i x;
          if cc_enabled g \<noteq> 0 then
            do { _ \<leftarrow> elem (ppro_reset_value x) i;
                 let x = x\<lparr>ppro_reset_value := map_option (\<lambda>vs. vs[i := cc_count g]) (ppro_reset_value x)\<rparr>
                 in do { x \<leftarrow> CTR_WRITE (cc_count g) c i x;
                         ctrl_modify c (\<lambda>low high. (ppro_control g low, high)) i x } }
          else Some x }"

definition ppro_setup_ctrs :: "nat \<Rightarrow> x86_state \<Rightarrow> x86_state option" where
  "ppro_setup_ctrs c x =
     do { x \<leftarrow> for_each (ctrl_modify c (\<lambda>low high. (CTRL_CLEAR low, high))) [0..<ppro_num_counters x] x;
          x \<leftarrow> for_each (CTR_WRITE 1 c) [0..<ppro_num_counters x] x;
          for_each (ppro_enable_ctr c) [0..<ppro_num_counters x] x }"

text \<open>\<open>tb\<close> is the clock that the function reads.\<close>

definition ppro_start :: "u64 \<Rightarrow> nat \<Rightarrow> x86_state \<Rightarrow> x86_state option" where
  "ppro_start tb c x =
     ctrl_modify c (\<lambda>low high. (CTRL_SET_ACTIVE low, high)) 0
       (x\<lparr>ppro_start_timestamp := (ppro_start_timestamp x)(c := tb)\<rparr>)"

definition ppro_stop :: "nat \<Rightarrow> x86_state \<Rightarrow> x86_state option" where
  "ppro_stop c x = ctrl_modify c (\<lambda>low high. (CTRL_SET_INACTIVE low, high)) 0 x"

text \<open>One round of the loop of \<^verbatim>\<open>ppro_check_ctrs\<close>.\<close>

definition ppro_check_ctr ::
  "'r sampler \<Rightarrow> nat \<Rightarrow> 'r nmi \<Rightarrow> nat \<Rightarrow> 'h nmi_kstate_scheme \<Rightarrow> 'h nmi_kstate_scheme option" where
  "ppro_check_ctr sp c t i k =
     do { (low, high) \<leftarrow> CTR_READ c i (x86 k);
          if CTR_OVERFLOWED low then
            do { k \<leftarrow> add_counter_sample sp c t (ppro_start_timestamp (x86 k) c) (entry_tb t) i k;
                 v \<leftarrow> elem (ppro_reset_value (x86 k)) i;
                 on_x86 (CTR_WRITE v c i) k }
          else Some k }"

definition ppro_check_ctrs ::
  "u32 \<Rightarrow> 'r sampler \<Rightarrow> nat \<Rightarrow> 'r nmi \<Rightarrow> 'h nmi_kstate_scheme \<Rightarrow> 'h nmi_kstate_scheme option" where
  "ppro_check_ctrs lvt_masked sp c t k =
     do { k \<leftarrow> on_x86 (ppro_stop c) k;
          k \<leftarrow> for_each (ppro_check_ctr sp c t) [0..<ppro_num_counters (x86 k)] k;
          k \<leftarrow> on_x86 (\<lambda>x. Some (apic_write c APIC_LVTPC (apic_read c APIC_LVTPC x AND NOT lvt_masked) x)) k;
          k \<leftarrow> on_x86 (ppro_start (restart_tb t) c) k;
          Some (k\<lparr>x86 := (x86 k)\<lparr>ppro_start_timestamp := (ppro_start_timestamp (x86 k))(c := exit_tb t)\<rparr>\<rparr>) }"

definition ppro_exit :: "x86_state \<Rightarrow> x86_state" where
  "ppro_exit x = (if ppro_reset_value x \<noteq> None then x\<lparr>ppro_reset_value := None\<rparr> else x)"

definition op_ppro_spec ::
  "(nat \<Rightarrow> u64 list option) \<Rightarrow> p6_msrs \<Rightarrow> x86_hw \<Rightarrow> ('h, 'r) op_x86_model_spec" where
  "op_ppro_spec kmalloc P H =
     \<lparr>num_counters = (\<lambda>_. 2), num_controls = (\<lambda>_. 2),
      spec_init = Some (ppro_init kmalloc), spec_exit = Some ppro_exit,
      fill_in_addresses = ppro_fill_in_addresses P, setup_ctrs = ppro_setup_ctrs,
      check_ctrs = ppro_check_ctrs (APIC_LVT_MASKED H), spec_start = ppro_start, spec_stop = ppro_stop,
      spec_shutdown = None\<rparr>"

section \<open>Architectural performance monitoring\<close>

text \<open>\<^verbatim>\<open>union rr_cpuid10_eax\<close>, and what the kernel knows of the CPU.\<close>

record cpuid10 =
  version_id :: nat
  num_events :: nat
  bit_width :: nat
  mask_length :: nat

definition split_cpuid10 :: "u32 \<Rightarrow> cpuid10" where
  "split_cpuid10 full =
     \<lparr>version_id = unat (full AND 0xFF), num_events = unat (drop_bit 8 full AND 0xFF),
      bit_width = unat (drop_bit 16 full AND 0xFF), mask_length = unat (drop_bit 24 full AND 0xFF)\<rparr>"

definition arch_perfmon_setup_counters ::
  "u32 \<Rightarrow> nat \<Rightarrow> nat \<Rightarrow> x86_state \<Rightarrow> x86_state" where
  "arch_perfmon_setup_counters cpuid_eax_10 family cpu_model x =
     (let eax = split_cpuid10 cpuid_eax_10;
          eax = (if version_id eax = 0 \<and> family = 6 \<and> cpu_model = 15
                 then eax\<lparr>version_id := 2, num_events := 2, bit_width := 40\<rparr> else eax);
          x = (if counter_width x < bit_width eax then x\<lparr>counter_width := bit_width eax\<rparr> else x);
          x = x\<lparr>ppro_num_counters := 2\<rparr>
      in x\<lparr>arch_num_counters := of_nat (ppro_num_counters x),
           arch_num_controls := of_nat (ppro_num_counters x)\<rparr>)"

definition arch_perfmon_init ::
  "(nat \<Rightarrow> u64 list option) \<Rightarrow> u32 \<Rightarrow> nat \<Rightarrow> nat \<Rightarrow> x86_state \<Rightarrow> rc \<times> x86_state" where
  "arch_perfmon_init kmalloc cpuid_eax_10 family cpu_model x =
     ppro_init kmalloc (arch_perfmon_setup_counters cpuid_eax_10 family cpu_model x)"

definition op_arch_perfmon_spec ::
  "(nat \<Rightarrow> u64 list option) \<Rightarrow> p6_msrs \<Rightarrow> x86_hw \<Rightarrow> u32 \<Rightarrow> nat \<Rightarrow> nat \<Rightarrow> ('h, 'r) op_x86_model_spec"
where
  "op_arch_perfmon_spec kmalloc P H cpuid_eax_10 family cpu_model =
     \<lparr>num_counters = arch_num_counters, num_controls = arch_num_controls,
      spec_init = Some (arch_perfmon_init kmalloc cpuid_eax_10 family cpu_model),
      spec_exit = Some ppro_exit,
      fill_in_addresses = ppro_fill_in_addresses P, setup_ctrs = ppro_setup_ctrs,
      check_ctrs = ppro_check_ctrs (APIC_LVT_MASKED H), spec_start = ppro_start, spec_stop = ppro_stop,
      spec_shutdown = None\<rparr>"

section \<open>The contract\<close>

text \<open>What the model needs: nonzero register addresses, the array of reset values, and the
  counter configuration.\<close>

definition p6_ok :: "p6_msrs \<Rightarrow> bool" where
  "p6_ok P \<longleftrightarrow> MSR_P6_PERFCTR0 P \<noteq> 0 \<and> MSR_P6_PERFCTR1 P \<noteq> 0 \<and>
     MSR_P6_EVNTSEL0 P \<noteq> 0 \<and> MSR_P6_EVNTSEL1 P \<noteq> 0"

definition ppro_wf :: "p6_msrs \<Rightarrow> kernel_env \<Rightarrow> x86_hw \<Rightarrow> x86_state \<Rightarrow> bool" where
  "ppro_wf P env H x \<longleftrightarrow> p6_ok P \<and> sys_ok env H \<and> ppro_num_counters x = 2 \<and>
     (\<exists>vs. ppro_reset_value x = Some vs \<and> length vs = 2) \<and>
     length (counter_config x) = OP_MAX_COUNTER"

definition arch_wf :: "p6_msrs \<Rightarrow> kernel_env \<Rightarrow> x86_hw \<Rightarrow> x86_state \<Rightarrow> bool" where
  "arch_wf P env H x \<longleftrightarrow> ppro_wf P env H x \<and> arch_num_counters x = 2 \<and> arch_num_controls x = 2"

lemma ppro_wf_same: "ppro_wf P env H x \<Longrightarrow> same_vars x x' \<Longrightarrow> ppro_wf P env H x'"
  by (simp add: ppro_wf_def same_vars_def)

lemma length_2: "length xs = 2 \<longleftrightarrow> (\<exists>a b. xs = [a, b])"
  by (cases xs; cases "tl xs") auto

lemma ppro_fill:
  assumes "p6_ok P" and "msrs_sized 2 2 c x"
  shows "\<exists>ms. ppro_fill_in_addresses P c x = Some (set_msrs c ms x) \<and>
    msrs_sized 2 2 c (set_msrs c ms x) \<and> (\<forall>e \<in> set (entries c (set_msrs c ms x)). addr e \<noteq> 0)"
proof -
  from assms(2) obtain p q r s where
    x: "cpu_msrs x c = \<lparr>counters = Some [p, q], controls = Some [r, s]\<rparr>"
    by (auto simp: msrs_sized_def length_2)
  let ?cs = "[p\<lparr>addr := ucast (MSR_P6_PERFCTR0 P)\<rparr>, q\<lparr>addr := ucast (MSR_P6_PERFCTR1 P)\<rparr>]"
  let ?ds = "[r\<lparr>addr := ucast (MSR_P6_EVNTSEL0 P)\<rparr>, s\<lparr>addr := ucast (MSR_P6_EVNTSEL1 P)\<rparr>]"
  let ?ms = "\<lparr>counters = Some ?cs, controls = Some ?ds\<rparr>"
  have "ppro_fill_in_addresses P c x = Some (set_msrs c ?ms x)"
    using x by (simp add: ppro_fill_in_addresses_def set_addr_def elem_def)
  moreover have "msrs_sized 2 2 c (set_msrs c ?ms x)"
    by (simp add: msrs_sized_def set_msrs_def)
  moreover have "\<forall>e \<in> set (entries c (set_msrs c ?ms x)). addr e \<noteq> 0"
    using assms(1) by (simp add: entries_def set_msrs_def p6_ok_def)
  ultimately show ?thesis by blast
qed

lemma ppro_wf_msr [simp]: "ppro_wf P env H (x\<lparr>msr := ms\<rparr>) = ppro_wf P env H x"
  by (simp add: ppro_wf_def)

lemma ppro_enable_ok:
  assumes "ppro_wf P env H x" and "msrs_sized 2 2 c x" and "i < 2"
  shows "\<exists>x'. ppro_enable_ctr c i x = Some x' \<and> ppro_wf P env H x' \<and> only_regs c x x' \<and> apic x' = apic x"
proof -
  from assms(1) obtain vs where vs: "ppro_reset_value x = Some vs" "length vs = 2"
    by (auto simp: ppro_wf_def)
  obtain g where g: "config i x = Some g"
    using assms(1,3) by (simp add: config_def elem_def ppro_wf_def OP_MAX_COUNTER_def)
  let ?x = "x\<lparr>ppro_reset_value := Some (vs[i := cc_count g])\<rparr>"
  have x: "ppro_wf P env H ?x" "msrs_sized 2 2 c ?x" "only_regs c x ?x" "apic ?x = apic x"
    using assms(1,2) vs by (simp_all add: ppro_wf_def msrs_sized_def only_regs_def)
  from ctr_write_frame [OF x(2) assms(3)] obtain m1 where
    m1: "CTR_WRITE (cc_count g) c i ?x = Some (?x\<lparr>msr := m1\<rparr>)" "only_regs c ?x (?x\<lparr>msr := m1\<rparr>)" by blast
  then have "msrs_sized 2 2 c (?x\<lparr>msr := m1\<rparr>)" using x(2) sized_only_regs by blast
  from ctrl_modify_frame [OF this assms(3), of "\<lambda>low high. (ppro_control g low, high)"] obtain m2 where
    m2: "ctrl_modify c (\<lambda>low high. (ppro_control g low, high)) i (?x\<lparr>msr := m1\<rparr>) = Some (?x\<lparr>msr := m2\<rparr>)"
    "only_regs c (?x\<lparr>msr := m1\<rparr>) (?x\<lparr>msr := m2\<rparr>)" by auto
  have "only_regs c x (?x\<lparr>msr := m2\<rparr>)"
    using x(3) m1(2) m2(2) only_regs_trans by blast
  then show ?thesis
    using g vs assms m1(1) m2(1) x by (auto simp: ppro_enable_ctr_def elem_def)
qed

lemma ppro_setup_ok:
  assumes "ppro_wf P env H x" and "msrs_sized 2 2 c x"
  shows "\<exists>x'. ppro_setup_ctrs c x = Some x' \<and> ppro_wf P env H x' \<and> only_regs c x x' \<and> apic x' = apic x"
proof -
  have n: "ppro_num_counters y = 2" if "ppro_wf P env H y" for y using that by (simp add: ppro_wf_def)
  let ?clear = "ctrl_modify c (\<lambda>low high. (CTRL_CLEAR low, high))"
  have two: "\<forall>i \<in> set [0..<2]. i < (2 :: nat)" by simp
  from ctrl_loop [where Q = "ppro_wf P env H", OF ppro_wf_msr [THEN iffD2] two assms] obtain x1 where
    x1: "for_each ?clear [0..<2] x = Some x1" "ppro_wf P env H x1"
    "only_regs c x x1" "apic x1 = apic x" "msrs_sized 2 2 c x1" by blast
  from ctr_loop [where Q = "ppro_wf P env H", OF ppro_wf_msr [THEN iffD2] two x1(2,5)] obtain x2 where
    x2: "for_each (CTR_WRITE 1 c) [0..<2] x1 = Some x2"
    "ppro_wf P env H x2" "only_regs c x1 x2" "apic x2 = apic x1" "msrs_sized 2 2 c x2"
    by blast
  have "\<exists>x'. for_each (ppro_enable_ctr c) [0..<2] x2 = Some x' \<and> ppro_wf P env H x' \<and>
      only_regs c x2 x' \<and> apic x' = apic x2 \<and> msrs_sized 2 2 c x'"
    by (rule reg_loop [where Q = "ppro_wf P env H", OF _ x2(2,5)]) (simp add: ppro_enable_ok)
  then obtain x3 where x3: "for_each (ppro_enable_ctr c) [0..<2] x2 = Some x3"
    "ppro_wf P env H x3" "only_regs c x2 x3" "apic x3 = apic x2" by blast
  have "only_regs c x x3" using x1(3) x2(3) x3(3) only_regs_trans by blast
  moreover have "ppro_setup_ctrs c x = Some x3"
    unfolding ppro_setup_ctrs_def n [OF assms(1)] x1(1) bind.bind_lunit n [OF x1(2)] x2(1)
      n [OF x2(2)] by (rule x3(1))
  ultimately show ?thesis using x1 x2 x3 by simp
qed

lemma ppro_stop_ok:
  assumes "ppro_wf P env H x" and "msrs_sized 2 2 c x"
  shows "\<exists>x'. ppro_stop c x = Some x' \<and> ppro_wf P env H x' \<and> only_regs c x x'"
  using ctrl_modify_frame [OF assms(2), of 0 "\<lambda>low high. (CTRL_SET_INACTIVE low, high)"] assms(1)
  by (auto simp: ppro_stop_def)

lemma ppro_start_ok:
  assumes "ppro_wf P env H x" and "msrs_sized 2 2 c x"
  shows "\<exists>x'. ppro_start tb c x = Some x' \<and> ppro_wf P env H x' \<and> only_regs c x x'"
proof -
  let ?x = "x\<lparr>ppro_start_timestamp := (ppro_start_timestamp x)(c := tb)\<rparr>"
  have x: "msrs_sized 2 2 c ?x" "ppro_wf P env H ?x" "only_regs c x ?x"
    using assms by (simp_all add: msrs_sized_def ppro_wf_def only_regs_def)
  from ctrl_modify_frame [OF x(1), of 0 "\<lambda>low high. (CTRL_SET_ACTIVE low, high)"] obtain ms where
    "ppro_start tb c x = Some (?x\<lparr>msr := ms\<rparr>)" "only_regs c ?x (?x\<lparr>msr := ms\<rparr>)"
    by (auto simp: ppro_start_def)
  with x(2,3) show ?thesis by (auto intro: only_regs_trans)
qed

lemma ppro_check_ctr_ok:
  assumes "handler_keeps (ppro_wf P env H) 2 2 c k0 k" and "sampler_ok sp" and "i < 2"
  shows "\<exists>k'. ppro_check_ctr sp c t i k = Some k' \<and> handler_keeps (ppro_wf P env H) 2 2 c k0 k'"
proof -
  have k: "ppro_wf P env H (x86 k)" "msrs_sized 2 2 c (x86 k)"
    using assms(1) by (simp_all add: handler_keeps_def)
  from ctr_read_ok [OF k(2) assms(3)] obtain low high where
    r: "CTR_READ c i (x86 k) = Some (low, high)" by blast
  from k(1) obtain vs where vs: "ppro_reset_value (x86 k) = Some vs" "length vs = 2"
    by (auto simp: ppro_wf_def)
  from handler_sample [OF assms(1,2), of t "ppro_start_timestamp (x86 k) c" "entry_tb t" i] obtain k1 where
    k1: "add_counter_sample sp c t (ppro_start_timestamp (x86 k) c) (entry_tb t) i k = Some k1"
    "handler_keeps (ppro_wf P env H) 2 2 c k0 k1" "x86 k1 = x86 k" by blast
  from ctr_write_frame [OF k(2) assms(3), of "vs ! i"] obtain ms where
    w: "CTR_WRITE (vs ! i) c i (x86 k1) = Some ((x86 k1)\<lparr>msr := ms\<rparr>)"
    "only_regs c (x86 k1) ((x86 k1)\<lparr>msr := ms\<rparr>)" using k1(3) by auto
  have "handler_keeps (ppro_wf P env H) 2 2 c k0 (k1\<lparr>x86 := (x86 k1)\<lparr>msr := ms\<rparr>\<rparr>)"
    using k(1) k1(3) by (intro handler_x86 [OF k1(2) _ w(2)]) simp
  with assms(1,3) r vs k1(1,3) w(1) show ?thesis
    by (auto simp: ppro_check_ctr_def elem_def on_x86_def)
qed

lemma ppro_check_ok:
  assumes "ppro_wf P env H (x86 k)" and "msrs_sized 2 2 c (x86 k)" and "ring_ok (cpu_buffer k c)"
    and "sampler_ok sp"
  shows "\<exists>k'. ppro_check_ctrs lvt sp c t k = Some k' \<and> handler_keeps (ppro_wf P env H) 2 2 c k k'"
proof -
  let ?K = "handler_keeps (ppro_wf P env H) 2 2 c k"
  have wf: "ppro_wf P env H (x86 k')" "msrs_sized 2 2 c (x86 k')" "ppro_num_counters (x86 k') = 2"
    if "?K k'" for k' using that by (simp_all add: handler_keeps_def ppro_wf_def)
  have 0: "?K k" using assms(1-3) by (rule handler_keeps_refl)
  from ppro_stop_ok [OF assms(1,2)] obtain x1 where
    x1: "ppro_stop c (x86 k) = Some x1" "ppro_wf P env H x1" "only_regs c (x86 k) x1" by blast
  let ?k1 = "k\<lparr>x86 := x1\<rparr>"
  have k1: "?K ?k1" by (rule handler_x86 [OF 0 x1(2,3)])
  have "\<exists>k2. for_each (ppro_check_ctr sp c t) [0..<2] ?k1 = Some k2 \<and> ?K k2"
    by (rule handler_loop [OF k1]) (simp add: ppro_check_ctr_ok assms(4))
  then obtain k2 where k2: "for_each (ppro_check_ctr sp c t) [0..<2] ?k1 = Some k2" "?K k2" by blast
  let ?x3 = "apic_write c APIC_LVTPC (apic_read c APIC_LVTPC (x86 k2) AND NOT lvt) (x86 k2)"
  let ?k3 = "k2\<lparr>x86 := ?x3\<rparr>"
  have k3: "?K ?k3"
    using wf(1) [OF k2(2)]
    by (intro handler_x86 [OF k2(2)]) (simp_all add: apic_write_def ppro_wf_def only_regs_def)
  from ppro_start_ok [OF wf(1,2) [OF k3], of "restart_tb t"] obtain x4 where
    x4: "ppro_start (restart_tb t) c (x86 ?k3) = Some x4" "ppro_wf P env H x4"
    "only_regs c (x86 ?k3) x4" by blast
  have k4: "?K (?k3\<lparr>x86 := x4\<rparr>)" by (rule handler_x86 [OF k3 x4(2,3)])
  let ?x5 = "x4\<lparr>ppro_start_timestamp := (ppro_start_timestamp x4)(c := exit_tb t)\<rparr>"
  have "?K (?k3\<lparr>x86 := x4\<rparr>\<lparr>x86 := ?x5\<rparr>)"
    using x4(2) by (intro handler_x86 [OF k4]) (simp_all add: ppro_wf_def only_regs_def)
  moreover have "ppro_check_ctrs lvt sp c t k = Some (?k3\<lparr>x86 := x4\<rparr>\<lparr>x86 := ?x5\<rparr>)"
    using x1(1) k2(1) x4(1) wf(3) [OF k1]
    by (simp add: ppro_check_ctrs_def on_x86_def del: upt_Suc)
  ultimately show ?thesis by blast
qed

section \<open>The contract is met\<close>

interpretation ppro: nmi_backend "op_ppro_spec kmalloc P H" "ppro_wf P env H" 2 2 "msrs_sized 2 2" env H
  for kmalloc P env H
proof (unfold_locales, goal_cases)
  case (5 c x x')
  then show ?case by (rule sized_addrs)
next
  case (6 x c)
  then have "p6_ok P" by (simp add: ppro_wf_def)
  from ppro_fill [OF this 6(2)] 6 show ?case
    by (auto simp: op_ppro_spec_def set_msrs_def only_structs_def ppro_wf_def)
next
  case (11 k c sp t)
  then show ?case using ppro_check_ok [of P env H k c sp] by (auto simp: op_ppro_spec_def handler_keeps_def)
qed (simp_all add: op_ppro_spec_def ppro_setup_ok ppro_start_ok ppro_stop_ok ppro_wf_same,
  simp_all add: ppro_wf_def OP_MAX_COUNTER_def)

lemma arch_wf_step: "arch_wf P env H x \<Longrightarrow> ppro_wf P env H x' \<Longrightarrow> only_regs c x x' \<Longrightarrow> arch_wf P env H x'"
  by (simp add: arch_wf_def only_regs_def)

lemma arch_fields [simp]:
  "num_counters (op_arch_perfmon_spec kmalloc P H eax family cpu_model) = arch_num_counters"
  "num_controls (op_arch_perfmon_spec kmalloc P H eax family cpu_model) = arch_num_controls"
  "fill_in_addresses (op_arch_perfmon_spec kmalloc P H eax family cpu_model) = ppro_fill_in_addresses P"
  "setup_ctrs (op_arch_perfmon_spec kmalloc P H eax family cpu_model) = ppro_setup_ctrs"
  "check_ctrs (op_arch_perfmon_spec kmalloc P H eax family cpu_model) = ppro_check_ctrs (APIC_LVT_MASKED H)"
  "spec_start (op_arch_perfmon_spec kmalloc P H eax family cpu_model) = ppro_start"
  "spec_stop (op_arch_perfmon_spec kmalloc P H eax family cpu_model) = ppro_stop"
  "spec_shutdown (op_arch_perfmon_spec kmalloc P H eax family cpu_model) = None"
  by (simp_all add: op_arch_perfmon_spec_def)

interpretation arch: nmi_backend "op_arch_perfmon_spec kmalloc P H eax family cpu_model"
    "arch_wf P env H" 2 2 "msrs_sized 2 2" env H
  for kmalloc P H eax family cpu_model env
proof (unfold_locales, goal_cases)
  case (1 x)
  then show ?case by (simp add: arch_wf_def)
next
  case (2 x)
  then show ?case by (simp add: arch_wf_def ppro_wf_def OP_MAX_COUNTER_def)
next
  case (3 x x')
  then show ?case by (simp add: arch_wf_def ppro_wf_def same_vars_def)
next
  case (4 c x)
  then show ?case .
next
  case (5 c x x')
  then show ?case by (rule sized_addrs)
next
  case (6 x c)
  then have "p6_ok P" by (simp add: arch_wf_def ppro_wf_def)
  from ppro_fill [OF this 6(2)] 6 show ?case
    by (auto simp: set_msrs_def only_structs_def ppro_wf_def arch_wf_def)
next
  case (7 x c)
  then have "ppro_wf P env H x" by (simp add: arch_wf_def)
  from ppro_setup_ok [OF this 7(2)] 7 arch_wf_step [OF 7(1)] show ?case by auto
next
  case (8 x c tb)
  then have "ppro_wf P env H x" by (simp add: arch_wf_def)
  from ppro_start_ok [OF this 8(2), of tb] arch_wf_step [OF 8(1)] show ?case by auto
next
  case (9 x c)
  then have "ppro_wf P env H x" by (simp add: arch_wf_def)
  from ppro_stop_ok [OF this 9(2)] arch_wf_step [OF 9(1)] show ?case by auto
next
  case (11 k c sp t)
  then have "ppro_wf P env H (x86 k)" by (simp add: arch_wf_def)
  from ppro_check_ok [OF this 11(2-4), of "APIC_LVT_MASKED H" t] arch_wf_step [OF 11(1)] show ?case
    by (auto simp: handler_keeps_def)
qed (simp_all add: arch_wf_def ppro_wf_def)

end
