(* ===== verification/Op_Athlon.thy ===== *)
theory Op_Athlon
  imports Nmi_Contract
begin

text \<open>
  \<^verbatim>\<open>x86/op_model_athlon.c\<close>: the four counters of AMD processors. The macros that the file has
  in common with \<^verbatim>\<open>op_model_ppro.c\<close> are in theory X86\_Machine. The model meets the contract of
  a counter model (theory Nmi\_Contract).
\<close>

section \<open>The model\<close>

text \<open>The addresses of the four counters and controls, from the kernel's headers.\<close>

record k7_msrs =
  MSR_K7_PERFCTR :: "nat \<Rightarrow> u32"
  MSR_K7_EVNTSEL :: "nat \<Rightarrow> u32"

definition NUM_COUNTERS :: nat where "NUM_COUNTERS = 4"
definition NUM_CONTROLS :: nat where "NUM_CONTROLS = 4"

definition CTRL_CLEAR_LO :: "u32 \<Rightarrow> u32" where
  "CTRL_CLEAR_LO x = x AND push_bit 21 1"

definition CTRL_CLEAR_HI :: "u32 \<Rightarrow> u32" where
  "CTRL_CLEAR_HI x = x AND 0xfffffcf0"

definition CTRL_SET_EVENT_LOW :: "ulong \<Rightarrow> u32 \<Rightarrow> u32" where
  "CTRL_SET_EVENT_LOW e val = val OR ucast (e AND 0xff)"

definition CTRL_SET_EVENT_HIGH :: "ulong \<Rightarrow> u32 \<Rightarrow> u32" where
  "CTRL_SET_EVENT_HIGH e val = val OR ucast (drop_bit 8 e AND 0xf)"

definition CTRL_SET_HOST_ONLY :: "u32 \<Rightarrow> u32 \<Rightarrow> u32" where
  "CTRL_SET_HOST_ONLY h val = val OR push_bit 9 (h AND 1)"

definition CTRL_SET_GUEST_ONLY :: "u32 \<Rightarrow> u32 \<Rightarrow> u32" where
  "CTRL_SET_GUEST_ONLY h val = val OR push_bit 8 (h AND 1)"

definition athlon_fill_in_addresses :: "k7_msrs \<Rightarrow> nat \<Rightarrow> x86_state \<Rightarrow> x86_state option" where
  "athlon_fill_in_addresses A c x =
     do { cs \<leftarrow> set_addr 0 (MSR_K7_PERFCTR A 0) (counters (cpu_msrs x c));
          cs \<leftarrow> set_addr 1 (MSR_K7_PERFCTR A 1) cs;
          cs \<leftarrow> set_addr 2 (MSR_K7_PERFCTR A 2) cs;
          cs \<leftarrow> set_addr 3 (MSR_K7_PERFCTR A 3) cs;
          ds \<leftarrow> set_addr 0 (MSR_K7_EVNTSEL A 0) (controls (cpu_msrs x c));
          ds \<leftarrow> set_addr 1 (MSR_K7_EVNTSEL A 1) ds;
          ds \<leftarrow> set_addr 2 (MSR_K7_EVNTSEL A 2) ds;
          ds \<leftarrow> set_addr 3 (MSR_K7_EVNTSEL A 3) ds;
          Some (set_msrs c \<lparr>counters = cs, controls = ds\<rparr> x) }"

text \<open>The control word of an enabled counter, from what the register held.\<close>

definition athlon_control :: "op_counter_config \<Rightarrow> u32 \<Rightarrow> u32 \<Rightarrow> u32 \<times> u32" where
  "athlon_control g low high =
     (CTRL_SET_EVENT_LOW (cc_event g) (CTRL_SET_UM (cc_unit_mask g) (CTRL_SET_KERN (cc_kernel g)
       (CTRL_SET_USR (cc_user g) (CTRL_SET_ENABLE (CTRL_CLEAR_LO low))))),
      CTRL_SET_GUEST_ONLY 0 (CTRL_SET_HOST_ONLY 0 (CTRL_SET_EVENT_HIGH (cc_event g) high)))"

definition athlon_set_reset :: "nat \<Rightarrow> ulong \<Rightarrow> x86_state \<Rightarrow> x86_state" where
  "athlon_set_reset i v x = x\<lparr>athlon_reset_value := (athlon_reset_value x)[i := v]\<rparr>"

definition athlon_enable_ctr :: "nat \<Rightarrow> nat \<Rightarrow> x86_state \<Rightarrow> x86_state option" where
  "athlon_enable_ctr c i x =
     do { g \<leftarrow> config i x;
          if cc_enabled g \<noteq> 0 then
            do { x \<leftarrow> CTR_WRITE (cc_count g) c i (athlon_set_reset i (cc_count g) x);
                 ctrl_modify c (athlon_control g) i x }
          else Some (athlon_set_reset i 0 x) }"

definition athlon_setup_ctrs :: "nat \<Rightarrow> x86_state \<Rightarrow> x86_state option" where
  "athlon_setup_ctrs c x =
     do { x \<leftarrow> for_each (ctrl_modify c (\<lambda>low high. (CTRL_CLEAR_LO low, CTRL_CLEAR_HI high)))
                 [0..<NUM_CONTROLS] x;
          x \<leftarrow> for_each (CTR_WRITE 1 c) [0..<NUM_COUNTERS] x;
          for_each (athlon_enable_ctr c) [0..<NUM_COUNTERS] x }"

definition athlon_reset_of :: "nat \<Rightarrow> x86_state \<Rightarrow> ulong option" where
  "athlon_reset_of i x = elem (Some (athlon_reset_value x)) i"

text \<open>\<open>tb\<close> is the clock that the function reads.\<close>

definition athlon_start_ctr :: "nat \<Rightarrow> nat \<Rightarrow> x86_state \<Rightarrow> x86_state option" where
  "athlon_start_ctr c i x =
     do { v \<leftarrow> athlon_reset_of i x;
          if v \<noteq> 0 then ctrl_modify c (\<lambda>low high. (CTRL_SET_ACTIVE low, high)) i x else Some x }"

definition athlon_start :: "u64 \<Rightarrow> nat \<Rightarrow> x86_state \<Rightarrow> x86_state option" where
  "athlon_start tb c x =
     for_each (athlon_start_ctr c) [0..<NUM_COUNTERS]
       (x\<lparr>athlon_start_timestamp := (athlon_start_timestamp x)(c := tb)\<rparr>)"

definition athlon_stop :: "nat \<Rightarrow> x86_state \<Rightarrow> x86_state option" where
  "athlon_stop c x =
     for_each (ctrl_modify c (\<lambda>low high. (CTRL_SET_INACTIVE low, high))) [0..<NUM_COUNTERS] x"

text \<open>One round of the loop of \<^verbatim>\<open>athlon_check_ctrs\<close>.\<close>

definition athlon_check_ctr ::
  "'r sampler \<Rightarrow> nat \<Rightarrow> 'r nmi \<Rightarrow> nat \<Rightarrow> 'h nmi_kstate_scheme \<Rightarrow> 'h nmi_kstate_scheme option" where
  "athlon_check_ctr sp c t i k =
     do { (low, high) \<leftarrow> CTR_READ c i (x86 k);
          if CTR_OVERFLOWED low then
            do { k \<leftarrow> add_counter_sample sp c t (athlon_start_timestamp (x86 k) c) (entry_tb t) i k;
                 v \<leftarrow> athlon_reset_of i (x86 k);
                 on_x86 (CTR_WRITE v c i) k }
          else Some k }"

definition athlon_check_ctrs ::
  "'r sampler \<Rightarrow> nat \<Rightarrow> 'r nmi \<Rightarrow> 'h nmi_kstate_scheme \<Rightarrow> 'h nmi_kstate_scheme option" where
  "athlon_check_ctrs sp c t k =
     do { k \<leftarrow> on_x86 (athlon_stop c) k;
          k \<leftarrow> for_each (athlon_check_ctr sp c t) [0..<NUM_COUNTERS] k;
          k \<leftarrow> on_x86 (athlon_start (restart_tb t) c) k;
          Some (k\<lparr>x86 := (x86 k)\<lparr>athlon_start_timestamp :=
                                (athlon_start_timestamp (x86 k))(c := exit_tb t)\<rparr>\<rparr>) }"

definition op_athlon_spec :: "k7_msrs \<Rightarrow> ('h, 'r) op_x86_model_spec" where
  "op_athlon_spec A =
     \<lparr>num_counters = (\<lambda>_. of_nat NUM_COUNTERS), num_controls = (\<lambda>_. of_nat NUM_CONTROLS),
      spec_init = None, spec_exit = None,
      fill_in_addresses = athlon_fill_in_addresses A, setup_ctrs = athlon_setup_ctrs,
      check_ctrs = athlon_check_ctrs, spec_start = athlon_start, spec_stop = athlon_stop,
      spec_shutdown = None\<rparr>"

section \<open>The contract\<close>

definition k7_ok :: "k7_msrs \<Rightarrow> bool" where
  "k7_ok A \<longleftrightarrow> (\<forall>i < 4. MSR_K7_PERFCTR A i \<noteq> 0 \<and> MSR_K7_EVNTSEL A i \<noteq> 0)"

definition athlon_wf :: "k7_msrs \<Rightarrow> kernel_env \<Rightarrow> x86_hw \<Rightarrow> x86_state \<Rightarrow> bool" where
  "athlon_wf A env H x \<longleftrightarrow> k7_ok A \<and> sys_ok env H \<and> length (athlon_reset_value x) = 4 \<and>
     length (counter_config x) = OP_MAX_COUNTER"

lemma athlon_wf_same: "athlon_wf A env H x \<Longrightarrow> same_vars x x' \<Longrightarrow> athlon_wf A env H x'"
  by (simp add: athlon_wf_def same_vars_def)

lemma athlon_wf_msr [simp]: "athlon_wf A env H (x\<lparr>msr := ms\<rparr>) = athlon_wf A env H x"
  by (simp add: athlon_wf_def)

lemmas athlon_keeps_msr = athlon_wf_msr [THEN iffD2]

lemma length_4: "length xs = 4 \<longleftrightarrow> (\<exists>a b c d. xs = [a, b, c, d])"
  by (auto simp: eval_nat_numeral length_Suc_conv)

lemma athlon_fill:
  assumes "k7_ok A" and "msrs_sized 4 4 c x"
  shows "\<exists>ms. athlon_fill_in_addresses A c x = Some (set_msrs c ms x) \<and>
    msrs_sized 4 4 c (set_msrs c ms x) \<and> (\<forall>e \<in> set (entries c (set_msrs c ms x)). addr e \<noteq> 0)"
proof -
  from assms(2) obtain p q r s p' q' r' s' where
    x: "cpu_msrs x c = \<lparr>counters = Some [p, q, r, s], controls = Some [p', q', r', s']\<rparr>"
    by (auto simp: msrs_sized_def length_4)
  let ?A = "\<lambda>e a. e\<lparr>addr := ucast a\<rparr>"
  let ?ms = "\<lparr>counters = Some [?A p (MSR_K7_PERFCTR A 0), ?A q (MSR_K7_PERFCTR A 1),
                             ?A r (MSR_K7_PERFCTR A 2), ?A s (MSR_K7_PERFCTR A 3)],
             controls = Some [?A p' (MSR_K7_EVNTSEL A 0), ?A q' (MSR_K7_EVNTSEL A 1),
                             ?A r' (MSR_K7_EVNTSEL A 2), ?A s' (MSR_K7_EVNTSEL A 3)]\<rparr>"
  have "athlon_fill_in_addresses A c x = Some (set_msrs c ?ms x)"
    using x by (simp add: athlon_fill_in_addresses_def set_addr_def elem_def)
  moreover have "msrs_sized 4 4 c (set_msrs c ?ms x)"
    by (simp add: msrs_sized_def set_msrs_def)
  moreover have "\<forall>e \<in> set (entries c (set_msrs c ?ms x)). addr e \<noteq> 0"
    using assms(1) by (simp add: entries_def set_msrs_def k7_ok_def)
  ultimately show ?thesis by blast
qed

lemma athlon_set_reset:
  "athlon_wf A env H x \<Longrightarrow> athlon_wf A env H (athlon_set_reset i v x)"
  "msrs_sized 4 4 c (athlon_set_reset i v x) = msrs_sized 4 4 c x"
  "only_regs c x (athlon_set_reset i v x)" "apic (athlon_set_reset i v x) = apic x"
  by (simp_all add: athlon_set_reset_def athlon_wf_def msrs_sized_def only_regs_def)

lemma athlon_enable_ok:
  assumes "athlon_wf A env H x" and "msrs_sized 4 4 c x" and "i < 4"
  shows "\<exists>x'. athlon_enable_ctr c i x = Some x' \<and> athlon_wf A env H x' \<and> only_regs c x x' \<and>
    apic x' = apic x"
proof -
  obtain g where g: "config i x = Some g"
    using assms(1,3) by (simp add: config_def elem_def athlon_wf_def OP_MAX_COUNTER_def)
  let ?x = "athlon_set_reset i (cc_count g) x"
  have x: "athlon_wf A env H ?x" "msrs_sized 4 4 c ?x" "only_regs c x ?x" "apic ?x = apic x"
    using athlon_set_reset assms(1,2) by simp_all
  from ctr_write_frame [OF x(2) assms(3)] obtain m1 where
    m1: "CTR_WRITE (cc_count g) c i ?x = Some (?x\<lparr>msr := m1\<rparr>)" "only_regs c ?x (?x\<lparr>msr := m1\<rparr>)" by blast
  then have "msrs_sized 4 4 c (?x\<lparr>msr := m1\<rparr>)" using x(2) sized_only_regs by blast
  from ctrl_modify_frame [OF this assms(3), of "athlon_control g"] obtain m2 where
    m2: "ctrl_modify c (athlon_control g) i (?x\<lparr>msr := m1\<rparr>) = Some (?x\<lparr>msr := m2\<rparr>)"
    "only_regs c (?x\<lparr>msr := m1\<rparr>) (?x\<lparr>msr := m2\<rparr>)" by auto
  have "only_regs c x (?x\<lparr>msr := m2\<rparr>)" using x(3) m1(2) m2(2) only_regs_trans by blast
  then show ?thesis
    using g assms(1) m1(1) m2(1) x
    by (auto simp: athlon_enable_ctr_def athlon_set_reset)
qed

lemma athlon_setup_ok:
  assumes "athlon_wf A env H x" and "msrs_sized 4 4 c x"
  shows "\<exists>x'. athlon_setup_ctrs c x = Some x' \<and> athlon_wf A env H x' \<and> only_regs c x x' \<and>
    apic x' = apic x"
proof -
  let ?Q = "athlon_wf A env H"
  have four: "\<forall>i \<in> set [0..<4]. i < (4 :: nat)" by simp
  from ctrl_loop [where Q = ?Q, OF athlon_keeps_msr four assms] obtain x1 where
    x1: "for_each (ctrl_modify c (\<lambda>low high. (CTRL_CLEAR_LO low, CTRL_CLEAR_HI high))) [0..<4] x = Some x1"
    "?Q x1" "only_regs c x x1" "apic x1 = apic x" "msrs_sized 4 4 c x1" by blast
  from ctr_loop [where Q = ?Q, OF athlon_keeps_msr four x1(2,5)] obtain x2 where
    x2: "for_each (CTR_WRITE 1 c) [0..<4] x1 = Some x2"
    "?Q x2" "only_regs c x1 x2" "apic x2 = apic x1" "msrs_sized 4 4 c x2" by blast
  have "\<exists>x'. for_each (athlon_enable_ctr c) [0..<4] x2 = Some x' \<and> ?Q x' \<and>
      only_regs c x2 x' \<and> apic x' = apic x2 \<and> msrs_sized 4 4 c x'"
    by (rule reg_loop [where Q = ?Q, OF _ x2(2,5)]) (simp add: athlon_enable_ok)
  then obtain x3 where x3: "for_each (athlon_enable_ctr c) [0..<4] x2 = Some x3"
    "?Q x3" "only_regs c x2 x3" "apic x3 = apic x2" by blast
  have "only_regs c x x3" using x1(3) x2(3) x3(3) only_regs_trans by blast
  moreover have "athlon_setup_ctrs c x = Some x3"
    unfolding athlon_setup_ctrs_def NUM_CONTROLS_def NUM_COUNTERS_def x1(1) bind.bind_lunit x2(1)
    by (rule x3(1))
  ultimately show ?thesis using x1 x2 x3 by simp
qed

lemma athlon_stop_ok:
  assumes "athlon_wf A env H x" and "msrs_sized 4 4 c x"
  shows "\<exists>x'. athlon_stop c x = Some x' \<and> athlon_wf A env H x' \<and> only_regs c x x'"
proof -
  have four: "\<forall>i \<in> set [0..<4]. i < (4 :: nat)" by simp
  from ctrl_loop [where Q = "athlon_wf A env H", OF athlon_keeps_msr four assms]
  show ?thesis unfolding athlon_stop_def NUM_COUNTERS_def by blast
qed

lemma athlon_start_ok:
  assumes "athlon_wf A env H x" and "msrs_sized 4 4 c x"
  shows "\<exists>x'. athlon_start tb c x = Some x' \<and> athlon_wf A env H x' \<and> only_regs c x x'"
proof -
  let ?x = "x\<lparr>athlon_start_timestamp := (athlon_start_timestamp x)(c := tb)\<rparr>"
  let ?Q = "athlon_wf A env H"
  have x: "?Q ?x" "msrs_sized 4 4 c ?x" "only_regs c x ?x"
    using assms by (simp_all add: msrs_sized_def athlon_wf_def only_regs_def)
  have "\<exists>x'. for_each (athlon_start_ctr c) [0..<4] ?x = Some x' \<and> ?Q x' \<and> only_regs c ?x x' \<and>
      apic x' = apic ?x \<and> msrs_sized 4 4 c x'"
  proof (rule reg_loop [where Q = ?Q, OF _ x(1,2)])
    fix i y assume "i \<in> set [0..<4]" and y: "?Q y" "msrs_sized 4 4 c y"
    then have i: "i < 4" by simp
    then obtain v where v: "athlon_reset_of i y = Some v"
      using y(1) by (simp add: athlon_reset_of_def elem_def athlon_wf_def)
    from ctrl_modify_frame [OF y(2) i, of "\<lambda>low high. (CTRL_SET_ACTIVE low, high)"] y(1)
    show "\<exists>x'. athlon_start_ctr c i y = Some x' \<and> ?Q x' \<and> only_regs c y x' \<and> apic x' = apic y"
      by (auto simp: athlon_start_ctr_def v)
  qed
  with x(3) show ?thesis
    unfolding athlon_start_def NUM_COUNTERS_def using only_regs_trans by blast
qed

lemma athlon_check_ctr_ok:
  assumes "handler_keeps (athlon_wf A env H) 4 4 c k0 k" and "sampler_ok sp" and "i < 4"
  shows "\<exists>k'. athlon_check_ctr sp c t i k = Some k' \<and> handler_keeps (athlon_wf A env H) 4 4 c k0 k'"
proof -
  let ?K = "handler_keeps (athlon_wf A env H) 4 4 c k0"
  have k: "athlon_wf A env H (x86 k)" "msrs_sized 4 4 c (x86 k)"
    using assms(1) by (simp_all add: handler_keeps_def)
  from ctr_read_ok [OF k(2) assms(3)] obtain low high where
    r: "CTR_READ c i (x86 k) = Some (low, high)" by blast
  obtain v where v: "athlon_reset_of i (x86 k) = Some v"
    using k(1) assms(3) by (simp add: athlon_reset_of_def elem_def athlon_wf_def)
  from handler_sample [OF assms(1,2), of t "athlon_start_timestamp (x86 k) c" "entry_tb t" i] obtain k1 where
    k1: "add_counter_sample sp c t (athlon_start_timestamp (x86 k) c) (entry_tb t) i k = Some k1"
    "?K k1" "x86 k1 = x86 k" by blast
  from ctr_write_frame [OF k(2) assms(3), of v] obtain ms where
    w: "CTR_WRITE v c i (x86 k1) = Some ((x86 k1)\<lparr>msr := ms\<rparr>)"
    "only_regs c (x86 k1) ((x86 k1)\<lparr>msr := ms\<rparr>)" using k1(3) by auto
  have "?K (k1\<lparr>x86 := (x86 k1)\<lparr>msr := ms\<rparr>\<rparr>)"
    using k(1) k1(3) by (intro handler_x86 [OF k1(2) _ w(2)]) simp
  with assms(1) r v k1(1,3) w(1) show ?thesis
    by (auto simp: athlon_check_ctr_def on_x86_def)
qed

lemma athlon_check_ok:
  assumes "athlon_wf A env H (x86 k)" and "msrs_sized 4 4 c (x86 k)" and "ring_ok (cpu_buffer k c)"
    and "sampler_ok sp"
  shows "\<exists>k'. athlon_check_ctrs sp c t k = Some k' \<and> handler_keeps (athlon_wf A env H) 4 4 c k k'"
proof -
  let ?K = "handler_keeps (athlon_wf A env H) 4 4 c k"
  have 0: "?K k" using assms(1-3) by (rule handler_keeps_refl)
  from athlon_stop_ok [OF assms(1,2)] obtain x1 where
    x1: "athlon_stop c (x86 k) = Some x1" "athlon_wf A env H x1" "only_regs c (x86 k) x1" by blast
  have k1: "?K (k\<lparr>x86 := x1\<rparr>)" by (rule handler_x86 [OF 0 x1(2,3)])
  have "\<exists>k2. for_each (athlon_check_ctr sp c t) [0..<4] (k\<lparr>x86 := x1\<rparr>) = Some k2 \<and> ?K k2"
    by (rule handler_loop [OF k1]) (simp add: athlon_check_ctr_ok assms(4))
  then obtain k2 where k2: "for_each (athlon_check_ctr sp c t) [0..<4] (k\<lparr>x86 := x1\<rparr>) = Some k2"
    "?K k2" by blast
  then have "athlon_wf A env H (x86 k2)" "msrs_sized 4 4 c (x86 k2)" by (simp_all add: handler_keeps_def)
  from athlon_start_ok [OF this, of "restart_tb t"] obtain x3 where
    x3: "athlon_start (restart_tb t) c (x86 k2) = Some x3" "athlon_wf A env H x3"
    "only_regs c (x86 k2) x3" by blast
  have k3: "?K (k2\<lparr>x86 := x3\<rparr>)" by (rule handler_x86 [OF k2(2) x3(2,3)])
  let ?x4 = "x3\<lparr>athlon_start_timestamp := (athlon_start_timestamp x3)(c := exit_tb t)\<rparr>"
  have "?K (k2\<lparr>x86 := x3\<rparr>\<lparr>x86 := ?x4\<rparr>)"
    using x3(2) by (intro handler_x86 [OF k3]) (simp_all add: athlon_wf_def only_regs_def)
  moreover have "athlon_check_ctrs sp c t k = Some (k2\<lparr>x86 := x3\<rparr>\<lparr>x86 := ?x4\<rparr>)"
    using x1(1) k2(1) x3(1) by (simp add: athlon_check_ctrs_def on_x86_def NUM_COUNTERS_def del: upt_Suc)
  ultimately show ?thesis by blast
qed

interpretation athlon: nmi_backend "op_athlon_spec A" "athlon_wf A env H" 4 4 "msrs_sized 4 4" env H
  for A env H
proof (unfold_locales, goal_cases)
  case (5 c x x')
  then show ?case by (rule sized_addrs)
next
  case (6 x c)
  then have "k7_ok A" by (simp add: athlon_wf_def)
  from athlon_fill [OF this 6(2)] 6 show ?case
    by (auto simp: op_athlon_spec_def set_msrs_def only_structs_def athlon_wf_def)
next
  case (11 k c sp t)
  then show ?case using athlon_check_ok [of A env H k c sp]
    by (auto simp: op_athlon_spec_def handler_keeps_def)
qed (simp_all add: op_athlon_spec_def athlon_setup_ok athlon_start_ok athlon_stop_ok athlon_wf_same,
  simp_all add: athlon_wf_def OP_MAX_COUNTER_def NUM_COUNTERS_def NUM_CONTROLS_def)

end
