(* ===== verification/Op_P4.thy ===== *)
theory Op_P4
  imports Nmi_Contract
begin

text \<open>
  \<^verbatim>\<open>x86/op_model_p4.c\<close>: the counters of the Pentium 4, each of which counts one of 39 events
  through a counter, a counter configuration register (CCCR) and an event selection register
  (ESCR). On a processor with two hyper-threads each thread uses one half of the registers; the
  \<^verbatim>\<open>stagger\<close> of a CPU tells which. The tables and the operations are modelled for both kinds of
  processor; that the model meets the contract of a counter model is shown in theory P4\_Contract.
  Configuration: \<^verbatim>\<open>CONFIG_SMP\<close>.
\<close>

section \<open>Registers\<close>

text \<open>
  The registers by kind, unit and number: \<^verbatim>\<open>MSR_P4_CRU_ESCR2\<close> is \<open>MSR_P4_ESCR CRU 2\<close>.
\<close>

datatype p4_unit =
    BPU | MS | FLAME | IQ | BSU | FSB | FIRM | DAC | MOB | PMH | SAAT | ITLB
  | CRU | RAT | SSU | TBPU | TC | IX

datatype p4_msr =
    MSR_P4_PERFCTR p4_unit nat
  | MSR_P4_CCCR p4_unit nat
  | MSR_P4_ESCR p4_unit nat

text \<open>
  What the kernel's headers and the kernel know: the addresses of the registers, the number of
  hyper-threads per processor, the first sibling of each CPU, and the model number.
\<close>

record p4_hw =
  p4_addr :: "p4_msr \<Rightarrow> u32"
  MSR_IA32_MISC_ENABLE :: u32
  smp_num_siblings :: nat
  first_sibling :: "nat \<Rightarrow> nat"
  boot_model :: nat

definition NUM_EVENTS :: nat where "NUM_EVENTS = 39"
definition NUM_COUNTERS_NON_HT :: nat where "NUM_COUNTERS_NON_HT = 8"
definition NUM_ESCRS_NON_HT :: nat where "NUM_ESCRS_NON_HT = 45"
definition NUM_CCCRS_NON_HT :: nat where "NUM_CCCRS_NON_HT = 18"
definition NUM_CONTROLS_NON_HT :: nat where
  "NUM_CONTROLS_NON_HT = NUM_ESCRS_NON_HT + NUM_CCCRS_NON_HT"
definition NUM_COUNTERS_HT2 :: nat where "NUM_COUNTERS_HT2 = 4"
definition NUM_ESCRS_HT2 :: nat where "NUM_ESCRS_HT2 = 23"
definition NUM_CCCRS_HT2 :: nat where "NUM_CCCRS_HT2 = 9"
definition NUM_CONTROLS_HT2 :: nat where "NUM_CONTROLS_HT2 = NUM_ESCRS_HT2 + NUM_CCCRS_HT2"
definition NUM_UNUSED_CCCRS :: nat where
  "NUM_UNUSED_CCCRS = NUM_CCCRS_NON_HT - NUM_COUNTERS_NON_HT"

lemmas p4_sizes = NUM_EVENTS_def NUM_COUNTERS_NON_HT_def NUM_ESCRS_NON_HT_def NUM_CCCRS_NON_HT_def
  NUM_CONTROLS_NON_HT_def NUM_COUNTERS_HT2_def NUM_ESCRS_HT2_def NUM_CCCRS_HT2_def
  NUM_CONTROLS_HT2_def NUM_UNUSED_CCCRS_def

definition setup_num_counters :: "p4_hw \<Rightarrow> x86_state \<Rightarrow> x86_state" where
  "setup_num_counters S x =
     (if smp_num_siblings S = 2 then x\<lparr>p4_num_counters := NUM_COUNTERS_HT2\<rparr> else x)"

definition addr_increment :: "p4_hw \<Rightarrow> nat" where
  "addr_increment S = (if smp_num_siblings S = 2 then 2 else 1)"

definition get_stagger :: "p4_hw \<Rightarrow> nat \<Rightarrow> nat" where
  "get_stagger S c = (if c \<noteq> first_sibling S c then 1 else 0)"

definition VIRT_CTR :: "x86_state \<Rightarrow> nat \<Rightarrow> nat \<Rightarrow> nat" where
  "VIRT_CTR x stagger i = i + p4_num_counters x * stagger"

text \<open>
  The addresses \<open>lo\<close>, \<open>lo + inc\<close> and so on up to \<open>hi\<close>, over which the loops run, and
  those below a bound; the addresses are far from the end of the number range.
\<close>

definition addrs_upto :: "u32 \<Rightarrow> u32 \<Rightarrow> nat \<Rightarrow> u32 list" where
  "addrs_upto lo hi inc =
     (if lo \<le> hi
      then map (\<lambda>k. lo + of_nat (k * inc)) [0..<unat (hi - lo) div inc + 1] else [])"

definition addrs_below :: "u32 \<Rightarrow> u32 \<Rightarrow> nat \<Rightarrow> u32 list" where
  "addrs_below lo bound inc = (if bound = 0 then [] else addrs_upto lo (bound - 1) inc)"

section \<open>Tables\<close>

record p4_counter_binding =
  virt_counter :: u32
  counter_address :: u32
  cccr_address :: u32

record p4_escr_binding =
  escr_counter :: u32
  escr_address :: u32

record p4_event_binding =
  escr_select :: u32
  event_select :: u32
  bindings :: "p4_escr_binding list"

definition CTR_BPU_0 :: u32 where "CTR_BPU_0 = push_bit 0 1"
definition CTR_MS_0 :: u32 where "CTR_MS_0 = push_bit 1 1"
definition CTR_FLAME_0 :: u32 where "CTR_FLAME_0 = push_bit 2 1"
definition CTR_IQ_4 :: u32 where "CTR_IQ_4 = push_bit 3 1"
definition CTR_BPU_2 :: u32 where "CTR_BPU_2 = push_bit 4 1"
definition CTR_MS_2 :: u32 where "CTR_MS_2 = push_bit 5 1"
definition CTR_FLAME_2 :: u32 where "CTR_FLAME_2 = push_bit 6 1"
definition CTR_IQ_5 :: u32 where "CTR_IQ_5 = push_bit 7 1"

lemmas p4_ctr_defs = CTR_BPU_0_def CTR_MS_0_def CTR_FLAME_0_def CTR_IQ_4_def
  CTR_BPU_2_def CTR_MS_2_def CTR_FLAME_2_def CTR_IQ_5_def

text \<open>Rows of the tables.\<close>

definition counter_binding :: "p4_hw \<Rightarrow> u32 \<Rightarrow> p4_msr \<Rightarrow> p4_msr \<Rightarrow> p4_counter_binding" where
  "counter_binding S v ctr cccr =
     \<lparr>virt_counter = v, counter_address = p4_addr S ctr, cccr_address = p4_addr S cccr\<rparr>"

definition binding :: "p4_hw \<Rightarrow> u32 \<Rightarrow> p4_msr \<Rightarrow> p4_escr_binding" where
  "binding S v escr = \<lparr>escr_counter = v, escr_address = p4_addr S escr\<rparr>"

definition no_binding :: p4_escr_binding where
  "no_binding = \<lparr>escr_counter = 0, escr_address = 0\<rparr>"

definition event_binding ::
  "u32 \<Rightarrow> u32 \<Rightarrow> p4_escr_binding \<Rightarrow> p4_escr_binding \<Rightarrow> p4_event_binding" where
  "event_binding sel ev b1 b2 = \<lparr>escr_select = sel, event_select = ev, bindings = [b1, b2]\<rparr>"

definition p4_counters :: "p4_hw \<Rightarrow> p4_counter_binding list" where
  "p4_counters S =
     [counter_binding S CTR_BPU_0 (MSR_P4_PERFCTR BPU 0) (MSR_P4_CCCR BPU 0),
      counter_binding S CTR_MS_0 (MSR_P4_PERFCTR MS 0) (MSR_P4_CCCR MS 0),
      counter_binding S CTR_FLAME_0 (MSR_P4_PERFCTR FLAME 0) (MSR_P4_CCCR FLAME 0),
      counter_binding S CTR_IQ_4 (MSR_P4_PERFCTR IQ 4) (MSR_P4_CCCR IQ 4),
      counter_binding S CTR_BPU_2 (MSR_P4_PERFCTR BPU 2) (MSR_P4_CCCR BPU 2),
      counter_binding S CTR_MS_2 (MSR_P4_PERFCTR MS 2) (MSR_P4_CCCR MS 2),
      counter_binding S CTR_FLAME_2 (MSR_P4_PERFCTR FLAME 2) (MSR_P4_CCCR FLAME 2),
      counter_binding S CTR_IQ_5 (MSR_P4_PERFCTR IQ 5) (MSR_P4_CCCR IQ 5)]"

definition p4_unused_cccr :: "p4_hw \<Rightarrow> u32 list" where
  "p4_unused_cccr S = map (p4_addr S)
     [MSR_P4_CCCR BPU 1, MSR_P4_CCCR BPU 3,
      MSR_P4_CCCR MS 1, MSR_P4_CCCR MS 3,
      MSR_P4_CCCR FLAME 1, MSR_P4_CCCR FLAME 3,
      MSR_P4_CCCR IQ 0, MSR_P4_CCCR IQ 1,
      MSR_P4_CCCR IQ 2, MSR_P4_CCCR IQ 3]"

text \<open>The events, in the order of the event codes from 1 on.\<close>

definition p4_events_1_18 :: "p4_hw \<Rightarrow> p4_event_binding list" where
  "p4_events_1_18 S =
     [event_binding 0x05 0x06 (binding S CTR_IQ_4 (MSR_P4_ESCR CRU 2)) (binding S CTR_IQ_5 (MSR_P4_ESCR CRU 3)),
      event_binding 0x04 0x03 (binding S CTR_IQ_4 (MSR_P4_ESCR CRU 0)) (binding S CTR_IQ_5 (MSR_P4_ESCR CRU 1)),
      event_binding 0x01 0x01 (binding S CTR_MS_0 (MSR_P4_ESCR TC 0)) (binding S CTR_MS_2 (MSR_P4_ESCR TC 1)),
      event_binding 0x00 0x03 (binding S CTR_BPU_0 (MSR_P4_ESCR BPU 0)) (binding S CTR_BPU_2 (MSR_P4_ESCR BPU 1)),
      event_binding 0x03 0x18 (binding S CTR_BPU_0 (MSR_P4_ESCR ITLB 0)) (binding S CTR_BPU_2 (MSR_P4_ESCR ITLB 1)),
      event_binding 0x05 0x02 (binding S CTR_FLAME_0 (MSR_P4_ESCR DAC 0)) (binding S CTR_FLAME_2 (MSR_P4_ESCR DAC 1)),
      event_binding 0x02 0x08 (binding S CTR_FLAME_0 (MSR_P4_ESCR SAAT 0)) (binding S CTR_FLAME_2 (MSR_P4_ESCR SAAT 1)),
      event_binding 0x02 0x04 (binding S CTR_FLAME_0 (MSR_P4_ESCR SAAT 0)) (binding S CTR_FLAME_2 (MSR_P4_ESCR SAAT 1)),
      event_binding 0x02 0x05 (binding S CTR_FLAME_0 (MSR_P4_ESCR SAAT 0)) (binding S CTR_FLAME_2 (MSR_P4_ESCR SAAT 1)),
      event_binding 0x02 0x03 (binding S CTR_BPU_0 (MSR_P4_ESCR MOB 0)) (binding S CTR_BPU_2 (MSR_P4_ESCR MOB 1)),
      event_binding 0x04 0x01 (binding S CTR_BPU_0 (MSR_P4_ESCR PMH 0)) (binding S CTR_BPU_2 (MSR_P4_ESCR PMH 1)),
      event_binding 0x07 0x0c (binding S CTR_BPU_0 (MSR_P4_ESCR BSU 0)) (binding S CTR_BPU_2 (MSR_P4_ESCR BSU 1)),
      event_binding 0x06 0x03 (binding S CTR_BPU_0 (MSR_P4_ESCR FSB 0)) no_binding,
      event_binding 0x06 0x1a (binding S CTR_BPU_2 (MSR_P4_ESCR FSB 1)) no_binding,
      event_binding 0x06 0x17 (binding S CTR_BPU_0 (MSR_P4_ESCR FSB 0)) (binding S CTR_BPU_2 (MSR_P4_ESCR FSB 1)),
      event_binding 0x07 0x05 (binding S CTR_BPU_0 (MSR_P4_ESCR BSU 0)) no_binding,
      event_binding 0x07 0x06 (binding S CTR_BPU_2 (MSR_P4_ESCR BSU 1)) no_binding,
      event_binding 0x05 0x03 (binding S CTR_IQ_4 (MSR_P4_ESCR CRU 2)) (binding S CTR_IQ_5 (MSR_P4_ESCR CRU 3))]"

definition p4_events_19_39 :: "p4_hw \<Rightarrow> p4_event_binding list" where
  "p4_events_19_39 S =
     [event_binding 0x01 0x34 (binding S CTR_FLAME_0 (MSR_P4_ESCR FIRM 0)) (binding S CTR_FLAME_2 (MSR_P4_ESCR FIRM 1)),
      event_binding 0x01 0x08 (binding S CTR_FLAME_0 (MSR_P4_ESCR FIRM 0)) (binding S CTR_FLAME_2 (MSR_P4_ESCR FIRM 1)),
      event_binding 0x01 0x0c (binding S CTR_FLAME_0 (MSR_P4_ESCR FIRM 0)) (binding S CTR_FLAME_2 (MSR_P4_ESCR FIRM 1)),
      event_binding 0x01 0x0a (binding S CTR_FLAME_0 (MSR_P4_ESCR FIRM 0)) (binding S CTR_FLAME_2 (MSR_P4_ESCR FIRM 1)),
      event_binding 0x01 0x0e (binding S CTR_FLAME_0 (MSR_P4_ESCR FIRM 0)) (binding S CTR_FLAME_2 (MSR_P4_ESCR FIRM 1)),
      event_binding 0x01 0x02 (binding S CTR_FLAME_0 (MSR_P4_ESCR FIRM 0)) (binding S CTR_FLAME_2 (MSR_P4_ESCR FIRM 1)),
      event_binding 0x01 0x1a (binding S CTR_FLAME_0 (MSR_P4_ESCR FIRM 0)) (binding S CTR_FLAME_2 (MSR_P4_ESCR FIRM 1)),
      event_binding 0x01 0x04 (binding S CTR_FLAME_0 (MSR_P4_ESCR FIRM 0)) (binding S CTR_FLAME_2 (MSR_P4_ESCR FIRM 1)),
      event_binding 0x01 0x2e (binding S CTR_FLAME_0 (MSR_P4_ESCR FIRM 0)) (binding S CTR_FLAME_2 (MSR_P4_ESCR FIRM 1)),
      event_binding 0x05 0x02 (binding S CTR_IQ_4 (MSR_P4_ESCR CRU 2)) (binding S CTR_IQ_5 (MSR_P4_ESCR CRU 3)),
      event_binding 0x06 0x13 (binding S CTR_BPU_0 (MSR_P4_ESCR FSB 0)) (binding S CTR_BPU_2 (MSR_P4_ESCR FSB 1)),
      event_binding 0x00 0x05 (binding S CTR_MS_0 (MSR_P4_ESCR MS 0)) (binding S CTR_MS_2 (MSR_P4_ESCR MS 1)),
      event_binding 0x00 0x09 (binding S CTR_MS_0 (MSR_P4_ESCR MS 0)) (binding S CTR_MS_2 (MSR_P4_ESCR MS 1)),
      event_binding 0x05 0x08 (binding S CTR_IQ_4 (MSR_P4_ESCR CRU 2)) (binding S CTR_IQ_5 (MSR_P4_ESCR CRU 3)),
      event_binding 0x05 0x0c (binding S CTR_IQ_4 (MSR_P4_ESCR CRU 2)) (binding S CTR_IQ_5 (MSR_P4_ESCR CRU 3)),
      event_binding 0x05 0x09 (binding S CTR_IQ_4 (MSR_P4_ESCR CRU 2)) (binding S CTR_IQ_5 (MSR_P4_ESCR CRU 3)),
      event_binding 0x04 0x02 (binding S CTR_IQ_4 (MSR_P4_ESCR CRU 0)) (binding S CTR_IQ_5 (MSR_P4_ESCR CRU 1)),
      event_binding 0x04 0x01 (binding S CTR_IQ_4 (MSR_P4_ESCR CRU 0)) (binding S CTR_IQ_5 (MSR_P4_ESCR CRU 1)),
      event_binding 0x02 0x02 (binding S CTR_IQ_4 (MSR_P4_ESCR RAT 0)) (binding S CTR_IQ_5 (MSR_P4_ESCR RAT 1)),
      event_binding 0x02 0x05 (binding S CTR_MS_0 (MSR_P4_ESCR TBPU 0)) (binding S CTR_MS_2 (MSR_P4_ESCR TBPU 1)),
      event_binding 0x02 0x04 (binding S CTR_MS_0 (MSR_P4_ESCR TBPU 0)) (binding S CTR_MS_2 (MSR_P4_ESCR TBPU 1))]"

definition p4_events :: "p4_hw \<Rightarrow> p4_event_binding list" where
  "p4_events S = p4_events_1_18 S @ p4_events_19_39 S"

lemmas p4_events_defs = p4_events_def p4_events_1_18_def p4_events_19_39_def

section \<open>Macros\<close>

definition MISC_PMC_ENABLED_P :: "u32 \<Rightarrow> bool" where
  "MISC_PMC_ENABLED_P x \<longleftrightarrow> x AND push_bit 7 1 \<noteq> 0"

definition ESCR_RESERVED_BITS :: u32 where "ESCR_RESERVED_BITS = 0x80000003"

definition ESCR_CLEAR :: "u32 \<Rightarrow> u32" where
  "ESCR_CLEAR escr = escr AND ESCR_RESERVED_BITS"

definition ESCR_SET_USR_0 :: "ulong \<Rightarrow> u32 \<Rightarrow> u32" where
  "ESCR_SET_USR_0 usr escr = escr OR ucast (push_bit 2 (usr AND 1))"

definition ESCR_SET_OS_0 :: "ulong \<Rightarrow> u32 \<Rightarrow> u32" where
  "ESCR_SET_OS_0 os escr = escr OR ucast (push_bit 3 (os AND 1))"

definition ESCR_SET_USR_1 :: "ulong \<Rightarrow> u32 \<Rightarrow> u32" where
  "ESCR_SET_USR_1 usr escr = escr OR ucast (usr AND 1)"

definition ESCR_SET_OS_1 :: "ulong \<Rightarrow> u32 \<Rightarrow> u32" where
  "ESCR_SET_OS_1 os escr = escr OR ucast (push_bit 1 (os AND 1))"

definition ESCR_SET_EVENT_SELECT :: "u32 \<Rightarrow> u32 \<Rightarrow> u32" where
  "ESCR_SET_EVENT_SELECT sel escr = escr OR push_bit 25 (sel AND 0x3f)"

definition ESCR_SET_EVENT_MASK :: "ulong \<Rightarrow> u32 \<Rightarrow> u32" where
  "ESCR_SET_EVENT_MASK um escr = escr OR ucast (push_bit 9 (um AND 0xffff))"

definition CCCR_RESERVED_BITS :: u32 where "CCCR_RESERVED_BITS = 0x38030FFF"

definition CCCR_CLEAR :: "u32 \<Rightarrow> u32" where
  "CCCR_CLEAR cccr = cccr AND CCCR_RESERVED_BITS"

definition CCCR_SET_REQUIRED_BITS :: "u32 \<Rightarrow> u32" where
  "CCCR_SET_REQUIRED_BITS cccr = cccr OR 0x00030000"

definition CCCR_SET_ESCR_SELECT :: "u32 \<Rightarrow> u32 \<Rightarrow> u32" where
  "CCCR_SET_ESCR_SELECT sel cccr = cccr OR push_bit 13 (sel AND 0x07)"

definition CCCR_SET_PMI_OVF_0 :: "u32 \<Rightarrow> u32" where
  "CCCR_SET_PMI_OVF_0 cccr = cccr OR push_bit 26 1"

definition CCCR_SET_PMI_OVF_1 :: "u32 \<Rightarrow> u32" where
  "CCCR_SET_PMI_OVF_1 cccr = cccr OR push_bit 27 1"

definition CCCR_SET_ENABLE :: "u32 \<Rightarrow> u32" where
  "CCCR_SET_ENABLE cccr = cccr OR push_bit 12 1"

definition CCCR_SET_DISABLE :: "u32 \<Rightarrow> u32" where
  "CCCR_SET_DISABLE cccr = cccr AND NOT (push_bit 12 1)"

definition CCCR_OVF_P :: "u32 \<Rightarrow> bool" where
  "CCCR_OVF_P cccr \<longleftrightarrow> cccr AND push_bit 31 1 \<noteq> 0"

definition CCCR_CLEAR_OVF :: "u32 \<Rightarrow> u32" where
  "CCCR_CLEAR_OVF cccr = cccr AND NOT (push_bit 31 1)"

definition CTR_OVERFLOW_P :: "u32 \<Rightarrow> bool" where
  "CTR_OVERFLOW_P ctr \<longleftrightarrow> ctr AND 0x80000000 = 0"

text \<open>Access to the registers of counter \<open>i\<close> of the table.\<close>

definition p4_ctr :: "p4_hw \<Rightarrow> nat \<Rightarrow> p4_counter_binding option" where
  "p4_ctr S i = elem (Some (p4_counters S)) i"

definition CCCR_READ :: "p4_hw \<Rightarrow> nat \<Rightarrow> nat \<Rightarrow> x86_state \<Rightarrow> (u32 \<times> u32) option" where
  "CCCR_READ S c i x = map_option (\<lambda>b. rdmsr c (ucast (cccr_address b)) x) (p4_ctr S i)"

definition CCCR_WRITE :: "p4_hw \<Rightarrow> u32 \<Rightarrow> u32 \<Rightarrow> nat \<Rightarrow> nat \<Rightarrow> x86_state \<Rightarrow> x86_state option" where
  "CCCR_WRITE S low high c i x =
     map_option (\<lambda>b. wrmsr c (ucast (cccr_address b)) low high x) (p4_ctr S i)"

definition P4_CTR_READ :: "p4_hw \<Rightarrow> nat \<Rightarrow> nat \<Rightarrow> x86_state \<Rightarrow> (u32 \<times> u32) option" where
  "P4_CTR_READ S c i x = map_option (\<lambda>b. rdmsr c (ucast (counter_address b)) x) (p4_ctr S i)"

definition P4_CTR_WRITE :: "p4_hw \<Rightarrow> ulong \<Rightarrow> nat \<Rightarrow> nat \<Rightarrow> x86_state \<Rightarrow> x86_state option" where
  "P4_CTR_WRITE S l c i x =
     map_option (\<lambda>b. wrmsr c (ucast (counter_address b)) (- ucast l) (- 1) x) (p4_ctr S i)"

text \<open>A register read, changed and written back; for counter \<open>i\<close> its CCCR.\<close>

definition modify_msr :: "nat \<Rightarrow> (u32 \<Rightarrow> u32) \<Rightarrow> u32 \<Rightarrow> x86_state \<Rightarrow> x86_state" where
  "modify_msr c f a x = (let (low, high) = rdmsr c (ucast a) x in wrmsr c (ucast a) (f low) high x)"

definition cccr_modify :: "p4_hw \<Rightarrow> nat \<Rightarrow> (u32 \<Rightarrow> u32) \<Rightarrow> nat \<Rightarrow> x86_state \<Rightarrow> x86_state option" where
  "cccr_modify S c f i x = map_option (\<lambda>b. modify_msr c f (cccr_address b) x) (p4_ctr S i)"

section \<open>Operations\<close>

text \<open>The addresses that \<^verbatim>\<open>p4_fill_in_addresses\<close> stores, in the order of the control array.\<close>

definition p4_control_addrs :: "p4_hw \<Rightarrow> nat \<Rightarrow> nat \<Rightarrow> u32 list" where
  "p4_control_addrs S stag n =
     (let a = (\<lambda>r. p4_addr S r + of_nat stag); inc = addr_increment S
      in addrs_upto (a (MSR_P4_CCCR BPU 0)) (p4_addr S (MSR_P4_CCCR IQ 5)) inc @
         addrs_below (a (MSR_P4_ESCR BSU 0)) (p4_addr S (MSR_P4_ESCR IQ 0)) inc @
         (if 3 \<le> boot_model S
          then addrs_upto (a (MSR_P4_ESCR BSU 0)) (p4_addr S (MSR_P4_ESCR BSU 1)) inc
          else addrs_upto (a (MSR_P4_ESCR IQ 0)) (p4_addr S (MSR_P4_ESCR IQ 1)) inc) @
         addrs_upto (a (MSR_P4_ESCR RAT 0)) (p4_addr S (MSR_P4_ESCR SSU 0)) inc @
         addrs_upto (a (MSR_P4_ESCR MS 0)) (p4_addr S (MSR_P4_ESCR TC 1)) inc @
         addrs_upto (a (MSR_P4_ESCR IX 0)) (p4_addr S (MSR_P4_ESCR CRU 3)) inc @
         (if n = NUM_COUNTERS_NON_HT
          then [p4_addr S (MSR_P4_ESCR CRU 5), p4_addr S (MSR_P4_ESCR CRU 4)]
          else if stag = 0 then [p4_addr S (MSR_P4_ESCR CRU 4)]
          else [p4_addr S (MSR_P4_ESCR CRU 5), p4_addr S (MSR_P4_ESCR CRU 5)]))"

text \<open>\<open>as\<close> stored from index \<open>i\<close> on.\<close>

fun store_addrs :: "nat \<Rightarrow> u32 list \<Rightarrow> op_msr list option \<Rightarrow> op_msr list option option" where
  "store_addrs i [] arr = Some arr"
| "store_addrs i (a # as) arr = do { arr \<leftarrow> set_addr i a arr; store_addrs (i + 1) as arr }"

definition p4_fill_in_addresses :: "p4_hw \<Rightarrow> nat \<Rightarrow> x86_state \<Rightarrow> x86_state option" where
  "p4_fill_in_addresses S c x =
     (let x = setup_num_counters S x; stag = get_stagger S c; n = p4_num_counters x
      in do { bs \<leftarrow> those (map (\<lambda>i. p4_ctr S (VIRT_CTR x stag i)) [0..<n]);
              cs \<leftarrow> store_addrs 0 (map counter_address bs) (counters (cpu_msrs x c));
              ds \<leftarrow> store_addrs 0 (p4_control_addrs S stag n) (controls (cpu_msrs x c));
              Some (set_msrs c \<lparr>counters = cs, controls = ds\<rparr> x) })"

text \<open>The values of the ESCR and the CCCR of an event.\<close>

definition p4_escr :: "nat \<Rightarrow> op_counter_config \<Rightarrow> p4_event_binding \<Rightarrow> u32 \<Rightarrow> u32" where
  "p4_escr stag g ev escr =
     (let escr = ESCR_CLEAR escr;
          escr = (if stag = 0 then ESCR_SET_OS_0 (cc_kernel g) (ESCR_SET_USR_0 (cc_user g) escr)
                  else ESCR_SET_OS_1 (cc_kernel g) (ESCR_SET_USR_1 (cc_user g) escr))
      in ESCR_SET_EVENT_MASK (cc_unit_mask g) (ESCR_SET_EVENT_SELECT (event_select ev) escr))"

definition p4_cccr :: "nat \<Rightarrow> p4_event_binding \<Rightarrow> u32 \<Rightarrow> u32" where
  "p4_cccr stag ev cccr =
     (let cccr = CCCR_SET_ESCR_SELECT (escr_select ev) (CCCR_SET_REQUIRED_BITS (CCCR_CLEAR cccr))
      in if stag = 0 then CCCR_SET_PMI_OVF_0 cccr else CCCR_SET_PMI_OVF_1 cccr)"

definition pmc_setup_one_p4_counter :: "p4_hw \<Rightarrow> nat \<Rightarrow> nat \<Rightarrow> x86_state \<Rightarrow> x86_state option" where
  "pmc_setup_one_p4_counter S c ctr x =
     (let stag = get_stagger S c; counter_bit = push_bit (VIRT_CTR x stag ctr) 1
      in do { g \<leftarrow> config ctr x;
              if cc_event g \<le> 0 \<or> of_nat NUM_EVENTS < cc_event g then Some x
              else
                do { ev \<leftarrow> elem (Some (p4_events S)) (unat (cc_event g - 1));
                     case find (\<lambda>b. escr_counter b AND counter_bit \<noteq> 0) (bindings ev) of
                       None \<Rightarrow> Some x
                     | Some b \<Rightarrow>
                         cccr_modify S c (p4_cccr stag ev) (VIRT_CTR x stag ctr)
                           (modify_msr c (p4_escr stag g ev) (escr_address b) x) } })"

text \<open>The registers that setup clears, besides the CCCRs of the counters.\<close>

definition p4_unused_stag :: "p4_hw \<Rightarrow> nat \<Rightarrow> u32 list" where
  "p4_unused_stag S stag =
     map (\<lambda>i. p4_unused_cccr S ! i)
       (filter (\<lambda>i. (i - stag) mod addr_increment S = 0) [stag..<NUM_UNUSED_CCCRS])"

definition p4_cleared_escrs :: "p4_hw \<Rightarrow> nat \<Rightarrow> nat \<Rightarrow> u32 list" where
  "p4_cleared_escrs S stag n =
     (let a = (\<lambda>r. p4_addr S r + of_nat stag); inc = addr_increment S
      in addrs_below (a (MSR_P4_ESCR BSU 0)) (p4_addr S (MSR_P4_ESCR IQ 0)) inc @
         (if boot_model S < 3 then [p4_addr S (MSR_P4_ESCR IQ 0), p4_addr S (MSR_P4_ESCR IQ 1)] else []) @
         addrs_upto (a (MSR_P4_ESCR RAT 0)) (p4_addr S (MSR_P4_ESCR SSU 0)) inc @
         addrs_upto (a (MSR_P4_ESCR MS 0)) (p4_addr S (MSR_P4_ESCR TC 1)) inc @
         addrs_upto (a (MSR_P4_ESCR IX 0)) (p4_addr S (MSR_P4_ESCR CRU 3)) inc @
         (if n = NUM_COUNTERS_NON_HT
          then [p4_addr S (MSR_P4_ESCR CRU 4), p4_addr S (MSR_P4_ESCR CRU 5)]
          else if stag = 0 then [p4_addr S (MSR_P4_ESCR CRU 4)]
          else [p4_addr S (MSR_P4_ESCR CRU 5)]))"

definition p4_set_reset :: "nat \<Rightarrow> ulong \<Rightarrow> x86_state \<Rightarrow> x86_state" where
  "p4_set_reset i v x = x\<lparr>p4_reset_value := (p4_reset_value x)[i := v]\<rparr>"

definition p4_enable_ctr :: "p4_hw \<Rightarrow> nat \<Rightarrow> nat \<Rightarrow> x86_state \<Rightarrow> x86_state option" where
  "p4_enable_ctr S c i x =
     do { g \<leftarrow> config i x;
          if cc_enabled g \<noteq> 0 then
            do { x \<leftarrow> pmc_setup_one_p4_counter S c i (p4_set_reset i (cc_count g) x);
                 P4_CTR_WRITE S (cc_count g) c (VIRT_CTR x (get_stagger S c) i) x }
          else Some (p4_set_reset i 0 x) }"

definition p4_setup_ctrs :: "p4_hw \<Rightarrow> nat \<Rightarrow> x86_state \<Rightarrow> x86_state option" where
  "p4_setup_ctrs S c x =
     (let stag = get_stagger S c; n = p4_num_counters x;
          clear = (\<lambda>low. CCCR_SET_REQUIRED_BITS (CCCR_CLEAR low))
      in if \<not> MISC_PMC_ENABLED_P (fst (rdmsr c (ucast (MSR_IA32_MISC_ENABLE S)) x)) then Some x
         else
           do { x \<leftarrow> for_each (\<lambda>i x. cccr_modify S c clear (VIRT_CTR x stag i) x) [0..<n] x;
                x \<leftarrow> for_each (\<lambda>a x. Some (modify_msr c clear a x)) (p4_unused_stag S stag) x;
                x \<leftarrow> for_each (\<lambda>a x. Some (wrmsr c (ucast a) 0 0 x)) (p4_cleared_escrs S stag n) x;
                for_each (p4_enable_ctr S c) [0..<n] x })"

definition p4_reset_of :: "nat \<Rightarrow> x86_state \<Rightarrow> ulong option" where
  "p4_reset_of i x = elem (Some (p4_reset_value x)) i"

definition p4_start_ctr :: "p4_hw \<Rightarrow> nat \<Rightarrow> nat \<Rightarrow> x86_state \<Rightarrow> x86_state option" where
  "p4_start_ctr S c i x =
     do { v \<leftarrow> p4_reset_of i x;
          if v = 0 then Some x
          else cccr_modify S c CCCR_SET_ENABLE (VIRT_CTR x (get_stagger S c) i) x }"

definition p4_start :: "p4_hw \<Rightarrow> u64 \<Rightarrow> nat \<Rightarrow> x86_state \<Rightarrow> x86_state option" where
  "p4_start S tb c x =
     for_each (p4_start_ctr S c) [0..<p4_num_counters x]
       (x\<lparr>p4_start_timestamp := (p4_start_timestamp x)(c := tb)\<rparr>)"

definition p4_stop :: "p4_hw \<Rightarrow> nat \<Rightarrow> x86_state \<Rightarrow> x86_state option" where
  "p4_stop S c x =
     for_each (\<lambda>i x. cccr_modify S c CCCR_SET_DISABLE (VIRT_CTR x (get_stagger S c) i) x)
       [0..<p4_num_counters x] x"

text \<open>
  One round of the loop of \<^verbatim>\<open>p4_check_ctrs\<close>. The variable \<^verbatim>\<open>high\<close> that is written to the CCCR
  holds the high half of the counter, which was read last.
\<close>

definition p4_check_ctr ::
  "p4_hw \<Rightarrow> 'r sampler \<Rightarrow> nat \<Rightarrow> 'r nmi \<Rightarrow> nat \<Rightarrow> 'h nmi_kstate_scheme \<Rightarrow> 'h nmi_kstate_scheme option"
where
  "p4_check_ctr S sp c t i k =
     do { v \<leftarrow> p4_reset_of i (x86 k);
          if v = 0 then Some k
          else
            let real = VIRT_CTR (x86 k) (get_stagger S c) i
            in do { (low, _) \<leftarrow> CCCR_READ S c real (x86 k);
                    (ctr, high) \<leftarrow> P4_CTR_READ S c real (x86 k);
                    if CCCR_OVF_P low \<or> CTR_OVERFLOW_P ctr then
                      do { k \<leftarrow> add_counter_sample sp c t (entry_tb t) (sample_tb t i) i k;
                           k \<leftarrow> on_x86 (P4_CTR_WRITE S v c real) k;
                           k \<leftarrow> on_x86 (CCCR_WRITE S (CCCR_CLEAR_OVF low) high c real) k;
                           on_x86 (P4_CTR_WRITE S v c real) k }
                    else Some k } }"

definition p4_check_ctrs ::
  "p4_hw \<Rightarrow> u32 \<Rightarrow> 'r sampler \<Rightarrow> nat \<Rightarrow> 'r nmi \<Rightarrow> 'h nmi_kstate_scheme \<Rightarrow> 'h nmi_kstate_scheme option"
where
  "p4_check_ctrs S lvt_masked sp c t k =
     do { k \<leftarrow> on_x86 (p4_stop S c) k;
          k \<leftarrow> for_each (p4_check_ctr S sp c t) [0..<p4_num_counters (x86 k)] k;
          k \<leftarrow> on_x86 (\<lambda>x. Some (apic_write c APIC_LVTPC (apic_read c APIC_LVTPC x AND NOT lvt_masked) x)) k;
          k \<leftarrow> on_x86 (p4_start S (restart_tb t) c) k;
          Some (k\<lparr>x86 := (x86 k)\<lparr>p4_start_timestamp := (p4_start_timestamp (x86 k))(c := exit_tb t)\<rparr>\<rparr>) }"

definition op_p4_ht2_spec :: "p4_hw \<Rightarrow> x86_hw \<Rightarrow> ('h, 'r) op_x86_model_spec" where
  "op_p4_ht2_spec S H =
     \<lparr>num_counters = (\<lambda>_. of_nat NUM_COUNTERS_HT2), num_controls = (\<lambda>_. of_nat NUM_CONTROLS_HT2),
      spec_init = None, spec_exit = None,
      fill_in_addresses = p4_fill_in_addresses S, setup_ctrs = p4_setup_ctrs S,
      check_ctrs = p4_check_ctrs S (APIC_LVT_MASKED H), spec_start = p4_start S,
      spec_stop = p4_stop S, spec_shutdown = None\<rparr>"

definition op_p4_spec :: "p4_hw \<Rightarrow> x86_hw \<Rightarrow> ('h, 'r) op_x86_model_spec" where
  "op_p4_spec S H =
     \<lparr>num_counters = (\<lambda>_. of_nat NUM_COUNTERS_NON_HT), num_controls = (\<lambda>_. of_nat NUM_CONTROLS_NON_HT),
      spec_init = None, spec_exit = None,
      fill_in_addresses = p4_fill_in_addresses S, setup_ctrs = p4_setup_ctrs S,
      check_ctrs = p4_check_ctrs S (APIC_LVT_MASKED H), spec_start = p4_start S,
      spec_stop = p4_stop S, spec_shutdown = None\<rparr>"

end
