(* ===== verification/P4_Contract.thy ===== *)
theory P4_Contract
  imports Op_P4
begin

text \<open>
  The Pentium 4 without hyper-threading meets the contract of a counter model: its 63 control
  registers fit the array, and setup writes only registers that have been saved before. The
  addresses of the registers are those that the processor's manual documents. With
  hyper-threading two CPUs share registers, which the state of theory X86\_Machine does not
  express; for these processors the table of addresses is checked.
\<close>

section \<open>Addresses\<close>

definition p4_documented :: "(p4_msr \<times> u32) list" where
  "p4_documented =
     [(MSR_P4_PERFCTR BPU 0, 0x300), (MSR_P4_PERFCTR BPU 2, 0x302), (MSR_P4_PERFCTR MS 0, 0x304),
      (MSR_P4_PERFCTR MS 2, 0x306), (MSR_P4_PERFCTR FLAME 0, 0x308),
      (MSR_P4_PERFCTR FLAME 2, 0x30A), (MSR_P4_PERFCTR IQ 4, 0x310),
      (MSR_P4_PERFCTR IQ 5, 0x311), (MSR_P4_CCCR BPU 0, 0x360), (MSR_P4_CCCR BPU 1, 0x361),
      (MSR_P4_CCCR BPU 2, 0x362), (MSR_P4_CCCR BPU 3, 0x363), (MSR_P4_CCCR MS 0, 0x364),
      (MSR_P4_CCCR MS 1, 0x365), (MSR_P4_CCCR MS 2, 0x366), (MSR_P4_CCCR MS 3, 0x367),
      (MSR_P4_CCCR FLAME 0, 0x368), (MSR_P4_CCCR FLAME 1, 0x369), (MSR_P4_CCCR FLAME 2, 0x36A),
      (MSR_P4_CCCR FLAME 3, 0x36B), (MSR_P4_CCCR IQ 0, 0x36C), (MSR_P4_CCCR IQ 1, 0x36D),
      (MSR_P4_CCCR IQ 2, 0x36E), (MSR_P4_CCCR IQ 3, 0x36F), (MSR_P4_CCCR IQ 4, 0x370),
      (MSR_P4_CCCR IQ 5, 0x371), (MSR_P4_ESCR BSU 0, 0x3A0), (MSR_P4_ESCR BSU 1, 0x3A1),
      (MSR_P4_ESCR FSB 0, 0x3A2), (MSR_P4_ESCR FSB 1, 0x3A3), (MSR_P4_ESCR FIRM 0, 0x3A4),
      (MSR_P4_ESCR FIRM 1, 0x3A5), (MSR_P4_ESCR DAC 0, 0x3A8), (MSR_P4_ESCR DAC 1, 0x3A9),
      (MSR_P4_ESCR MOB 0, 0x3AA), (MSR_P4_ESCR MOB 1, 0x3AB), (MSR_P4_ESCR PMH 0, 0x3AC),
      (MSR_P4_ESCR PMH 1, 0x3AD), (MSR_P4_ESCR SAAT 0, 0x3AE), (MSR_P4_ESCR SAAT 1, 0x3AF),
      (MSR_P4_ESCR BPU 0, 0x3B2), (MSR_P4_ESCR BPU 1, 0x3B3), (MSR_P4_ESCR ITLB 0, 0x3B6),
      (MSR_P4_ESCR ITLB 1, 0x3B7), (MSR_P4_ESCR CRU 0, 0x3B8), (MSR_P4_ESCR CRU 1, 0x3B9),
      (MSR_P4_ESCR IQ 0, 0x3BA), (MSR_P4_ESCR IQ 1, 0x3BB), (MSR_P4_ESCR RAT 0, 0x3BC),
      (MSR_P4_ESCR RAT 1, 0x3BD), (MSR_P4_ESCR SSU 0, 0x3BE), (MSR_P4_ESCR MS 0, 0x3C0),
      (MSR_P4_ESCR MS 1, 0x3C1), (MSR_P4_ESCR TBPU 0, 0x3C2), (MSR_P4_ESCR TBPU 1, 0x3C3),
      (MSR_P4_ESCR TC 0, 0x3C4), (MSR_P4_ESCR TC 1, 0x3C5), (MSR_P4_ESCR IX 0, 0x3C8),
      (MSR_P4_ESCR CRU 2, 0x3CC), (MSR_P4_ESCR CRU 3, 0x3CD), (MSR_P4_ESCR CRU 4, 0x3E0),
      (MSR_P4_ESCR CRU 5, 0x3E1)]"

definition p4_layout :: "p4_hw \<Rightarrow> bool" where
  "p4_layout S \<longleftrightarrow> (\<forall>(r, a) \<in> set p4_documented. p4_addr S r = a)"

text \<open>One thread per processor.\<close>

definition p4_plain :: "p4_hw \<Rightarrow> bool" where
  "p4_plain S \<longleftrightarrow> p4_layout S \<and> smp_num_siblings S \<noteq> 2 \<and> (\<forall>c. first_sibling S c = c)"

lemma p4_plain_simps [simp]:
  assumes "p4_plain S"
  shows "get_stagger S c = 0" "addr_increment S = 1" "setup_num_counters S x = x"
  using assms by (simp_all add: p4_plain_def get_stagger_def addr_increment_def setup_num_counters_def)

lemmas p4_layout_defs = p4_layout_def p4_documented_def

text \<open>The documented addresses as rewrite rules, and the lengths of the loops.\<close>

lemma p4_layout_addr: "p4_layout S \<Longrightarrow> (r, a) \<in> set p4_documented \<Longrightarrow> p4_addr S r = a"
  by (auto simp: p4_layout_def)

lemma p4_addrs:
  assumes "p4_layout S"
  shows "p4_addr S (MSR_P4_CCCR BPU 0) = 0x360" "p4_addr S (MSR_P4_CCCR IQ 5) = 0x371"
    "p4_addr S (MSR_P4_ESCR BSU 0) = 0x3A0" "p4_addr S (MSR_P4_ESCR BSU 1) = 0x3A1"
    "p4_addr S (MSR_P4_ESCR IQ 0) = 0x3BA" "p4_addr S (MSR_P4_ESCR IQ 1) = 0x3BB"
    "p4_addr S (MSR_P4_ESCR RAT 0) = 0x3BC" "p4_addr S (MSR_P4_ESCR SSU 0) = 0x3BE"
    "p4_addr S (MSR_P4_ESCR MS 0) = 0x3C0" "p4_addr S (MSR_P4_ESCR TC 1) = 0x3C5"
    "p4_addr S (MSR_P4_ESCR IX 0) = 0x3C8" "p4_addr S (MSR_P4_ESCR CRU 3) = 0x3CD"
    "p4_addr S (MSR_P4_ESCR CRU 4) = 0x3E0" "p4_addr S (MSR_P4_ESCR CRU 5) = 0x3E1"
  by (rule p4_layout_addr [OF assms], simp add: p4_documented_def)+

lemma length_addrs_upto: "length (addrs_upto a b inc) = (if a \<le> b then unat (b - a) div inc + 1 else 0)"
  by (simp add: addrs_upto_def)

lemma length_addrs_below:
  "length (addrs_below a b inc) = (if b = 0 then 0 else length (addrs_upto a (b - 1) inc))"
  by (simp add: addrs_below_def)

text \<open>On every kind of processor, the addresses that \<^verbatim>\<open>p4_fill_in_addresses\<close> stores are exactly
  as many as the control array has elements: 63, or 32 for each of two hyper-threads.\<close>

theorem p4_controls_fit:
  assumes "p4_layout S"
  shows "(smp_num_siblings S \<noteq> 2 \<longrightarrow>
      length (p4_control_addrs S 0 NUM_COUNTERS_NON_HT) = NUM_CONTROLS_NON_HT) \<and>
    (smp_num_siblings S = 2 \<longrightarrow>
      (\<forall>stag < 2. length (p4_control_addrs S stag NUM_COUNTERS_HT2) = NUM_CONTROLS_HT2))"
  by (auto simp: p4_control_addrs_def Let_def length_addrs_upto length_addrs_below p4_sizes
      addr_increment_def p4_addrs [OF assms, simplified] p4_addrs [OF assms] less_2_cases_iff)

lemma addrs_upto_range:
  assumes "lo \<le> hi"
  shows "set (addrs_upto lo hi 1) = {lo..hi}"
proof -
  have "\<exists>k < unat (hi - lo) + 1. w = lo + of_nat k" if w: "lo \<le> w" "w \<le> hi" for w
  proof (intro exI conjI)
    show "w = lo + of_nat (unat (w - lo))" by simp
    have "w - lo \<le> hi - lo" using w by (metis word_le_minus_mono_left)
    then show "unat (w - lo) < unat (hi - lo) + 1" by (simp add: word_le_nat_alt)
  qed
  moreover have "lo \<le> lo + of_nat k \<and> lo + of_nat k \<le> hi" if "k < unat (hi - lo) + 1" for k
  proof -
    have "k \<le> unat (hi - lo)" using that by simp
    then have k: "of_nat k \<le> hi - lo" by (simp add: word_le_nat_alt le_unat_uoi)
    then show ?thesis
      using word_plus_mono_right2 [of lo "hi - lo"] word_plus_mono_right [of "of_nat k" "hi - lo" lo] assms
      by simp
  qed
  ultimately show ?thesis
    using assms by (auto simp: addrs_upto_def image_iff Bex_def simp del: upt_Suc)
qed

lemma addrs_below_range: "lo \<le> b - 1 \<Longrightarrow> b \<noteq> 0 \<Longrightarrow> set (addrs_below lo b 1) = {lo..b - 1}"
  using addrs_upto_range [of lo "b - 1"] by (simp add: addrs_below_def)

text \<open>The registers that a processor with one thread saves.\<close>

definition p4_regs :: "p4_hw \<Rightarrow> u32 list" where
  "p4_regs S = map counter_address (p4_counters S) @ p4_control_addrs S 0 NUM_COUNTERS_NON_HT"

lemma p4_regs_plain:
  assumes "p4_plain S"
  shows "set (p4_regs S) = {0x300, 0x304, 0x308, 0x310, 0x302, 0x306, 0x30A, 0x311} \<union>
    ({0x360..0x371} \<union> ({0x3A0..0x3B9} \<union>
     ((if 3 \<le> boot_model S then {0x3A0..0x3A1} else {0x3BA..0x3BB}) \<union>
      ({0x3BC..0x3BE} \<union> ({0x3C0..0x3C5} \<union> ({0x3C8..0x3CD} \<union> {0x3E1, 0x3E0}))))))"
proof -
  have l: "p4_layout S" using assms by (simp add: p4_plain_def)
  have "map (p4_addr S) [MSR_P4_PERFCTR BPU 0, MSR_P4_PERFCTR MS 0, MSR_P4_PERFCTR FLAME 0,
      MSR_P4_PERFCTR IQ 4, MSR_P4_PERFCTR BPU 2, MSR_P4_PERFCTR MS 2, MSR_P4_PERFCTR FLAME 2,
      MSR_P4_PERFCTR IQ 5] = [0x300, 0x304, 0x308, 0x310, 0x302, 0x306, 0x30A, 0x311]"
    using l by (simp add: p4_layout_def p4_documented_def)
  then have "map counter_address (p4_counters S) = [0x300, 0x304, 0x308, 0x310, 0x302, 0x306, 0x30A, 0x311]"
    by (simp add: p4_counters_def counter_binding_def)
  then have "set (map counter_address (p4_counters S)) =
      {0x300, 0x304, 0x308, 0x310, 0x302, 0x306, 0x30A, 0x311}" by (simp only: list.set)
  moreover have "set (p4_control_addrs S 0 8) = {0x360..0x371} \<union> ({0x3A0..0x3B9} \<union>
     ((if 3 \<le> boot_model S then {0x3A0..0x3A1} else {0x3BA..0x3BB}) \<union>
      ({0x3BC..0x3BE} \<union> ({0x3C0..0x3C5} \<union> ({0x3C8..0x3CD} \<union> {0x3E1, 0x3E0})))))"
    using assms
    by (simp add: p4_control_addrs_def p4_sizes Let_def p4_addrs [OF l, simplified]
        p4_addrs [OF l] addrs_upto_range [simplified] addrs_below_range [simplified])
  ultimately show ?thesis by (simp only: p4_regs_def set_append NUM_COUNTERS_NON_HT_def)
qed

lemma p4_nonzero: "p4_plain S \<Longrightarrow> 0 \<notin> set (p4_regs S)"
  by (simp add: p4_regs_plain)

lemma p4_ctr_regs:
  assumes "p4_plain S" and "i < 8"
  obtains b where "p4_ctr S i = Some b" and "counter_address b \<in> set (p4_regs S)"
    and "cccr_address b \<in> set (p4_regs S)"
proof -
  have l: "p4_layout S" using assms(1) by (simp add: p4_plain_def)
  have len: "length (p4_counters S) = 8" by (simp add: p4_counters_def)
  have "map (p4_addr S) [MSR_P4_CCCR BPU 0, MSR_P4_CCCR MS 0, MSR_P4_CCCR FLAME 0,
      MSR_P4_CCCR IQ 4, MSR_P4_CCCR BPU 2, MSR_P4_CCCR MS 2, MSR_P4_CCCR FLAME 2, MSR_P4_CCCR IQ 5] =
      [0x360, 0x364, 0x368, 0x370, 0x362, 0x366, 0x36A, 0x371]"
    using l by (simp add: p4_layout_def p4_documented_def)
  then have "map cccr_address (p4_counters S) = [0x360, 0x364, 0x368, 0x370, 0x362, 0x366, 0x36A, 0x371]"
    by (simp add: p4_counters_def counter_binding_def)
  then have "set (map cccr_address (p4_counters S)) \<subseteq> set (p4_regs S)"
    unfolding p4_regs_plain [OF assms(1)] by (simp only: list.set) simp
  moreover have m: "p4_counters S ! i \<in> set (p4_counters S)" using assms(2) len by simp
  ultimately have "cccr_address (p4_counters S ! i) \<in> set (p4_regs S)" by auto
  moreover have "counter_address (p4_counters S ! i) \<in> set (p4_regs S)"
    using m by (auto simp: p4_regs_def)
  ultimately show ?thesis
    using assms(2) len that [of "p4_counters S ! i"] by (simp add: p4_ctr_def elem_def)
qed

lemma p4_unused_regs:
  assumes "p4_plain S"
  shows "set (p4_unused_stag S 0) \<subseteq> set (p4_regs S)"
proof -
  have l: "p4_layout S" using assms by (simp add: p4_plain_def)
  have "p4_unused_cccr S = [0x361, 0x363, 0x365, 0x367, 0x369, 0x36B, 0x36C, 0x36D, 0x36E, 0x36F]"
    unfolding p4_unused_cccr_def using l by (simp add: p4_layout_def p4_documented_def)
  then have "set (p4_unused_cccr S) \<subseteq> set (p4_regs S)" "length (p4_unused_cccr S) = 10"
    unfolding p4_regs_plain [OF assms] by simp_all
  moreover have "set (p4_unused_stag S 0) \<subseteq> set (p4_unused_cccr S)"
    using calculation(2) by (auto simp: p4_unused_stag_def p4_sizes)
  ultimately show ?thesis by blast
qed

lemma p4_cleared_regs:
  assumes "p4_plain S"
  shows "set (p4_cleared_escrs S 0 8) \<subseteq> set (p4_regs S)"
proof -
  have l: "p4_layout S" using assms by (simp add: p4_plain_def)
  have "set (p4_cleared_escrs S 0 8) = {0x3A0..0x3B9} \<union>
     ((if boot_model S < 3 then {0x3BA, 0x3BB} else {}) \<union>
      ({0x3BC..0x3BE} \<union> ({0x3C0..0x3C5} \<union> ({0x3C8..0x3CD} \<union> {0x3E0, 0x3E1}))))"
    using assms
    by (auto simp: p4_cleared_escrs_def p4_sizes Let_def p4_addrs [OF l, simplified]
        p4_addrs [OF l] addrs_upto_range [simplified] addrs_below_range [simplified])
  then show ?thesis unfolding p4_regs_plain [OF assms] by auto
qed

lemma p4_event_regs:
  assumes "p4_plain S" and "ev \<in> set (p4_events S)" and "b \<in> set (bindings ev)"
    and "escr_counter b \<noteq> 0"
  shows "escr_address b \<in> set (p4_regs S)"
proof -
  have l: "p4_layout S" using assms(1) by (simp add: p4_plain_def)
  let ?E = "[MSR_P4_ESCR CRU 0, MSR_P4_ESCR CRU 1, MSR_P4_ESCR CRU 2, MSR_P4_ESCR CRU 3,
      MSR_P4_ESCR TC 0, MSR_P4_ESCR TC 1, MSR_P4_ESCR BPU 0, MSR_P4_ESCR BPU 1, MSR_P4_ESCR ITLB 0,
      MSR_P4_ESCR ITLB 1, MSR_P4_ESCR DAC 0, MSR_P4_ESCR DAC 1, MSR_P4_ESCR SAAT 0, MSR_P4_ESCR SAAT 1,
      MSR_P4_ESCR MOB 0, MSR_P4_ESCR MOB 1, MSR_P4_ESCR PMH 0, MSR_P4_ESCR PMH 1, MSR_P4_ESCR BSU 0,
      MSR_P4_ESCR BSU 1, MSR_P4_ESCR FSB 0, MSR_P4_ESCR FSB 1, MSR_P4_ESCR FIRM 0, MSR_P4_ESCR FIRM 1,
      MSR_P4_ESCR MS 0, MSR_P4_ESCR MS 1, MSR_P4_ESCR RAT 0, MSR_P4_ESCR RAT 1, MSR_P4_ESCR TBPU 0,
      MSR_P4_ESCR TBPU 1]"
  have "map (p4_addr S) ?E = [0x3B8, 0x3B9, 0x3CC, 0x3CD, 0x3C4, 0x3C5, 0x3B2, 0x3B3, 0x3B6, 0x3B7,
      0x3A8, 0x3A9, 0x3AE, 0x3AF, 0x3AA, 0x3AB, 0x3AC, 0x3AD, 0x3A0, 0x3A1, 0x3A2, 0x3A3, 0x3A4, 0x3A5,
      0x3C0, 0x3C1, 0x3BC, 0x3BD, 0x3C2, 0x3C3]"
    using l by (simp add: p4_layout_def p4_documented_def)
  then have "set (map (p4_addr S) ?E) \<subseteq> set (p4_regs S)"
    unfolding p4_regs_plain [OF assms(1)] by (simp only: list.set) simp
  moreover have "\<forall>ev \<in> set (p4_events S). \<forall>b \<in> set (bindings ev).
      escr_counter b = 0 \<or> escr_address b \<in> set (map (p4_addr S) ?E)"
    by (simp add: p4_events_defs event_binding_def binding_def no_binding_def)
  ultimately show ?thesis using assms(2-4) by blast
qed

section \<open>The operations keep to these registers\<close>

text \<open>The structures of CPU \<open>c\<close> hold the addresses of these registers.\<close>

definition p4_ready :: "p4_hw \<Rightarrow> nat \<Rightarrow> x86_state \<Rightarrow> bool" where
  "p4_ready S c x \<longleftrightarrow> length (p4_control_addrs S 0 NUM_COUNTERS_NON_HT) = 63 \<and>
     addrs c x = (Some (map (ucast \<circ> counter_address) (p4_counters S)),
       Some (map ucast (p4_control_addrs S 0 NUM_COUNTERS_NON_HT)))"

definition p4_wf :: "p4_hw \<Rightarrow> kernel_env \<Rightarrow> x86_hw \<Rightarrow> x86_state \<Rightarrow> bool" where
  "p4_wf S env H x \<longleftrightarrow> p4_plain S \<and> sys_ok env H \<and> p4_num_counters x = 8 \<and>
     length (p4_reset_value x) = 8 \<and> length (counter_config x) = OP_MAX_COUNTER"

lemma p4_wf_same: "p4_wf S env H x \<Longrightarrow> same_vars x x' \<Longrightarrow> p4_wf S env H x'"
  by (simp add: p4_wf_def same_vars_def)

lemma p4_ready_addrs: "p4_ready S c x \<Longrightarrow> addrs c x' = addrs c x \<Longrightarrow> p4_ready S c x'"
  by (simp add: p4_ready_def)

lemma p4_ready_sized:
  assumes "p4_ready S c x"
  shows "msrs_sized 8 63 c x"
proof -
  obtain cs ds where cd: "cpu_msrs x c = \<lparr>counters = Some cs, controls = Some ds\<rparr>"
    "map addr cs = map (ucast \<circ> counter_address) (p4_counters S)"
    "map addr ds = map ucast (p4_control_addrs S 0 NUM_COUNTERS_NON_HT)"
    using assms by (cases "cpu_msrs x c") (auto simp: p4_ready_def addrs_def)
  have "length cs = length (p4_counters S)" using map_eq_imp_length_eq [OF cd(2)] .
  moreover have "length ds = 63" using map_eq_imp_length_eq [OF cd(3)] assms by (simp add: p4_ready_def)
  ultimately show ?thesis using cd(1) by (simp add: msrs_sized_def p4_counters_def)
qed

lemma p4_ready_listed:
  assumes "p4_ready S c x"
  shows "listed c x = set (p4_regs S)"
proof -
  obtain cs ds where cd: "cpu_msrs x c = \<lparr>counters = Some cs, controls = Some ds\<rparr>"
    "map addr cs = map (ucast \<circ> counter_address) (p4_counters S)"
    "map addr ds = map ucast (p4_control_addrs S 0 NUM_COUNTERS_NON_HT)"
    using assms by (cases "cpu_msrs x c") (auto simp: p4_ready_def addrs_def)
  have "map addr (cs @ ds) = map ucast (p4_regs S)" using cd by (simp add: p4_regs_def)
  then have "(\<lambda>a. ucast a :: u32) ` set (map addr (cs @ ds)) =
      (\<lambda>a. ucast a :: u32) ` set (map ucast (p4_regs S) :: ulong list)" by simp
  then show ?thesis using cd(1) by (simp add: listed_def entries_def image_image image_Un)
qed

text \<open>One step of an operation: what it keeps.\<close>

definition p4_keeps :: "p4_hw \<Rightarrow> kernel_env \<Rightarrow> x86_hw \<Rightarrow> nat \<Rightarrow> x86_state \<Rightarrow> x86_state \<Rightarrow> bool" where
  "p4_keeps S env H c x x' \<longleftrightarrow> p4_wf S env H x' \<and> p4_ready S c x' \<and> only_regs c x x' \<and> apic x' = apic x"

lemma p4_keeps_refl: "p4_wf S env H x \<Longrightarrow> p4_ready S c x \<Longrightarrow> p4_keeps S env H c x x"
  by (simp add: p4_keeps_def)

lemma p4_keeps_trans: "p4_keeps S env H c x y \<Longrightarrow> p4_keeps S env H c y z \<Longrightarrow> p4_keeps S env H c x z"
  by (auto simp: p4_keeps_def intro: only_regs_trans)

lemma p4_keeps_plain: "p4_keeps S env H c x y \<Longrightarrow> p4_plain S"
  by (simp add: p4_keeps_def p4_wf_def)

lemma p4_keeps_wrmsr:
  assumes "p4_keeps S env H c x y" and "a \<in> set (p4_regs S)"
  shows "p4_keeps S env H c x (wrmsr c (ucast a) low high y)"
proof -
  have "only_regs c y (wrmsr c (ucast a) low high y)"
    using assms p4_ready_listed [of S c y] by (intro only_regs_wrmsr) (simp add: p4_keeps_def)
  then have "p4_keeps S env H c y (wrmsr c (ucast a) low high y)"
    using assms(1) by (simp add: p4_keeps_def p4_wf_def p4_ready_def addrs_def wrmsr_def)
  with assms(1) show ?thesis by (rule p4_keeps_trans)
qed

lemma p4_keeps_modify:
  "p4_keeps S env H c x y \<Longrightarrow> a \<in> set (p4_regs S) \<Longrightarrow> p4_keeps S env H c x (modify_msr c f a y)"
  by (simp add: modify_msr_def p4_keeps_wrmsr split: prod.split)

lemma p4_keeps_cccr:
  assumes "p4_keeps S env H c x y" and "i < 8"
  shows "\<exists>y'. cccr_modify S c f i y = Some y' \<and> p4_keeps S env H c x y'"
proof -
  obtain b where "p4_ctr S i = Some b" "cccr_address b \<in> set (p4_regs S)"
    using p4_ctr_regs [OF p4_keeps_plain [OF assms(1)] assms(2)] .
  with p4_keeps_modify [OF assms(1)] show ?thesis by (simp add: cccr_modify_def)
qed

lemma p4_keeps_ctr:
  assumes "p4_keeps S env H c x y" and "i < 8"
  shows "\<exists>y'. P4_CTR_WRITE S l c i y = Some y' \<and> p4_keeps S env H c x y'"
proof -
  obtain b where "p4_ctr S i = Some b" "counter_address b \<in> set (p4_regs S)"
    using p4_ctr_regs [OF p4_keeps_plain [OF assms(1)] assms(2)] .
  with p4_keeps_wrmsr [OF assms(1)] show ?thesis by (simp add: P4_CTR_WRITE_def)
qed

lemma p4_keeps_virt: "p4_keeps S env H c x y \<Longrightarrow> VIRT_CTR y (get_stagger S c') i = i"
  using p4_keeps_plain [of S env H c x y] by (simp add: VIRT_CTR_def)

lemma p4_keeps_loop:
  assumes "p4_keeps S env H c x y"
    and "\<And>i z. i \<in> set js \<Longrightarrow> p4_keeps S env H c x z \<Longrightarrow> \<exists>z'. f i z = Some z' \<and> p4_keeps S env H c x z'"
  shows "\<exists>y'. for_each f js y = Some y' \<and> p4_keeps S env H c x y'"
  using assms by (rule for_each_invariant)

lemma p4_set_reset:
  assumes "p4_keeps S env H c x y"
  shows "p4_keeps S env H c x (p4_set_reset i v y)"
proof -
  have "p4_wf S env H y" "p4_ready S c y" using assms by (simp_all add: p4_keeps_def)
  then have "p4_keeps S env H c y (p4_set_reset i v y)"
    by (simp add: p4_keeps_def p4_wf_def p4_ready_def addrs_def only_regs_def p4_set_reset_def)
  with assms show ?thesis by (rule p4_keeps_trans)
qed

lemma p4_setup_one:
  assumes "p4_keeps S env H c x y" and "i < 8"
  shows "\<exists>y'. pmc_setup_one_p4_counter S c i y = Some y' \<and> p4_keeps S env H c x y'"
proof -
  obtain g where g: "config i y = Some g"
    using assms by (simp add: config_def elem_def p4_keeps_def p4_wf_def OP_MAX_COUNTER_def)
  show ?thesis
  proof (cases "cc_event g \<le> 0 \<or> of_nat NUM_EVENTS < cc_event g")
    case True
    with assms(1) g show ?thesis by (simp add: pmc_setup_one_p4_counter_def)
  next
    case False
    then have "cc_event g \<noteq> 0" "unat (cc_event g) \<le> 39"
      by (simp_all add: p4_sizes word_less_nat_alt)
    then have "unat (cc_event g - 1) < 39" by (simp add: unat_minus_one)
    moreover have "length (p4_events S) = 39" by (simp add: p4_events_defs)
    ultimately obtain ev where ev: "elem (Some (p4_events S)) (unat (cc_event g - 1)) = Some ev"
      "ev \<in> set (p4_events S)" by (simp add: elem_def)
    let ?P = "\<lambda>b. escr_counter b AND push_bit (VIRT_CTR y (get_stagger S c) i) 1 \<noteq> 0"
    show ?thesis
    proof (cases "find ?P (bindings ev)")
      case None
      with False assms(1) g ev(1) show ?thesis by (simp add: pmc_setup_one_p4_counter_def Let_def)
    next
      case (Some b)
      then have "b \<in> set (bindings ev)" "escr_counter b \<noteq> 0" by (auto simp: find_Some_iff)
      then have "escr_address b \<in> set (p4_regs S)"
        using p4_event_regs [OF p4_keeps_plain [OF assms(1)] ev(2)] by blast
      from p4_keeps_cccr [OF p4_keeps_modify [OF assms(1) this] assms(2)] obtain y' where
        "cccr_modify S c (p4_cccr (get_stagger S c) ev) i
           (modify_msr c (p4_escr (get_stagger S c) g ev) (escr_address b) y) = Some y'"
        "p4_keeps S env H c x y'" by blast
      with False Some g ev(1) p4_keeps_virt [OF assms(1)] show ?thesis
        by (simp add: pmc_setup_one_p4_counter_def Let_def)
    qed
  qed
qed

lemma p4_enable_ok:
  assumes "p4_keeps S env H c x y" and "i < 8"
  shows "\<exists>y'. p4_enable_ctr S c i y = Some y' \<and> p4_keeps S env H c x y'"
proof -
  obtain g where g: "config i y = Some g"
    using assms by (simp add: config_def elem_def p4_keeps_def p4_wf_def OP_MAX_COUNTER_def)
  from p4_setup_one [OF p4_set_reset [OF assms(1)] assms(2)] obtain z where
    z: "pmc_setup_one_p4_counter S c i (p4_set_reset i (cc_count g) y) = Some z"
    "p4_keeps S env H c x z" by blast
  from p4_keeps_ctr [OF z(2) assms(2), of "cc_count g"] p4_keeps_virt [OF z(2)]
    p4_set_reset [OF assms(1), of i 0] g z(1)
  show ?thesis by (auto simp: p4_enable_ctr_def)
qed

text \<open>Setup clears registers, then enables the counters.\<close>

lemma p4_setup_clears:
  assumes "p4_wf S env H x" and "p4_ready S c x"
    and "MISC_PMC_ENABLED_P (fst (rdmsr c (ucast (MSR_IA32_MISC_ENABLE S)) x))"
  shows "\<exists>y. p4_setup_ctrs S c x = for_each (p4_enable_ctr S c) [0..<8] y \<and> p4_keeps S env H c x y"
proof -
  let ?K = "p4_keeps S env H c x"
  have plain: "p4_plain S" and n: "p4_num_counters x = 8" using assms(1) by (simp_all add: p4_wf_def)
  let ?clear = "\<lambda>low. CCCR_SET_REQUIRED_BITS (CCCR_CLEAR low)"
  have "\<exists>y. for_each (\<lambda>i x. cccr_modify S c ?clear (VIRT_CTR x (get_stagger S c) i) x) [0..<8] x = Some y \<and> ?K y"
    by (rule p4_keeps_loop [OF p4_keeps_refl [OF assms(1,2)]]) (simp add: p4_keeps_virt p4_keeps_cccr)
  then obtain y1 where y1: "for_each (\<lambda>i x. cccr_modify S c ?clear (VIRT_CTR x (get_stagger S c) i) x)
      [0..<8] x = Some y1" "?K y1" by blast
  have "\<exists>y. for_each (\<lambda>a x. Some (modify_msr c ?clear a x)) (p4_unused_stag S 0) y1 = Some y \<and> ?K y"
    using p4_unused_regs [OF plain] by (intro p4_keeps_loop [OF y1(2)]) (auto intro: p4_keeps_modify)
  then obtain y2 where y2: "for_each (\<lambda>a x. Some (modify_msr c ?clear a x)) (p4_unused_stag S 0) y1 = Some y2"
    "?K y2" by blast
  have "\<exists>y. for_each (\<lambda>a x. Some (wrmsr c (ucast a) 0 0 x)) (p4_cleared_escrs S 0 8) y2 = Some y \<and> ?K y"
    using p4_cleared_regs [OF plain] by (intro p4_keeps_loop [OF y2(2)]) (auto intro: p4_keeps_wrmsr)
  then obtain y3 where
    y3: "for_each (\<lambda>a x. Some (wrmsr c (ucast a) 0 0 x)) (p4_cleared_escrs S 0 8) y2 = Some y3"
    "?K y3" by blast
  have "p4_setup_ctrs S c x = for_each (p4_enable_ctr S c) [0..<8] y3"
    using assms(3) y1(1) y2(1) y3(1) plain n
    by (simp add: p4_setup_ctrs_def Let_def del: upt_Suc)
  with y3(2) show ?thesis by blast
qed

lemma p4_setup_ok:
  assumes "p4_wf S env H x" and "p4_ready S c x"
  shows "\<exists>x'. p4_setup_ctrs S c x = Some x' \<and> p4_keeps S env H c x x'"
proof (cases "MISC_PMC_ENABLED_P (fst (rdmsr c (ucast (MSR_IA32_MISC_ENABLE S)) x))")
  case False
  with p4_keeps_refl [OF assms] show ?thesis by (simp add: p4_setup_ctrs_def Let_def)
next
  case True
  from p4_setup_clears [OF assms this] obtain y where
    y: "p4_setup_ctrs S c x = for_each (p4_enable_ctr S c) [0..<8] y" "p4_keeps S env H c x y" by blast
  show ?thesis unfolding y(1)
    by (rule p4_keeps_loop [OF y(2)]) (simp add: p4_enable_ok)
qed

lemma p4_stop_ok:
  assumes "p4_wf S env H x" and "p4_ready S c x"
  shows "\<exists>x'. p4_stop S c x = Some x' \<and> p4_keeps S env H c x x'"
proof -
  have "p4_num_counters x = 8" using assms(1) by (simp add: p4_wf_def)
  then show ?thesis unfolding p4_stop_def
    by (intro p4_keeps_loop [OF p4_keeps_refl [OF assms]]) (simp add: p4_keeps_virt p4_keeps_cccr)
qed

lemma p4_reset_ok: "p4_wf S env H y \<Longrightarrow> i < 8 \<Longrightarrow> \<exists>v. p4_reset_of i y = Some v"
  by (simp add: p4_reset_of_def elem_def p4_wf_def)

lemma p4_start_ok:
  assumes "p4_wf S env H x" and "p4_ready S c x"
  shows "\<exists>x'. p4_start S tb c x = Some x' \<and> p4_keeps S env H c x x'"
proof -
  have n: "p4_num_counters x = 8" using assms(1) by (simp add: p4_wf_def)
  have k: "p4_keeps S env H c x (x\<lparr>p4_start_timestamp := (p4_start_timestamp x)(c := tb)\<rparr>)"
    using assms by (simp add: p4_keeps_def p4_wf_def p4_ready_def addrs_def only_regs_def)
  show ?thesis unfolding p4_start_def n
  proof (rule p4_keeps_loop [OF k])
    fix i z assume i: "i \<in> set [0..<8]" and z: "p4_keeps S env H c x z"
    then obtain v where "p4_reset_of i z = Some v"
      using p4_reset_ok [of S env H z i] by (auto simp: p4_keeps_def)
    with p4_keeps_cccr [OF z, of i CCCR_SET_ENABLE] z i
    show "\<exists>z'. p4_start_ctr S c i z = Some z' \<and> p4_keeps S env H c x z'"
      by (simp add: p4_start_ctr_def p4_keeps_virt)
  qed
qed

lemma p4_keeps_handler:
  assumes "handler_keeps (\<lambda>x. p4_wf S env H x \<and> p4_ready S c x) 8 63 c k0 k"
    and "p4_keeps S env H c (x86 k) x'"
  shows "handler_keeps (\<lambda>x. p4_wf S env H x \<and> p4_ready S c x) 8 63 c k0 (k\<lparr>x86 := x'\<rparr>)"
  using assms by (intro handler_x86) (simp_all add: p4_keeps_def)

lemma p4_check_ctr_ok:
  assumes "handler_keeps (\<lambda>x. p4_wf S env H x \<and> p4_ready S c x) 8 63 c k0 k" and "sampler_ok sp" and "i < 8"
  shows "\<exists>k'. p4_check_ctr S sp c t i k = Some k' \<and>
    handler_keeps (\<lambda>x. p4_wf S env H x \<and> p4_ready S c x) 8 63 c k0 k'"
proof -
  let ?K = "handler_keeps (\<lambda>x. p4_wf S env H x \<and> p4_ready S c x) 8 63 c k0"
  have x: "p4_wf S env H (x86 k)" "p4_ready S c (x86 k)"
    using assms(1) by (simp_all add: handler_keeps_def)
  note keeps = p4_keeps_refl [OF x]
  obtain v where v: "p4_reset_of i (x86 k) = Some v" using p4_reset_ok [OF x(1) assms(3)] by blast
  obtain b where b: "p4_ctr S i = Some b" "cccr_address b \<in> set (p4_regs S)"
    using p4_ctr_regs [OF p4_keeps_plain [OF keeps] assms(3)] .
  obtain low h where rd: "CCCR_READ S c i (x86 k) = Some (low, h)"
    using b(1) by (cases "rdmsr c (ucast (cccr_address b)) (x86 k)") (simp add: CCCR_READ_def)
  obtain ctr high where rc: "P4_CTR_READ S c i (x86 k) = Some (ctr, high)"
    using b(1) by (cases "rdmsr c (ucast (counter_address b)) (x86 k)") (simp add: P4_CTR_READ_def)
  from handler_sample [OF assms(1,2), of t "entry_tb t" "sample_tb t i" i] obtain k1 where
    k1: "add_counter_sample sp c t (entry_tb t) (sample_tb t i) i k = Some k1" "?K k1" "x86 k1 = x86 k"
    by blast
  have keeps1: "p4_keeps S env H c (x86 k1) (x86 k1)" using keeps k1(3) by simp
  from p4_keeps_ctr [OF keeps1 assms(3), of v] obtain y1 where
    y1: "P4_CTR_WRITE S v c i (x86 k1) = Some y1" "p4_keeps S env H c (x86 k1) y1" by blast
  let ?y2 = "wrmsr c (ucast (cccr_address b)) (CCCR_CLEAR_OVF low) high y1"
  have y2: "p4_keeps S env H c (x86 k1) ?y2" using p4_keeps_wrmsr [OF y1(2) b(2)] .
  from p4_keeps_ctr [OF y2 assms(3), of v] obtain y3 where
    y3: "P4_CTR_WRITE S v c i ?y2 = Some y3" "p4_keeps S env H c (x86 k1) y3" by blast
  have "?K (k1\<lparr>x86 := y3\<rparr>)" by (rule p4_keeps_handler [OF k1(2) y3(2)])
  with assms(1) v b(1) rd rc k1(1) y1(1) y3(1) p4_keeps_virt [OF keeps] show ?thesis
    by (simp add: p4_check_ctr_def on_x86_def CCCR_WRITE_def)
qed

lemma p4_check_ok:
  assumes "p4_wf S env H (x86 k)" and "p4_ready S c (x86 k)" and "ring_ok (cpu_buffer k c)"
    and "sampler_ok sp"
  shows "\<exists>k'. p4_check_ctrs S lvt sp c t k = Some k' \<and>
    handler_keeps (\<lambda>x. p4_wf S env H x \<and> p4_ready S c x) 8 63 c k k'"
proof -
  let ?K = "handler_keeps (\<lambda>x. p4_wf S env H x \<and> p4_ready S c x) 8 63 c k"
  have x: "p4_wf S env H (x86 k')" "p4_ready S c (x86 k')" if "?K k'" for k'
    using that by (simp_all add: handler_keeps_def)
  have n: "p4_num_counters (x86 k') = 8" if "?K k'" for k' using x(1) [OF that] by (simp add: p4_wf_def)
  have 0: "?K k" using assms(1-3) p4_ready_sized [OF assms(2)] by (intro handler_keeps_refl) simp_all
  from p4_stop_ok [OF assms(1,2)] obtain x1 where
    x1: "p4_stop S c (x86 k) = Some x1" "p4_keeps S env H c (x86 k) x1" by blast
  have k1: "?K (k\<lparr>x86 := x1\<rparr>)" by (rule p4_keeps_handler [OF 0 x1(2)])
  have "\<exists>k2. for_each (p4_check_ctr S sp c t) [0..<8] (k\<lparr>x86 := x1\<rparr>) = Some k2 \<and> ?K k2"
    by (rule handler_loop [OF k1]) (simp add: p4_check_ctr_ok assms(4))
  then obtain k2 where
    k2: "for_each (p4_check_ctr S sp c t) [0..<8] (k\<lparr>x86 := x1\<rparr>) = Some k2" "?K k2" by blast
  let ?x3 = "apic_write c APIC_LVTPC (apic_read c APIC_LVTPC (x86 k2) AND NOT lvt) (x86 k2)"
  have k3: "?K (k2\<lparr>x86 := ?x3\<rparr>)"
    using x [OF k2(2)]
    by (intro handler_x86 [OF k2(2)])
      (simp_all add: apic_write_def p4_wf_def p4_ready_def addrs_def only_regs_def)
  from p4_start_ok [OF x [OF k3], of "restart_tb t"] obtain x4 where
    x4: "p4_start S (restart_tb t) c ?x3 = Some x4" "p4_keeps S env H c ?x3 x4" by auto
  have k4: "?K (k2\<lparr>x86 := x4\<rparr>)" using p4_keeps_handler [OF k3, of x4] x4(2) by simp
  let ?x5 = "x4\<lparr>p4_start_timestamp := (p4_start_timestamp x4)(c := exit_tb t)\<rparr>"
  have "?K (k2\<lparr>x86 := x4\<rparr>\<lparr>x86 := ?x5\<rparr>)"
    using x [OF k4]
    by (intro handler_x86 [OF k4]) (simp_all add: p4_wf_def p4_ready_def addrs_def only_regs_def)
  moreover have "p4_check_ctrs S lvt sp c t k = Some (k2\<lparr>x86 := x4\<rparr>\<lparr>x86 := ?x5\<rparr>)"
    using x1(1) k2(1) x4(1) n [OF k1] by (simp add: p4_check_ctrs_def on_x86_def del: upt_Suc)
  ultimately show ?thesis by blast
qed

section \<open>Filling in the addresses\<close>

lemma store_addrs:
  assumes "i + length as \<le> length xs"
  shows "\<exists>ys. store_addrs i as (Some xs) = Some (Some ys) \<and> length ys = length xs \<and>
    map addr ys = take i (map addr xs) @ map ucast as @ drop (i + length as) (map addr xs)"
  using assms
proof (induction "as" arbitrary: i xs)
  case Nil
  then show ?case by simp
next
  case (Cons a "as")
  let ?xs = "xs[i := (xs ! i)\<lparr>addr := ucast a\<rparr>]"
  have "set_addr i a (Some xs) = Some (Some ?xs)"
    using Cons.prems by (simp add: set_addr_def elem_def)
  moreover from Cons.IH [of "i + 1" ?xs] Cons.prems obtain ys where
    "store_addrs (i + 1) as (Some ?xs) = Some (Some ys)" "length ys = length xs"
    "map addr ys = take (i + 1) (map addr ?xs) @ map ucast as @ drop (i + 1 + length as) (map addr ?xs)"
    by auto
  moreover have "take (i + 1) (map addr ?xs) = take i (map addr xs) @ [ucast a]"
    using Cons.prems by (simp add: map_update take_Suc_conv_app_nth)
  ultimately show ?case by (simp add: map_update)
qed

lemma p4_fill:
  assumes "p4_wf S env H x" and "msrs_sized 8 63 c x"
  shows "\<exists>ms. p4_fill_in_addresses S c x = Some (set_msrs c ms x) \<and> p4_ready S c (set_msrs c ms x) \<and>
    (\<forall>e \<in> set (entries c (set_msrs c ms x)). addr e \<noteq> 0)"
proof -
  have plain: "p4_plain S" and n: "p4_num_counters x = 8" using assms(1) by (simp_all add: p4_wf_def)
  have len: "length (p4_control_addrs S 0 8) = 63"
    using plain by (auto simp: p4_control_addrs_def Let_def length_addrs_upto length_addrs_below p4_sizes
      p4_addrs [simplified] p4_addrs p4_plain_def addr_increment_def)
  from assms(2) obtain cs ds where cd: "cpu_msrs x c = \<lparr>counters = Some cs, controls = Some ds\<rparr>"
    "length cs = 8" "length ds = 63" by (auto simp: msrs_sized_def)
  have "those (map (\<lambda>i. p4_ctr S (VIRT_CTR x 0 i)) [0..<8]) = Some (p4_counters S)"
    by (simp add: p4_ctr_def VIRT_CTR_def elem_def p4_counters_def upt_rec)
  moreover from store_addrs [of 0 "map counter_address (p4_counters S)" cs] cd(2) obtain cs' where
    cs': "store_addrs 0 (map counter_address (p4_counters S)) (Some cs) = Some (Some cs')"
    "length cs' = 8" "map addr cs' = map (ucast \<circ> counter_address) (p4_counters S)"
    by (auto simp: p4_counters_def)
  moreover from store_addrs [of 0 "p4_control_addrs S 0 8" ds] cd(3) len obtain ds' where
    ds': "store_addrs 0 (p4_control_addrs S 0 8) (Some ds) = Some (Some ds')"
    "length ds' = 63" "map addr ds' = map ucast (p4_control_addrs S 0 8)" by auto
  ultimately have fill: "p4_fill_in_addresses S c x =
      Some (set_msrs c \<lparr>counters = Some cs', controls = Some ds'\<rparr> x)"
    using plain n cd(1) by (simp add: p4_fill_in_addresses_def Let_def del: upt_Suc)
  let ?y = "set_msrs c \<lparr>counters = Some cs', controls = Some ds'\<rparr> x"
  have ready: "p4_ready S c ?y"
    using cs'(3) ds'(3) len by (simp add: p4_ready_def addrs_def set_msrs_def p4_sizes)
  have "addr e \<noteq> 0" if "e \<in> set (entries c ?y)" for e
  proof -
    have "(ucast (addr e) :: u32) \<in> listed c ?y" using that by (auto simp: listed_def)
    then show ?thesis
      using p4_ready_listed [OF ready] p4_nonzero [OF plain] by auto
  qed
  with fill ready show ?thesis by blast
qed

interpretation p4: nmi_backend "op_p4_spec S H" "p4_wf S env H" 8 63 "p4_ready S" env H
  for S env H
proof (unfold_locales, goal_cases)
  case (4 c x)
  then show ?case by (rule p4_ready_sized)
next
  case (5 c x x')
  then show ?case by (rule p4_ready_addrs)
next
  case (6 x c)
  from p4_fill [OF 6] 6(1) show ?case
    by (auto simp: op_p4_spec_def set_msrs_def only_structs_def p4_wf_def)
next
  case (7 x c)
  from p4_setup_ok [OF 7] show ?case by (auto simp: op_p4_spec_def p4_keeps_def)
next
  case (8 x c tb)
  from p4_start_ok [OF 8, of tb] show ?case by (auto simp: op_p4_spec_def p4_keeps_def)
next
  case (9 x c)
  from p4_stop_ok [OF 9] show ?case by (auto simp: op_p4_spec_def p4_keeps_def)
next
  case (11 k c sp t)
  from p4_check_ok [OF 11, of "APIC_LVT_MASKED H" t] show ?case
    by (auto simp: op_p4_spec_def handler_keeps_def)
qed (simp_all add: op_p4_spec_def p4_wf_same, simp_all add: p4_wf_def OP_MAX_COUNTER_def p4_sizes)

end
