(* ===== verification/Backtrace.thy ===== *)
theory Backtrace
  imports X86_Machine
begin

text \<open>
  \<^verbatim>\<open>x86/backtrace.c\<close>: the callback that walks the frame pointers of the interrupted kernel or
  user stack and adds the return addresses to the sample. In its version for \<^verbatim>\<open>CONFIG_X86_64\<close>
  and kernels from 2.6.30 on. What the three walks have in common is the locale \<open>frame_walk\<close>.
\<close>

section \<open>The stack\<close>

text \<open>
  What the code finds: the registers of the interrupt, the sizes of the kernel, and memory.
  \<open>kernel_frame\<close> is the frame, saved frame pointer and return address, at a kernel address,
  \<open>None\<close> if the address is not mapped. \<open>user_frame64\<close> and \<open>user_frame32\<close> are the first of the
  two frames that \<^verbatim>\<open>__copy_from_user_inatomic\<close> copies, \<open>None\<close> if it fails.
\<close>

record 'r stack_env =
  bt_user_mode :: "'r \<Rightarrow> bool"
  frame_pointer :: "'r \<Rightarrow> ulong"
  kernel_stack_pointer :: "'r \<Rightarrow> ulong"
  config_frame_pointer :: bool
  THREAD_SIZE :: ulong
  tif_ia32 :: bool
  kernel_frame :: "ulong \<Rightarrow> (ulong \<times> ulong) option"
  access_ok :: "ulong \<Rightarrow> nat \<Rightarrow> bool"
  user_frame64 :: "ulong \<Rightarrow> (ulong \<times> ulong) option"
  user_frame32 :: "u32 \<Rightarrow> (u32 \<times> u32) option"

section \<open>The walks\<close>

definition dump_kernel_backtrace ::
  "'r stack_env \<Rightarrow> ulong \<Rightarrow> oprofile_cpu_buffer \<Rightarrow> (ulong \<times> oprofile_cpu_buffer) option" where
  "dump_kernel_backtrace E head b =
     do { (ebp, ret) \<leftarrow> kernel_frame E head;
          b \<leftarrow> oprofile_add_trace ret b;
          if ebp \<le> head then Some (0, b) else Some (ebp, b) }"

definition dump_user64_backtrace ::
  "'r stack_env \<Rightarrow> ulong \<Rightarrow> oprofile_cpu_buffer \<Rightarrow> (ulong \<times> oprofile_cpu_buffer) option" where
  "dump_user64_backtrace E head b =
     (if \<not> access_ok E head 32 then Some (0, b)
      else case user_frame64 E head of
             None \<Rightarrow> Some (0, b)
           | Some (ebp_ptr, ret) \<Rightarrow>
               if ebp_ptr \<le> head then Some (0, b)
               else do { b \<leftarrow> oprofile_add_trace ret b; Some (ebp_ptr, b) })"

definition dump_user32_backtrace ::
  "'r stack_env \<Rightarrow> u32 \<Rightarrow> oprofile_cpu_buffer \<Rightarrow> (u32 \<times> oprofile_cpu_buffer) option" where
  "dump_user32_backtrace E head b =
     (if \<not> access_ok E (ucast head) 16 then Some (0, b)
      else case user_frame32 E head of
             None \<Rightarrow> Some (0, b)
           | Some (ebp_ptr, ret) \<Rightarrow>
               if ebp_ptr \<le> head then Some (0, b)
               else do { b \<leftarrow> oprofile_add_trace (ucast ret) b; Some (ebp_ptr, b) })"

definition stack_base :: "'r stack_env \<Rightarrow> 'r \<Rightarrow> ulong" where
  "stack_base E regs = (kernel_stack_pointer E regs AND NOT (THREAD_SIZE E - 1)) + THREAD_SIZE E"

definition valid_kernel_stack :: "'r stack_env \<Rightarrow> ulong \<Rightarrow> 'r \<Rightarrow> bool" where
  "valid_kernel_stack E head regs \<longleftrightarrow>
     config_frame_pointer E \<and> kernel_stack_pointer E regs < head \<and> head < stack_base E regs"

text \<open>The loop \<^verbatim>\<open>while (depth-- && cont(head)) head = dump(head)\<close>.\<close>

fun trace_loop ::
  "('a \<Rightarrow> bool) \<Rightarrow> ('a \<Rightarrow> oprofile_cpu_buffer \<Rightarrow> ('a \<times> oprofile_cpu_buffer) option) \<Rightarrow> nat \<Rightarrow> 'a \<Rightarrow>
   oprofile_cpu_buffer \<Rightarrow> oprofile_cpu_buffer option" where
  "trace_loop cont dump 0 head b = Some b"
| "trace_loop cont dump (Suc depth) head b =
     (if cont head then do { (head, b) \<leftarrow> dump head b; trace_loop cont dump depth head b }
      else Some b)"

text \<open>\<^verbatim>\<open>x86_backtrace\<close>; without registers the accessors would read through a null pointer.\<close>

definition x86_backtrace :: "'r stack_env \<Rightarrow> 'r option backtrace_op" where
  "x86_backtrace E regs depth b =
     (case regs of
        None \<Rightarrow> None
      | Some r \<Rightarrow>
          let head = frame_pointer E r
          in if \<not> bt_user_mode E r then
               trace_loop (\<lambda>head. valid_kernel_stack E head r) (dump_kernel_backtrace E) (unat depth) head b
             else if \<not> tif_ia32 E then
               trace_loop (\<lambda>head. head \<noteq> 0) (dump_user64_backtrace E) (unat depth) head b
             else
               trace_loop (\<lambda>head. head \<noteq> 0) (dump_user32_backtrace E) (unat depth) (ucast head) b)"

section \<open>Walking frames\<close>

text \<open>
  A step of a walk at address \<open>h\<close> either ends it without a trace entry (\<open>out h = None\<close>) or adds
  a return address and moves on to \<open>0\<close> or a higher address. \<open>frames\<close> are the addresses visited,
  each with its return address, \<open>last_stop\<close> is where the walk ends.
\<close>

fun frames ::
  "('a \<Rightarrow> bool) \<Rightarrow> ('a \<Rightarrow> (ulong \<times> 'a) option) \<Rightarrow> nat \<Rightarrow> 'a \<Rightarrow> ('a \<times> ulong) list" where
  "frames cont out 0 h = []"
| "frames cont out (Suc n) h =
     (if cont h then case out h of None \<Rightarrow> [] | Some (pc, h') \<Rightarrow> (h, pc) # frames cont out n h' else [])"

lemma frames_numeral [simp]:
  "frames cont out (numeral k) h =
     (if cont h then case out h of None \<Rightarrow> []
        | Some (pc, h') \<Rightarrow> (h, pc) # frames cont out (pred_numeral k) h' else [])"
  by (simp add: numeral_eq_Suc)

fun last_stop :: "('a \<Rightarrow> bool) \<Rightarrow> ('a \<Rightarrow> (ulong \<times> 'a) option) \<Rightarrow> nat \<Rightarrow> 'a \<Rightarrow> 'a" where
  "last_stop cont out 0 h = h"
| "last_stop cont out (Suc n) h =
     (if cont h then case out h of None \<Rightarrow> h | Some (pc, h') \<Rightarrow> last_stop cont out n h' else h)"

locale frame_walk =
  fixes cont :: "'a::len word \<Rightarrow> bool"
    and dump :: "'a word \<Rightarrow> oprofile_cpu_buffer \<Rightarrow> ('a word \<times> oprofile_cpu_buffer) option"
    and out :: "'a word \<Rightarrow> (ulong \<times> 'a word) option"
  assumes dump_law: "cont h \<Longrightarrow> dump h b =
      (case out h of None \<Rightarrow> Some (0, b)
       | Some (pc, h') \<Rightarrow> map_option (\<lambda>b. (h', b)) (oprofile_add_trace pc b))"
    and upward: "cont h \<Longrightarrow> out h = Some (pc, h') \<Longrightarrow> h' = 0 \<or> h < h'"
    and cont_nonzero: "\<not> cont 0"
begin

lemma frames_stop [simp]: "\<not> cont h \<Longrightarrow> frames cont out n h = []"
  by (cases n) simp_all

lemma loop_frames: "trace_loop cont dump n h b = for_each oprofile_add_trace (map snd (frames cont out n h)) b"
proof (induction n arbitrary: h b)
  case 0
  show ?case by simp
next
  case (Suc n)
  have "trace_loop cont dump n 0 b = Some b" using cont_nonzero by (cases n) simp_all
  with Suc.IH dump_law [of h b] show ?case
    by (auto split: option.splits)
qed

lemma frames_length: "length (frames cont out n h) \<le> n"
  by (induction n arbitrary: h) (auto split: option.splits)

lemma frames_above: "x \<in> set (frames cont out n h) \<Longrightarrow> h \<le> fst x \<and> cont (fst x)"
proof (induction n arbitrary: h)
  case (Suc n)
  show ?case
  proof (cases "cont h")
    case True
    obtain pc h' where o: "out h = Some (pc, h')"
      using Suc.prems True by (cases "out h") auto
    consider "x = (h, pc)" | "x \<in> set (frames cont out n h')" using Suc.prems True o by auto
    then show ?thesis
    proof cases
      case 2
      then have "cont h'" using frames_stop by fastforce
      then have "h' \<noteq> 0" using cont_nonzero by auto
      with upward [OF True o] Suc.IH [OF 2] show ?thesis by auto
    qed (simp add: True)
  qed (use Suc.prems in simp)
qed simp

lemma frames_increase: "sorted_wrt (<) (map fst (frames cont out n h))"
proof (induction n arbitrary: h)
  case (Suc n)
  show ?case
  proof (cases "cont h")
    case True
    have "h < fst x" if "out h = Some (pc, h')" "x \<in> set (frames cont out n h')" for pc h' x
    proof -
      have "cont h'" using that(2) frames_stop by fastforce
      then have "h' \<noteq> 0" using cont_nonzero by auto
      with upward [OF True that(1)] have "h < h'" by simp
      also have "h' \<le> fst x" using frames_above [OF that(2)] by simp
      finally show ?thesis .
    qed
    with Suc.IH True show ?thesis by (auto split: option.split)
  qed simp
qed simp

text \<open>The walk ends at the depth or where there is nothing more to visit.\<close>

lemma frames_complete:
  "length (frames cont out n h) = n \<or> \<not> cont (last_stop cont out n h) \<or> out (last_stop cont out n h) = None"
  by (induction n arbitrary: h) (auto split: option.split)

end

text \<open>The three walks.\<close>

definition kernel_out :: "'r stack_env \<Rightarrow> ulong \<Rightarrow> (ulong \<times> ulong) option" where
  "kernel_out E h = map_option (\<lambda>(ebp, ret). (ret, if ebp \<le> h then 0 else ebp)) (kernel_frame E h)"

definition user64_out :: "'r stack_env \<Rightarrow> ulong \<Rightarrow> (ulong \<times> ulong) option" where
  "user64_out E h =
     (if access_ok E h 32 then
        case user_frame64 E h of None \<Rightarrow> None | Some (ebp, ret) \<Rightarrow> if ebp \<le> h then None else Some (ret, ebp)
      else None)"

definition user32_out :: "'r stack_env \<Rightarrow> u32 \<Rightarrow> (ulong \<times> u32) option" where
  "user32_out E h =
     (if access_ok E (ucast h) 16 then
        case user_frame32 E h of None \<Rightarrow> None
        | Some (ebp, ret) \<Rightarrow> if ebp \<le> h then None else Some (ucast ret, ebp)
      else None)"

interpretation user64: frame_walk "\<lambda>h. h \<noteq> 0" "dump_user64_backtrace E" "user64_out E" for E
  by unfold_locales
    (auto simp: dump_user64_backtrace_def user64_out_def Option.bind_def map_option_case
      split: option.splits if_splits)

interpretation user32: frame_walk "\<lambda>h. h \<noteq> 0" "dump_user32_backtrace E" "user32_out E" for E
  by unfold_locales
    (auto simp: dump_user32_backtrace_def user32_out_def Option.bind_def map_option_case
      split: option.splits if_splits)

text \<open>The kernel's stack of an interrupt is mapped.\<close>

definition stack_mapped :: "'r stack_env \<Rightarrow> 'r \<Rightarrow> bool" where
  "stack_mapped E regs \<longleftrightarrow> (\<forall>h. valid_kernel_stack E h regs \<longrightarrow> kernel_frame E h \<noteq> None)"

lemma kernel_walk:
  assumes "stack_mapped E regs"
  shows "frame_walk (\<lambda>h. valid_kernel_stack E h regs) (dump_kernel_backtrace E) (kernel_out E)"
proof
  show "\<not> valid_kernel_stack E 0 regs" by (simp add: valid_kernel_stack_def)
next
  fix h b
  assume "valid_kernel_stack E h regs"
  then obtain ebp ret where "kernel_frame E h = Some (ebp, ret)"
    using assms by (force simp: stack_mapped_def)
  then show "dump_kernel_backtrace E h b = (case kernel_out E h of None \<Rightarrow> Some (0, b)
      | Some (pc, h') \<Rightarrow> map_option (\<lambda>b. (h', b)) (oprofile_add_trace pc b))"
    by (cases "oprofile_add_trace ret b") (simp_all add: dump_kernel_backtrace_def kernel_out_def)
next
  fix h pc h'
  assume "kernel_out E h = Some (pc, h')"
  then show "h' = 0 \<or> h < h'" by (auto simp: kernel_out_def split: if_splits)
qed

text \<open>The return addresses that the callback finds.\<close>

definition return_addresses :: "'r stack_env \<Rightarrow> 'r \<Rightarrow> nat \<Rightarrow> ulong list" where
  "return_addresses E r n =
     (if \<not> bt_user_mode E r then
        map snd (frames (\<lambda>h. valid_kernel_stack E h r) (kernel_out E) n (frame_pointer E r))
      else if \<not> tif_ia32 E then
        map snd (frames (\<lambda>h. h \<noteq> 0) (user64_out E) n (frame_pointer E r))
      else map snd (frames (\<lambda>h. h \<noteq> 0) (user32_out E) n (ucast (frame_pointer E r))))"

lemma x86_backtrace_adds:
  assumes "\<not> bt_user_mode E r \<Longrightarrow> stack_mapped E r"
  shows "x86_backtrace E (Some r) depth b =
    for_each oprofile_add_trace (return_addresses E r (unat depth)) b"
proof (cases "bt_user_mode E r")
  case False
  from frame_walk.loop_frames [OF kernel_walk [OF assms [OF False]]] False show ?thesis
    by (simp add: x86_backtrace_def return_addresses_def)
qed (simp add: x86_backtrace_def return_addresses_def user64.loop_frames user32.loop_frames)

text \<open>C40: the callback adds the return addresses of at most \<^verbatim>\<open>depth\<close> frames, in the order of the
  stack: the loops are the walk along the frame pointers, whatever memory holds.\<close>

theorem x86_backtrace_refines:
  assumes "\<not> bt_user_mode E r \<Longrightarrow> stack_mapped E r"
  shows "x86_backtrace E (Some r) depth b =
      for_each oprofile_add_trace (return_addresses E r (unat depth)) b \<and>
    length (return_addresses E r (unat depth)) \<le> unat depth"
proof
  show "length (return_addresses E r (unat depth)) \<le> unat depth"
  proof (cases "bt_user_mode E r")
    case False
    from frame_walk.frames_length [OF kernel_walk [OF assms [OF False]]] False show ?thesis
      by (simp add: return_addresses_def)
  qed (simp add: return_addresses_def user64.frames_length user32.frames_length)
qed (rule x86_backtrace_adds [OF assms])

text \<open>The frames that the walk of the kernel's stack visits lie strictly above the stack pointer
  and below the base of the stack, each above the one before, so that a corrupt or circular
  chain of frame pointers ends the walk.\<close>

theorem kernel_frames_in_stack:
  assumes "stack_mapped E r"
    and "fs = map fst (frames (\<lambda>h. valid_kernel_stack E h r) (kernel_out E) n (frame_pointer E r))"
  shows "sorted_wrt (<) fs \<and> (\<forall>h \<in> set fs. kernel_stack_pointer E r < h \<and> h < stack_base E r)"
  using frame_walk.frames_increase [OF kernel_walk [OF assms(1)]]
    frame_walk.frames_above [OF kernel_walk [OF assms(1)]] assms(2)
  by (auto simp: valid_kernel_stack_def)

text \<open>
  The check of \<^verbatim>\<open>valid_kernel_stack\<close> is about the first byte of a frame: it also accepts the last
  byte of the stack, where the return address that is read next lies beyond the stack.
\<close>

lemma valid_kernel_stack_last_byte:
  assumes "config_frame_pointer E" and "kernel_stack_pointer E r < stack_base E r - 1"
    and "stack_base E r \<noteq> 0"
  shows "valid_kernel_stack E (stack_base E r - 1) r"
  using assms measure_unat [OF assms(3)] by (simp add: valid_kernel_stack_def word_less_nat_alt)

section \<open>Samples\<close>

text \<open>A sample taken with the callback is queued as the begin mark, the notes, the sample and
  the return addresses of the frames, up to the room in the ring.\<close>

theorem sample_with_x86_backtrace:
  assumes "\<not> bt_user_mode E r \<Longrightarrow> stack_mapped E r"
    and "ring_ok b" and "pc \<noteq> ESCAPE_CODE" and "depth \<noteq> 0" and "4 \<le> free_slots b"
    and "Suc (length (log_entries b task pc k ev)) \<le> free_slots b"
  shows "\<exists>b'. oprofile_add_ext_sample (Some (x86_backtrace E)) depth task pc (Some r) ev k b = Some b' \<and>
    ring_ok b' \<and> \<not> tracing b' \<and>
    contents b' = contents b @
      [\<lparr>eip = ESCAPE_CODE, event = CPU_TRACE_BEGIN, timestamp = 0\<rparr>] @
      log_entries b task pc k ev @
      map trace_entry (take (free_slots b - Suc (length (log_entries b task pc k ev)))
        (takeWhile (\<lambda>pc. pc \<noteq> ESCAPE_CODE) (return_addresses E r (unat (ucast depth :: u32)))))"
  using assms(2-6)
  by (rule ext_sample_trace) (rule x86_backtrace_adds, rule assms(1))

lemma x86_sampler_ok:
  assumes "\<And>r. \<not> bt_user_mode E r \<Longrightarrow> stack_mapped E r" and "bt_callback sp = Some (x86_backtrace E)"
  shows "sampler_ok sp"
  using assms(2) by (simp add: sampler_ok_def x86_backtrace_adds [OF assms(1)] trace_all_keeps)

end
