(* ===== verification/X86_Init.thy ===== *)
theory X86_Init
  imports Op_Ppro Op_Athlon P4_Contract Backtrace
begin

text \<open>
  Start and end of the x86 part: the choice of the counter model in \<^verbatim>\<open>x86/nmi_int.c\<close>
  (\<^verbatim>\<open>op_nmi_init\<close> with its tables of processors), \<^verbatim>\<open>op_nmi_exit\<close>, and \<^verbatim>\<open>x86/init.c\<close>. All models
  meet the contract of theory Nmi\_Contract under one condition on the state, \<open>model_wf\<close>.
\<close>

section \<open>The processor\<close>

datatype x86_vendor = X86_VENDOR_AMD | X86_VENDOR_INTEL | X86_VENDOR_OTHER

text \<open>
  What the code asks the kernel and the processor: \<^verbatim>\<open>boot_cpu_data\<close> (its model number is
  \<open>boot_model\<close> of \<open>p4_params\<close>), \<^verbatim>\<open>cpuid_eax\<close>, the local APIC, the module parameter \<^verbatim>\<open>p4force\<close>;
  the addresses of the registers; memory for the array of reset values; the stack of an
  interrupt; and which symbols \<^verbatim>\<open>kallsyms_lookup_name\<close> finds.
\<close>

record 'r x86_platform =
  x86_vendor :: x86_vendor
  x86_family :: "8 word"
  cpuid_level :: int
  cpuid_eax :: "u32 \<Rightarrow> u32"
  cpu_has_apic :: bool
  p4force :: int
  hw_params :: x86_hw
  p6_params :: p6_msrs
  k7_params :: k7_msrs
  p4_params :: p4_hw
  kmalloc_reset :: "nat \<Rightarrow> u64 list option"
  stack_params :: "'r stack_env"
  found_pm_idle :: bool
  found_uninstall :: bool
  found_install :: bool

text \<open>The structures that the pointer \<^verbatim>\<open>model\<close> may point to.\<close>

fun spec_of :: "'r x86_platform \<Rightarrow> model_spec \<Rightarrow> ('h, 'r) op_x86_model_spec" where
  "spec_of B ppro_spec = op_ppro_spec (kmalloc_reset B) (p6_params B) (hw_params B)"
| "spec_of B p4_spec = op_p4_spec (p4_params B) (hw_params B)"
| "spec_of B p4_ht2_spec = op_p4_ht2_spec (p4_params B) (hw_params B)"
| "spec_of B athlon_spec = op_athlon_spec (k7_params B)"
| "spec_of B arch_perfmon_spec =
     op_arch_perfmon_spec (kmalloc_reset B) (p6_params B) (hw_params B) (cpuid_eax B 0xA)
       (unat (x86_family B)) (boot_model (p4_params B))"

section \<open>The contract of the chosen model\<close>

text \<open>
  What each model needs of its variables, its numbers of registers, and what it needs of the
  structures of a CPU. Processors with two hyper-threads are left out (theory P4\_Contract).
\<close>

fun model_wf :: "'r x86_platform \<Rightarrow> kernel_env \<Rightarrow> model_spec \<Rightarrow> x86_state \<Rightarrow> bool" where
  "model_wf B env ppro_spec x = ppro_wf (p6_params B) env (hw_params B) x"
| "model_wf B env p4_spec x = p4_wf (p4_params B) env (hw_params B) x"
| "model_wf B env p4_ht2_spec x = False"
| "model_wf B env athlon_spec x = athlon_wf (k7_params B) env (hw_params B) x"
| "model_wf B env arch_perfmon_spec x = arch_wf (p6_params B) env (hw_params B) x"

fun model_ctrs :: "model_spec \<Rightarrow> nat" where
  "model_ctrs ppro_spec = 2" | "model_ctrs p4_spec = 8" | "model_ctrs p4_ht2_spec = 0"
| "model_ctrs athlon_spec = 4" | "model_ctrs arch_perfmon_spec = 2"

fun model_ctls :: "model_spec \<Rightarrow> nat" where
  "model_ctls ppro_spec = 2" | "model_ctls p4_spec = 63" | "model_ctls p4_ht2_spec = 0"
| "model_ctls athlon_spec = 4" | "model_ctls arch_perfmon_spec = 2"

fun model_ready :: "'r x86_platform \<Rightarrow> model_spec \<Rightarrow> nat \<Rightarrow> x86_state \<Rightarrow> bool" where
  "model_ready B ppro_spec = msrs_sized 2 2"
| "model_ready B p4_spec = p4_ready (p4_params B)"
| "model_ready B p4_ht2_spec = (\<lambda>_ _. False)"
| "model_ready B athlon_spec = msrs_sized 4 4"
| "model_ready B arch_perfmon_spec = msrs_sized 2 2"

lemma model_wf_eta:
  "model_wf B env ppro_spec = ppro_wf (p6_params B) env (hw_params B)"
  "model_wf B env p4_spec = p4_wf (p4_params B) env (hw_params B)"
  "model_wf B env p4_ht2_spec = (\<lambda>_. False)"
  "model_wf B env athlon_spec = athlon_wf (k7_params B) env (hw_params B)"
  "model_wf B env arch_perfmon_spec = arch_wf (p6_params B) env (hw_params B)"
  by (rule ext, simp)+

lemma model_contract:
  "nmi_backend (spec_of B m) (model_wf B env m) (model_ctrs m) (model_ctls m) (model_ready B m)
     env (hw_params B)"
proof (cases m)
  case p4_ht2_spec
  then show ?thesis by unfold_locales simp_all
qed (simp_all only: spec_of.simps model_wf_eta model_ctrs.simps model_ctls.simps model_ready.simps
    ppro.nmi_backend_axioms p4.nmi_backend_axioms athlon.nmi_backend_axioms arch.nmi_backend_axioms)

interpretation model: nmi_backend "spec_of B m" "model_wf B env m" "model_ctrs m" "model_ctls m"
    "model_ready B m" env "hw_params B"
  for B m env
  by (rule model_contract)

section \<open>Choosing the model\<close>

text \<open>
  The functions store the CPU type through a pointer; it is passed and returned here. The
  result \<open>True\<close> is 1.
\<close>

definition p4_init ::
  "'r x86_platform \<Rightarrow> string option \<Rightarrow> x86_state \<Rightarrow> bool \<times> string option \<times> x86_state" where
  "p4_init B cpu_type x =
     (let cpu_model = (of_nat (boot_model (p4_params B)) :: 8 word);
          siblings = smp_num_siblings (p4_params B)
      in if p4force B = 0 \<and> (6 < cpu_model \<or> cpu_model = 5) then (False, cpu_type, x)
         else if siblings = 1 then (True, Some ''i386/p4'', x\<lparr>nmi_model := Some p4_spec\<rparr>)
         else if siblings = 2 then (True, Some ''i386/p4-ht'', x\<lparr>nmi_model := Some p4_ht2_spec\<rparr>)
         else (False, cpu_type, x))"

definition force_cpu_type :: "string \<Rightarrow> x86_state \<Rightarrow> x86_state" where
  "force_cpu_type str x = (if str = ''arch_perfmon'' then x\<lparr>force_arch_perfmon := True\<rparr> else x)"

text \<open>The cases of the \<^verbatim>\<open>switch\<close> of \<^verbatim>\<open>ppro_init\<close>: model numbers, CPU type, counter model.\<close>

definition p6_models :: "(8 word list \<times> string \<times> model_spec) list" where
  "p6_models =
     [([0, 1, 2], ''i386/ppro'', ppro_spec),
      ([3, 4, 5], ''i386/pii'', ppro_spec),
      ([6, 7, 8], ''i386/piii'', ppro_spec),
      ([9], ''i386/p6_mobile'', ppro_spec),
      ([10, 11, 12, 13, 21], ''i386/p6'', ppro_spec),
      ([14], ''i386/core'', ppro_spec),
      ([15, 22, 23, 29], ''i386/core_2'', ppro_spec),
      ([28, 38, 39, 54], ''i386/atom'', ppro_spec),
      ([26, 30, 31, 46], ''i386/nehalem'', arch_perfmon_spec),
      ([37, 44, 47], ''i386/westmere'', arch_perfmon_spec),
      ([42, 45, 58, 60, 62, 63, 69, 70, 71], ''i386/westmere'', arch_perfmon_spec)]"

text \<open>The display model of the processor, from its signature.\<close>

definition p6_model_number :: "u32 \<Rightarrow> 8 word" where
  "p6_model_number eax =
     (let cpu_model = (ucast (drop_bit 4 eax AND 0xF) :: 8 word);
          ext_cpu_model = (ucast (drop_bit 16 eax AND 0xF) :: 8 word)
      in cpu_model + push_bit 4 ext_cpu_model)"

definition nmi_ppro_init ::
  "'r x86_platform \<Rightarrow> string option \<Rightarrow> x86_state \<Rightarrow> bool \<times> string option \<times> x86_state" where
  "nmi_ppro_init B cpu_type x =
     (if force_arch_perfmon x \<and> has_arch_perfmon x then (False, cpu_type, x)
      else
        case find (\<lambda>(models, _). p6_model_number (cpuid_eax B 1) \<in> set models) p6_models of
          None \<Rightarrow> (False, cpu_type, x)
        | Some (_, name, spec) \<Rightarrow> (True, Some name, x\<lparr>nmi_model := Some spec\<rparr>))"

text \<open>The families of AMD processors.\<close>

definition amd_families :: "(8 word \<times> string) list" where
  "amd_families =
     [(6, ''i386/athlon''), (0xf, ''x86_64/athlon64''), (0x10, ''x86-64/family10''),
      (0x11, ''x86-64/family11h''), (0x12, ''x86-64/family12h''), (0x14, ''x86-64/family14h''),
      (0x15, ''x86-64/family15h'')]"

text \<open>The \<^verbatim>\<open>switch\<close> over the vendors, which ends with a CPU type or an error.\<close>

definition nmi_choose_model :: "'r x86_platform \<Rightarrow> x86_state \<Rightarrow> (errno + string) \<times> x86_state" where
  "nmi_choose_model B x =
     (case x86_vendor B of
        X86_VENDOR_AMD \<Rightarrow>
          (case map_of amd_families (x86_family B) of
             None \<Rightarrow> (Inl ENODEV, x)
           | Some name \<Rightarrow> (Inr name, x\<lparr>nmi_model := Some athlon_spec\<rparr>))
      | X86_VENDOR_INTEL \<Rightarrow>
          let (_, cpu_type, x) =
                (if x86_family B = 0xf then p4_init B None x
                 else if x86_family B = 6 then nmi_ppro_init B None x
                 else (False, None, x))
          in (case cpu_type of
                Some name \<Rightarrow> (Inr name, x)
              | None \<Rightarrow>
                  if \<not> has_arch_perfmon x then (Inl ENODEV, x)
                  else (Inr ''i386/arch_perfmon'', x\<lparr>nmi_model := Some arch_perfmon_spec\<rparr>))
      | X86_VENDOR_OTHER \<Rightarrow> (Inl ENODEV, x))"

definition detect_arch_perfmon :: "'r x86_platform \<Rightarrow> x86_state \<Rightarrow> x86_state" where
  "detect_arch_perfmon B x =
     (if 9 < cpuid_level B then
        let eax = cpuid_eax B 10
        in if eax AND 0xff \<noteq> 0 \<and> 1 < drop_bit 8 eax AND 0xff then x\<lparr>has_arch_perfmon := True\<rparr> else x
      else x)"

section \<open>Initialisation and exit\<close>

definition init_driverfs :: "x86_state \<Rightarrow> x86_state" where
  "init_driverfs x = x\<lparr>driverfs := True\<rparr>"

definition exit_driverfs :: "x86_state \<Rightarrow> x86_state" where
  "exit_driverfs x = x\<lparr>driverfs := False\<rparr>"

text \<open>
  \<^verbatim>\<open>op_nmi_init\<close>. The number of counters is that of the model after its initialisation; the
  creation of the files, which runs later, uses it too.
\<close>

definition op_nmi_init ::
  "'r x86_platform \<Rightarrow> kernel_env \<Rightarrow> ('h nmi_kstate_scheme, 'r) oprofile_operations \<Rightarrow> x86_state \<Rightarrow>
   (rc \<times> ('h nmi_kstate_scheme, 'r) oprofile_operations \<times> x86_state) option" where
  "op_nmi_init B env ops x =
     (let x = detect_arch_perfmon B x
      in if \<not> cpu_has_apic B then Some (Inl ENODEV, ops, x)
         else
           case nmi_choose_model B x of
             (Inl err, x) \<Rightarrow> Some (Inl err, ops, x)
           | (Inr cpu_type, x) \<Rightarrow>
               do { m \<leftarrow> nmi_model x;
                    let M = spec_of B m;
                    let (ret, x) = (case spec_init M of None \<Rightarrow> (rc_ok, x) | Some f \<Rightarrow> f x);
                    let ops = nmi_operations (hw_params B) M env cpu_type (num_counters M x) ops;
                    Some (if ret \<noteq> rc_ok then (ret, ops, x)
                          else (rc_ok, ops\<lparr>op_num_counters := num_counters M x\<rparr>,
                                (init_driverfs x)\<lparr>using_nmi := True\<rparr>)) })"

text \<open>The exit functions do not depend on the rest of the driver's state.\<close>

definition op_nmi_exit :: "'r x86_platform \<Rightarrow> x86_state \<Rightarrow> x86_state" where
  "op_nmi_exit B x =
     (let x = (if using_nmi x then exit_driverfs (x\<lparr>poll := disable_poll_idle (poll x)\<rparr>) else x)
      in case nmi_model x of
           None \<Rightarrow> x
         | Some m \<Rightarrow>
             (case spec_exit (spec_of B m :: (unit, 'r) op_x86_model_spec) of
                None \<Rightarrow> x | Some f \<Rightarrow> f x))"

definition oprofile_arch_init ::
  "'r x86_platform \<Rightarrow> kernel_env \<Rightarrow> ('h nmi_kstate_scheme, 'r) oprofile_operations \<Rightarrow>
   'h nmi_kstate_scheme \<Rightarrow>
   (rc \<times> ('h nmi_kstate_scheme, 'r) oprofile_operations \<times> 'h nmi_kstate_scheme) option" where
  "oprofile_arch_init B env ops k =
     do { (ret, ops, x) \<leftarrow> op_nmi_init B env ops (x86 k);
          let ops = ops\<lparr>op_backtrace := Some (x86_backtrace (stack_params B))\<rparr>;
          let x = x\<lparr>poll := init_poll_idle (found_pm_idle B) (found_uninstall B) (found_install B) (poll x)\<rparr>;
          Some (ret, ops, k\<lparr>x86 := x\<rparr>) }"

definition oprofile_arch_exit :: "'r x86_platform \<Rightarrow> x86_state \<Rightarrow> x86_state" where
  "oprofile_arch_exit B x =
     (let x = op_nmi_exit B x in x\<lparr>poll := exit_poll_idle (poll x)\<rparr>)"

text \<open>The two halves of the time stamp counter.\<close>

definition oprofile_get_tb :: "u32 \<Rightarrow> u32 \<Rightarrow> u64" where
  "oprofile_get_tb low high = push_bit 32 (ucast high) OR ucast low"

end
