(* ===== verification/Session.thy ===== *)
theory Session
  imports Lifecycle
begin

text \<open>
  What the session operations of \<^verbatim>\<open>driver/oprof.c\<close> do: no reachable state of a module that
  samples by the timer faults; stopping delivers everything the rings hold and wakes the
  daemon; the adaption keeps the announced factor in step with the timer; and the error
  exits that leave the session in a state its result does not tell.
\<close>

section \<open>The module in timer mode\<close>

text \<open>The state of the module before its initialisation: all zero.\<close>

definition fresh_driver :: "('h, 'r) driver \<Rightarrow> bool" where
  "fresh_driver d \<longleftrightarrow> \<not> is_setup d \<and> \<not> oprofile_started d \<and> no_work (kern d) \<and>
     buffer_pos (evb (kern d)) = 0 \<and> \<not> buffer_opened (evb (kern d)) \<and> sizes_ok d"

lemma backend_backtrace:
  "backend env idle ready ops \<Longrightarrow> backend env idle ready (ops\<lparr>op_backtrace := bt\<rparr>)"
  by (simp add: backend_def)

lemma backend_counters:
  "backend env idle ready ops \<Longrightarrow> backend env idle ready (ops\<lparr>op_num_counters := n\<rparr>)"
  by (simp add: backend_def)

text \<open>What the initialisation makes of a module whose architecture has a back end.\<close>

lemma init_with_arch:
  assumes "arch_init no_operations (kern d) = Some (rc_ok, ops, k)" and "op_cpu_type ops = Some name"
    and "size name < 80" and "\<not> oprofile_started d"
  shows "oprofile_init timer_init arch_init fs d = Some (fs, d\<lparr>kern := k,
    timer_ops := (snd (timer_init no_operations))\<lparr>op_backtrace := op_backtrace ops\<rparr>, arch_ops := ops,
    oprofile_num_counters := op_num_counters ops, oprofile_ops := ops,
    oprofile_backtrace_depth := 512, oprofile_cpu_type := name\<rparr>)"
  using assms by (simp add: oprofile_init_def oprofile_set_ulong_def split: prod.split)

text \<open>An architecture without support: \<^verbatim>\<open>oprofile_arch_init\<close> fails and sets nothing.\<close>

definition no_arch_init ::
  "('k, 'r) oprofile_operations \<Rightarrow> 'k \<Rightarrow> (rc \<times> ('k, 'r) oprofile_operations \<times> 'k) option" where
  "no_arch_init ops k = Some (Inl ENODEV, ops, k)"

lemma timer_mode_init:
  fixes d :: "('h timer_kstate_ext, 'r) driver"
  assumes "oprofile_init (oprofile_timer_init reg (online_cpus env) tb) no_arch_init fs d = Some (r, d0)"
    and "fresh_driver d"
  shows "life_inv env (\<lambda>h. True) (\<lambda>_ _. True) d0"
proof -
  let ?t = "timer_operations reg (online_cpus env) tb
    :: ('h timer_kstate_scheme, 'r) oprofile_operations"
  have "backend env (\<lambda>h. True) (\<lambda>h. True) ?t"
    using timer.backend_axioms [of env "\<lambda>_. True" reg "online_cpus env" tb] by simp
  from backend_backtrace [OF this, of None] have t: "good_ops env (\<lambda>h. True) (\<lambda>_ _. True) (?t\<lparr>op_backtrace := None\<rparr>)"
    by (auto simp: good_ops_def)
  have "d0 = d\<lparr>timer_ops := ?t\<lparr>op_backtrace := None\<rparr>, arch_ops := no_operations\<lparr>op_cpu_type := None\<rparr>,
      oprofile_num_counters := 0, oprofile_ops := ?t\<lparr>op_backtrace := None\<rparr>,
      oprofile_backtrace_depth := 512, oprofile_cpu_type := ''timer''\<rparr>"
    using assms
    by (auto simp: oprofile_init_def Let_def oprofile_timer_init_def no_arch_init_def no_operations_def
        oprofile_set_ulong_def fresh_driver_def split: if_splits)
  with t assms(2) show ?thesis
    by (auto simp: life_inv_def fresh_driver_def session_down_def sizes_ok_def driver_ops_ok_def
        no_operations_def)
qed



section \<open>Stopping\<close>

lemma sync_cpus:
  assumes "buffers_ok possible k" and "set cs \<subseteq> set possible" and "distinct cs"
  shows "\<exists>k'. for_each (sync_buffer online) cs k = Some k' \<and> buffers_ok possible k' \<and>
    oprofile_timer_count k' = oprofile_timer_count k \<and>
    add_event_entries (concat (map (\<lambda>c. sync_words c (contents (cpu_buffer k c))) cs)) (evb k)
      = Some (evb k') \<and>
    (\<forall>c. if c \<in> set cs then contents (cpu_buffer k' c) = [] else cpu_buffer k' c = cpu_buffer k c)"
  using assms
proof (induction cs arbitrary: k)
  case Nil
  then show ?case by simp
next
  case (Cons c cs)
  then have c: "c \<in> set possible" by simp
  then have ok: "ring_ok (cpu_buffer k c)" "eb_ok (evb k)" "ring_cap (cpu_buffer k c) < 2 ^ 32"
    using Cons.prems(1) by (auto simp: buffers_ok_def)
  then have n: "length (contents (cpu_buffer k c)) < 2 ^ 32"
    using length_contents_le [OF ok(1)] by linarith
  let ?b = "(increment_tail ^^ length (contents (cpu_buffer k c))) (cpu_buffer_reset (cpu_buffer k c))"
  obtain e where e: "add_event_entries (sync_words c (contents (cpu_buffer k c))) (evb k) = Some e"
    "sync_buffer online c k = Some (mark_done online c
       (synced c ?b e (stream_drops (contents (cpu_buffer k c)) sync_start_locals) k))"
    using sync_buffer_steps [OF ok(1,2) n, of online] by blast
  let ?k = "mark_done online c
      (synced c ?b e (stream_drops (contents (cpu_buffer k c)) sync_start_locals) k)"
  have "buffers_ok possible ?k"
    using sync_buffer_keeps [OF Cons.prems(1) c, of online] e(2) kernel_keeps_ok by auto
  from Cons.IH [OF this] Cons.prems obtain k' where k': "for_each (sync_buffer online) cs ?k = Some k'"
    "buffers_ok possible k'" "oprofile_timer_count k' = oprofile_timer_count ?k"
    "add_event_entries (concat (map (\<lambda>c. sync_words c (contents (cpu_buffer ?k c))) cs)) e = Some (evb k')"
    "\<forall>c. if c \<in> set cs then contents (cpu_buffer k' c) = [] else cpu_buffer k' c = cpu_buffer ?k c"
    by auto
  have same: "map (\<lambda>c'. sync_words c' (contents (cpu_buffer ?k c'))) cs =
      map (\<lambda>c'. sync_words c' (contents (cpu_buffer k c'))) cs"
    using Cons.prems(3) by (intro map_cong) auto
  from k'(4) [unfolded same] e(1) have "add_event_entries
      (concat (map (\<lambda>c. sync_words c (contents (cpu_buffer k c))) (c # cs))) (evb k) = Some (evb k')"
    by (simp add: for_each_append)
  moreover have drained: "contents ?b = []"
    using drained_ring(2) [of "cpu_buffer_reset (cpu_buffer k c)"] ok(1) by (simp add: ring_simps)
  have "if c' \<in> set (c # cs) then contents (cpu_buffer k' c') = []
      else cpu_buffer k' c' = cpu_buffer k c'" for c'
    using k'(5) [rule_format, of c'] drained by (auto split: if_splits)
  moreover have "for_each (sync_buffer online) (c # cs) k = Some k'" using e(2) k'(1) by simp
  moreover have "oprofile_timer_count k' = oprofile_timer_count k" using k'(3) by simp
  ultimately show ?case using k'(2) by blast
qed

text \<open>C19: stopping a running profile, whatever the back end did to the rings while it stopped,
  ends with every online CPU's ring empty and its samples appended to the event buffer CPU
  by CPU, followed by the adaption note, as far as they fit; profiling is off, and the daemon
  is woken to read what remains.\<close>

theorem oprofile_stop_delivers:
  assumes "oprofile_started d" and "call_void (op_stop (oprofile_ops d)) (kern d) = Some k1"
    and "buffers_ok (possible_cpus env) k1" and "env_ok env" and "distinct (online_cpus env)"
  shows "\<exists>d'. oprofile_stop env d = Some d' \<and> \<not> oprofile_started d' \<and>
    (\<forall>c \<in> set (online_cpus env). contents (cpu_buffer (kern d') c) = []) \<and>
    ev_words (evb (kern d')) = take (eb_cap (evb k1)) (ev_words (evb k1) @
      concat (map (\<lambda>c. sync_words c (contents (cpu_buffer k1 c))) (online_cpus env)) @
      [ESCAPE_CODE, RR_ADAPT_SAMPLING_INTERVAL_CODE, oprofile_adapt_value d]) \<and>
    buffer_ready (evb (kern d')) \<and> buffer_dump (evb (kern d'))"
proof -
  let ?ws = "concat (map (\<lambda>c. sync_words c (contents (cpu_buffer k1 c))) (online_cpus env))"
  let ?vs = "[ESCAPE_CODE, RR_ADAPT_SAMPLING_INTERVAL_CODE, oprofile_adapt_value d]"
  have "set (online_cpus env) \<subseteq> set (possible_cpus env)" using assms(4) by (simp add: env_ok_def)
  from sync_cpus [OF assms(3) this assms(5), of "online_cpus env"] obtain k2 where k2:
    "for_each (sync_buffer (online_cpus env)) (online_cpus env) k1 = Some k2"
    "add_event_entries ?ws (evb k1) = Some (evb k2)"
    "\<forall>c \<in> set (online_cpus env). contents (cpu_buffer k2 c) = []" by metis
  have ok: "eb_ok (evb k1)" using assms(3) by (simp add: buffers_ok_def)
  from evlog.add_all [OF this, of "?ws @ ?vs"] obtain e where e:
    "add_event_entries (?ws @ ?vs) (evb k1) = Some e"
    "ev_words e = take (eb_cap (evb k1)) (ev_words (evb k1) @ ?ws @ ?vs)" by blast
  from e(1) k2(2) have v: "add_event_entries ?vs (evb k2) = Some e"
    by (simp add: for_each_append del: for_each.simps)
  with e(2) k2 assms(1,2) show ?thesis
    by (auto simp: oprofile_stop_def sync_all_def note_adapt_value_batch ev_simps
        simp del: for_each.simps)
qed

section \<open>Adapting\<close>

text \<open>The adaption of a running timer profile, as one equation.\<close>

lemma sync_all_frame:
  assumes "sync_all env d = Some d'"
  shows "\<exists>k. d' = d\<lparr>kern := k\<rparr>"
  using assms by (auto simp: sync_all_def)

text \<open>Adapting a running timer profile below the limit makes the sampling interval and the
  announced factor ten times as large, delivers everything the rings hold and then the new
  factor to the event buffer, and leaves the profile running with the timers armed again.\<close>

theorem timer_adapt_session:
  fixes d :: "('h timer_kstate_ext, 'r) driver"
  assumes "oprofile_started d" and "oprofile_ops d = timer_operations reg (online_cpus env) tb"
    and "buffers_ok (possible_cpus env) (kern d)" and "env_ok env" and "distinct (online_cpus env)"
    and "oprofile_timer_count (kern d) < MAX_COUNTER_VALUE"
  shows "\<exists>d'. oprofile_adapt env d = Some (rc_ok, d') \<and> oprofile_started d' \<and>
    unat (oprofile_timer_count (kern d')) = 10 * unat (oprofile_timer_count (kern d)) \<and>
    oprofile_adapt_value d' = 10 * oprofile_adapt_value d \<and>
    ev_words (evb (kern d')) = take (eb_cap (evb (kern d))) (ev_words (evb (kern d)) @
      concat (map (\<lambda>c. sync_words c (contents (cpu_buffer (kern d) c))) (online_cpus env)) @
      [ESCAPE_CODE, RR_ADAPT_SAMPLING_INTERVAL_CODE, 10 * oprofile_adapt_value d]) \<and>
    (\<forall>c \<in> set (online_cpus env). hrtimer_active (kern d') c \<and> timer_pop (kern d') c = 0)"
proof -
  let ?v = "oprofile_adapt_value d * ADAPT_DECAY_FACTOR"
  let ?vs = "[ESCAPE_CODE, RR_ADAPT_SAMPLING_INTERVAL_CODE, ?v]"
  let ?k1 = "(fold oprofile_hrtimer_stop_cpu (online_cpus env) (kern d))\<lparr>ctr_running := False\<rparr>"
  let ?ws = "concat (map (\<lambda>c. sync_words c (contents (cpu_buffer (kern d) c))) (online_cpus env))"
  have same: "same_kernel (kern d) ?k1" by (rule timer_stop_same)
  then have k1: "buffers_ok (possible_cpus env) ?k1" "evb ?k1 = evb (kern d)"
    "cpu_buffer ?k1 = cpu_buffer (kern d)"
    using assms(3) by (auto simp: same_kernel_def buffers_ok_def)
  have tc1: "oprofile_timer_count ?k1 = oprofile_timer_count (kern d)"
    by (simp add: timer_stop_count)
  have "set (online_cpus env) \<subseteq> set (possible_cpus env)" using assms(4) by (simp add: env_ok_def)
  from sync_cpus [OF k1(1) this assms(5), of "online_cpus env"] obtain k2 where k2:
    "for_each (sync_buffer (online_cpus env)) (online_cpus env) ?k1 = Some k2"
    "add_event_entries ?ws (evb (kern d)) = Some (evb k2)"
    "oprofile_timer_count k2 = oprofile_timer_count ?k1" unfolding k1(2,3) by blast
  have tc2: "oprofile_timer_count k2 = oprofile_timer_count (kern d)"
    using k2(3) tc1 by simp
  let ?k3 = "k2\<lparr>oprofile_timer_count := oprofile_timer_count k2 * ADAPT_DECAY_FACTOR\<rparr>"
  have "eb_ok (evb (kern d))" using assms(3) by (simp add: buffers_ok_def)
  from evlog.add_all [OF this, of "?ws @ ?vs"] obtain e where e:
    "add_event_entries (?ws @ ?vs) (evb (kern d)) = Some e"
    "ev_words e = take (eb_cap (evb (kern d))) (ev_words (evb (kern d)) @ ?ws @ ?vs)" by blast
  from e(1) k2(2) have v: "add_event_entries ?vs (evb k2) = Some e"
    by (simp add: for_each_append del: for_each.simps)
  let ?k4 = "?k3\<lparr>evb := e\<rparr>"
  let ?k5 = "fold (oprofile_hrtimer_start_cpu tb) (online_cpus env) (?k4\<lparr>ctr_running := True\<rparr>)"
  have s5: "evb ?k5 = e" using timer_start_same [of ?k4] by (simp add: same_kernel_def)
  have run: "oprofile_adapt env d = Some (rc_ok, d\<lparr>kern := ?k5, oprofile_adapt_value := ?v\<rparr>)"
    using assms(1,2,6) k2(1) v tc2
    by (simp add: oprofile_adapt_def timer_op_defs sync_all_def timer_adapt_def not_le
        note_adapt_value_batch Let_def del: for_each.simps)
  have "unat (oprofile_timer_count ?k5) = 10 * unat (oprofile_timer_count (kern d))"
    using timer_adapt_bounded_step [OF assms(6)] tc2 by (simp add: timer_start_count)
  moreover have "hrtimer_active ?k5 c \<and> timer_pop ?k5 c = 0" if "c \<in> set (online_cpus env)" for c
    using timer_start_armed [of "?k4\<lparr>ctr_running := True\<rparr>" tb "online_cpus env"] that by simp
  ultimately show ?thesis
    using run e(2) s5 assms(1) by (simp add: ADAPT_DECAY_FACTOR_def mult.commute)
qed

section \<open>Starting\<close>

text \<open>Starting a set-up timer profile clears the statistics, announces the factor 1 to the
  daemon, and arms the timers; the sampling interval itself stays what earlier adaptions of
  the session have made it.\<close>

theorem timer_start_session:
  fixes d :: "('h timer_kstate_ext, 'r) driver"
  assumes "is_setup d" and "\<not> oprofile_started d"
    and "oprofile_ops d = timer_operations reg (online_cpus env) tb"
    and "buffers_ok (possible_cpus env) (kern d)"
  shows "\<exists>d'. oprofile_start env d = Some (rc_ok, d') \<and> oprofile_started d' \<and>
    oprofile_adapt_value d' = 1 \<and> oprofile_timer_count (kern d') = oprofile_timer_count (kern d) \<and>
    ev_words (evb (kern d')) = take (eb_cap (evb (kern d))) (ev_words (evb (kern d)) @
      [ESCAPE_CODE, RR_ADAPT_SAMPLING_INTERVAL_CODE, 1]) \<and>
    (\<forall>c. sample_received (cpu_buffer (kern d') c) =
       (if c \<in> set (possible_cpus env) then 0 else sample_received (cpu_buffer (kern d) c))) \<and>
    \<not> buffer_dump (evb (kern d'))"
proof -
  let ?vs = "[ESCAPE_CODE, RR_ADAPT_SAMPLING_INTERVAL_CODE, 1]"
  let ?k1 = "oprofile_reset_stats (possible_cpus env) (kern d)"
  have "eb_ok (evb ?k1)" using assms(4) by (simp add: buffers_ok_def reset_stats_state ev_simps)
  from evlog.add_all [OF this, of ?vs] obtain e where e: "add_event_entries ?vs (evb ?k1) = Some e"
    "ev_words e = take (eb_cap (evb (kern d))) (ev_words (evb (kern d)) @ ?vs)"
    by (auto simp: reset_stats_state ev_simps simp del: for_each.simps)
  let ?k2 = "?k1\<lparr>evb := e\<rparr>"
  let ?k3 = "fold (oprofile_hrtimer_start_cpu tb) (online_cpus env) (?k2\<lparr>ctr_running := True\<rparr>)"
  have s: "evb ?k3 = e" "cpu_buffer ?k3 = cpu_buffer ?k1"
    using timer_start_same [of ?k2] by (simp_all add: same_kernel_def)
  have "oprofile_start env d = Some (rc_ok, d\<lparr>oprofile_adapt_value := 1, oprofile_started := True,
      kern := ?k3\<lparr>evb := e\<lparr>buffer_dump := False\<rparr>\<rparr>\<rparr>)"
    using assms(1-3) e(1) s
    by (simp add: oprofile_start_def timer_op_defs note_adapt_value_batch Let_def del: for_each.simps)
  then show ?thesis
    using e(2) s by (simp add: timer_start_count reset_stats_state ev_simps)
qed

section \<open>Error exits\<close>

text \<open>A back end whose \<^verbatim>\<open>sync_start\<close> fails makes \<^verbatim>\<open>oprofile_setup\<close> free the buffers and
  shut the back end down, but the result is 0: the buffer file opens as if a session had been
  set up.\<close>

theorem setup_hides_sync_start_failure:
  assumes "op_setup (oprofile_ops d) = None" and "op_shutdown (oprofile_ops d) = None"
    and "op_sync_start (oprofile_ops d) = Some (\<lambda>k. Some (-1, k))" and "\<not> is_setup d"
    and "alloc_cpu_buffers (vmalloc_node env) (possible_cpus env) (oprofile_cpu_buffer_size d)
      (cpu_buffer (kern d)) = (rc_ok, bufs)"
    and "alloc_event_buffer (vmalloc env) (oprofile_buffer_size d) (oprofile_buffer_watershed d)
      (evb (kern d)) = (rc_ok, e)"
  shows "\<exists>d'. oprofile_setup env d = Some (rc_ok, d') \<and> \<not> is_setup d' \<and>
    event_buffer (evb (kern d')) = None \<and>
    (\<forall>i \<in> set (possible_cpus env). buffer (cpu_buffer (kern d') i) = None)"
  using assms
  by (auto simp: oprofile_setup_def Let_def setup_sync_def setup_out3_def setup_out2_def
      setup_out1_def setup_out_def call_optional_def free_event_buffer_def free_cpu_buffers_None)

text \<open>Asking for an adaption that the back end does not offer stops the back end and fails
  with \<^verbatim>\<open>-EINVAL\<close>, but the profile stays marked as started: it takes no more samples, and a
  further start is taken to be unnecessary.\<close>

theorem adapt_unsupported_stops_profile:
  assumes "oprofile_started d" and "is_setup d" and "op_adapt (oprofile_ops d) = None"
    and "call_void (op_stop (oprofile_ops d)) (kern d) = Some k1"
    and "buffers_ok (possible_cpus env) k1" and "env_ok env"
  shows "\<exists>k2. oprofile_adapt env d = Some (Inl EINVAL, d\<lparr>kern := k2\<rparr>) \<and>
    kstate.more k2 = kstate.more k1 \<and>
    oprofile_start env (d\<lparr>kern := k2\<rparr>) = Some (rc_ok, d\<lparr>kern := k2\<rparr>)"
  using sync_all_keeps [of env "d\<lparr>kern := k1\<rparr>"] assms
  by (auto simp: oprofile_adapt_def oprofile_start_def env_ok_def)

end
