(* ===== verification/X86_Lifecycle.thy ===== *)
theory X86_Lifecycle
  imports X86_Init Session
begin

text \<open>
  The whole driver on an x86 processor: what \<^verbatim>\<open>oprofile_init\<close> makes of the module, and the state
  machine of theory Lifecycle with the interrupts of the counters, suspending and resuming, the
  counting of the hardware and the back end's control files added. No reachable state faults,
  and a session gives the processor's registers back, whichever model was chosen.
\<close>

section \<open>Initialisation\<close>

text \<open>The static variables as the compiler initialises them, before the module is loaded.\<close>

definition x86_static :: "x86_state \<Rightarrow> bool" where
  "x86_static x \<longleftrightarrow> \<not> using_nmi x \<and> \<not> driverfs x \<and> \<not> nmi_handler x \<and> \<not> nmi_enabled x \<and>
     length (counter_config x) = OP_MAX_COUNTER \<and> ppro_num_counters x = 2 \<and>
     ppro_reset_value x = None \<and> length (athlon_reset_value x) = 4 \<and>
     p4_num_counters x = 8 \<and> length (p4_reset_value x) = 8"

definition x86_fresh :: "x86_state \<Rightarrow> bool" where
  "x86_fresh x \<longleftrightarrow> x86_static x \<and> nmi_model x = None \<and> \<not> has_arch_perfmon x"

text \<open>The kernel and the processor: documented register addresses, one thread per Pentium 4, and
  an allocator that returns what it is asked for.\<close>

definition platform_ok :: "'r x86_platform \<Rightarrow> kernel_env \<Rightarrow> bool" where
  "platform_ok B env \<longleftrightarrow> sys_ok env (hw_params B) \<and> p6_ok (p6_params B) \<and> k7_ok (k7_params B) \<and>
     p4_plain (p4_params B) \<and> (\<forall>n vs. kmalloc_reset B n = Some vs \<longrightarrow> length vs = n)"

text \<open>Between sessions, and in a session with the NMI back end.\<close>

definition x86_idle :: "'r x86_platform \<Rightarrow> kernel_env \<Rightarrow> model_spec \<Rightarrow> x86_state \<Rightarrow> bool" where
  "x86_idle B env m x \<longleftrightarrow> model_wf B env m x \<and> \<not> nmi_handler x \<and> \<not> nmi_enabled x"

definition x86_armed :: "'r x86_platform \<Rightarrow> kernel_env \<Rightarrow> model_spec \<Rightarrow> x86_state \<Rightarrow> bool" where
  "x86_armed B env m x \<longleftrightarrow> model_wf B env m x \<and> (\<forall>c \<in> set (online_cpus env). model_ready B m c x)"

lemma model_quiet: "x86_model.quiet (model_wf B env m) = x86_idle B env m"
  by (rule ext) (simp add: model.quiet_def x86_idle_def)

lemma model_armed: "x86_model.armed (model_wf B env m) (model_ready B m) (online_cpus env) = x86_armed B env m"
  by (rule ext) (simp add: model.armed_def x86_armed_def)

lemma model_wf_flags [simp]:
  assumes "model_wf B env m x"
  shows "model_wf B env m (x\<lparr>driverfs := v\<rparr>)" "model_wf B env m (x\<lparr>using_nmi := v\<rparr>)"
    "model_wf B env m (x\<lparr>poll := p\<rparr>)" "model_wf B env m (x\<lparr>msr := ms\<rparr>)"
  by (rule model.mwf_same [OF assms], simp add: same_vars_def)+

lemma model_sizes: "model_wf B env m x \<Longrightarrow> num_counters (spec_of B m) x = of_nat (model_ctrs m)"
  using arg_cong [OF conjunct1 [OF model.sizes [of B env m x]], of "of_nat :: nat \<Rightarrow> u32"] by simp

text \<open>Which models the tables can lead to.\<close>

lemma p6_models_names:
  "(ns, name, s) \<in> set p6_models \<Longrightarrow> name \<noteq> ''timer'' \<and> size name < 80 \<and> (s = ppro_spec \<or> s = arch_perfmon_spec)"
  by (auto simp: p6_models_def)

lemma amd_families_names: "map_of amd_families f = Some name \<Longrightarrow> name \<noteq> ''timer'' \<and> size name < 80"
  by (drule map_of_SomeD) (auto simp: amd_families_def)

text \<open>The choice changes only the pointer, and never picks the model for two threads here.\<close>

lemma choose_model:
  assumes "nmi_choose_model B x = (r, x')" and "smp_num_siblings (p4_params B) \<noteq> 2"
    and "nmi_model x = None"
  shows "case r of
      Inl e \<Rightarrow> e = ENODEV \<and> x' = x
    | Inr name \<Rightarrow> name \<noteq> ''timer'' \<and> size name < 80 \<and>
        (\<exists>m. x' = x\<lparr>nmi_model := Some m\<rparr> \<and> m \<noteq> p4_ht2_spec)"
proof (cases "x86_vendor B")
  case X86_VENDOR_AMD
  with assms(1) show ?thesis
    by (auto simp: nmi_choose_model_def split: option.splits dest: amd_families_names)
next
  case X86_VENDOR_OTHER
  with assms(1) show ?thesis by (auto simp: nmi_choose_model_def)
next
  case X86_VENDOR_INTEL
  show ?thesis
  proof (cases "x86_family B = 6")
    case True
    show ?thesis
    proof (cases "find (\<lambda>(models, _). p6_model_number (cpuid_eax B 1) \<in> set models) p6_models")
      case None
      with True X86_VENDOR_INTEL assms(1) show ?thesis
        by (auto simp: nmi_choose_model_def nmi_ppro_init_def split: if_splits)
    next
      case (Some row)
      obtain ns name s where row: "row = (ns, name, s)" by (cases row)
      have "row \<in> set p6_models" using Some nth_mem by (fastforce simp: find_Some_iff)
      with row have "name \<noteq> ''timer'' \<and> size name < 80 \<and> (s = ppro_spec \<or> s = arch_perfmon_spec)"
        using p6_models_names by blast
      with Some row True X86_VENDOR_INTEL assms(1) show ?thesis
        by (auto simp: nmi_choose_model_def nmi_ppro_init_def split: if_splits)
    qed
  next
    case False
    with X86_VENDOR_INTEL assms(1,2) show ?thesis
      by (auto simp: nmi_choose_model_def p4_init_def Let_def split: if_splits)
  qed
qed

lemma x86_static_flags [simp]:
  "x86_static (x\<lparr>nmi_model := m\<rparr>) = x86_static x" "x86_static (x\<lparr>has_arch_perfmon := h\<rparr>) = x86_static x"
  by (simp_all add: x86_static_def)

lemma init_model:
  fixes B :: "'r x86_platform"
  assumes "platform_ok B env" and "m \<noteq> p4_ht2_spec" and "x86_static x"
    and "(case spec_init (spec_of B m :: ('h, 'r) op_x86_model_spec) of None \<Rightarrow> (rc_ok, x) | Some f \<Rightarrow> f x) =
      (ret, x')"
  shows "(ret = rc_ok \<longrightarrow> model_wf B env m x') \<and> \<not> nmi_handler x' \<and> \<not> nmi_enabled x' \<and>
    \<not> using_nmi x' \<and> \<not> driverfs x' \<and> nmi_model x' = nmi_model x"
proof -
  have init: "(ret = rc_ok \<longrightarrow> ppro_wf (p6_params B) env (hw_params B) z') \<and> \<not> nmi_handler z' \<and>
      \<not> nmi_enabled z' \<and> \<not> using_nmi z' \<and> \<not> driverfs z' \<and> nmi_model z' = nmi_model z \<and>
      arch_num_counters z' = arch_num_counters z \<and> arch_num_controls z' = arch_num_controls z"
    if "ppro_init (kmalloc_reset B) z = (ret, z')" "x86_static z" for z z'
    using that assms(1)
    by (cases "kmalloc_reset B 2")
      (auto simp: ppro_init_def Let_def x86_static_def platform_ok_def ppro_wf_def)
  show ?thesis
  proof (cases m)
    case ppro_spec
    with assms(4) init [of x x'] assms(3) show ?thesis by (simp add: op_ppro_spec_def)
  next
    case arch_perfmon_spec
    let ?z = "arch_perfmon_setup_counters (cpuid_eax B 0xA) (unat (x86_family B))
      (boot_model (p4_params B)) x"
    have z: "x86_static ?z" "nmi_model ?z = nmi_model x" "arch_num_counters ?z = 2" "arch_num_controls ?z = 2"
      using assms(3) by (simp_all add: arch_perfmon_setup_counters_def Let_def x86_static_def)
    have "ppro_init (kmalloc_reset B) ?z = (ret, x')"
      using assms(4) arch_perfmon_spec by (simp add: op_arch_perfmon_spec_def arch_perfmon_init_def)
    from init [OF this z(1)] arch_perfmon_spec z(2-4) show ?thesis by (simp add: arch_wf_def)
  next
    case p4_spec
    with assms(1,3,4) show ?thesis
      by (auto simp: op_p4_spec_def platform_ok_def x86_static_def p4_wf_def)
  next
    case athlon_spec
    with assms(1,3,4) show ?thesis
      by (auto simp: op_athlon_spec_def platform_ok_def x86_static_def athlon_wf_def)
  qed (use assms(2) in simp)
qed

text \<open>The operations that the driver uses when the back end is available.\<close>

definition x86_operations ::
  "'r x86_platform \<Rightarrow> kernel_env \<Rightarrow> model_spec \<Rightarrow> string \<Rightarrow> ('h nmi_kstate_scheme, 'r) oprofile_operations"
where
  "x86_operations B env m cpu_type =
     (nmi_operations (hw_params B) (spec_of B m) env cpu_type (of_nat (model_ctrs m)) no_operations)
       \<lparr>op_num_counters := of_nat (model_ctrs m), op_backtrace := Some (x86_backtrace (stack_params B))\<rparr>"

lemma arch_init_step:
  "op_nmi_init B env ops (x86 k) = Some (r, ops', x) \<Longrightarrow>
   oprofile_arch_init B env ops k =
     Some (r, ops'\<lparr>op_backtrace := Some (x86_backtrace (stack_params B))\<rparr>, k\<lparr>x86 := x\<lparr>poll :=
       init_poll_idle (found_pm_idle B) (found_uninstall B) (found_install B) (poll x)\<rparr>\<rparr>)"
  by (simp add: oprofile_arch_init_def Let_def)

lemma arch_init_result:
  fixes B :: "'r x86_platform" and k :: "'h nmi_kstate_scheme"
  assumes "platform_ok B env" and "x86_fresh (x86 k)"
  shows "\<exists>r ops x. oprofile_arch_init B env no_operations k = Some (r, ops, k\<lparr>x86 := x\<rparr>) \<and>
    op_backtrace ops = Some (x86_backtrace (stack_params B)) \<and> \<not> nmi_handler x \<and> \<not> nmi_enabled x \<and>
    using_nmi x = (r = rc_ok) \<and> driverfs x = (r = rc_ok) \<and>
    (r = rc_ok \<longrightarrow> (\<exists>m name. ops = x86_operations B env m name \<and> name \<noteq> ''timer'' \<and> size name < 80 \<and>
       nmi_model x = Some m \<and> x86_idle B env m x))"
proof -
  let ?x = "detect_arch_perfmon B (x86 k)"
  have x: "x86_static ?x" "nmi_model ?x = None"
    using assms(2) by (auto simp: detect_arch_perfmon_def x86_fresh_def Let_def)
  then have flags: "\<not> nmi_handler ?x" "\<not> nmi_enabled ?x" "\<not> using_nmi ?x" "\<not> driverfs ?x"
    by (simp_all add: x86_static_def)
  obtain r y where ch: "nmi_choose_model B ?x = (r, y)" by fastforce
  have ht: "smp_num_siblings (p4_params B) \<noteq> 2" using assms(1) by (simp add: platform_ok_def p4_plain_def)
  from choose_model [OF ch ht x(2)] have chosen: "case r of Inl e \<Rightarrow> e = ENODEV \<and> y = ?x
    | Inr name \<Rightarrow> name \<noteq> ''timer'' \<and> size name < 80 \<and> (\<exists>m. y = ?x\<lparr>nmi_model := Some m\<rparr> \<and> m \<noteq> p4_ht2_spec)" .
  show ?thesis
  proof (cases "cpu_has_apic B \<and> (\<exists>name. r = Inr name)")
    case False
    then show ?thesis
      using ch chosen flags
      by (cases r) (auto simp: oprofile_arch_init_def op_nmi_init_def Let_def)
  next
    case True
    then obtain name m where m: "r = Inr name" "name \<noteq> ''timer''" "size name < 80"
      "y = ?x\<lparr>nmi_model := Some m\<rparr>" "m \<noteq> p4_ht2_spec" using chosen by auto
    have y: "x86_static y" "nmi_model y = Some m" using m(4) x(1) by simp_all
    obtain ret z where z: "(case spec_init (spec_of B m :: ('h, 'r) op_x86_model_spec) of
        None \<Rightarrow> (rc_ok, y) | Some f \<Rightarrow> f y) = (ret, z)" by fastforce
    from init_model [OF assms(1) m(5) y(1) z] y(2)
    have zz: "ret = rc_ok \<longrightarrow> model_wf B env m z" "\<not> nmi_handler z" "\<not> nmi_enabled z" "\<not> using_nmi z"
      "\<not> driverfs z" "nmi_model z = Some m" by simp_all
    have run: "op_nmi_init B env no_operations (x86 k) =
        Some (let M = (spec_of B m :: ('h, 'r) op_x86_model_spec);
                  ops = nmi_operations (hw_params B) M env name (num_counters M z) no_operations
              in if ret \<noteq> rc_ok then (ret, ops, z)
                 else (rc_ok, ops\<lparr>op_num_counters := num_counters M z\<rparr>,
                       (init_driverfs z)\<lparr>using_nmi := True\<rparr>))"
      using True ch m(1) y(2) z by (simp add: op_nmi_init_def Let_def)
    show ?thesis
    proof (cases "ret = rc_ok")
      case False
      then have "op_nmi_init B env no_operations (x86 k) = Some (ret,
          nmi_operations (hw_params B) (spec_of B m :: ('h, 'r) op_x86_model_spec) env name
            (num_counters (spec_of B m :: ('h, 'r) op_x86_model_spec) z) no_operations, z)"
        unfolding run Let_def using False by (simp only: if_True not_False_eq_True)
      note arch_init_step [OF this]
      with False zz show ?thesis by (intro exI conjI) (assumption | simp)+
    next
      case ok: True
      then have wf: "model_wf B env m z" using zz(1) by simp
      let ?poll = "\<lambda>x. x\<lparr>poll := init_poll_idle (found_pm_idle B) (found_uninstall B) (found_install B) (poll x)\<rparr>"
      let ?z = "?poll ((init_driverfs z)\<lparr>using_nmi := True\<rparr>)"
      have "op_nmi_init B env no_operations (x86 k) =
          Some (rc_ok, (nmi_operations (hw_params B) (spec_of B m :: ('h, 'r) op_x86_model_spec) env name
              (of_nat (model_ctrs m)) no_operations)
            \<lparr>op_num_counters := of_nat (model_ctrs m)\<rparr>, (init_driverfs z)\<lparr>using_nmi := True\<rparr>)"
        unfolding run Let_def using ok by (simp add: model_sizes [OF wf])
      from arch_init_step [OF this] have "oprofile_arch_init B env no_operations k =
          Some (rc_ok, x86_operations B env m name, k\<lparr>x86 := ?z\<rparr>)"
        by (simp add: x86_operations_def)
      moreover have "x86_idle B env m ?z" "using_nmi ?z" "driverfs ?z" "nmi_model ?z = Some m"
        using wf zz by (simp_all add: x86_idle_def init_driverfs_def)
      moreover have "op_backtrace (x86_operations B env m name) = Some (x86_backtrace (stack_params B))"
        by (simp add: x86_operations_def)
      ultimately show ?thesis
        using m(2,3) unfolding x86_idle_def by blast
    qed
  qed
qed

section \<open>The module\<close>

type_synonym ('h, 'r) x86_driver = "(('h nmi_kstate_ext) timer_kstate_ext, 'r) driver"

text \<open>What the operations in use need during a session.\<close>

definition x86_ready ::
  "'r x86_platform \<Rightarrow> kernel_env \<Rightarrow> model_spec \<Rightarrow> (('h nmi_kstate_ext) timer_kstate_ext, 'r) ops_ready" where
  "x86_ready B env m ops h =
     (if op_cpu_type ops = Some ''timer'' then x86_idle B env m (x86_of h)
      else x86_armed B env m (x86_of h))"

lemma x86_ready_eta:
  "op_cpu_type ops = Some ''timer'' \<Longrightarrow> x86_ready B env m ops = (\<lambda>h. x86_idle B env m (x86_of h))"
  "op_cpu_type ops \<noteq> Some ''timer'' \<Longrightarrow> x86_ready B env m ops = (\<lambda>h. x86_armed B env m (x86_of h))"
  by (simp_all add: x86_ready_def fun_eq_iff)

abbreviation x86_inv ::
  "'r x86_platform \<Rightarrow> kernel_env \<Rightarrow> model_spec \<Rightarrow> ('h, 'r) x86_driver \<Rightarrow> bool" where
  "x86_inv B env m \<equiv> life_inv env (\<lambda>h. x86_idle B env m (x86_of h)) (x86_ready B env m)"

lemma x86_timer_ext: "x86 k = x86 (timer_kstate.extend undefined (timer_kstate.more k))"
  by (cases k) (simp add: timer_kstate.defs)

lemma x86_of_rest: "x86_of h = x86 (timer_kstate.extend undefined (timer_rest h))"
  unfolding x86_of_def timer_rest_def by (rule x86_timer_ext)

lemma x86_good_timer:
  "good_ops env (\<lambda>h. x86_idle B env m (x86_of h)) (x86_ready B env m)
     ((timer_operations reg (online_cpus env) tb)\<lparr>op_backtrace := bt\<rparr>)"
proof -
  have "backend env (\<lambda>h. x86_idle B env m (x86_of h)) (\<lambda>h. x86_idle B env m (x86_of h))
      (timer_operations reg (online_cpus env) tb)"
    using timer.backend_axioms [of env "\<lambda>e. x86_idle B env m (x86 (timer_kstate.extend undefined e))"]
    by (simp add: x86_of_rest)
  from backend_backtrace [OF this] show ?thesis
    by (simp add: good_ops_def x86_ready_eta oprofile_timer_init_def)
qed

lemma x86_good_ops:
  assumes "name \<noteq> ''timer''"
  shows "good_ops env (\<lambda>h. x86_idle B env m (x86_of h)) (x86_ready B env m) (x86_operations B env m name)"
  using backend_backtrace [OF backend_counters [OF model.session.backend_axioms [of env B m name]]] assms
  by (simp add: good_ops_def x86_ready_eta x86_operations_def nmi_operations_def model_quiet model_armed)

lemma x86_module_init:
  fixes d :: "('h, 'r) x86_driver"
  assumes "oprofile_init (oprofile_timer_init reg (online_cpus env) tb) (oprofile_arch_init B env) fs d =
      Some (r, d0)"
    and "fresh_driver d" and "platform_ok B env" and "x86_fresh (x86 (kern d))"
    and "op_cpu_type (arch_ops d0) \<noteq> None"
  shows "\<exists>m. nmi_model (x86 (kern d0)) = Some m \<and> x86_inv B env m d0"
proof -
  obtain e ops x where a: "oprofile_arch_init B env no_operations (kern d) = Some (e, ops, (kern d)\<lparr>x86 := x\<rparr>)"
    "op_backtrace ops = Some (x86_backtrace (stack_params B))"
    "e = rc_ok \<longrightarrow> (\<exists>m name. ops = x86_operations B env m name \<and> name \<noteq> ''timer'' \<and> size name < 80 \<and>
       nmi_model x = Some m \<and> x86_idle B env m x)"
    using arch_init_result [OF assms(3,4)] by blast
  have "e = rc_ok"
    using assms(1,2,5) a(1)
    by (auto simp: oprofile_init_def Let_def oprofile_timer_init_def oprofile_set_ulong_def
        fresh_driver_def split: if_splits option.splits)
  with a obtain m name where m: "ops = x86_operations B env m name" "name \<noteq> ''timer''"
    "nmi_model x = Some m" "x86_idle B env m x" "size name < 80" by blast
  have "\<not> oprofile_started d" using assms(2) by (simp add: fresh_driver_def)
  moreover have "op_cpu_type ops = Some name" using m(1) by (simp add: x86_operations_def nmi_operations_def)
  ultimately have init: "oprofile_init ti (oprofile_arch_init B env) fs d = Some (fs, d\<lparr>kern := (kern d)\<lparr>x86 := x\<rparr>,
      timer_ops := (snd (ti no_operations))\<lparr>op_backtrace := op_backtrace ops\<rparr>, arch_ops := ops,
      oprofile_num_counters := op_num_counters ops, oprofile_ops := ops,
      oprofile_backtrace_depth := 512, oprofile_cpu_type := name\<rparr>)" for ti
    using a(1) m(5) \<open>e = rc_ok\<close> by (intro init_with_arch) simp_all
  from assms(1) [unfolded init] a(2) have d0: "timer_ops d0 = (timer_operations reg (online_cpus env) tb)
      \<lparr>op_backtrace := Some (x86_backtrace (stack_params B))\<rparr>"
    "arch_ops d0 = ops" "oprofile_ops d0 = ops" "kern d0 = (kern d)\<lparr>x86 := x\<rparr>"
    "is_setup d0 = is_setup d" "oprofile_started d0 = oprofile_started d"
    "oprofile_buffer_size d0 = oprofile_buffer_size d"
    "oprofile_cpu_buffer_size d0 = oprofile_cpu_buffer_size d"
    by auto
  have "driver_ops_ok env (\<lambda>h. x86_idle B env m (x86_of h)) (x86_ready B env m) d0"
    unfolding driver_ops_ok_def d0 m(1) using x86_good_ops [OF m(2)] x86_good_timer by blast
  moreover have "sizes_ok d0" using assms(2) d0 by (simp add: fresh_driver_def sizes_ok_def)
  ultimately show ?thesis
    using assms(2) d0 m by (auto simp: life_inv_def session_down_def fresh_driver_def no_work_def)
qed

section \<open>The state machine\<close>

text \<open>
  The steps of the driver (theory Lifecycle), the counter interrupt on an online CPU while the
  handler is registered, suspending and resuming at any time, any change of the processor's
  registers by the hardware, a write to \<^verbatim>\<open>idle_poll\<close>, and a change of the counter configuration
  through its files, which is refused while a profile runs.
\<close>

inductive x86_step ::
  "'r x86_platform \<Rightarrow> kernel_env \<Rightarrow> model_spec \<Rightarrow> ('h, 'r) x86_driver \<Rightarrow> ('h, 'r) x86_driver \<Rightarrow> bool"
  for B env m where
  driver: "driver_step env d d' \<Longrightarrow> x86_step B env m d d'"
| nmi: "nmi_handler (x86 (kern d)) \<Longrightarrow> c \<in> set (online_cpus env) \<Longrightarrow> sampler_ok sp \<Longrightarrow>
    profile_exceptions_notify (spec_of B m) sp c t (kern d) = Some (r, k) \<Longrightarrow>
    x86_step B env m d (d\<lparr>kern := k\<rparr>)"
| suspend: "nmi_suspend (hw_params B) (spec_of B m) env (kern d) = Some k \<Longrightarrow>
    x86_step B env m d (d\<lparr>kern := k\<rparr>)"
| resume: "nmi_resume (hw_params B) (spec_of B m) env (kern d) = Some k \<Longrightarrow>
    x86_step B env m d (d\<lparr>kern := k\<rparr>)"
| counting: "x86_step B env m d (on_kern (\<lambda>k. k\<lparr>x86 := (x86 k)\<lparr>msr := ms\<rparr>\<rparr>) d)"
| idle_poll: "idle_poll_write strtoul stack w (x86 (kern d)) = (r, x) \<Longrightarrow>
    x86_step B env m d (on_kern (\<lambda>k. k\<lparr>x86 := x\<rparr>) d)"
| configure: "\<not> oprofile_started d \<Longrightarrow> length cfg = length (counter_config (x86 (kern d))) \<Longrightarrow>
    x86_step B env m d (on_kern (\<lambda>k. k\<lparr>x86 := (x86 k)\<lparr>counter_config := cfg\<rparr>\<rparr>) d)"

inductive x86_reach ::
  "'r x86_platform \<Rightarrow> kernel_env \<Rightarrow> model_spec \<Rightarrow> ('h, 'r) x86_driver \<Rightarrow> ('h, 'r) x86_driver \<Rightarrow> bool"
  for B env m d0 where
  initial: "x86_reach B env m d0 d0"
| further: "x86_reach B env m d0 d \<Longrightarrow> x86_step B env m d d' \<Longrightarrow> x86_reach B env m d0 d'"

text \<open>A state is between sessions of the back end, or in a session with it.\<close>

lemma x86_inv_cases:
  assumes "x86_inv B env m d"
  obtains (quiet) "x86_idle B env m (x86 (kern d))"
  | (armed) "buffer_opened (evb (kern d))" "buffers_ok (possible_cpus env) (kern d)"
      "x86_armed B env m (x86 (kern d))" "op_cpu_type (oprofile_ops d) \<noteq> Some ''timer''"
  using assms life_inv_closed [OF assms] life_inv_opened [OF assms]
  by (cases "buffer_opened (evb (kern d))"; cases "op_cpu_type (oprofile_ops d) = Some ''timer''")
    (auto simp: x86_ready_eta)

lemma x86_change_inv:
  assumes "x86_inv B env m d"
    and "x86_idle B env m (x86 (kern d)) \<Longrightarrow> x86_idle B env m x"
    and "x86_armed B env m (x86 (kern d)) \<Longrightarrow> x86_armed B env m x"
  shows "x86_inv B env m (d\<lparr>kern := (kern d)\<lparr>x86 := x\<rparr>\<rparr>)"
proof (cases "buffer_opened (evb (kern d))")
  case True
  then show ?thesis
    using life_inv_opened [OF assms(1) True] assms(2,3)
    by (intro life_inv_session [OF assms(1) True])
      (auto simp: kernel_keeps_refl x86_ready_def split: if_splits)
next
  case False
  with assms(1,2) life_inv_closed [OF assms(1)] show ?thesis
    by (auto simp: life_inv_def session_down_def no_work_def sizes_ok_def driver_ops_ok_def)
qed

lemma x86_session_inv:
  fixes B :: "'r x86_platform" and d :: "('h, 'r) x86_driver"
  assumes "x86_inv B env m d" and "buffer_opened (evb (kern d))"
    and "buffers_ok (possible_cpus env) (kern d)" and "x86_armed B env m (x86 (kern d))"
    and "op_cpu_type (oprofile_ops d) \<noteq> Some ''timer''"
    and "nmi_step (hw_params B) (spec_of B m) env (kern d) k"
  shows "x86_inv B env m (d\<lparr>kern := k\<rparr>)"
proof -
  from model.step_keeps [OF assms(6,3)] assms(4)
  have "kernel_keeps (possible_cpus env) (kern d) k" "x86_armed B env m (x86 k)"
    by (simp_all add: model.nmi_keeps_def model_armed)
  with assms(5) show ?thesis by (intro life_inv_session [OF assms(1,2)]) (simp_all add: x86_ready_def)
qed

text \<open>Without a session the handler is not registered and power management does nothing.\<close>

lemma x86_step_inv:
  assumes "x86_step B env m d d'" and "x86_inv B env m d" and "env_ok env"
  shows "x86_inv B env m d'"
  using assms
proof (induction rule: x86_step.induct)
  case (driver d d')
  then show ?case by (rule driver_step_inv)
next
  case (nmi d c sp t r k)
  from nmi(5) show ?case
  proof (cases rule: x86_inv_cases)
    case quiet
    with nmi show ?thesis by (simp add: x86_idle_def)
  next
    case armed
    with nmi show ?thesis by (blast intro: x86_session_inv nmi_step.interrupt)
  qed
next
  case (suspend d k)
  from suspend(2) show ?case
  proof (cases rule: x86_inv_cases)
    case quiet
    with suspend(1) have "k = kern d" by (simp add: nmi_suspend_def x86_idle_def)
    with suspend(2) show ?thesis by simp
  next
    case armed
    with suspend show ?thesis by (blast intro: x86_session_inv nmi_step.suspend)
  qed
next
  case (resume d k)
  from resume(2) show ?case
  proof (cases rule: x86_inv_cases)
    case quiet
    with resume(1) have "k = kern d" by (simp add: nmi_resume_def x86_idle_def)
    with resume(2) show ?thesis by simp
  next
    case armed
    with resume show ?thesis by (blast intro: x86_session_inv nmi_step.resume)
  qed
next
  case (counting d ms)
  show ?case
    by (rule x86_change_inv [OF counting(1)])
      (simp_all add: x86_idle_def x86_armed_def)
next
  case (idle_poll strtoul stack w d r x)
  obtain p where "x = (x86 (kern d))\<lparr>poll := p\<rparr>"
    using idle_poll(1)
    by (auto simp: idle_poll_write_def Let_def split: if_splits sum.splits prod.splits
        intro: that [of "poll (x86 (kern d))"])
  then show ?case
    using x86_change_inv [OF idle_poll(2), of x] by (simp add: x86_idle_def x86_armed_def)
next
  case (configure d cfg)
  have wf: "model_wf B env m ((x86 (kern d))\<lparr>counter_config := cfg\<rparr>)" if "model_wf B env m (x86 (kern d))"
    using configure(2) by (intro model.mwf_same [OF that]) (simp add: same_vars_def)
  show ?case
    by (rule x86_change_inv [OF configure(3)]) (simp_all add: wf x86_idle_def x86_armed_def)
qed

lemma x86_reach_inv:
  assumes "x86_reach B env m d0 d" and "x86_inv B env m d0" and "env_ok env"
  shows "x86_inv B env m d"
  using assms by (induction rule: x86_reach.induct) (blast intro: x86_step_inv)+

lemma x86_no_fault:
  assumes "x86_inv B env m d"
  shows "(nmi_handler (x86 (kern d)) \<and> c \<in> set (online_cpus env) \<and> sampler_ok sp \<longrightarrow>
      profile_exceptions_notify (spec_of B m) sp c t (kern d) \<noteq> None) \<and>
    nmi_suspend (hw_params B) (spec_of B m) env (kern d) \<noteq> None \<and>
    nmi_resume (hw_params B) (spec_of B m) env (kern d) \<noteq> None"
  using assms
proof (cases rule: x86_inv_cases)
  case quiet
  then show ?thesis by (simp add: x86_idle_def nmi_suspend_def nmi_resume_def)
next
  case armed
  then have ar: "x86_model.armed (model_wf B env m) (model_ready B m) (online_cpus env) (x86 (kern d))"
    by (simp add: model_armed)
  from model.start_ok [OF armed(2) ar] model.stop_ok [OF armed(2) ar]
    model.interrupt_ok [OF armed(2) ar, where c = c and sp = sp and t = t]
  show ?thesis by (auto simp: nmi_suspend_def nmi_resume_def)
qed


end
