(* ===== verification/X86_Behaviour.thy ===== *)
theory X86_Behaviour
  imports X86_Lifecycle
begin

text \<open>
  What the NMI back end does, beyond not faulting: the adaption of the counters, and resuming.
\<close>

section \<open>Adaption\<close>

context x86_model
begin

text \<open>A loop of setups leaves the configuration and the flags of \<^verbatim>\<open>nmi_int.c\<close> alone.\<close>

lemma setup_all_config:
  assumes "armed cs x"
  shows "\<exists>x'. for_each (nmi_cpu_adapt M) cs x = Some x' \<and> armed cs x' \<and>
    counter_config x' = counter_config x \<and> nmi_ctr_running x' = nmi_ctr_running x"
proof (rule for_each_invariant [where I = "\<lambda>x'. armed cs x' \<and> counter_config x' = counter_config x \<and>
      nmi_ctr_running x' = nmi_ctr_running x"])
  fix c y
  assume c: "c \<in> set cs" and y: "armed cs y \<and> counter_config y = counter_config x \<and>
      nmi_ctr_running y = nmi_ctr_running x"
  then have "mwf y" "ready c y" by (auto simp: armed_def)
  from setup_law [OF this] obtain z where z: "setup_ctrs M c y = Some z" "mwf z" "only_regs c y z" by blast
  with y show "\<exists>x'. nmi_cpu_adapt M c y = Some x' \<and> armed cs x' \<and> counter_config x' = counter_config x \<and>
      nmi_ctr_running x' = nmi_ctr_running x"
    using armed_only_regs [of cs y z c] by (auto simp: nmi_cpu_adapt_def) (simp_all add: only_regs_def)
qed (use assms in simp)

lemma adapt_config:
  assumes "armed (online_cpus env) x"
  shows "\<exists>x'. nmi_adapt M env x =
      Some (\<forall>g \<in> set (take m (counter_config x)). cc_enabled g \<noteq> 0 \<longrightarrow> cc_count g < nmi_max_counter_value, x') \<and>
    counter_config x' =
      (if \<forall>g \<in> set (take m (counter_config x)). cc_enabled g \<noteq> 0 \<longrightarrow> cc_count g < nmi_max_counter_value
       then map decay_counter (take m (counter_config x)) @ drop m (counter_config x)
       else counter_config x)"
proof -
  have mwf: "mwf x" using assms by (simp add: armed_def)
  let ?cfg = "map decay_counter (take m (counter_config x)) @ drop m (counter_config x)"
  have "mwf (x\<lparr>counter_config := ?cfg\<rparr>)"
    using config_size [OF mwf] by (intro mwf_same [OF mwf]) (simp add: same_vars_def)
  then have "armed (online_cpus env) (x\<lparr>counter_config := ?cfg\<rparr>)" using assms by (simp add: armed_def)
  from setup_all_config [OF this] sizes [OF mwf] config_size [OF mwf] show ?thesis
    by (auto simp: nmi_adapt_def Let_def not_le)
qed

end

lemma decay_bounded:
  assumes "cc_count g < nmi_max_counter_value"
  shows "unat (cc_count g * ADAPT_DECAY_FACTOR) = 10 * unat (cc_count g)"
    "10 * unat (cc_count g) < 2 ^ 31"
proof -
  have n: "unat (cc_count g) < 214748364"
    using assms by (simp add: nmi_max_counter_value_def ADAPT_DECAY_FACTOR_def word_less_nat_alt)
  then show "10 * unat (cc_count g) < 2 ^ 31" by simp
  have "unat (cc_count g * 10) = unat (cc_count g) * unat (10 :: ulong)"
    using n by (subst unat_mult_lem [symmetric]) simp
  then show "unat (cc_count g * ADAPT_DECAY_FACTOR) = 10 * unat (cc_count g)"
    by (simp add: ADAPT_DECAY_FACTOR_def)
qed

text \<open>C25: adapting a session with the NMI back end is all or nothing: when the count of every
  enabled counter leaves room, each is multiplied by ten, without overflow and below
  \<open>2 ^ 31\<close>, and the disabled ones are left; otherwise nothing changes and the result says so.\<close>

theorem nmi_adapt_bounded:
  fixes B :: "'r x86_platform"
  assumes "x86_armed B env m x"
  shows "\<exists>changed x'. nmi_adapt (spec_of B m :: ('h, 'r) op_x86_model_spec) env x = Some (changed, x') \<and>
    length (counter_config x') = length (counter_config x) \<and>
    (if changed
     then \<forall>i < model_ctrs m. let g = counter_config x ! i; g' = counter_config x' ! i
            in if cc_enabled g \<noteq> 0
               then unat (cc_count g') = 10 * unat (cc_count g) \<and> unat (cc_count g') < 2 ^ 31 \<and>
                 g' = g\<lparr>cc_count := cc_count g'\<rparr>
               else g' = g
     else counter_config x' = counter_config x)"
proof -
  let ?n = "model_ctrs m" and ?cfg = "counter_config x"
  let ?fits = "\<forall>g \<in> set (take ?n ?cfg). cc_enabled g \<noteq> 0 \<longrightarrow> cc_count g < nmi_max_counter_value"
  have "x86_model.armed (model_wf B env m) (model_ready B m) (online_cpus env) x"
    using assms by (simp add: model_armed)
  from model.adapt_config [OF this] obtain x' where
    x': "nmi_adapt (spec_of B m :: ('h, 'r) op_x86_model_spec) env x = Some (?fits, x')"
    "counter_config x' = (if ?fits then map decay_counter (take ?n ?cfg) @ drop ?n ?cfg else ?cfg)" by blast
  have n: "?n \<le> length ?cfg" using assms model.config_size [of B env m x] by (simp add: x86_armed_def)
  show ?thesis
  proof (cases ?fits)
    case True
    have "let g = ?cfg ! i; g' = counter_config x' ! i
            in if cc_enabled g \<noteq> 0
               then unat (cc_count g') = 10 * unat (cc_count g) \<and> unat (cc_count g') < 2 ^ 31 \<and>
                 g' = g\<lparr>cc_count := cc_count g'\<rparr>
               else g' = g" if "i < ?n" for i
    proof -
      have g': "counter_config x' ! i = decay_counter (?cfg ! i)"
        using x'(2) True n that by (simp add: nth_append)
      have "?cfg ! i \<in> set (take ?n ?cfg)" using n that by (auto simp: in_set_conv_nth)
      with True decay_bounded [of "?cfg ! i"] g' show ?thesis by (auto simp: decay_counter_def Let_def)
    qed
    with x' True n show ?thesis by auto
  next
    case False
    with x' show ?thesis by auto
  qed
qed

section \<open>Resuming\<close>

context nmi_backend
begin

lemma start_running:
  assumes "buffers_ok (possible_cpus env) k" and "armed (online_cpus env) (x86 k)"
  shows "\<exists>k'. nmi_start H M env k = Some (rc_ok, k') \<and> nmi_ctr_running (x86 k')"
proof -
  let ?k = "k\<lparr>x86 := (x86 k)\<lparr>nmi_ctr_running := True\<rparr>\<rparr>"
  let ?I = "\<lambda>k'. nmi_keeps k k' \<and> nmi_ctr_running (x86 k')"
  have "\<exists>k'. for_each (nmi_cpu_start H M) (online_cpus env) ?k = Some k' \<and> ?I k'"
  proof (rule for_each_invariant [where I = ?I])
    show "?I ?k" using nmi_keeps_refl [OF assms] nmi_keeps_flags(1) by simp
    fix c k1 assume c: "c \<in> set (online_cpus env)" and k1: "?I k1"
    from nmi_on_cpu [OF conjunct1 [OF k1] c, of "H_start (start_tb H c)"] obtain k2 where
      k2: "on_cpu c (oprofile_add_start (start_tb H c)) k1 = Some k2" "nmi_keeps k k2"
      by (auto simp: on_cpu_def)
    have x: "x86 k2 = x86 k1" using k2(1) by (auto simp: on_cpu_def)
    have "mwf (x86 k2)" "ready c (x86 k2)" using k2(2) c by (auto simp: nmi_keeps_def armed_def)
    from start_law [OF this, of "model_tb H c"] obtain y where
      y: "spec_start M (model_tb H c) c (x86 k2) = Some y" "only_regs c (x86 k2) y" by blast
    from nmi_on_x86 [OF k2(2) c start_law] have "\<exists>k'. on_x86 (spec_start M (model_tb H c) c) k2 = Some k' \<and>
        nmi_keeps k k'" .
    with k1 k2(1) x y show "\<exists>k'. nmi_cpu_start H M c k1 = Some k' \<and> ?I k'"
      by (auto simp: nmi_cpu_start_def on_x86_def only_regs_def)
  qed
  then show ?thesis by (auto simp: nmi_start_def)
qed

lemma stop_enabled:
  assumes "buffers_ok (possible_cpus env) k" and "armed (online_cpus env) (x86 k)"
  shows "\<exists>k'. nmi_stop H M env k = Some k' \<and> nmi_keeps k k' \<and> nmi_enabled (x86 k') = nmi_enabled (x86 k)"
proof -
  let ?I = "\<lambda>k'. nmi_keeps k k' \<and> nmi_enabled (x86 k') = nmi_enabled (x86 k)"
  have "\<exists>k'. for_each (nmi_cpu_stop H M) (online_cpus env) k = Some k' \<and> ?I k'"
  proof (rule for_each_invariant [where I = ?I])
    show "?I k" using nmi_keeps_refl [OF assms] by simp
    fix c k1 assume c: "c \<in> set (online_cpus env)" and k1: "?I k1"
    then have "mwf (x86 k1)" "ready c (x86 k1)" by (auto simp: nmi_keeps_def armed_def)
    from stop_law [OF this] obtain y where
      y: "spec_stop M c (x86 k1) = Some y" "only_regs c (x86 k1) y" by blast
    from nmi_on_x86 [OF conjunct1 [OF k1] c stop_law] obtain k2 where
      k2: "on_x86 (spec_stop M c) k1 = Some k2" "nmi_keeps k k2" by blast
    from nmi_on_cpu [OF k2(2) c, of "H_stop (stop_tb H c)"] obtain k3 where
      k3: "on_cpu c (oprofile_add_stop (stop_tb H c)) k2 = Some k3" "nmi_keeps k k3"
      by (auto simp: on_cpu_def)
    have "nmi_enabled (x86 k3) = nmi_enabled (x86 k)"
      using k1 k2(1) k3(1) y by (auto simp: on_x86_def on_cpu_def only_regs_def)
    with k2(1) k3 nmi_keeps_flags(2) show "\<exists>k'. nmi_cpu_stop H M c k1 = Some k' \<and> ?I k'"
      by (simp add: nmi_cpu_stop_def)
  qed
  then show ?thesis using nmi_keeps_flags(1) by (auto simp: nmi_stop_def)
qed

lemma resume_unstarted:
  assumes "mwf (x86 k)" and "buffers_ok (possible_cpus env) k"
    and "nmi_setup H M env (x86 k) = Some (rc_ok, x1)"
  shows "\<not> nmi_ctr_running x1 \<and>
    (\<exists>k2 k3. nmi_suspend H M env (k\<lparr>x86 := x1\<rparr>) = Some k2 \<and> nmi_resume H M env k2 = Some k3 \<and>
       nmi_ctr_running (x86 k3))"
proof -
  from nmi_setup_armed [OF assms(1)] assms(3)
  have x1: "armed (online_cpus env) x1" "nmi_enabled x1" "\<not> nmi_ctr_running x1" by auto
  have "buffers_ok (possible_cpus env) (k\<lparr>x86 := x1\<rparr>)" using assms(2) by (simp add: buffers_ok_def)
  from stop_enabled [OF this] x1 obtain k2 where k2: "nmi_stop H M env (k\<lparr>x86 := x1\<rparr>) = Some k2"
    "buffers_ok (possible_cpus env) k2" "armed (online_cpus env) (x86 k2)" "nmi_enabled (x86 k2)"
    by (auto simp: nmi_keeps_def kernel_keeps_def)
  from start_running [OF k2(2,3)] x1 k2 show ?thesis
    by (auto simp: nmi_suspend_def nmi_resume_def)
qed

end

text \<open>C26: \<^verbatim>\<open>nmi_enabled\<close>, whose comment says ``registered and on'', is set by the setup already. So a
  machine that is suspended and resumed while the buffer file is open and no profile runs
  comes back with the counters running.\<close>

theorem resume_starts_unstarted_profile:
  fixes B :: "'r x86_platform" and k :: "'h nmi_kstate_scheme"
  assumes "model_wf B env m (x86 k)" and "buffers_ok (possible_cpus env) k"
    and "nmi_setup (hw_params B) (spec_of B m :: ('h, 'r) op_x86_model_spec) env (x86 k) = Some (rc_ok, x1)"
  shows "\<not> nmi_ctr_running x1 \<and>
    (\<exists>k2 k3. nmi_suspend (hw_params B) (spec_of B m :: ('h, 'r) op_x86_model_spec) env (k\<lparr>x86 := x1\<rparr>) = Some k2 \<and>
       nmi_resume (hw_params B) (spec_of B m :: ('h, 'r) op_x86_model_spec) env k2 = Some k3 \<and> nmi_ctr_running (x86 k3))"
  by (rule model.resume_unstarted [OF assms])

end
