(* ===== verification/Ppro_Interrupt.thy ===== *)
theory Ppro_Interrupt
  imports Op_Ppro
begin

text \<open>
  What the P6 counters do: when a programmed counter overflows, what the interrupt handler of
  \<^verbatim>\<open>x86/op_model_ppro.c\<close> logs and writes, and which enable bits its functions set.
\<close>

section \<open>Overflow\<close>

lemma bit_31_iff: "bit (w :: u32) 31 \<longleftrightarrow> 2 ^ 31 \<le> unat w"
proof -
  have "bit w 31 \<longleftrightarrow> odd (unat w div 2 ^ 31)"
    using bit_iff_odd [of "unat w" 31] by (simp add: bit_unsigned_iff)
  moreover have "unat w < 2 ^ 32" using unsigned_less [of w] by simp
  then have "unat w div 2 ^ 31 < 2" by (simp add: less_mult_imp_div_less)
  ultimately show ?thesis
    by (cases "unat w div 2 ^ 31 = 0") (auto simp: div_eq_0_iff not_le less_2_cases_iff)
qed

lemma CTR_OVERFLOWED_iff: "CTR_OVERFLOWED n \<longleftrightarrow> unat n < 2 ^ 31"
proof -
  have "CTR_OVERFLOWED n \<longleftrightarrow> n AND 2 ^ 31 = 0" by (simp add: CTR_OVERFLOWED_def push_bit_eq_mult)
  then show ?thesis unfolding and_exp_eq_0_iff_not_bit bit_31_iff by (simp add: not_le)
qed

lemma counter_value:
  assumes "0 < n" and "n \<le> 2 ^ 31" and "k < n + 2 ^ 31"
  shows "unat (- of_nat n + of_nat k :: u32) < 2 ^ 31 \<longleftrightarrow> n \<le> k"
proof (cases "n \<le> k")
  case True
  then have "(- of_nat n + of_nat k :: u32) = of_nat (k - n)" by (simp add: of_nat_diff)
  moreover have "k - n < 2 ^ 31" using assms(3) True by linarith
  then have "unat (of_nat (k - n) :: u32) < 2 ^ 31" by (simp add: unat_of_nat del: of_nat_diff)
  ultimately show ?thesis using True by (simp del: of_nat_diff)
next
  case False
  then have "(- of_nat n + of_nat k :: u32) = - of_nat (n - k)" by (simp add: of_nat_diff)
  also have "\<dots> = of_nat (2 ^ 32 - (n - k))"
  proof -
    have "(of_nat (2 ^ 32 - (n - k)) :: u32) = of_nat (2 ^ 32) - of_nat (n - k)"
      using assms by (intro of_nat_diff) simp
    then show ?thesis by simp
  qed
  finally have "unat (- of_nat n + of_nat k :: u32) = 2 ^ 32 - (n - k)"
    using False assms(1) by (simp add: unat_of_nat)
  then show ?thesis using False assms(2) by simp
qed

text \<open>A counter that is armed with a count between 1 and \<open>2 ^ 31\<close> is seen as overflowed after
  exactly that many events, and stays so for the next \<open>2 ^ 31\<close>.\<close>

theorem counter_overflows_after_count:
  assumes "0 < count" and "count \<le> 2 ^ 31" and "CTR_WRITE count c i x = Some x'"
    and "k < unat count + 2 ^ 31"
  shows "\<exists>low high. CTR_READ c i x' = Some (low, high) \<and>
    (CTR_OVERFLOWED (low + of_nat k) \<longleftrightarrow> unat count \<le> k)"
proof -
  from assms(3) obtain a where a: "ctr_addr c i x = Some a" "x' = wrmsr c a (- ucast count) (- 1) x"
    by (auto simp: CTR_WRITE_def)
  have "ctr_addr c i x' = Some a" using a by (simp add: ctr_addr_def wrmsr_def)
  then have "CTR_READ c i x' = Some (- ucast count, - 1)"
    unfolding CTR_READ_def rdmsr_def by (simp add: a(2) wrmsr_def)
  moreover have "(ucast count :: u32) = of_nat (unat count)" by (simp add: unsigned_ucast_eq)
  moreover have "0 < unat count" "unat count \<le> 2 ^ 31"
    using assms(1,2) by (simp_all add: word_le_nat_alt word_less_nat_alt)
  ultimately show ?thesis
    using counter_value [of "unat count" k] assms(4) unfolding CTR_OVERFLOWED_iff by metis
qed

section \<open>The interrupt\<close>

text \<open>The entries for one counter, on the ring of the CPU.\<close>

definition counter_sample ::
  "'r sampler \<Rightarrow> 'r nmi \<Rightarrow> u64 \<Rightarrow> u64 \<Rightarrow> nat \<Rightarrow> oprofile_cpu_buffer \<Rightarrow> oprofile_cpu_buffer option" where
  "counter_sample sp t start stop i b =
     do { b \<leftarrow> oprofile_add_sample_start start b;
          b \<leftarrow> oprofile_add_sample_stop stop b;
          take_sample sp (nmi_task t) (Some (nmi_regs t)) (of_nat i) b }"

lemma add_counter_sample_ring:
  "add_counter_sample sp c t start stop i k = on_cpu c (counter_sample sp t start stop i) k"
  by (cases "oprofile_add_sample_start start (cpu_buffer k c)")
    (auto simp: add_counter_sample_def counter_sample_def on_cpu_def option.map_comp o_def
      map_option_case split: option.split bind_split)

definition overflowed :: "nat \<Rightarrow> x86_state \<Rightarrow> nat \<Rightarrow> bool" where
  "overflowed c x i \<longleftrightarrow> (case CTR_READ c i x of None \<Rightarrow> False | Some (low, _) \<Rightarrow> CTR_OVERFLOWED low)"

lemma wrmsr_frame [simp]:
  "cpu_msrs (wrmsr c a low high x) = cpu_msrs x"
  "ppro_reset_value (wrmsr c a low high x) = ppro_reset_value x"
  "ppro_start_timestamp (wrmsr c a low high x) = ppro_start_timestamp x"
  "ctr_addr c' i (wrmsr c a low high x) = ctr_addr c' i x"
  "ctrl_addr c' i (wrmsr c a low high x) = ctrl_addr c' i x"
  by (simp_all add: wrmsr_def ctr_addr_def ctrl_addr_def)

lemma ctr_read_wrmsr:
  "ctr_addr c i x = Some a' \<Longrightarrow> (ucast a' :: u32) \<noteq> ucast a \<Longrightarrow>
   CTR_READ c i (wrmsr c a low high x) = CTR_READ c i x"
  by (simp add: CTR_READ_def rdmsr_def) (simp add: wrmsr_def)

lemma ctr_read_written:
  "ctr_addr c i x = Some a \<Longrightarrow> CTR_READ c i (wrmsr c a low high x) = Some (low, high)"
  by (simp add: CTR_READ_def rdmsr_def) (simp add: wrmsr_def)

lemma check_ctr_step:
  assumes "ctr_addr c i (x86 k) = Some a" and "ppro_reset_value (x86 k) = Some vs" and "i < length vs"
  shows "ppro_check_ctr sp c t i k =
    (if overflowed c (x86 k) i
     then map_option (\<lambda>b. k\<lparr>cpu_buffer := (cpu_buffer k)(c := b),
              x86 := wrmsr c a (- ucast (vs ! i)) (- 1) (x86 k)\<rparr>)
            (counter_sample sp t (ppro_start_timestamp (x86 k) c) (entry_tb t) i (cpu_buffer k c))
     else Some k)"
proof -
  obtain low high where r: "CTR_READ c i (x86 k) = Some (low, high)"
    using assms(1) by (cases "rdmsr c a (x86 k)") (simp add: CTR_READ_def)
  show ?thesis
    using assms r
    by (auto simp: ppro_check_ctr_def overflowed_def add_counter_sample_ring on_cpu_def on_x86_def
        CTR_WRITE_def elem_def map_option_case split: option.split)
qed

lemma check_loop:
  assumes "for_each (ppro_check_ctr sp c t) js k = Some k'"
    and "\<forall>i \<in> set js. ctr_addr c i (x86 k) = Some (A i) \<and> i < length vs"
    and "ppro_reset_value (x86 k) = Some vs" and "distinct (map (\<lambda>i. ucast (A i) :: u32) js)"
  shows "for_each (counter_sample sp t (ppro_start_timestamp (x86 k) c) (entry_tb t))
      (filter (overflowed c (x86 k)) js) (cpu_buffer k c) = Some (cpu_buffer k' c) \<and>
    (\<forall>c'. c' \<noteq> c \<longrightarrow> cpu_buffer k' c' = cpu_buffer k c') \<and>
    cpu_msrs (x86 k') = cpu_msrs (x86 k) \<and>
    (\<forall>i \<in> set js. CTR_READ c i (x86 k') =
       (if overflowed c (x86 k) i then Some (- ucast (vs ! i), - 1) else CTR_READ c i (x86 k))) \<and>
    (\<forall>i a. ctr_addr c i (x86 k) = Some a \<longrightarrow> ucast a \<notin> (\<lambda>i. ucast (A i) :: u32) ` set js \<longrightarrow>
       CTR_READ c i (x86 k') = CTR_READ c i (x86 k))"
  using assms
proof (induction js arbitrary: k)
  case Nil
  then show ?case by simp
next
  case (Cons i js)
  let ?start = "ppro_start_timestamp (x86 k) c"
  from Cons.prems(1) obtain k1 where k1: "ppro_check_ctr sp c t i k = Some k1"
    "for_each (ppro_check_ctr sp c t) js k1 = Some k'" by (auto split: option.splits)
  have i: "ctr_addr c i (x86 k) = Some (A i)" "i < length vs" using Cons.prems(2) by simp_all
  note step = k1(1) [unfolded check_ctr_step [OF i(1) Cons.prems(3) i(2)]]
  have addr: "ctr_addr c j (x86 k1) = ctr_addr c j (x86 k)" for j
    using step by (auto split: if_splits)
  have frame: "ppro_reset_value (x86 k1) = Some vs" "cpu_msrs (x86 k1) = cpu_msrs (x86 k)"
    "ppro_start_timestamp (x86 k1) = ppro_start_timestamp (x86 k)"
    "\<forall>c'. c' \<noteq> c \<longrightarrow> cpu_buffer k1 c' = cpu_buffer k c'"
    using step Cons.prems(3) by (auto split: if_splits)
  have other: "CTR_READ c j (x86 k1) = CTR_READ c j (x86 k)"
    if "ctr_addr c j (x86 k) = Some a" "(ucast a :: u32) \<noteq> ucast (A i)" for j a
    using step ctr_read_wrmsr [OF that] by (auto split: if_splits)
  have nodup: "distinct (map (\<lambda>i. ucast (A i) :: u32) js)" "ucast (A i) \<notin> (\<lambda>i. ucast (A i) :: u32) ` set js"
    using Cons.prems(4) by auto
  have js: "CTR_READ c j (x86 k1) = CTR_READ c j (x86 k)" if "j \<in> set js" for j
  proof (rule other)
    show "ctr_addr c j (x86 k) = Some (A j)" using Cons.prems(2) that by simp
    show "(ucast (A j) :: u32) \<noteq> ucast (A i)" using nodup(2) that by (metis image_eqI)
  qed
  have ring: "(if overflowed c (x86 k) i then counter_sample sp t ?start (entry_tb t) i (cpu_buffer k c)
      else Some (cpu_buffer k c)) = Some (cpu_buffer k1 c)"
    using step by (auto split: if_splits)
  have read: "CTR_READ c i (x86 k1) =
      (if overflowed c (x86 k) i then Some (- ucast (vs ! i), - 1) else CTR_READ c i (x86 k))"
    using step ctr_read_written [OF i(1)] by (auto split: if_splits)
  have same: "filter (overflowed c (x86 k1)) js = filter (overflowed c (x86 k)) js"
    using js by (intro filter_cong) (simp_all add: overflowed_def)
  have pre: "\<forall>j \<in> set js. ctr_addr c j (x86 k1) = Some (A j) \<and> j < length vs"
    using Cons.prems(2) addr by simp
  note IH = Cons.IH [OF k1(2) pre frame(1) nodup(1), unfolded same frame(2,3)]
  have addr1: "ctr_addr c i (x86 k1) = Some (A i)" using i(1) addr by simp
  have keep: "\<forall>j a. ctr_addr c j (x86 k1) = Some a \<longrightarrow> ucast a \<notin> (\<lambda>i. ucast (A i) :: u32) ` set js \<longrightarrow>
      CTR_READ c j (x86 k') = CTR_READ c j (x86 k1)"
    using IH by (elim conjE)
  have head: "CTR_READ c i (x86 k') = CTR_READ c i (x86 k1)"
    by (rule keep [rule_format, OF addr1 nodup(2)])
  have "for_each (counter_sample sp t ?start (entry_tb t)) (filter (overflowed c (x86 k)) (i # js))
      (cpu_buffer k c) = Some (cpu_buffer k' c)"
    using IH ring by (auto split: if_splits)
  moreover have "CTR_READ c j (x86 k') =
      (if overflowed c (x86 k) j then Some (- ucast (vs ! j), - 1) else CTR_READ c j (x86 k))"
    if "j \<in> set (i # js)" for j
  proof (cases "j = i")
    case True
    with head read show ?thesis by simp
  next
    case False
    with that have "j \<in> set js" by simp
    with IH js [of j] show ?thesis by (simp add: overflowed_def)
  qed
  moreover have "CTR_READ c j (x86 k') = CTR_READ c j (x86 k)"
    if "ctr_addr c j (x86 k) = Some a" "ucast a \<notin> (\<lambda>i. ucast (A i) :: u32) ` set (i # js)" for j a
    using IH that addr other [of j a] by auto
  ultimately show ?case using IH frame(4) by auto
qed

text \<open>Stopping and starting write only the first control register.\<close>

lemma ctrl_modify_read:
  assumes "ctrl_modify c f j x = Some x'" and "ctrl_addr c j x = Some e"
    and "ctr_addr c i x = Some a" and "(ucast a :: u32) \<noteq> ucast e"
  shows "CTR_READ c i x' = CTR_READ c i x"
  using assms ctr_read_wrmsr [OF assms(3,4)]
  by (auto simp: ctrl_modify_def CTRL_READ_def CTRL_WRITE_def split: prod.splits Option.bind_splits)

lemma ctr_read_cong:
  "cpu_msrs x' = cpu_msrs x \<Longrightarrow> msr x' = msr x \<Longrightarrow> CTR_READ c i x' = CTR_READ c i x"
  by (simp add: CTR_READ_def ctr_addr_def rdmsr_def)

lemma ctrl_modify_frame2:
  "ctrl_modify c f j x = Some x' \<Longrightarrow> cpu_msrs x' = cpu_msrs x \<and> ppro_reset_value x' = ppro_reset_value x \<and>
     ppro_start_timestamp x' = ppro_start_timestamp x"
  by (auto simp: ctrl_modify_def CTRL_READ_def CTRL_WRITE_def split: prod.splits Option.bind_splits)

lemma ppro_stop_read:
  assumes "ppro_stop c x = Some x'" and "ctrl_addr c 0 x = Some e" and "ctr_addr c i x = Some a"
    and "(ucast a :: u32) \<noteq> ucast e"
  shows "CTR_READ c i x' = CTR_READ c i x"
  using ctrl_modify_read [OF assms(1) [unfolded ppro_stop_def] assms(2-4)] .

lemma ppro_restart_read:
  assumes "ppro_start tb c (apic_write c APIC_LVTPC v x) = Some x'" and "ctrl_addr c 0 x = Some e"
    and "ctr_addr c i x = Some a" and "(ucast a :: u32) \<noteq> ucast e"
  shows "CTR_READ c i (x'\<lparr>ppro_start_timestamp := ts\<rparr>) = CTR_READ c i x"
proof -
  let ?x = "apic_write c APIC_LVTPC v x"
  let ?y = "?x\<lparr>ppro_start_timestamp := (ppro_start_timestamp ?x)(c := tb)\<rparr>"
  have y: "cpu_msrs ?y = cpu_msrs x" "msr ?y = msr x" by (simp_all add: apic_write_def)
  have "CTR_READ c i x' = CTR_READ c i ?y"
    using ctrl_modify_read [OF assms(1) [unfolded ppro_start_def]] assms(2-4) y(1)
    by (simp add: ctr_addr_def ctrl_addr_def)
  also have "\<dots> = CTR_READ c i x" using y by (rule ctr_read_cong)
  finally show ?thesis using ctr_read_cong [of "x'\<lparr>ppro_start_timestamp := ts\<rparr>" x'] by simp
qed

text \<open>C14: the counter interrupt logs, for each overflowed counter in order and no other, the interval
  since the counters were started and the sample, arms it again with its reset value, and
  leaves the other counter and the other CPUs' rings alone.\<close>

theorem ppro_interrupt_samples:
  assumes "ppro_wf P env H (x86 k)" and "msrs_sized 2 2 c (x86 k)" and "ring_ok (cpu_buffer k c)"
    and "sampler_ok sp" and "distinct (map (\<lambda>m. ucast (addr m) :: u32) (entries c (x86 k)))"
    and "ppro_reset_value (x86 k) = Some vs"
  shows "\<exists>k'. ppro_check_ctrs lvt sp c t k = Some k' \<and>
    for_each (counter_sample sp t (ppro_start_timestamp (x86 k) c) (entry_tb t))
      (filter (overflowed c (x86 k)) [0, 1]) (cpu_buffer k c) = Some (cpu_buffer k' c) \<and>
    (\<forall>c'. c' \<noteq> c \<longrightarrow> cpu_buffer k' c' = cpu_buffer k c') \<and>
    (\<forall>i < 2. CTR_READ c i (x86 k') =
       (if overflowed c (x86 k) i then Some (- ucast (vs ! i), - 1) else CTR_READ c i (x86 k)))"
proof -
  from assms(2) obtain p q r s where
    m: "cpu_msrs (x86 k) c = \<lparr>counters = Some [p, q], controls = Some [r, s]\<rparr>"
    by (auto simp: msrs_sized_def length_2)
  let ?A = "\<lambda>i :: nat. if i = 0 then addr p else addr q"
  have addrs: "ctr_addr c 0 x = Some (addr p)" "ctr_addr c 1 x = Some (addr q)"
    "ctrl_addr c 0 x = Some (addr r)" if "cpu_msrs x = cpu_msrs (x86 k)" for x
    using that m by (simp_all add: ctr_addr_def ctrl_addr_def elem_def)
  have ne: "(ucast (addr p) :: u32) \<noteq> ucast (addr r)" "(ucast (addr q) :: u32) \<noteq> ucast (addr r)"
    "(ucast (addr p) :: u32) \<noteq> ucast (addr q)"
    using assms(5) m by (auto simp: entries_def)
  have vs: "length vs = 2" using assms(1,6) by (simp add: ppro_wf_def)
  from ppro_check_ok [OF assms(1-4)] obtain k' where k': "ppro_check_ctrs lvt sp c t k = Some k'" by blast
  then obtain x1 k2 x4 where x1: "ppro_stop c (x86 k) = Some x1"
    and k2: "for_each (ppro_check_ctr sp c t) [0..<ppro_num_counters x1] (k\<lparr>x86 := x1\<rparr>) = Some k2"
    and x4: "ppro_start (restart_tb t) c (apic_write c APIC_LVTPC
      (apic_read c APIC_LVTPC (x86 k2) AND NOT lvt) (x86 k2)) = Some x4"
    and k'_eq: "k' = k2\<lparr>x86 := x4\<lparr>ppro_start_timestamp := (ppro_start_timestamp x4)(c := exit_tb t)\<rparr>\<rparr>"
    by (auto simp: ppro_check_ctrs_def on_x86_def split: Option.bind_splits)
  have f1: "cpu_msrs x1 = cpu_msrs (x86 k)" "ppro_reset_value x1 = Some vs"
    "ppro_start_timestamp x1 = ppro_start_timestamp (x86 k)"
    using ctrl_modify_frame2 x1 assms(6) by (auto simp: ppro_stop_def)
  have r1: "CTR_READ c i x1 = CTR_READ c i (x86 k)" if "i < 2" for i
    using that ppro_stop_read [OF x1 addrs(3) [OF refl]] addrs [OF refl] ne
    by (cases "i = 0") (auto simp: less_2_cases_iff)
  have "ppro_num_counters x1 = 2" using ppro_stop_ok [OF assms(1,2)] x1 by (auto simp: ppro_wf_def)
  then have loop: "for_each (ppro_check_ctr sp c t) [0, 1] (k\<lparr>x86 := x1\<rparr>) = Some k2"
    using k2 by (simp add: upt_rec)
  have over: "filter (overflowed c x1) [0, 1] = filter (overflowed c (x86 k)) [0, 1]"
    using r1 by (simp add: overflowed_def)
  from check_loop [OF loop, where A = ?A and vs = vs] addrs [OF f1(1)] f1 vs ne
  have L: "for_each (counter_sample sp t (ppro_start_timestamp (x86 k) c) (entry_tb t))
      (filter (overflowed c (x86 k)) [0, 1]) (cpu_buffer k c) = Some (cpu_buffer k2 c)"
    "\<forall>c'. c' \<noteq> c \<longrightarrow> cpu_buffer k2 c' = cpu_buffer k c'" "cpu_msrs (x86 k2) = cpu_msrs (x86 k)"
    "\<forall>i \<in> {0, 1}. CTR_READ c i (x86 k2) =
       (if overflowed c x1 i then Some (- ucast (vs ! i), - 1) else CTR_READ c i x1)"
    by (simp_all add: over del: filter.simps One_nat_def)
  have "CTR_READ c i (x86 k') = CTR_READ c i (x86 k2)" if "i < 2" for i
    using that ppro_restart_read [OF x4 addrs(3) [OF L(3)]] addrs(1,2) [OF L(3)] ne(1,2)
    by (cases "i = 0") (auto simp: less_2_cases_iff k'_eq)
  moreover have "overflowed c x1 i = overflowed c (x86 k) i" if "i < 2" for i
    using r1 [OF that] by (simp add: overflowed_def)
  ultimately have "\<forall>i < 2. CTR_READ c i (x86 k') =
       (if overflowed c (x86 k) i then Some (- ucast (vs ! i), - 1) else CTR_READ c i (x86 k))"
    using L(4) r1 by (auto simp: less_2_cases_iff)
  with k' L(1,2) k'_eq show ?thesis by auto
qed


section \<open>The second counter\<close>

text \<open>Bit 22 of the second control register stays clear: the events and masks of the counter
  tables do not reach it.\<close>

definition inactive_1 :: "nat \<Rightarrow> x86_state \<Rightarrow> x86_state \<Rightarrow> bool" where
  "inactive_1 c x y \<longleftrightarrow> cpu_msrs y = cpu_msrs x \<and> counter_config y = counter_config x \<and>
     (\<exists>low high. CTRL_READ c 1 y = Some (low, high) \<and> \<not> bit low 22)"

lemma small_bit:
  assumes "unat (w :: ulong) < 2 ^ n" and "n \<le> m"
  shows "\<not> bit w m"
proof
  assume "bit w m"
  then have "odd (unat w div 2 ^ m)"
    using bit_iff_odd [of "unat w" m] bit_imp_le_length [of w m] by (simp add: bit_unsigned_iff)
  moreover have "unat w < 2 ^ m"
    using assms power_increasing [of n m "2 :: nat"] by linarith
  ultimately show False by simp
qed

lemma ppro_control_inactive:
  assumes "cc_event g < 2 ^ 16" and "cc_unit_mask g < 2 ^ 8"
  shows "\<not> bit (ppro_control g low) 22"
proof -
  have "\<not> bit (cc_event g) 22" "\<not> bit (cc_unit_mask g) 14"
    using assms by (simp_all add: small_bit [of _ 16] small_bit [of _ 8] word_less_nat_alt)
  then show ?thesis
    by (simp add: ppro_control_def CTRL_SET_EVENT_def CTRL_SET_UM_def CTRL_SET_KERN_def CTRL_SET_USR_def
        CTRL_SET_ENABLE_def CTRL_CLEAR_def bit_simps)
qed


text \<open>Writes to the other registers keep it, and so does a write that keeps the bit clear.\<close>

lemma ctrl_read_wrmsr:
  "ctrl_addr c i x = Some a' \<Longrightarrow> (ucast a' :: u32) \<noteq> ucast a \<Longrightarrow>
   CTRL_READ c i (wrmsr c a low high x) = CTRL_READ c i x"
  by (simp add: CTRL_READ_def rdmsr_def) (simp add: wrmsr_def)

lemma ctrl_read_written:
  "ctrl_addr c i x = Some a \<Longrightarrow> CTRL_READ c i (wrmsr c a low high x) = Some (low, high)"
  by (simp add: CTRL_READ_def rdmsr_def) (simp add: wrmsr_def)

lemma inactive_same:
  "cpu_msrs y' = cpu_msrs y \<Longrightarrow> msr y' = msr y \<Longrightarrow> counter_config y' = counter_config y \<Longrightarrow>
   inactive_1 c x y' = inactive_1 c x y"
  by (simp add: inactive_1_def CTRL_READ_def ctrl_addr_def rdmsr_def)

lemma inactive_wrmsr:
  assumes "inactive_1 c x y" and "ctrl_addr c 1 x = Some e" and "(ucast e :: u32) \<noteq> ucast a"
  shows "inactive_1 c x (wrmsr c a low high y)"
proof -
  have "ctrl_addr c 1 y = Some e" using assms(1,2) by (simp add: inactive_1_def ctrl_addr_def)
  from ctrl_read_wrmsr [OF this assms(3)] assms(1) show ?thesis
    by (simp add: inactive_1_def) (simp add: wrmsr_def)
qed

lemma inactive_modify:
  assumes "ctrl_modify c (\<lambda>low high. (f low, high)) 1 y = Some y'" and "cpu_msrs y = cpu_msrs x"
    and "counter_config y = counter_config x" and "\<And>low. \<not> bit (f low) 22"
  shows "inactive_1 c x y'"
proof -
  from assms(1) obtain e low high where e: "ctrl_addr c 1 y = Some e" "y' = wrmsr c e (f low) high y"
    by (auto simp: ctrl_modify_def CTRL_READ_def CTRL_WRITE_def split: prod.splits Option.bind_splits)
  from ctrl_read_written [OF e(1)] assms(2-4) e(2) show ?thesis
    by (simp add: inactive_1_def) (simp add: wrmsr_def)
qed

lemma inactive_modify_0:
  assumes "inactive_1 c x y" and "ctrl_modify c f 0 y = Some y'"
    and "ctrl_addr c 0 x = Some d" and "ctrl_addr c 1 x = Some e" and "(ucast e :: u32) \<noteq> ucast d"
  shows "inactive_1 c x y'"
proof -
  have "ctrl_addr c 0 y = Some d" using assms(1,3) by (simp add: inactive_1_def ctrl_addr_def)
  with assms(2) obtain low high where "y' = wrmsr c d low high y"
    by (auto simp: ctrl_modify_def CTRL_READ_def CTRL_WRITE_def split: prod.splits Option.bind_splits)
  with inactive_wrmsr [OF assms(1,4,5)] show ?thesis by simp
qed

lemma inactive_ctr_write:
  assumes "inactive_1 c x y" and "CTR_WRITE v c i y = Some y'" and "ctr_addr c i x = Some a"
    and "ctrl_addr c 1 x = Some e" and "(ucast e :: u32) \<noteq> ucast a"
  shows "inactive_1 c x y'"
proof -
  have "ctr_addr c i y = Some a" using assms(1,3) by (simp add: inactive_1_def ctr_addr_def)
  with assms(2) have "y' = wrmsr c a (- ucast v) (- 1) y" by (auto simp: CTR_WRITE_def)
  with inactive_wrmsr [OF assms(1,4,5)] show ?thesis by simp
qed


lemma for_each_two:
  "for_each f [0..<2] x = Some z \<longleftrightarrow> (\<exists>y. f 0 x = Some y \<and> f (Suc 0) y = Some z)"
  by (auto simp: numeral_2_eq_2 split: option.splits)

lemma inactive_enable:
  assumes "inactive_1 c x y" and "ppro_enable_ctr c i y = Some y'" and "i < 2"
    and "ctr_addr c i x = Some a" and "ctrl_addr c 0 x = Some d" and "ctrl_addr c 1 x = Some e"
    and "(ucast e :: u32) \<noteq> ucast a" and "(ucast e :: u32) \<noteq> ucast d"
    and "\<And>low. \<not> bit (ppro_control (counter_config x ! 1) low) 22"
  shows "inactive_1 c x y'"
proof -
  obtain g where g: "config i y = Some g"
    using assms(2) by (cases "config i y") (simp_all add: ppro_enable_ctr_def)
  show ?thesis
  proof (cases "cc_enabled g = 0")
    case True
    with g assms(1,2) show ?thesis by (simp add: ppro_enable_ctr_def)
  next
    case False
    let ?y = "y\<lparr>ppro_reset_value := map_option (\<lambda>vs. vs[i := cc_count g]) (ppro_reset_value y)\<rparr>"
    from assms(2) g False obtain z where z: "CTR_WRITE (cc_count g) c i ?y = Some z"
      "ctrl_modify c (\<lambda>low high. (ppro_control g low, high)) i z = Some y'"
      by (auto simp: ppro_enable_ctr_def Let_def split: Option.bind_splits)
    have "inactive_1 c x ?y"
      using assms(1) by (rule inactive_same [THEN iffD2, rotated 3]) simp_all
    from inactive_ctr_write [OF this z(1) assms(4,6,7)] have iz: "inactive_1 c x z" .
    show ?thesis
    proof (cases "i = 0")
      case True
      with z(2) inactive_modify_0 [OF iz _ assms(5,6,8)] show ?thesis by simp
    next
      case False
      then have i: "i = 1" using assms(3) by simp
      have "g = counter_config x ! 1"
        using g i assms(1) by (simp add: config_def elem_def inactive_1_def split: if_splits)
      with z(2) i inactive_modify [of c "ppro_control g" z y' x] iz assms(9) show ?thesis
        by (simp add: inactive_1_def)
    qed
  qed
qed

text \<open>The setup of both counters.\<close>

lemma inactive_setup:
  assumes "ppro_setup_ctrs c x = Some x1" and "ppro_num_counters x = 2"
    and "ctr_addr c 0 x = Some a" and "ctr_addr c (Suc 0) x = Some b"
    and "ctrl_addr c 0 x = Some d" and "ctrl_addr c 1 x = Some e"
    and "(ucast e :: u32) \<noteq> ucast a" and "(ucast e :: u32) \<noteq> ucast b" and "(ucast e :: u32) \<noteq> ucast d"
    and "cc_event (counter_config x ! 1) < 2 ^ 16" and "cc_unit_mask (counter_config x ! 1) < 2 ^ 8"
  shows "inactive_1 c x x1"
proof -
  note wr = inactive_ctr_write [OF _ _ assms(3,6,7)] inactive_ctr_write [OF _ _ assms(4,6,8)]
  let ?clear = "ctrl_modify c (\<lambda>low high. (CTRL_CLEAR low, high))"
  have frame: "cpu_msrs y' = cpu_msrs y \<and> counter_config y' = counter_config y \<and>
      ppro_num_counters y' = ppro_num_counters y" if "ctrl_modify c f i y = Some y'" for f i y y'
    using that by (auto simp: ctrl_modify_def CTRL_READ_def CTRL_WRITE_def wrmsr_def
        split: prod.splits Option.bind_splits)
  from assms(1,2) obtain y0 y1 y2 where y: "?clear 0 x = Some y0" "?clear 1 y0 = Some y1"
    "for_each (CTR_WRITE 1 c) [0..<ppro_num_counters y1] y1 = Some y2"
    "for_each (ppro_enable_ctr c) [0..<ppro_num_counters y2] y2 = Some x1"
    by (auto simp: ppro_setup_ctrs_def for_each_two split: Option.bind_splits)
  have "\<not> bit (CTRL_CLEAR low) 22" for low by (simp add: CTRL_CLEAR_def bit_simps)
  from inactive_modify [OF y(2) _ _ this] frame [OF y(1)] have i1: "inactive_1 c x y1" by simp
  have n1: "ppro_num_counters y1 = 2" using frame [OF y(1)] frame [OF y(2)] assms(2) by simp
  from y(3) n1 obtain z where z: "CTR_WRITE 1 c 0 y1 = Some z" "CTR_WRITE 1 c (Suc 0) z = Some y2"
    by (auto simp: for_each_two)
  have i2: "inactive_1 c x y2" using wr(2) [OF wr(1) [OF i1 z(1)] z(2)] .
  have "ppro_num_counters y2 = 2" using z n1 by (auto simp: CTR_WRITE_def wrmsr_def)
  with y(4) obtain w where w: "ppro_enable_ctr c 0 y2 = Some w" "ppro_enable_ctr c (Suc 0) w = Some x1"
    by (auto simp: for_each_two)
  note clear = ppro_control_inactive [OF assms(10,11)]
  have "inactive_1 c x w" by (rule inactive_enable [OF i2 w(1) _ assms(3,5,6,7,9) clear]) simp
  from inactive_enable [OF this w(2) _ assms(4,5,6,8,9) clear] show ?thesis by simp
qed


end
