(* ===== verification/P4_Setup.thy ===== *)
theory P4_Setup
  imports P4_Contract "HOL-Library.Multiset"
begin

text \<open>
  What \<^verbatim>\<open>p4_setup_ctrs\<close> programs on a processor with one thread. The tables bind every ESCR to one
  counter, so no counter touches the registers of another: the order in which they are set up
  does not matter, and in the end the registers of each hold what its configuration asks for.
\<close>

section \<open>The tables\<close>

text \<open>The counter that an ESCR belongs to.\<close>

definition escr_owners :: "(u32 \<times> nat) list" where
  "escr_owners =
     [(0x3B8, 3), (0x3B9, 7), (0x3CC, 3), (0x3CD, 7), (0x3C4, 1), (0x3C5, 5), (0x3B2, 0), (0x3B3, 4),
      (0x3B6, 0), (0x3B7, 4), (0x3A8, 2), (0x3A9, 6), (0x3AE, 2), (0x3AF, 6), (0x3AA, 0), (0x3AB, 4),
      (0x3AC, 0), (0x3AD, 4), (0x3A0, 0), (0x3A1, 4), (0x3A2, 0), (0x3A3, 4), (0x3A4, 2), (0x3A5, 6),
      (0x3C0, 1), (0x3C1, 5), (0x3BC, 3), (0x3BD, 7), (0x3C2, 1), (0x3C3, 5)]"

lemma p4_escr_addrs:
  assumes "p4_layout S"
  shows "map (p4_addr S) [MSR_P4_ESCR CRU 0, MSR_P4_ESCR CRU 1, MSR_P4_ESCR CRU 2, MSR_P4_ESCR CRU 3,
      MSR_P4_ESCR TC 0, MSR_P4_ESCR TC 1, MSR_P4_ESCR BPU 0, MSR_P4_ESCR BPU 1, MSR_P4_ESCR ITLB 0,
      MSR_P4_ESCR ITLB 1, MSR_P4_ESCR DAC 0, MSR_P4_ESCR DAC 1, MSR_P4_ESCR SAAT 0, MSR_P4_ESCR SAAT 1,
      MSR_P4_ESCR MOB 0, MSR_P4_ESCR MOB 1, MSR_P4_ESCR PMH 0, MSR_P4_ESCR PMH 1, MSR_P4_ESCR BSU 0,
      MSR_P4_ESCR BSU 1, MSR_P4_ESCR FSB 0, MSR_P4_ESCR FSB 1, MSR_P4_ESCR FIRM 0, MSR_P4_ESCR FIRM 1,
      MSR_P4_ESCR MS 0, MSR_P4_ESCR MS 1, MSR_P4_ESCR RAT 0, MSR_P4_ESCR RAT 1, MSR_P4_ESCR TBPU 0,
      MSR_P4_ESCR TBPU 1] = map fst escr_owners"
  using assms by (simp add: p4_layout_def p4_documented_def escr_owners_def)

definition row_ok :: "p4_event_binding \<Rightarrow> bool" where
  "row_ok ev \<longleftrightarrow> escr_select ev AND 7 = escr_select ev \<and> event_select ev AND 0x3f = event_select ev \<and>
     distinct (map escr_counter (bindings ev)) \<and>
     (\<forall>b \<in> set (bindings ev). escr_counter b = 0 \<or>
        (\<exists>k. map_of escr_owners (escr_address b) = Some k \<and> escr_counter b = push_bit k 1))"

lemma p4_rows:
  assumes "p4_layout S" and "ev \<in> set (p4_events S)"
  shows "row_ok ev"
proof -
  have "\<forall>ev \<in> set (p4_events S). row_ok ev"
    using p4_escr_addrs [OF assms(1)]
    by (simp add: p4_events_defs event_binding_def binding_def no_binding_def row_ok_def
        escr_owners_def p4_ctr_defs)
  with assms(2) show ?thesis by blast
qed

lemma escr_owner_range:
  "map_of escr_owners a = Some k \<Longrightarrow> 0x3A0 \<le> a \<and> a \<le> 0x3CD \<and> k < 8"
  by (drule map_of_SomeD) (auto simp: escr_owners_def)


text \<open>The binding that \<^verbatim>\<open>pmc_setup_one_p4_counter\<close> finds.\<close>

definition p4_bound :: "p4_hw \<Rightarrow> nat \<Rightarrow> op_counter_config \<Rightarrow> (p4_event_binding \<times> p4_escr_binding) option" where
  "p4_bound S i g =
     (if cc_event g \<le> 0 \<or> of_nat NUM_EVENTS < cc_event g then None
      else let ev = p4_events S ! unat (cc_event g - 1)
           in map_option (Pair ev) (find (\<lambda>b. escr_counter b AND push_bit i 1 \<noteq> 0) (bindings ev)))"

lemma event_index:
  assumes "\<not> (cc_event g \<le> 0 \<or> of_nat NUM_EVENTS < cc_event g)"
  shows "unat (cc_event g - 1) < length (p4_events S)"
proof -
  have "cc_event g \<noteq> 0" "unat (cc_event g) \<le> 39"
    using assms by (simp_all add: p4_sizes word_less_nat_alt)
  then show ?thesis by (simp add: unat_minus_one p4_events_defs)
qed

lemma single_bits:
  assumes "(push_bit k 1 :: u32) AND push_bit i 1 \<noteq> 0"
  shows "k = i"
proof -
  obtain n where "bit ((push_bit k 1 :: u32) AND push_bit i 1) n"
    using assms by (metis bit_0_eq bit_eqI bot_apply bot_bool_def)
  then show ?thesis by (auto simp: bit_and_iff bit_push_bit_iff bit_exp_iff)
qed

lemma p4_bound_owner:
  assumes "p4_layout S" and "p4_bound S i g = Some (ev, b)"
  shows "map_of escr_owners (escr_address b) = Some i" "escr_counter b = push_bit i 1" "row_ok ev"
    "ev = p4_events S ! unat (cc_event g - 1)" "b \<in> set (bindings ev)"
proof -
  have ev: "\<not> (cc_event g \<le> 0 \<or> of_nat NUM_EVENTS < cc_event g)"
    "ev = p4_events S ! unat (cc_event g - 1)"
    "find (\<lambda>b. escr_counter b AND push_bit i 1 \<noteq> 0) (bindings ev) = Some b"
    using assms(2) by (auto simp: p4_bound_def Let_def split: if_splits)
  have "ev \<in> set (p4_events S)" using ev(2) event_index [OF ev(1)] by simp
  then show row: "row_ok ev" by (rule p4_rows [OF assms(1)])
  have b: "b \<in> set (bindings ev)" "escr_counter b AND push_bit i 1 \<noteq> 0"
    using ev(3) by (auto simp: find_Some_iff)
  then obtain k where k: "map_of escr_owners (escr_address b) = Some k" "escr_counter b = push_bit k 1"
    using row by (auto simp: row_ok_def)
  have "k = i" by (rule single_bits [OF b(2) [unfolded k(2)]])
  with k show "map_of escr_owners (escr_address b) = Some i" "escr_counter b = push_bit i 1" by simp_all
  show "ev = p4_events S ! unat (cc_event g - 1)" by (rule ev(2))
  show "b \<in> set (bindings ev)" by (rule b(1))
qed

lemma p4_boundI:
  assumes "p4_layout S" and "1 \<le> cc_event g" and "cc_event g \<le> of_nat NUM_EVENTS"
    and "ev = p4_events S ! unat (cc_event g - 1)" and "b \<in> set (bindings ev)"
    and "escr_counter b = push_bit i 1" and "i < 8"
  shows "p4_bound S i g = Some (ev, b)"
proof -
  have range: "\<not> (cc_event g \<le> 0 \<or> of_nat NUM_EVENTS < cc_event g)"
    using assms(2,3) by (auto simp: not_less)
  have "ev \<in> set (p4_events S)" using assms(4) event_index [OF range] by simp
  note row = p4_rows [OF assms(1) this]
  let ?P = "\<lambda>b. escr_counter b AND push_bit i 1 \<noteq> 0"
  have "(push_bit i 1 :: u32) \<noteq> 0" using assms(7) by simp
  then have "?P b" using assms(6) by simp
  then obtain b' where b': "find ?P (bindings ev) = Some b'"
    using assms(5) by (cases "find ?P (bindings ev)") (auto simp: find_None_iff)
  then have "p4_bound S i g = Some (ev, b')" using range assms(4) by (simp add: p4_bound_def Let_def)
  moreover from p4_bound_owner [OF assms(1) this] assms(5,6) row have "b' = b"
    unfolding row_ok_def distinct_map inj_on_def by metis
  ultimately show ?thesis by simp
qed

section \<open>One counter\<close>

text \<open>The registers of counter \<open>i\<close>.\<close>

abbreviation cccr_of :: "p4_hw \<Rightarrow> nat \<Rightarrow> u32" where
  "cccr_of S i \<equiv> cccr_address (p4_counters S ! i)"

abbreviation perfctr_of :: "p4_hw \<Rightarrow> nat \<Rightarrow> u32" where
  "perfctr_of S i \<equiv> counter_address (p4_counters S ! i)"

lemma p4_counter_addrs:
  assumes "p4_layout S"
  shows "map counter_address (p4_counters S) = [0x300, 0x304, 0x308, 0x310, 0x302, 0x306, 0x30A, 0x311]"
    "map cccr_address (p4_counters S) = [0x360, 0x364, 0x368, 0x370, 0x362, 0x366, 0x36A, 0x371]"
    "length (p4_counters S) = 8"
proof -
  have "map (p4_addr S) [MSR_P4_PERFCTR BPU 0, MSR_P4_PERFCTR MS 0, MSR_P4_PERFCTR FLAME 0,
      MSR_P4_PERFCTR IQ 4, MSR_P4_PERFCTR BPU 2, MSR_P4_PERFCTR MS 2, MSR_P4_PERFCTR FLAME 2,
      MSR_P4_PERFCTR IQ 5] = [0x300, 0x304, 0x308, 0x310, 0x302, 0x306, 0x30A, 0x311]"
    "map (p4_addr S) [MSR_P4_CCCR BPU 0, MSR_P4_CCCR MS 0, MSR_P4_CCCR FLAME 0,
      MSR_P4_CCCR IQ 4, MSR_P4_CCCR BPU 2, MSR_P4_CCCR MS 2, MSR_P4_CCCR FLAME 2, MSR_P4_CCCR IQ 5] =
      [0x360, 0x364, 0x368, 0x370, 0x362, 0x366, 0x36A, 0x371]"
    using assms by (simp_all add: p4_layout_def p4_documented_def)
  then show "map counter_address (p4_counters S) = [0x300, 0x304, 0x308, 0x310, 0x302, 0x306, 0x30A, 0x311]"
    "map cccr_address (p4_counters S) = [0x360, 0x364, 0x368, 0x370, 0x362, 0x366, 0x36A, 0x371]"
    "length (p4_counters S) = 8"
    by (simp_all add: p4_counters_def counter_binding_def)
qed

lemma p4_counter_distinct:
  assumes "p4_layout S" and "i < 8"
  shows "perfctr_of S i \<le> 0x311" "0x360 \<le> cccr_of S i" "cccr_of S i \<le> 0x371"
    "j < 8 \<Longrightarrow> perfctr_of S i = perfctr_of S j \<longleftrightarrow> i = j"
    "j < 8 \<Longrightarrow> cccr_of S i = cccr_of S j \<longleftrightarrow> i = j"
proof -
  note a = p4_counter_addrs [OF assms(1)]
  have "i < length (p4_counters S)" using assms(2) a(3) by simp
  then have "perfctr_of S i \<in> set (map counter_address (p4_counters S))"
    "cccr_of S i \<in> set (map cccr_address (p4_counters S))" by simp_all
  then show "perfctr_of S i \<le> 0x311" "0x360 \<le> cccr_of S i" "cccr_of S i \<le> 0x371"
    unfolding a(1,2) by auto
  have "distinct (map counter_address (p4_counters S))" "distinct (map cccr_address (p4_counters S))"
    unfolding a(1,2) by simp_all
  then show "j < 8 \<Longrightarrow> perfctr_of S i = perfctr_of S j \<longleftrightarrow> i = j"
    "j < 8 \<Longrightarrow> cccr_of S i = cccr_of S j \<longleftrightarrow> i = j"
    using assms(2) a(3) nth_eq_iff_index_eq [of "map counter_address (p4_counters S)" i j]
      nth_eq_iff_index_eq [of "map cccr_address (p4_counters S)" i j] by simp_all
qed


lemma p4_apart:
  assumes "p4_layout S" and "i < 8" and "j < 8"
  shows "perfctr_of S i \<noteq> cccr_of S j" "cccr_of S j \<noteq> perfctr_of S i"
    "map_of escr_owners a = Some k \<Longrightarrow> a \<noteq> perfctr_of S i"
    "map_of escr_owners a = Some k \<Longrightarrow> a \<noteq> cccr_of S i"
proof -
  note i = p4_counter_distinct [OF assms(1,2)] and j = p4_counter_distinct [OF assms(1,3)]
  show ne: "perfctr_of S i \<noteq> cccr_of S j"
    using order.trans [of "0x360" "cccr_of S j" "0x311"] i(1) j(2) by auto
  then show "cccr_of S j \<noteq> perfctr_of S i" by simp
  show "map_of escr_owners a = Some k \<Longrightarrow> a \<noteq> perfctr_of S i"
    using order.trans [of "0x3A0" a "0x311"] i(1) escr_owner_range [of a k] by auto
  show "map_of escr_owners a = Some k \<Longrightarrow> a \<noteq> cccr_of S i"
    using order.trans [of "0x3A0" a "0x371"] i(3) escr_owner_range [of a k] by auto
qed

text \<open>What enabling counter \<open>i\<close> does to the registers of its CPU, and to the state.\<close>

definition change :: "u32 \<Rightarrow> (u32 \<times> u32 \<Rightarrow> u32 \<times> u32) \<Rightarrow> (u32 \<Rightarrow> u32 \<times> u32) \<Rightarrow> u32 \<Rightarrow> u32 \<times> u32" where
  "change a f m = m(a := f (m a))"

lemma change_apply [simp]: "change a f m a = f (m a)" "b \<noteq> a \<Longrightarrow> change a f m b = m b"
  by (simp_all add: change_def)

abbreviation changes ::
  "(u32 \<times> (u32 \<times> u32 \<Rightarrow> u32 \<times> u32)) list \<Rightarrow> (u32 \<Rightarrow> u32 \<times> u32) \<Rightarrow> u32 \<Rightarrow> u32 \<times> u32" where
  "changes us \<equiv> fold (\<lambda>(a, f). change a f) us"

lemma change_changes: "a \<notin> set (map fst us) \<Longrightarrow> change a f (changes us m) = changes us (change a f m)"
proof (induction us arbitrary: m)
  case (Cons u us)
  obtain b g where u: "u = (b, g)" by (cases u)
  have "change a f (change b g m) = change b g (change a f m)"
    using Cons.prems u by (auto simp: change_def fun_upd_twist)
  with Cons.IH [of "change b g m"] Cons.prems u show ?case by simp
qed simp

lemma changes_commute:
  "set (map fst us) \<inter> set (map fst vs) = {} \<Longrightarrow> changes us (changes vs m) = changes vs (changes us m)"
proof (induction us arbitrary: m)
  case (Cons u us)
  obtain a f where u: "u = (a, f)" by (cases u)
  have "change a f (changes vs m) = changes vs (change a f m)"
    using Cons.prems u by (intro change_changes) auto
  with Cons.IH [of "change a f m"] Cons.prems u show ?case by simp
qed simp

definition p4_changes ::
  "p4_hw \<Rightarrow> nat \<Rightarrow> op_counter_config \<Rightarrow> (u32 \<times> (u32 \<times> u32 \<Rightarrow> u32 \<times> u32)) list" where
  "p4_changes S i g =
     (case p4_bound S i g of
        None \<Rightarrow> []
      | Some (ev, b) \<Rightarrow> [(escr_address b, apfst (p4_escr 0 g ev)), (cccr_of S i, apfst (p4_cccr 0 ev))]) @
     [(perfctr_of S i, \<lambda>_. (- ucast (cc_count g), - 1))]"

definition p4_enabled :: "p4_hw \<Rightarrow> nat \<Rightarrow> nat \<Rightarrow> x86_state \<Rightarrow> x86_state" where
  "p4_enabled S c i x =
     (let g = counter_config x ! i
      in if cc_enabled g \<noteq> 0
         then x\<lparr>p4_reset_value := (p4_reset_value x)[i := cc_count g],
                msr := (msr x)(c := changes (p4_changes S i g) (msr x c))\<rparr>
         else x\<lparr>p4_reset_value := (p4_reset_value x)[i := 0]\<rparr>)"

lemma p4_enabled_frame [simp]:
  "counter_config (p4_enabled S c i x) = counter_config x"
  "p4_num_counters (p4_enabled S c i x) = p4_num_counters x"
  by (simp_all add: p4_enabled_def Let_def)

lemma msr_double_ucast [simp]: "(ucast (ucast a :: ulong) :: u32) = (a :: u32)"
  by simp

lemma modify_msr_eq:
  "modify_msr c f a x = x\<lparr>msr := (msr x)(c := change a (apfst f) (msr x c))\<rparr>"
  by (simp add: modify_msr_def rdmsr_def wrmsr_def change_def split: prod.split)

lemma p4_ctr_nth: "p4_layout S \<Longrightarrow> i < 8 \<Longrightarrow> p4_ctr S i = Some (p4_counters S ! i)"
  by (simp add: p4_ctr_def elem_def p4_counter_addrs(3))

lemma p4_setup_one_eq:
  assumes "p4_plain S" and "i < 8" and "i < length (counter_config x)"
  shows "pmc_setup_one_p4_counter S c i x = Some (case p4_bound S i (counter_config x ! i) of
      None \<Rightarrow> x
    | Some (ev, b) \<Rightarrow> modify_msr c (p4_cccr 0 ev) (cccr_of S i)
        (modify_msr c (p4_escr 0 (counter_config x ! i) ev) (escr_address b) x))"
proof -
  let ?g = "counter_config x ! i"
  have g: "config i x = Some ?g" using assms(3) by (simp add: config_def elem_def)
  have l: "p4_layout S" using assms(1) by (simp add: p4_plain_def)
  show ?thesis
  proof (cases "cc_event ?g \<le> 0 \<or> of_nat NUM_EVENTS < cc_event ?g")
    case True
    with g show ?thesis by (simp add: pmc_setup_one_p4_counter_def p4_bound_def)
  next
    case False
    with event_index [OF False] g assms(1) p4_ctr_nth [OF l assms(2)] show ?thesis
      by (simp add: pmc_setup_one_p4_counter_def p4_bound_def Let_def elem_def VIRT_CTR_def
          cccr_modify_def split: option.split)
  qed
qed

lemma p4_enable_eq:
  assumes "p4_plain S" and "i < 8" and "i < length (counter_config x)"
  shows "p4_enable_ctr S c i x = Some (p4_enabled S c i x)"
proof -
  let ?g = "counter_config x ! i" and ?x = "p4_set_reset i (cc_count (counter_config x ! i)) x"
  have g: "config i x = Some ?g" using assms(3) by (simp add: config_def elem_def)
  have l: "p4_layout S" using assms(1) by (simp add: p4_plain_def)
  have "i < length (counter_config ?x)" "counter_config ?x = counter_config x"
    using assms(3) by (simp_all add: p4_set_reset_def)
  with p4_setup_one_eq [OF assms(1,2) this(1), of c] g assms(1) p4_ctr_nth [OF l assms(2)]
  show ?thesis
    by (cases "p4_bound S i ?g")
      (auto simp: p4_enable_ctr_def p4_enabled_def p4_changes_def Let_def P4_CTR_WRITE_def wrmsr_def
        modify_msr_eq p4_set_reset_def VIRT_CTR_def change_def)
qed

section \<open>All counters\<close>

lemma p4_changes_apart:
  assumes "p4_layout S" and "i < 8" and "j < 8" and "i \<noteq> j"
  shows "set (map fst (p4_changes S i g)) \<inter> set (map fst (p4_changes S j h)) = {}"
proof -
  have regs: "perfctr_of S i \<noteq> perfctr_of S j" "cccr_of S i \<noteq> cccr_of S j"
    "perfctr_of S i \<noteq> cccr_of S j" "perfctr_of S j \<noteq> cccr_of S i"
    using p4_counter_distinct(4,5) [OF assms(1-3)] p4_apart(1) [OF assms(1-3)]
      p4_apart(1) [OF assms(1,3,2)] assms(4) by auto
  have set: "set (map fst (p4_changes S k g)) \<subseteq>
      {perfctr_of S k, cccr_of S k} \<union> {a. map_of escr_owners a = Some k}" for k g
    using p4_bound_owner(1) [OF assms(1), of k g]
    by (cases "p4_bound S k g") (auto simp: p4_changes_def)
  have "a \<noteq> perfctr_of S i \<and> a \<noteq> cccr_of S i \<and> a \<noteq> perfctr_of S j \<and> a \<noteq> cccr_of S j"
    if "map_of escr_owners a = Some k" for a k
    using p4_apart(3,4) [OF assms(1,2,2) that] p4_apart(3,4) [OF assms(1,3,3) that] by simp
  then have "({perfctr_of S i, cccr_of S i} \<union> {a. map_of escr_owners a = Some i}) \<inter>
      ({perfctr_of S j, cccr_of S j} \<union> {a. map_of escr_owners a = Some j}) = {}"
    using regs regs [symmetric] assms(4) by auto
  with set [of i g] set [of j h] show ?thesis by blast
qed

lemma p4_enabled_commute:
  assumes "p4_layout S" and "i < 8" and "j < 8"
  shows "p4_enabled S c i (p4_enabled S c j x) = p4_enabled S c j (p4_enabled S c i x)"
proof (cases "i = j")
  case False
  note changes_commute [OF p4_changes_apart [OF assms False]]
  with False show ?thesis by (simp add: p4_enabled_def Let_def list_update_swap)
qed simp

lemma p4_enable_loop:
  assumes "p4_plain S" and "set js \<subseteq> {..<8}" and "8 \<le> length (counter_config x)"
  shows "for_each (p4_enable_ctr S c) js x = Some (fold (p4_enabled S c) js x)"
  using assms(2,3)
proof (induction js arbitrary: x)
  case (Cons i js)
  then have "p4_enable_ctr S c i x = Some (p4_enabled S c i x)"
    using p4_enable_eq [OF assms(1)] by simp
  with Cons.IH [of "p4_enabled S c i x"] Cons.prems show ?case by simp
qed simp

lemma p4_enabled_permute:
  assumes "p4_layout S" and "set js \<subseteq> {..<8}" and "mset js = mset js'"
  shows "fold (p4_enabled S c) js = fold (p4_enabled S c) js'"
proof (rule fold_multiset_equiv [OF _ assms(3)])
  fix i j assume "i \<in> set js" "j \<in> set js"
  then have "i < 8" "j < 8" using assms(2) by auto
  from p4_enabled_commute [OF assms(1) this]
  show "p4_enabled S c i \<circ> p4_enabled S c j = p4_enabled S c j \<circ> p4_enabled S c i"
    by (simp add: fun_eq_iff)
qed

text \<open>C16: on a Pentium 4 with one thread the counters are independent: enabling them in any order
  gives the same registers and reset values. (Each event selection register of the event
  table belongs to one counter.)\<close>

theorem p4_setup_order_irrelevant:
  assumes "p4_wf S env H x" and "set js \<subseteq> {..<8}" and "mset js = mset js'"
  shows "for_each (p4_enable_ctr S c) js x = for_each (p4_enable_ctr S c) js' x"
proof -
  have S: "p4_plain S" "p4_layout S" "8 \<le> length (counter_config x)"
    using assms(1) by (simp_all add: p4_wf_def p4_plain_def OP_MAX_COUNTER_def)
  have "set js' \<subseteq> {..<8}" using assms(2,3) by (metis set_mset_mset)
  with p4_enable_loop [OF S(1) assms(2) S(3)] p4_enable_loop [OF S(1) _ S(3)]
    p4_enabled_permute [OF S(2) assms(2,3)] show ?thesis by simp
qed


section \<open>The fields\<close>

lemma p4_masks:
  "(0x3f :: u32) = mask 6" "(0xffff :: u32) = mask 16" "(0xffff :: ulong) = mask 16" "(7 :: u32) = mask 3"
  "ESCR_RESERVED_BITS = push_bit 31 1 OR mask 2"
  "CCCR_RESERVED_BITS = push_bit 27 (mask 3) OR push_bit 16 (mask 2) OR mask 12"
  "(0x00030000 :: u32) = push_bit 16 (mask 2)"
  by (simp_all add: mask_eq_exp_minus_1 ESCR_RESERVED_BITS_def CCCR_RESERVED_BITS_def)

lemmas escr_simps = p4_escr_def Let_def ESCR_CLEAR_def ESCR_SET_OS_0_def ESCR_SET_USR_0_def
  ESCR_SET_EVENT_MASK_def ESCR_SET_EVENT_SELECT_def

lemmas cccr_simps = p4_cccr_def Let_def CCCR_CLEAR_def CCCR_SET_REQUIRED_BITS_def
  CCCR_SET_ESCR_SELECT_def CCCR_SET_PMI_OVF_0_def

lemmas word_bits = bit_or_iff bit_and_iff bit_push_bit_iff bit_drop_bit_eq o_apply bit_mask_iff
  bit_1_iff bit_unsigned_iff possible_bit_word

lemma p4_escr_fields:
  "drop_bit 25 (p4_escr 0 g ev e) AND 0x3f = event_select ev AND 0x3f"
  "drop_bit 9 (p4_escr 0 g ev e) AND 0xffff = ucast (cc_unit_mask g) AND 0xffff"
  "bit (p4_escr 0 g ev e) 2 = bit (cc_user g) 0"
  "bit (p4_escr 0 g ev e) 3 = bit (cc_kernel g) 0"
  unfolding escr_simps p4_masks if_P [OF refl]
  subgoal by (rule bit_eqI, simp only: word_bits, auto)
  subgoal by (rule bit_eqI, simp only: word_bits, auto)
  by (simp only: word_bits, auto)+

lemma p4_cccr_fields:
  "drop_bit 13 (p4_cccr 0 ev v) AND 7 = escr_select ev AND 7"
  "\<not> bit (p4_cccr 0 ev v) 12" "bit (p4_cccr 0 ev v) 26"
  unfolding cccr_simps p4_masks if_P [OF refl]
  subgoal by (rule bit_eqI, simp only: word_bits, auto)
  by (simp only: word_bits, auto)+

text \<open>The registers of counter \<open>i\<close> after it has been enabled, and after all have been.\<close>

lemma p4_enabled_regs:
  assumes "p4_layout S" and "i < 8" and "g = counter_config x ! i" and "cc_enabled g \<noteq> 0"
    and "p4_bound S i g = Some (ev, b)"
  shows "msr (p4_enabled S c i x) c (escr_address b) = apfst (p4_escr 0 g ev) (msr x c (escr_address b))"
    "msr (p4_enabled S c i x) c (cccr_of S i) = apfst (p4_cccr 0 ev) (msr x c (cccr_of S i))"
    "msr (p4_enabled S c i x) c (perfctr_of S i) = (- ucast (cc_count g), - 1)"
  using p4_apart(3,4) [OF assms(1,2,2) p4_bound_owner(1) [OF assms(1,5)]] p4_apart(1) [OF assms(1,2,2)]
    assms(3-5)
  by (simp_all add: p4_enabled_def p4_changes_def Let_def)

lemma p4_setup_last:
  assumes "p4_wf S env H x" and "p4_ready S c x" and "i < 8"
    and "MISC_PMC_ENABLED_P (fst (rdmsr c (ucast (MSR_IA32_MISC_ENABLE S)) x))"
  shows "\<exists>y. p4_setup_ctrs S c x = Some (p4_enabled S c i y) \<and> counter_config y = counter_config x"
proof -
  have S: "p4_plain S" "p4_layout S" using assms(1) by (simp_all add: p4_wf_def p4_plain_def)
  from p4_setup_clears [OF assms(1,2,4)] obtain y where
    y: "p4_setup_ctrs S c x = for_each (p4_enable_ctr S c) [0..<8] y" "p4_keeps S env H c x y" by blast
  have cfg: "counter_config y = counter_config x" using y(2) by (simp add: p4_keeps_def only_regs_def)
  have len: "8 \<le> length (counter_config y)"
    using y(2) by (simp add: p4_keeps_def p4_wf_def OP_MAX_COUNTER_def)
  let ?js = "remove1 i [0..<8] @ [i]"
  have "mset [0..<8] = mset ?js" "set [0..<8] \<subseteq> {..<8 :: nat}" using assms(3) by auto
  then have "p4_setup_ctrs S c x = Some (fold (p4_enabled S c) ?js y)"
    using p4_enable_loop [OF S(1) _ len, of "[0..<8]"] p4_enabled_permute [OF S(2), of "[0..<8]" ?js] y(1)
    by (simp del: upt_Suc)
  moreover have "counter_config (fold (p4_enabled S c) js y) = counter_config y" for js
    by (induction js arbitrary: y) simp_all
  ultimately show ?thesis using cfg by (auto simp del: upt_Suc)
qed

text \<open>C15: after setup on a Pentium 4 with one thread, the registers of every enabled counter whose
  event the table binds to it ask for what the configuration says: the event's class and
  number, the unit mask, user and kernel mode, an interrupt on overflow, the counter \<open>count\<close>
  events before its overflow, and not counting yet.\<close>

theorem p4_setup_programs_counters:
  assumes "p4_wf S env H x" and "p4_ready S c x" and "i < 8"
    and "MISC_PMC_ENABLED_P (fst (rdmsr c (ucast (MSR_IA32_MISC_ENABLE S)) x))"
    and "g = counter_config x ! i" and "cc_enabled g \<noteq> 0"
    and "1 \<le> cc_event g" and "cc_event g \<le> of_nat NUM_EVENTS"
    and "ev = p4_events S ! unat (cc_event g - 1)" and "b \<in> set (bindings ev)"
    and "escr_counter b = push_bit i 1"
  shows "\<exists>x' escr cccr. p4_setup_ctrs S c x = Some x' \<and>
    escr = fst (rdmsr c (ucast (escr_address b)) x') \<and>
    cccr = fst (rdmsr c (ucast (cccr_address (p4_counters S ! i))) x') \<and>
    drop_bit 13 cccr AND 7 = escr_select ev \<and> drop_bit 25 escr AND 0x3f = event_select ev \<and>
    drop_bit 9 escr AND 0xffff = ucast (cc_unit_mask g) AND 0xffff \<and>
    bit escr 2 = bit (cc_user g) 0 \<and> bit escr 3 = bit (cc_kernel g) 0 \<and>
    bit cccr 26 \<and> \<not> bit cccr 12 \<and>
    rdmsr c (ucast (counter_address (p4_counters S ! i))) x' = (- ucast (cc_count g), - 1)"
proof -
  have S: "p4_layout S" using assms(1) by (simp add: p4_wf_def p4_plain_def)
  note bound = p4_boundI [OF S assms(7-11,3)]
  from p4_setup_last [OF assms(1-4)] obtain y where
    y: "p4_setup_ctrs S c x = Some (p4_enabled S c i y)" "counter_config y = counter_config x" by blast
  have row: "row_ok ev" by (rule p4_bound_owner(3) [OF S bound])
  have "g = counter_config y ! i" using assms(5) y(2) by simp
  from p4_enabled_regs [OF S assms(3) this assms(6) bound] y(1) row
    p4_escr_fields [of g ev] p4_cccr_fields [of ev]
  show ?thesis by (simp add: rdmsr_def row_ok_def)
qed

end
