(* ===== verification/Oprofile_Files.thy ===== *)
theory Oprofile_Files
  imports Oprofilefs Backend
begin

text \<open>
  \<^verbatim>\<open>driver/oprofile_files.c\<close>: the handlers behind the control files, which call into
  \<^verbatim>\<open>driver/oprof.c\<close>, and the creation of the files. In the write handlers \<open>stack\<close> is the content
  of the uninitialised local variable that receives the number.
\<close>

section \<open>Numbers shown\<close>

definition depth_read ::
  "read_from_buffer \<Rightarrow> ('h, 'r) driver \<Rightarrow> nat \<Rightarrow> nat \<Rightarrow> errno + (string \<times> nat)" where
  "depth_read read_buf d count off = oprofilefs_ulong_to_user read_buf (oprofile_backtrace_depth d) count off"

definition pointer_size_read :: "read_from_buffer \<Rightarrow> nat \<Rightarrow> nat \<Rightarrow> errno + (string \<times> nat)" where
  "pointer_size_read read_buf count off = oprofilefs_ulong_to_user read_buf 8 count off"

definition cpu_type_read ::
  "read_from_buffer \<Rightarrow> ('h, 'r) driver \<Rightarrow> nat \<Rightarrow> nat \<Rightarrow> errno + (string \<times> nat)" where
  "cpu_type_read read_buf d count off = oprofilefs_str_to_user read_buf (oprofile_cpu_type d) count off"

definition enable_read ::
  "read_from_buffer \<Rightarrow> ('h, 'r) driver \<Rightarrow> nat \<Rightarrow> nat \<Rightarrow> errno + (string \<times> nat)" where
  "enable_read read_buf d count off =
     oprofilefs_ulong_to_user read_buf (of_bool (oprofile_started d)) count off"

definition debug_read ::
  "read_from_buffer \<Rightarrow> ('h, 'r) driver \<Rightarrow> nat \<Rightarrow> nat \<Rightarrow> errno + (string \<times> nat)" where
  "debug_read read_buf d count off =
     oprofilefs_ulong_to_user read_buf (of_int (rrprofile_debug d)) count off"

definition timer_read ::
  "read_from_buffer \<Rightarrow> ('h, 'r) driver \<Rightarrow> nat \<Rightarrow> nat \<Rightarrow> errno + (string \<times> nat)" where
  "timer_read read_buf d count off =
     oprofilefs_ulong_to_user read_buf (oprofile_timer_count (kern d)) count off"

text \<open>\<open>hz\<close> and \<open>user_hz\<close> are the kernel's \<^verbatim>\<open>CONFIG_HZ\<close> and \<^verbatim>\<open>USER_HZ\<close>.\<close>

definition timer_freq_read ::
  "read_from_buffer \<Rightarrow> ulong \<Rightarrow> nat \<Rightarrow> nat \<Rightarrow> errno + (string \<times> nat)" where
  "timer_freq_read read_buf hz count off = oprofilefs_ulong_to_user read_buf hz count off"

definition user_freq_read ::
  "read_from_buffer \<Rightarrow> ulong \<Rightarrow> nat \<Rightarrow> nat \<Rightarrow> errno + (string \<times> nat)" where
  "user_freq_read read_buf user_hz count off = oprofilefs_ulong_to_user read_buf user_hz count off"

text \<open>\<open>policy\<close> is the maximal frequency of \<^verbatim>\<open>cpufreq_cpu_get(0)\<close>, if there is a policy.\<close>

definition cpu_khz_read ::
  "read_from_buffer \<Rightarrow> u32 option \<Rightarrow> u32 \<Rightarrow> nat \<Rightarrow> nat \<Rightarrow> errno + (string \<times> nat)" where
  "cpu_khz_read read_buf policy cpu_khz count off =
     (let freq = (case policy of None \<Rightarrow> cpu_khz | Some max_freq \<Rightarrow> max_freq)
      in oprofilefs_ulong_to_user read_buf (ucast freq) count off)"

definition num_counters_read ::
  "read_from_buffer \<Rightarrow> ('h, 'r) driver \<Rightarrow> nat \<Rightarrow> nat \<Rightarrow> errno + (string \<times> nat)" where
  "num_counters_read read_buf d count off =
     oprofilefs_ulong_to_user read_buf (ucast (oprofile_num_counters d)) count off"

definition adapt_read ::
  "read_from_buffer \<Rightarrow> ('h, 'r) driver \<Rightarrow> nat \<Rightarrow> nat \<Rightarrow> errno + (string \<times> nat)" where
  "adapt_read read_buf d count off =
     oprofilefs_ulong_to_user read_buf (oprofile_adapt_value d) count off"

section \<open>Numbers written\<close>

definition depth_write ::
  "(string \<Rightarrow> ulong) \<Rightarrow> ulong \<Rightarrow> write_request \<Rightarrow> ('h, 'r) driver \<Rightarrow>
   (errno + nat) \<times> ('h, 'r) driver" where
  "depth_write strtoul stack w d =
     (if w_offset w \<noteq> 0 then (Inl EINVAL, d)
      else if op_backtrace (oprofile_ops d) = None then (Inl EINVAL, d)
      else if buffer_opened (evb (kern d)) then (Inl EINVAL, d)
      else
        let (r, val) = oprofilefs_ulong_from_user strtoul (w_user w) (w_count w) stack
        in case r of
             Inl err \<Rightarrow> (Inl err, d)
           | Inr _ \<Rightarrow>
               let (r, d) = oprofile_set_ulong (\<lambda>v d. d\<lparr>oprofile_backtrace_depth := v\<rparr>) val d
               in (count_or_error r (w_count w), d))"

definition enable_write ::
  "kernel_env \<Rightarrow> (string \<Rightarrow> ulong) \<Rightarrow> ulong \<Rightarrow> write_request \<Rightarrow> ('h, 'r) driver \<Rightarrow>
   ((errno + nat) \<times> ('h, 'r) driver) option" where
  "enable_write env strtoul stack w d =
     (if w_offset w \<noteq> 0 then Some (Inl EINVAL, d)
      else
        let (r, val) = oprofilefs_ulong_from_user strtoul (w_user w) (w_count w) stack
        in case r of
             Inl err \<Rightarrow> Some (Inl err, d)
           | Inr _ \<Rightarrow>
               if val \<noteq> 0
               then do { (r, d) \<leftarrow> oprofile_start env d;
                         Some (count_or_error r (w_count w), d) }
               else do { d \<leftarrow> oprofile_stop env d;
                         Some (Inr (w_count w), d) })"

definition dump_write ::
  "write_request \<Rightarrow> ('h, 'r) driver \<Rightarrow> (errno + nat) \<times> ('h, 'r) driver" where
  "dump_write w d = (Inr (w_count w), on_kern (on_evb wake_up_buffer_waiter) d)"

definition debug_write ::
  "(string \<Rightarrow> ulong) \<Rightarrow> ulong \<Rightarrow> write_request \<Rightarrow> ('h, 'r) driver \<Rightarrow>
   (errno + nat) \<times> ('h, 'r) driver" where
  "debug_write strtoul stack w d =
     (if w_offset w \<noteq> 0 then (Inl EINVAL, d)
      else
        let (r, val) = oprofilefs_ulong_from_user strtoul (w_user w) (w_count w) stack
        in case r of
             Inl err \<Rightarrow> (Inl err, d)
           | Inr _ \<Rightarrow> (Inr (w_count w), d\<lparr>rrprofile_debug := (if val \<noteq> 0 then 1 else 0)\<rparr>))"

definition timer_write ::
  "(string \<Rightarrow> ulong) \<Rightarrow> ulong \<Rightarrow> write_request \<Rightarrow> ('h, 'r) driver \<Rightarrow>
   (errno + nat) \<times> ('h, 'r) driver" where
  "timer_write strtoul stack w d =
     (if w_offset w \<noteq> 0 then (Inl EINVAL, d)
      else if buffer_opened (evb (kern d)) then (Inl EINVAL, d)
      else
        let (r, val) = oprofilefs_ulong_from_user strtoul (w_user w) (w_count w) stack
        in case r of
             Inl err \<Rightarrow> (Inl err, d)
           | Inr _ \<Rightarrow>
               let (r, d) = oprofile_set_oprofile_timer_count val d
               in (count_or_error r (w_count w), d))"

definition adapt_write ::
  "kernel_env \<Rightarrow> write_request \<Rightarrow> ('h, 'r) driver \<Rightarrow> ((errno + nat) \<times> ('h, 'r) driver) option" where
  "adapt_write env w d =
     do { (r, d) \<leftarrow> oprofile_adapt env d;
          Some (count_or_error r (w_count w), d) }"

section \<open>Creating the files\<close>

definition BUFFER_SIZE_DEFAULT :: ulong where "BUFFER_SIZE_DEFAULT = 131072"
definition CPU_BUFFER_SIZE_DEFAULT :: ulong where "CPU_BUFFER_SIZE_DEFAULT = 8192"
definition BUFFER_WATERSHED_DEFAULT :: ulong where "BUFFER_WATERSHED_DEFAULT = 32768"

text \<open>
  \<^verbatim>\<open>oprofile_create_files\<close> with \<^verbatim>\<open>CONFIG_X86_LOCAL_APIC\<close>: the sizes are reset to their defaults
  at every mount, and the results of the single creations are ignored. The files of the back
  end are listed by their paths; \<^verbatim>\<open>oprofile_time_slice\<close> is not used in this build.
\<close>

definition create_control_files ::
  "(string list \<Rightarrow> bool \<times> bool) \<Rightarrow> string list \<Rightarrow> inode list \<Rightarrow> inode list" where
  "create_control_files alloc root fs =
     fold (\<lambda>create fs. snd (create fs))
       [oprofilefs_create_file_perm alloc root ''enable'' enable_fops 666,
        oprofilefs_create_file_perm alloc root ''dump'' dump_fops 666,
        oprofilefs_create_file_perm alloc root ''buffer'' event_buffer_fops 666,
        oprofilefs_create_ulong alloc root ''buffer_size'' ''oprofile_buffer_size'',
        oprofilefs_create_ulong alloc root ''buffer_watershed'' ''oprofile_buffer_watershed'',
        oprofilefs_create_ulong alloc root ''cpu_buffer_size'' ''oprofile_cpu_buffer_size'',
        oprofilefs_create_file alloc root ''cpu_type'' cpu_type_fops,
        oprofilefs_create_file alloc root ''backtrace_depth'' depth_fops,
        oprofilefs_create_file alloc root ''pointer_size'' pointer_size_fops,
        oprofilefs_create_file_perm alloc root ''timer_count'' oprofile_timer_count_fops 666,
        oprofilefs_create_file alloc root ''timer_freq'' timer_freq_fops,
        oprofilefs_create_file alloc root ''user_freq'' user_freq_fops,
        oprofilefs_create_file alloc root ''cpu_khz'' cpu_khz_fops,
        oprofilefs_create_file alloc root ''num_counters'' num_counters_fops,
        oprofilefs_create_file_perm alloc root ''adapt'' adapt_fops 666,
        oprofilefs_create_file_perm alloc root ''debug'' debug_fops 666] fs"

definition oprofile_create_files ::
  "(string list \<Rightarrow> bool \<times> bool) \<Rightarrow> nat list \<Rightarrow> string list \<Rightarrow> inode list \<Rightarrow> ('h, 'r) driver \<Rightarrow>
   (inode list \<times> string list \<times> ('h, 'r) driver) option" where
  "oprofile_create_files alloc possible root fs d =
     (let d = d\<lparr>oprofile_buffer_size := BUFFER_SIZE_DEFAULT,
               oprofile_cpu_buffer_size := CPU_BUFFER_SIZE_DEFAULT,
               oprofile_buffer_watershed := BUFFER_WATERSHED_DEFAULT\<rparr>;
          fs = create_control_files alloc root fs
      in do { fs \<leftarrow> oprofile_create_stats_files alloc possible root fs;
              Some (fs, case op_create_files (oprofile_ops d) of None \<Rightarrow> [] | Some files \<Rightarrow> files, d) })"

text \<open>
  \<^verbatim>\<open>oprofilefs_fill_super\<close>: \<open>root_alloc\<close> tells whether the root inode and its directory entry
  can be allocated.
\<close>

definition oprofilefs_fill_super ::
  "(string list \<Rightarrow> bool \<times> bool) \<Rightarrow> bool \<times> bool \<Rightarrow> nat list \<Rightarrow> ('h, 'r) driver \<Rightarrow>
   (rc \<times> inode list \<times> string list \<times> ('h, 'r) driver) option" where
  "oprofilefs_fill_super alloc root_alloc possible d =
     (case root_alloc of
        (False, _) \<Rightarrow> Some (Inl ENOMEM, [], [], d)
      | (True, False) \<Rightarrow> Some (Inl ENOMEM, [], [], d)
      | (True, True) \<Rightarrow>
          do { (fs, files, d) \<leftarrow> oprofile_create_files alloc possible [] [Dir []] d;
               Some (rc_ok, fs, files, d) })"

section \<open>Properties\<close>

text \<open>Writing a nonzero number to the enable file starts profiling and a zero stops it, and
  the result of the write is the byte count, or the error of the start; text that the kernel
  cannot read changes nothing.\<close>

theorem enable_write_effect:
  assumes "reads_decimal strtoul" and "w_user w = Some (dec n @ [NEWLINE])" and "n < 2 ^ 64"
    and "w_count w = length (dec n @ [NEWLINE])" and "w_offset w = 0"
  shows "enable_write env strtoul stack w d =
    (if n = 0 then map_option (Pair (Inr (w_count w))) (oprofile_stop env d)
     else map_option (\<lambda>(r, d). (count_or_error r (w_count w), d)) (oprofile_start env d))"
proof -
  let ?text = "dec n @ [NEWLINE]"
  have "takeWhile (\<lambda>c. c \<noteq> NUL) ?text = ?text"
    using dec_digits [of n] by (intro takeWhile_eq_all_conv [THEN iffD2]) auto
  moreover have "strtoul ?text = of_nat n" using assms(1,3) by (simp add: reads_decimal_def)
  moreover have "length (dec n) \<le> 20" using length_dec [of n 19] assms(3) by simp
  moreover have "(of_nat n :: ulong) = 0 \<longleftrightarrow> n = 0"
  proof -
    have "unat (of_nat n :: ulong) = n" using assms(3) by (simp add: unat_of_nat)
    then show ?thesis by (auto simp: word_unat_eq_iff)
  qed
  ultimately have "oprofilefs_ulong_from_user strtoul (w_user w) (w_count w) stack = (rc_ok, of_nat n)"
    and nz: "(of_nat n :: ulong) = 0 \<longleftrightarrow> n = 0"
    using assms(2,4) by (simp_all add: oprofilefs_ulong_from_user_def TMPBUFSIZE_def)
  then have "enable_write env strtoul stack w d =
      (if (of_nat n :: ulong) \<noteq> 0
       then oprofile_start env d \<bind> (\<lambda>(r, d). Some (count_or_error r (w_count w), d))
       else oprofile_stop env d \<bind> (\<lambda>d. Some (Inr (w_count w), d)))"
    using assms(5) by (simp add: enable_write_def)
  then show ?thesis
    unfolding nz
    by (cases "oprofile_start env d"; cases "oprofile_stop env d") (simp_all split: prod.splits)
qed

text \<open>While the buffer file is open, writing the backtrace depth or the timer count fails with
  \<^verbatim>\<open>-EINVAL\<close> and changes nothing, so the operations that set a session up are the ones that
  will shut it down.\<close>

theorem settings_fixed_while_open:
  assumes "buffer_opened (evb (kern d))"
  shows "timer_write strtoul stack w d = (Inl EINVAL, d) \<and>
    depth_write strtoul stack w d = (Inl EINVAL, d)"
  using assms by (simp add: timer_write_def depth_write_def)

text \<open>Mounting the file system puts back the default sizes, with which the event buffer can
  be allocated: its size exceeds its watershed, and no byte count wraps around.\<close>

theorem create_files_defaults:
  assumes "oprofile_create_files alloc possible root fs d = Some (fs', files, d')"
  shows "sizes_ok d' \<and> oprofile_buffer_watershed d' < oprofile_buffer_size d' \<and>
    fst (alloc_event_buffer (\<lambda>n. Some xs) (oprofile_buffer_size d') (oprofile_buffer_watershed d')
      (evb (kern d'))) = rc_ok"
  using assms
  by (auto simp: oprofile_create_files_def Let_def sizes_ok_def alloc_event_buffer_def
      BUFFER_SIZE_DEFAULT_def CPU_BUFFER_SIZE_DEFAULT_def BUFFER_WATERSHED_DEFAULT_def
      split: Option.bind_splits)

end
