(* ===== verification/Ring_Concurrency.thy ===== *)
theory Ring_Concurrency
  imports Cpu_Log
begin

text \<open>
  The lock-free hand-over between a CPU's interrupt handler, which writes the ring, and
  \<^verbatim>\<open>sync_buffer\<close>, which reads it, as a transition system. Every access of the code to the
  shared positions and slots is a step of its own: the writer reads the room
  (\<^verbatim>\<open>nr_available_slots\<close>), fills the slot at the head, and publishes it
  (\<^verbatim>\<open>increment_head\<close>); the reader snapshots how much it may take and resets the switch
  notes (\<^verbatim>\<open>get_slots\<close>), reads the slot at the tail, and releases it
  (\<^verbatim>\<open>increment_tail\<close>). The steps of the two sides interleave freely. The barriers
  (\<^verbatim>\<open>wmb\<close>, \<^verbatim>\<open>rmb\<close>) make the steps of one side visible to the other in program order, so
  the steps are taken to be sequentially consistent.

  \<open>published\<close> and \<open>taken\<close> are histories that the code does not keep: the entries whose
  slot has been published, and the entries the reader has copied out.
\<close>

record ring_sys =
  ring :: oprofile_cpu_buffer
  credit :: nat
  in_slot :: "op_sample option"
  remaining :: nat
  published :: "op_sample list"
  taken :: "op_sample list"

inductive ring_step :: "ring_sys \<Rightarrow> ring_sys \<Rightarrow> bool" where
  check_room:
    "in_slot s = None \<Longrightarrow>
     ring_step s (s\<lparr>credit := unat (nr_available_slots (ring s))\<rparr>)"
| fill_slot:
    "in_slot s = None \<Longrightarrow> 0 < credit s \<Longrightarrow>
     write_slot (ring s) (head_pos (ring s)) x = Some b \<Longrightarrow>
     ring_step s (s\<lparr>ring := b, in_slot := Some x, credit := credit s - 1\<rparr>)"
| publish:
    "in_slot s = Some x \<Longrightarrow>
     ring_step s (s\<lparr>ring := increment_head (ring s), in_slot := None,
                    published := published s @ [x]\<rparr>)"
| writer_notes:
    "ring_step s (s\<lparr>ring := (ring s)\<lparr>last_task := t, last_is_kernel := k, tracing := r\<rparr>\<rparr>)"
| acquire:
    "remaining s = 0 \<Longrightarrow>
     ring_step s (s\<lparr>remaining := unat (fst (get_slots (ring s)))\<rparr>)"
| reset_notes:
    "ring_step s (s\<lparr>ring := cpu_buffer_reset (ring s)\<rparr>)"
| take_entry:
    "0 < remaining s \<Longrightarrow> tail_entry (ring s) = Some x \<Longrightarrow>
     ring_step s (s\<lparr>ring := increment_tail (ring s), remaining := remaining s - 1,
                    taken := taken s @ [x]\<rparr>)"

definition ring_start :: "oprofile_cpu_buffer \<Rightarrow> ring_sys" where
  "ring_start b = \<lparr>ring = b, credit = 0, in_slot = None, remaining = 0,
                   published = [], taken = []\<rparr>"

inductive ring_reach :: "oprofile_cpu_buffer \<Rightarrow> ring_sys \<Rightarrow> bool" for b where
  start: "ring_reach b (ring_start b)"
| step: "ring_reach b s \<Longrightarrow> ring_step s t \<Longrightarrow> ring_reach b t"

definition slot_content :: "oprofile_cpu_buffer \<Rightarrow> op_sample option" where
  "slot_content b =
    (case buffer b of None \<Rightarrow> None | Some xs \<Rightarrow> Some (xs ! unat (head_pos b)))"

text \<open>
  The invariant: what was published is what was taken followed by what is queued; the
  reader has been promised no more than is queued and the writer no more than is free; a
  filled slot still holds its entry.
\<close>

definition handover_inv :: "ring_sys \<Rightarrow> bool" where
  "handover_inv s \<longleftrightarrow>
     ring_ok (ring s) \<and>
     published s = taken s @ contents (ring s) \<and>
     remaining s \<le> length (contents (ring s)) \<and>
     credit s + (if in_slot s = None then 0 else 1) \<le> free_slots (ring s) \<and>
     (\<forall>x. in_slot s = Some x \<longrightarrow> slot_content (ring s) = Some x)"

lemma write_head_contents:
  assumes "ring_ok b" and "write_slot b (head_pos b) x = Some b'"
  shows "ring_ok b'" "contents b' = contents b" "ring_cap b' = ring_cap b"
    "slot_content b' = Some x"
proof -
  from assms(1) obtain xs where xs: "buffer b = Some xs" "length xs = unat (buffer_size b)"
    "unat (head_pos b) < length xs" "unat (tail_pos b) < length xs" by (rule ring_okE)
  have hp: "unat (head_pos b) = (unat (tail_pos b) + ring_count b) mod length xs"
    using xs by (auto simp: ring_count_def word_le_nat_alt mod_if)
  have b': "b' = b\<lparr>buffer := Some (xs[unat (head_pos b) := x])\<rparr>"
    using assms(2) xs by (simp add: write_slot_def)
  show "ring_ok b'" "ring_cap b' = ring_cap b" "slot_content b' = Some x"
    using assms(1) xs by (simp_all add: b' ring_ok_def ring_cap_def slot_content_def)
  have "ring_count b < length xs" using ring_count_bound [OF assms(1)] xs by simp
  then have "circ (xs[unat (head_pos b) := x]) (unat (tail_pos b)) (ring_count b) =
      circ xs (unat (tail_pos b)) (ring_count b)"
    unfolding hp by (rule circ_update)
  moreover have "ring_count b' = ring_count b" by (simp add: b' ring_count_def)
  ultimately show "contents b' = contents b"
    using xs by (simp add: b' contents_def)
qed

lemma increment_head_publishes:
  assumes "ring_ok b" and "slot_content b = Some x"
  shows "increment_head b = put x b"
proof -
  from assms(2) obtain xs where xs: "buffer b = Some xs" "x = xs ! unat (head_pos b)"
    by (auto simp: slot_content_def split: option.splits)
  then have "b\<lparr>buffer := map_option (\<lambda>ys. ys[unat (head_pos b) := x]) (buffer b)\<rparr> = b"
    by (cases b) simp
  then show ?thesis by (simp add: put_def)
qed

lemma slot_content_frame:
  "slot_content (cpu_buffer_reset b) = slot_content b"
  "slot_content (increment_tail b) = slot_content b"
  "slot_content (b\<lparr>last_task := t, last_is_kernel := k, tracing := r\<rparr>) = slot_content b"
  by (simp_all add: slot_content_def frame_simps cpu_buffer_reset_def split: option.split)

lemma handover_step: "ring_step s t \<Longrightarrow> handover_inv s \<Longrightarrow> handover_inv t"
proof (induction rule: ring_step.induct)
  case (check_room s)
  then show ?case by (simp add: handover_inv_def ring_simps)
next
  case (fill_slot s x b)
  with write_head_contents [of "ring s" x b] show ?case
    by (simp add: handover_inv_def)
next
  case (publish s x)
  then show ?case
    by (auto simp: handover_inv_def increment_head_publishes ring_simps frame_simps)
next
  case (writer_notes s t k r)
  then show ?case by (simp add: handover_inv_def ring_simps slot_content_frame)
next
  case (acquire s)
  then show ?case by (simp add: handover_inv_def ring_simps)
next
  case (reset_notes s)
  then show ?case by (simp add: handover_inv_def ring_simps slot_content_frame)
next
  case (take_entry s x)
  then have "contents (ring s) \<noteq> []" by (auto simp: handover_inv_def)
  with take_entry show ?case
    using ring_front [of "ring s"]
    by (auto simp: handover_inv_def ring_simps frame_simps slot_content_frame)
qed

lemma handover_reach:
  assumes "ring_reach b s" and "ring_ok b" and "contents b = []"
  shows "handover_inv s"
  using assms
proof (induction rule: ring_reach.induct)
  case start
  then show ?case by (simp add: ring_start_def handover_inv_def)
next
  case (step s t)
  then show ?case by (blast intro: handover_step)
qed


text \<open>Neither side ever faults or is stuck half-way: while the reader has entries left
  to take, its read of the slot at the tail succeeds, and a writer with checked room can
  fill the slot at the head.\<close>

theorem handover_no_fault:
  assumes "ring_reach b s" and "ring_ok b" and "contents b = []"
  shows "(0 < remaining s \<longrightarrow> tail_entry (ring s) = Some (hd (contents (ring s)))) \<and>
    write_slot (ring s) (head_pos (ring s)) x \<noteq> None"
proof -
  from handover_reach [OF assms] have inv: "handover_inv s" .
  then have "0 < remaining s \<longrightarrow> contents (ring s) \<noteq> []" by (auto simp: handover_inv_def)
  with inv show ?thesis
    by (auto simp: handover_inv_def ring_front write_slot_def elim!: ring_okE)
qed

end
