(* ===== verification/Witnesses.thy ===== *)
theory Witnesses
  imports Ring_Concurrency Session
begin

text \<open>
  Concrete states at which the hypotheses of the development's theorems hold, and the
  theorems applied to them: a CPU's ring as \<^verbatim>\<open>alloc_cpu_buffers\<close> leaves it, an event buffer,
  a kernel with one CPU, and a module initialised for timer sampling on it.
\<close>

section \<open>Rings\<close>

abbreviation ex_entry :: op_sample where
  "ex_entry \<equiv> \<lparr>eip = 4096, event = 3, timestamp = 0\<rparr>"

definition ex_task :: task_struct where
  "ex_task = \<lparr>task_addr = 65536, task_tgid = 12, task_pid = 13\<rparr>"

text \<open>A fresh ring of 64 slots, one of 5 slots, and the latter with an entry, and full.\<close>

definition ex_ring :: oprofile_cpu_buffer where
  "ex_ring = init_cpu_buffer 0 64 (replicate 64 ex_entry)"

definition ex_ring5 :: oprofile_cpu_buffer where
  "ex_ring5 = init_cpu_buffer 0 5 (replicate 5 ex_entry)"

lemma ex_ring: "ring_ok ex_ring" "contents ex_ring = []" "ring_cap ex_ring = 63"
  "last_task ex_ring = 0" "last_is_kernel ex_ring = -1" "cpu ex_ring = 0" "\<not> tracing ex_ring"
  "\<not> work_scheduled ex_ring"
  using init_cpu_buffer_ok [of "replicate 64 ex_entry" 64 0]
  by (simp_all add: ex_ring_def init_cpu_buffer_def)

lemma ex_ring5: "ring_ok ex_ring5" "contents ex_ring5 = []" "ring_cap ex_ring5 = 4"
  "last_task ex_ring5 = 0" "last_is_kernel ex_ring5 = -1"
  using init_cpu_buffer_ok [of "replicate 5 ex_entry" 5 0]
  by (simp_all add: ex_ring5_def init_cpu_buffer_def)

definition ex_ring_one :: oprofile_cpu_buffer where
  "ex_ring_one = put ex_entry ex_ring5"

lemma ex_ring_one: "ring_ok ex_ring_one" "contents ex_ring_one = [ex_entry]"
  "ring_cap ex_ring_one = 4" "last_task ex_ring_one = 0" "last_is_kernel ex_ring_one = -1"
  using ex_ring5 by (simp_all add: ex_ring_one_def ring_simps frame_simps)

definition ex_ring_full :: oprofile_cpu_buffer where
  "ex_ring_full = put ex_entry (put ex_entry (put ex_entry ex_ring_one))"

lemma ex_ring_full: "ring_ok ex_ring_full" "contents ex_ring_full = replicate 4 ex_entry"
  "ring_cap ex_ring_full = 4"
  using ex_ring_one by (simp_all add: ex_ring_full_def ring_simps frame_simps numeral_eq_Suc)

theorem log_sample_appends_witness:
  "\<exists>b'. log_sample ex_task ex_ring 8192 1 3 = Some (True, b') \<and>
    contents b' = log_entries ex_ring ex_task 8192 1 3"
proof -
  have "length (log_entries ex_ring ex_task 8192 1 3) \<le> free_slots ex_ring"
    using log_entries_le_4 [of ex_ring ex_task 8192 1 3] ex_ring by simp
  from log_sample_appends [OF ex_ring(1) _ _ this] ex_ring show ?thesis
    by (auto simp: ESCAPE_CODE_def)
qed

theorem log_sample_three_slots_loses_all_witness:
  "contents ex_ring_one = [ex_entry] \<and>
   (\<exists>b'. log_sample ex_task ex_ring_one 8192 1 3 = Some (True, b') \<and> contents b' = [])"
  using log_sample_three_slots_loses_all [of ex_ring_one 8192 1 ex_task 3] ex_ring_one
  by (auto simp: ESCAPE_CODE_def mode_of_def ex_task_def)

theorem log_sample_accounts_witness:
  "\<exists>r b'. log_sample ex_task ex_ring_full 8192 1 3 = Some (r, b') \<and> ring_ok b'"
  using log_sample_accounts [OF ex_ring_full(1)] by blast

theorem ext_sample_with_backtrace_witness:
  "\<exists>b'. oprofile_add_ext_sample (Some (\<lambda>regs d. for_each oprofile_add_trace [4096 :: ulong])) 16
      ex_task 8192 () 3 1 ex_ring = Some b' \<and> \<not> tracing b' \<and> ring_ok b'"
proof -
  have len: "length (log_entries ex_ring ex_task 8192 1 3) \<le> 4" by (rule log_entries_le_4)
  show ?thesis
    using ext_sample_with_backtrace [of ex_ring 8192 16 ex_task 1 3
        "\<lambda>regs d. for_each oprofile_add_trace ((\<lambda>regs d. [4096]) regs d)" "\<lambda>regs d. [4096]" "()"]
      ex_ring len
    by (auto simp: ESCAPE_CODE_def)
qed

theorem sample_start_on_full_ring_loses_all_witness:
  "contents ex_ring_full = replicate 4 ex_entry \<and>
   (\<exists>b'. oprofile_add_sample_start 77 ex_ring_full = Some b' \<and> contents b' = [])"
  using sample_start_on_full_ring_loses_all [of ex_ring_full 77] ex_ring_full by auto

definition ex_vmalloc_node :: "nat \<Rightarrow> ulong \<Rightarrow> op_sample list option" where
  "ex_vmalloc_node i n = (if n = 0 then None else Some (replicate (unat n div 24) ex_entry))"

lemma ex_vmalloc_node: "ex_vmalloc_node i n = Some xs \<Longrightarrow> 0 < n \<and> length xs = unat n div 24"
  by (auto simp: ex_vmalloc_node_def word_gt_0 split: if_splits)

theorem alloc_cpu_buffers_all_or_nothing_witness:
  "\<exists>r bufs'. alloc_cpu_buffers ex_vmalloc_node [0] 64 (\<lambda>_. ex_ring_full) = (r, bufs') \<and>
    (r = rc_ok \<longrightarrow> contents (bufs' 0) = [])"
proof -
  obtain r bufs' where a: "alloc_cpu_buffers ex_vmalloc_node [0] 64 (\<lambda>_. ex_ring_full) = (r, bufs')"
    by fastforce
  with alloc_cpu_buffers_all_or_nothing [OF _ a] ex_vmalloc_node show ?thesis by auto
qed

theorem alloc_size_wraps_witness:
  "\<exists>bufs'. alloc_cpu_buffers (\<lambda>i n. Some []) [0] (2 ^ 61) (\<lambda>_. ex_ring) = (rc_ok, bufs') \<and>
    add_sample (bufs' 0) 8192 3 0 = None"
  using alloc_size_wraps [of "\<lambda>i n. Some []" 0 "2 ^ 61" "[0]"] by simp

section \<open>The hand-over\<close>

text \<open>The handler checks for room, fills a slot and publishes it; the reader then acquires it.\<close>

definition ex_entry_in_slot :: oprofile_cpu_buffer where
  "ex_entry_in_slot = ex_ring\<lparr>buffer := Some ((replicate 64 ex_entry)[0 := ex_entry\<lparr>event := 9\<rparr>])\<rparr>"

lemma ex_handover:
  "\<exists>s. ring_reach ex_ring s \<and> remaining s = 1 \<and> published s = [ex_entry\<lparr>event := 9\<rparr>]"
proof -
  let ?x = "ex_entry\<lparr>event := 9\<rparr>"
  let ?s1 = "(ring_start ex_ring)\<lparr>credit := unat (nr_available_slots ex_ring)\<rparr>"
  let ?s2 = "?s1\<lparr>ring := ex_entry_in_slot, in_slot := Some ?x, credit := credit ?s1 - 1\<rparr>"
  let ?s3 = "?s2\<lparr>ring := increment_head ex_entry_in_slot, in_slot := None, published := [?x]\<rparr>"
  let ?s4 = "?s3\<lparr>remaining := unat (fst (get_slots (increment_head ex_entry_in_slot)))\<rparr>"
  have room: "0 < unat (nr_available_slots ex_ring)" using ex_ring by (simp add: ring_simps)
  have 0: "ring_reach ex_ring (ring_start ex_ring)" by (rule ring_reach.start)
  have 1: "ring_reach ex_ring ?s1"
    using ring_reach.step [OF 0 ring_step.check_room] by (simp add: ring_start_def)
  have w: "write_slot ex_ring (head_pos ex_ring) ?x = Some ex_entry_in_slot"
    by (simp add: write_slot_def ex_ring_def init_cpu_buffer_def ex_entry_in_slot_def)
  have "ring_step ?s1 ?s2"
    using ring_step.fill_slot [of ?s1 ?x ex_entry_in_slot] room w by (simp add: ring_start_def)
  with 1 have 2: "ring_reach ex_ring ?s2" by (rule ring_reach.step)
  have "ring_step ?s2 ?s3" using ring_step.publish [of ?s2 ?x] by (simp add: ring_start_def)
  with 2 have 3: "ring_reach ex_ring ?s3" by (rule ring_reach.step)
  have "ring_step ?s3 ?s4" using ring_step.acquire [of ?s3] by (simp add: ring_start_def)
  with 3 have 4: "ring_reach ex_ring ?s4" by (rule ring_reach.step)
  have "unat (fst (get_slots (increment_head ex_entry_in_slot))) = 1"
    by (simp add: get_slots_def increment_head_def ex_entry_in_slot_def ex_ring_def
        init_cpu_buffer_def Let_def)
  with 4 show ?thesis by (intro exI [of _ ?s4]) simp
qed


theorem handover_no_fault_witness:
  "\<exists>s :: ring_sys. remaining s = 1 \<and> tail_entry (ring s) = Some (hd (contents (ring s)))"
proof -
  from ex_handover obtain s where s: "ring_reach ex_ring s" "remaining s = 1" by blast
  from handover_no_fault [OF s(1) ex_ring(1,2)] s(2) show ?thesis by auto
qed

section \<open>The event buffer\<close>

text \<open>64 words, woken at 48; empty, and with 50 words and the wake flag set.\<close>

definition ex_evb :: event_buffer_state where
  "ex_evb = \<lparr>event_buffer = Some (replicate 64 0), eb_size = 64, buffer_watershed = 16,
     buffer_pos = 0, buffer_ready = False, buffer_dump = False, buffer_opened = True,
     event_lost_overflow = 0\<rparr>"

definition ex_evb_full :: event_buffer_state where
  "ex_evb_full = ex_evb\<lparr>buffer_pos := 50, buffer_ready := True\<rparr>"

lemma ex_evb: "eb_ok ex_evb" "ev_words ex_evb = []" "eb_size ex_evb = 64" "\<not> buffer_dump ex_evb"
  "wake_level ex_evb = 48"
  by (simp_all add: ex_evb_def eb_ok_def ev_words_def wake_level_def)

lemma ex_evb_full: "eb_ok ex_evb_full" "length (ev_words ex_evb_full) = 50"
  "wake_level ex_evb_full = 48" "buffer_ready ex_evb_full" "\<not> buffer_dump ex_evb_full"
  by (simp_all add: ex_evb_full_def ex_evb_def eb_ok_def ev_words_def wake_level_def)

theorem add_event_entries_refines_witness:
  "\<exists>e'. add_event_entries [7, 8] ex_evb = Some e' \<and> ev_words e' = [7, 8] \<and> \<not> buffer_ready e'"
  using add_event_entries_refines [OF ex_evb(1), of "[7, 8]"] ex_evb
  by (auto simp: ex_evb_def simp del: for_each.simps)

theorem reads_return_what_was_added_witness:
  "\<exists>out e'. eb_run [Add 7, Wake, Read False True, Add 8] ex_evb = Some (out, e') \<and>
    subseq (out @ ev_words e') [7, 8]"
  using reads_return_what_was_added [OF ex_evb(1), of "[Add 7, Wake, Read False True, Add 8]"] ex_evb
  by (auto simp del: eb_run.simps)

theorem efault_starves_reader_witness:
  "\<exists>e1 e2. event_buffer_read False False 512 0 ex_evb_full = Some (Done (Inl EFAULT, e1)) \<and>
    add_event_entries [7, 8] e1 = Some e2 \<and>
    event_buffer_read False True 512 0 e2 = Some Blocks"
proof -
  let ?e1 = "ex_evb_full\<lparr>buffer_ready := False\<rparr>"
  have r: "event_buffer_read False False (eb_size ex_evb_full * 8) 0 ex_evb_full =
      Some (Done (Inl EFAULT, ?e1))"
    by (simp add: event_buffer_read_def Let_def ex_evb_full_def ex_evb_def)
  have "eb_ok ?e1" using ex_evb_full(1) by (simp add: ev_simps)
  then obtain e2 where e2: "add_event_entries [7, 8] ?e1 = Some e2" using evlog.add_all by blast
  have "eb_size e2 = 64" using add_event_entries_frame [OF e2] by (simp add: ex_evb_full_def ex_evb_def)
  with efault_starves_reader [OF ex_evb_full(1,4) _ r e2 ex_evb_full(5)] ex_evb_full e2 r show ?thesis
    by (intro exI [of _ ?e1] exI [of _ e2]) (simp add: ex_evb_full_def ex_evb_def del: for_each.simps)
qed

theorem waiting_reader_gets_words_witness:
  "\<exists>e1 e2. add_event_entries (replicate 50 7) ex_evb = Some e1 \<and>
    event_buffer_read False True 512 0 e1 = Some (Done (Inr (replicate 50 7), e2))"
proof -
  obtain e1 where e1: "add_event_entries (replicate 50 7) ex_evb = Some e1"
    using evlog.add_all [OF ex_evb(1)] by blast
  have "eb_size e1 = 64" using add_event_entries_frame [OF e1] ex_evb(3) by simp
  moreover have "eb_cap ex_evb = 64" by (simp add: ex_evb_def)
  ultimately show ?thesis
    using waiting_reader_gets_words [OF ex_evb(1) _ _ e1] e1 ex_evb by auto
qed

theorem second_read_after_dump_fails_witness:
  "\<exists>e'. event_buffer_read False True 512 0 (wake_up_buffer_waiter ex_evb_full)
        = Some (Done (Inr (ev_words ex_evb_full), e')) \<and>
    event_buffer_read False True (eb_size e' * 8) 0 e' = Some (Done (Inl EAGAIN, e'))"
  using second_read_after_dump_fails [OF ex_evb_full(1)]
  by (simp add: ex_evb_full_def ex_evb_def)

section \<open>Synchronisation\<close>

text \<open>A kernel with one CPU, whose ring is \<open>b\<close>.\<close>

definition ex_kernel :: "oprofile_cpu_buffer \<Rightarrow> unit timer_kstate_scheme" where
  "ex_kernel b = \<lparr>cpu_buffer = (\<lambda>_. b), evb = ex_evb, marked_cpus = {}, work_enabled = True,
     sample_lost_no_mm = 0, sample_lost_no_mapping = 0, bt_lost_no_mapping = 0,
     oprofile_timer_count = 1, hrtimer_active = (\<lambda>_. False), ctr_running = False,
     timer_pop = (\<lambda>_. 0), start_timestamp = (\<lambda>_. 0), hotcpu_registered = False\<rparr>"

lemma ex_kernel [simp]: "cpu_buffer (ex_kernel b) i = b" "evb (ex_kernel b) = ex_evb"
  "marked_cpus (ex_kernel b) = {}" "work_enabled (ex_kernel b)"
  "oprofile_timer_count (ex_kernel b) = 1" "timer_pop (ex_kernel b) i = 0"
  by (simp_all add: ex_kernel_def)

theorem sync_buffer_refines_witness:
  "\<exists>k'. sync_buffer [0] 0 (ex_kernel ex_ring_one) = Some k' \<and> contents (cpu_buffer k' 0) = [] \<and>
    marked_cpus k' = {} \<and>
    ev_words (evb k') = take 64 (sync_words 0 [ex_entry])"
  using sync_buffer_refines [of "ex_kernel ex_ring_one" 0 "[0]"] ex_ring_one ex_evb by auto

theorem wq_sync_buffer_reschedules_witness:
  "\<exists>k'. wq_sync_buffer [0] 0 0 (ex_kernel ex_ring) = Some k' \<and> work_scheduled (cpu_buffer k' 0)"
  using wq_sync_buffer_reschedules [of "ex_kernel ex_ring" 0 "[0]" 0] ex_ring ex_evb by auto

theorem sync_loop_counter_too_narrow_witness:
  "sync_loop 0 0 (2 ^ 32) sync_start_locals (ex_kernel ex_ring) = None"
  by (rule sync_loop_counter_too_narrow) simp

theorem oprofile_put_buff_copies_witness:
  "oprofile_put_buff [10, 11, 12, 13] 3 1 4 ex_evb = add_event_entries [13, 10] ex_evb"
proof -
  have "circ [10, 11, 12, 13 :: ulong] 3 2 = [13, 10]"
    by (simp add: circ_def upt_rec numeral_2_eq_2)
  with oprofile_put_buff_copies [of 3 4 1 "[10, 11, 12, 13]" ex_evb] show ?thesis by simp
qed

theorem oprofile_put_buff_stop_beyond_end_witness:
  "oprofile_put_buff [10, 11, 12, 13] 3 4 4 ex_evb = None"
  by (rule oprofile_put_buff_stop_beyond_end) simp_all

definition ex_job :: job where
  "ex_job = \<lparr>j_task = ex_task, j_pc = 8192, j_kernel = 0, j_ev = 3\<rparr>"

theorem samples_reach_daemon_attributed_witness:
  "\<exists>k1 k2 words items. on_cpu 0 (for_each log_job [ex_job, ex_job]) (ex_kernel ex_ring) = Some k1 \<and>
    sync_buffer [0] 0 k1 = Some k2 \<and> ev_words (evb k2) = words \<and> parse words = Some items \<and>
    attribute \<lparr>v_cpu = 0, v_kernel = False, v_tgid = 0, v_tid = 0\<rparr> items = [job_attributed 0 ex_job, job_attributed 0 ex_job]"
proof -
  have "list_all (job_ok (\<lambda>_. (12, 13))) [ex_job, ex_job]"
    by (simp add: job_ok_def ex_job_def ex_task_def ESCAPE_CODE_def)
  from samples_reach_daemon_attributed [of "ex_kernel ex_ring" 0 _ _ "[0]"
    "\<lparr>v_cpu = 0, v_kernel = False, v_tgid = 0, v_tid = 0\<rparr>", OF _ _ _ _ _ this]
    ex_ring ex_evb
  show ?thesis by (simp del: for_each.simps)
qed

section \<open>The timer and sessions\<close>

abbreviation ex_sampler :: "unit sampler" where
  "ex_sampler \<equiv> \<lparr>user_mode = (\<lambda>_. True), instruction_pointer = (\<lambda>_. 8192), bt_callback = None,
     bt_depth = 0\<rparr>"

abbreviation ex_tick :: "unit tick" where
  "ex_tick \<equiv> \<lparr>end_tb = 20, next_tb = 21, irq_regs = Some (), irq_task = ex_task\<rparr>"

theorem timer_samples_every_count_ticks_witness:
  "\<exists>k1 k2. for_each (oprofile_hrtimer_notify ex_sampler 0) [ex_tick, ex_tick]
      ((ex_kernel ex_ring)\<lparr>oprofile_timer_count := 3\<rparr>) = Some k1 \<and>
    oprofile_hrtimer_notify ex_sampler 0 ex_tick k1 = Some k2 \<and> timer_pop k2 0 = 0 \<and>
    start_timestamp k2 0 = 21"
  using timer_samples_every_count_ticks [of "(ex_kernel ex_ring)\<lparr>oprofile_timer_count := 3\<rparr>" 0
      "[ex_tick, ex_tick]" ex_sampler ex_tick "()"] ex_ring
  by (auto simp: ESCAPE_CODE_def simp del: for_each.simps)

definition ex_vmalloc :: "ulong \<Rightarrow> ulong list option" where
  "ex_vmalloc n = (if n = 0 then None else Some (replicate (unat n div 8) 0))"

definition ex_env :: kernel_env where
  "ex_env = \<lparr>possible_cpus = [0], online_cpus = [0], vmalloc_node = ex_vmalloc_node,
     vmalloc = ex_vmalloc\<rparr>"

lemma ex_env: "env_ok ex_env" "possible_cpus ex_env = [0]" "online_cpus ex_env = [0]"
  using ex_vmalloc_node by (auto simp: ex_env_def env_ok_def ex_vmalloc_def word_gt_0 split: if_splits)

text \<open>The module before its initialisation, with the default sizes of the configuration.\<close>

definition ex_module :: "(unit timer_kstate_ext, unit) driver" where
  "ex_module =
     \<lparr>kern = (ex_kernel (ex_ring\<lparr>buffer := None\<rparr>))\<lparr>evb := ex_evb\<lparr>event_buffer := None, buffer_opened := False\<rparr>\<rparr>,
      oprofile_ops = no_operations, arch_ops = no_operations, timer_ops = no_operations,
      oprofile_started = False, is_setup = False, oprofile_backtrace_depth = 0,
      oprofile_adapt_value = 1, oprofile_buffer_size = 131072, oprofile_cpu_buffer_size = 8192,
      oprofile_buffer_watershed = 32768, oprofile_cpu_type = ''null'', oprofile_num_counters = 0,
      rrprofile_debug = 0\<rparr>"

lemma ex_module_fresh: "fresh_driver ex_module"
  using ex_ring by (simp add: fresh_driver_def ex_module_def no_work_def ex_evb_def sizes_ok_def)

lemma ex_module_init:
  "\<exists>d0. oprofile_init (oprofile_timer_init rc_ok (online_cpus ex_env) (\<lambda>_. 5)) no_arch_init rc_ok
     ex_module = Some (rc_ok, d0)"
  by (simp add: oprofile_init_def oprofile_timer_init_def no_arch_init_def no_operations_def
      oprofile_set_ulong_def Let_def ex_module_def)

text \<open>The states after the file has been opened, which one open step reaches.\<close>

lemma ex_module_opened:
  "\<exists>d0 r d1. oprofile_init (oprofile_timer_init rc_ok (online_cpus ex_env) (\<lambda>_. 5)) no_arch_init rc_ok
     ex_module = Some (rc_ok, d0) \<and> event_buffer_open ex_env True d0 = Some (r, d1) \<and>
     driver_reach ex_env d0 d1"
proof -
  from ex_module_init obtain d0 where d0: "oprofile_init (oprofile_timer_init rc_ok
      (online_cpus ex_env) (\<lambda>_. 5)) no_arch_init rc_ok ex_module = Some (rc_ok, d0)" by blast
  from open_inv [OF timer_mode_init [OF d0 ex_module_fresh] ex_env(1)] obtain r d1 where
    "event_buffer_open ex_env True d0 = Some (r, d1)" by blast
  with d0 driver_reach.further [OF driver_reach.initial driver_step.open_file [OF this]]
  show ?thesis by blast
qed



text \<open>A set-up timer session whose only ring holds one entry, stopped and running.\<close>

definition ex_session :: "(unit timer_kstate_ext, unit) driver" where
  "ex_session = ex_module\<lparr>kern := ex_kernel ex_ring_one, is_setup := True,
     oprofile_ops := timer_operations rc_ok (online_cpus ex_env) (\<lambda>_. 5)\<rparr>"

definition ex_running :: "(unit timer_kstate_ext, unit) driver" where
  "ex_running = ex_session\<lparr>oprofile_started := True\<rparr>"

lemma ex_session:
  "buffers_ok (possible_cpus ex_env) (kern ex_session)" "is_setup ex_session"
  "\<not> oprofile_started ex_session" "oprofile_adapt_value ex_session = 1"
  "oprofile_ops ex_session = timer_operations rc_ok (online_cpus ex_env) (\<lambda>_. 5)"
proof -
  have "cpu ex_ring_one = 0"
    by (simp add: ex_ring_one_def ex_ring5_def init_cpu_buffer_def frame_simps)
  then show "buffers_ok (possible_cpus ex_env) (kern ex_session)"
    using ex_ring_one ex_evb ex_env by (simp add: ex_session_def buffers_ok_def)
qed (simp_all add: ex_session_def ex_module_def)

lemma ex_running:
  "buffers_ok (possible_cpus ex_env) (kern ex_running)" "oprofile_started ex_running"
  "oprofile_adapt_value ex_running = 1" "kern ex_running = ex_kernel ex_ring_one" "is_setup ex_running"
  "oprofile_ops ex_running = timer_operations rc_ok (online_cpus ex_env) (\<lambda>_. 5)"
  using ex_session by (simp_all add: ex_running_def ex_session_def)

theorem oprofile_stop_delivers_witness:
  "\<exists>d'. oprofile_stop ex_env ex_running = Some d' \<and> \<not> oprofile_started d' \<and>
    contents (cpu_buffer (kern d') 0) = [] \<and> buffer_ready (evb (kern d'))"
proof -
  let ?k1 = "(fold oprofile_hrtimer_stop_cpu (online_cpus ex_env) (kern ex_running))\<lparr>ctr_running := False\<rparr>"
  have s: "call_void (op_stop (oprofile_ops ex_running)) (kern ex_running) = Some ?k1"
    by (simp add: ex_running(6) timer_op_defs)
  have "buffers_ok (possible_cpus ex_env) ?k1"
    using timer_stop_same [of "kern ex_running" "online_cpus ex_env"] ex_running(1)
    by (simp add: same_kernel_def buffers_ok_def)
  from oprofile_stop_delivers [OF ex_running(2) s this ex_env(1)] ex_env show ?thesis by auto
qed

theorem timer_adapt_session_witness:
  "\<exists>d'. oprofile_adapt ex_env ex_running = Some (rc_ok, d') \<and> oprofile_adapt_value d' = 10 \<and>
    unat (oprofile_timer_count (kern d')) = 10"
  using timer_adapt_session [OF ex_running(2,6,1) ex_env(1)] ex_env ex_running
  by (auto simp: MAX_COUNTER_VALUE_def)

theorem timer_start_session_witness:
  "\<exists>d'. oprofile_start ex_env ex_session = Some (rc_ok, d') \<and> oprofile_started d'"
  using timer_start_session [OF ex_session(2,3,5,1)] by blast

text \<open>A back end whose own synchronisation fails to start, and one that cannot adapt.\<close>

theorem setup_hides_sync_start_failure_witness:
  "\<exists>d'. oprofile_setup ex_env (ex_module\<lparr>oprofile_ops :=
      no_operations\<lparr>op_sync_start := Some (\<lambda>k. Some (-1, k))\<rparr>\<rparr>) = Some (rc_ok, d') \<and> \<not> is_setup d'"
proof -
  let ?d = "ex_module\<lparr>oprofile_ops := no_operations\<lparr>op_sync_start := Some (\<lambda>k. Some (-1, k))\<rparr>\<rparr>"
  obtain bufs where b: "alloc_cpu_buffers (vmalloc_node ex_env) (possible_cpus ex_env)
      (oprofile_cpu_buffer_size ?d) (cpu_buffer (kern ?d)) = (rc_ok, bufs)"
    by (simp add: ex_env_def alloc_cpu_buffers_def ex_vmalloc_node_def ex_module_def)
  obtain e where e: "alloc_event_buffer (vmalloc ex_env) (oprofile_buffer_size ?d)
      (oprofile_buffer_watershed ?d) (evb (kern ?d)) = (rc_ok, e)"
    by (simp add: ex_env_def alloc_event_buffer_def ex_vmalloc_def ex_module_def)
  from setup_hides_sync_start_failure [OF _ _ _ _ b e] show ?thesis
    by (auto simp: no_operations_def ex_module_def)
qed

theorem adapt_unsupported_stops_profile_witness:
  "\<exists>k2. oprofile_adapt ex_env (ex_running\<lparr>oprofile_ops := no_operations\<lparr>op_stop := Some Some\<rparr>\<rparr>) =
    Some (Inl EINVAL, ex_running\<lparr>oprofile_ops := no_operations\<lparr>op_stop := Some Some\<rparr>, kern := k2\<rparr>)"
  using adapt_unsupported_stops_profile
      [of "ex_running\<lparr>oprofile_ops := no_operations\<lparr>op_stop := Some Some\<rparr>\<rparr>" "kern ex_running" ex_env]
    ex_running ex_env
  by (auto simp: no_operations_def call_void_def)

end
