(* ===== verification/File_Witnesses.thy ===== *)
theory File_Witnesses
  imports Oprofile_Files Witnesses
begin

text \<open>
  Instances of the theorems about the control file system: a reader of decimal text, a buffer
  copy that delivers everything, and the sessions of theory Witnesses.
\<close>

definition ex_strtoul :: "string \<Rightarrow> ulong" where
  "ex_strtoul s = of_nat (digits_value s)"

definition ex_read_buf :: read_from_buffer where
  "ex_read_buf count off text =
     Inr (take count (drop off text), off + length (take count (drop off text)))"

lemma ex_strtoul: "reads_decimal ex_strtoul"
  using digits_value_dec [of "[]"]
  by (auto simp: reads_decimal_def ex_strtoul_def digits_value_dec is_digit_def)

lemma ex_read_buf: "delivers ex_read_buf"
  by (simp add: delivers_def ex_read_buf_def)

lemma dec_1: "dec 1 = [CHR 0x31]"
  by (simp add: dec.simps digit_def char_of_def bit_0)

theorem ulong_user_roundtrip_witness:
  "\<exists>text pos. oprofilefs_ulong_to_user ex_read_buf 8192 21 0 = Inr (text, pos) \<and>
    oprofilefs_ulong_from_user ex_strtoul (Some text) (length text) 7 = (rc_ok, 8192)"
  using ulong_user_roundtrip [OF ex_strtoul ex_read_buf, of 21 8192 7] by simp

definition ex_write :: "string \<Rightarrow> write_request" where
  "ex_write s = \<lparr>w_user = Some s, w_count = length s, w_offset = 0\<rparr>"

theorem empty_write_stores_stack_content_witness:
  "oprofile_buffer_watershed (snd (ulong_write_file ex_strtoul 2989 
     (\<lambda>v d. d\<lparr>oprofile_buffer_watershed := v\<rparr>) (ex_write []) ex_session)) = 2989"
  using empty_write_stores_stack_content [of "ex_write []" ex_session ex_strtoul 2989
      "\<lambda>v d. d\<lparr>oprofile_buffer_watershed := v\<rparr>"] ex_session
  by (simp add: ex_write_def)

theorem ulong_write_while_started_witness:
  "\<exists>err. ulong_write_file ex_strtoul 0 (\<lambda>v d. d\<lparr>oprofile_buffer_watershed := v\<rparr>)
     (ex_write [CHR 0x31]) ex_running = (Inl err, ex_running)"
  using ulong_write_while_started [OF ex_running(2), of ex_strtoul 0
      "\<lambda>v d. d\<lparr>oprofile_buffer_watershed := v\<rparr>" "ex_write [CHR 0x31]"] by blast

theorem enable_write_effect_witness:
  "\<exists>d'. enable_write ex_env ex_strtoul 0 (ex_write [CHR 0x31, NEWLINE]) ex_running =
     Some (Inr 2, d')"
proof -
  have "oprofile_start ex_env ex_running = Some (rc_ok, ex_running)"
    using ex_running(2,5) by (simp add: oprofile_start_def)
  with enable_write_effect [OF ex_strtoul, of "ex_write [CHR 0x31, NEWLINE]" 1 ex_env 0 ex_running]
  show ?thesis by (simp add: ex_write_def dec_1 [simplified] count_or_error_def)
qed

theorem settings_fixed_while_open_witness:
  "buffer_opened (evb (kern ex_running)) \<and>
   timer_write ex_strtoul 0 (ex_write [CHR 0x31]) ex_running = (Inl EINVAL, ex_running)"
proof -
  have "buffer_opened (evb (kern ex_running))" using ex_evb by (simp add: ex_running(4) ex_evb_def)
  with settings_fixed_while_open [OF this, of ex_strtoul 0 "ex_write [CHR 0x31]"] show ?thesis
    by blast
qed

theorem create_files_defaults_witness:
  "\<exists>fs' files d'. oprofile_create_files (\<lambda>_. (True, True)) [0] [] [] ex_module = Some (fs', files, d') \<and>
    oprofile_buffer_watershed d' < oprofile_buffer_size d'"
proof -
  obtain fs' files d' where
    c: "oprofile_create_files (\<lambda>_. (True, True)) [0] [] [] ex_module = Some (fs', files, d')"
    by (simp add: oprofile_create_files_def oprofile_create_stats_files_def create_cpu_stats_def
        oprofilefs_mkdir_def)
  with create_files_defaults [OF c] show ?thesis by blast
qed

end
