(* ===== verification/X86_Witnesses.thy ===== *)
theory X86_Witnesses
  imports X86_Behaviour Ppro_Interrupt P4_Setup File_Witnesses
begin

text \<open>
  Instances of the theorems about the x86 back end: a machine with one CPU.
\<close>

definition ex_poll :: poll_state where
  "ex_poll = \<lparr>poll_idle_enabled = 1, pm_idle = Some (kernel_idle 0), pm_idle_p = False,
     pm_idle_save = None, uninstall_handler = False, install_handler = False,
     cpuidle_installed = True\<rparr>"

theorem poll_idle_restored_witness:
  "pm_idle (exit_poll_idle (fold switch_poll [True, True] (init_poll_idle True True True ex_poll))) =
     Some (kernel_idle 0)"
  using poll_idle_restored [of ex_poll "[True, True]" True True True] by (simp add: ex_poll_def)

definition ex_x86 :: x86_state where
  "ex_x86 = \<lparr>msr = \<lambda>_ _. (0, 0), apic = \<lambda>_ _. 0,
     cpu_msrs = \<lambda>_. \<lparr>counters = Some [\<lparr>addr = 0xC1, saved = \<lparr>saved_high = 0, saved_low = 0\<rparr>\<rparr>],
                     controls = None\<rparr>,
     saved_lvtpc = \<lambda>_. 0, nmi_ctr_running = False, nmi_enabled = False, nmi_handler = False,
     nmi_model = None, has_arch_perfmon = False, force_arch_perfmon = False, using_nmi = False,
     driverfs = False,
     counter_config = replicate 8 \<lparr>cc_count = 100, cc_enabled = 0, cc_event = 0, cc_kernel = 0,
                                  cc_user = 0, cc_unit_mask = 0\<rparr>,
     ppro_num_counters = 2, counter_width = 32, ppro_reset_value = None,
     ppro_start_timestamp = \<lambda>_. 0, arch_num_counters = 0, arch_num_controls = 0,
     athlon_reset_value = [], athlon_start_timestamp = \<lambda>_. 0,
     p4_num_counters = 8, p4_reset_value = [], p4_start_timestamp = \<lambda>_. 0, poll = ex_poll\<rparr>"

theorem counter_overflows_after_count_witness:
  "\<exists>x' low high. CTR_WRITE 100 0 0 ex_x86 = Some x' \<and> CTR_READ 0 0 x' = Some (low, high) \<and>
     CTR_OVERFLOWED (low + of_nat 100)"
proof -
  obtain x' where x': "CTR_WRITE 100 0 0 ex_x86 = Some x'"
    by (simp add: CTR_WRITE_def ctr_addr_def ex_x86_def elem_def)
  have "(0 :: ulong) < 100" "(100 :: ulong) \<le> 2 ^ 31" "(100 :: nat) < unat (100 :: ulong) + 2 ^ 31"
    by simp_all
  from counter_overflows_after_count [OF this(1,2) x' this(3)] x' show ?thesis by auto
qed

section \<open>Backtraces\<close>

text \<open>A kernel stack from \<open>0x1000\<close> to \<open>0x2000\<close> with frames every 32 bytes.\<close>

definition ex_stack :: "unit stack_env" where
  "ex_stack = \<lparr>bt_user_mode = \<lambda>_. False, frame_pointer = \<lambda>_. 0x1010, kernel_stack_pointer = \<lambda>_. 0x1000,
     config_frame_pointer = True, THREAD_SIZE = 0x1000, tif_ia32 = False,
     kernel_frame = \<lambda>h. Some (h + 32, h + 0x70), access_ok = \<lambda>_ _. True,
     user_frame64 = \<lambda>_. None, user_frame32 = \<lambda>_. None\<rparr>"

lemma ex_stack_mapped: "stack_mapped ex_stack ()"
  by (simp add: stack_mapped_def ex_stack_def)

lemma ex_stack_frames: "return_addresses ex_stack () 2 = [0x1080, 0x10A0]"
  by (simp add: return_addresses_def ex_stack_def valid_kernel_stack_def kernel_out_def
      stack_base_def)

theorem x86_backtrace_refines_witness:
  "x86_backtrace ex_stack (Some ()) 2 ex_ring = for_each oprofile_add_trace [0x1080, 0x10A0] ex_ring"
  using x86_backtrace_refines [where E = ex_stack and r = "()" and depth = 2] ex_stack_mapped ex_stack_frames
  by simp

theorem kernel_frames_in_stack_witness:
  "sorted_wrt (<) (map fst (frames (\<lambda>h. valid_kernel_stack ex_stack h ()) (kernel_out ex_stack) 2
     (frame_pointer ex_stack ())))"
  by (rule kernel_frames_in_stack [OF ex_stack_mapped refl, THEN conjunct1])

theorem sample_with_x86_backtrace_witness:
  "\<exists>b'. oprofile_add_ext_sample (Some (x86_backtrace ex_stack)) 2 ex_task 8192 (Some ()) 3 1 ex_ring = Some b' \<and>
     ring_ok b' \<and> \<not> tracing b'"
proof -
  have "length (log_entries ex_ring ex_task 8192 1 3) \<le> 4" by (rule log_entries_le_4)
  then show ?thesis
    using sample_with_x86_backtrace [where E = ex_stack and r = "()" and b = ex_ring and pc = 8192 and
        depth = 2 and task = ex_task and k = 1 and ev = 3] ex_stack_mapped ex_ring
    by (auto simp: ESCAPE_CODE_def)
qed

section \<open>Pentium 4\<close>

text \<open>A processor without hyper-threading.\<close>

definition ex_p4 :: p4_hw where
  "ex_p4 = \<lparr>p4_addr = \<lambda>r. case map_of p4_documented r of Some a \<Rightarrow> a | None \<Rightarrow> 0,
     MSR_IA32_MISC_ENABLE = 0x1A0, smp_num_siblings = 1, first_sibling = \<lambda>c. c, boot_model = 2\<rparr>"

lemma ex_p4_layout: "p4_layout ex_p4"
  by (simp add: p4_layout_def ex_p4_def p4_documented_def)

theorem p4_controls_fit_witness:
  "length (p4_control_addrs ex_p4 0 NUM_COUNTERS_NON_HT) = NUM_CONTROLS_NON_HT"
  using p4_controls_fit [OF ex_p4_layout] by (simp add: ex_p4_def)

section \<open>The whole driver\<close>

text \<open>An AMD processor of family 6 with one CPU, on a kernel that gives all memory asked for.\<close>

definition ex_msr :: op_msr where
  "ex_msr = \<lparr>addr = 0, saved = \<lparr>saved_high = 0, saved_low = 0\<rparr>\<rparr>"

definition ex_hw :: x86_hw where
  "ex_hw = \<lparr>kmalloc_counters = \<lambda>_ n. Some (replicate n ex_msr),
     kmalloc_controls = \<lambda>_ n. Some (replicate n ex_msr), register_nmi_handler = rc_ok,
     start_tb = \<lambda>_. 5, model_tb = \<lambda>_. 6, stop_tb = \<lambda>_. 9, APIC_DM_NMI = 0x400,
     APIC_LVT_MASKED = 0x10000\<rparr>"

definition ex_platform :: "unit x86_platform" where
  "ex_platform = \<lparr>x86_vendor = X86_VENDOR_AMD, x86_family = 6, cpuid_level = 1, cpuid_eax = \<lambda>_. 0,
     cpu_has_apic = True, p4force = 0, hw_params = ex_hw,
     p6_params = \<lparr>MSR_P6_PERFCTR0 = 0xC1, MSR_P6_PERFCTR1 = 0xC2, MSR_P6_EVNTSEL0 = 0x186,
                  MSR_P6_EVNTSEL1 = 0x187\<rparr>,
     k7_params = \<lparr>MSR_K7_PERFCTR = \<lambda>i. 0xC0010004 + of_nat i, MSR_K7_EVNTSEL = \<lambda>i. 0xC0010000 + of_nat i\<rparr>,
     p4_params = ex_p4, kmalloc_reset = \<lambda>n. Some (replicate n 0), stack_params = ex_stack,
     found_pm_idle = True, found_uninstall = True, found_install = True\<rparr>"

lemma ex_sys: "sys_ok ex_env ex_hw"
  by (simp add: sys_ok_def ex_env hw_ok_def ex_hw_def)

lemma ex_platform_ok: "platform_ok ex_platform ex_env"
proof -
  have "(0xC0010004 + of_nat i :: u32) \<noteq> 0" "(0xC0010000 + of_nat i :: u32) \<noteq> 0" if "i < 4" for i :: nat
  proof -
    have "i = 0 \<or> i = 1 \<or> i = 2 \<or> i = 3" using that by linarith
    then show "(0xC0010004 + of_nat i :: u32) \<noteq> 0" "(0xC0010000 + of_nat i :: u32) \<noteq> 0"
      by (elim disjE, simp_all)+
  qed
  then have "k7_ok (k7_params ex_platform)" by (simp add: k7_ok_def ex_platform_def)
  moreover have "p4_plain ex_p4" using ex_p4_layout by (simp add: p4_plain_def ex_p4_def)
  ultimately show ?thesis using ex_sys by (simp add: platform_ok_def ex_platform_def p6_ok_def)
qed

text \<open>The module before its initialisation.\<close>

definition ex_static :: x86_state where
  "ex_static = ex_x86\<lparr>athlon_reset_value := replicate 4 0, p4_reset_value := replicate 8 0\<rparr>"

definition ex_x86_kernel :: "oprofile_cpu_buffer \<Rightarrow> unit nmi_kstate_scheme" where
  "ex_x86_kernel b = timer_kstate.extend (ex_kernel b) (nmi_kstate.fields ex_static)"

lemma ex_x86_kernel [simp]: "cpu_buffer (ex_x86_kernel b) i = b" "evb (ex_x86_kernel b) = ex_evb"
  "work_enabled (ex_x86_kernel b)" "x86 (ex_x86_kernel b) = ex_static" "marked_cpus (ex_x86_kernel b) = {}"
  by (simp_all add: ex_x86_kernel_def ex_kernel_def timer_kstate.defs nmi_kstate.defs)

lemma ex_static_fresh: "x86_fresh ex_static"
  by (simp add: x86_fresh_def x86_static_def ex_static_def ex_x86_def OP_MAX_COUNTER_def)

definition ex_x86_module :: "(unit, unit) x86_driver" where
  "ex_x86_module =
     \<lparr>kern = (ex_x86_kernel (ex_ring\<lparr>buffer := None\<rparr>))\<lparr>evb := ex_evb\<lparr>event_buffer := None, buffer_opened := False\<rparr>\<rparr>,
      oprofile_ops = no_operations, arch_ops = no_operations, timer_ops = no_operations,
      oprofile_started = False, is_setup = False, oprofile_backtrace_depth = 0,
      oprofile_adapt_value = 1, oprofile_buffer_size = 131072, oprofile_cpu_buffer_size = 8192,
      oprofile_buffer_watershed = 32768, oprofile_cpu_type = ''null'', oprofile_num_counters = 0,
      rrprofile_debug = 0\<rparr>"

lemma ex_x86_module_fresh: "fresh_driver ex_x86_module" "x86 (kern ex_x86_module) = ex_static"
  using ex_ring by (simp_all add: fresh_driver_def ex_x86_module_def no_work_def ex_evb_def sizes_ok_def)

lemma ex_arch_init:
  "\<exists>(ops :: (unit nmi_kstate_ext timer_kstate_scheme, unit) oprofile_operations) x.
    oprofile_arch_init ex_platform ex_env no_operations (kern ex_x86_module) =
      Some (rc_ok, ops, (kern ex_x86_module)\<lparr>x86 := x\<rparr>) \<and>
    nmi_model x = Some athlon_spec \<and> op_cpu_type ops = Some ''i386/athlon''"
proof -
  have "nmi_choose_model ex_platform (detect_arch_perfmon ex_platform ex_static) =
      (Inr ''i386/athlon'', ex_static\<lparr>nmi_model := Some athlon_spec\<rparr>)"
    by (simp add: nmi_choose_model_def detect_arch_perfmon_def ex_platform_def amd_families_def)
  then have "\<exists>(ops :: (unit nmi_kstate_scheme, unit) oprofile_operations) x.
      op_nmi_init ex_platform ex_env no_operations (x86 (kern ex_x86_module)) = Some (rc_ok, ops, x) \<and> nmi_model x = Some athlon_spec \<and> op_cpu_type ops = Some ''i386/athlon''"
    using ex_x86_module_fresh(2)
    by (simp add: op_nmi_init_def op_athlon_spec_def nmi_operations_def init_driverfs_def Let_def)
      (simp add: ex_platform_def)
  then obtain ops :: "(unit nmi_kstate_scheme, unit) oprofile_operations" and x where n: "op_nmi_init ex_platform ex_env no_operations (x86 (kern ex_x86_module)) =
      Some (rc_ok, ops, x)" "nmi_model x = Some athlon_spec" "op_cpu_type ops = Some ''i386/athlon''"
    by blast
  show ?thesis
    by (rule exI, rule exI, rule conjI, rule arch_init_step [OF n(1)]) (use n(2,3) in simp)
qed

lemma ex_x86_init:
  "\<exists>d0. oprofile_init (oprofile_timer_init rc_ok (online_cpus ex_env) (\<lambda>_. 5))
      (oprofile_arch_init ex_platform ex_env) rc_ok ex_x86_module = Some (rc_ok, d0) \<and>
    nmi_model (x86 (kern d0)) = Some athlon_spec \<and> op_cpu_type (arch_ops d0) \<noteq> None"
proof -
  from ex_arch_init obtain ops x where arch: "oprofile_arch_init ex_platform ex_env no_operations
      (kern ex_x86_module) = Some (rc_ok, ops, (kern ex_x86_module)\<lparr>x86 := x\<rparr>)"
    "nmi_model x = Some athlon_spec" "op_cpu_type ops = Some ''i386/athlon''" by blast
  have "\<not> oprofile_started ex_x86_module" by (simp add: ex_x86_module_def)
  from init_with_arch [where arch_init = "oprofile_arch_init ex_platform ex_env" and fs = rc_ok and
      timer_init = "oprofile_timer_init rc_ok (online_cpus ex_env) (\<lambda>_. 5)", OF arch(1) _ _ this] arch(2,3)
  show ?thesis by simp
qed

text \<open>A session of its back end, which has just been set up.\<close>

lemma ex_athlon_wf: "model_wf ex_platform ex_env athlon_spec ex_static"
  using ex_platform_ok
  by (simp add: platform_ok_def athlon_wf_def ex_static_def ex_x86_def OP_MAX_COUNTER_def)

lemma ex_x86_buffers: "buffers_ok (possible_cpus ex_env) (ex_x86_kernel ex_ring)"
  using ex_ring ex_evb ex_env by (simp add: buffers_ok_def)

lemma ex_athlon_setup:
  "\<exists>x1. nmi_setup (hw_params ex_platform) (spec_of ex_platform athlon_spec :: ('h, unit) op_x86_model_spec)
      ex_env ex_static = Some (rc_ok, x1) \<and> x86_armed ex_platform ex_env athlon_spec x1"
proof -
  let ?M = "spec_of ex_platform athlon_spec :: ('h, unit) op_x86_model_spec"
  from model.nmi_setup_armed [OF ex_athlon_wf] obtain r x1 where
    s: "nmi_setup (hw_params ex_platform) ?M ex_env ex_static = Some (r, x1)"
    "r = rc_ok \<Longrightarrow> x86_model.armed (model_wf ex_platform ex_env athlon_spec)
       (model_ready ex_platform athlon_spec) (online_cpus ex_env) x1" by (metis (lifting))
  have "\<exists>x. allocate_msrs (hw_params ex_platform) ?M (possible_cpus ex_env) ex_static = (True, x)"
    by (simp add: allocate_msrs_def ex_env ex_platform_def ex_hw_def set_msrs_def Let_def)
  moreover have "register_nmi_handler (hw_params ex_platform) = rc_ok"
    by (simp add: ex_platform_def ex_hw_def)
  ultimately have "r = rc_ok"
    using s(1) by (auto simp: nmi_setup_def Let_def split: Option.bind_splits)
  with s show ?thesis unfolding model_armed by blast
qed


theorem nmi_adapt_bounded_witness:
  "\<exists>x1 changed x'. nmi_setup (hw_params ex_platform)
      (spec_of ex_platform athlon_spec :: (unit, unit) op_x86_model_spec) ex_env ex_static = Some (rc_ok, x1) \<and>
    nmi_adapt (spec_of ex_platform athlon_spec :: (unit, unit) op_x86_model_spec) ex_env x1 = Some (changed, x') \<and>
    length (counter_config x') = length (counter_config x1)"
proof -
  obtain x1 where x1: "nmi_setup (hw_params ex_platform)
      (spec_of ex_platform athlon_spec :: (unit, unit) op_x86_model_spec) ex_env ex_static = Some (rc_ok, x1)"
    "x86_armed ex_platform ex_env athlon_spec x1" using ex_athlon_setup by blast
  from nmi_adapt_bounded [OF x1(2), where 'h = unit] x1(1) show ?thesis by blast
qed

theorem resume_starts_unstarted_profile_witness:
  "\<exists>x1 k2 k3. \<not> nmi_ctr_running x1 \<and>
    nmi_suspend (hw_params ex_platform) (spec_of ex_platform athlon_spec) ex_env
      ((ex_x86_kernel ex_ring)\<lparr>x86 := x1\<rparr>) = Some k2 \<and>
    nmi_resume (hw_params ex_platform) (spec_of ex_platform athlon_spec) ex_env k2 = Some k3 \<and>
    nmi_ctr_running (x86 k3)"
proof -
  have wf: "model_wf ex_platform ex_env athlon_spec (x86 (ex_x86_kernel ex_ring))"
    using ex_athlon_wf by simp
  obtain x1 where "nmi_setup (hw_params ex_platform)
      (spec_of ex_platform athlon_spec :: (unit, unit) op_x86_model_spec) ex_env
      (x86 (ex_x86_kernel ex_ring)) = Some (rc_ok, x1)"
    using ex_athlon_setup by auto
  from resume_starts_unstarted_profile [OF wf ex_x86_buffers this] show ?thesis by blast
qed

text \<open>Counter 0 of a P6 processor has overflowed, counter 1 has not.\<close>

definition ex_ppro :: x86_state where
  "ex_ppro = ex_x86\<lparr>ppro_reset_value := Some [100, 200],
     msr := (\<lambda>_ a. if a = 0xC1 then (7, 0) else if a = 0xC2 then (0x80000000, 0) else (0, 0)),
     cpu_msrs := (\<lambda>_. \<lparr>counters = Some [ex_msr\<lparr>addr := 0xC1\<rparr>, ex_msr\<lparr>addr := 0xC2\<rparr>],
       controls = Some [ex_msr\<lparr>addr := 0x186\<rparr>, ex_msr\<lparr>addr := 0x187\<rparr>]\<rparr>)\<rparr>"

definition ex_nmi :: "unit nmi" where
  "ex_nmi = \<lparr>entry_tb = 50, sample_tb = \<lambda>_. 51, restart_tb = 52, exit_tb = 53, nmi_regs = (),
     nmi_task = ex_task\<rparr>"

lemma ex_ppro_overflowed: "filter (overflowed 0 ex_ppro) [0, 1] = [0]"
  by (simp add: overflowed_def CTR_READ_def ctr_addr_def rdmsr_def elem_def ex_ppro_def CTR_OVERFLOWED_def)

theorem ppro_interrupt_samples_witness:
  "\<exists>k'. ppro_check_ctrs 0x10000 ex_sampler 0 ex_nmi ((ex_x86_kernel ex_ring)\<lparr>x86 := ex_ppro\<rparr>) = Some k' \<and>
    for_each (counter_sample ex_sampler ex_nmi 0 50) [0] ex_ring = Some (cpu_buffer k' 0) \<and>
    CTR_READ 0 0 (x86 k') = Some (- 100, - 1) \<and> CTR_READ 0 1 (x86 k') = Some (0x80000000, 0)"
proof -
  let ?k = "(ex_x86_kernel ex_ring)\<lparr>x86 := ex_ppro\<rparr>"
  have 1: "ppro_wf (p6_params ex_platform) ex_env ex_hw (x86 ?k)"
    using ex_sys by (simp add: ppro_wf_def ex_ppro_def ex_x86_def p6_ok_def ex_platform_def OP_MAX_COUNTER_def)
  have 2: "msrs_sized 2 2 0 (x86 ?k)" by (simp add: msrs_sized_def ex_ppro_def)
  have 3: "ring_ok (cpu_buffer ?k 0)" using ex_ring by simp
  have 4: "sampler_ok ex_sampler" by (simp add: sampler_ok_def)
  have 5: "distinct (map (\<lambda>m. ucast (addr m) :: u32) (entries 0 (x86 ?k)))"
    by (simp add: entries_def ex_ppro_def)
  have 6: "ppro_reset_value (x86 ?k) = Some [100, 200]" by (simp add: ex_ppro_def)
  have r: "CTR_READ 0 1 ex_ppro = Some (0x80000000, 0)" "overflowed 0 ex_ppro 0" "\<not> overflowed 0 ex_ppro 1"
    "ppro_start_timestamp ex_ppro 0 = 0" "entry_tb ex_nmi = 50"
    by (simp_all add: overflowed_def CTR_READ_def ctr_addr_def rdmsr_def elem_def ex_ppro_def
        CTR_OVERFLOWED_def ex_x86_def ex_nmi_def)
  from ppro_interrupt_samples [OF 1 2 3 4 5 6, where lvt = "0x10000" and t = ex_nmi] ex_ppro_overflowed r show ?thesis
    by (auto simp: less_2_cases_iff all_conj_distrib simp del: for_each.simps)
qed


section \<open>Setting up a Pentium 4\<close>

text \<open>Counters enabled for memory requests of the bus unit (event 6) on counters 2 and 6.\<close>

definition ex_p4_state :: x86_state where
  "ex_p4_state = ex_static\<lparr>msr := (\<lambda>_ a. if a = 0x1A0 then (0x80, 0) else (0, 0)),
     counter_config := (counter_config ex_x86)
       [2 := \<lparr>cc_count = 3000, cc_enabled = 1, cc_event = 6, cc_kernel = 1, cc_user = 0, cc_unit_mask = 3\<rparr>,
        6 := \<lparr>cc_count = 5000, cc_enabled = 1, cc_event = 6, cc_kernel = 0, cc_user = 1, cc_unit_mask = 1\<rparr>]\<rparr>"

lemma ex_p4_wf: "p4_wf ex_p4 ex_env ex_hw ex_p4_state"
  using ex_sys ex_p4_layout
  by (simp add: p4_wf_def p4_plain_def ex_p4_state_def ex_static_def ex_x86_def OP_MAX_COUNTER_def ex_p4_def)

theorem p4_setup_order_irrelevant_witness:
  "for_each (p4_enable_ctr ex_p4 0) [2, 6] ex_p4_state = for_each (p4_enable_ctr ex_p4 0) [6, 2] ex_p4_state"
  by (rule p4_setup_order_irrelevant [OF ex_p4_wf]) auto

theorem p4_setup_programs_counters_witness:
  "\<exists>x ms x'. p4_fill_in_addresses ex_p4 0 (set_msrs 0 ms ex_p4_state) = Some x \<and>
    p4_setup_ctrs ex_p4 0 x = Some x' \<and>
    drop_bit 13 (fst (rdmsr 0 0x368 x')) AND 7 = 5 \<and> rdmsr 0 0x308 x' = (- 3000, - 1)"
proof -
  let ?ms = "\<lparr>counters = Some (replicate 8 ex_msr), controls = Some (replicate 63 ex_msr)\<rparr>"
  let ?x0 = "set_msrs 0 ?ms ex_p4_state"
  have wf: "p4_wf ex_p4 ex_env ex_hw ?x0" using ex_p4_wf by (simp add: p4_wf_def set_msrs_def)
  have "msrs_sized 8 63 0 ?x0" by (simp add: msrs_sized_def set_msrs_def)
  from p4_fill [OF wf this] obtain ms where
    f: "p4_fill_in_addresses ex_p4 0 ?x0 = Some (set_msrs 0 ms ?x0)" "p4_ready ex_p4 0 (set_msrs 0 ms ?x0)"
    by blast
  let ?x = "set_msrs 0 ms ?x0" and ?g = "counter_config ex_p4_state ! 2" and ?ev = "p4_events ex_p4 ! 5"
  have wf': "p4_wf ex_p4 ex_env ex_hw ?x" using wf by (simp add: p4_wf_def set_msrs_def)
  have pmc: "MISC_PMC_ENABLED_P (fst (rdmsr 0 (ucast (MSR_IA32_MISC_ENABLE ex_p4)) ?x))"
    by (simp add: MISC_PMC_ENABLED_P_def rdmsr_def set_msrs_def ex_p4_state_def ex_p4_def)
  have g: "?g = \<lparr>cc_count = 3000, cc_enabled = 1, cc_event = 6, cc_kernel = 1, cc_user = 0, cc_unit_mask = 3\<rparr>"
    by (simp add: ex_p4_state_def ex_x86_def)
  have ev: "bindings ?ev = [binding ex_p4 CTR_FLAME_0 (MSR_P4_ESCR DAC 0), binding ex_p4 CTR_FLAME_2 (MSR_P4_ESCR DAC 1)]"
    "escr_select ?ev = 5"
    by (simp_all add: p4_events_defs event_binding_def)
  have b: "binding ex_p4 CTR_FLAME_0 (MSR_P4_ESCR DAC 0) \<in> set (bindings ?ev)" by (simp add: ev)
  have a: "p4_addr ex_p4 (MSR_P4_PERFCTR FLAME 0) = 0x308" "p4_addr ex_p4 (MSR_P4_CCCR FLAME 0) = 0x368"
    by (rule p4_layout_addr [OF ex_p4_layout], simp add: p4_documented_def)+
  have ctr: "counter_address (p4_counters ex_p4 ! 2) = 0x308" "cccr_address (p4_counters ex_p4 ! 2) = 0x368"
    using a by (simp_all add: p4_counters_def counter_binding_def)
  have e: "2 < (8 :: nat)" "?g = counter_config ?x ! 2" "cc_enabled ?g \<noteq> 0" "1 \<le> cc_event ?g"
    "cc_event ?g \<le> of_nat NUM_EVENTS" "?ev = p4_events ex_p4 ! unat (cc_event ?g - 1)"
    "escr_counter (binding ex_p4 CTR_FLAME_0 (MSR_P4_ESCR DAC 0)) = push_bit 2 1"
    unfolding g by (simp_all add: g set_msrs_def p4_sizes binding_def CTR_FLAME_0_def)
  from p4_setup_programs_counters [OF wf' f(2) e(1) pmc e(2-6) b e(7)] g ev(2) f(1) ctr show ?thesis
    by auto
qed

end
