(* ===== verification/Stock_Log.thy ===== *)
theory Stock_Log
  imports Cpu_Log
begin

text \<open>
  \<^verbatim>\<open>driver/cpu_buffer.c\<close> without \<^verbatim>\<open>RRPROFILE\<close>, the configuration of the stock OProfile driver: a
  task switch is one note that holds the address of the task structure. The room check of
  \<^verbatim>\<open>log_sample\<close> is exact in this configuration, so the ring is never overrun.
\<close>

definition stock_log_sample ::
  "task_struct \<Rightarrow> oprofile_cpu_buffer \<Rightarrow> ulong \<Rightarrow> int \<Rightarrow> ulong \<Rightarrow>
   (bool \<times> oprofile_cpu_buffer) option" where
  "stock_log_sample task b pc is_kernel ev =
    (let b = b\<lparr>sample_received := sample_received b + 1\<rparr> in
     if pc = ESCAPE_CODE then
       Some (False, b\<lparr>sample_invalid_eip := sample_invalid_eip b + 1\<rparr>)
     else if nr_available_slots b < 3 then
       Some (False, b\<lparr>sample_lost_overflow := sample_lost_overflow b + 1\<rparr>)
     else
       let is_kernel = (if is_kernel \<noteq> 0 then 1 else 0) in
       do { b \<leftarrow> (if last_is_kernel b \<noteq> is_kernel
                 then add_code (b\<lparr>last_is_kernel := is_kernel\<rparr>) (of_int is_kernel)
                 else Some b);
            b \<leftarrow> (if last_task b \<noteq> task_addr task
                 then add_code (b\<lparr>last_task := task_addr task\<rparr>) (task_addr task)
                 else Some b);
            b \<leftarrow> add_sample b pc ev 0;
            Some (True, b) })"

text \<open>
  \<^verbatim>\<open>oprofile_add_ext_sample\<close> without \<^verbatim>\<open>RRPROFILE\<close>: a back end without a backtrace function is not
  checked for, and calling through the null pointer is a fault.
\<close>

definition stock_add_ext_sample ::
  "'r backtrace_op option \<Rightarrow> ulong \<Rightarrow> task_struct \<Rightarrow> ulong \<Rightarrow> 'r \<Rightarrow> ulong \<Rightarrow> int \<Rightarrow>
   oprofile_cpu_buffer \<Rightarrow> oprofile_cpu_buffer option" where
  "stock_add_ext_sample backtrace backtrace_depth task pc regs ev is_kernel b =
    (if backtrace_depth = 0 then map_option snd (stock_log_sample task b pc is_kernel ev)
     else
       do { (begun, b) \<leftarrow> oprofile_begin_trace b;
            if \<not> begun then Some b
            else do { (logged, b) \<leftarrow> stock_log_sample task b pc is_kernel ev;
                      b \<leftarrow> (if logged
                           then (case backtrace of None \<Rightarrow> None
                                 | Some bt \<Rightarrow> bt regs (ucast backtrace_depth) b)
                           else Some b);
                      Some (oprofile_end_trace b) } })"

section \<open>What is queued\<close>

abbreviation code_entry :: "ulong \<Rightarrow> op_sample" where
  "code_entry v \<equiv> \<lparr>eip = ESCAPE_CODE, event = v, timestamp = 0\<rparr>"

definition stock_task_note :: "oprofile_cpu_buffer \<Rightarrow> task_struct \<Rightarrow> op_sample list" where
  "stock_task_note b task =
    (if last_task b \<noteq> task_addr task then [code_entry (task_addr task)] else [])"

definition stock_log_entries ::
  "oprofile_cpu_buffer \<Rightarrow> task_struct \<Rightarrow> ulong \<Rightarrow> int \<Rightarrow> ulong \<Rightarrow> op_sample list" where
  "stock_log_entries b task pc k ev =
     mode_note b k @ stock_task_note b task @ [\<lparr>eip = pc, event = ev, timestamp = 0\<rparr>]"

lemma stock_log_entries_le_3: "length (stock_log_entries b task pc k ev) \<le> 3"
  by (simp add: stock_log_entries_def mode_note_def stock_task_note_def)

lemma stock_log_accept:
  assumes "ring_ok b" and "pc \<noteq> ESCAPE_CODE" and "3 \<le> free_slots b"
  shows "stock_log_sample task b pc k ev =
    Some (True, fold put (stock_log_entries b task pc k ev)
                 (b\<lparr>sample_received := sample_received b + 1,
                    last_is_kernel := mode_of k, last_task := task_addr task\<rparr>))"
proof -
  have k: "(if k \<noteq> 0 then 1 else 0) = mode_of k" by (simp add: mode_of_def)
  show ?thesis
    using assms
    by (simp add: stock_log_sample_def Let_def k stock_log_entries_def mode_note_def
        stock_task_note_def add_code_def ring_simps frame_simps)
qed

lemma stock_log_refuse:
  assumes "ring_ok b" and "pc = ESCAPE_CODE \<or> free_slots b < 3"
  shows "\<exists>b'. stock_log_sample task b pc k ev = Some (False, b') \<and> ring_ok b' \<and>
    contents b' = contents b \<and> ring_cap b' = ring_cap b \<and> last_task b' = last_task b \<and>
    tracing b' = tracing b \<and>
    sample_invalid_eip b' + sample_lost_overflow b' =
      sample_invalid_eip b + sample_lost_overflow b + 1"
  using assms by (cases "pc = ESCAPE_CODE") (simp_all add: stock_log_sample_def ring_simps)

text \<open>In the stock configuration an accepted sample is queued behind everything that was queued
  before, together with its notes: the three slots that \<^verbatim>\<open>log_sample\<close> checks for are the most it
  writes. A sample that is not accepted is counted and leaves the queue as it is.\<close>

theorem stock_log_sample_never_overruns:
  assumes "ring_ok b"
  shows "\<exists>r b'. stock_log_sample task b pc k ev = Some (r, b') \<and> ring_ok b' \<and>
    ring_cap b' = ring_cap b \<and> tracing b' = tracing b \<and>
    contents b' = contents b @ (if r then stock_log_entries b task pc k ev else []) \<and>
    last_task b' = (if r then task_addr task else last_task b) \<and>
    sample_invalid_eip b' + sample_lost_overflow b' =
      sample_invalid_eip b + sample_lost_overflow b + (if r then 0 else 1)"
proof (cases "pc = ESCAPE_CODE \<or> free_slots b < 3")
  case True
  from stock_log_refuse [OF assms this, of task k ev] obtain b' where
    "stock_log_sample task b pc k ev = Some (False, b')" "ring_ok b'"
    "contents b' = contents b" "ring_cap b' = ring_cap b" "last_task b' = last_task b"
    "tracing b' = tracing b" "sample_invalid_eip b' + sample_lost_overflow b' =
      sample_invalid_eip b + sample_lost_overflow b + 1" by blast
  then show ?thesis by (intro exI [of _ False]) simp
next
  case False
  let ?es = "stock_log_entries b task pc k ev"
    and ?b = "b\<lparr>sample_received := sample_received b + 1, last_is_kernel := mode_of k,
               last_task := task_addr task\<rparr>"
  have ok: "ring_ok ?b" and "contents ?b = contents b" "ring_cap ?b = ring_cap b"
    using assms by (simp_all add: ring_simps)
  moreover have "length (contents b) + length ?es \<le> ring_cap b"
    using False stock_log_entries_le_3 [of b task pc k ev] by linarith
  ultimately have "contents (fold put ?es ?b) = contents b @ ?es"
    by (simp add: ring.items_enq_all)
  moreover have "ring_cap (fold put ?es ?b) = ring_cap b"
    by (simp add: ring.cap_enq_all ring_simps)
  ultimately show ?thesis
    using False ring.inv_enq_all [OF ok, of ?es] stock_log_accept [OF assms, of pc task k ev]
    by (intro exI [of _ True]) (simp add: frame_simps)
qed

end
