(* ===== verification/Stock_Module.thy ===== *)
theory Stock_Module
  imports X86_Lifecycle Stock_Log
begin

text \<open>
  Loading and unloading the module: \<^verbatim>\<open>oprofile_exit\<close> and a load that fails; and the branches that are
  compiled without \<^verbatim>\<open>RRPROFILE\<close>: \<^verbatim>\<open>oprofile_init\<close> of \<^verbatim>\<open>driver/oprof.c\<close>, the choice of the counter model in
  \<^verbatim>\<open>x86/nmi_int.c\<close>, compared with the one of \<^verbatim>\<open>RRPROFILE\<close>, and the timer interrupts of \<^verbatim>\<open>driver/timer_int_2.6.35.c\<close>
  and \<^verbatim>\<open>timer_int_2.6.9.c\<close>.
\<close>

section \<open>Unloading\<close>

text \<open>\<open>timer_exit\<close> and \<open>arch_exit\<close> are \<^verbatim>\<open>oprofile_timer_exit\<close> and \<^verbatim>\<open>oprofile_arch_exit\<close> of the build; the first
  component of the state tells whether the file system is registered.\<close>

definition oprofile_exit ::
  "('h kstate_scheme \<Rightarrow> 'h kstate_scheme) \<Rightarrow> ('h kstate_scheme \<Rightarrow> 'h kstate_scheme) \<Rightarrow>
   bool \<times> ('h, 'r) driver \<Rightarrow> bool \<times> ('h, 'r) driver" where
  "oprofile_exit timer_exit arch_exit m =
     (let (_, d) = m;
          d = on_kern timer_exit d;
          fs_registered = False
      in (fs_registered, on_kern arch_exit d))"

text \<open>From kernel 3.3 on.\<close>

definition oprofile_timer_exit :: "'h timer_kstate_scheme \<Rightarrow> 'h timer_kstate_scheme" where
  "oprofile_timer_exit k = k"

lemma op_nmi_exit_state:
  fixes B :: "'r x86_platform"
  shows "nmi_handler (op_nmi_exit B x) = nmi_handler x"
    "driverfs (op_nmi_exit B x) = (driverfs x \<and> \<not> using_nmi x)"
    "poll (op_nmi_exit B x) = (if using_nmi x then disable_poll_idle (poll x) else poll x)"
    "msr (op_nmi_exit B x) = msr x"
proof -
  let ?y = "if using_nmi x then exit_driverfs (x\<lparr>poll := disable_poll_idle (poll x)\<rparr>) else x"
  have s: "spec_exit (spec_of B m :: (unit, 'r) op_x86_model_spec) = None \<or>
      spec_exit (spec_of B m :: (unit, 'r) op_x86_model_spec) = Some ppro_exit" for m
    by (cases m) (simp_all add: op_ppro_spec_def op_athlon_spec_def op_p4_spec_def op_p4_ht2_spec_def
        op_arch_perfmon_spec_def)
  have "op_nmi_exit B x = ?y \<or> op_nmi_exit B x = ppro_exit ?y"
  proof (cases "nmi_model x")
    case (Some m)
    then have "nmi_model ?y = Some m" by (simp add: exit_driverfs_def)
    with s [of m] show ?thesis by (auto simp: op_nmi_exit_def Let_def)
  qed (simp add: op_nmi_exit_def exit_driverfs_def)
  then have "nmi_handler (op_nmi_exit B x) = nmi_handler x \<and>
    driverfs (op_nmi_exit B x) = (driverfs x \<and> \<not> using_nmi x) \<and>
    poll (op_nmi_exit B x) = (if using_nmi x then disable_poll_idle (poll x) else poll x) \<and>
    msr (op_nmi_exit B x) = msr x"
    by (elim disjE) (simp_all add: exit_driverfs_def ppro_exit_def)
  then show "nmi_handler (op_nmi_exit B x) = nmi_handler x"
    "driverfs (op_nmi_exit B x) = (driverfs x \<and> \<not> using_nmi x)"
    "poll (op_nmi_exit B x) = (if using_nmi x then disable_poll_idle (poll x) else poll x)"
    "msr (op_nmi_exit B x) = msr x" by blast+
qed

lemma unload_idle:
  fixes d :: "('h, 'r) x86_driver"
  assumes "x86_inv B env m d" and "\<not> buffer_opened (evb (kern d))" and "using_nmi (x86 (kern d))"
  shows "\<exists>d'. oprofile_exit oprofile_timer_exit
      (\<lambda>k :: ('h nmi_kstate_ext) timer_kstate_scheme. k\<lparr>x86 := oprofile_arch_exit B (x86 k)\<rparr>) (True, d) =
        (False, d') \<and>
    \<not> nmi_handler (x86 (kern d')) \<and> \<not> driverfs (x86 (kern d')) \<and>
    no_work (kern d') \<and> msr (x86 (kern d')) = msr (x86 (kern d)) \<and>
    (\<not> poll_unavailable (poll (x86 (kern d))) \<longrightarrow>
      pm_idle (poll (x86 (kern d'))) = pm_idle_save (poll (x86 (kern d))))"
proof -
  let ?x = "x86 (kern d)"
  let ?d = "on_kern (\<lambda>k. k\<lparr>x86 := oprofile_arch_exit B (x86 k)\<rparr>) d"
  have down: "session_down (\<lambda>h. x86_idle B env m (x86_of h)) d"
    using assms(1,2) by (simp add: life_inv_def)
  have "x86_idle B env m ?x" using life_inv_closed [OF assms(1,2)] by simp
  then have "\<not> nmi_handler (x86 (kern ?d)) \<and> \<not> driverfs (x86 (kern ?d))"
    using assms(3) by (simp add: x86_idle_def oprofile_arch_exit_def op_nmi_exit_state)
  moreover have "no_work (kern ?d)" using down by (simp add: session_down_def no_work_def)
  moreover have "msr (x86 (kern ?d)) = msr ?x" by (simp add: oprofile_arch_exit_def op_nmi_exit_state)
  moreover have "pm_idle (poll (x86 (kern ?d))) = pm_idle_save (poll ?x)" if "\<not> poll_unavailable (poll ?x)"
    using that assms(3) by (auto simp: oprofile_arch_exit_def op_nmi_exit_state poll_defs Let_def)
  ultimately show ?thesis by (simp add: oprofile_exit_def oprofile_timer_exit_def)
qed


section \<open>A load that fails\<close>

text \<open>C39: \<^verbatim>\<open>oprofile_init\<close> returns the result of registering the file system as its own. When that fails the kernel
  drops the module without calling \<^verbatim>\<open>oprofile_exit\<close>, but with counters the callbacks for power
  management stay registered.\<close>

theorem failed_load_leaves_callbacks:
  fixes d :: "('h, 'r) x86_driver"
  assumes "platform_ok B env" and "x86_fresh (x86 (kern d))" and "\<not> oprofile_started d"
    and "oprofile_arch_init B env no_operations (kern d) = Some (rc_ok, ops, k)"
  shows "\<exists>d0. oprofile_init ti (oprofile_arch_init B env) (Inl e) d = Some (Inl e, d0) \<and>
    driverfs (x86 (kern d0))"
proof -
  from arch_init_result [OF assms(1,2)] assms(4) obtain m name where
    m: "ops = x86_operations B env m name" "size name < 80" "driverfs (x86 k)" by auto
  then have "op_cpu_type ops = Some name" by (simp add: x86_operations_def nmi_operations_def)
  with init_with_arch [where arch_init = "oprofile_arch_init B env" and d = d] assms(3,4) m(2,3)
  show ?thesis by simp
qed

section \<open>Loading the stock driver\<close>

text \<open>\<open>timer\<close> is the module's parameter; the structure \<^verbatim>\<open>oprofile_ops\<close> is the only one, and starts
  empty.\<close>

definition stock_oprofile_init ::
  "bool \<Rightarrow>
   (('h kstate_scheme, 'r) oprofile_operations \<Rightarrow> rc \<times> ('h kstate_scheme, 'r) oprofile_operations) \<Rightarrow>
   (('h kstate_scheme, 'r) oprofile_operations \<Rightarrow> 'h kstate_scheme \<Rightarrow>
      (rc \<times> ('h kstate_scheme, 'r) oprofile_operations \<times> 'h kstate_scheme) option) \<Rightarrow>
   rc \<Rightarrow> ('h, 'r) driver \<Rightarrow> (rc \<times> ('h, 'r) driver) option" where
  "stock_oprofile_init timer timer_init arch_init register_fs d =
     do { (err, ops, k) \<leftarrow> arch_init (oprofile_ops d) (kern d);
          let d = d\<lparr>kern := k, oprofile_ops := ops\<rparr>;
          Some (if err \<noteq> rc_ok \<or> timer then
                  let (err, ops) = timer_init (oprofile_ops d);
                      d = d\<lparr>oprofile_ops := ops\<rparr>
                  in if err \<noteq> rc_ok then (err, d) else (register_fs, d)
                else (register_fs, d)) }"

text \<open>The timers of the stock driver: a sample on every tick, with the logging of theory Stock\_Log.\<close>

definition stock_take_sample ::
  "'r sampler \<Rightarrow> task_struct \<Rightarrow> 'r option \<Rightarrow> ulong \<Rightarrow> oprofile_cpu_buffer \<Rightarrow> oprofile_cpu_buffer option"
where
  "stock_take_sample sp task regs ev b =
     (let (is_kernel, pc) =
        (case regs of
           Some r \<Rightarrow> (if user_mode sp r then 0 else 1, instruction_pointer sp r)
         | None \<Rightarrow> (0, ESCAPE_CODE))
      in stock_add_ext_sample (bt_callback sp) (bt_depth sp) task pc regs ev is_kernel b)"

definition stock_hrtimer_notify ::
  "'r sampler \<Rightarrow> nat \<Rightarrow> 'r tick \<Rightarrow> 'h kstate_scheme \<Rightarrow> 'h kstate_scheme option" where
  "stock_hrtimer_notify sp c t k = on_cpu c (stock_take_sample sp (irq_task t) (irq_regs t) 0) k"

definition stock_timer_notify ::
  "'r sampler \<Rightarrow> nat \<Rightarrow> 'r tick \<Rightarrow> 'h kstate_scheme \<Rightarrow> 'h kstate_scheme option" where
  "stock_timer_notify sp c t k = on_cpu c (stock_take_sample sp (irq_task t) (irq_regs t) 0) k"

text \<open>\<open>reg\<close> is the result of \<^verbatim>\<open>register_timer_hook\<close>.\<close>

record stock_hook_kstate = kstate +
  stock_timer_hook :: bool

definition stock_timer_start ::
  "rc \<Rightarrow> 'h stock_hook_kstate_scheme \<Rightarrow> (rc \<times> 'h stock_hook_kstate_scheme) option" where
  "stock_timer_start reg k = Some (reg, if reg = rc_ok then k\<lparr>stock_timer_hook := True\<rparr> else k)"

definition stock_timer_stop ::
  "'h stock_hook_kstate_scheme \<Rightarrow> 'h stock_hook_kstate_scheme option" where
  "stock_timer_stop k = Some (k\<lparr>stock_timer_hook := False\<rparr>)"

definition stock_timer_init ::
  "rc \<Rightarrow> ('h stock_hook_kstate_scheme, 'r) oprofile_operations \<Rightarrow>
   rc \<times> ('h stock_hook_kstate_scheme, 'r) oprofile_operations" where
  "stock_timer_init reg ops =
     (rc_ok, ops\<lparr>op_create_files := None,
                 op_setup := None,
                 op_shutdown := None,
                 op_start := Some (stock_timer_start reg),
                 op_stop := Some stock_timer_stop,
                 op_cpu_type := Some ''timer''\<rparr>)"

text \<open>The timer takes over when there are no counters and when the parameter asks for it; it keeps the
  architecture's backtraces.\<close>

theorem stock_init_chooses:
  fixes d :: "('h stock_hook_kstate_ext, 'r) driver"
  assumes "arch_init (oprofile_ops d) (kern d) = Some (err, ops, k)"
  shows "\<exists>d0. stock_oprofile_init timer (stock_timer_init reg) arch_init fs d = Some (fs, d0) \<and>
    (if err = rc_ok \<and> \<not> timer then oprofile_ops d0 = ops
     else op_cpu_type (oprofile_ops d0) = Some ''timer'' \<and>
       op_start (oprofile_ops d0) = Some (stock_timer_start reg) \<and> op_setup (oprofile_ops d0) = None \<and>
       op_backtrace (oprofile_ops d0) = op_backtrace ops)"
  using assms by (simp add: stock_oprofile_init_def stock_timer_init_def Let_def)

text \<open>A tick without a backtrace queues the sample with its notes, or counts it as lost or invalid.\<close>

theorem stock_tick_queues:
  assumes "ring_ok (cpu_buffer k c)" and "bt_depth sp = 0"
    and "irq_regs t = Some r" and "instruction_pointer sp r \<noteq> ESCAPE_CODE"
    and "3 \<le> free_slots (cpu_buffer k c)"
  shows "\<exists>k'. stock_hrtimer_notify sp c t k = Some k' \<and> stock_timer_notify sp c t k = Some k' \<and>
    contents (cpu_buffer k' c) = contents (cpu_buffer k c) @
      stock_log_entries (cpu_buffer k c) (irq_task t) (instruction_pointer sp r)
        (if user_mode sp r then 0 else 1) 0"
proof -
  let ?k = "(if user_mode sp r then 0 else 1) :: int"
  from stock_log_sample_never_overruns [OF assms(1), of "irq_task t" "instruction_pointer sp r" ?k 0]
  obtain s b' where s: "stock_log_sample (irq_task t) (cpu_buffer k c) (instruction_pointer sp r) ?k 0 = Some (s, b')"
    "contents b' = contents (cpu_buffer k c) @ (if s then stock_log_entries (cpu_buffer k c) (irq_task t)
      (instruction_pointer sp r) ?k 0 else [])" by blast
  moreover have s by (use stock_log_accept [OF assms(1,4,5), of "irq_task t" ?k 0] s(1) in simp)
  ultimately show ?thesis
    using assms(2,3) by (simp add: stock_hrtimer_notify_def stock_timer_notify_def stock_take_sample_def
        stock_add_ext_sample_def on_cpu_def)
qed

section \<open>The counter models of the stock driver\<close>

text \<open>\<^verbatim>\<open>ppro_init\<close>: \<open>cpu_model\<close> is \<^verbatim>\<open>boot_cpu_data.x86_model\<close>.\<close>

definition stock_ppro_init ::
  "8 word \<Rightarrow> string option \<Rightarrow> x86_state \<Rightarrow> bool \<times> string option \<times> x86_state" where
  "stock_ppro_init cpu_model cpu_type x =
     (let found = (\<lambda>name. (True, Some name, x\<lparr>nmi_model := Some ppro_spec\<rparr>))
      in if cpu_model = 14 then found ''i386/core''
         else if cpu_model = 15 then found ''i386/core_2''
         else if 0xd < cpu_model then (False, cpu_type, x)
         else if cpu_model = 9 then found ''i386/p6_mobile''
         else if 5 < cpu_model then found ''i386/piii''
         else if 2 < cpu_model then found ''i386/pii''
         else found ''i386/ppro'')"

definition stock_choose_model :: "'r x86_platform \<Rightarrow> x86_state \<Rightarrow> (errno + string) \<times> x86_state" where
  "stock_choose_model B x =
     (case x86_vendor B of
        X86_VENDOR_AMD \<Rightarrow>
          if x86_family B = 6 then (Inr ''i386/athlon'', x\<lparr>nmi_model := Some athlon_spec\<rparr>)
          else if x86_family B = 0xf then (Inr ''x86-64/hammer'', x\<lparr>nmi_model := Some athlon_spec\<rparr>)
          else (Inl ENODEV, x)
      | X86_VENDOR_INTEL \<Rightarrow>
          let (ok, cpu_type, x) =
                (if x86_family B = 0xf then p4_init B None x
                 else if x86_family B = 6 then stock_ppro_init (of_nat (boot_model (p4_params B))) None x
                 else (False, None, x))
          in (case (ok, cpu_type) of (True, Some name) \<Rightarrow> (Inr name, x) | _ \<Rightarrow> (Inl ENODEV, x))
      | X86_VENDOR_OTHER \<Rightarrow> (Inl ENODEV, x))"

text \<open>On the models that the stock driver knows, both drivers choose the same counters under the same
  name, but for the models 10 to 13, which \<^verbatim>\<open>RRPROFILE\<close> calls by the name of the family.\<close>

lemma stock_ppro_models:
  assumes "cpu_model \<le> 15"
  shows "\<exists>ns name. find (\<lambda>(models, _). cpu_model \<in> set models) p6_models = Some (ns, name, ppro_spec) \<and>
    stock_ppro_init cpu_model ct x =
      (True, Some (if cpu_model \<in> {10, 11, 12, 13} then ''i386/piii'' else name), x\<lparr>nmi_model := Some ppro_spec\<rparr>)"
proof -
  have "cpu_model \<in> {0, 1, 2, 3, 4, 5, 6, 7, 8, 9, 10, 11, 12, 13, 14, 15}"
  proof -
    have "unat cpu_model \<in> {0..<16}" using assms by (simp add: word_le_nat_alt)
    then have "unat cpu_model \<in> set [0, 1, 2, 3, 4, 5, 6, 7, 8, 9, 10, 11, 12, 13, 14, 15]"
      by (simp add: atLeastLessThan_nat_numeral) linarith
    then have "word_of_nat (unat cpu_model) \<in> (word_of_nat ` set [0, 1, 2, 3, 4, 5, 6, 7, 8, 9, 10, 11, 12, 13, 14, 15] :: 8 word set)"
      by (rule imageI)
    then show ?thesis by simp
  qed
  then show ?thesis
    by (elim insertE emptyE; simp add: p6_models_def stock_ppro_init_def)
qed

text \<open>Every processor that the stock driver finds counters for has the same counters with \<^verbatim>\<open>RRPROFILE\<close>,
  unless the architectural model is asked for. The model number of the signature is that which the
  kernel found when it booted.\<close>

theorem rrprofile_keeps_models:
  assumes "stock_choose_model B x = (Inr name, x')"
    and "p6_model_number (cpuid_eax B 1) = of_nat (boot_model (p4_params B))"
    and "\<not> force_arch_perfmon x"
  shows "\<exists>name'. nmi_choose_model B x = (Inr name', x')"
proof (cases "x86_vendor B")
  case X86_VENDOR_AMD
  with assms(1) show ?thesis
    by (auto simp: stock_choose_model_def nmi_choose_model_def amd_families_def split: if_splits)
next
  case X86_VENDOR_OTHER
  with assms(1) show ?thesis by (simp add: stock_choose_model_def)
next
  case X86_VENDOR_INTEL
  let ?m = "of_nat (boot_model (p4_params B)) :: 8 word"
  show ?thesis
  proof (cases "x86_family B = 6")
    case True
    show ?thesis
    proof (cases "?m \<le> 15")
      case True
      from stock_ppro_models [OF this, of None x] obtain ns n where
        "find (\<lambda>(models, _). ?m \<in> set models) p6_models = Some (ns, n, ppro_spec)"
        "\<exists>n'. stock_ppro_init ?m None x = (True, Some n', x\<lparr>nmi_model := Some ppro_spec\<rparr>)" by blast
      with assms X86_VENDOR_INTEL \<open>x86_family B = 6\<close> show ?thesis
        by (auto simp: stock_choose_model_def nmi_choose_model_def nmi_ppro_init_def)
    next
      case False
      then have "stock_ppro_init ?m None x = (False, None, x)"
        by (auto simp: stock_ppro_init_def Let_def word_less_nat_alt word_le_nat_alt)
      with assms X86_VENDOR_INTEL \<open>x86_family B = 6\<close> show ?thesis
        by (simp add: stock_choose_model_def)
    qed
  next
    case False
    with assms X86_VENDOR_INTEL show ?thesis
      by (auto simp: stock_choose_model_def nmi_choose_model_def p4_init_def Let_def split: if_splits)
  qed
qed

end
