(* ===== verification/Timer_Hook.thy ===== *)
theory Timer_Hook
  imports Session
begin

text \<open>
  \<^verbatim>\<open>driver/timer_int_2.6.9.c\<close>: the timer back end of kernels without high-resolution timers,
  which samples from the kernel's timer interrupt through \<^verbatim>\<open>register_timer_hook\<close>; in its
  version for kernels from 2.6.27 on. It is a back end like the newer one, and records the
  same samples from the same ticks.
\<close>

section \<open>State\<close>

text \<open>
  The variables of the file; \<open>timer_hook\<close> tells whether \<^verbatim>\<open>timer_notify\<close> is the kernel's timer
  hook. The names of the two arrays are those of the source with the prefix \<open>hook\<close>, since
  Timer Int has arrays of the same names.
\<close>

record hook_kstate = kstate +
  timer_hook :: bool
  hook_timer_pop :: "nat \<Rightarrow> u32"
  hook_start_timestamp :: "nat \<Rightarrow> u64"

section \<open>Operations\<close>

text \<open>\<^verbatim>\<open>timer_notify\<close> in an interrupt on CPU \<open>c\<close>.\<close>

definition timer_notify ::
  "'r sampler \<Rightarrow> nat \<Rightarrow> 'r tick \<Rightarrow> 'h hook_kstate_scheme \<Rightarrow> 'h hook_kstate_scheme option" where
  "timer_notify sp c t k =
     (let k = k\<lparr>hook_timer_pop := (hook_timer_pop k)(c := hook_timer_pop k c + 1)\<rparr>
      in if oprofile_timer_count k \<le> scast (hook_timer_pop k c) then
           do { k \<leftarrow> on_cpu c (oprofile_add_sample_start (hook_start_timestamp k c)) k;
                k \<leftarrow> on_cpu c (oprofile_add_sample_stop (end_tb t)) k;
                k \<leftarrow> on_cpu c (take_sample sp (irq_task t) (irq_regs t) 0) k;
                Some (k\<lparr>hook_timer_pop := (hook_timer_pop k)(c := 0),
                        hook_start_timestamp := (hook_start_timestamp k)(c := next_tb t)\<rparr>) }
         else Some k)"

text \<open>\<open>tb\<close> is the clock of each CPU at \<^verbatim>\<open>timer_cpu_init\<close>, \<open>tb'\<close> at \<^verbatim>\<open>oprofile_add_start\<close>.\<close>

definition timer_cpu_init ::
  "(nat \<Rightarrow> u64) \<Rightarrow> nat \<Rightarrow> 'h hook_kstate_scheme \<Rightarrow> 'h hook_kstate_scheme" where
  "timer_cpu_init tb c k =
     k\<lparr>hook_timer_pop := (hook_timer_pop k)(c := 0),
       hook_start_timestamp := (hook_start_timestamp k)(c := tb c)\<rparr>"

text \<open>\<open>reg\<close> is the result of \<^verbatim>\<open>register_timer_hook\<close>, which fails while there is another hook.\<close>

definition timer_start ::
  "rc \<Rightarrow> nat list \<Rightarrow> (nat \<Rightarrow> u64) \<Rightarrow> (nat \<Rightarrow> u64) \<Rightarrow> 'h hook_kstate_scheme \<Rightarrow>
   (rc \<times> 'h hook_kstate_scheme) option" where
  "timer_start reg online tb tb' k =
     do { k \<leftarrow> for_each (\<lambda>c. on_cpu c (oprofile_add_start (tb' c))) online
                (fold (timer_cpu_init tb) online k);
          Some (reg, if reg = rc_ok then k\<lparr>timer_hook := True\<rparr> else k) }"

definition timer_stop ::
  "nat list \<Rightarrow> (nat \<Rightarrow> u64) \<Rightarrow> 'h hook_kstate_scheme \<Rightarrow> 'h hook_kstate_scheme option" where
  "timer_stop online tb k =
     for_each (\<lambda>c. on_cpu c (oprofile_add_stop (tb c))) online (k\<lparr>timer_hook := False\<rparr>)"

text \<open>\<^verbatim>\<open>MAX_COUNTER_VALUE\<close> and \<^verbatim>\<open>timer_adapt\<close>, which this file has too.\<close>

definition MAX_COUNTER_VALUE_hook :: ulong where "MAX_COUNTER_VALUE_hook = 2147483647 div ADAPT_DECAY_FACTOR"

definition timer_adapt_hook :: "'h kstate_scheme \<Rightarrow> (bool \<times> 'h kstate_scheme) option" where
  "timer_adapt_hook k =
     (if MAX_COUNTER_VALUE_hook \<le> oprofile_timer_count k then Some (False, k)
      else Some (True, k\<lparr>oprofile_timer_count := oprofile_timer_count k * ADAPT_DECAY_FACTOR\<rparr>))"

definition oprofile_timer_init_hook ::
  "rc \<Rightarrow> nat list \<Rightarrow> (nat \<Rightarrow> u64) \<Rightarrow> (nat \<Rightarrow> u64) \<Rightarrow> (nat \<Rightarrow> u64) \<Rightarrow>
   ('h hook_kstate_scheme, 'r) oprofile_operations \<Rightarrow>
   rc \<times> ('h hook_kstate_scheme, 'r) oprofile_operations" where
  "oprofile_timer_init_hook reg online tb tb' tb'' ops =
     (rc_ok, ops\<lparr>op_create_files := None,
                 op_setup := None,
                 op_shutdown := None,
                 op_start := Some (timer_start reg online tb tb'),
                 op_stop := Some (timer_stop online tb''),
                 op_adapt := Some timer_adapt_hook,
                 op_backtrace := None,
                 op_cpu_type := Some ''timer''\<rparr>)"

abbreviation hook_operations ::
  "rc \<Rightarrow> nat list \<Rightarrow> (nat \<Rightarrow> u64) \<Rightarrow> (nat \<Rightarrow> u64) \<Rightarrow> (nat \<Rightarrow> u64) \<Rightarrow>
   ('h hook_kstate_scheme, 'r) oprofile_operations" where
  "hook_operations reg online tb tb' tb'' \<equiv>
     snd (oprofile_timer_init_hook reg online tb tb' tb'' no_operations)"

lemma same_adapt: "timer_adapt_hook = timer_adapt"
  by (rule ext) (simp add: timer_adapt_hook_def timer_adapt_def MAX_COUNTER_VALUE_hook_def
      MAX_COUNTER_VALUE_def ADAPT_DECAY_FACTOR_def)

section \<open>The hook as a back end\<close>

text \<open>Logging on several CPUs, whatever each of them logs.\<close>

lemma on_cpus_keeps:
  assumes "buffers_ok possible k" and "set cs \<subseteq> set possible"
  shows "\<exists>k'. for_each (\<lambda>c. on_cpu c (handle (h c))) cs k = Some k' \<and> kernel_keeps possible k k' \<and>
    kstate.more k' = kstate.more k \<and> evb k' = evb k"
  using assms
proof (induction cs arbitrary: k)
  case Nil
  then show ?case by (simp add: kernel_keeps_refl)
next
  case (Cons c cs)
  from on_cpu_keeps [of possible k c "h c"] Cons.prems obtain k1 where k1:
    "on_cpu c (handle (h c)) k = Some k1" "kernel_keeps possible k k1"
    "kstate.more k1 = kstate.more k" "evb k1 = evb k" by auto
  from Cons.IH [of k1] kernel_keeps_ok [OF k1(2)] Cons.prems obtain k2 where
    "for_each (\<lambda>c. on_cpu c (handle (h c))) cs k1 = Some k2" "kernel_keeps possible k1 k2"
    "kstate.more k2 = kstate.more k1" "evb k2 = evb k1" by auto
  with k1 show ?case by (auto intro: kernel_keeps_trans)
qed

lemma handle_clock [simp]:
  "handle (H_start tb) = oprofile_add_start tb" "handle (H_stop tb) = oprofile_add_stop tb"
  by (rule ext, simp)+

lemma on_cpus_each:
  assumes "for_each (\<lambda>c. on_cpu c (g c)) cs k = Some k'" and "distinct cs"
  shows "kstate.more k' = kstate.more k \<and> evb k' = evb k \<and>
    (\<forall>c \<in> set cs. g c (cpu_buffer k c) = Some (cpu_buffer k' c)) \<and>
    (\<forall>c. c \<notin> set cs \<longrightarrow> cpu_buffer k' c = cpu_buffer k c)"
  using assms
proof (induction cs arbitrary: k)
  case (Cons c cs)
  then obtain b where b: "g c (cpu_buffer k c) = Some b"
    by (cases "g c (cpu_buffer k c)") (simp_all add: on_cpu_def)
  let ?k = "k\<lparr>cpu_buffer := (cpu_buffer k)(c := b)\<rparr>"
  have "on_cpu c (g c) k = Some ?k" using b by (simp add: on_cpu_def)
  then have "for_each (\<lambda>c. on_cpu c (g c)) cs ?k = Some k'" using Cons.prems(1) by simp
  from Cons.IH [OF this] Cons.prems(2) b show ?case by (auto simp: fun_upd_apply split: if_splits)
qed simp

lemmas on_cpus_start = on_cpus_keeps [where h = "\<lambda>c. H_start (tb c)" for tb, simplified]
lemmas on_cpus_stop = on_cpus_keeps [where h = "\<lambda>c. H_stop (tb c)" for tb, simplified]

lemma hook_init_same:
  "cpu_buffer (fold (timer_cpu_init tb) cs k) = cpu_buffer k \<and> evb (fold (timer_cpu_init tb) cs k) = evb k"
  by (induction cs arbitrary: k) (simp_all add: timer_cpu_init_def)

lemma hook_init_ok:
  "buffers_ok possible (fold (timer_cpu_init tb) cs k) = buffers_ok possible k"
  "kernel_keeps possible (fold (timer_cpu_init tb) cs k) k' = kernel_keeps possible k k'"
  "kernel_keeps possible (k\<lparr>timer_hook := v\<rparr>) k' = kernel_keeps possible k k'"
  "kernel_keeps possible k' (k\<lparr>timer_hook := v\<rparr>) = kernel_keeps possible k' k"
  "buffers_ok possible (k\<lparr>timer_hook := v\<rparr>) = buffers_ok possible k"
  using hook_init_same [of tb cs k] by (simp_all add: buffers_ok_def kernel_keeps_def)

lemma timer_start_keeps:
  assumes "buffers_ok possible k" and "set online \<subseteq> set possible"
  shows "\<exists>k'. timer_start reg online tb tb' k = Some (reg, k') \<and> kernel_keeps possible k k'"
  using on_cpus_start [of possible "fold (timer_cpu_init tb) online k" online tb'] assms
  by (auto simp: timer_start_def hook_init_ok)

lemma timer_stop_keeps:
  assumes "buffers_ok possible k" and "set online \<subseteq> set possible"
  shows "\<exists>k'. timer_stop online tb k = Some k' \<and> kernel_keeps possible k k'"
  using on_cpus_stop [of possible "k\<lparr>timer_hook := False\<rparr>" online tb] assms
  by (auto simp: timer_stop_def hook_init_ok)

text \<open>The environment whose online CPUs are possible ones.\<close>

lemma hook_backend:
  assumes "set online \<subseteq> set (possible_cpus env)"
  shows "backend env (\<lambda>h. True) (\<lambda>h. True) (hook_operations reg online tb tb' tb'')"
proof (unfold_locales, goal_cases)
  case (3 k)
  with timer_start_keeps [OF _ assms, of k reg tb tb'] show ?case
    by (auto simp: oprofile_timer_init_hook_def call_rc_def)
next
  case (4 k)
  with timer_stop_keeps [OF _ assms, of k tb''] show ?case
    by (auto simp: oprofile_timer_init_hook_def call_void_def)
next
  case (5 f k)
  then show ?case
    by (auto simp: oprofile_timer_init_hook_def same_adapt timer_adapt_def kernel_keeps_def
        buffers_ok_def)
qed (simp_all add: oprofile_timer_init_hook_def no_operations_def call_optional_def kernel_keeps_refl)

section \<open>Sessions\<close>

lemma hook_mode_init:
  fixes d :: "('h hook_kstate_ext, 'r) driver"
  assumes "oprofile_init (oprofile_timer_init_hook reg (online_cpus env) tb tb' tb'') no_arch_init fs d =
      Some (r, d0)"
    and "fresh_driver d" and "env_ok env"
  shows "life_inv env (\<lambda>h. True) (\<lambda>_ _. True) d0"
proof -
  let ?t = "hook_operations reg (online_cpus env) tb tb' tb''
    :: ('h hook_kstate_scheme, 'r) oprofile_operations"
  have "backend env (\<lambda>h. True) (\<lambda>h. True) ?t"
    using assms(3) by (intro hook_backend) (simp add: env_ok_def)
  from backend_backtrace [OF this, of None]
  have t: "good_ops env (\<lambda>h. True) (\<lambda>_ _. True) (?t\<lparr>op_backtrace := None\<rparr>)"
    by (auto simp: good_ops_def)
  have "d0 = d\<lparr>timer_ops := ?t\<lparr>op_backtrace := None\<rparr>, arch_ops := no_operations\<lparr>op_cpu_type := None\<rparr>,
      oprofile_num_counters := 0, oprofile_ops := ?t\<lparr>op_backtrace := None\<rparr>,
      oprofile_backtrace_depth := 512, oprofile_cpu_type := ''timer''\<rparr>"
    using assms(1,2)
    by (auto simp: oprofile_init_def Let_def oprofile_timer_init_hook_def no_arch_init_def
        no_operations_def oprofile_set_ulong_def fresh_driver_def split: if_splits)
  with t assms(2) show ?thesis
    by (auto simp: life_inv_def fresh_driver_def session_down_def sizes_ok_def driver_ops_ok_def
        no_operations_def)
qed

lemma hook_sessions_never_fault:
  fixes d :: "('h hook_kstate_ext, 'r) driver"
  assumes "fresh_driver d" and "env_ok env"
    and "oprofile_init (oprofile_timer_init_hook reg (online_cpus env) tb tb' tb'') no_arch_init fs d =
      Some (r, d0)"
    and "driver_reach env d0 d1"
  shows "event_buffer_open env cap d1 \<noteq> None \<and> oprofile_start env d1 \<noteq> None \<and>
    oprofile_stop env d1 \<noteq> None \<and> oprofile_adapt env d1 \<noteq> None \<and>
    (buffer_opened (evb (kern d1)) \<longrightarrow> event_buffer_release env d1 \<noteq> None \<and>
       event_buffer_read sig copy_ok count off (evb (kern d1)) \<noteq> None) \<and>
    (oprofile_started d1 \<and> i \<in> set (possible_cpus env) \<longrightarrow>
       on_cpu i (handle h) (kern d1) \<noteq> None) \<and>
    (work_scheduled (cpu_buffer (kern d1) i) \<longrightarrow>
       wq_sync_buffer (online_cpus env) here i (kern d1) \<noteq> None)"
  using life_inv_no_fault [OF driver_reach_inv [OF assms(4) hook_mode_init [OF assms(3,1,2)] assms(2)]
      assms(2)] .

section \<open>The same samples\<close>

text \<open>The state of the newer back end as one of this file: the driver's part and the two arrays
  are kept, and the hook is set if the timer is active on some CPU.\<close>

definition as_hook :: "bool \<Rightarrow> 'h timer_kstate_scheme \<Rightarrow> hook_kstate" where
  "as_hook hooked k = kstate.extend (kstate.truncate k)
     \<lparr>timer_hook = hooked, hook_timer_pop = timer_pop k, hook_start_timestamp = start_timestamp k\<rparr>"

lemma as_hook_simps [simp]:
  "cpu_buffer (as_hook h k) = cpu_buffer k" "evb (as_hook h k) = evb k"
  "oprofile_timer_count (as_hook h k) = oprofile_timer_count k"
  "timer_hook (as_hook h k) = h"
  "hook_timer_pop (as_hook h k) = timer_pop k"
  "hook_start_timestamp (as_hook h k) = start_timestamp k"
  "(as_hook h k)\<lparr>cpu_buffer := bs\<rparr> = as_hook h (k\<lparr>cpu_buffer := bs\<rparr>)"
  "(as_hook h k)\<lparr>hook_timer_pop := p\<rparr> = as_hook h (k\<lparr>timer_pop := p\<rparr>)"
  "(as_hook h k)\<lparr>hook_start_timestamp := ts\<rparr> = as_hook h (k\<lparr>start_timestamp := ts\<rparr>)"
  "(as_hook h k)\<lparr>timer_hook := h'\<rparr> = as_hook h' k"
  by (simp_all add: as_hook_def kstate.defs hook_kstate.defs)

lemma on_cpu_as_hook [simp]:
  "on_cpu c g (as_hook h k) = map_option (as_hook h) (on_cpu c g k)"
  by (simp add: on_cpu_def option.map_comp comp_def)

lemma bind_as_hook [simp]:
  "map_option g x \<bind> f = x \<bind> (\<lambda>k. f (g k))" "map_option g (x \<bind> f') = x \<bind> (\<lambda>k. map_option g (f' k))"
  by (cases x; simp)+

lemma tick_as_hook:
  "timer_notify sp c t (as_hook h k) = map_option (as_hook h) (oprofile_hrtimer_notify sp c t k)"
  by (simp add: timer_notify_def oprofile_hrtimer_notify_def Let_def)


text \<open>Starting differs: the hook back end marks the start of the profile in every ring, also when
  the kernel then refuses the hook.\<close>

lemma timer_start_marks:
  assumes "timer_start reg online tb tb' k = Some (r, k')" and "distinct online"
  shows "r = reg \<and> timer_hook k' = (timer_hook k \<or> reg = rc_ok) \<and>
    (\<forall>c \<in> set online. oprofile_add_start (tb' c) (cpu_buffer k c) = Some (cpu_buffer k' c) \<and>
       hook_timer_pop k' c = 0 \<and> hook_start_timestamp k' c = tb c)"
proof -
  have init: "timer_hook (fold (timer_cpu_init tb) cs k) = timer_hook k \<and>
      hook_timer_pop (fold (timer_cpu_init tb) cs k) c = (if c \<in> set cs then 0 else hook_timer_pop k c) \<and>
      hook_start_timestamp (fold (timer_cpu_init tb) cs k) c =
        (if c \<in> set cs then tb c else hook_start_timestamp k c)"
    for cs c and k :: "'a hook_kstate_scheme"
    by (induction cs arbitrary: k) (simp_all add: timer_cpu_init_def)
  from assms obtain k1 where k1:
    "for_each (\<lambda>c. on_cpu c (oprofile_add_start (tb' c))) online (fold (timer_cpu_init tb) online k) = Some k1"
    "r = reg" "k' = (if reg = rc_ok then k1\<lparr>timer_hook := True\<rparr> else k1)"
    by (auto simp: timer_start_def split: Option.bind_splits)
  let ?k0 = "fold (timer_cpu_init tb) online k"
  from on_cpus_each [OF k1(1) assms(2)] have "kstate.more k1 = kstate.more ?k0"
    "\<forall>c \<in> set online. oprofile_add_start (tb' c) (cpu_buffer ?k0 c) = Some (cpu_buffer k1 c)" by auto
  moreover from this(1) have "timer_hook k1 = timer_hook ?k0" "hook_timer_pop k1 = hook_timer_pop ?k0"
    "hook_start_timestamp k1 = hook_start_timestamp ?k0"
    by (cases k1; cases ?k0; simp)+
  ultimately show ?thesis
    using k1(2,3) init [where cs = online and k = k] hook_init_same [of tb online k] by simp
qed

end
