(* ===== verification/Nmi_Watchdog.thy ===== *)
theory Nmi_Watchdog
  imports Timer_Hook Poll_Idle
begin

text \<open>
  \<^verbatim>\<open>x86/nmi_timer_int_2.6.19.c\<close> and \<^verbatim>\<open>x86/nmi_timer_int_2.6.9.c\<close>: sampling from the interrupts of
  the kernel's NMI watchdog, through a handler for all such interrupts, or through the
  callback of older kernels, which takes the place of the watchdog.
\<close>

section \<open>\<^verbatim>\<open>nmi_timer_int_2.6.19.c\<close>\<close>

text \<open>
  The file in its version for kernels from 3.2 on; its functions \<^verbatim>\<open>timer_start\<close>, \<^verbatim>\<open>timer_stop\<close> and
  \<^verbatim>\<open>op_nmi_timer_init\<close> have the prefix \<open>die\<close> here. \<open>die_handler\<close> tells whether the driver's
  handler of the watchdog's interrupts is registered. The handler answers \<^verbatim>\<open>NMI_HANDLED\<close>
  whatever it is called for.
\<close>

record die_kstate = kstate +
  die_handler :: bool
  die_poll :: poll_state

definition profile_timer_exceptions_notify ::
  "'r sampler \<Rightarrow> nat \<Rightarrow> 'r tick \<Rightarrow> 'h kstate_scheme \<Rightarrow> 'h kstate_scheme option" where
  "profile_timer_exceptions_notify sp c t k = on_cpu c (take_sample sp (irq_task t) (irq_regs t) 0) k"

text \<open>Before kernel 3.2 it is a notifier, which answers the interrupts only.\<close>

datatype die_val = DIE_NMI | DIE_other

datatype notify_result = NOTIFY_DONE | NOTIFY_STOP

definition die_notify ::
  "'r sampler \<Rightarrow> nat \<Rightarrow> die_val \<Rightarrow> 'r tick \<Rightarrow> 'h kstate_scheme \<Rightarrow> (notify_result \<times> 'h kstate_scheme) option"
where
  "die_notify sp c val t k =
     (case val of
        DIE_NMI \<Rightarrow> do { k \<leftarrow> on_cpu c (take_sample sp (irq_task t) (irq_regs t) 0) k; Some (NOTIFY_STOP, k) }
      | DIE_other \<Rightarrow> Some (NOTIFY_DONE, k))"

text \<open>\<open>reg\<close> is the result of \<^verbatim>\<open>register_nmi_handler\<close>.\<close>

definition die_timer_start ::
  "rc \<Rightarrow> 'h die_kstate_scheme \<Rightarrow> (rc \<times> 'h die_kstate_scheme) option" where
  "die_timer_start reg k =
     (let k = (if poll_idle_enabled (die_poll k) \<noteq> 0
               then k\<lparr>die_poll := enable_poll_idle (die_poll k)\<rparr> else k)
      in if reg \<noteq> rc_ok then Some (Inl (ECODE 1), k)
         else Some (rc_ok, k\<lparr>die_handler := True\<rparr>))"

definition die_timer_stop :: "'h die_kstate_scheme \<Rightarrow> 'h die_kstate_scheme option" where
  "die_timer_stop k =
     (let k = k\<lparr>die_handler := False\<rparr> in Some (k\<lparr>die_poll := disable_poll_idle (die_poll k)\<rparr>))"

definition die_timer_init ::
  "rc \<Rightarrow> ('h die_kstate_scheme, 'r) oprofile_operations \<Rightarrow>
   rc \<times> ('h die_kstate_scheme, 'r) oprofile_operations" where
  "die_timer_init reg ops =
     (rc_ok, ops\<lparr>op_start := Some (die_timer_start reg), op_stop := Some die_timer_stop,
                 op_cpu_type := Some ''timer''\<rparr>)"

lemma die_keeps [simp]:
  "buffers_ok possible k \<Longrightarrow> kernel_keeps possible k (k\<lparr>die_poll := p\<rparr>)"
  "buffers_ok possible k \<Longrightarrow> kernel_keeps possible k (k\<lparr>die_handler := b\<rparr>)"
  "buffers_ok possible k \<Longrightarrow> kernel_keeps possible k (k\<lparr>die_poll := p, die_handler := b\<rparr>)"
  "buffers_ok possible k \<Longrightarrow> kernel_keeps possible k (k\<lparr>die_handler := b, die_poll := p\<rparr>)"
  by (simp_all add: kernel_keeps_def buffers_ok_def)

interpretation die: backend env "\<lambda>h. True" "\<lambda>h. True" "snd (die_timer_init reg no_operations)"
  for env reg
proof (unfold_locales, goal_cases)
  case (3 k)
  then show ?case
    by (auto simp: die_timer_init_def no_operations_def call_rc_def die_timer_start_def Let_def
        kernel_keeps_refl)
next
  case (4 k)
  then show ?case
    by (auto simp: die_timer_init_def no_operations_def call_void_def die_timer_stop_def Let_def)
qed (simp_all add: die_timer_init_def no_operations_def call_optional_def kernel_keeps_refl)

text \<open>A start that fails because the handler cannot be registered leaves idle polling switched on,
  and as the profile does not count as started, no stop switches it off.\<close>

lemma die_start_failure_keeps_polling:
  assumes "poll_idle_enabled (die_poll (kern d)) \<noteq> 0" and "\<not> poll_unavailable (die_poll (kern d))"
    and "oprofile_ops d = snd (die_timer_init (Inl e) no_operations)"
    and "is_setup d" and "\<not> oprofile_started d" and "buffers_ok (possible_cpus env) (kern d)"
  shows "\<exists>d'. oprofile_start env d = Some (Inl (ECODE 1), d') \<and> \<not> oprofile_started d' \<and>
    pm_idle (die_poll (kern d')) = Some poll_idle \<and>
    oprofile_stop env d' = Some d'"
proof -
  let ?d = "on_kern (oprofile_reset_stats (possible_cpus env)) d\<lparr>oprofile_adapt_value := 1\<rparr>"
  have "buffers_ok (possible_cpus env) (kern ?d)" using assms(6) by (simp add: ring_simps)
  from note_adapt_value_keeps [OF this] obtain k1 where k1: "note_adapt_value ?d = Some (?d\<lparr>kern := k1\<rparr>)"
    "kstate.more k1 = kstate.more (kern ?d)" by blast
  then have "kstate.more k1 = kstate.more (kern d)" by (simp add: frame_simps)
  then have "die_poll k1 = die_poll (kern d)" by (cases k1; cases "kern d") simp
  with k1 assms show ?thesis
    by (auto simp: oprofile_start_def oprofile_stop_def die_timer_init_def die_timer_start_def
        no_operations_def call_rc_def Let_def poll_defs)
qed

section \<open>\<^verbatim>\<open>nmi_timer_int_2.6.9.c\<close>\<close>

text \<open>
  Its functions \<^verbatim>\<open>timer_start\<close>, \<^verbatim>\<open>timer_stop\<close> and \<^verbatim>\<open>op_nmi_timer_init\<close> have the prefix \<open>wd\<close> here.
  \<open>nmi_callback\<close> tells whether the driver's callback is set, \<open>timer_watchdog\<close> whether the
  watchdog checks the interrupts itself.
\<close>

record wd_kstate = kstate +
  nmi_callback :: bool
  timer_watchdog :: bool
  wd_poll :: poll_state

text \<open>The callback returns 1, that is, it answers every interrupt.\<close>

definition wd_timer_callback ::
  "'r sampler \<Rightarrow> nat \<Rightarrow> 'r tick \<Rightarrow> 'h kstate_scheme \<Rightarrow> (int \<times> 'h kstate_scheme) option" where
  "wd_timer_callback sp c t k = map_option (Pair 1) (on_cpu c (take_sample sp (irq_task t) (irq_regs t) 0) k)"

definition wd_timer_start :: "'h wd_kstate_scheme \<Rightarrow> (rc \<times> 'h wd_kstate_scheme) option" where
  "wd_timer_start k =
     (let k = (if poll_idle_enabled (wd_poll k) \<noteq> 0
               then k\<lparr>wd_poll := enable_poll_idle (wd_poll k)\<rparr> else k);
          k = k\<lparr>timer_watchdog := False\<rparr>
      in Some (rc_ok, k\<lparr>nmi_callback := True\<rparr>))"

definition wd_timer_stop :: "'h wd_kstate_scheme \<Rightarrow> 'h wd_kstate_scheme option" where
  "wd_timer_stop k =
     (let k = k\<lparr>timer_watchdog := True\<rparr>;
          k = k\<lparr>nmi_callback := False\<rparr>
      in Some (k\<lparr>wd_poll := disable_poll_idle (wd_poll k)\<rparr>))"

text \<open>\<open>nmi_active\<close> is the kernel's variable, positive while the watchdog runs.\<close>

definition wd_timer_init ::
  "int \<Rightarrow> ('h wd_kstate_scheme, 'r) oprofile_operations \<Rightarrow>
   rc \<times> ('h wd_kstate_scheme, 'r) oprofile_operations" where
  "wd_timer_init nmi_active ops =
     (if nmi_active \<le> 0 then (Inl ENODEV, ops)
      else (rc_ok, ops\<lparr>op_start := Some wd_timer_start, op_stop := Some wd_timer_stop,
                       op_cpu_type := Some ''timer''\<rparr>))"

lemma wd_keeps [simp]:
  "buffers_ok possible k \<Longrightarrow> kernel_keeps possible k (k\<lparr>wd_poll := p\<rparr>)"
  "buffers_ok possible k \<Longrightarrow> kernel_keeps possible k (k\<lparr>nmi_callback := b, timer_watchdog := w\<rparr>)"
  "buffers_ok possible k \<Longrightarrow> kernel_keeps possible k (k\<lparr>nmi_callback := b, timer_watchdog := w, wd_poll := p\<rparr>)"
  by (simp_all add: kernel_keeps_def buffers_ok_def)

interpretation wd: backend env "\<lambda>h. True" "\<lambda>h. True" "snd (wd_timer_init 1 no_operations)" for env
proof (unfold_locales, goal_cases)
  case (3 k)
  then show ?case
    by (auto simp: wd_timer_init_def no_operations_def call_rc_def wd_timer_start_def Let_def
        kernel_keeps_def buffers_ok_def)
next
  case (4 k)
  then show ?case
    by (auto simp: wd_timer_init_def no_operations_def call_void_def wd_timer_stop_def Let_def
        kernel_keeps_def buffers_ok_def)
qed (simp_all add: wd_timer_init_def no_operations_def call_optional_def kernel_keeps_refl)

text \<open>A session gives the watchdog its interrupts back.\<close>

lemma wd_session_returns_watchdog:
  assumes "timer_watchdog k" and "\<not> nmi_callback k"
  shows "\<exists>k1 k2. wd_timer_start k = Some (rc_ok, k1) \<and> nmi_callback k1 \<and> \<not> timer_watchdog k1 \<and>
    wd_timer_stop k1 = Some k2 \<and> k2 = k\<lparr>wd_poll := wd_poll k2\<rparr>"
  using assms by (cases k) (simp add: wd_timer_start_def wd_timer_stop_def Let_def)

end
