(* ===== verification/Old_Nmi.thy ===== *)
theory Old_Nmi
  imports X86_Lifecycle Nmi_Watchdog
begin

text \<open>
  The branches of \<^verbatim>\<open>x86/nmi_int.c\<close> for older kernels: the handler of the counter interrupts as a
  notifier for all non-maskable interrupts (2.6.19 to 3.1) and as the kernel's callback for them (before
  2.6.19), neither of which looks at the state of the session; and power management through a
  system device (before 2.6.39).
\<close>

section \<open>The handlers\<close>

text \<open>\<open>val\<close> is the reason for which the kernel calls its notifiers (theory Nmi\_Watchdog);
  \<^verbatim>\<open>check_ctrs\<close> always returns 1.\<close>

definition profile_exceptions_notify_19 ::
  "('h, 'r) op_x86_model_spec \<Rightarrow> 'r sampler \<Rightarrow> nat \<Rightarrow> die_val \<Rightarrow> 'r nmi \<Rightarrow> 'h nmi_kstate_scheme \<Rightarrow>
   (notify_result \<times> 'h nmi_kstate_scheme) option" where
  "profile_exceptions_notify_19 M sp c val t k =
     (case val of
        DIE_NMI \<Rightarrow> do { k \<leftarrow> check_ctrs M sp c t k; Some (NOTIFY_STOP, k) }
      | DIE_other \<Rightarrow> Some (NOTIFY_DONE, k))"

definition nmi_callback_18 ::
  "('h, 'r) op_x86_model_spec \<Rightarrow> 'r sampler \<Rightarrow> nat \<Rightarrow> 'r nmi \<Rightarrow> 'h nmi_kstate_scheme \<Rightarrow>
   (int \<times> 'h nmi_kstate_scheme) option" where
  "nmi_callback_18 M sp c t k = map_option (Pair 1) (check_ctrs M sp c t k)"

text \<open>While the counters run, the three handlers do the same to the state.\<close>

lemma old_handlers_running:
  assumes "nmi_ctr_running (x86 k)"
  shows "map_option snd (profile_exceptions_notify_19 M sp c DIE_NMI t k) =
      map_option snd (profile_exceptions_notify M sp c t k)"
    "map_option snd (nmi_callback_18 M sp c t k) = map_option snd (profile_exceptions_notify M sp c t k)"
  using assms by (cases "check_ctrs M sp c t k";
    simp add: profile_exceptions_notify_19_def nmi_callback_18_def profile_exceptions_notify_def)+

text \<open>Between the setup and the shutdown of a session with counters the old handlers do not fault,
  and keep what the session needs.\<close>

theorem old_handlers_never_fault:
  assumes "buffers_ok (possible_cpus env) k" and "x86_armed B env m (x86 k)"
    and "c \<in> set (online_cpus env)" and "sampler_ok sp"
  shows "\<exists>r k'. profile_exceptions_notify_19 (spec_of B m) sp c val t k = Some (r, k') \<and>
      kernel_keeps (possible_cpus env) k k' \<and> x86_armed B env m (x86 k')" (is ?notifier)
    and "\<exists>k'. nmi_callback_18 (spec_of B m) sp c t k = Some (1, k') \<and>
      kernel_keeps (possible_cpus env) k k' \<and> x86_armed B env m (x86 k')" (is ?callback)
proof -
  have "x86_model.armed (model_wf B env m) (model_ready B m) (online_cpus env) (x86 k)"
    using assms(2) by (simp add: model_armed)
  from model.check_keeps [OF assms(1) this assms(3,4), of t] obtain k' where
    "check_ctrs (spec_of B m) sp c t k = Some k'" "kernel_keeps (possible_cpus env) k k'"
    "x86_armed B env m (x86 k')"
    by (auto simp: model.nmi_keeps_def model_armed)
  with assms(1,2) show ?notifier ?callback
    by (auto simp: profile_exceptions_notify_19_def nmi_callback_18_def kernel_keeps_refl
        split: die_val.split)
qed

text \<open>Neither of them looks at the state of the session, as the newer one does: before the setup
  has finished they go through structures whose addresses are not filled in.\<close>

lemma old_notifier_ignores_session:
  assumes "\<not> nmi_ctr_running (x86 k)" and "\<not> nmi_enabled (x86 k)"
  shows "profile_exceptions_notify M sp c t k = Some (NMI_DONE, k)"
    and "profile_exceptions_notify_19 M sp c DIE_NMI t k =
      map_option (Pair NOTIFY_STOP) (check_ctrs M sp c t k)"
  using assms by (cases "check_ctrs M sp c t k";
    simp add: profile_exceptions_notify_def profile_exceptions_notify_19_def)+

text \<open>Before 2.6.15 \<^verbatim>\<open>allocate_msrs\<close> makes the structures of the CPUs that are online. An interrupt on a
  CPU that came up after the setup, such as one of the NMI watchdog, goes through null pointers.\<close>

theorem late_cpu_callback_faults:
  assumes "hw_ok H" and "distinct online" and "allocate_msrs H (op_athlon_spec A) online x = (True, x1)"
    and "c \<notin> set online" and "controls (cpu_msrs x c) = None"
    and "cpu_msrs (x86 k) c = cpu_msrs x1 c"
  shows "nmi_callback_18 (op_athlon_spec A) sp c t k = None"
proof -
  from assms(3) have "allocate_loop H 4 4 online x = (True, x1)"
    by (simp add: allocate_msrs_def op_athlon_spec_def NUM_COUNTERS_def NUM_CONTROLS_def
        split: prod.splits if_splits)
  from allocate_loop_structs [OF assms(1) this assms(2)] assms(4-6)
  have "ctrl_addr c 0 (x86 k) = None" by (auto simp: ctrl_addr_def elem_def)
  then have "athlon_stop c (x86 k) = None"
    by (simp add: athlon_stop_def NUM_COUNTERS_def upt_rec [of 0] ctrl_modify_def CTRL_READ_def)
  then show ?thesis
    by (simp add: nmi_callback_18_def op_athlon_spec_def athlon_check_ctrs_def on_x86_def)
qed

section \<open>Power management before 2.6.39\<close>

text \<open>The callbacks return 0.\<close>

definition nmi_resume_38 ::
  "x86_hw \<Rightarrow> ('h, 'r) op_x86_model_spec \<Rightarrow> kernel_env \<Rightarrow> 'h nmi_kstate_scheme \<Rightarrow>
   (rc \<times> 'h nmi_kstate_scheme) option" where
  "nmi_resume_38 H M env k =
     (if nmi_enabled (x86 k) then do { (_, k) \<leftarrow> nmi_start H M env k; Some (rc_ok, k) } else Some (rc_ok, k))"

lemma resume_38_same: "map_option snd (nmi_resume_38 H M env k) = nmi_resume H M env k"
  by (cases "nmi_start H M env k") (auto simp: nmi_resume_38_def nmi_resume_def)

text \<open>
  The callbacks belong to a class of system devices and a device of it. \<open>class_rc\<close> and \<open>device_rc\<close>
  are the results of registering them. The result \<open>None\<close> stands for unregistering something that is
  not registered, which the kernel does not allow.
\<close>

record sysdev_state =
  class_registered :: bool
  device_registered :: bool

definition init_driverfs_38 :: "rc \<Rightarrow> rc \<Rightarrow> sysdev_state \<Rightarrow> rc \<times> sysdev_state" where
  "init_driverfs_38 class_rc device_rc s =
     (let (error, s) = (class_rc, if class_rc = rc_ok then s\<lparr>class_registered := True\<rparr> else s)
      in if error = rc_ok
         then (device_rc, if device_rc = rc_ok then s\<lparr>device_registered := True\<rparr> else s)
         else (error, s))"

definition exit_driverfs_38 :: "sysdev_state \<Rightarrow> sysdev_state option" where
  "exit_driverfs_38 s =
     do { s \<leftarrow> (if device_registered s then Some (s\<lparr>device_registered := False\<rparr>) else None);
          (if class_registered s then Some (s\<lparr>class_registered := False\<rparr>) else None) }"

text \<open>\<^verbatim>\<open>op_nmi_init\<close> does not look at the result of \<^verbatim>\<open>init_driverfs\<close>, and \<^verbatim>\<open>op_nmi_exit\<close> calls
  \<^verbatim>\<open>exit_driverfs\<close> whenever there are counters: unloading the module is right exactly if both
  registrations succeeded.\<close>

theorem sysdev_exit_needs_registration:
  assumes "s = \<lparr>class_registered = False, device_registered = False\<rparr>"
  shows "exit_driverfs_38 (snd (init_driverfs_38 class_rc device_rc s)) =
    (if class_rc = rc_ok \<and> device_rc = rc_ok then Some s else None)"
  using assms by (auto simp: init_driverfs_38_def exit_driverfs_38_def)

end
