(* ===== verification/Ppc_Machine.thy ===== *)
theory Ppc_Machine
  imports Timer_Hook Sampling
begin

unbundle bit_operations_syntax

text \<open>
  What the files of \<^verbatim>\<open>powerpc/\<close> share, for a 64-bit kernel: the special-purpose registers of
  each CPU, the structures and accessors of \<^verbatim>\<open>oprofile_impl.h\<close>, the variables of \<^verbatim>\<open>common.c\<close>
  and of the two counter models, and the time base. The bits of the registers and what the
  kernel knows of the processor are parameters.
\<close>

section \<open>Structures\<close>

text \<open>\<^verbatim>\<open>struct op_counter_config\<close> and \<^verbatim>\<open>struct op_system_config\<close>\<close>

record op_counter_config_ppc =
  pc_valid :: ulong
  pc_enabled :: ulong
  pc_event :: ulong
  pc_count :: ulong
  pc_kernel :: ulong
  pc_user :: ulong
  pc_unit_mask :: ulong

record op_system_config =
  sys_mmcr0 :: ulong
  sys_mmcr1 :: ulong
  sys_mmcra :: ulong
  enable_kernel :: ulong
  enable_user :: ulong
  backtrace_spinlocks :: ulong

definition OP_MAX_COUNTER_ppc :: nat where "OP_MAX_COUNTER_ppc = 8"

text \<open>The special-purpose registers that the driver reads and writes.\<close>

datatype spr =
    SPRN_MMCR0 | SPRN_MMCR1 | SPRN_MMCRA | SPRN_SIAR
  | SPRN_PMC1 | SPRN_PMC2 | SPRN_PMC3 | SPRN_PMC4 | SPRN_PMC5 | SPRN_PMC6 | SPRN_PMC7 | SPRN_PMC8

text \<open>The structures of counter models that \<^verbatim>\<open>common.c\<close> chooses from on a 64-bit kernel.\<close>

datatype powerpc_spec = op_model_rs64 | op_model_power4

text \<open>
  \<open>spr c r\<close> is register \<open>r\<close> of CPU \<open>c\<close>, \<open>msr c\<close> its machine state register. \<open>pmc_reserved\<close>
  tells whether the driver holds the performance counters and their interrupt. \<open>ctr\<close>, \<open>sys\<close>,
  \<open>model\<close> and \<open>cpu_khz\<close> are the variables of \<^verbatim>\<open>common.c\<close>, with the prefix \<open>ppc\<close>; those named
  after a model are its static ones.
\<close>

record ppc_state =
  spr :: "nat \<Rightarrow> spr \<Rightarrow> ulong"
  ppc_msr :: "nat \<Rightarrow> ulong"
  pmc_reserved :: bool
  ppc_model :: "powerpc_spec option"
  ppc_ctr :: "op_counter_config_ppc list"
  ppc_sys :: op_system_config
  ppc_cpu_khz :: u32
  power4_reset_value :: "ulong list"
  power4_start_timestamp :: "nat \<Rightarrow> u64"
  power4_running :: bool
  mmcr0_val :: u32
  mmcr1_val :: u64
  mmcra_val :: u64
  rs64_reset_value :: "ulong list"
  rs64_num_counters :: nat

record ppc_kstate = timer_kstate +
  ppc :: ppc_state

definition on_ppc ::
  "(ppc_state \<Rightarrow> ppc_state option) \<Rightarrow> 'h ppc_kstate_scheme \<Rightarrow> 'h ppc_kstate_scheme option" where
  "on_ppc f k = map_option (\<lambda>x. k\<lparr>ppc := x\<rparr>) (f (ppc k))"

section \<open>The kernel and the processor\<close>

text \<open>The processor versions that \<^verbatim>\<open>mmcra_must_set_sample\<close> asks for.\<close>

datatype processor = PV_POWER4 | PV_POWER4p | PV_970 | PV_970FX | PV_970MP | PV_other

text \<open>
  The bits of the registers from the kernel's headers; \<^verbatim>\<open>cur_cpu_spec\<close>; and the kernel's
  functions: \<open>va\<close> is \<^verbatim>\<open>__va\<close>, \<open>firmware_lpar\<close> whether the kernel runs in a logical partition,
  \<open>rtas_area\<close> base and size of the memory of the run-time services, if they are configured,
  \<open>enable_pmcs\<close> what \<^verbatim>\<open>ppc64_enable_pmcs\<close> does to the registers of its CPU. The three buckets
  are the addresses of the functions with these names.
\<close>

record ppc_platform =
  MMCR0_FC :: u32
  MMCR0_FCM1 :: u32
  MMCR0_PMXE :: u32
  MMCR0_FCECE :: u32
  MMCR0_PMC1CE :: u32
  MMCR0_PMCjCE :: u32
  MMCR0_PMAO :: u32
  MMCR0_KERNEL_DISABLE :: u32
  MMCR0_PROBLEM_DISABLE :: u32
  MMCRA_SAMPLE_ENABLE :: ulong
  MSR_PMM :: ulong
  num_pmcs :: nat
  oprofile_mmcra_sihv :: ulong
  oprofile_mmcra_sipr :: ulong
  has_mmcra :: bool
  processor_version :: processor
  firmware_lpar :: bool
  rtas_area :: "(ulong \<times> ulong) option"
  is_kernel_addr :: "ulong \<Rightarrow> bool"
  va :: "ulong \<Rightarrow> ulong"
  hypervisor_bucket :: ulong
  rtas_bucket :: ulong
  kernel_unknown_bucket :: ulong
  enable_pmcs :: "(spr \<Rightarrow> ulong) \<Rightarrow> spr \<Rightarrow> ulong"

section \<open>Registers\<close>

definition mfspr :: "nat \<Rightarrow> spr \<Rightarrow> ppc_state \<Rightarrow> ulong" where
  "mfspr c r x = spr x c r"

definition mtspr :: "nat \<Rightarrow> spr \<Rightarrow> ulong \<Rightarrow> ppc_state \<Rightarrow> ppc_state" where
  "mtspr c r v x = x\<lparr>spr := (spr x)(c := (spr x c)(r := v))\<rparr>"

text \<open>\<^verbatim>\<open>mtmsrd(mfmsr() | MSR_PMM)\<close>\<close>

definition set_PMM :: "ppc_platform \<Rightarrow> nat \<Rightarrow> ppc_state \<Rightarrow> ppc_state" where
  "set_PMM K c x = x\<lparr>ppc_msr := (ppc_msr x)(c := ppc_msr x c OR MSR_PMM K)\<rparr>"

text \<open>\<^verbatim>\<open>ctr_read\<close> and \<^verbatim>\<open>ctr_write\<close>: there are eight counters, and any other is read as 0.\<close>

definition pmc :: "nat \<Rightarrow> spr option" where
  "pmc i = (if i = 0 then Some SPRN_PMC1 else if i = 1 then Some SPRN_PMC2
     else if i = 2 then Some SPRN_PMC3 else if i = 3 then Some SPRN_PMC4
     else if i = 4 then Some SPRN_PMC5 else if i = 5 then Some SPRN_PMC6
     else if i = 6 then Some SPRN_PMC7 else if i = 7 then Some SPRN_PMC8 else None)"

definition ctr_read :: "nat \<Rightarrow> nat \<Rightarrow> ppc_state \<Rightarrow> u32" where
  "ctr_read c i x = (case pmc i of Some r \<Rightarrow> ucast (mfspr c r x) | None \<Rightarrow> 0)"

definition ctr_write :: "nat \<Rightarrow> nat \<Rightarrow> u32 \<Rightarrow> ppc_state \<Rightarrow> ppc_state" where
  "ctr_write c i v x = (case pmc i of Some r \<Rightarrow> mtspr c r (ucast v) x | None \<Rightarrow> x)"

text \<open>An element of an array; outside of it the access is a fault.\<close>

definition arr_at :: "'a list \<Rightarrow> nat \<Rightarrow> 'a option" where
  "arr_at xs i = (if i < length xs then Some (xs ! i) else None)"

definition arr_put :: "nat \<Rightarrow> 'a \<Rightarrow> 'a list \<Rightarrow> 'a list option" where
  "arr_put i v xs = (if i < length xs then Some (xs[i := v]) else None)"

text \<open>\<^verbatim>\<open>reset_value[i] = 0x80000000UL - ctr[i].count\<close> for the first \<open>n\<close> counters.\<close>

definition reset_values ::
  "nat \<Rightarrow> op_counter_config_ppc list \<Rightarrow> ulong list \<Rightarrow> ulong list option" where
  "reset_values n cs vs =
     for_each (\<lambda>i vs. do { g \<leftarrow> arr_at cs i; arr_put i (0x80000000 - pc_count g) vs }) [0..<n] vs"

text \<open>Such loops over the configuration, in closed form.\<close>

lemma arr_loop:
  assumes "n \<le> length cs" and "n \<le> length vs"
  shows "for_each (\<lambda>i vs. do { g \<leftarrow> arr_at cs i; arr_put i (f g) vs }) [0..<n] vs =
    Some (map f (take n cs) @ drop n vs)"
  using assms
proof (induction n)
  case (Suc n)
  then have "for_each (\<lambda>i vs. do { g \<leftarrow> arr_at cs i; arr_put i (f g) vs }) [0..<n] vs =
      Some (map f (take n cs) @ drop n vs)" by simp
  moreover have "(map f (take n cs) @ drop n vs)[n := f (cs ! n)] = map f (take (Suc n) cs) @ drop (Suc n) vs"
    using Suc.prems by (simp add: list_update_append take_Suc_conv_app_nth Cons_nth_drop_Suc [symmetric])
  ultimately show ?case using Suc.prems by (simp add: for_each_append arr_at_def arr_put_def)
qed simp

lemma cfg_loop:
  assumes "n \<le> length cs"
  shows "for_each (\<lambda>i m. map_option (\<lambda>g. f g m) (arr_at cs i)) [0..<n] m = Some (fold f (take n cs) m)"
  using assms
proof (induction n)
  case (Suc n)
  then show ?case by (simp add: for_each_append arr_at_def take_Suc_conv_app_nth)
qed simp

lemma reset_values_eq:
  "n \<le> length cs \<Longrightarrow> n \<le> length vs \<Longrightarrow>
   reset_values n cs vs = Some (map (\<lambda>g. 0x80000000 - pc_count g) (take n cs) @ drop n vs)"
  unfolding reset_values_def by (rule arr_loop)

text \<open>Reading after writing.\<close>

lemma pmc_Some: "i < 8 \<Longrightarrow> \<exists>r. pmc i = Some r"
proof -
  assume "i < 8"
  then consider "i = 0" | "i = 1" | "i = 2" | "i = 3" | "i = 4" | "i = 5" | "i = 6" | "i = 7" by linarith
  then show ?thesis by cases (simp_all add: pmc_def)
qed

lemma ctr_read_write:
  assumes "i < 8" and "j < 8"
  shows "ctr_read c i (ctr_write c j v x) = (if i = j then v else ctr_read c i x)"
proof -
  have "pmc i = Some r \<Longrightarrow> pmc j = Some r \<Longrightarrow> i = j" for r
    by (simp add: pmc_def split: if_splits)
  moreover obtain r s where "pmc i = Some r" "pmc j = Some s"
    using assms pmc_Some by blast
  moreover have "(ucast (ucast v :: ulong) :: u32) = v"
    by (rule bit_word_eqI) (simp add: bit_ucast_iff)
  ultimately show ?thesis
    by (auto simp: ctr_read_def ctr_write_def mtspr_def mfspr_def)
qed

lemma mfspr_ctr_write:
  assumes "r \<in> {SPRN_MMCR0, SPRN_MMCR1, SPRN_MMCRA, SPRN_SIAR}"
  shows "mfspr c r (ctr_write c' i v x) = mfspr c r x"
proof -
  have "s \<noteq> r" if "pmc i = Some s" for s using assms that by (auto simp: pmc_def split: if_splits)
  then show ?thesis by (auto simp: ctr_write_def mfspr_def mtspr_def split: option.split)
qed

lemma for_each_upto:
  assumes "I 0 s" and "\<And>j s. j < n \<Longrightarrow> I j s \<Longrightarrow> \<exists>s'. f j s = Some s' \<and> I (Suc j) s'"
  shows "\<exists>s'. for_each f [0..<n] s = Some s' \<and> I n s'"
  using assms
proof (induction n)
  case (Suc n)
  then obtain s' where "for_each f [0..<n] s = Some s'" "I n s'" by fastforce
  with Suc.prems(2) [of n s'] show ?case by (auto simp: for_each_append)
qed simp

lemma ctr_read_mmcr [simp]:
  "ctr_read c i (mtspr c SPRN_MMCR0 v x) = ctr_read c i x"
  "ctr_read c i (mtspr c SPRN_MMCR1 v x) = ctr_read c i x"
  by (auto simp: ctr_read_def mtspr_def mfspr_def pmc_def)

lemma set_PMM_reads [simp]:
  "ctr_read c i (set_PMM K c' x) = ctr_read c i x" "mfspr c r (set_PMM K c' x) = mfspr c r x"
  "power4_running (set_PMM K c' x) = power4_running x"
  "power4_start_timestamp (set_PMM K c' x) = power4_start_timestamp x"
  "ctr_read c i (x\<lparr>power4_start_timestamp := ts\<rparr>) = ctr_read c i x"
  by (simp_all add: set_PMM_def ctr_read_def mfspr_def cong: option.case_cong)

section \<open>Samples\<close>

text \<open>The sample of counter \<open>i\<close>.\<close>

definition add_ext_sample ::
  "'r sampler \<Rightarrow> nat \<Rightarrow> 'r tick \<Rightarrow> ulong \<Rightarrow> int \<Rightarrow> nat \<Rightarrow> 'h kstate_scheme \<Rightarrow> 'h kstate_scheme option" where
  "add_ext_sample sp c t pc is_kernel i =
     on_cpu c (oprofile_add_ext_sample (bt_callback sp) (bt_depth sp) (irq_task t) pc (irq_regs t)
       (of_nat i) is_kernel)"

section \<open>The time base\<close>

text \<open>
  \<^verbatim>\<open>oprofile_get_tb\<close>: the two halves of the 64-bit clock cannot be read at once; the loop reads
  the upper half, the lower half and the upper half again until the latter has not changed.
  \<open>clock n\<close> is the time base at the \<open>n\<close>-th of these instructions.
\<close>

definition mftbu :: "u64 \<Rightarrow> u32" where "mftbu w = ucast (drop_bit 32 w)"

definition mftb :: "u64 \<Rightarrow> u32" where "mftb w = ucast w"

partial_function (option) oprofile_get_tb_ppc :: "(nat \<Rightarrow> u64) \<Rightarrow> nat \<Rightarrow> u64 option" where
  "oprofile_get_tb_ppc clock n =
     (let hi = mftbu (clock n); lo = mftb (clock (n + 1)); hic = mftbu (clock (n + 2))
      in if hic \<noteq> hi then oprofile_get_tb_ppc clock (n + 3)
         else Some (push_bit 32 (ucast hi) OR ucast lo))"

lemma halves: "push_bit 32 (ucast (mftbu w)) OR ucast (mftb w) = w"
  by (rule bit_word_eqI) (auto simp: mftbu_def mftb_def bit_or_iff bit_push_bit_iff bit_drop_bit_eq
      bit_ucast_iff bit_imp_le_length)

lemma mftbu_div: "unat (mftbu w) = unat w div 2 ^ 32"
proof -
  have "unat w div 2 ^ 32 < 2 ^ 32"
    using unsigned_less [where w = w and ?'a = nat] by (simp add: less_mult_imp_div_less)
  then show ?thesis
    by (simp add: mftbu_def unsigned_ucast_eq drop_bit_eq_div take_bit_eq_mod unat_div_distrib)
qed

lemma mftbu_mono: "unat v \<le> unat w \<Longrightarrow> unat (mftbu v) \<le> unat (mftbu w)"
  by (simp add: mftbu_div div_le_mono)

lemma clock_mono: "mono (\<lambda>i. unat (clock i)) \<Longrightarrow> i \<le> j \<Longrightarrow> unat (mftbu (clock i)) \<le> unat (mftbu (clock j))"
  by (rule mftbu_mono) (erule monoD)

lemma get_tb_returns:
  assumes "mono (\<lambda>i. unat (clock i))" and "mftbu (clock (n + 2)) = mftbu (clock n)"
  shows "oprofile_get_tb_ppc clock n = Some (clock (n + 1))"
proof -
  have "unat (mftbu (clock (n + 1))) = unat (mftbu (clock n))"
    using clock_mono [OF assms(1)] assms(2) by (metis le_add1 le_antisym nat_add_left_cancel_le one_le_numeral)
  then have "mftbu (clock (n + 1)) = mftbu (clock n)" by (rule unsigned_word_eqI)
  with halves [of "clock (n + 1)"] assms(2) show ?thesis
    by (subst oprofile_get_tb_ppc.simps) (simp add: Let_def)
qed

lemma get_tb_again:
  "mftbu (clock (n + 2)) \<noteq> mftbu (clock n) \<Longrightarrow>
   oprofile_get_tb_ppc clock n = oprofile_get_tb_ppc clock (n + 3)"
  by (subst oprofile_get_tb_ppc.simps) (simp add: Let_def)

text \<open>Every repetition raises the upper half, so that the loop ends.\<close>

lemma get_tb_ends:
  assumes "mono (\<lambda>i. unat (clock i))"
  shows "\<exists>m > n. oprofile_get_tb_ppc clock n = Some (clock m)"
proof (induction "2 ^ 32 - unat (mftbu (clock n))" arbitrary: n rule: less_induct)
  case less
  show ?case
  proof (cases "mftbu (clock (n + 2)) = mftbu (clock n)")
    case True
    from get_tb_returns [OF assms True] show ?thesis by (intro exI [of _ "n + 1"]) simp
  next
    case False
    have "unat (mftbu (clock n)) \<le> unat (mftbu (clock (n + 2)))"
      by (rule clock_mono [OF assms]) simp
    moreover have "unat (mftbu (clock n)) \<noteq> unat (mftbu (clock (n + 2)))"
      using False unsigned_word_eqI by metis
    moreover have "unat (mftbu (clock (n + 2))) \<le> unat (mftbu (clock (n + 3)))"
      by (rule clock_mono [OF assms]) simp
    moreover have "unat (mftbu (clock (n + 3))) < 2 ^ 32"
      using unsigned_less [where w = "mftbu (clock (n + 3))" and ?'a = nat] by simp
    ultimately have "2 ^ 32 - unat (mftbu (clock (n + 3))) < 2 ^ 32 - unat (mftbu (clock n))"
      by linarith
    from less.hyps [OF this] obtain m where "m > n + 3"
      "oprofile_get_tb_ppc clock (n + 3) = Some (clock m)" by blast
    with get_tb_again [OF False] show ?thesis by (intro exI [of _ m]) simp
  qed
qed

text \<open>While the clock advances by less than \<open>2 ^ 32\<close>, the upper half changes once at most.\<close>

lemma get_tb_two_rounds:
  assumes "mono (\<lambda>i. unat (clock i))"
    and "unat (clock (n + 5)) < unat (clock n) + 2 ^ 32"
  shows "oprofile_get_tb_ppc clock n = Some (clock (n + 1)) \<or>
    oprofile_get_tb_ppc clock n = Some (clock (n + 4))"
proof (cases "mftbu (clock (n + 2)) = mftbu (clock n)")
  case True
  from get_tb_returns [OF assms(1) True] show ?thesis by simp
next
  case False
  have le: "unat (mftbu (clock n)) \<le> unat (mftbu (clock (n + 2)))"
    "unat (mftbu (clock (n + 2))) \<le> unat (mftbu (clock (n + 3)))"
    "unat (mftbu (clock (n + 3))) \<le> unat (mftbu (clock (n + 5)))"
    by (rule clock_mono [OF assms(1)], simp)+
  have "unat (mftbu (clock (n + 5))) \<le> (unat (clock n) + 2 ^ 32) div 2 ^ 32"
    unfolding mftbu_div using assms(2) by (intro div_le_mono) simp
  then have "unat (mftbu (clock (n + 5))) \<le> unat (mftbu (clock n)) + 1"
    by (simp add: mftbu_div div_add_self2)
  moreover have "unat (mftbu (clock n)) \<noteq> unat (mftbu (clock (n + 2)))"
    using False unsigned_word_eqI by metis
  ultimately have "unat (mftbu (clock (n + 5))) = unat (mftbu (clock (n + 3)))"
    using le by linarith
  then have "mftbu (clock (n + 3 + 2)) = mftbu (clock (n + 3))"
    using unsigned_word_eqI by (simp add: add.commute numeral_eq_Suc)
  from get_tb_returns [OF assms(1) this] get_tb_again [OF False] show ?thesis
    by (simp add: numeral_eq_Suc)
qed

text \<open>C28: reading the time base ends, whatever interrupts delay it between its instructions, and returns
  the value that the clock had at one instant during the call, never a mix of two; while the
  clock advances by less than \<open>2 ^ 32\<close>, at most two rounds of the loop are needed.\<close>

theorem get_tb_atomic:
  assumes "mono (\<lambda>i. unat (clock i))"
  shows "\<exists>m > n. oprofile_get_tb_ppc clock n = Some (clock m) \<and>
    (unat (clock (n + 5)) < unat (clock n) + 2 ^ 32 \<longrightarrow> m = n + 1 \<or> m = n + 4)"
proof -
  from get_tb_ends [OF assms, of n] obtain m where m: "m > n" "oprofile_get_tb_ppc clock n = Some (clock m)" by blast
  show ?thesis
  proof (cases "unat (clock (n + 5)) < unat (clock n) + 2 ^ 32")
    case True
    from get_tb_two_rounds [OF assms True] show ?thesis
      by (elim disjE) (intro exI [of _ "n + 1"] conjI, simp_all, intro exI [of _ "n + 4"] conjI, simp_all)
  qed (use m in blast)
qed

end
