(* ===== verification/Ppc_Backtrace.thy ===== *)
theory Ppc_Backtrace
  imports Ppc_Machine
begin

text \<open>
  \<^verbatim>\<open>powerpc/backtrace.c\<close>: the callback that follows the back chain of the interrupted stack, in its
  version for \<^verbatim>\<open>RRPROFILE\<close>, 64-bit kernels and kernels from 2.6.17 on. The three walks share the
  locale \<open>back_chain\<close>: the loops are a reference walk along the chain, and end for every chain.
\<close>

section \<open>The stack\<close>

text \<open>
  What the code finds: the registers of the interrupt, the checks of the kernel, and memory.
  \<open>kernel_stack\<close> is the frame at a kernel address, back chain and saved link register, \<open>None\<close>
  if the address is not mapped; \<open>user_stack64\<close> and \<open>user_stack32\<close> are the frames that
  \<^verbatim>\<open>__copy_from_user_inatomic\<close> copies, \<open>None\<close> if it fails.
\<close>

record 'r ppc_stack =
  ppc_user_mode :: "'r \<Rightarrow> bool"
  gpr1 :: "'r \<Rightarrow> ulong"
  link_register :: "'r \<Rightarrow> ulong"
  validate_sp :: "ulong \<Rightarrow> bool"
  kernel_stack :: "ulong \<Rightarrow> (ulong \<times> ulong) option"
  kernel_addr :: "ulong \<Rightarrow> bool"
  tif_32bit :: bool
  access_ok_ppc :: "ulong \<Rightarrow> nat \<Rightarrow> bool"
  user_stack64 :: "ulong \<Rightarrow> (ulong \<times> ulong) option"
  user_stack32 :: "u32 \<Rightarrow> (u32 \<times> u32) option"

section \<open>The walks\<close>

definition user_getsp32 ::
  "'r ppc_stack \<Rightarrow> u32 \<Rightarrow> bool \<Rightarrow> oprofile_cpu_buffer \<Rightarrow> (u32 \<times> oprofile_cpu_buffer) option" where
  "user_getsp32 E sp is_first b =
     (if \<not> access_ok_ppc E (ucast sp) 8 then Some (0, b)
      else case user_stack32 E sp of
             None \<Rightarrow> Some (0, b)
           | Some (chain, lr) \<Rightarrow>
               do { b \<leftarrow> (if \<not> is_first then oprofile_add_trace (ucast lr) b else Some b);
                    Some (chain, b) })"

definition user_getsp64 ::
  "'r ppc_stack \<Rightarrow> ulong \<Rightarrow> bool \<Rightarrow> oprofile_cpu_buffer \<Rightarrow> (ulong \<times> oprofile_cpu_buffer) option" where
  "user_getsp64 E sp is_first b =
     (if \<not> access_ok_ppc E sp 24 then Some (0, b)
      else case user_stack64 E sp of
             None \<Rightarrow> Some (0, b)
           | Some (chain, lr) \<Rightarrow>
               do { b \<leftarrow> (if \<not> is_first then oprofile_add_trace lr b else Some b);
                    Some (chain, b) })"

definition kernel_getsp ::
  "'r ppc_stack \<Rightarrow> ulong \<Rightarrow> bool \<Rightarrow> oprofile_cpu_buffer \<Rightarrow> (ulong \<times> oprofile_cpu_buffer) option" where
  "kernel_getsp E sp is_first b =
     (if \<not> validate_sp E sp then Some (0, b)
      else do { (chain, lr) \<leftarrow> kernel_stack E sp;
                b \<leftarrow> (if \<not> is_first \<and> kernel_addr E lr then oprofile_add_trace lr b else Some b);
                Some (chain, b) })"

text \<open>The loop for the kernel's stack.\<close>

fun kernel_loop ::
  "('a::zero \<Rightarrow> bool \<Rightarrow> oprofile_cpu_buffer \<Rightarrow> ('a \<times> oprofile_cpu_buffer) option) \<Rightarrow> nat \<Rightarrow> 'a \<Rightarrow> bool \<Rightarrow>
   oprofile_cpu_buffer \<Rightarrow> oprofile_cpu_buffer option" where
  "kernel_loop getsp 0 sp first_frame b = Some b"
| "kernel_loop getsp (Suc depth) sp first_frame b =
     do { (sp, b) \<leftarrow> getsp sp first_frame b;
          if sp = 0 then Some b else kernel_loop getsp depth sp False b }"

text \<open>The loop for a user stack adds the link register itself when it has passed the first frame.\<close>

fun user_loop ::
  "('a::zero \<Rightarrow> bool \<Rightarrow> oprofile_cpu_buffer \<Rightarrow> ('a \<times> oprofile_cpu_buffer) option) \<Rightarrow> ulong \<Rightarrow> nat \<Rightarrow> 'a \<Rightarrow>
   bool \<Rightarrow> oprofile_cpu_buffer \<Rightarrow> oprofile_cpu_buffer option" where
  "user_loop getsp lr 0 sp first_frame b = Some b"
| "user_loop getsp lr (Suc depth) sp first_frame b =
     do { (sp, b) \<leftarrow> getsp sp first_frame b;
          if sp = 0 then Some b
          else do { b \<leftarrow> (if first_frame then oprofile_add_trace lr b else Some b);
                    user_loop getsp lr depth sp False b } }"

definition user_walk ::
  "('a::zero \<Rightarrow> bool \<Rightarrow> oprofile_cpu_buffer \<Rightarrow> ('a \<times> oprofile_cpu_buffer) option) \<Rightarrow> ulong \<Rightarrow> u32 \<Rightarrow> 'a \<Rightarrow>
   oprofile_cpu_buffer \<Rightarrow> oprofile_cpu_buffer option" where
  "user_walk getsp lr depth sp b =
     do { (sp, depth, b) \<leftarrow>
            (if depth \<noteq> 0 then do { (sp, b) \<leftarrow> getsp sp True b; Some (sp, depth - 1, b) }
             else Some (sp, depth, b));
          if sp \<noteq> 0 then user_loop getsp lr (unat depth) sp True b else Some b }"

text \<open>The number of frames is an \<^verbatim>\<open>unsigned int\<close>; adding one for the top frame may wrap.\<close>

definition op_powerpc_backtrace :: "'r ppc_stack \<Rightarrow> 'r option backtrace_op" where
  "op_powerpc_backtrace E regs depth b =
     (case regs of
        None \<Rightarrow> None
      | Some r \<Rightarrow>
          let sp = gpr1 E r; lr = link_register E r; depth = depth + 1
          in if \<not> ppc_user_mode E r then kernel_loop (kernel_getsp E) (unat depth) sp True b
             else if \<not> tif_32bit E then user_walk (user_getsp64 E) lr depth sp b
             else user_walk (user_getsp32 E) lr depth (ucast sp) b)"

section \<open>Following a chain\<close>

text \<open>
  The reference: the saved link registers of at most \<open>n\<close> frames from \<open>sp\<close> on, where \<open>out\<close> is the
  frame at an address; the walk ends at an address without a frame and after a frame whose
  chain is 0.
\<close>

fun chain_lrs :: "('a::zero \<Rightarrow> ('a \<times> ulong) option) \<Rightarrow> nat \<Rightarrow> 'a \<Rightarrow> ulong list" where
  "chain_lrs out 0 sp = []"
| "chain_lrs out (Suc n) sp =
     (case out sp of
        None \<Rightarrow> []
      | Some (sp', lr) \<Rightarrow> lr # (if sp' = 0 then [] else chain_lrs out n sp'))"

lemma chain_lrs_length: "length (chain_lrs out n sp) \<le> n"
  by (induction n arbitrary: sp) (auto split: option.split)

text \<open>What a user stack gives: the link register in place of the one saved in the second frame.\<close>

fun user_lrs :: "('a::zero \<Rightarrow> ('a \<times> ulong) option) \<Rightarrow> ulong \<Rightarrow> nat \<Rightarrow> 'a \<Rightarrow> ulong list" where
  "user_lrs out lr (Suc (Suc n)) sp =
     (case out sp of
        None \<Rightarrow> []
      | Some (sp1, _) \<Rightarrow>
          if sp1 = 0 then []
          else case out sp1 of
                 None \<Rightarrow> []
               | Some (sp2, _) \<Rightarrow> if sp2 = 0 then [] else lr # chain_lrs out n sp2)"
| "user_lrs out lr _ sp = []"

lemma user_lrs_length: "length (user_lrs out lr n sp) \<le> n - 1"
  by (induction out lr n sp rule: user_lrs.induct)
    (auto split: option.split intro: chain_lrs_length)

locale back_chain =
  fixes getsp :: "'a::zero \<Rightarrow> bool \<Rightarrow> oprofile_cpu_buffer \<Rightarrow> ('a \<times> oprofile_cpu_buffer) option"
    and out :: "'a \<Rightarrow> ('a \<times> ulong) option"
    and keep :: "ulong \<Rightarrow> bool"
  assumes step: "getsp sp first b =
      (case out sp of
         None \<Rightarrow> Some (0, b)
       | Some (sp', lr) \<Rightarrow>
           if first \<or> \<not> keep lr then Some (sp', b)
           else map_option (Pair sp') (oprofile_add_trace lr b))"
begin

lemma kernel_loop_rest:
  "kernel_loop getsp n sp False b = for_each oprofile_add_trace (filter keep (chain_lrs out n sp)) b"
proof (induction n arbitrary: sp b)
  case (Suc n)
  show ?case
  proof (cases "out sp")
    case (Some f)
    obtain sp' lr where f: "f = (sp', lr)" by (cases f)
    show ?thesis
      using Some f Suc by (cases "oprofile_add_trace lr b") (auto simp: step)
  qed (simp add: step)
qed simp

lemma kernel_loop_chain:
  "kernel_loop getsp n sp True b =
    for_each oprofile_add_trace (filter keep (drop 1 (chain_lrs out n sp))) b"
  by (cases n) (auto simp: step kernel_loop_rest split: option.split)

lemma user_loop_rest:
  assumes "\<And>lr. keep lr"
  shows "user_loop getsp l n sp False b = for_each oprofile_add_trace (chain_lrs out n sp) b"
proof (induction n arbitrary: sp b)
  case (Suc n)
  show ?case
  proof (cases "out sp")
    case (Some f)
    obtain sp' lr where f: "f = (sp', lr)" by (cases f)
    show ?thesis
      using Some f Suc assms by (cases "oprofile_add_trace lr b") (auto simp: step)
  qed (simp add: step)
qed simp

lemma user_walk_chain:
  assumes "\<And>lr. keep lr"
  shows "user_walk getsp l depth sp b = for_each oprofile_add_trace (user_lrs out l (unat depth) sp) b"
proof (cases "unat depth")
  case 0
  then have "depth = 0" by (simp add: unat_eq_zero)
  then show ?thesis by (cases "sp = 0") (simp_all add: user_walk_def)
next
  case (Suc n)
  then have d: "depth \<noteq> 0" by auto
  then have n: "unat (depth - 1) = n" using Suc by (simp add: unat_minus_one)
  show ?thesis
  proof (cases n)
    case 0
    then show ?thesis using d n Suc by (auto simp: user_walk_def step split: option.split)
  next
    case (Suc m)
    show ?thesis
    proof (cases "out sp")
      case (Some f)
      obtain sp1 lr1 where f: "f = (sp1, lr1)" by (cases f)
      show ?thesis
      proof (cases "out sp1")
        case (Some g)
        obtain sp2 lr2 where g: "g = (sp2, lr2)" by (cases g)
        show ?thesis
          using Some g f \<open>out sp = Some f\<close> d n Suc \<open>unat depth = Suc n\<close> assms
          by (cases "oprofile_add_trace l b") (auto simp: user_walk_def step user_loop_rest)
      qed (use \<open>out sp = Some f\<close> f d n Suc \<open>unat depth = Suc n\<close> in \<open>auto simp: user_walk_def step\<close>)
    qed (use d n Suc \<open>unat depth = Suc n\<close> in \<open>simp add: user_walk_def step\<close>)
  qed
qed

end

section \<open>The callback\<close>

definition kernel_chain :: "'r ppc_stack \<Rightarrow> ulong \<Rightarrow> (ulong \<times> ulong) option" where
  "kernel_chain E sp = (if validate_sp E sp then kernel_stack E sp else None)"

definition user64_chain :: "'r ppc_stack \<Rightarrow> ulong \<Rightarrow> (ulong \<times> ulong) option" where
  "user64_chain E sp = (if access_ok_ppc E sp 24 then user_stack64 E sp else None)"

definition user32_chain :: "'r ppc_stack \<Rightarrow> u32 \<Rightarrow> (u32 \<times> ulong) option" where
  "user32_chain E sp =
     (if access_ok_ppc E (ucast sp) 8 then map_option (\<lambda>(chain, lr). (chain, ucast lr)) (user_stack32 E sp)
      else None)"

interpretation chain64: back_chain "user_getsp64 E" "user64_chain E" "\<lambda>_. True" for E
  by unfold_locales
    (auto simp: user_getsp64_def user64_chain_def map_option_case Option.bind_def split: option.split)

interpretation chain32: back_chain "user_getsp32 E" "user32_chain E" "\<lambda>_. True" for E
  by unfold_locales
    (auto simp: user_getsp32_def user32_chain_def map_option_case Option.bind_def split: option.split)

text \<open>The stack pointers that the kernel accepts are mapped.\<close>

definition ppc_stack_mapped :: "'r ppc_stack \<Rightarrow> bool" where
  "ppc_stack_mapped E \<longleftrightarrow> (\<forall>sp. validate_sp E sp \<longrightarrow> kernel_stack E sp \<noteq> None)"

lemma kernel_back_chain:
  assumes "ppc_stack_mapped E"
  shows "back_chain (kernel_getsp E) (kernel_chain E) (kernel_addr E)"
proof
  fix sp first b
  show "kernel_getsp E sp first b = (case kernel_chain E sp of None \<Rightarrow> Some (0, b)
      | Some (sp', lr) \<Rightarrow> if first \<or> \<not> kernel_addr E lr then Some (sp', b)
          else map_option (Pair sp') (oprofile_add_trace lr b))"
  proof (cases "validate_sp E sp")
    case True
    with assms obtain chain lr where "kernel_stack E sp = Some (chain, lr)"
      by (force simp: ppc_stack_mapped_def)
    with True show ?thesis
      by (cases "oprofile_add_trace lr b") (auto simp: kernel_getsp_def kernel_chain_def)
  qed (simp add: kernel_getsp_def kernel_chain_def)
qed

definition ppc_return_addresses :: "'r ppc_stack \<Rightarrow> 'r \<Rightarrow> nat \<Rightarrow> ulong list" where
  "ppc_return_addresses E r n =
     (if \<not> ppc_user_mode E r then filter (kernel_addr E) (drop 1 (chain_lrs (kernel_chain E) n (gpr1 E r)))
      else if \<not> tif_32bit E then user_lrs (user64_chain E) (link_register E r) n (gpr1 E r)
      else user_lrs (user32_chain E) (link_register E r) n (ucast (gpr1 E r)))"

lemma powerpc_backtrace_adds:
  assumes "\<not> ppc_user_mode E r \<Longrightarrow> ppc_stack_mapped E"
  shows "op_powerpc_backtrace E (Some r) depth b =
    for_each oprofile_add_trace (ppc_return_addresses E r (unat (depth + 1))) b"
proof (cases "ppc_user_mode E r")
  case False
  from back_chain.kernel_loop_chain [OF kernel_back_chain [OF assms [OF False]]] False show ?thesis
    by (simp add: op_powerpc_backtrace_def ppc_return_addresses_def Let_def)
qed (simp add: op_powerpc_backtrace_def ppc_return_addresses_def Let_def chain64.user_walk_chain
    chain32.user_walk_chain)

lemma ppc_return_addresses_length: "length (ppc_return_addresses E r n) \<le> n - 1"
proof -
  have "length (filter P (drop 1 xs)) \<le> n - 1" if "length xs \<le> n" for P and xs :: "ulong list"
    using le_trans [OF length_filter_le [of P "drop 1 xs"], of "n - 1"] that by simp
  then show ?thesis
    by (simp add: ppc_return_addresses_def user_lrs_length [simplified] chain_lrs_length)
qed

text \<open>C18: the PowerPC callback adds the saved link registers along the back chain, whatever memory
  holds: of a kernel stack those of the callers that lie in the kernel, of a user stack the
  link register and then those of the frames from the third on; never more than \<^verbatim>\<open>depth\<close>, and
  none for the largest depth, where the count of frames wraps to 0.\<close>

theorem powerpc_backtrace_refines:
  assumes "\<not> ppc_user_mode E r \<Longrightarrow> ppc_stack_mapped E"
  shows "op_powerpc_backtrace E (Some r) depth b =
      for_each oprofile_add_trace (ppc_return_addresses E r (unat (depth + 1))) b \<and>
    length (ppc_return_addresses E r (unat (depth + 1))) \<le> unat depth \<and>
    (depth = - 1 \<longrightarrow> ppc_return_addresses E r (unat (depth + 1)) = [])"
proof (intro conjI impI)
  have "unat (depth + 1) - 1 \<le> unat depth"
    using unatSuc [of depth] by (cases "depth + 1 = 0") (simp_all add: add.commute)
  with ppc_return_addresses_length [of E r "unat (depth + 1)"]
  show "length (ppc_return_addresses E r (unat (depth + 1))) \<le> unat depth" by linarith
  show "ppc_return_addresses E r (unat (depth + 1)) = []" if "depth = - 1"
    using that by (simp add: ppc_return_addresses_def)
qed (rule powerpc_backtrace_adds [OF assms])

lemma ppc_sampler_ok:
  assumes "ppc_stack_mapped E" and "bt_callback sp = Some (op_powerpc_backtrace E)"
  shows "sampler_ok sp"
  using assms by (simp add: sampler_ok_def powerpc_backtrace_adds trace_all_keeps)

end
