(* ===== verification/Old_Walks.thy ===== *)
theory Old_Walks
  imports Backtrace Ppc_Backtrace
begin

text \<open>
  The branches of \<^verbatim>\<open>x86/backtrace.c\<close> and \<^verbatim>\<open>powerpc/backtrace.c\<close> for older kernels and without
  \<^verbatim>\<open>RRPROFILE\<close>: the walk of x86 kernels before 2.6.15, which looks for the pages of a frame before it
  reads them; the stock walks, which are instances of the locales \<open>frame_walk\<close> and \<open>back_chain\<close>
  like the others; and the stack check of PowerPC kernels before 2.6.17.
\<close>

section \<open>x86 kernels before 2.6.15\<close>

text \<open>
  The two function pointers, which the build fills in from the symbols of the kernel; \<open>0\<close> is a
  null pointer. \<open>get_user_pages\<close> is the address of the exported function, \<open>follow_page\<close> tells whether
  the function behind the first pointer finds a page at an address, and \<open>page_table_free\<close> whether
  the lock \<^verbatim>\<open>page_table_lock\<close> can be taken at once. \<open>x86_4g\<close> is \<^verbatim>\<open>CONFIG_X86_4G\<close>.
\<close>

record page_lookup =
  follow_page_ptr :: ulong
  get_user_pages_ptr :: ulong
  get_user_pages :: ulong
  follow_page :: "ulong \<Rightarrow> bool"
  page_table_free :: bool
  x86_4g :: bool

definition pages_present :: "page_lookup \<Rightarrow> ulong \<Rightarrow> bool" where
  "pages_present W head =
     (if x86_4g W then False
      else if follow_page_ptr W = 0 \<or> get_user_pages_ptr W = 0 then False
      else if get_user_pages_ptr W \<noteq> get_user_pages W then False
      else if \<not> follow_page W head then False
      else follow_page W (head + 8))"

definition x86_backtrace_14 :: "page_lookup \<Rightarrow> 'r stack_env \<Rightarrow> 'r option backtrace_op" where
  "x86_backtrace_14 W E regs depth b =
     (case regs of
        None \<Rightarrow> None
      | Some r \<Rightarrow>
          let head = frame_pointer E r
          in if \<not> bt_user_mode E r then
               trace_loop (\<lambda>head. valid_kernel_stack E head r) (dump_kernel_backtrace E) (unat depth) head b
             else if \<not> page_table_free W then Some b
             else if \<not> tif_ia32 E then
               trace_loop (\<lambda>head. head \<noteq> 0 \<and> pages_present W head) (dump_user64_backtrace E) (unat depth)
                 head b
             else
               trace_loop (\<lambda>head. head \<noteq> 0 \<and> pages_present W (ucast head)) (dump_user32_backtrace E)
                 (unat depth) (ucast head) b)"

interpretation user64_14: frame_walk "\<lambda>h. h \<noteq> 0 \<and> pages_present W h" "dump_user64_backtrace E" "user64_out E"
  for W E
  by unfold_locales (use user64.dump_law user64.upward in blast)+

interpretation user32_14: frame_walk "\<lambda>h. h \<noteq> 0 \<and> pages_present W (ucast h)" "dump_user32_backtrace E"
    "user32_out E" for W E
  by unfold_locales (use user32.dump_law user32.upward in blast)+

text \<open>The walk of a user stack: none without the lock, otherwise the frames whose pages are there; where
  all are there, the walk of newer kernels.\<close>

definition return_addresses_14 :: "page_lookup \<Rightarrow> 'r stack_env \<Rightarrow> 'r \<Rightarrow> nat \<Rightarrow> ulong list" where
  "return_addresses_14 W E r n =
     (if \<not> bt_user_mode E r then return_addresses E r n
      else if \<not> page_table_free W then []
      else if \<not> tif_ia32 E then
        map snd (frames (\<lambda>h. h \<noteq> 0 \<and> pages_present W h) (user64_out E) n (frame_pointer E r))
      else map snd (frames (\<lambda>h. h \<noteq> 0 \<and> pages_present W (ucast h)) (user32_out E) n
        (ucast (frame_pointer E r))))"

theorem x86_backtrace_14_refines:
  assumes "\<not> bt_user_mode E r \<Longrightarrow> stack_mapped E r"
  shows "x86_backtrace_14 W E (Some r) depth b =
      for_each oprofile_add_trace (return_addresses_14 W E r (unat depth)) b \<and>
    (page_table_free W \<and> (\<forall>h. pages_present W h) \<longrightarrow>
      x86_backtrace_14 W E (Some r) depth b = x86_backtrace E (Some r) depth b) \<and>
    (bt_user_mode E r \<and> follow_page_ptr W = 0 \<longrightarrow> x86_backtrace_14 W E (Some r) depth b = Some b)"
proof (cases "bt_user_mode E r")
  case False
  have "x86_backtrace_14 W E (Some r) depth b = x86_backtrace E (Some r) depth b"
    using False by (simp add: x86_backtrace_14_def x86_backtrace_def Let_def)
  with x86_backtrace_adds [OF assms] False show ?thesis by (simp add: return_addresses_14_def)
next
  case True
  have stop: "trace_loop cont dump n h b = Some b" if "\<not> cont h" for cont :: "'x \<Rightarrow> bool" and dump n h
    using that by (cases n) simp_all
  have "x86_backtrace_14 W E (Some r) depth b = Some b" if "follow_page_ptr W = 0"
    using True that by (simp add: x86_backtrace_14_def Let_def stop pages_present_def)
  moreover have "x86_backtrace_14 W E (Some r) depth b = x86_backtrace E (Some r) depth b"
    if "page_table_free W" "\<forall>h. pages_present W h"
    using True that by (simp add: x86_backtrace_14_def x86_backtrace_def Let_def)
  moreover have "x86_backtrace_14 W E (Some r) depth b =
      for_each oprofile_add_trace (return_addresses_14 W E r (unat depth)) b"
    using True by (simp add: x86_backtrace_14_def return_addresses_14_def Let_def user64_14.loop_frames
        user32_14.loop_frames)
  ultimately show ?thesis by blast
qed

text \<open>
  \<^verbatim>\<open>pages_present\<close> looks at the first and the ninth byte of the frame, but the walk copies two
  frames, 32 bytes: where a page ends behind the first, the other page may be missing.
\<close>

definition on_present_page :: "(ulong \<Rightarrow> bool) \<Rightarrow> ulong \<Rightarrow> bool" where
  "on_present_page present a = present (a AND NOT 0xFFF)"

theorem pages_present_misses_second_frame:
  fixes W :: page_lookup
  assumes "follow_page W = on_present_page (\<lambda>p. p = 0x1000)" and "\<not> x86_4g W"
    and "follow_page_ptr W \<noteq> 0" and "get_user_pages_ptr W = get_user_pages W" and "get_user_pages W \<noteq> 0"
  shows "pages_present W 0x1FF0 \<and> on_present_page (\<lambda>p. p = 0x1000) (0x1FF0 + 15) \<and>
    \<not> on_present_page (\<lambda>p. p = 0x1000) (0x1FF0 + 16)"
  using assms by (simp add: pages_present_def on_present_page_def)

section \<open>The stock walk on x86\<close>

text \<open>Without \<^verbatim>\<open>RRPROFILE\<close> there is one walk of user stacks, with frames of the kernel's word size, and
  a return address is added before the frame pointer is looked at.\<close>

definition dump_user_backtrace ::
  "'r stack_env \<Rightarrow> ulong \<Rightarrow> oprofile_cpu_buffer \<Rightarrow> (ulong \<times> oprofile_cpu_buffer) option" where
  "dump_user_backtrace E head b =
     (if \<not> access_ok E head 32 then Some (0, b)
      else case user_frame64 E head of
             None \<Rightarrow> Some (0, b)
           | Some (ebp, ret) \<Rightarrow>
               do { b \<leftarrow> oprofile_add_trace ret b;
                    if ebp \<le> head then Some (0, b) else Some (ebp, b) })"

definition stock_x86_backtrace :: "'r stack_env \<Rightarrow> 'r option backtrace_op" where
  "stock_x86_backtrace E regs depth b =
     (case regs of
        None \<Rightarrow> None
      | Some r \<Rightarrow>
          let head = frame_pointer E r
          in if \<not> bt_user_mode E r then
               trace_loop (\<lambda>head. valid_kernel_stack E head r) (dump_kernel_backtrace E) (unat depth) head b
             else trace_loop (\<lambda>head. head \<noteq> 0) (dump_user_backtrace E) (unat depth) head b)"

definition user_out :: "'r stack_env \<Rightarrow> ulong \<Rightarrow> (ulong \<times> ulong) option" where
  "user_out E h =
     (if access_ok E h 32 then map_option (\<lambda>(ebp, ret). (ret, if ebp \<le> h then 0 else ebp)) (user_frame64 E h)
      else None)"

interpretation stock_user: frame_walk "\<lambda>h. h \<noteq> 0" "dump_user_backtrace E" "user_out E" for E
  by unfold_locales
    (auto simp: dump_user_backtrace_def user_out_def Option.bind_def map_option_case
      split: option.splits if_splits)

text \<open>Both walks of a user stack visit the same frames, but that the walk of \<^verbatim>\<open>RRPROFILE\<close> leaves out a last
  one whose frame pointer does not go up.\<close>

lemma stock_frames:
  "\<exists>last. frames (\<lambda>h. h \<noteq> 0) (user_out E) n h = frames (\<lambda>h. h \<noteq> 0) (user64_out E) n h @ last \<and>
    length last \<le> 1"
proof (induction n arbitrary: h)
  case (Suc n)
  show ?case
  proof (cases "h \<noteq> 0 \<and> access_ok E h 32 \<and> user_frame64 E h \<noteq> None")
    case True
    then obtain ebp ret where f: "user_frame64 E h = Some (ebp, ret)" by auto
    show ?thesis
    proof (cases "ebp \<le> h")
      case True
      then show ?thesis
        using f \<open>h \<noteq> 0 \<and> _\<close> by (cases n) (simp_all add: user_out_def user64_out_def)
    next
      case False
      with f \<open>h \<noteq> 0 \<and> _\<close> Suc.IH [of ebp] show ?thesis
        by (simp add: user_out_def user64_out_def)
    qed
  qed (cases "user_frame64 E h"; auto simp: user_out_def user64_out_def)
qed simp

theorem stock_user_backtrace:
  assumes "bt_user_mode E r" and "\<not> tif_ia32 E"
  shows "\<exists>last. length last \<le> 1 \<and> stock_x86_backtrace E (Some r) depth b =
    for_each oprofile_add_trace (return_addresses E r (unat depth) @ last) b"
proof -
  from stock_frames [of E "unat depth" "frame_pointer E r"] obtain l where
    "frames (\<lambda>h. h \<noteq> 0) (user_out E) (unat depth) (frame_pointer E r) =
      frames (\<lambda>h. h \<noteq> 0) (user64_out E) (unat depth) (frame_pointer E r) @ l" "length l \<le> 1" by blast
  with assms show ?thesis
    by (intro exI [of _ "map snd l"])
      (simp add: stock_x86_backtrace_def return_addresses_def stock_user.loop_frames)
qed

section \<open>The stock walk on PowerPC\<close>

definition stock_kernel_getsp ::
  "'r ppc_stack \<Rightarrow> ulong \<Rightarrow> bool \<Rightarrow> oprofile_cpu_buffer \<Rightarrow> (ulong \<times> oprofile_cpu_buffer) option" where
  "stock_kernel_getsp E sp is_first b =
     (if \<not> validate_sp E sp then Some (0, b)
      else do { (chain, lr) \<leftarrow> kernel_stack E sp;
                b \<leftarrow> (if \<not> is_first then oprofile_add_trace lr b else Some b);
                Some (chain, b) })"

text \<open>The loops for user stacks are that for the kernel's.\<close>

definition stock_powerpc_backtrace :: "'r ppc_stack \<Rightarrow> 'r option backtrace_op" where
  "stock_powerpc_backtrace E regs depth b =
     (case regs of
        None \<Rightarrow> None
      | Some r \<Rightarrow>
          let sp = gpr1 E r; depth = depth + 1
          in if \<not> ppc_user_mode E r then kernel_loop (stock_kernel_getsp E) (unat depth) sp True b
             else if \<not> tif_32bit E then kernel_loop (user_getsp64 E) (unat depth) sp True b
             else kernel_loop (user_getsp32 E) (unat depth) (ucast sp) True b)"

lemma stock_kernel_chain:
  assumes "ppc_stack_mapped E"
  shows "back_chain (stock_kernel_getsp E) (kernel_chain E) (\<lambda>_. True)"
proof
  fix sp first b
  show "stock_kernel_getsp E sp first b = (case kernel_chain E sp of None \<Rightarrow> Some (0, b)
      | Some (sp', lr) \<Rightarrow> if first \<or> \<not> True then Some (sp', b)
          else map_option (Pair sp') (oprofile_add_trace lr b))"
  proof (cases "validate_sp E sp")
    case True
    with assms obtain chain lr where "kernel_stack E sp = Some (chain, lr)"
      by (force simp: ppc_stack_mapped_def)
    with True show ?thesis
      by (cases "oprofile_add_trace lr b") (auto simp: stock_kernel_getsp_def kernel_chain_def)
  qed (simp add: stock_kernel_getsp_def kernel_chain_def)
qed

text \<open>The stock callback adds the saved link registers of all frames but the first.\<close>

theorem stock_powerpc_backtrace_refines:
  assumes "\<not> ppc_user_mode E r \<Longrightarrow> ppc_stack_mapped E"
  shows "stock_powerpc_backtrace E (Some r) depth b =
    for_each oprofile_add_trace (drop 1
      (if \<not> ppc_user_mode E r then chain_lrs (kernel_chain E) (unat (depth + 1)) (gpr1 E r)
       else if \<not> tif_32bit E then chain_lrs (user64_chain E) (unat (depth + 1)) (gpr1 E r)
       else chain_lrs (user32_chain E) (unat (depth + 1)) (ucast (gpr1 E r)))) b"
proof (cases "ppc_user_mode E r")
  case False
  from back_chain.kernel_loop_chain [OF stock_kernel_chain [OF assms [OF False]]] False show ?thesis
    by (simp add: stock_powerpc_backtrace_def Let_def)
qed (simp add: stock_powerpc_backtrace_def Let_def chain64.kernel_loop_chain chain32.kernel_loop_chain)

section \<open>The stack check before 2.6.17\<close>

text \<open>\<open>stack_page\<close> is the address of the task's \<^verbatim>\<open>thread_info\<close>, at the bottom of its stack.\<close>

definition rr_validate_sp :: "ulong \<Rightarrow> ulong \<Rightarrow> ulong \<Rightarrow> ulong \<Rightarrow> ulong \<Rightarrow> bool" where
  "rr_validate_sp sizeof_thread_struct thread_size sp stack_page nbytes =
     (if stack_page + sizeof_thread_struct \<le> sp \<and> sp \<le> stack_page + thread_size - nbytes then True
      else False)"

text \<open>A frame that it accepts lies on the task's stack: what \<^verbatim>\<open>kernel_getsp\<close> reads, three words,
  is mapped. A stack of interrupts it takes for the end of the chain.\<close>

theorem rr_validate_sp_in_stack:
  assumes "rr_validate_sp sz thread_size sp stack_page 112"
    and "112 \<le> unat thread_size" and "unat sz \<le> unat thread_size"
    and "unat stack_page + unat thread_size < 2 ^ 64"
  shows "unat stack_page \<le> unat sp \<and> unat sp + 24 < unat stack_page + unat thread_size"
proof -
  have s: "unat (stack_page + thread_size) = unat stack_page + unat thread_size"
    using assms(4) by (simp add: unat_add_lem [THEN iffD1])
  have "(112 :: ulong) \<le> stack_page + thread_size"
    using s assms(2) by (simp add: word_le_nat_alt)
  then have t: "unat (stack_page + thread_size - 112) = unat stack_page + unat thread_size - 112"
    using s by (simp add: unat_sub)
  have "unat (stack_page + sz) = unat stack_page + unat sz"
    using assms(3,4) by (intro unat_add_lem [THEN iffD1]) simp
  with assms(1,2) t show ?thesis
    by (auto simp: rr_validate_sp_def word_le_nat_alt split: if_splits)
qed

lemma rr_validate_sp_other_stack:
  assumes "sp < stack_page"
    and "unat stack_page + unat sz < 2 ^ 64"
  shows "\<not> rr_validate_sp sz thread_size sp stack_page nbytes"
proof -
  have "unat (stack_page + sz) = unat stack_page + unat sz"
    using assms(2) by (intro unat_add_lem [THEN iffD1]) simp
  with assms(1) show ?thesis by (simp add: rr_validate_sp_def word_le_nat_alt word_less_nat_alt)
qed

end
