(* ===== verification/Old_Kernels.thy ===== *)
theory Old_Kernels
  imports Session Poll_Idle
begin

text \<open>
  The branches of \<^verbatim>\<open>driver/timer_int_2.6.35.c\<close> and \<^verbatim>\<open>x86/process.c\<close> for older kernels: the high-resolution
  timers of kernels before 2.6.37, which do not know whether a profile runs; their registration
  when the module is loaded, before 3.3; the idle polling of kernels up to 2.6.39, which
  write \<^verbatim>\<open>pm_idle\<close> themselves, and the polling loop.
\<close>

unbundle bit_operations_syntax

section \<open>Timers before 2.6.37\<close>

text \<open>As the operations of theory Timer\_Int without the tests of \<^verbatim>\<open>ctr_running\<close>.\<close>

definition hrtimer_start_cpu_35 ::
  "(nat \<Rightarrow> u64) \<Rightarrow> nat \<Rightarrow> 'h timer_kstate_scheme \<Rightarrow> 'h timer_kstate_scheme" where
  "hrtimer_start_cpu_35 tb c k =
     k\<lparr>hrtimer_active := (hrtimer_active k)(c := True),
       timer_pop := (timer_pop k)(c := 0),
       start_timestamp := (start_timestamp k)(c := tb c)\<rparr>"

definition hrtimer_start_35 ::
  "nat list \<Rightarrow> (nat \<Rightarrow> u64) \<Rightarrow> 'h timer_kstate_scheme \<Rightarrow> (rc \<times> 'h timer_kstate_scheme) option" where
  "hrtimer_start_35 online tb k = Some (rc_ok, fold (hrtimer_start_cpu_35 tb) online k)"

definition hrtimer_stop_cpu_35 :: "nat \<Rightarrow> 'h timer_kstate_scheme \<Rightarrow> 'h timer_kstate_scheme" where
  "hrtimer_stop_cpu_35 c k = k\<lparr>hrtimer_active := (hrtimer_active k)(c := False)\<rparr>"

definition hrtimer_stop_35 ::
  "nat list \<Rightarrow> 'h timer_kstate_scheme \<Rightarrow> 'h timer_kstate_scheme option" where
  "hrtimer_stop_35 online k = Some (fold hrtimer_stop_cpu_35 online k)"

definition cpu_notify_35 ::
  "(nat \<Rightarrow> u64) \<Rightarrow> cpu_action \<Rightarrow> nat \<Rightarrow> 'h timer_kstate_scheme \<Rightarrow> 'h timer_kstate_scheme" where
  "cpu_notify_35 tb action c k =
     (case action of
        CPU_ONLINE \<Rightarrow> hrtimer_start_cpu_35 tb c k
      | CPU_ONLINE_FROZEN \<Rightarrow> hrtimer_start_cpu_35 tb c k
      | CPU_DEAD \<Rightarrow> hrtimer_stop_cpu_35 c k
      | CPU_DEAD_FROZEN \<Rightarrow> hrtimer_stop_cpu_35 c k
      | CPU_OTHER \<Rightarrow> k)"

section \<open>Registration before 3.3\<close>

text \<open>
  \<^verbatim>\<open>oprofile_timer_init\<close> and \<^verbatim>\<open>oprofile_timer_exit\<close>: \<open>reg\<close> is the result of
  \<^verbatim>\<open>register_hotcpu_notifier\<close>, and the start and stop operations are those of the kernel's version. When
  the registration fails, the structure is left as it is.
\<close>

definition timer_init_before_33 ::
  "rc \<Rightarrow> ('h timer_kstate_scheme \<Rightarrow> (rc \<times> 'h timer_kstate_scheme) option) \<Rightarrow>
   ('h timer_kstate_scheme \<Rightarrow> 'h timer_kstate_scheme option) \<Rightarrow>
   ('h timer_kstate_scheme, 'r) oprofile_operations \<Rightarrow>
   rc \<times> ('h timer_kstate_scheme, 'r) oprofile_operations" where
  "timer_init_before_33 reg start stop ops =
     (if reg \<noteq> rc_ok then (reg, ops)
      else (rc_ok, ops\<lparr>op_create_files := None,
                       op_setup := None,
                       op_shutdown := None,
                       op_start := Some start,
                       op_stop := Some stop,
                       op_adapt := Some timer_adapt,
                       op_backtrace := None,
                       op_cpu_type := Some ''timer''\<rparr>))"

text \<open>Its effect on the kernel, and that of \<^verbatim>\<open>oprofile_timer_exit\<close>.\<close>

definition timer_register_before_33 :: "rc \<Rightarrow> 'h timer_kstate_scheme \<Rightarrow> 'h timer_kstate_scheme" where
  "timer_register_before_33 reg k = (if reg = rc_ok then k\<lparr>hotcpu_registered := True\<rparr> else k)"

definition timer_exit_before_33 :: "'h timer_kstate_scheme \<Rightarrow> 'h timer_kstate_scheme" where
  "timer_exit_before_33 k = k\<lparr>hotcpu_registered := False\<rparr>"

abbreviation old_timer_operations ::
  "nat list \<Rightarrow> (nat \<Rightarrow> u64) \<Rightarrow> ('h timer_kstate_scheme, 'r) oprofile_operations" where
  "old_timer_operations online tb \<equiv>
     snd (timer_init_before_33 rc_ok (hrtimer_start_35 online tb) (hrtimer_stop_35 online) no_operations)"

section \<open>The old timers as a back end\<close>

lemma same_kernel_35:
  "same_kernel k (fold (hrtimer_start_cpu_35 tb) cs k)" "same_kernel k (fold hrtimer_stop_cpu_35 cs k)"
  by (rule same_kernel_fold, simp add: same_kernel_def hrtimer_start_cpu_35_def hrtimer_stop_cpu_35_def)+

lemmas old_timer_defs =
  timer_init_before_33_def no_operations_def hrtimer_start_35_def hrtimer_stop_35_def
  call_rc_def call_void_def call_optional_def

interpretation old_timer: backend env "\<lambda>h. P (timer_rest h)" "\<lambda>h. P (timer_rest h)"
    "old_timer_operations online tb"
  for env P online tb
proof (unfold_locales, goal_cases)
  case (3 k)
  with same_kernel_35(1) [of k tb online] show ?case
    by (auto simp: old_timer_defs same_kernel_keeps same_kernel_rest simp del: timer_rest)
next
  case (4 k)
  with same_kernel_35(2) [of k online] show ?case
    by (auto simp: old_timer_defs same_kernel_keeps same_kernel_rest simp del: timer_rest)
next
  case (5 f k)
  with same_kernel_timer(5) [of k] show ?case
    by (auto simp: old_timer_defs timer_adapt_def same_kernel_keeps kernel_keeps_refl)
qed (auto simp: old_timer_defs kernel_keeps_refl)

text \<open>On a fixed set of CPUs starting and stopping do what they do in newer kernels.\<close>

lemma start_35_same:
  assumes "ctr_running k"
  shows "fold (hrtimer_start_cpu_35 tb) cs k = fold (oprofile_hrtimer_start_cpu tb) cs k"
  using assms
proof (induction cs arbitrary: k)
  case (Cons c cs)
  then have "hrtimer_start_cpu_35 tb c k = oprofile_hrtimer_start_cpu tb c k"
    by (simp add: hrtimer_start_cpu_35_def oprofile_hrtimer_start_cpu_def)
  moreover have "ctr_running (oprofile_hrtimer_start_cpu tb c k)"
    using Cons.prems by (simp add: oprofile_hrtimer_start_cpu_def)
  ultimately show ?case using Cons.IH by simp
qed simp

section \<open>Hotplug without a session\<close>

text \<open>A CPU that comes up while no profile runs: newer kernels leave its timer alone, but the
  handler of kernels before 2.6.37, which is registered as long as the module is loaded, arms it, and
  its first tick writes to a ring that is not there.\<close>

theorem hotplug_without_session:
  assumes "\<not> ctr_running k" and "buffer (cpu_buffer k c) = None" and "oprofile_timer_count k = 1"
  shows "oprofile_cpu_notify tb CPU_ONLINE c k = k \<and>
    hrtimer_active (cpu_notify_35 tb CPU_ONLINE c k) c \<and>
    oprofile_hrtimer_notify sp c t (cpu_notify_35 tb CPU_ONLINE c k) = None"
proof -
  have "oprofile_add_sample_start ts (cpu_buffer k c) = None" for ts
    using assms(2) by (simp add: oprofile_add_sample_start_def add_sample_def write_slot_def)
  with assms show ?thesis
    by (simp add: oprofile_cpu_notify_def oprofile_hrtimer_start_cpu_def cpu_notify_35_def
        hrtimer_start_cpu_35_def oprofile_hrtimer_notify_def on_cpu_def)
qed

text \<open>Before 3.3 a failing registration of the handler leaves no name of a CPU type, which the
  initialisation of the module then copies from a null pointer if there are no counters.\<close>

theorem timer_registration_failure_faults:
  fixes d :: "('h timer_kstate_ext, 'r) driver"
  assumes "reg \<noteq> rc_ok"
  shows "oprofile_init (timer_init_before_33 reg start stop) no_arch_init fs d = None"
  using assms
  by (simp add: oprofile_init_def timer_init_before_33_def no_arch_init_def no_operations_def
      oprofile_set_ulong_def Let_def)

section \<open>Idle polling up to 2.6.39\<close>

text \<open>The operations on \<^verbatim>\<open>pm_idle\<close>, which the kernel exports; the other fields are not used.\<close>

definition init_poll_idle_39 :: "poll_state \<Rightarrow> poll_state" where
  "init_poll_idle_39 p = p\<lparr>pm_idle_save := pm_idle p\<rparr>"

definition enable_poll_idle_39 :: "poll_state \<Rightarrow> poll_state" where
  "enable_poll_idle_39 p = (if pm_idle p \<noteq> Some poll_idle then p\<lparr>pm_idle := Some poll_idle\<rparr> else p)"

definition disable_poll_idle_39 :: "poll_state \<Rightarrow> poll_state" where
  "disable_poll_idle_39 p =
     (if pm_idle p \<noteq> pm_idle_save p then p\<lparr>pm_idle := pm_idle_save p\<rparr> else p)"

definition exit_poll_idle_39 :: "poll_state \<Rightarrow> poll_state" where
  "exit_poll_idle_39 p = disable_poll_idle_39 p"

definition switch_poll_39 :: "bool \<Rightarrow> poll_state \<Rightarrow> poll_state" where
  "switch_poll_39 on = (if on then enable_poll_idle_39 else disable_poll_idle_39)"

lemmas poll_39_defs =
  init_poll_idle_39_def enable_poll_idle_39_def disable_poll_idle_39_def exit_poll_idle_39_def
  switch_poll_39_def

lemma poll_39_switches:
  assumes "pm_idle p \<in> {pm_idle_save p, Some poll_idle}"
  shows "pm_idle_save (fold switch_poll_39 ops p) = pm_idle_save p \<and>
    pm_idle (fold switch_poll_39 ops p) \<in> {pm_idle_save p, Some poll_idle}"
  using assms
proof (induction ops arbitrary: p)
  case (Cons on ops)
  have "pm_idle (switch_poll_39 on p) \<in> {pm_idle_save (switch_poll_39 on p), Some poll_idle}"
    "pm_idle_save (switch_poll_39 on p) = pm_idle_save p"
    using Cons.prems by (auto simp: poll_39_defs)
  from Cons.IH [OF this(1)] this(2) show ?case by simp
qed simp

text \<open>However often polling was switched on and off, leaving puts the kernel's own idle function
  back, the default one, which is a null pointer, included.\<close>

theorem poll_idle_39_restored:
  "pm_idle (exit_poll_idle_39 (fold switch_poll_39 ops (init_poll_idle_39 p))) = pm_idle p"
proof -
  have "pm_idle (init_poll_idle_39 p) \<in> {pm_idle_save (init_poll_idle_39 p), Some poll_idle}"
    by (simp add: init_poll_idle_39_def)
  from poll_39_switches [OF this] show ?thesis by (auto simp: poll_39_defs)
qed

section \<open>The polling loop\<close>

text \<open>
  \<^verbatim>\<open>poll_idle\<close>: \<open>flags n\<close> are the flags of the thread when they are read for the \<open>n\<close>-th time, and
  \<open>need\<close> is the mask \<^verbatim>\<open>_TIF_NEED_RESCHED\<close>. Before 2.6.15 the function also marks the thread as polling.
\<close>

record idle_cpu =
  irqs_enabled :: bool
  tif_polling :: bool

partial_function (option) poll_wait :: "u32 \<Rightarrow> (nat \<Rightarrow> u32) \<Rightarrow> nat \<Rightarrow> nat option" where
  "poll_wait need flags n = (if flags n AND need = 0 then poll_wait need flags (n + 1) else Some n)"

definition poll_idle_fn :: "bool \<Rightarrow> u32 \<Rightarrow> (nat \<Rightarrow> u32) \<Rightarrow> idle_cpu \<Rightarrow> (nat \<times> idle_cpu) option" where
  "poll_idle_fn before_15 need flags s =
     (let s = s\<lparr>irqs_enabled := True\<rparr>;
          s = (if before_15 then s\<lparr>tif_polling := True\<rparr> else s)
      in do { n \<leftarrow> poll_wait need flags 0;
              Some (n, if before_15 then s\<lparr>tif_polling := False\<rparr> else s) })"

lemma poll_wait_first:
  assumes "flags (m + n) AND need \<noteq> 0" and "\<forall>i < n. flags (m + i) AND need = 0"
  shows "poll_wait need flags m = Some (m + n)"
  using assms
proof (induction n arbitrary: m)
  case 0
  then show ?case by (simp add: poll_wait.simps)
next
  case (Suc n)
  from Suc.prems(2) have "flags m AND need = 0" by force
  moreover have "poll_wait need flags (m + 1) = Some (m + 1 + n)"
    using Suc.prems by (intro Suc.IH) (auto simp: less_Suc_eq_0_disj)
  ultimately show ?case by (simp add: poll_wait.simps)
qed

text \<open>The idle loop ends at the first time it finds that another task is to run, with interrupts
  enabled throughout and the thread no longer marked as polling.\<close>

theorem poll_idle_ends:
  assumes "flags n AND need \<noteq> 0"
  shows "\<exists>m s'. poll_idle_fn before_15 need flags s = Some (m, s') \<and> m \<le> n \<and>
    flags m AND need \<noteq> 0 \<and> (\<forall>i < m. flags i AND need = 0) \<and>
    irqs_enabled s' \<and> tif_polling s' = (tif_polling s \<and> \<not> before_15)"
proof -
  define m where "m = (LEAST i. flags i AND need \<noteq> 0)"
  have m: "flags m AND need \<noteq> 0" "m \<le> n" "\<forall>i < m. flags i AND need = 0"
    unfolding m_def using assms by (rule LeastI, rule Least_le) (blast dest: not_less_Least)
  from poll_wait_first [of flags 0 m need] m have "poll_wait need flags 0 = Some m" by simp
  with m show ?thesis by (simp add: poll_idle_fn_def Let_def)
qed

end
