(* ===== verification/Multiplex.thy ===== *)
theory Multiplex
  imports Oprofile_Files
begin

text \<open>
  The branches of \<^verbatim>\<open>driver/oprof.c\<close> and \<^verbatim>\<open>driver/oprofile_files.c\<close> for \<^verbatim>\<open>CONFIG_OPROFILE_EVENT_MULTIPLEX\<close>, which are
  compiled without \<^verbatim>\<open>RRPROFILE\<close> only: while a profile runs, delayed work switches the counters
  between sets of events, again and again after a time slice. With the starting and stopping of the
  stock driver. The work runs exactly during profiles.
\<close>

section \<open>State\<close>

text \<open>
  \<open>switch_events\<close> is the operation of the back end, which returns 0 when it has switched;
  \<open>switch_work\<close> is the delay with which \<^verbatim>\<open>switch_work\<close> was scheduled, \<open>None\<close> if it is not pending.
\<close>

record ('h, 'r) mux_driver = "('h, 'r) driver" +
  switch_events :: "('h kstate_scheme \<Rightarrow> (int \<times> 'h kstate_scheme) option) option"
  oprofile_time_slice :: ulong
  switch_work :: "ulong option"
  multiplex_counter :: u32

section \<open>Operations\<close>

text \<open>Work that is pending already is not scheduled again.\<close>

definition start_switch_worker :: "('h, 'r) mux_driver \<Rightarrow> ('h, 'r) mux_driver" where
  "start_switch_worker d =
     (if switch_events d \<noteq> None
      then d\<lparr>switch_work := (case switch_work d of None \<Rightarrow> Some (oprofile_time_slice d) | Some t \<Rightarrow> Some t)\<rparr>
      else d)"

definition stop_switch_worker :: "('h, 'r) mux_driver \<Rightarrow> ('h, 'r) mux_driver" where
  "stop_switch_worker d = d\<lparr>switch_work := None\<rparr>"

text \<open>The kernel calls the function of pending work, which is then no longer pending.\<close>

definition switch_worker :: "('h, 'r) mux_driver \<Rightarrow> ('h, 'r) mux_driver option" where
  "switch_worker d =
     (let d = d\<lparr>switch_work := None\<rparr>
      in case switch_events d of
           None \<Rightarrow> None
         | Some f \<Rightarrow>
             do { (r, k) \<leftarrow> f (kern d);
                  let d = d\<lparr>kern := k\<rparr>;
                  if r \<noteq> 0 then Some d
                  else Some (start_switch_worker (d\<lparr>multiplex_counter := multiplex_counter d + 1\<rparr>)) })"

text \<open>\<open>to_jiffies\<close> is \<^verbatim>\<open>msecs_to_jiffies\<close> and \<open>max_offset\<close> the constant \<^verbatim>\<open>MAX_JIFFY_OFFSET\<close> of the kernel.\<close>

definition oprofile_set_timeout ::
  "(ulong \<Rightarrow> ulong) \<Rightarrow> ulong \<Rightarrow> ulong \<Rightarrow> ('h, 'r) mux_driver \<Rightarrow> rc \<times> ('h, 'r) mux_driver" where
  "oprofile_set_timeout to_jiffies max_offset val_msec d =
     (if oprofile_started d then (Inl EBUSY, d)
      else if switch_events d = None then (Inl EINVAL, d)
      else
        let time_slice = to_jiffies val_msec
        in if time_slice = max_offset then (Inl EINVAL, d)
           else (rc_ok, d\<lparr>oprofile_time_slice := time_slice\<rparr>))"

definition timeout_read ::
  "read_from_buffer \<Rightarrow> (ulong \<Rightarrow> ulong) \<Rightarrow> ('h, 'r) mux_driver \<Rightarrow> nat \<Rightarrow> nat \<Rightarrow> errno + (string \<times> nat)" where
  "timeout_read read_buf to_msecs d count off =
     oprofilefs_ulong_to_user read_buf (to_msecs (oprofile_time_slice d)) count off"

definition timeout_write ::
  "(string \<Rightarrow> ulong) \<Rightarrow> (ulong \<Rightarrow> ulong) \<Rightarrow> ulong \<Rightarrow> ulong \<Rightarrow> write_request \<Rightarrow> ('h, 'r) mux_driver \<Rightarrow>
   (errno + nat) \<times> ('h, 'r) mux_driver" where
  "timeout_write strtoul to_jiffies max_offset stack w d =
     (if w_offset w \<noteq> 0 then (Inl EINVAL, d)
      else
        let (r, val) = oprofilefs_ulong_from_user strtoul (w_user w) (w_count w) stack
        in case r of
             Inl err \<Rightarrow> (Inl err, d)
           | Inr _ \<Rightarrow>
               let (r, d) = oprofile_set_timeout to_jiffies max_offset val d
               in (count_or_error r (w_count w), d))"

text \<open>\<^verbatim>\<open>oprofile_start\<close> and \<^verbatim>\<open>oprofile_stop\<close> without \<^verbatim>\<open>RRPROFILE\<close>, which write no notes and leave the rings to the
  periodic work.\<close>

definition stock_oprofile_start ::
  "kernel_env \<Rightarrow> ('h, 'r) mux_driver \<Rightarrow> (rc \<times> ('h, 'r) mux_driver) option" where
  "stock_oprofile_start env d =
     (if \<not> is_setup d then Some (Inl EINVAL, d)
      else if oprofile_started d then Some (rc_ok, d)
      else
        do { let d = d\<lparr>kern := oprofile_reset_stats (possible_cpus env) (kern d)\<rparr>;
             (err, k) \<leftarrow> call_rc (op_start (oprofile_ops d)) (kern d);
             let d = d\<lparr>kern := k\<rparr>;
             if err \<noteq> rc_ok then Some (err, d)
             else
               let d = start_switch_worker d;
                   d = d\<lparr>oprofile_started := True\<rparr>
               in Some (rc_ok, d\<lparr>kern := on_evb (\<lambda>e. e\<lparr>buffer_dump := False\<rparr>) (kern d)\<rparr>) })"

definition stock_oprofile_stop :: "('h, 'r) mux_driver \<Rightarrow> ('h, 'r) mux_driver option" where
  "stock_oprofile_stop d =
     (if \<not> oprofile_started d then Some d
      else
        do { k \<leftarrow> call_void (op_stop (oprofile_ops d)) (kern d);
             let d = d\<lparr>kern := k, oprofile_started := False\<rparr>;
             let d = stop_switch_worker d;
             Some (d\<lparr>kern := on_evb wake_up_buffer_waiter (kern d)\<rparr>) })"

section \<open>Steps\<close>

text \<open>
  Starting and stopping, the work when it is pending, writes to the file of the time slice, and
  whatever else changes the kernel's state: interrupts, the periodic work. \<^verbatim>\<open>cancel_delayed_work_sync\<close>
  waits for the work, so that the work and a stop do not interleave.
\<close>

inductive mux_step ::
  "kernel_env \<Rightarrow> (ulong \<Rightarrow> ulong) \<Rightarrow> ulong \<Rightarrow> ('h, 'r) mux_driver \<Rightarrow> ('h, 'r) mux_driver \<Rightarrow> bool"
  for env to_jiffies max_offset where
  start: "stock_oprofile_start env d = Some (r, d') \<Longrightarrow> mux_step env to_jiffies max_offset d d'"
| stop: "stock_oprofile_stop d = Some d' \<Longrightarrow> mux_step env to_jiffies max_offset d d'"
| work: "switch_work d \<noteq> None \<Longrightarrow> switch_worker d = Some d' \<Longrightarrow> mux_step env to_jiffies max_offset d d'"
| time_slice: "timeout_write strtoul to_jiffies max_offset stack w d = (r, d') \<Longrightarrow>
    mux_step env to_jiffies max_offset d d'"
| other: "mux_step env to_jiffies max_offset d (d\<lparr>kern := k\<rparr>)"

inductive mux_reach ::
  "kernel_env \<Rightarrow> (ulong \<Rightarrow> ulong) \<Rightarrow> ulong \<Rightarrow> ('h, 'r) mux_driver \<Rightarrow> ('h, 'r) mux_driver \<Rightarrow> bool"
  for env to_jiffies max_offset d0 where
  initial: "mux_reach env to_jiffies max_offset d0 d0"
| further: "mux_reach env to_jiffies max_offset d0 d \<Longrightarrow> mux_step env to_jiffies max_offset d d' \<Longrightarrow>
    mux_reach env to_jiffies max_offset d0 d'"

text \<open>The work is pending only while a profile runs with a back end that can switch, with the time slice
  that the file shows.\<close>

definition mux_inv :: "('h, 'r) mux_driver \<Rightarrow> bool" where
  "mux_inv d \<longleftrightarrow> (case switch_work d of None \<Rightarrow> True
     | Some t \<Rightarrow> oprofile_started d \<and> switch_events d \<noteq> None \<and> t = oprofile_time_slice d)"

lemma mux_step_inv:
  assumes "mux_step env to_jiffies max_offset d d'" and "mux_inv d"
  shows "mux_inv d' \<and> switch_events d' = switch_events d"
  using assms
proof (induction rule: mux_step.induct)
  case (start d r d')
  then show ?case
    by (auto simp: stock_oprofile_start_def start_switch_worker_def mux_inv_def Let_def
        split: if_splits option.splits Option.bind_splits)
next
  case (stop d d')
  then show ?case
    by (auto simp: stock_oprofile_stop_def stop_switch_worker_def mux_inv_def Let_def
        split: if_splits Option.bind_splits)
next
  case (work d d')
  then show ?case
    by (auto simp: switch_worker_def start_switch_worker_def mux_inv_def Let_def
        split: if_splits option.splits Option.bind_splits)
next
  case (time_slice strtoul stack w d r d')
  then show ?case
    by (auto simp: timeout_write_def oprofile_set_timeout_def mux_inv_def Let_def
        split: if_splits option.splits sum.splits prod.splits)
qed (auto simp: mux_inv_def split: option.splits)

text \<open>The work never calls a null pointer, and none is left when no profile runs; when the back end
  refuses to switch, the work is no longer pending.\<close>

theorem switch_work_only_in_profiles:
  assumes "mux_reach env to_jiffies max_offset d0 d" and "switch_work d0 = None"
  shows "(switch_work d \<noteq> None \<longrightarrow> oprofile_started d \<and>
      (\<exists>f. switch_events d = Some f \<and> switch_worker d = do { (r, k) \<leftarrow> f (kern d);
        Some (if r \<noteq> 0 then d\<lparr>kern := k, switch_work := None\<rparr>
              else d\<lparr>kern := k, multiplex_counter := multiplex_counter d + 1\<rparr>) })) \<and>
    (\<not> oprofile_started d \<longrightarrow> switch_work d = None)"
proof -
  have inv: "mux_inv d"
    using assms by (induction rule: mux_reach.induct) (auto simp: mux_inv_def dest: mux_step_inv [unfolded mux_inv_def])
  have "switch_worker d = do { (r, k) \<leftarrow> f (kern d);
        Some (if r \<noteq> 0 then d\<lparr>kern := k, switch_work := None\<rparr>
              else d\<lparr>kern := k, multiplex_counter := multiplex_counter d + 1\<rparr>) }"
    if "switch_work d = Some t" and "switch_events d = Some f" for t f
  proof -
    have "oprofile_time_slice d = t" using inv that(1) by (simp add: mux_inv_def)
    with that show ?thesis
      by (cases d; cases "f (kern d)") (auto simp: switch_worker_def start_switch_worker_def Let_def)
  qed
  with inv show ?thesis by (auto simp: mux_inv_def split: option.splits)
qed

text \<open>A time slice that was written is the one of the next profile, and what the file shows, as far as the
  kernel's conversions are inverse to one another.\<close>

theorem time_slice_roundtrip:
  assumes "\<not> oprofile_started d" and "switch_events d \<noteq> None" and "to_jiffies val \<noteq> max_offset"
    and "w_offset w = 0" and "w_count w \<noteq> 0"
    and "oprofilefs_ulong_from_user strtoul (w_user w) (w_count w) stack = (rc_ok, val)"
    and "to_msecs (to_jiffies val) = val"
  shows "\<exists>d'. timeout_write strtoul to_jiffies max_offset stack w d = (Inr (w_count w), d') \<and>
    timeout_read read_buf to_msecs d' count off = oprofilefs_ulong_to_user read_buf val count off \<and>
    (switch_work d' = None \<longrightarrow> switch_work (start_switch_worker d') = Some (to_jiffies val))"
  using assms
  by (auto simp: timeout_write_def oprofile_set_timeout_def timeout_read_def start_switch_worker_def
      count_or_error_def)

end
