(* ===== verification/Old_Witnesses.thy ===== *)
theory Old_Witnesses
  imports X86_Witnesses Stock_Module Old_Nmi Old_Walks Old_Kernels Multiplex
begin


theorem failed_load_leaves_callbacks_witness:
  "\<exists>d0 :: (unit, unit) x86_driver. oprofile_init (oprofile_timer_init rc_ok (online_cpus ex_env) (\<lambda>_. 5))
      (oprofile_arch_init ex_platform ex_env) (Inl EBUSY) ex_x86_module = Some (Inl EBUSY, d0) \<and>
    driverfs (x86 (kern d0))"
proof -
  from ex_arch_init obtain ops :: "(unit nmi_kstate_ext timer_kstate_scheme, unit) oprofile_operations" and x
    where arch: "oprofile_arch_init ex_platform ex_env no_operations (kern ex_x86_module) =
        Some (rc_ok, ops, (kern ex_x86_module)\<lparr>x86 := x\<rparr>)" by blast
  have "x86_fresh (x86 (kern ex_x86_module))" using ex_static_fresh ex_x86_module_fresh(2) by simp
  moreover have "\<not> oprofile_started ex_x86_module" by (simp add: ex_x86_module_def)
  ultimately show ?thesis using failed_load_leaves_callbacks [OF ex_platform_ok _ _ arch] by blast
qed

end
