(* ===== verification/Op_Power4.thy ===== *)
theory Op_Power4
  imports Ppc_Machine
begin

text \<open>
  \<^verbatim>\<open>powerpc/op_model_power4.c\<close>: the counters of POWER4, POWER5 and PPC970 processors, in its
  version for \<^verbatim>\<open>RRPROFILE\<close> and kernels from 2.6.18 on. The event of a counter and its unit mask
  are packed into the fields of the two control registers; the interrupt logs a sample for
  each counter in trigger mode that has become negative.
\<close>

section \<open>The fields of the control registers\<close>

text \<open>
  The masks and shifts, each list in the order of the macros: \<^verbatim>\<open>MMCR0_PMC1SEL\<close> to
  \<^verbatim>\<open>MMCR1_PMC8SEL\<close>, the \<^verbatim>\<open>TTM\<close> and \<^verbatim>\<open>DBG\<close> selectors, \<^verbatim>\<open>MMCR1_PMC1ADDRSEL\<close> to
  \<^verbatim>\<open>MMCR1_PMC8ADDRSEL\<close> and \<^verbatim>\<open>MMCR1_SPCSEL\<close>.
\<close>

definition PMCSEL :: "ulong list" where
  "PMCSEL = [0x1F00, 0x3E, 0xF8000000, 0x07C00000, 0x003E0000, 0x0001F000, 0x00000F80, 0x0000007C]"

definition TTMSEL :: "ulong list" where
  "TTMSEL = [0xC000000000000000, 0x1800000000000000, 0x0060000000000000]"

definition DBGSEL :: "ulong list" where
  "DBGSEL = [0x000C000000000000, 0x0003000000000000, 0x0000C00000000000, 0x0000300000000000]"

definition ADDRSEL :: "ulong list" where
  "ADDRSEL = [0x0000008000000000, 0x0000004000000000, 0x0000000200000000, 0x0000000100000000,
     0x0000001000000000, 0x0000002000000000, 0x0000000400000000, 0x0000000800000000]"

definition SPCSEL :: ulong where "SPCSEL = 0x3"

definition PMC_SHIFT :: "nat list" where "PMC_SHIFT = [8, 1, 27, 22, 17, 12, 7, 2]"

definition TTMSEL_SHIFT :: "nat list" where "TTMSEL_SHIFT = [62, 59, 53]"

definition DBGSEL_SHIFT :: "nat list" where "DBGSEL_SHIFT = [50, 48, 46, 44]"

definition ADDRSEL_SHIFT :: "nat list" where "ADDRSEL_SHIFT = [39, 38, 33, 32, 36, 37, 34, 35]"

definition SPCSEL_SHIFT :: nat where "SPCSEL_SHIFT = 0"

text \<open>
  \<^verbatim>\<open>mmcr0_event1\<close>, \<^verbatim>\<open>mmcr0_event2\<close>, \<^verbatim>\<open>mmcr1_event3\<close> to \<^verbatim>\<open>mmcr1_event8\<close> for \<open>i\<close> from 0 to 7; the
  units \<^verbatim>\<open>mmcr1_ttm0\<close>, \<^verbatim>\<open>mmcr1_ttm1\<close>, \<^verbatim>\<open>mmcr1_ttm3\<close>; the byte lanes \<^verbatim>\<open>mmcr1_dbg0\<close> to \<^verbatim>\<open>mmcr1_dbg3\<close>;
  the adder lanes \<^verbatim>\<open>mmcr1_event1_addr\<close> to \<^verbatim>\<open>mmcr1_event8_addr\<close>; and \<^verbatim>\<open>mmcr1_spc\<close>.
\<close>

definition mmcr_event :: "nat \<Rightarrow> ulong \<Rightarrow> ulong" where
  "mmcr_event i ev = push_bit (PMC_SHIFT ! i) ev AND PMCSEL ! i"

definition mmcr1_ttm :: "nat \<Rightarrow> ulong \<Rightarrow> ulong" where
  "mmcr1_ttm i val = push_bit (TTMSEL_SHIFT ! i) val AND TTMSEL ! i"

definition mmcr1_dbg :: "nat \<Rightarrow> ulong \<Rightarrow> ulong" where
  "mmcr1_dbg i val = push_bit (DBGSEL_SHIFT ! i) val AND DBGSEL ! i"

definition mmcr1_event_addr :: "nat \<Rightarrow> ulong \<Rightarrow> ulong" where
  "mmcr1_event_addr i val = push_bit (ADDRSEL_SHIFT ! i) val AND ADDRSEL ! i"

definition mmcr1_spc :: "ulong \<Rightarrow> ulong" where
  "mmcr1_spc val = push_bit SPCSEL_SHIFT val AND SPCSEL"

section \<open>Setting up\<close>

text \<open>The local variables for the multiplexers: three units, four byte lanes, the speculative count.\<close>

record mux_values =
  ttm0Value :: ulong
  ttm1Value :: ulong
  ttm3Value :: ulong
  dbg0Value :: ulong
  dbg1Value :: ulong
  dbg2Value :: ulong
  dbg3Value :: ulong
  spcValue :: ulong

definition no_mux :: mux_values where
  "no_mux = \<lparr>ttm0Value = 0, ttm1Value = 0, ttm3Value = 0, dbg0Value = 0, dbg1Value = 0, dbg2Value = 0,
     dbg3Value = 0, spcValue = 0\<rparr>"

text \<open>The body of the loop over the counters: the two selectors of a unit mask.\<close>

definition select_mux :: "op_counter_config_ppc \<Rightarrow> mux_values \<Rightarrow> mux_values" where
  "select_mux g m =
     (let unitSelect = drop_bit 12 (pc_unit_mask g) AND 0xF;
          unitValue = drop_bit 8 (pc_unit_mask g) AND 0xF;
          byteLaneSelect = drop_bit 4 (pc_unit_mask g) AND 0xF;
          byteLaneValue = pc_unit_mask g AND 0xF;
          m = (if unitSelect = 1 then m\<lparr>ttm0Value := unitValue\<rparr>
               else if unitSelect = 2 then m\<lparr>ttm1Value := unitValue\<rparr>
               else if unitSelect = 3 then m\<lparr>ttm3Value := unitValue\<rparr>
               else if unitSelect = 4 then m\<lparr>spcValue := unitValue\<rparr>
               else m)
      in if byteLaneSelect = 1 then m\<lparr>dbg0Value := byteLaneValue\<rparr>
         else if byteLaneSelect = 2 then m\<lparr>dbg1Value := byteLaneValue\<rparr>
         else if byteLaneSelect = 3 then m\<lparr>dbg2Value := byteLaneValue\<rparr>
         else if byteLaneSelect = 4 then m\<lparr>dbg3Value := byteLaneValue\<rparr>
         else m)"

text \<open>One element of the arrays \<^verbatim>\<open>ctrAddrSel\<close> and \<^verbatim>\<open>ctrEvent\<close>.\<close>

definition addr_sel :: "op_counter_config_ppc \<Rightarrow> ulong" where
  "addr_sel g = drop_bit 5 (pc_event g) AND 1"

definition ctr_event :: "op_counter_config_ppc \<Rightarrow> ulong" where
  "ctr_event g = (if pc_enabled g \<noteq> 0 then pc_event g AND 0x1F else 0x08)"

text \<open>A loop that fills the first \<open>n\<close> elements of an array of eight zeros from the configuration.\<close>

definition fill_array ::
  "nat \<Rightarrow> (op_counter_config_ppc \<Rightarrow> ulong) \<Rightarrow> op_counter_config_ppc list \<Rightarrow> ulong list option" where
  "fill_array n f cs =
     for_each (\<lambda>i vs. do { g \<leftarrow> arr_at cs i; arr_put i (f g) vs }) [0..<n] (replicate 8 0)"

definition mmcr0_events :: "ulong list \<Rightarrow> ulong" where
  "mmcr0_events ev = mmcr_event 0 (ev ! 0) OR mmcr_event 1 (ev ! 1)"

definition mmcr1_fields :: "ulong list \<Rightarrow> ulong list \<Rightarrow> mux_values \<Rightarrow> ulong" where
  "mmcr1_fields ev ad m =
     mmcr_event 2 (ev ! 2) OR mmcr_event 3 (ev ! 3) OR mmcr_event 4 (ev ! 4) OR
     mmcr_event 5 (ev ! 5) OR mmcr_event 6 (ev ! 6) OR mmcr_event 7 (ev ! 7) OR
     mmcr1_event_addr 0 (ad ! 0) OR mmcr1_event_addr 1 (ad ! 1) OR mmcr1_event_addr 2 (ad ! 2) OR
     mmcr1_event_addr 3 (ad ! 3) OR mmcr1_event_addr 4 (ad ! 4) OR mmcr1_event_addr 5 (ad ! 5) OR
     mmcr1_event_addr 6 (ad ! 6) OR mmcr1_event_addr 7 (ad ! 7) OR
     mmcr1_ttm 0 (ttm0Value m) OR mmcr1_ttm 1 (ttm1Value m) OR mmcr1_ttm 2 (ttm3Value m) OR
     mmcr1_dbg 0 (dbg0Value m) OR mmcr1_dbg 1 (dbg1Value m) OR mmcr1_dbg 2 (dbg2Value m) OR
     mmcr1_dbg 3 (dbg3Value m) OR mmcr1_spc (spcValue m)"

definition power4_reg_setup ::
  "ppc_platform \<Rightarrow> op_counter_config_ppc list \<Rightarrow> op_system_config \<Rightarrow> ppc_state \<Rightarrow> ppc_state option" where
  "power4_reg_setup K cs sys x =
     do { ad \<leftarrow> fill_array (num_pmcs K) addr_sel cs;
          ev \<leftarrow> fill_array (num_pmcs K) ctr_event cs;
          m \<leftarrow> for_each (\<lambda>i m. map_option (\<lambda>g. select_mux g m) (arr_at cs i)) [0..<num_pmcs K] no_mux;
          let x = x\<lparr>mmcr0_val := ucast (mmcr0_events ev), mmcr1_val := mmcr1_fields ev ad m,
                    mmcra_val := 0\<rparr>;
          vs \<leftarrow> reset_values (num_pmcs K) cs (power4_reset_value x);
          let x = x\<lparr>power4_reset_value := vs\<rparr>;
          let x = x\<lparr>mmcr0_val :=
                if enable_kernel sys \<noteq> 0 then mmcr0_val x AND NOT (MMCR0_KERNEL_DISABLE K)
                else mmcr0_val x OR MMCR0_KERNEL_DISABLE K\<rparr>;
          Some (x\<lparr>mmcr0_val :=
                if enable_user sys \<noteq> 0 then mmcr0_val x AND NOT (MMCR0_PROBLEM_DISABLE K)
                else mmcr0_val x OR MMCR0_PROBLEM_DISABLE K\<rparr>) }"

definition mmcra_must_set_sample :: "ppc_platform \<Rightarrow> bool" where
  "mmcra_must_set_sample K \<longleftrightarrow>
     processor_version K = PV_POWER4 \<or> processor_version K = PV_POWER4p \<or>
     processor_version K = PV_970 \<or> processor_version K = PV_970FX \<or>
     processor_version K = PV_970MP"

definition power4_cpu_setup :: "ppc_platform \<Rightarrow> nat \<Rightarrow> ppc_state \<Rightarrow> ppc_state" where
  "power4_cpu_setup K c x =
     (let mmcr0 = mmcr0_val x;
          mmcra = mmcra_val x;
          x = x\<lparr>spr := (spr x)(c := enable_pmcs K (spr x c))\<rparr>;
          mmcr0 = mmcr0 OR MMCR0_FC K;
          x = mtspr c SPRN_MMCR0 (ucast mmcr0) x;
          mmcr0 = mmcr0 OR (MMCR0_FCM1 K OR MMCR0_PMXE K OR MMCR0_FCECE K);
          mmcr0 = mmcr0 OR (MMCR0_PMC1CE K OR MMCR0_PMCjCE K);
          x = mtspr c SPRN_MMCR0 (ucast mmcr0) x;
          x = mtspr c SPRN_MMCR1 (mmcr1_val x) x;
          mmcra = (if mmcra_must_set_sample K then mmcra OR MMCRA_SAMPLE_ENABLE K else mmcra)
      in mtspr c SPRN_MMCRA mmcra x)"

section \<open>Starting and stopping\<close>

text \<open>\<open>tb\<close> is the time base on entry.\<close>

definition power4_start ::
  "ppc_platform \<Rightarrow> u64 \<Rightarrow> op_counter_config_ppc list \<Rightarrow> nat \<Rightarrow> ppc_state \<Rightarrow> ppc_state option" where
  "power4_start K tb cs c x =
     do { let x = x\<lparr>power4_start_timestamp := (power4_start_timestamp x)(c := tb)\<rparr>;
          let x = set_PMM K c x;
          x \<leftarrow> for_each (\<lambda>i x.
                  do { g \<leftarrow> arr_at cs i;
                       if pc_enabled g \<noteq> 0 \<and> pc_count g \<noteq> 0
                       then do { v \<leftarrow> arr_at (power4_reset_value x) i; Some (ctr_write c i (ucast v) x) }
                       else Some (ctr_write c i 0 x) }) [0..<num_pmcs K] x;
          let mmcr0 = (ucast (mfspr c SPRN_MMCR0 x) :: u32);
          let mmcr0 = mmcr0 AND NOT (MMCR0_PMAO K);
          let mmcr0 = mmcr0 AND NOT (MMCR0_FC K);
          Some ((mtspr c SPRN_MMCR0 (ucast mmcr0) x)\<lparr>power4_running := True\<rparr>) }"

definition power4_stop :: "ppc_platform \<Rightarrow> nat \<Rightarrow> ppc_state \<Rightarrow> ppc_state" where
  "power4_stop K c x =
     (let mmcr0 = (ucast (mfspr c SPRN_MMCR0 x) :: u32) OR MMCR0_FC K
      in (mtspr c SPRN_MMCR0 (ucast mmcr0) x)\<lparr>power4_running := False\<rparr>)"

section \<open>The interrupt\<close>

definition get_pc :: "ppc_platform \<Rightarrow> nat \<Rightarrow> ppc_state \<Rightarrow> ulong" where
  "get_pc K c x =
     (let pc = mfspr c SPRN_SIAR x
      in if oprofile_mmcra_sihv K = 0 then pc
         else
           let mmcra = mfspr c SPRN_MMCRA x
           in if firmware_lpar K \<and> mmcra AND oprofile_mmcra_sihv K \<noteq> 0 then hypervisor_bucket K
              else if mmcra AND oprofile_mmcra_sipr K \<noteq> 0 then pc
              else if (case rtas_area K of
                         None \<Rightarrow> False
                       | Some (base, len) \<Rightarrow> base \<le> pc \<and> pc < base + len)
              then rtas_bucket K
              else if pc < 0x1000000 then va K pc
              else if \<not> is_kernel_addr K pc then kernel_unknown_bucket K
              else pc)"

text \<open>The argument \<^verbatim>\<open>mmcra\<close> is not used: an inner variable of the same name hides it.\<close>

definition get_kernel :: "ppc_platform \<Rightarrow> nat \<Rightarrow> ulong \<Rightarrow> ppc_state \<Rightarrow> int" where
  "get_kernel K c pc x =
     (if oprofile_mmcra_sihv K = 0 then (if is_kernel_addr K pc then 1 else 0)
      else if mfspr c SPRN_MMCRA x AND oprofile_mmcra_sipr K = 0 then 1 else 0)"

definition power4_check_ctr ::
  "ppc_platform \<Rightarrow> 'r sampler \<Rightarrow> nat \<Rightarrow> 'r tick \<Rightarrow> op_counter_config_ppc list \<Rightarrow> ulong \<Rightarrow> int \<Rightarrow> nat \<Rightarrow>
   'h ppc_kstate_scheme \<Rightarrow> 'h ppc_kstate_scheme option" where
  "power4_check_ctr K sp c t cs pc is_kernel i k =
     do { let val = ctr_read c i (ppc k);
          g \<leftarrow> arr_at cs i;
          if power4_running (ppc k) \<and> pc_enabled g \<noteq> 0 then
            if pc_count g = 0 then Some (k\<lparr>ppc := ctr_write c i 0 (ppc k)\<rparr>)
            else if val <s 0 then
              do { k \<leftarrow> on_cpu c (oprofile_add_sample_start (power4_start_timestamp (ppc k) c)) k;
                   k \<leftarrow> on_cpu c (oprofile_add_sample_stop (end_tb t)) k;
                   k \<leftarrow> add_ext_sample sp c t pc is_kernel i k;
                   v \<leftarrow> arr_at (power4_reset_value (ppc k)) i;
                   Some (k\<lparr>ppc := ctr_write c i (ucast v) (ppc k)\<rparr>) }
            else Some k
          else if val <s 0 then Some (k\<lparr>ppc := ctr_write c i 0 (ppc k)\<rparr>)
          else Some k }"

definition power4_handle_interrupt ::
  "ppc_platform \<Rightarrow> 'r sampler \<Rightarrow> nat \<Rightarrow> 'r tick \<Rightarrow> op_counter_config_ppc list \<Rightarrow>
   'h ppc_kstate_scheme \<Rightarrow> 'h ppc_kstate_scheme option" where
  "power4_handle_interrupt K sp c t cs k =
     do { let pc = get_pc K c (ppc k);
          let is_kernel = get_kernel K c pc (ppc k);
          let k = k\<lparr>ppc := set_PMM K c (ppc k)\<rparr>;
          k \<leftarrow> for_each (power4_check_ctr K sp c t cs pc is_kernel) [0..<num_pmcs K] k;
          let x = ppc k;
          let mmcr0 = (ucast (mfspr c SPRN_MMCR0 x) :: u32) OR MMCR0_PMXE K;
          let mmcr0 = mmcr0 AND NOT (MMCR0_PMAO K);
          let mmcr0 = mmcr0 AND NOT (MMCR0_FC K);
          let x = x\<lparr>power4_start_timestamp := (power4_start_timestamp x)(c := next_tb t)\<rparr>;
          Some (k\<lparr>ppc := mtspr c SPRN_MMCR0 (ucast mmcr0) x\<rparr>) }"

end
