(* ===== verification/Op_Rs64.thy ===== *)
theory Op_Rs64
  imports Ppc_Machine
begin

text \<open>
  \<^verbatim>\<open>powerpc/op_model_rs64.c\<close>: the counters of POWER3 and RS64 processors. The event of a counter
  is written into its field of the control registers when the counter is started.
\<close>

section \<open>Operations\<close>

text \<open>\<^verbatim>\<open>ctrl_write\<close>: the register, shift and mask of the field of counter \<open>i\<close>; the first \<^verbatim>\<open>switch\<close>.\<close>

definition ctrl_field :: "nat \<Rightarrow> (spr \<times> nat \<times> ulong) option" where
  "ctrl_field i =
     (if i = 0 then Some (SPRN_MMCR0, 6, 0x7F) else if i = 1 then Some (SPRN_MMCR0, 0, 0x3F)
      else if i = 2 then Some (SPRN_MMCR1, 31 - 4, 0x1F) else if i = 3 then Some (SPRN_MMCR1, 31 - 9, 0x1F)
      else if i = 4 then Some (SPRN_MMCR1, 31 - 14, 0x1F) else if i = 5 then Some (SPRN_MMCR1, 31 - 19, 0x1F)
      else if i = 6 then Some (SPRN_MMCR1, 31 - 24, 0x1F) else if i = 7 then Some (SPRN_MMCR1, 31 - 28, 0xF)
      else None)"

text \<open>The value is shifted into the register as it is: it is not cut to the mask.\<close>

definition ctrl_write :: "nat \<Rightarrow> nat \<Rightarrow> u32 \<Rightarrow> ppc_state \<Rightarrow> ppc_state" where
  "ctrl_write c i val x =
     (let (tmp, shift, msk) = (case ctrl_field i of
              Some (r, shift, msk) \<Rightarrow> (ucast (mfspr c r x) :: u32, shift, msk)
            | None \<Rightarrow> (0, 0, 0));
          tmp = ucast (ucast tmp AND NOT (push_bit shift msk));
          tmp = tmp OR push_bit shift val
      in if i = 0 \<or> i = 1 then mtspr c SPRN_MMCR0 (ucast tmp) x else mtspr c SPRN_MMCR1 (ucast tmp) x)"

definition rs64_reg_setup ::
  "op_counter_config_ppc list \<Rightarrow> op_system_config \<Rightarrow> nat \<Rightarrow> ppc_state \<Rightarrow> ppc_state option" where
  "rs64_reg_setup cs sys num_ctrs x =
     do { let x = x\<lparr>rs64_num_counters := num_ctrs\<rparr>;
          vs \<leftarrow> reset_values (rs64_num_counters x) cs (rs64_reset_value x);
          Some (x\<lparr>rs64_reset_value := vs\<rparr>) }"

definition rs64_cpu_setup :: "ppc_platform \<Rightarrow> nat \<Rightarrow> ppc_state \<Rightarrow> ppc_state" where
  "rs64_cpu_setup K c x =
     (let mmcr0 = MMCR0_FC K;
          x = mtspr c SPRN_MMCR0 (ucast mmcr0) x;
          x = mtspr c SPRN_MMCR1 0 x;
          x = (if has_mmcra K then mtspr c SPRN_MMCRA 0 x else x);
          mmcr0 = mmcr0 OR (MMCR0_FCM1 K OR MMCR0_PMXE K OR MMCR0_FCECE K);
          mmcr0 = mmcr0 OR (MMCR0_PMC1CE K OR MMCR0_PMCjCE K)
      in mtspr c SPRN_MMCR0 (ucast mmcr0) x)"

definition rs64_start ::
  "ppc_platform \<Rightarrow> op_counter_config_ppc list \<Rightarrow> nat \<Rightarrow> ppc_state \<Rightarrow> ppc_state option" where
  "rs64_start K cs c x =
     do { let x = set_PMM K c x;
          x \<leftarrow> for_each (\<lambda>i x.
                  do { g \<leftarrow> arr_at cs i;
                       if pc_enabled g \<noteq> 0
                       then do { v \<leftarrow> arr_at (rs64_reset_value x) i;
                                 Some (ctrl_write c i (ucast (pc_event g)) (ctr_write c i (ucast v) x)) }
                       else Some (ctr_write c i 0 x) }) [0..<rs64_num_counters x] x;
          let mmcr0 = (ucast (mfspr c SPRN_MMCR0 x) :: u32) AND NOT (MMCR0_FC K);
          Some (mtspr c SPRN_MMCR0 (ucast mmcr0) x) }"

definition rs64_stop :: "ppc_platform \<Rightarrow> nat \<Rightarrow> ppc_state \<Rightarrow> ppc_state" where
  "rs64_stop K c x =
     (let mmcr0 = (ucast (mfspr c SPRN_MMCR0 x) :: u32) OR MMCR0_FC K
      in mtspr c SPRN_MMCR0 (ucast mmcr0) x)"

definition rs64_check_ctr ::
  "'r sampler \<Rightarrow> nat \<Rightarrow> 'r tick \<Rightarrow> op_counter_config_ppc list \<Rightarrow> ulong \<Rightarrow> int \<Rightarrow> nat \<Rightarrow>
   'h ppc_kstate_scheme \<Rightarrow> 'h ppc_kstate_scheme option" where
  "rs64_check_ctr sp c t cs pc is_kernel i k =
     (let val = ctr_read c i (ppc k)
      in if val <s 0 then
           do { g \<leftarrow> arr_at cs i;
                if pc_enabled g \<noteq> 0 then
                  do { k \<leftarrow> add_ext_sample sp c t pc is_kernel i k;
                       v \<leftarrow> arr_at (rs64_reset_value (ppc k)) i;
                       Some (k\<lparr>ppc := ctr_write c i (ucast v) (ppc k)\<rparr>) }
                else Some (k\<lparr>ppc := ctr_write c i 0 (ppc k)\<rparr>) }
         else Some k)"

definition rs64_handle_interrupt ::
  "ppc_platform \<Rightarrow> 'r sampler \<Rightarrow> nat \<Rightarrow> 'r tick \<Rightarrow> op_counter_config_ppc list \<Rightarrow>
   'h ppc_kstate_scheme \<Rightarrow> 'h ppc_kstate_scheme option" where
  "rs64_handle_interrupt K sp c t cs k =
     do { let pc = mfspr c SPRN_SIAR (ppc k);
          let is_kernel = (if is_kernel_addr K pc then 1 else 0);
          let k = k\<lparr>ppc := set_PMM K c (ppc k)\<rparr>;
          k \<leftarrow> for_each (rs64_check_ctr sp c t cs pc is_kernel) [0..<rs64_num_counters (ppc k)] k;
          let mmcr0 = (ucast (mfspr c SPRN_MMCR0 (ppc k)) :: u32) OR MMCR0_PMXE K;
          let mmcr0 = mmcr0 AND NOT (MMCR0_FC K);
          Some (k\<lparr>ppc := mtspr c SPRN_MMCR0 (ucast mmcr0) (ppc k)\<rparr>) }"

end
