(* ===== verification/Ppc_Common.thy ===== *)
theory Ppc_Common
  imports Op_Power4 Op_Rs64 Oprofilefs
begin

text \<open>
  \<^verbatim>\<open>powerpc/common.c\<close>: the back end that \<^verbatim>\<open>oprof.c\<close> calls, over any \<^verbatim>\<open>struct op_powerpc_model\<close>. The
  contract of such a model is the locale \<open>powerpc_model\<close>; inside it, every model is shown to
  give a back end in the sense of theory Backend, and its interrupt to keep the rings usable.
\<close>

section \<open>Counter models\<close>

text \<open>
  \<^verbatim>\<open>struct op_powerpc_model\<close>. The first argument of \<^verbatim>\<open>start\<close> is the time base on entry, which
  the kernel's CPU provides and not the caller; the functions that run on one CPU take its
  number.
\<close>

record ('h, 'r) op_powerpc_model =
  reg_setup :: "op_counter_config_ppc list \<Rightarrow> op_system_config \<Rightarrow> nat \<Rightarrow> ppc_state \<Rightarrow> ppc_state option"
  cpu_setup :: "nat \<Rightarrow> ppc_state \<Rightarrow> ppc_state"
  model_start :: "u64 \<Rightarrow> op_counter_config_ppc list \<Rightarrow> nat \<Rightarrow> ppc_state \<Rightarrow> ppc_state option"
  model_stop :: "nat \<Rightarrow> ppc_state \<Rightarrow> ppc_state"
  handle_interrupt :: "'r sampler \<Rightarrow> nat \<Rightarrow> 'r tick \<Rightarrow> op_counter_config_ppc list \<Rightarrow>
    'h ppc_kstate_scheme \<Rightarrow> 'h ppc_kstate_scheme option"
  model_num_counters :: nat

text \<open>The two structures, with the number of counters that the initialisation fills in.\<close>

definition power4_model :: "ppc_platform \<Rightarrow> ('h, 'r) op_powerpc_model" where
  "power4_model K =
     \<lparr>reg_setup = \<lambda>cs sys num_ctrs. power4_reg_setup K cs sys,
      cpu_setup = power4_cpu_setup K,
      model_start = power4_start K,
      model_stop = power4_stop K,
      handle_interrupt = power4_handle_interrupt K,
      model_num_counters = num_pmcs K\<rparr>"

definition rs64_model :: "ppc_platform \<Rightarrow> ('h, 'r) op_powerpc_model" where
  "rs64_model K =
     \<lparr>reg_setup = rs64_reg_setup,
      cpu_setup = rs64_cpu_setup K,
      model_start = \<lambda>tb. rs64_start K,
      model_stop = rs64_stop K,
      handle_interrupt = rs64_handle_interrupt K,
      model_num_counters = num_pmcs K\<rparr>"

text \<open>The structure that the pointer \<^verbatim>\<open>model\<close> points to.\<close>

fun model_of :: "ppc_platform \<Rightarrow> powerpc_spec \<Rightarrow> ('h, 'r) op_powerpc_model" where
  "model_of K op_model_power4 = power4_model K"
| "model_of K op_model_rs64 = rs64_model K"

section \<open>Operations\<close>

text \<open>
  What the operations find: the result of \<^verbatim>\<open>reserve_pmc_hardware\<close>, which fails while another
  driver holds the counters, and the time base of each CPU when a profile starts, when the
  model starts it, and when it has stopped.
\<close>

record ppc_hw =
  reserve_result :: rc
  add_start_tb :: "nat \<Rightarrow> u64"
  model_start_tb :: "nat \<Rightarrow> u64"
  add_stop_tb :: "nat \<Rightarrow> u64"

definition op_handle_interrupt ::
  "('h, 'r) op_powerpc_model \<Rightarrow> 'r sampler \<Rightarrow> nat \<Rightarrow> 'r tick \<Rightarrow> 'h ppc_kstate_scheme \<Rightarrow>
   'h ppc_kstate_scheme option" where
  "op_handle_interrupt M sp c t k = handle_interrupt M sp c t (ppc_ctr (ppc k)) k"

definition op_powerpc_setup ::
  "ppc_hw \<Rightarrow> ('h, 'r) op_powerpc_model \<Rightarrow> nat list \<Rightarrow> 'h ppc_kstate_scheme \<Rightarrow>
   (rc \<times> 'h ppc_kstate_scheme) option" where
  "op_powerpc_setup H M online k =
     (if reserve_result H \<noteq> rc_ok then Some (reserve_result H, k)
      else
        do { let x = (ppc k)\<lparr>pmc_reserved := True\<rparr>;
             x \<leftarrow> reg_setup M (ppc_ctr x) (ppc_sys x) (model_num_counters M) x;
             Some (rc_ok, k\<lparr>ppc := fold (cpu_setup M) online x\<rparr>) })"

definition op_powerpc_shutdown :: "'h ppc_kstate_scheme \<Rightarrow> 'h ppc_kstate_scheme option" where
  "op_powerpc_shutdown k = Some (k\<lparr>ppc := (ppc k)\<lparr>pmc_reserved := False\<rparr>\<rparr>)"

definition op_powerpc_cpu_start ::
  "ppc_hw \<Rightarrow> ('h, 'r) op_powerpc_model \<Rightarrow> nat \<Rightarrow> 'h ppc_kstate_scheme \<Rightarrow> 'h ppc_kstate_scheme option"
where
  "op_powerpc_cpu_start H M c k =
     do { k \<leftarrow> on_cpu c (oprofile_add_start (add_start_tb H c)) k;
          on_ppc (\<lambda>x. model_start M (model_start_tb H c) (ppc_ctr x) c x) k }"

definition op_powerpc_start ::
  "ppc_hw \<Rightarrow> ('h, 'r) op_powerpc_model \<Rightarrow> nat list \<Rightarrow> 'h ppc_kstate_scheme \<Rightarrow>
   (rc \<times> 'h ppc_kstate_scheme) option" where
  "op_powerpc_start H M online k =
     map_option (Pair rc_ok) (for_each (op_powerpc_cpu_start H M) online k)"

definition op_powerpc_cpu_stop ::
  "ppc_hw \<Rightarrow> ('h, 'r) op_powerpc_model \<Rightarrow> nat \<Rightarrow> 'h ppc_kstate_scheme \<Rightarrow> 'h ppc_kstate_scheme option"
where
  "op_powerpc_cpu_stop H M c k =
     on_cpu c (oprofile_add_stop (add_stop_tb H c)) (k\<lparr>ppc := model_stop M c (ppc k)\<rparr>)"

definition op_powerpc_stop ::
  "ppc_hw \<Rightarrow> ('h, 'r) op_powerpc_model \<Rightarrow> nat list \<Rightarrow> 'h ppc_kstate_scheme \<Rightarrow>
   'h ppc_kstate_scheme option" where
  "op_powerpc_stop H M online k = for_each (op_powerpc_cpu_stop H M) online k"

text \<open>
  \<^verbatim>\<open>op_powerpc_create_files\<close>: the files of the registers and of the counters. Creating a file in
  a directory that could not be made dereferences a null pointer.
\<close>

definition create_pmc_dir ::
  "(string list \<Rightarrow> bool \<times> bool) \<Rightarrow> string list \<Rightarrow> nat \<Rightarrow> inode list \<Rightarrow> inode list option" where
  "create_pmc_dir alloc root i fs =
     (case oprofilefs_mkdir alloc root (take 5 (''pmc'' @ dec i)) fs of
        (None, fs) \<Rightarrow> None
      | (Some dir, fs) \<Rightarrow>
          Some (fold (\<lambda>name fs. snd (oprofilefs_create_ulong alloc dir name
                          (''ctr['' @ dec i @ ''].'' @ name) fs))
            [''enabled'', ''event'', ''count'', ''kernel'', ''user'', ''unit_mask''] fs))"

definition powerpc_files ::
  "(string list \<Rightarrow> bool \<times> bool) \<Rightarrow> nat \<Rightarrow> string list \<Rightarrow> inode list \<Rightarrow> inode list option" where
  "powerpc_files alloc n root fs =
     for_each (create_pmc_dir alloc root) [0..<n]
       (fold (\<lambda>name fs. snd (oprofilefs_create_ulong alloc root name (''sys.'' @ name) fs))
          [''mmcr0'', ''mmcr1'', ''mmcra''] fs)"

definition op_powerpc_create_files ::
  "(string list \<Rightarrow> bool \<times> bool) \<Rightarrow> nat \<Rightarrow> string list \<Rightarrow> inode list \<Rightarrow> ppc_state \<Rightarrow>
   (inode list \<times> ppc_state) option" where
  "op_powerpc_create_files alloc n root fs x =
     do { fs \<leftarrow> powerpc_files alloc n root fs;
          Some (fs, x\<lparr>ppc_sys := (ppc_sys x)\<lparr>enable_kernel := 1, enable_user := 1\<rparr>\<rparr>) }"

definition powerpc_operations ::
  "ppc_hw \<Rightarrow> ('h, 'r) op_powerpc_model \<Rightarrow> nat list \<Rightarrow> string \<Rightarrow> 'r option backtrace_op \<Rightarrow>
   ('h ppc_kstate_scheme, 'r) oprofile_operations \<Rightarrow>
   ('h ppc_kstate_scheme, 'r) oprofile_operations" where
  "powerpc_operations H M online cpu_type bt ops =
     ops\<lparr>op_cpu_type := Some cpu_type,
         op_num_counters := of_nat (model_num_counters M),
         op_create_files := map_option (map inode_path)
           (powerpc_files (\<lambda>_. (True, True)) (model_num_counters M) [] []),
         op_setup := Some (op_powerpc_setup H M online),
         op_shutdown := Some op_powerpc_shutdown,
         op_start := Some (op_powerpc_start H M online),
         op_stop := Some (op_powerpc_stop H M online),
         op_backtrace := Some bt\<rparr>"

section \<open>Initialisation\<close>

datatype oprofile_type = PPC_OPROFILE_RS64 | PPC_OPROFILE_POWER4 | PPC_OPROFILE_other

text \<open>
  What the initialisation finds: \<^verbatim>\<open>cur_cpu_spec\<close>, the results of the operations, the backtrace
  callback, and the property \<^verbatim>\<open>clock-frequency\<close> of the device tree's node for the CPU.
\<close>

record 'r ppc_build =
  platform :: ppc_platform
  spec_cpu_type :: "string option"
  spec_oprofile_type :: oprofile_type
  clock_frequency :: "u32 option"
  hw :: ppc_hw
  backtrace_callback :: "'r option backtrace_op"

definition choose_powerpc_model :: "oprofile_type \<Rightarrow> powerpc_spec option" where
  "choose_powerpc_model ty =
     (case ty of PPC_OPROFILE_RS64 \<Rightarrow> Some op_model_rs64 | PPC_OPROFILE_POWER4 \<Rightarrow> Some op_model_power4
      | PPC_OPROFILE_other \<Rightarrow> None)"

definition oprofile_arch_init_ppc ::
  "'r ppc_build \<Rightarrow> nat list \<Rightarrow> ('h ppc_kstate_scheme, 'r) oprofile_operations \<Rightarrow> 'h ppc_kstate_scheme \<Rightarrow>
   (rc \<times> ('h ppc_kstate_scheme, 'r) oprofile_operations \<times> 'h ppc_kstate_scheme) option" where
  "oprofile_arch_init_ppc B online ops k =
     (case spec_cpu_type B of
        None \<Rightarrow> Some (Inl ENODEV, ops, k)
      | Some cpu_type \<Rightarrow>
          (case choose_powerpc_model (spec_oprofile_type B) of
             None \<Rightarrow> Some (Inl ENODEV, ops, k)
           | Some m \<Rightarrow>
               let x = (ppc k)\<lparr>ppc_model := Some m\<rparr>;
                   ops = powerpc_operations (hw B) (model_of (platform B) m) online cpu_type
                           (backtrace_callback B) ops;
                   x = (case clock_frequency B of
                          None \<Rightarrow> x | Some f \<Rightarrow> x\<lparr>ppc_cpu_khz := f div 1000\<rparr>)
               in Some (rc_ok, ops, k\<lparr>ppc := x\<rparr>)))"

section \<open>The contract of a counter model\<close>

text \<open>The variables of \<^verbatim>\<open>common.c\<close>, which no model changes.\<close>

definition same_common :: "ppc_state \<Rightarrow> ppc_state \<Rightarrow> bool" where
  "same_common x x' \<longleftrightarrow> pmc_reserved x' = pmc_reserved x \<and> ppc_model x' = ppc_model x \<and>
     ppc_ctr x' = ppc_ctr x \<and> ppc_sys x' = ppc_sys x \<and> ppc_cpu_khz x' = ppc_cpu_khz x"

text \<open>Where a handler runs on the kernel's state, only the ring of CPU \<open>c\<close>, which stays usable,
  and the state of the PowerPC files may change.\<close>

definition only_ppc :: "nat \<Rightarrow> 'h ppc_kstate_scheme \<Rightarrow> 'h ppc_kstate_scheme \<Rightarrow> bool" where
  "only_ppc c k k' \<longleftrightarrow> ring_keeps (cpu_buffer k c) (cpu_buffer k' c) \<and>
     k' = k\<lparr>cpu_buffer := (cpu_buffer k)(c := cpu_buffer k' c), ppc := ppc k'\<rparr>"

lemma same_common_refl [simp]: "same_common x x" by (simp add: same_common_def)

lemma same_common_trans: "same_common x y \<Longrightarrow> same_common y z \<Longrightarrow> same_common x z"
  by (simp add: same_common_def)

lemma only_ppc_trans:
  assumes "only_ppc c k k1" and "only_ppc c k1 k2"
  shows "only_ppc c k k2"
proof -
  obtain b1 x1 where 1: "k1 = k\<lparr>cpu_buffer := (cpu_buffer k)(c := b1), ppc := x1\<rparr>"
    "ring_keeps (cpu_buffer k c) b1" using assms(1) unfolding only_ppc_def by blast
  obtain b2 x2 where 2: "k2 = k1\<lparr>cpu_buffer := (cpu_buffer k1)(c := b2), ppc := x2\<rparr>"
    "ring_keeps (cpu_buffer k1 c) b2" using assms(2) unfolding only_ppc_def by blast
  have "k2 = k\<lparr>cpu_buffer := (cpu_buffer k)(c := b2), ppc := x2\<rparr>" using 1(1) 2(1) by simp
  moreover have "ring_keeps (cpu_buffer k c) b2"
    using 1(2) 2(2) unfolding 1(1) by (auto intro: ring_keeps_trans)
  ultimately show ?thesis by (simp add: only_ppc_def)
qed

lemma only_ppc_state: "ring_ok (cpu_buffer k c) \<Longrightarrow> only_ppc c k (k\<lparr>ppc := x\<rparr>)"
  by (simp add: only_ppc_def ring_keeps_def)

lemma only_ppc_refl: "ring_ok (cpu_buffer k c) \<Longrightarrow> only_ppc c k k"
  by (simp add: only_ppc_def ring_keeps_def)

lemma only_ppc_ring:
  "ring_keeps (cpu_buffer k c) b \<Longrightarrow> only_ppc c k (k\<lparr>cpu_buffer := (cpu_buffer k)(c := b)\<rparr>)"
  by (simp add: only_ppc_def)

lemma only_ppc_ok:
  assumes "only_ppc c k k'"
  shows "ring_keeps (cpu_buffer k c) (cpu_buffer k' c)" "ring_ok (cpu_buffer k' c)" "evb k' = evb k"
    "\<And>c'. c' \<noteq> c \<Longrightarrow> cpu_buffer k' c' = cpu_buffer k c'"
proof -
  from assms have k': "k' = k\<lparr>cpu_buffer := (cpu_buffer k)(c := cpu_buffer k' c), ppc := ppc k'\<rparr>"
    by (simp add: only_ppc_def)
  show "ring_keeps (cpu_buffer k c) (cpu_buffer k' c)" "ring_ok (cpu_buffer k' c)"
    using assms by (simp_all add: only_ppc_def ring_keeps_def)
  show "evb k' = evb k" by (subst k') simp
  show "cpu_buffer k' c' = cpu_buffer k c'" if "c' \<noteq> c" for c' using that by (subst k') simp
qed

lemma only_ppc_keeps:
  assumes "only_ppc c k k'" and "buffers_ok possible k"
  shows "kernel_keeps possible k k'"
proof -
  have "ring_keeps (cpu_buffer k i) (cpu_buffer k' i)" if "ring_ok (cpu_buffer k i)" for i
    using only_ppc_ok [OF assms(1)] that by (cases "i = c") (simp_all add: ring_keeps_def)
  moreover have "work_scheduled (cpu_buffer k' i) = work_scheduled (cpu_buffer k i)" for i
    using only_ppc_ok [OF assms(1)] by (cases "i = c") (simp_all add: ring_keeps_def)
  ultimately show ?thesis
    using only_ppc_ok(3) [OF assms(1)] assms(2)
    by (simp add: kernel_keeps_def buffers_ok_def ring_keeps_def)
qed

locale powerpc_model =
  fixes M :: "('h, 'r) op_powerpc_model"
    and wf :: "ppc_state \<Rightarrow> bool"
  assumes reg_setup_law: "wf x \<Longrightarrow>
      \<exists>x'. reg_setup M (ppc_ctr x) (ppc_sys x) (model_num_counters M) x = Some x' \<and> wf x' \<and> same_common x x'"
    and cpu_setup_law: "wf x \<Longrightarrow> wf (cpu_setup M c x) \<and> same_common x (cpu_setup M c x)"
    and start_law: "wf x \<Longrightarrow>
      \<exists>x'. model_start M tb (ppc_ctr x) c x = Some x' \<and> wf x' \<and> same_common x x'"
    and stop_law: "wf x \<Longrightarrow> wf (model_stop M c x) \<and> same_common x (model_stop M c x)"
    and interrupt_law: "wf (ppc k) \<Longrightarrow> ring_ok (cpu_buffer k c) \<Longrightarrow> sampler_ok sp \<Longrightarrow>
      irq_regs t = Some regs \<Longrightarrow>
      \<exists>k'. handle_interrupt M sp c t (ppc_ctr (ppc k)) k = Some k' \<and> only_ppc c k k' \<and> wf (ppc k') \<and>
        same_common (ppc k) (ppc k')"
    and reserved_law: "wf (x\<lparr>pmc_reserved := r\<rparr>) = wf x"
begin

definition quiet :: "ppc_state \<Rightarrow> bool" where "quiet x \<longleftrightarrow> wf x \<and> \<not> pmc_reserved x"

definition armed :: "ppc_state \<Rightarrow> bool" where "armed x \<longleftrightarrow> wf x \<and> pmc_reserved x"

lemma armed_same: "armed x \<Longrightarrow> wf x' \<Longrightarrow> same_common x x' \<Longrightarrow> armed x'"
  by (simp add: armed_def same_common_def)

lemma cpus_setup: "wf x \<Longrightarrow> wf (fold (cpu_setup M) cs x) \<and> same_common x (fold (cpu_setup M) cs x)"
proof (induction cs arbitrary: x)
  case (Cons c cs)
  with cpu_setup_law [of x c] show ?case by (auto intro: same_common_trans)
qed simp

lemma ppc_update_keeps:
  "buffers_ok possible k \<Longrightarrow> kernel_keeps possible k (k\<lparr>ppc := x\<rparr>)"
  by (simp add: kernel_keeps_def buffers_ok_def)

lemma setup_ok:
  assumes "quiet (ppc k)"
  shows "\<exists>r x. op_powerpc_setup H M online k = Some (r, k\<lparr>ppc := x\<rparr>) \<and>
    (if r = rc_ok then armed x else quiet x)"
proof (cases "reserve_result H = rc_ok")
  case False
  with assms show ?thesis by (auto simp: op_powerpc_setup_def intro: exI [of _ "ppc k"])
next
  case True
  let ?x = "(ppc k)\<lparr>pmc_reserved := True\<rparr>"
  have "wf ?x" using assms by (simp add: quiet_def reserved_law)
  from reg_setup_law [OF this] obtain x where x:
    "reg_setup M (ppc_ctr ?x) (ppc_sys ?x) (model_num_counters M) ?x = Some x" "wf x" "same_common ?x x" by blast
  from cpus_setup [OF x(2), of online] x(3) have "armed (fold (cpu_setup M) online x)"
    by (auto simp: armed_def same_common_def)
  with x(1) True show ?thesis by (auto simp: op_powerpc_setup_def Let_def)
qed

lemma cpu_start_ok:
  assumes "buffers_ok possible k" and "c \<in> set possible" and "armed (ppc k)"
  shows "\<exists>k'. op_powerpc_cpu_start H M c k = Some k' \<and> kernel_keeps possible k k' \<and> armed (ppc k')"
proof -
  from on_cpu_keeps [OF assms(1,2), of "H_start (add_start_tb H c)"] obtain k1 where k1:
    "on_cpu c (oprofile_add_start (add_start_tb H c)) k = Some k1" "kernel_keeps possible k k1"
    "kstate.more k1 = kstate.more k" by auto
  then have p: "ppc k1 = ppc k" by (cases k1; cases k) simp
  from start_law [of "ppc k" "model_start_tb H c" c] assms(3) obtain x where
    x: "model_start M (model_start_tb H c) (ppc_ctr (ppc k)) c (ppc k) = Some x" "wf x" "same_common (ppc k) x"
    by (auto simp: armed_def)
  have "kernel_keeps possible k (k1\<lparr>ppc := x\<rparr>)"
    using kernel_keeps_trans [OF k1(2) ppc_update_keeps] kernel_keeps_ok [OF k1(2)] by blast
  with k1(1) x p armed_same [OF assms(3)] show ?thesis
    by (simp add: op_powerpc_cpu_start_def on_ppc_def)
qed

lemma cpu_stop_ok:
  assumes "buffers_ok possible k" and "c \<in> set possible" and "armed (ppc k)"
  shows "\<exists>k'. op_powerpc_cpu_stop H M c k = Some k' \<and> kernel_keeps possible k k' \<and> armed (ppc k')"
proof -
  let ?k = "k\<lparr>ppc := model_stop M c (ppc k)\<rparr>"
  have k: "kernel_keeps possible k ?k" using assms(1) by (rule ppc_update_keeps)
  from on_cpu_keeps [OF kernel_keeps_ok [OF k] assms(2), of "H_stop (add_stop_tb H c)"] obtain k1 where
    k1: "on_cpu c (oprofile_add_stop (add_stop_tb H c)) ?k = Some k1" "kernel_keeps possible ?k k1"
    "kstate.more k1 = kstate.more ?k" by auto
  then have "ppc k1 = model_stop M c (ppc k)" by (cases k1; cases k) simp
  moreover have "armed (model_stop M c (ppc k))"
    using stop_law [of "ppc k" c] assms(3) armed_same by (auto simp: armed_def same_common_def)
  ultimately show ?thesis
    using k1 kernel_keeps_trans [OF k k1(2)] by (simp add: op_powerpc_cpu_stop_def)
qed

lemma all_cpus:
  assumes "buffers_ok possible k" and "set cs \<subseteq> set possible" and "armed (ppc k)"
    and "\<And>c k. buffers_ok possible k \<Longrightarrow> c \<in> set possible \<Longrightarrow> armed (ppc k) \<Longrightarrow>
      \<exists>k'. f c k = Some k' \<and> kernel_keeps possible k k' \<and> armed (ppc k')"
  shows "\<exists>k'. for_each f cs k = Some k' \<and> kernel_keeps possible k k' \<and> armed (ppc k')"
proof (rule for_each_invariant [where I = "\<lambda>k'. kernel_keeps possible k k' \<and> armed (ppc k')"])
  show "kernel_keeps possible k k \<and> armed (ppc k)" using assms(1,3) by (simp add: kernel_keeps_refl)
  fix c k' assume "c \<in> set cs" and k': "kernel_keeps possible k k' \<and> armed (ppc k')"
  with assms(2) have "c \<in> set possible" by blast
  with assms(4) [of k' c] k' obtain k2 where "f c k' = Some k2" "kernel_keeps possible k' k2" "armed (ppc k2)"
    by (auto dest: kernel_keeps_ok)
  with k' show "\<exists>s'. f c k' = Some s' \<and> kernel_keeps possible k s' \<and> armed (ppc s')"
    by (auto intro: kernel_keeps_trans)
qed

lemma interrupt_ok:
  assumes "buffers_ok possible k" and "c \<in> set possible" and "armed (ppc k)" and "sampler_ok sp"
    and "irq_regs t = Some regs"
  shows "\<exists>k'. op_handle_interrupt M sp c t k = Some k' \<and> kernel_keeps possible k k' \<and> armed (ppc k')"
proof -
  have "ring_ok (cpu_buffer k c)" using assms(1,2) by (simp add: buffers_ok_def)
  from interrupt_law [OF _ this assms(4,5)] assms(3) obtain k' where
    "handle_interrupt M sp c t (ppc_ctr (ppc k)) k = Some k'" "only_ppc c k k'" "wf (ppc k')"
    "same_common (ppc k) (ppc k')" by (auto simp: armed_def)
  then show ?thesis
    using only_ppc_keeps [OF _ assms(1)] armed_same [OF assms(3)] by (auto simp: op_handle_interrupt_def)
qed

end

end
