(* ===== verification/Ppc_Contract.thy ===== *)
theory Ppc_Contract
  imports Ppc_Common
begin

text \<open>
  Both counter models of a 64-bit kernel meet the contract of theory Ppc\_Common under one
  condition on the variables, \<open>ppc_wf\<close>: the arrays have their eight elements, and no loop
  runs beyond them. So each of them is a back end.
\<close>

section \<open>The variables\<close>

definition ppc_wf :: "ppc_platform \<Rightarrow> ppc_state \<Rightarrow> bool" where
  "ppc_wf K x \<longleftrightarrow> num_pmcs K \<le> OP_MAX_COUNTER_ppc \<and> length (ppc_ctr x) = OP_MAX_COUNTER_ppc \<and>
     length (power4_reset_value x) = OP_MAX_COUNTER_ppc \<and>
     length (rs64_reset_value x) = OP_MAX_COUNTER_ppc \<and> rs64_num_counters x \<le> OP_MAX_COUNTER_ppc"

text \<open>What an operation on one CPU may change: registers, and the variables that say when and
  whether the counters run.\<close>

definition volatile :: "ppc_state \<Rightarrow> ppc_state \<Rightarrow> bool" where
  "volatile x x' \<longleftrightarrow> same_common x x' \<and> power4_reset_value x' = power4_reset_value x \<and>
     mmcr0_val x' = mmcr0_val x \<and> mmcr1_val x' = mmcr1_val x \<and> mmcra_val x' = mmcra_val x \<and>
     rs64_reset_value x' = rs64_reset_value x \<and> rs64_num_counters x' = rs64_num_counters x"

lemma volatile_refl [simp, intro]: "volatile x x"
  by (simp add: volatile_def)

lemma volatile_field:
  assumes "volatile x y"
  shows "volatile x (y\<lparr>spr := s\<rparr>)" "volatile x (y\<lparr>ppc_msr := ms\<rparr>)"
    "volatile x (y\<lparr>power4_start_timestamp := ts\<rparr>)" "volatile x (y\<lparr>power4_running := r\<rparr>)"
  using assms by (simp_all add: volatile_def same_common_def)

lemma volatile_intros:
  assumes "volatile x y"
  shows "volatile x (mtspr c r v y)" "volatile x (set_PMM K c y)" "volatile x (ctr_write c i w y)"
    "volatile x (ctrl_write c i w y)"
  using volatile_field [OF assms] assms
  by (auto simp: mtspr_def set_PMM_def ctr_write_def ctrl_write_def Let_def split: option.split prod.split)

lemma volatile_trans: "volatile x y \<Longrightarrow> volatile y z \<Longrightarrow> volatile x z"
  by (simp add: volatile_def same_common_def)

lemma volatile_keeps:
  assumes "volatile x x'"
  shows "ppc_wf K x' = ppc_wf K x" "same_common x x'" "ppc_ctr x' = ppc_ctr x"
    "power4_reset_value x' = power4_reset_value x" "rs64_reset_value x' = rs64_reset_value x"
    "rs64_num_counters x' = rs64_num_counters x"
  using assms by (auto simp: volatile_def ppc_wf_def same_common_def)

lemma ppc_wf_fields [simp]:
  "ppc_wf K (x\<lparr>pmc_reserved := b\<rparr>) = ppc_wf K x"
  "ppc_wf K (x\<lparr>ppc_model := m\<rparr>) = ppc_wf K x" "ppc_wf K (x\<lparr>ppc_cpu_khz := f\<rparr>) = ppc_wf K x"
  "ppc_wf K (x\<lparr>spr := s\<rparr>) = ppc_wf K x" "ppc_wf K (x\<lparr>ppc_sys := sys\<rparr>) = ppc_wf K x"
  by (simp_all add: ppc_wf_def)

text \<open>Loops of such operations.\<close>

lemma volatile_loop:
  assumes "volatile x y"
    and "\<And>i x'. i \<in> set js \<Longrightarrow> volatile x x' \<Longrightarrow> \<exists>x2. f i x' = Some x2 \<and> volatile x' x2"
  shows "\<exists>x'. for_each f js y = Some x' \<and> volatile x x'"
  using assms(1) by (rule for_each_invariant [where I = "volatile x"]) (use assms(2) volatile_trans in blast)

lemma fill_array_eq:
  "n \<le> length cs \<Longrightarrow> n \<le> 8 \<Longrightarrow> fill_array n f cs = Some (map f (take n cs) @ replicate (8 - n) 0)"
  unfolding fill_array_def by (subst arr_loop) simp_all

section \<open>POWER4\<close>

text \<open>The setup in closed form.\<close>

definition power4_mmcr0 :: "ppc_platform \<Rightarrow> op_system_config \<Rightarrow> ulong list \<Rightarrow> u32" where
  "power4_mmcr0 K sys ev =
     (let m = ucast (mmcr0_events ev);
          m = (if enable_kernel sys \<noteq> 0 then m AND NOT (MMCR0_KERNEL_DISABLE K) else m OR MMCR0_KERNEL_DISABLE K)
      in if enable_user sys \<noteq> 0 then m AND NOT (MMCR0_PROBLEM_DISABLE K) else m OR MMCR0_PROBLEM_DISABLE K)"

lemma power4_reg_setup_eq:
  assumes "num_pmcs K \<le> length cs" and "num_pmcs K \<le> 8" and "num_pmcs K \<le> length (power4_reset_value x)"
  shows "power4_reg_setup K cs sys x =
    (let cs' = take (num_pmcs K) cs; pad = replicate (8 - num_pmcs K) 0
     in Some (x\<lparr>mmcr0_val := power4_mmcr0 K sys (map ctr_event cs' @ pad),
          mmcr1_val := mmcr1_fields (map ctr_event cs' @ pad) (map addr_sel cs' @ pad) (fold select_mux cs' no_mux),
          mmcra_val := 0,
          power4_reset_value := map (\<lambda>g. 0x80000000 - pc_count g) cs' @
            drop (num_pmcs K) (power4_reset_value x)\<rparr>))"
  using assms
  by (simp add: power4_reg_setup_def fill_array_eq cfg_loop reset_values_eq power4_mmcr0_def Let_def)

lemma power4_setup_keeps:
  assumes "ppc_wf K x"
  shows "\<exists>x'. power4_reg_setup K (ppc_ctr x) sys x = Some x' \<and> ppc_wf K x' \<and> same_common x x'"
  using assms by (subst power4_reg_setup_eq)
    (simp_all add: ppc_wf_def same_common_def Let_def OP_MAX_COUNTER_ppc_def)

lemma power4_cpu_setup_volatile: "volatile x (power4_cpu_setup K c x)"
  unfolding power4_cpu_setup_def Let_def by (intro volatile_intros volatile_field volatile_refl)

lemma power4_start_volatile:
  assumes "ppc_wf K x"
  shows "\<exists>x'. power4_start K tb (ppc_ctr x) c x = Some x' \<and> volatile x x'"
proof -
  let ?x = "set_PMM K c (x\<lparr>power4_start_timestamp := (power4_start_timestamp x)(c := tb)\<rparr>)"
  let ?f = "\<lambda>i x'. do { g \<leftarrow> arr_at (ppc_ctr x) i;
      if pc_enabled g \<noteq> 0 \<and> pc_count g \<noteq> 0
      then do { v \<leftarrow> arr_at (power4_reset_value x') i; Some (ctr_write c i (ucast v) x') }
      else Some (ctr_write c i 0 x') }"
  have "volatile x ?x" by (intro volatile_intros volatile_field volatile_refl)
  then have "\<exists>x'. for_each ?f [0..<num_pmcs K] ?x = Some x' \<and> volatile x x'"
  proof (rule volatile_loop)
    fix i x' assume "i \<in> set [0..<num_pmcs K]" and x': "volatile x x'"
    then have "i < length (ppc_ctr x)" "i < length (power4_reset_value x')"
      using assms volatile_keeps(4) [OF x'] by (auto simp: ppc_wf_def)
    then show "\<exists>x2. ?f i x' = Some x2 \<and> volatile x' x2"
      by (simp add: arr_at_def volatile_intros)
  qed
  then obtain x' where "for_each ?f [0..<num_pmcs K] ?x = Some x'" "volatile x x'" by blast
  then show ?thesis by (simp add: power4_start_def Let_def volatile_intros volatile_field)
qed

lemma power4_stop_volatile: "volatile x (power4_stop K c x)"
  unfolding power4_stop_def Let_def by (intro volatile_intros volatile_field volatile_refl)

text \<open>What a part of a handler keeps.\<close>

definition handled :: "nat \<Rightarrow> 'h ppc_kstate_scheme \<Rightarrow> 'h ppc_kstate_scheme \<Rightarrow> bool" where
  "handled c k k' \<longleftrightarrow> only_ppc c k k' \<and> volatile (ppc k) (ppc k')"

lemma handled_refl: "ring_ok (cpu_buffer k c) \<Longrightarrow> handled c k k"
  by (simp add: handled_def only_ppc_refl)

lemma handled_trans: "handled c k k1 \<Longrightarrow> handled c k1 k2 \<Longrightarrow> handled c k k2"
  unfolding handled_def using only_ppc_trans volatile_trans by blast

lemma handled_ring: "handled c k k' \<Longrightarrow> ring_ok (cpu_buffer k' c)"
  unfolding handled_def using only_ppc_ok(2) by blast

lemma handled_state:
  assumes "handled c k k'" and "volatile (ppc k') x"
  shows "handled c k (k'\<lparr>ppc := x\<rparr>)"
proof -
  have "handled c k' (k'\<lparr>ppc := x\<rparr>)"
    using handled_ring [OF assms(1)] assms(2) by (simp add: handled_def only_ppc_state)
  with assms(1) show ?thesis by (rule handled_trans)
qed

lemma handled_log:
  assumes "handled c k0 k" and "\<And>b. ring_ok b \<Longrightarrow> \<exists>b'. g b = Some b' \<and> ring_keeps b b'"
  shows "\<exists>k'. on_cpu c g k = Some k' \<and> handled c k0 k' \<and> ppc k' = ppc k"
proof -
  from assms(2) [OF handled_ring [OF assms(1)]] obtain b where
    b: "g (cpu_buffer k c) = Some b" "ring_keeps (cpu_buffer k c) b" by blast
  have "handled c k (k\<lparr>cpu_buffer := (cpu_buffer k)(c := b)\<rparr>)"
    using b(2) by (simp add: handled_def only_ppc_ring)
  from handled_trans [OF assms(1) this] b(1) show ?thesis by (simp add: on_cpu_def)
qed

lemma handled_start:
  assumes "handled c k0 k"
  shows "\<exists>k'. on_cpu c (oprofile_add_sample_start ts) k = Some k' \<and> handled c k0 k' \<and> ppc k' = ppc k"
  using assms by (rule handled_log) (use handle_keeps [where h = "H_sample_start ts"] in simp)

lemma handled_stop:
  assumes "handled c k0 k"
  shows "\<exists>k'. on_cpu c (oprofile_add_sample_stop ts) k = Some k' \<and> handled c k0 k' \<and> ppc k' = ppc k"
  using assms by (rule handled_log) (use handle_keeps [where h = "H_sample_stop ts"] in simp)

text \<open>The handlers are called with registers.\<close>

lemma handled_sample:
  assumes "handled c k0 k" and "sampler_ok sp" and "irq_regs t = Some r"
  shows "\<exists>k'. add_ext_sample sp c t pc is_kernel i k = Some k' \<and> handled c k0 k' \<and> ppc k' = ppc k"
  unfolding add_ext_sample_def
  using assms(1) by (rule handled_log)
    (rule ext_sample_keeps, use assms(2,3) in \<open>auto simp: sampler_ok_def\<close>)

lemma power4_check_ctr_handled:
  assumes "handled c k0 k" and "ppc_wf K (ppc k0)" and "cs = ppc_ctr (ppc k0)" and "i < num_pmcs K"
    and "sampler_ok sp" and "irq_regs t = Some r"
  shows "\<exists>k'. power4_check_ctr K sp c t cs pc is_kernel i k = Some k' \<and> handled c k0 k'"
proof -
  have v: "volatile (ppc k0) (ppc k)" using assms(1) by (simp add: handled_def)
  from assms(2-4) volatile_keeps(4) [OF v] have i: "i < length cs" "i < length (power4_reset_value (ppc k))"
    by (auto simp: ppc_wf_def)
  have w: "handled c k0 (k'\<lparr>ppc := ctr_write c i w (ppc k')\<rparr>)" if "handled c k0 k'" for k' w
    using that by (rule handled_state) (simp add: volatile_intros)
  from handled_start [OF assms(1), of "power4_start_timestamp (ppc k) c"] obtain k1 where
    k1: "on_cpu c (oprofile_add_sample_start (power4_start_timestamp (ppc k) c)) k = Some k1"
    "handled c k0 k1" "ppc k1 = ppc k" by blast
  from handled_stop [OF k1(2), of "end_tb t"] obtain k2 where
    k2: "on_cpu c (oprofile_add_sample_stop (end_tb t)) k1 = Some k2" "handled c k0 k2" "ppc k2 = ppc k1" by blast
  from handled_sample [OF k2(2) assms(5,6), of pc is_kernel i] obtain k3 where
    k3: "add_ext_sample sp c t pc is_kernel i k2 = Some k3" "handled c k0 k3" "ppc k3 = ppc k2" by blast
  show ?thesis
    using i k1 k2 k3 w [OF k3(2)] w [OF assms(1)] assms(1)
    by (simp add: power4_check_ctr_def arr_at_def Let_def)
qed

lemma handled_loop:
  assumes "handled c k0 k" and "\<And>i k. i \<in> set js \<Longrightarrow> handled c k0 k \<Longrightarrow> \<exists>k'. f i k = Some k' \<and> handled c k0 k'"
  shows "\<exists>k'. for_each f js k = Some k' \<and> handled c k0 k'"
  using assms by (rule for_each_invariant)

lemma power4_handle_interrupt_handled:
  assumes "ppc_wf K (ppc k)" and "ring_ok (cpu_buffer k c)" and "sampler_ok sp" and "irq_regs t = Some r"
  shows "\<exists>k'. power4_handle_interrupt K sp c t (ppc_ctr (ppc k)) k = Some k' \<and> handled c k k'"
proof -
  let ?pc = "get_pc K c (ppc k)"
  let ?f = "power4_check_ctr K sp c t (ppc_ctr (ppc k)) ?pc (get_kernel K c ?pc (ppc k))"
  have "handled c k (k\<lparr>ppc := set_PMM K c (ppc k)\<rparr>)"
    using handled_refl [OF assms(2)] by (rule handled_state) (simp add: volatile_intros)
  then have "\<exists>k'. for_each ?f [0..<num_pmcs K] (k\<lparr>ppc := set_PMM K c (ppc k)\<rparr>) = Some k' \<and> handled c k k'"
    by (rule handled_loop) (rule power4_check_ctr_handled [OF _ assms(1) refl _ assms(3,4)], simp_all)
  then obtain k' where "for_each ?f [0..<num_pmcs K] (k\<lparr>ppc := set_PMM K c (ppc k)\<rparr>) = Some k'" "handled c k k'"
    by blast
  moreover from this(2) have "handled c k (k'\<lparr>ppc := mtspr c SPRN_MMCR0 v
      ((ppc k')\<lparr>power4_start_timestamp := (power4_start_timestamp (ppc k'))(c := next_tb t)\<rparr>)\<rparr>)" for v
    by (rule handled_state) (intro volatile_intros volatile_field volatile_refl)
  ultimately show ?thesis by (simp add: power4_handle_interrupt_def Let_def)
qed

section \<open>RS64\<close>

lemma rs64_setup_keeps:
  assumes "ppc_wf K x"
  shows "\<exists>x'. rs64_reg_setup (ppc_ctr x) sys (num_pmcs K) x = Some x' \<and> ppc_wf K x' \<and> same_common x x'"
  using assms by (simp add: rs64_reg_setup_def reset_values_eq ppc_wf_def same_common_def)

lemma rs64_cpu_setup_volatile: "volatile x (rs64_cpu_setup K c x)"
  by (simp add: rs64_cpu_setup_def Let_def volatile_intros)

lemma rs64_start_volatile:
  assumes "ppc_wf K x"
  shows "\<exists>x'. rs64_start K (ppc_ctr x) c x = Some x' \<and> volatile x x'"
proof -
  let ?x = "set_PMM K c x"
  let ?f = "\<lambda>i x'. do { g \<leftarrow> arr_at (ppc_ctr x) i;
      if pc_enabled g \<noteq> 0
      then do { v \<leftarrow> arr_at (rs64_reset_value x') i;
                Some (ctrl_write c i (ucast (pc_event g)) (ctr_write c i (ucast v) x')) }
      else Some (ctr_write c i 0 x') }"
  have "volatile x ?x" by (simp add: volatile_intros)
  then have "\<exists>x'. for_each ?f [0..<rs64_num_counters ?x] ?x = Some x' \<and> volatile x x'"
  proof (rule volatile_loop)
    fix i x' assume "i \<in> set [0..<rs64_num_counters ?x]" and x': "volatile x x'"
    then have "i < length (ppc_ctr x)" "i < length (rs64_reset_value x')"
      using assms volatile_keeps(5) [OF x'] by (auto simp: ppc_wf_def set_PMM_def)
    then show "\<exists>x2. ?f i x' = Some x2 \<and> volatile x' x2"
      by (simp add: arr_at_def volatile_intros)
  qed
  then obtain x' where "for_each ?f [0..<rs64_num_counters ?x] ?x = Some x'" "volatile x x'" by blast
  then show ?thesis by (simp add: rs64_start_def Let_def volatile_intros)
qed

lemma rs64_stop_volatile: "volatile x (rs64_stop K c x)"
  by (simp add: rs64_stop_def Let_def volatile_intros)

lemma rs64_check_ctr_handled:
  assumes "handled c k0 k" and "ppc_wf K (ppc k0)" and "cs = ppc_ctr (ppc k0)"
    and "i < rs64_num_counters (ppc k0)" and "sampler_ok sp" and "irq_regs t = Some r"
  shows "\<exists>k'. rs64_check_ctr sp c t cs pc is_kernel i k = Some k' \<and> handled c k0 k'"
proof -
  have v: "volatile (ppc k0) (ppc k)" using assms(1) by (simp add: handled_def)
  from assms(2-4) volatile_keeps(5) [OF v] have i: "i < length cs" "i < length (rs64_reset_value (ppc k))"
    by (auto simp: ppc_wf_def)
  have w: "handled c k0 (k'\<lparr>ppc := ctr_write c i w (ppc k')\<rparr>)" if "handled c k0 k'" for k' w
    using that by (rule handled_state) (simp add: volatile_intros)
  from handled_sample [OF assms(1,5,6), of pc is_kernel i] obtain k1 where
    k1: "add_ext_sample sp c t pc is_kernel i k = Some k1" "handled c k0 k1" "ppc k1 = ppc k" by blast
  show ?thesis
    using i k1 w [OF k1(2)] w [OF assms(1)] assms(1)
    by (simp add: rs64_check_ctr_def arr_at_def Let_def)
qed

lemma rs64_handle_interrupt_handled:
  assumes "ppc_wf K (ppc k)" and "ring_ok (cpu_buffer k c)" and "sampler_ok sp" and "irq_regs t = Some r"
  shows "\<exists>k'. rs64_handle_interrupt K sp c t (ppc_ctr (ppc k)) k = Some k' \<and> handled c k k'"
proof -
  let ?pc = "mfspr c SPRN_SIAR (ppc k)"
  let ?k = "k\<lparr>ppc := set_PMM K c (ppc k)\<rparr>"
  let ?f = "rs64_check_ctr sp c t (ppc_ctr (ppc k)) ?pc (if is_kernel_addr K ?pc then 1 else 0)"
  have n: "rs64_num_counters (set_PMM K c x) = rs64_num_counters x" for x by (simp add: set_PMM_def)
  have "handled c k ?k"
    using handled_refl [OF assms(2)] by (rule handled_state) (simp add: volatile_intros)
  then have "\<exists>k'. for_each ?f [0..<rs64_num_counters (ppc ?k)] ?k = Some k' \<and> handled c k k'"
    by (rule handled_loop) (rule rs64_check_ctr_handled [OF _ assms(1) refl _ assms(3,4)], simp_all add: n)
  then obtain k' where "for_each ?f [0..<rs64_num_counters (ppc ?k)] ?k = Some k'" "handled c k k'" by blast
  moreover from this(2) have "handled c k (k'\<lparr>ppc := mtspr c SPRN_MMCR0 v (ppc k')\<rparr>)" for v
    by (rule handled_state) (simp add: volatile_intros)
  ultimately show ?thesis by (simp add: rs64_handle_interrupt_def Let_def del: ppc_kstate.simps)
qed

section \<open>The models as back ends\<close>

lemma ppc_model_contract: "powerpc_model (model_of K m) (ppc_wf K)"
proof (cases m)
  case op_model_power4
  show ?thesis
  proof (unfold_locales, goal_cases)
    case (1 x)
    with power4_setup_keeps [of K x] op_model_power4 show ?case by (simp add: power4_model_def)
  next
    case (2 x c)
    with volatile_keeps(1,2) [OF power4_cpu_setup_volatile] op_model_power4 show ?case
      by (simp add: power4_model_def)
  next
    case (3 x tb c)
    with power4_start_volatile [OF 3] volatile_keeps(1,2) op_model_power4 show ?case
      by (fastforce simp: power4_model_def)
  next
    case (4 x c)
    with volatile_keeps(1,2) [OF power4_stop_volatile] op_model_power4 show ?case
      by (simp add: power4_model_def)
  next
    case (5 k c sp t regs)
    with power4_handle_interrupt_handled [OF 5] volatile_keeps(1,2) op_model_power4 show ?case
      by (fastforce simp: power4_model_def handled_def)
  qed simp
next
  case op_model_rs64
  show ?thesis
  proof (unfold_locales, goal_cases)
    case (1 x)
    with rs64_setup_keeps [of K x] op_model_rs64 show ?case by (simp add: rs64_model_def)
  next
    case (2 x c)
    with volatile_keeps(1,2) [OF rs64_cpu_setup_volatile] op_model_rs64 show ?case
      by (simp add: rs64_model_def)
  next
    case (3 x tb c)
    with rs64_start_volatile [OF 3] volatile_keeps(1,2) op_model_rs64 show ?case
      by (fastforce simp: rs64_model_def)
  next
    case (4 x c)
    with volatile_keeps(1,2) [OF rs64_stop_volatile] op_model_rs64 show ?case
      by (simp add: rs64_model_def)
  next
    case (5 k c sp t regs)
    with rs64_handle_interrupt_handled [OF 5] volatile_keeps(1,2) op_model_rs64 show ?case
      by (fastforce simp: rs64_model_def handled_def)
  qed simp
qed

interpretation ppc_model: powerpc_model "model_of K m" "ppc_wf K" for K m
  by (rule ppc_model_contract)

end
