(* ===== verification/Power4_Behaviour.thy ===== *)
theory Power4_Behaviour
  imports Ppc_Contract
begin

text \<open>
  What the POWER4 model does: the setup packs the configuration into the control registers so
  that every field can be read back, and the interrupt logs exactly the counters that are due.
\<close>

section \<open>Packing and reading fields\<close>

lemma field_read:
  fixes v m :: ulong
  shows "drop_bit s (push_bit s v AND m) = v AND drop_bit s m"
  by (rule bit_word_eqI)
    (auto simp: bit_and_iff bit_drop_bit_eq bit_push_bit_iff add.commute dest: bit_imp_le_length)

lemmas field_defs =
  mmcr_event_def mmcr1_event_addr_def mmcr1_ttm_def mmcr1_dbg_def mmcr1_spc_def
  PMCSEL_def TTMSEL_def DBGSEL_def ADDRSEL_def SPCSEL_def
  PMC_SHIFT_def TTMSEL_SHIFT_def DBGSEL_SHIFT_def ADDRSEL_SHIFT_def SPCSEL_SHIFT_def

text \<open>No two fields of a register overlap, so a mask takes one field out of the whole.\<close>

lemma mmcr1_mask_event:
  assumes "2 \<le> i" and "i < 8"
  shows "mmcr1_fields ev ad m AND PMCSEL ! i = push_bit (PMC_SHIFT ! i) (ev ! i) AND PMCSEL ! i"
proof -
  consider "i = 2" | "i = 3" | "i = 4" | "i = 5" | "i = 6" | "i = 7" using assms by linarith
  then show ?thesis
    by cases (simp_all add: mmcr1_fields_def field_defs bit.conj_disj_distrib2 and.assoc)
qed

lemma mmcr1_mask_addr:
  assumes "i < 8"
  shows "mmcr1_fields ev ad m AND ADDRSEL ! i = push_bit (ADDRSEL_SHIFT ! i) (ad ! i) AND ADDRSEL ! i"
proof -
  consider "i = 0" | "i = 1" | "i = 2" | "i = 3" | "i = 4" | "i = 5" | "i = 6" | "i = 7"
    using assms by linarith
  then show ?thesis
    by cases (simp_all add: mmcr1_fields_def field_defs bit.conj_disj_distrib2 and.assoc)
qed

lemma mmcr1_mask_mux:
  "mmcr1_fields ev ad m AND TTMSEL ! 0 = push_bit 62 (ttm0Value m) AND TTMSEL ! 0"
  "mmcr1_fields ev ad m AND TTMSEL ! 1 = push_bit 59 (ttm1Value m) AND TTMSEL ! 1"
  "mmcr1_fields ev ad m AND TTMSEL ! 2 = push_bit 53 (ttm3Value m) AND TTMSEL ! 2"
  "mmcr1_fields ev ad m AND DBGSEL ! 0 = push_bit 50 (dbg0Value m) AND DBGSEL ! 0"
  "mmcr1_fields ev ad m AND DBGSEL ! 1 = push_bit 48 (dbg1Value m) AND DBGSEL ! 1"
  "mmcr1_fields ev ad m AND DBGSEL ! 2 = push_bit 46 (dbg2Value m) AND DBGSEL ! 2"
  "mmcr1_fields ev ad m AND DBGSEL ! 3 = push_bit 44 (dbg3Value m) AND DBGSEL ! 3"
  "mmcr1_fields ev ad m AND SPCSEL = spcValue m AND SPCSEL"
  by (simp_all add: mmcr1_fields_def field_defs bit.conj_disj_distrib2 and.assoc)

lemma mmcr0_mask_event:
  assumes "i < 2"
  shows "mmcr0_events ev AND PMCSEL ! i = push_bit (PMC_SHIFT ! i) (ev ! i) AND PMCSEL ! i"
proof -
  consider "i = 0" | "i = 1" using assms by linarith
  then show ?thesis
    by cases (simp_all add: mmcr0_events_def field_defs bit.conj_disj_distrib2 and.assoc)
qed

text \<open>The value fits its field.\<close>

lemma ctr_event_fits: "i < 8 \<Longrightarrow> ctr_event g AND drop_bit (PMC_SHIFT ! i) (PMCSEL ! i) = ctr_event g"
proof -
  assume "i < 8"
  then consider "i = 0" | "i = 1" | "i = 2" | "i = 3" | "i = 4" | "i = 5" | "i = 6" | "i = 7" by linarith
  then show ?thesis
    by cases (simp_all add: ctr_event_def PMCSEL_def PMC_SHIFT_def and.assoc)
qed

lemma addr_sel_fits: "i < 8 \<Longrightarrow> addr_sel g AND drop_bit (ADDRSEL_SHIFT ! i) (ADDRSEL ! i) = addr_sel g"
proof -
  assume "i < 8"
  then consider "i = 0" | "i = 1" | "i = 2" | "i = 3" | "i = 4" | "i = 5" | "i = 6" | "i = 7" by linarith
  then show ?thesis
    by cases (simp_all add: addr_sel_def ADDRSEL_def ADDRSEL_SHIFT_def and.assoc)
qed

lemma padded_nth:
  assumes "n \<le> length cs" and "i < 8" and "n \<le> 8"
  shows "(map f (take n cs) @ replicate (8 - n) 0) ! i = (if i < n then f (cs ! i) else 0)"
  using assms by (simp add: nth_append min_def)

text \<open>Setting and clearing the bits for user and kernel mode leaves the events alone.\<close>

lemma mask_disjoint:
  fixes w d p :: "'a::len word"
  assumes "d AND p = 0"
  shows "(w AND NOT d) AND p = w AND p" "(w OR d) AND p = w AND p"
proof -
  have "\<not> (bit d n \<and> bit p n)" for n
    using arg_cong [OF assms, of "\<lambda>w. bit w n"] by (simp add: bit_and_iff)
  then show "(w AND NOT d) AND p = w AND p" "(w OR d) AND p = w AND p"
    by (auto intro!: bit_word_eqI simp: bit_and_iff bit_or_iff bit_not_iff)
qed

lemma ucast_mask:
  fixes p w :: u32 and v :: ulong
  shows "ucast w AND (ucast p :: ulong) = ucast (w AND p)" "(ucast (ucast v AND p) :: ulong) = v AND ucast p"
  by (rule bit_word_eqI; auto simp: bit_and_iff bit_ucast_iff dest: bit_imp_le_length)+

lemma power4_mmcr0_events:
  assumes "MMCR0_KERNEL_DISABLE K AND ucast (PMCSEL ! i) = 0"
    and "MMCR0_PROBLEM_DISABLE K AND ucast (PMCSEL ! i) = 0" and "i < 2"
  shows "(ucast (power4_mmcr0 K sys ev) :: ulong) AND PMCSEL ! i = mmcr0_events ev AND PMCSEL ! i"
proof -
  obtain p :: u32 where p: "PMCSEL ! i = ucast p" "(ucast (PMCSEL ! i) :: u32) = p"
    using assms(3) by (cases "i = 0") (auto simp: PMCSEL_def less_Suc_eq intro: that [of "0x1F00"] that [of "0x3E"])
  have "power4_mmcr0 K sys ev AND p = ucast (mmcr0_events ev) AND p"
    using assms(1,2) unfolding p(2) by (simp add: power4_mmcr0_def Let_def mask_disjoint)
  then show ?thesis unfolding p(1) by (simp only: ucast_mask)
qed

text \<open>C11: after the setup every field of the control registers reads back as what the configuration
  says: the event and the adder lane of each counter (the event 8, which counts nothing, for
  one that is not enabled), and what the last unit mask that selects a multiplexer sets it
  to; and each counter starts \<^verbatim>\<open>count\<close> below the overflow.\<close>

theorem power4_setup_reads_back:
  assumes "ppc_wf K x" and "power4_reg_setup K (ppc_ctr x) (ppc_sys x) x = Some x'"
    and "\<forall>i < 2. MMCR0_KERNEL_DISABLE K AND ucast (PMCSEL ! i) = 0 \<and>
      MMCR0_PROBLEM_DISABLE K AND ucast (PMCSEL ! i) = 0"
    and "m = fold select_mux (take (num_pmcs K) (ppc_ctr x)) no_mux"
  shows "(\<forall>i < num_pmcs K.
      drop_bit (PMC_SHIFT ! i) ((if i < 2 then ucast (mmcr0_val x') else mmcr1_val x') AND PMCSEL ! i) =
        ctr_event (ppc_ctr x ! i) \<and>
      drop_bit (ADDRSEL_SHIFT ! i) (mmcr1_val x' AND ADDRSEL ! i) = addr_sel (ppc_ctr x ! i) \<and>
      power4_reset_value x' ! i = 0x80000000 - pc_count (ppc_ctr x ! i)) \<and>
    drop_bit 62 (mmcr1_val x' AND TTMSEL ! 0) = ttm0Value m AND 3 \<and>
    drop_bit 59 (mmcr1_val x' AND TTMSEL ! 1) = ttm1Value m AND 3 \<and>
    drop_bit 53 (mmcr1_val x' AND TTMSEL ! 2) = ttm3Value m AND 3 \<and>
    drop_bit 50 (mmcr1_val x' AND DBGSEL ! 0) = dbg0Value m AND 3 \<and>
    drop_bit 48 (mmcr1_val x' AND DBGSEL ! 1) = dbg1Value m AND 3 \<and>
    drop_bit 46 (mmcr1_val x' AND DBGSEL ! 2) = dbg2Value m AND 3 \<and>
    drop_bit 44 (mmcr1_val x' AND DBGSEL ! 3) = dbg3Value m AND 3 \<and>
    mmcr1_val x' AND SPCSEL = spcValue m AND 3"
proof (intro conjI allI impI)
  let ?n = "num_pmcs K" and ?cs = "ppc_ctr x"
  let ?ev = "map ctr_event (take ?n ?cs) @ replicate (8 - ?n) 0"
  let ?ad = "map addr_sel (take ?n ?cs) @ replicate (8 - ?n) 0"
  have n: "?n \<le> length ?cs" "?n \<le> 8" "?n \<le> length (power4_reset_value x)"
    using assms(1) by (simp_all add: ppc_wf_def OP_MAX_COUNTER_ppc_def)
  have x': "mmcr0_val x' = power4_mmcr0 K (ppc_sys x) ?ev" "mmcr1_val x' = mmcr1_fields ?ev ?ad m"
    "power4_reset_value x' = map (\<lambda>g. 0x80000000 - pc_count g) (take ?n ?cs) @
      drop ?n (power4_reset_value x)"
    using assms(2) unfolding power4_reg_setup_eq [OF n] Let_def assms(4) by auto
  {
    fix i assume i: "i < ?n"
    then have i8: "i < 8" using n by simp
    note nth = padded_nth [OF n(1) i8 n(2)]
    show "drop_bit (PMC_SHIFT ! i) ((if i < 2 then ucast (mmcr0_val x') else mmcr1_val x') AND PMCSEL ! i) =
        ctr_event (?cs ! i)"
    proof (cases "i < 2")
      case True
      with assms(3) i show ?thesis
        by (simp only: x' power4_mmcr0_events mmcr0_mask_event field_read nth if_True if_P [OF True] ctr_event_fits [OF i8])
    next
      case False
      with i show ?thesis
        by (simp only: x' mmcr1_mask_event [OF _ i8] not_less field_read nth if_True if_not_P [OF False] ctr_event_fits [OF i8])
    qed
    show "drop_bit (ADDRSEL_SHIFT ! i) (mmcr1_val x' AND ADDRSEL ! i) = addr_sel (?cs ! i)"
      using i by (simp only: x' mmcr1_mask_addr [OF i8] field_read nth if_True addr_sel_fits [OF i8])
    show "power4_reset_value x' ! i = 0x80000000 - pc_count (?cs ! i)"
      using i n by (simp add: x' nth_append)
  }
  show "drop_bit 62 (mmcr1_val x' AND TTMSEL ! 0) = ttm0Value m AND 3"
    "drop_bit 59 (mmcr1_val x' AND TTMSEL ! 1) = ttm1Value m AND 3"
    "drop_bit 53 (mmcr1_val x' AND TTMSEL ! 2) = ttm3Value m AND 3"
    "drop_bit 50 (mmcr1_val x' AND DBGSEL ! 0) = dbg0Value m AND 3"
    "drop_bit 48 (mmcr1_val x' AND DBGSEL ! 1) = dbg1Value m AND 3"
    "drop_bit 46 (mmcr1_val x' AND DBGSEL ! 2) = dbg2Value m AND 3"
    "drop_bit 44 (mmcr1_val x' AND DBGSEL ! 3) = dbg3Value m AND 3"
    "mmcr1_val x' AND SPCSEL = spcValue m AND 3"
    unfolding x' mmcr1_mask_mux field_read by (simp_all add: TTMSEL_def DBGSEL_def SPCSEL_def)
qed

section \<open>The interrupt\<close>

text \<open>
  The counters that are due in a state: in trigger mode, with profiling on, and negative. What
  the handler does for each of them, and the value that every counter has after it.
\<close>

definition due :: "nat \<Rightarrow> ppc_state \<Rightarrow> nat \<Rightarrow> bool" where
  "due c x i \<longleftrightarrow> power4_running x \<and> pc_enabled (ppc_ctr x ! i) \<noteq> 0 \<and> pc_count (ppc_ctr x ! i) \<noteq> 0 \<and>
     ctr_read c i x <s 0"

definition log_due ::
  "'r sampler \<Rightarrow> 'r tick \<Rightarrow> u64 \<Rightarrow> ulong \<Rightarrow> int \<Rightarrow> nat \<Rightarrow> oprofile_cpu_buffer \<Rightarrow> oprofile_cpu_buffer option"
where
  "log_due sp t start pc is_kernel i b =
     do { b \<leftarrow> oprofile_add_sample_start start b;
          b \<leftarrow> oprofile_add_sample_stop (end_tb t) b;
          oprofile_add_ext_sample (bt_callback sp) (bt_depth sp) (irq_task t) pc (irq_regs t)
            (of_nat i) is_kernel b }"

definition ctr_after :: "nat \<Rightarrow> ppc_state \<Rightarrow> nat \<Rightarrow> u32" where
  "ctr_after c x i =
     (if due c x i then ucast (power4_reset_value x ! i)
      else if power4_running x \<and> pc_enabled (ppc_ctr x ! i) \<noteq> 0
      then (if pc_count (ppc_ctr x ! i) = 0 then 0 else ctr_read c i x)
      else if ctr_read c i x <s 0 then 0 else ctr_read c i x)"

lemma on_cpu_bind:
  "(on_cpu c f k \<bind> (\<lambda>k. on_cpu c g k \<bind> h)) = on_cpu c (\<lambda>b. f b \<bind> g) k \<bind> h"
  by (cases "f (cpu_buffer k c)") (simp_all add: on_cpu_def option.map_comp comp_def bind_map_option)

lemma log_due_eta:
  "log_due sp t start pc is_kernel i = (\<lambda>b. oprofile_add_sample_start start b \<bind>
     (\<lambda>b. oprofile_add_sample_stop (end_tb t) b \<bind> oprofile_add_ext_sample (bt_callback sp) (bt_depth sp)
       (irq_task t) pc (irq_regs t) (of_nat i) is_kernel))"
  by (rule ext) (simp add: log_due_def)

lemma check_ctr_due:
  "power4_running (ppc k) \<Longrightarrow> i < length cs \<Longrightarrow> pc_enabled (cs ! i) \<noteq> 0 \<Longrightarrow> pc_count (cs ! i) \<noteq> 0 \<Longrightarrow>
   ctr_read c i (ppc k) <s 0 \<Longrightarrow>
   power4_check_ctr K sp c t cs pc is_kernel i k =
     on_cpu c (log_due sp t (power4_start_timestamp (ppc k) c) pc is_kernel i) k \<bind>
       (\<lambda>k. do { v \<leftarrow> arr_at (power4_reset_value (ppc k)) i; Some (k\<lparr>ppc := ctr_write c i (ucast v) (ppc k)\<rparr>) })"
  by (simp add: power4_check_ctr_def Let_def add_ext_sample_def on_cpu_bind log_due_eta arr_at_def)

definition handler_at ::
  "'r sampler \<Rightarrow> nat \<Rightarrow> 'r tick \<Rightarrow> ulong \<Rightarrow> int \<Rightarrow> 'h ppc_kstate_scheme \<Rightarrow> nat \<Rightarrow> 'h ppc_kstate_scheme \<Rightarrow> bool"
where
  "handler_at sp c t pc is_kernel k0 j k \<longleftrightarrow> handled c k0 k \<and>
     for_each (log_due sp t (power4_start_timestamp (ppc k0) c) pc is_kernel)
       (filter (due c (ppc k0)) [0..<j]) (cpu_buffer k0 c) = Some (cpu_buffer k c) \<and>
     (\<forall>i < 8. ctr_read c i (ppc k) = (if i < j then ctr_after c (ppc k0) i else ctr_read c i (ppc k0))) \<and>
     power4_running (ppc k) = power4_running (ppc k0) \<and>
     power4_start_timestamp (ppc k) = power4_start_timestamp (ppc k0) \<and>
     mfspr c SPRN_MMCR0 (ppc k) = mfspr c SPRN_MMCR0 (ppc k0)"

lemma ctr_write_vars [simp]:
  "power4_running (ctr_write c i v x) = power4_running x"
  "power4_start_timestamp (ctr_write c i v x) = power4_start_timestamp x"
  by (simp_all add: ctr_write_def mtspr_def split: option.split)

lemma handler_step:
  assumes "handler_at sp c t pc is_kernel k0 j k" and "j < num_pmcs K" and "ppc_wf K (ppc k0)"
    and "sampler_ok sp" and "irq_regs t = Some r"
  shows "\<exists>k'. power4_check_ctr K sp c t (ppc_ctr (ppc k0)) pc is_kernel j k = Some k' \<and>
    handler_at sp c t pc is_kernel k0 (Suc j) k'"
proof -
  let ?cs = "ppc_ctr (ppc k0)"
  have k: "handled c k0 k" and
    log: "for_each (log_due sp t (power4_start_timestamp (ppc k0) c) pc is_kernel)
       (filter (due c (ppc k0)) [0..<j]) (cpu_buffer k0 c) = Some (cpu_buffer k c)" and
    rd: "\<forall>i < 8. ctr_read c i (ppc k) = (if i < j then ctr_after c (ppc k0) i else ctr_read c i (ppc k0))" and
    same: "power4_running (ppc k) = power4_running (ppc k0)"
      "power4_start_timestamp (ppc k) = power4_start_timestamp (ppc k0)"
      "mfspr c SPRN_MMCR0 (ppc k) = mfspr c SPRN_MMCR0 (ppc k0)"
    using assms(1) by (simp_all add: handler_at_def)
  have j: "j < 8" "j < length ?cs" "j < length (power4_reset_value (ppc k0))"
    using assms(2,3) by (simp_all add: ppc_wf_def OP_MAX_COUNTER_ppc_def)
  have rs: "power4_reset_value (ppc k) = power4_reset_value (ppc k0)"
    using k volatile_keeps(4) by (auto simp: handled_def)
  from power4_check_ctr_handled [OF k assms(3) refl assms(2,4,5), of pc is_kernel] obtain k' where
    k': "power4_check_ctr K sp c t ?cs pc is_kernel j k = Some k'" "handled c k0 k'" by blast
  have now: "ctr_read c j (ppc k) = ctr_read c j (ppc k0)" using rd j(1) by simp
  show ?thesis
  proof (cases "due c (ppc k0) j")
    case True
    then have "power4_running (ppc k)" "pc_enabled (?cs ! j) \<noteq> 0" "pc_count (?cs ! j) \<noteq> 0"
      "ctr_read c j (ppc k) <s 0" using same(1) now by (simp_all add: due_def)
    note eq = check_ctr_due [where K = K and sp = sp and t = t and pc = pc and is_kernel = is_kernel,
      OF this(1) j(2) this(2-4)]
    from k'(1) eq obtain b where
      b: "log_due sp t (power4_start_timestamp (ppc k0) c) pc is_kernel j (cpu_buffer k c) = Some b"
      "k' = k\<lparr>cpu_buffer := (cpu_buffer k)(c := b),
        ppc := ctr_write c j (ucast (power4_reset_value (ppc k0) ! j)) (ppc k)\<rparr>"
      using j(3) same(2) rs
      by (cases "log_due sp t (power4_start_timestamp (ppc k0) c) pc is_kernel j (cpu_buffer k c)")
        (auto simp: on_cpu_def arr_at_def)
    have "\<forall>i < 8. ctr_read c i (ppc k') = (if i < Suc j then ctr_after c (ppc k0) i else ctr_read c i (ppc k0))"
      using rd j(1) True by (auto simp: b(2) ctr_read_write ctr_after_def)
    then show ?thesis
      using k' b log same True by (simp add: handler_at_def for_each_append mfspr_ctr_write)
  next
    case False
    have A: "k' = k\<lparr>ppc := ppc k'\<rparr> \<and> (ppc k' = ppc k \<and> ctr_after c (ppc k0) j = ctr_read c j (ppc k0) \<or>
        ppc k' = ctr_write c j 0 (ppc k) \<and> ctr_after c (ppc k0) j = 0)"
      using k'(1) False j(2) same(1) now
      by (auto simp: power4_check_ctr_def arr_at_def due_def ctr_after_def Let_def split: if_splits)
    have ring: "cpu_buffer k' = cpu_buffer k" by (subst conjunct1 [OF A]) simp
    note k2 = ring conjunct2 [OF A]
    have "\<forall>i < 8. ctr_read c i (ppc k') = (if i < Suc j then ctr_after c (ppc k0) i else ctr_read c i (ppc k0))"
      using rd j(1) k2(2) by (auto simp: ctr_read_write less_Suc_eq)
    then show ?thesis
      using k' k2 log same False by (auto simp: handler_at_def for_each_append mfspr_ctr_write)
  qed
qed

lemma handler_counters:
  assumes "ppc_wf K (ppc k)" and "ring_ok (cpu_buffer k c)" and "sampler_ok sp" and "irq_regs t = Some r"
  shows "\<exists>k'. for_each (power4_check_ctr K sp c t (ppc_ctr (ppc k)) pc is_kernel) [0..<num_pmcs K]
      (k\<lparr>ppc := set_PMM K c (ppc k)\<rparr>) = Some k' \<and> handler_at sp c t pc is_kernel k (num_pmcs K) k'"
proof (rule for_each_upto)
  show "handler_at sp c t pc is_kernel k 0 (k\<lparr>ppc := set_PMM K c (ppc k)\<rparr>)"
    using handled_state [OF handled_refl [OF assms(2)], of "set_PMM K c (ppc k)"]
    by (simp add: handler_at_def volatile_intros)
next
  fix j s
  assume "j < num_pmcs K" and "handler_at sp c t pc is_kernel k j s"
  from this(2,1) assms(1,3,4) show "\<exists>s'. power4_check_ctr K sp c t (ppc_ctr (ppc k)) pc is_kernel j s = Some s' \<and>
      handler_at sp c t pc is_kernel k (Suc j) s'" by (rule handler_step)
qed

text \<open>C10: the interrupt of a POWER4 logs the interval since the counters were started and a sample for
  each counter that is due, in their order, at the address and in the mode that the sampled
  registers tell, and nothing else; each of these is set back to \<^verbatim>\<open>count\<close> below its overflow, a
  counter in counting mode and a negative one that is not in use to 0, and any other is left;
  the rings of other CPUs stay, the next interval starts, and the counters run again.\<close>

theorem power4_interrupt_samples:
  assumes "ppc_wf K (ppc k)" and "ring_ok (cpu_buffer k c)" and "sampler_ok sp" and "irq_regs t = Some r"
    and "pc = get_pc K c (ppc k)" and "is_kernel = get_kernel K c pc (ppc k)"
  shows "\<exists>k'. power4_handle_interrupt K sp c t (ppc_ctr (ppc k)) k = Some k' \<and>
    for_each (log_due sp t (power4_start_timestamp (ppc k) c) pc is_kernel)
      (filter (due c (ppc k)) [0..<num_pmcs K]) (cpu_buffer k c) = Some (cpu_buffer k' c) \<and>
    (\<forall>c'. c' \<noteq> c \<longrightarrow> cpu_buffer k' c' = cpu_buffer k c') \<and>
    (\<forall>i < num_pmcs K. ctr_read c i (ppc k') = ctr_after c (ppc k) i) \<and>
    power4_start_timestamp (ppc k') = (power4_start_timestamp (ppc k))(c := next_tb t) \<and>
    ucast (mfspr c SPRN_MMCR0 (ppc k')) =
      ((ucast (mfspr c SPRN_MMCR0 (ppc k)) OR MMCR0_PMXE K) AND NOT (MMCR0_PMAO K)) AND NOT (MMCR0_FC K)"
proof -
  from handler_counters [OF assms(1-4), of pc is_kernel] obtain k1 where
    run: "for_each (power4_check_ctr K sp c t (ppc_ctr (ppc k)) pc is_kernel) [0..<num_pmcs K]
      (k\<lparr>ppc := set_PMM K c (ppc k)\<rparr>) = Some k1" and
    k1: "handler_at sp c t pc is_kernel k (num_pmcs K) k1" by blast
  let ?m = "((ucast (mfspr c SPRN_MMCR0 (ppc k1)) OR MMCR0_PMXE K) AND NOT (MMCR0_PMAO K)) AND NOT (MMCR0_FC K)"
  let ?k = "k1\<lparr>ppc := mtspr c SPRN_MMCR0 (ucast ?m)
    ((ppc k1)\<lparr>power4_start_timestamp := (power4_start_timestamp (ppc k1))(c := next_tb t)\<rparr>)\<rparr>"
  have "power4_handle_interrupt K sp c t (ppc_ctr (ppc k)) k = Some ?k"
    using run assms(5,6) by (simp add: power4_handle_interrupt_def Let_def)
  moreover have "cpu_buffer ?k c' = cpu_buffer k c'" if "c' \<noteq> c" for c'
    using k1 that only_ppc_ok(4) by (auto simp: handler_at_def handled_def)
  moreover have "ctr_read c i (ppc ?k) = ctr_after c (ppc k) i" if "i < num_pmcs K" for i
  proof -
    have "i < 8" using that assms(1) by (simp add: ppc_wf_def OP_MAX_COUNTER_ppc_def)
    then show ?thesis using k1 that by (simp add: handler_at_def)
  qed
  moreover have "(ucast (ucast v :: ulong) :: u32) = v" for v :: u32
    by (rule bit_word_eqI) (simp add: bit_ucast_iff)
  ultimately show ?thesis
    using k1 by (intro exI [of _ ?k]) (simp add: handler_at_def mtspr_def mfspr_def)
qed

end
