(* ===== verification/Ppc_Lifecycle.thy ===== *)
theory Ppc_Lifecycle
  imports Power4_Behaviour Ppc_Backtrace
begin

text \<open>
  The whole driver on a 64-bit PowerPC: what \<^verbatim>\<open>oprofile_init\<close> makes of the module, and the state
  machine of theory Lifecycle with the interrupts of the counters, the counting of the hardware
  and the files of the back end added. No reachable state faults, whichever model was chosen.
\<close>

section \<open>The back end\<close>

definition ppc_of :: "'h ppc_kstate_ext timer_kstate_ext \<Rightarrow> ppc_state" where
  "ppc_of h = ppc (kstate.extend undefined h)"

lemma ppc_of [simp]: "ppc_of (kstate.more k) = ppc k"
  by (cases k) (simp add: ppc_of_def kstate.defs)

lemma ppc_of_rest: "ppc_of h = ppc (timer_kstate.extend undefined (timer_rest h))"
proof -
  have "ppc k = ppc (timer_kstate.extend undefined (timer_kstate.more k))" for k :: "'a ppc_kstate_scheme"
    by (cases k) (simp add: timer_kstate.defs)
  then show ?thesis unfolding ppc_of_def timer_rest_def .
qed

text \<open>Between sessions, and in a session with the counters.\<close>

definition ppc_idle :: "ppc_platform \<Rightarrow> ppc_state \<Rightarrow> bool" where
  "ppc_idle K x \<longleftrightarrow> ppc_wf K x \<and> \<not> pmc_reserved x"

definition ppc_armed :: "ppc_platform \<Rightarrow> ppc_state \<Rightarrow> bool" where
  "ppc_armed K x \<longleftrightarrow> ppc_wf K x \<and> pmc_reserved x"

lemma ppc_quiet: "powerpc_model.quiet (ppc_wf K) = ppc_idle K"
  "powerpc_model.armed (ppc_wf K) = ppc_armed K"
  by (rule ext, simp add: ppc_model.quiet_def ppc_model.armed_def ppc_idle_def ppc_armed_def)+

lemmas ppc_setup_ok = ppc_model.setup_ok [unfolded ppc_quiet]
lemmas ppc_cpu_start_ok = ppc_model.cpu_start_ok [unfolded ppc_quiet]
lemmas ppc_cpu_stop_ok = ppc_model.cpu_stop_ok [unfolded ppc_quiet]
lemmas ppc_interrupt_ok = ppc_model.interrupt_ok [unfolded ppc_quiet]
lemmas ppc_all_cpus = ppc_model.all_cpus [unfolded ppc_quiet]

lemma ppc_start_ok:
  assumes "buffers_ok (possible_cpus env) k" and "ppc_armed K (ppc k)"
    and "set (online_cpus env) \<subseteq> set (possible_cpus env)"
  shows "\<exists>k'. op_powerpc_start H (model_of K m) (online_cpus env) k = Some (rc_ok, k') \<and>
    kernel_keeps (possible_cpus env) k k' \<and> ppc_armed K (ppc k')"
proof -
  have "\<exists>k'. for_each (op_powerpc_cpu_start H (model_of K m)) (online_cpus env) k = Some k' \<and>
      kernel_keeps (possible_cpus env) k k' \<and> ppc_armed K (ppc k')"
    using assms(1,3,2) by (rule ppc_all_cpus) (rule ppc_cpu_start_ok)
  then show ?thesis by (auto simp: op_powerpc_start_def)
qed

lemma ppc_stop_ok:
  assumes "buffers_ok (possible_cpus env) k" and "ppc_armed K (ppc k)"
    and "set (online_cpus env) \<subseteq> set (possible_cpus env)"
  shows "\<exists>k'. op_powerpc_stop H (model_of K m) (online_cpus env) k = Some k' \<and>
    kernel_keeps (possible_cpus env) k k' \<and> ppc_armed K (ppc k')"
  unfolding op_powerpc_stop_def using assms(1,3,2) by (rule ppc_all_cpus) (rule ppc_cpu_stop_ok)

lemma ppc_update [simp]:
  "buffers_ok possible k \<Longrightarrow> kernel_keeps possible k (k\<lparr>ppc := x\<rparr>)"
  by (rule ppc_model.ppc_update_keeps)

abbreviation ppc_operations ::
  "'r ppc_build \<Rightarrow> kernel_env \<Rightarrow> powerpc_spec \<Rightarrow> string \<Rightarrow> ('h ppc_kstate_scheme, 'r) oprofile_operations"
where
  "ppc_operations B env m name \<equiv> powerpc_operations (hw B) (model_of (platform B) m) (online_cpus env) name
     (backtrace_callback B) no_operations"

lemma ppc_backend:
  fixes B :: "'r ppc_build"
  assumes "set (online_cpus env) \<subseteq> set (possible_cpus env)"
  shows "backend env (\<lambda>h. ppc_idle (platform B) (ppc_of h)) (\<lambda>h. ppc_armed (platform B) (ppc_of h))
    (ppc_operations B env m name :: ('h ppc_kstate_scheme, 'r) oprofile_operations)"
proof (unfold_locales, goal_cases)
  case (1 f k)
  then have "ppc_idle (platform B) (ppc k)" by simp
  from ppc_setup_ok [OF this, of "hw B" m "online_cpus env"] obtain r x where
    "op_powerpc_setup (hw B) (model_of (platform B) m :: ('h, 'r) op_powerpc_model) (online_cpus env) k = Some (r, k\<lparr>ppc := x\<rparr>)"
    "if r = rc_ok then ppc_armed (platform B) x else ppc_idle (platform B) x" by blast
  with 1 show ?case
    by (intro exI [of _ r] exI [of _ "k\<lparr>ppc := x\<rparr>"]) (auto simp: powerpc_operations_def split: if_splits)
next
  case (3 k)
  with ppc_start_ok [OF _ _ assms, of k "platform B" "hw B" m] show ?case
    by (auto simp: powerpc_operations_def call_rc_def)
next
  case (4 k)
  with ppc_stop_ok [OF _ _ assms, of k "platform B" "hw B" m] show ?case
    by (auto simp: powerpc_operations_def call_void_def)
next
  case (6 k)
  then show ?case
    by (auto simp: powerpc_operations_def call_optional_def op_powerpc_shutdown_def ppc_armed_def ppc_idle_def)
qed (simp_all add: powerpc_operations_def no_operations_def)

section \<open>The module\<close>

type_synonym ('h, 'r) ppc_driver = "(('h ppc_kstate_ext) timer_kstate_ext, 'r) driver"

definition ppc_ready :: "ppc_platform \<Rightarrow> (('h ppc_kstate_ext) timer_kstate_ext, 'r) ops_ready" where
  "ppc_ready K ops h =
     (if op_cpu_type ops = Some ''timer'' then ppc_idle K (ppc_of h) else ppc_armed K (ppc_of h))"

lemma ppc_ready_eta:
  "op_cpu_type ops = Some ''timer'' \<Longrightarrow> ppc_ready K ops = (\<lambda>h. ppc_idle K (ppc_of h))"
  "op_cpu_type ops \<noteq> Some ''timer'' \<Longrightarrow> ppc_ready K ops = (\<lambda>h. ppc_armed K (ppc_of h))"
  by (simp_all add: ppc_ready_def fun_eq_iff)

abbreviation ppc_inv :: "ppc_platform \<Rightarrow> kernel_env \<Rightarrow> ('h, 'r) ppc_driver \<Rightarrow> bool" where
  "ppc_inv K env \<equiv> life_inv env (\<lambda>h. ppc_idle K (ppc_of h)) (ppc_ready K)"

lemma ppc_good_timer:
  "good_ops env (\<lambda>h. ppc_idle K (ppc_of h)) (ppc_ready K)
     ((timer_operations reg (online_cpus env) tb)\<lparr>op_backtrace := bt\<rparr>)"
proof -
  have "backend env (\<lambda>h. ppc_idle K (ppc_of h)) (\<lambda>h. ppc_idle K (ppc_of h))
      (timer_operations reg (online_cpus env) tb)"
    using timer.backend_axioms [of env "\<lambda>e. ppc_idle K (ppc (timer_kstate.extend undefined e))"]
    by (simp add: ppc_of_rest)
  from backend_backtrace [OF this] show ?thesis
    by (simp add: good_ops_def ppc_ready_eta oprofile_timer_init_def)
qed

lemma ppc_good_ops:
  assumes "name \<noteq> ''timer''" and "set (online_cpus env) \<subseteq> set (possible_cpus env)"
  shows "good_ops env (\<lambda>h. ppc_idle (platform B) (ppc_of h)) (ppc_ready (platform B))
    (ppc_operations B env m name)"
  unfolding good_ops_def
  by (subst ppc_ready_eta(2)) (simp add: powerpc_operations_def assms(1), rule ppc_backend [OF assms(2)])

text \<open>The names of the processors fit the driver's array and are not the timer's.\<close>

definition ppc_build_ok :: "'r ppc_build \<Rightarrow> bool" where
  "ppc_build_ok B \<longleftrightarrow>
     (\<forall>name. spec_cpu_type B = Some name \<longrightarrow> name \<noteq> ''timer'' \<and> size name < 80)"

lemma ppc_module_init:
  fixes d :: "('h, 'r) ppc_driver"
  assumes "oprofile_init (oprofile_timer_init reg (online_cpus env) tb)
      (oprofile_arch_init_ppc B (online_cpus env)) fs d = Some (r, d0)"
    and "fresh_driver d" and "ppc_build_ok B" and "env_ok env" and "ppc_idle (platform B) (ppc (kern d))"
    and "op_cpu_type (arch_ops d0) \<noteq> None"
  shows "\<exists>m. choose_powerpc_model (spec_oprofile_type B) = Some m \<and> ppc_model (ppc (kern d0)) = Some m \<and>
    ppc_inv (platform B) env d0"
proof -
  have "\<exists>name m. spec_cpu_type B = Some name \<and> choose_powerpc_model (spec_oprofile_type B) = Some m"
    using assms(1,2,6)
    by (auto simp: oprofile_init_def Let_def oprofile_timer_init_def oprofile_set_ulong_def
        oprofile_arch_init_ppc_def fresh_driver_def split: if_splits option.splits)
  then obtain name m where m: "spec_cpu_type B = Some name"
    "choose_powerpc_model (spec_oprofile_type B) = Some m" by blast
  then have name: "name \<noteq> ''timer''" "size name < 80" using assms(3) by (simp_all add: ppc_build_ok_def)
  let ?ops = "ppc_operations B env m name :: (('h ppc_kstate_ext) timer_kstate_scheme, 'r) oprofile_operations"
  obtain x where a: "oprofile_arch_init_ppc B (online_cpus env) no_operations (kern d) =
      Some (rc_ok, ?ops, (kern d)\<lparr>ppc := x\<rparr>)" "ppc_model x = Some m" "ppc_idle (platform B) x"
    using m assms(5) by (auto simp: oprofile_arch_init_ppc_def Let_def ppc_idle_def split: option.split)
  have "\<not> oprofile_started d" using assms(2) by (simp add: fresh_driver_def)
  moreover have "op_cpu_type ?ops = Some name" by (simp add: powerpc_operations_def)
  ultimately have init: "oprofile_init ti (oprofile_arch_init_ppc B (online_cpus env)) fs d =
      Some (fs, d\<lparr>kern := (kern d)\<lparr>ppc := x\<rparr>,
        timer_ops := (snd (ti no_operations))\<lparr>op_backtrace := op_backtrace ?ops\<rparr>, arch_ops := ?ops,
        oprofile_num_counters := op_num_counters ?ops, oprofile_ops := ?ops,
        oprofile_backtrace_depth := 512, oprofile_cpu_type := name\<rparr>)" for ti
    using a(1) name(2) by (intro init_with_arch)
  from assms(1) [unfolded init] have d0: "timer_ops d0 = (timer_operations reg (online_cpus env) tb)
      \<lparr>op_backtrace := op_backtrace ?ops\<rparr>"
    "arch_ops d0 = ?ops" "oprofile_ops d0 = ?ops" "kern d0 = (kern d)\<lparr>ppc := x\<rparr>"
    "is_setup d0 = is_setup d" "oprofile_started d0 = oprofile_started d"
    "oprofile_buffer_size d0 = oprofile_buffer_size d"
    "oprofile_cpu_buffer_size d0 = oprofile_cpu_buffer_size d"
    by auto
  have "set (online_cpus env) \<subseteq> set (possible_cpus env)" using assms(4) by (simp add: env_ok_def)
  then have "driver_ops_ok env (\<lambda>h. ppc_idle (platform B) (ppc_of h)) (ppc_ready (platform B)) d0"
    unfolding driver_ops_ok_def d0(1-3) using ppc_good_ops [OF name(1)] ppc_good_timer by blast
  moreover have "sizes_ok d0" using assms(2) d0 by (simp add: fresh_driver_def sizes_ok_def)
  ultimately show ?thesis
    using assms(2) d0 m a by (auto simp: life_inv_def session_down_def fresh_driver_def no_work_def)
qed

section \<open>The state machine\<close>

text \<open>
  The steps of the driver, the counter interrupt on an online CPU while the driver holds the
  counters, any change of the registers by the hardware, mounting the file system, and a
  change of the configuration through its files, which is refused while a profile runs.
\<close>

inductive ppc_step ::
  "'r ppc_build \<Rightarrow> kernel_env \<Rightarrow> powerpc_spec \<Rightarrow> ('h, 'r) ppc_driver \<Rightarrow> ('h, 'r) ppc_driver \<Rightarrow> bool"
  for B env m where
  driver: "driver_step env d d' \<Longrightarrow> ppc_step B env m d d'"
| pmu: "pmc_reserved (ppc (kern d)) \<Longrightarrow> c \<in> set (online_cpus env) \<Longrightarrow> sampler_ok (sp :: 'r sampler) \<Longrightarrow>
    irq_regs t = Some r \<Longrightarrow> op_handle_interrupt (model_of (platform B) m) sp c t (kern d) = Some k \<Longrightarrow>
    ppc_step B env m d (d\<lparr>kern := k\<rparr>)"
| counting: "ppc_step B env m d (on_kern (\<lambda>k. k\<lparr>ppc := (ppc k)\<lparr>spr := s, ppc_msr := ms\<rparr>\<rparr>) d)"
| mount: "op_powerpc_create_files alloc n root fs (ppc (kern d)) = Some (fs', x) \<Longrightarrow>
    ppc_step B env m d (on_kern (\<lambda>k. k\<lparr>ppc := x\<rparr>) d)"
| configure: "\<not> oprofile_started d \<Longrightarrow> length cfg = length (ppc_ctr (ppc (kern d))) \<Longrightarrow>
    ppc_step B env m d (on_kern (\<lambda>k. k\<lparr>ppc := (ppc k)\<lparr>ppc_ctr := cfg, ppc_sys := sys\<rparr>\<rparr>) d)"

inductive ppc_reach ::
  "'r ppc_build \<Rightarrow> kernel_env \<Rightarrow> powerpc_spec \<Rightarrow> ('h, 'r) ppc_driver \<Rightarrow> ('h, 'r) ppc_driver \<Rightarrow> bool"
  for B env m d0 where
  initial: "ppc_reach B env m d0 d0"
| further: "ppc_reach B env m d0 d \<Longrightarrow> ppc_step B env m d d' \<Longrightarrow> ppc_reach B env m d0 d'"

lemma ppc_inv_cases:
  assumes "ppc_inv K env d"
  obtains (quiet) "ppc_idle K (ppc (kern d))"
  | (armed) "buffer_opened (evb (kern d))" "buffers_ok (possible_cpus env) (kern d)"
      "ppc_armed K (ppc (kern d))" "op_cpu_type (oprofile_ops d) \<noteq> Some ''timer''"
  using assms life_inv_closed [OF assms] life_inv_opened [OF assms]
  by (cases "buffer_opened (evb (kern d))"; cases "op_cpu_type (oprofile_ops d) = Some ''timer''")
    (auto simp: ppc_ready_eta)

lemma ppc_change_inv:
  assumes "ppc_inv K env d" and "ppc_wf K (ppc (kern d)) \<Longrightarrow> ppc_wf K x"
    and "pmc_reserved x = pmc_reserved (ppc (kern d))"
  shows "ppc_inv K env (d\<lparr>kern := (kern d)\<lparr>ppc := x\<rparr>\<rparr>)"
proof (cases "buffer_opened (evb (kern d))")
  case True
  then show ?thesis
    using life_inv_opened [OF assms(1) True] assms(2,3)
    by (intro life_inv_session [OF assms(1) True])
      (auto simp: ppc_ready_def ppc_idle_def ppc_armed_def split: if_splits)
next
  case False
  with assms life_inv_closed [OF assms(1)] show ?thesis
    by (auto simp: life_inv_def session_down_def no_work_def sizes_ok_def driver_ops_ok_def ppc_idle_def)
qed

lemma ppc_pmu_inv:
  assumes "ppc_inv (platform B) env d" and "env_ok env" and "pmc_reserved (ppc (kern d))"
    and "c \<in> set (online_cpus env)" and "sampler_ok sp" and "irq_regs t = Some r"
  shows "\<exists>k. op_handle_interrupt (model_of (platform B) m) sp c t (kern d) = Some k \<and>
    ppc_inv (platform B) env (d\<lparr>kern := k\<rparr>)"
  using assms(1)
proof (cases rule: ppc_inv_cases)
  case quiet
  with assms(3) show ?thesis by (simp add: ppc_idle_def)
next
  case armed
  have "c \<in> set (possible_cpus env)" using assms(2,4) by (auto simp: env_ok_def)
  from ppc_interrupt_ok [OF armed(2) this armed(3) assms(5,6), of m] obtain k where
    "op_handle_interrupt (model_of (platform B) m) sp c t (kern d) = Some k"
    "kernel_keeps (possible_cpus env) (kern d) k" "ppc_armed (platform B) (ppc k)" by blast
  with armed(4) life_inv_session [OF assms(1) armed(1), of k] show ?thesis
    by (simp add: ppc_ready_def)
qed

lemma ppc_step_inv:
  assumes "ppc_step B env m d d'" and "ppc_inv (platform B) env d" and "env_ok env"
  shows "ppc_inv (platform B) env d'"
  using assms(1)
proof (cases rule: ppc_step.cases)
  case driver
  then show ?thesis using assms(2,3) by (rule driver_step_inv)
next
  case (pmu c sp t r k)
  with ppc_pmu_inv [OF assms(2,3) pmu(2-5), of m] show ?thesis by auto
next
  case (counting ms s)
  with ppc_change_inv [OF assms(2), of "(ppc (kern d))\<lparr>spr := s, ppc_msr := ms\<rparr>"] show ?thesis
    by (simp add: ppc_wf_def)
next
  case (mount alloc n root fs fs' x)
  then obtain sys where "x = (ppc (kern d))\<lparr>ppc_sys := sys\<rparr>"
    by (auto simp: op_powerpc_create_files_def split: Option.bind_splits)
  with mount ppc_change_inv [OF assms(2), of x] show ?thesis by simp
next
  case (configure cfg sys)
  with ppc_change_inv [OF assms(2), of "(ppc (kern d))\<lparr>ppc_ctr := cfg, ppc_sys := sys\<rparr>"] show ?thesis
    by (simp add: ppc_wf_def)
qed

lemma ppc_reach_inv:
  assumes "ppc_reach B env m d0 d" and "ppc_inv (platform B) env d0" and "env_ok env"
  shows "ppc_inv (platform B) env d"
  using assms by (induction rule: ppc_reach.induct) (blast intro: ppc_step_inv)+


text \<open>C29: the states of the driver on a 64-bit PowerPC are well-typed: in every reachable one the arrays
  of the counter models have their eight elements, which every index of a loop stays below,
  and the driver holds the counters only while the buffer file is open.\<close>

theorem ppc_states_well_typed:
  fixes d :: "('h, 'r) ppc_driver"
  assumes "fresh_driver d" and "env_ok env" and "ppc_build_ok B"
    and "ppc_idle (platform B) (ppc (kern d))"
    and "oprofile_init (oprofile_timer_init reg (online_cpus env) tb)
      (oprofile_arch_init_ppc B (online_cpus env)) fs d = Some (r, d0)"
    and "op_cpu_type (arch_ops d0) \<noteq> None" and "ppc_reach B env m d0 d1"
  shows "ppc_wf (platform B) (ppc (kern d1)) \<and>
    (pmc_reserved (ppc (kern d1)) \<longrightarrow> buffer_opened (evb (kern d1)))"
proof -
  have "ppc_inv (platform B) env d0"
    using ppc_module_init [OF assms(5,1,3,2,4,6)] by blast
  then have inv: "ppc_inv (platform B) env d1" using ppc_reach_inv [OF assms(7)] assms(2) by blast
  then show ?thesis
    by (cases rule: ppc_inv_cases) (auto simp: ppc_idle_def ppc_armed_def)
qed

end
