(* ===== verification/Rs64_Behaviour.thy ===== *)
theory Rs64_Behaviour
  imports Ppc_Contract
begin

text \<open>
  What \<^verbatim>\<open>ctrl_write\<close> and the start of the RS64 model do to the fields of the control registers:
  each event that fits its field is found there, and one that does not fit spoils the field
  beside it.
\<close>

section \<open>The fields\<close>

definition ctrl_reg :: "nat \<Rightarrow> spr" where
  "ctrl_reg i = (if i = 0 \<or> i = 1 then SPRN_MMCR0 else SPRN_MMCR1)"

definition ctrl_place :: "u32 list" where
  "ctrl_place = [0x1FC0, 0x3F, 0xF8000000, 0x07C00000, 0x003E0000, 0x0001F000, 0x00000F80, 0x00000078]"

definition ctrl_shift :: "nat list" where "ctrl_shift = [6, 0, 27, 22, 17, 12, 7, 3]"

text \<open>The value of the field of counter \<open>i\<close>, and whether an event fits it.\<close>

definition ctrl_get :: "nat \<Rightarrow> nat \<Rightarrow> ppc_state \<Rightarrow> u32" where
  "ctrl_get c i x = drop_bit (ctrl_shift ! i) (ucast (mfspr c (ctrl_reg i) x) AND ctrl_place ! i)"

definition event_fits :: "nat \<Rightarrow> u32 \<Rightarrow> bool" where
  "event_fits i val \<longleftrightarrow> val AND drop_bit (ctrl_shift ! i) (ctrl_place ! i) = val"

lemma less_8E:
  assumes "i < 8"
  obtains "i = 0" | "i = 1" | "i = (2 :: nat)" | "i = 3" | "i = 4" | "i = 5" | "i = 6" | "i = 7"
  using assms by linarith

lemma ucast_and_not:
  fixes tmp :: u32 and m :: ulong
  shows "ucast (ucast tmp AND NOT m) = tmp AND NOT (ucast m)"
  by (rule bit_word_eqI) (auto simp: bit_and_iff bit_not_iff bit_ucast_iff)

lemma ctrl_write_eq:
  assumes "i < 8"
  shows "ctrl_write c i val x = mtspr c (ctrl_reg i)
    (ucast ((ucast (mfspr c (ctrl_reg i) x) AND NOT (ctrl_place ! i)) OR push_bit (ctrl_shift ! i) val)) x"
  using assms
  by (cases rule: less_8E)
    (simp_all add: ctrl_write_def ctrl_field_def ctrl_reg_def ctrl_place_def ctrl_shift_def ucast_and_not Let_def)

lemma place_disjoint:
  assumes "i < 8" and "j < 8" and "i \<noteq> j" and "ctrl_reg i = ctrl_reg j"
  shows "ctrl_place ! i AND ctrl_place ! j = 0"
  using assms(1)
proof (cases rule: less_8E)
qed (use assms(2) in \<open>cases rule: less_8E\<close>; use assms in \<open>simp add: ctrl_reg_def ctrl_place_def\<close>)+

lemma shifted_fits:
  assumes "event_fits i val" and "i < 8"
  shows "push_bit (ctrl_shift ! i) val AND ctrl_place ! i = push_bit (ctrl_shift ! i) val"
    "drop_bit (ctrl_shift ! i) (push_bit (ctrl_shift ! i) val) = val"
proof -
  have place: "push_bit (ctrl_shift ! i) (drop_bit (ctrl_shift ! i) (ctrl_place ! i)) = ctrl_place ! i"
    using assms(2) by (cases rule: less_8E) (simp_all add: ctrl_shift_def ctrl_place_def)
  have val: "val AND drop_bit (ctrl_shift ! i) (ctrl_place ! i) = val" using assms(1) by (simp add: event_fits_def)
  have "push_bit (ctrl_shift ! i) val =
      push_bit (ctrl_shift ! i) val AND push_bit (ctrl_shift ! i) (drop_bit (ctrl_shift ! i) (ctrl_place ! i))"
    by (subst val [symmetric]) (simp only: push_bit_and)
  then show "push_bit (ctrl_shift ! i) val AND ctrl_place ! i = push_bit (ctrl_shift ! i) val"
    unfolding place by simp
  show "drop_bit (ctrl_shift ! i) (push_bit (ctrl_shift ! i) val) = val"
  proof (rule bit_word_eqI)
    fix n assume "n < LENGTH(32)"
    have "ctrl_shift ! i + n < 32" if "bit val n"
    proof -
      have "bit (val AND drop_bit (ctrl_shift ! i) (ctrl_place ! i)) n" using that val by simp
      then have "bit (ctrl_place ! i) (ctrl_shift ! i + n)" by (simp add: bit_and_iff bit_drop_bit_eq)
      then show ?thesis using bit_imp_le_length by fastforce
    qed
    then show "bit (drop_bit (ctrl_shift ! i) (push_bit (ctrl_shift ! i) val)) n = bit val n"
      by (auto simp: bit_drop_bit_eq bit_push_bit_iff)
  qed
qed

lemma masked_write:
  fixes old p v q :: u32
  shows "v AND p = v \<Longrightarrow> ((old AND NOT p) OR v) AND p = v"
    "v AND p = v \<Longrightarrow> p AND q = 0 \<Longrightarrow> ((old AND NOT p) OR v) AND q = old AND q"
proof -
  assume v: "v AND p = v"
  then have vp: "bit v n \<Longrightarrow> bit p n" for n by (metis bit_and_iff)
  then show "((old AND NOT p) OR v) AND p = v"
    by (auto intro!: bit_word_eqI simp: bit_and_iff bit_or_iff bit_not_iff)
  assume "p AND q = 0"
  then have "\<not> (bit p n \<and> bit q n)" for n by (metis bit_and_iff bit_0_eq bot_apply bot_bool_def)
  with vp show "((old AND NOT p) OR v) AND q = old AND q"
    by (auto intro!: bit_word_eqI simp: bit_and_iff bit_or_iff bit_not_iff)
qed

lemma ucast_back [simp]: "(ucast (ucast (v :: u32) :: ulong) :: u32) = v"
  by (rule bit_word_eqI) (simp add: bit_ucast_iff)

lemma ctrl_get_write:
  assumes "i < 8" and "j < 8" and "event_fits i val"
  shows "ctrl_get c j (ctrl_write c i val x) = (if i = j then val else ctrl_get c j x)"
proof (cases "i = j")
  case True
  then show ?thesis
    using assms shifted_fits [OF assms(3,1)]
    by (simp add: ctrl_get_def ctrl_write_eq mfspr_def mtspr_def masked_write(1))
next
  case False
  show ?thesis
  proof (cases "ctrl_reg i = ctrl_reg j")
    case True
    from masked_write(2) [OF shifted_fits(1) [OF assms(3,1)] place_disjoint [OF assms(1,2) False True]]
    show ?thesis using False True assms(1)
      by (simp add: ctrl_get_def ctrl_write_eq mfspr_def mtspr_def)
  next
    case other: False
    with False assms(1) show ?thesis by (simp add: ctrl_get_def ctrl_write_eq mfspr_def mtspr_def)
  qed
qed

text \<open>
  A value that is too wide is not cut: an event of six bits for the fourth counter also sets
  the lowest bit of the field of the third.
\<close>

lemma wide_event_spills:
  "ctrl_get c 2 (ctrl_write c 3 0x20 x) = ctrl_get c 2 x OR 1"
  by (rule bit_word_eqI)
    (auto simp: ctrl_get_def ctrl_write_eq ctrl_reg_def ctrl_place_def ctrl_shift_def mfspr_def mtspr_def
      bit_drop_bit_eq bit_and_iff bit_or_iff bit_not_iff bit_ucast_iff bit_1_iff)

section \<open>Starting\<close>

lemma ctrl_reg_in: "ctrl_reg i \<in> {SPRN_MMCR0, SPRN_MMCR1, SPRN_MMCRA, SPRN_SIAR}"
  by (simp add: ctrl_reg_def)

lemma ctrl_get_frame [simp]:
  "ctrl_get c i (ctr_write c' j v x) = ctrl_get c i x"
  "ctrl_get c i (set_PMM K c' x) = ctrl_get c i x"
  unfolding ctrl_get_def by (simp_all only: set_PMM_reads mfspr_ctr_write [OF ctrl_reg_in])

lemma ctr_read_ctrl_write [simp]: "ctr_read c i (ctrl_write c' j v x) = ctr_read c i x"
  by (simp add: ctrl_write_def Let_def ctr_read_def mfspr_def mtspr_def pmc_def split: option.split prod.split)

text \<open>What a counter is started with.\<close>

definition rs64_armed :: "nat \<Rightarrow> op_counter_config_ppc list \<Rightarrow> ppc_state \<Rightarrow> nat \<Rightarrow> bool" where
  "rs64_armed c cs x i \<longleftrightarrow>
     (if pc_enabled (cs ! i) \<noteq> 0
      then ctr_read c i x = ucast (rs64_reset_value x ! i) \<and> ctrl_get c i x = ucast (pc_event (cs ! i))
      else ctr_read c i x = 0)"

lemma mfspr_mtspr: "mfspr c r (mtspr c r v x) = v"
  by (simp add: mfspr_def mtspr_def)

lemma ctrl_get_unfrozen:
  assumes "MMCR0_FC K AND 0x1FFF = 0" and "i < 8"
  shows "ctrl_get c i (mtspr c SPRN_MMCR0 (ucast ((ucast (mfspr c SPRN_MMCR0 x) :: u32) AND NOT (MMCR0_FC K))) x) =
    ctrl_get c i x"
proof (cases "i < 2")
  case True
  have sub: "ctrl_place ! i AND 0x1FFF = ctrl_place ! i"
    using True by (cases "i = 0") (simp_all add: ctrl_place_def less_Suc_eq)
  have "\<not> (bit (MMCR0_FC K) n \<and> bit (ctrl_place ! i) n)" for n
  proof
    assume both: "bit (MMCR0_FC K) n \<and> bit (ctrl_place ! i) n"
    then have "bit (0x1FFF :: u32) n" using sub by (metis bit_and_iff)
    with both have "bit (MMCR0_FC K AND 0x1FFF) n" by (simp add: bit_and_iff)
    then show False using assms(1) by simp
  qed
  then have *: "(w AND NOT (MMCR0_FC K)) AND ctrl_place ! i = w AND ctrl_place ! i" for w
    by (auto intro!: bit_word_eqI simp: bit_and_iff bit_not_iff)
  have r: "ctrl_reg i = SPRN_MMCR0" using True by (auto simp: ctrl_reg_def)
  show ?thesis
    unfolding ctrl_get_def r by (simp only: mfspr_mtspr ucast_back *)
next
  case False
  then show ?thesis by (simp add: ctrl_get_def ctrl_reg_def mfspr_def mtspr_def)
qed

text \<open>The loop of the start.\<close>

abbreviation rs64_arm :: "op_counter_config_ppc list \<Rightarrow> nat \<Rightarrow> nat \<Rightarrow> ppc_state \<Rightarrow> ppc_state option" where
  "rs64_arm cs c \<equiv> \<lambda>i x. Option.bind (arr_at cs i) (\<lambda>g.
      if pc_enabled g \<noteq> 0
      then Option.bind (arr_at (rs64_reset_value x) i) (\<lambda>v.
             Some (ctrl_write c i (ucast (pc_event g)) (ctr_write c i (ucast v) x)))
      else Some (ctr_write c i 0 x))"

lemma rs64_arm_loop:
  assumes "ppc_wf K x" and "n = rs64_num_counters x"
    and "\<forall>i < n. pc_enabled (ppc_ctr x ! i) \<noteq> 0 \<longrightarrow> event_fits i (ucast (pc_event (ppc_ctr x ! i)))"
  shows "\<exists>x'. for_each (rs64_arm (ppc_ctr x) c) [0..<n] (set_PMM K c x) = Some x' \<and> volatile x x' \<and>
    (\<forall>i < n. rs64_armed c (ppc_ctr x) x' i)"
proof (rule for_each_upto)
  show "volatile x (set_PMM K c x) \<and> (\<forall>i < 0. rs64_armed c (ppc_ctr x) (set_PMM K c x) i)"
    by (simp add: volatile_intros)
next
  let ?cs = "ppc_ctr x"
  fix j x'
  assume j: "j < n" and I: "volatile x x' \<and> (\<forall>i < j. rs64_armed c ?cs x' i)"
  have n: "n \<le> 8" "n \<le> length ?cs" "n \<le> length (rs64_reset_value x)"
    using assms(1,2) by (simp_all add: ppc_wf_def OP_MAX_COUNTER_ppc_def)
  have rs: "rs64_reset_value x' = rs64_reset_value x" using I by (simp add: volatile_keeps(5))
  let ?x2 = "if pc_enabled (?cs ! j) \<noteq> 0
    then ctrl_write c j (ucast (pc_event (?cs ! j))) (ctr_write c j (ucast (rs64_reset_value x ! j)) x')
    else ctr_write c j 0 x'"
  have run: "rs64_arm ?cs c j x' = Some ?x2" using j n rs by (simp add: arr_at_def)
  have v: "volatile x ?x2" using I by (auto intro: volatile_intros)
  have "rs64_armed c ?cs ?x2 i" if "i < Suc j" for i
  proof -
    have i: "i < 8" "j < 8" using that j n by simp_all
    have "rs64_reset_value ?x2 = rs64_reset_value x" using v by (simp add: volatile_keeps(5))
    moreover have "i \<noteq> j \<Longrightarrow> rs64_armed c ?cs x' i" using I that by simp
    ultimately show ?thesis
      using i assms(3) j rs by (auto simp: rs64_armed_def ctr_read_write ctrl_get_write)
  qed
  with run v show "\<exists>x2. rs64_arm ?cs c j x' = Some x2 \<and> volatile x x2 \<and>
      (\<forall>i < Suc j. rs64_armed c ?cs x2 i)" by blast
qed


end
