(* ===== verification/Counter_Bank.thy ===== *)
theory Counter_Bank
  imports Ppc_Machine
begin

text \<open>
  What the counter models of 32-bit PowerPC kernels share: the structures of \<^verbatim>\<open>oprofile_impl.h\<close>
  with 32-bit longs, and the loop of their interrupt handlers over a bank of counters. The
  locale \<open>counter_bank\<close> is the contract of such a bank; the loop is shown to log exactly the
  counters that are due. The samples go to a log that is a parameter here: the rings of
  theory Cpu\_Buffer are those of a 64-bit kernel.
\<close>

section \<open>Structures\<close>

record op_counter_config32 =
  c32_enabled :: u32
  c32_event :: u32
  c32_count :: u32
  c32_kernel :: u32
  c32_user :: u32
  c32_unit_mask :: u32

record op_system_config32 =
  sys32_enable_kernel :: u32
  sys32_enable_user :: u32

text \<open>\<^verbatim>\<open>reset_value[i] = 0x80000000UL - ctr[i].count\<close>\<close>

definition reset32 :: "nat \<Rightarrow> op_counter_config32 list \<Rightarrow> u32 list \<Rightarrow> u32 list option" where
  "reset32 n cs vs = for_each (\<lambda>i vs. do { g \<leftarrow> arr_at cs i; arr_put i (0x80000000 - c32_count g) vs }) [0..<n] vs"

lemma reset32_eq:
  "n \<le> length cs \<Longrightarrow> n \<le> length vs \<Longrightarrow>
   reset32 n cs vs = Some (map (\<lambda>g. 0x80000000 - c32_count g) (take n cs) @ drop n vs)"
  unfolding reset32_def by (rule arr_loop)

section \<open>A bank of counters\<close>

text \<open>
  What a handler does for counter \<open>i\<close>, over the operations of a bank: \<open>rd\<close> and \<open>wr\<close> are
  \<^verbatim>\<open>ctr_read\<close> and \<^verbatim>\<open>ctr_write\<close> on its CPU, \<open>vals\<close> is \<^verbatim>\<open>reset_value\<close>, \<open>run\<close> is \<^verbatim>\<open>oprofile_running\<close>.
\<close>

definition bank_check ::
  "(nat \<Rightarrow> 's \<Rightarrow> u32) \<Rightarrow> (nat \<Rightarrow> u32 \<Rightarrow> 's \<Rightarrow> 's) \<Rightarrow> ('s \<Rightarrow> u32 list) \<Rightarrow> ('s \<Rightarrow> bool) \<Rightarrow>
   (nat \<Rightarrow> 'b \<Rightarrow> 'b option) \<Rightarrow> op_counter_config32 list \<Rightarrow> nat \<Rightarrow> 's \<times> 'b \<Rightarrow> ('s \<times> 'b) option" where
  "bank_check rd wr vals run add cs =
     (\<lambda>i (s, b).
        if rd i s <s 0 then
          do { g \<leftarrow> arr_at cs i;
               if run s \<and> c32_enabled g \<noteq> 0
               then do { b \<leftarrow> add i b; v \<leftarrow> arr_at (vals s) i; Some (wr i v s, b) }
               else Some (wr i 0 s, b) }
        else Some (s, b))"

text \<open>The counters that are due, and the values that the counters have afterwards.\<close>

definition bank_due ::
  "(nat \<Rightarrow> 's \<Rightarrow> u32) \<Rightarrow> ('s \<Rightarrow> bool) \<Rightarrow> op_counter_config32 list \<Rightarrow> 's \<Rightarrow> nat \<Rightarrow> bool" where
  "bank_due rd run cs s i \<longleftrightarrow> rd i s <s 0 \<and> run s \<and> c32_enabled (cs ! i) \<noteq> 0"

definition bank_after ::
  "(nat \<Rightarrow> 's \<Rightarrow> u32) \<Rightarrow> ('s \<Rightarrow> u32 list) \<Rightarrow> ('s \<Rightarrow> bool) \<Rightarrow> op_counter_config32 list \<Rightarrow> 's \<Rightarrow> nat \<Rightarrow> u32" where
  "bank_after rd vals run cs s i =
     (if bank_due rd run cs s i then vals s ! i else if rd i s <s 0 then 0 else rd i s)"

locale counter_bank =
  fixes rd :: "nat \<Rightarrow> 's \<Rightarrow> u32"
    and wr :: "nat \<Rightarrow> u32 \<Rightarrow> 's \<Rightarrow> 's"
    and vals :: "'s \<Rightarrow> u32 list"
    and run :: "'s \<Rightarrow> bool"
    and size_bank :: nat
  assumes read_back: "i < size_bank \<Longrightarrow> j < size_bank \<Longrightarrow> rd i (wr j v s) = (if i = j then v else rd i s)"
    and vals_kept: "vals (wr j v s) = vals s"
    and run_kept: "run (wr j v s) = run s"
begin

text \<open>The writes of the loop alone.\<close>

definition settle :: "op_counter_config32 list \<Rightarrow> 's \<Rightarrow> nat \<Rightarrow> 's \<Rightarrow> 's" where
  "settle cs s0 i s = (if rd i s0 <s 0 then wr i (bank_after rd vals run cs s0 i) s else s)"

lemma settle_vals: "vals (fold (settle cs s0) js s) = vals s" "run (fold (settle cs s0) js s) = run s"
  by (induction js arbitrary: s) (simp_all add: settle_def vals_kept run_kept)

lemma settle_reads:
  assumes "n \<le> size_bank" and "i < size_bank"
  shows "rd i (fold (settle cs s) [0..<n] s) = (if i < n then bank_after rd vals run cs s i else rd i s)"
  using assms
proof (induction n)
  case (Suc n)
  then show ?case
    by (auto simp: settle_def read_back bank_after_def bank_due_def less_Suc_eq)
qed simp

text \<open>The loop logs a sample for each counter that is due, in their order, and writes the counters.\<close>

lemma loop_logs:
  assumes "n \<le> size_bank" and "n \<le> length cs" and "n \<le> length (vals s)"
  shows "for_each (bank_check rd wr vals run add cs) [0..<n] (s, b) =
    map_option (Pair (fold (settle cs s) [0..<n] s)) (for_each add (filter (bank_due rd run cs s) [0..<n]) b)"
  using assms
proof (induction n)
  case (Suc n)
  let ?s = "fold (settle cs s) [0..<n] s"
  have rd: "rd n ?s = rd n s" using settle_reads [of n n cs s] Suc.prems(1) by simp
  have "bank_check rd wr vals run add cs n (?s, b') =
      (if bank_due rd run cs s n then map_option (Pair (settle cs s n ?s)) (add n b')
       else Some (settle cs s n ?s, b'))" for b'
    using Suc.prems rd settle_vals [of cs s "[0..<n]" s]
    by (cases "add n b'") (auto simp: bank_check_def bank_due_def bank_after_def settle_def arr_at_def)
  with Suc show ?case
    by (cases "for_each add (filter (bank_due rd run cs s) [0..<n]) b")
      (auto simp: for_each_append split: option.split)
qed simp

end

end
