(* ===== verification/Op_7450.thy ===== *)
theory Op_7450
  imports Counter_Bank
begin

text \<open>
  \<^verbatim>\<open>powerpc/op_model_7450.c\<close>: the six counters of Freescale 745x and 744x processors, which run
  32-bit kernels.
\<close>

section \<open>State\<close>

datatype spr32 =
    G4_MMCR0 | G4_MMCR1 | G4_MMCR2 | G4_SIAR | G4_PMC1 | G4_PMC2 | G4_PMC3 | G4_PMC4 | G4_PMC5 | G4_PMC6

text \<open>The registers of each CPU, and the variables of the file.\<close>

record g4_state =
  g4_spr :: "nat \<Rightarrow> spr32 \<Rightarrow> u32"
  g4_msr :: "nat \<Rightarrow> u32"
  g4_reset_value :: "u32 list"
  g4_running :: bool
  g4_mmcr0_val :: u32
  g4_mmcr1_val :: u32
  g4_mmcr2_val :: u32

text \<open>The bits of the registers from the kernel's headers, and \<^verbatim>\<open>is_kernel_addr\<close>.\<close>

record g4_platform =
  G4_FC :: u32
  G4_FCS :: u32
  G4_FCP :: u32
  G4_FCM1 :: u32
  G4_FCM0 :: u32
  G4_FCECE :: u32
  G4_PMC1CE :: u32
  G4_PMCnCE :: u32
  G4_PMXE :: u32
  G4_PMC1SEL :: u32
  G4_PMC2SEL :: u32
  G4_PMC3SEL :: u32
  G4_PMC4SEL :: u32
  G4_PMC5SEL :: u32
  G4_PMC6SEL :: u32
  G4_MSR_PMM :: u32
  g4_is_kernel_addr :: "u32 \<Rightarrow> bool"

definition mfspr32 :: "nat \<Rightarrow> spr32 \<Rightarrow> g4_state \<Rightarrow> u32" where
  "mfspr32 c r x = g4_spr x c r"

definition mtspr32 :: "nat \<Rightarrow> spr32 \<Rightarrow> u32 \<Rightarrow> g4_state \<Rightarrow> g4_state" where
  "mtspr32 c r v x = x\<lparr>g4_spr := (g4_spr x)(c := (g4_spr x c)(r := v))\<rparr>"

definition set_PMM32 :: "g4_platform \<Rightarrow> nat \<Rightarrow> g4_state \<Rightarrow> g4_state" where
  "set_PMM32 K c x = x\<lparr>g4_msr := (g4_msr x)(c := g4_msr x c OR G4_MSR_PMM K)\<rparr>"

text \<open>\<^verbatim>\<open>ctr_read\<close> and \<^verbatim>\<open>ctr_write\<close> of \<^verbatim>\<open>oprofile_impl.h\<close> on a 32-bit kernel\<close>

definition pmc32 :: "nat \<Rightarrow> spr32 option" where
  "pmc32 i = (if i = 0 then Some G4_PMC1 else if i = 1 then Some G4_PMC2 else if i = 2 then Some G4_PMC3
     else if i = 3 then Some G4_PMC4 else if i = 4 then Some G4_PMC5 else if i = 5 then Some G4_PMC6 else None)"

definition ctr_read32 :: "nat \<Rightarrow> nat \<Rightarrow> g4_state \<Rightarrow> u32" where
  "ctr_read32 c i x = (case pmc32 i of Some r \<Rightarrow> mfspr32 c r x | None \<Rightarrow> 0)"

definition ctr_write32 :: "nat \<Rightarrow> nat \<Rightarrow> u32 \<Rightarrow> g4_state \<Rightarrow> g4_state" where
  "ctr_write32 c i v x = (case pmc32 i of Some r \<Rightarrow> mtspr32 c r v x | None \<Rightarrow> x)"

section \<open>Operations\<close>

definition mmcr0_event1 :: "g4_platform \<Rightarrow> u32 \<Rightarrow> u32" where
  "mmcr0_event1 K ev = push_bit 6 ev AND G4_PMC1SEL K"

definition mmcr0_event2 :: "g4_platform \<Rightarrow> u32 \<Rightarrow> u32" where
  "mmcr0_event2 K ev = push_bit 0 ev AND G4_PMC2SEL K"

definition mmcr1_event3 :: "g4_platform \<Rightarrow> u32 \<Rightarrow> u32" where
  "mmcr1_event3 K ev = push_bit 27 ev AND G4_PMC3SEL K"

definition mmcr1_event4 :: "g4_platform \<Rightarrow> u32 \<Rightarrow> u32" where
  "mmcr1_event4 K ev = push_bit 22 ev AND G4_PMC4SEL K"

definition mmcr1_event5 :: "g4_platform \<Rightarrow> u32 \<Rightarrow> u32" where
  "mmcr1_event5 K ev = push_bit 17 ev AND G4_PMC5SEL K"

definition mmcr1_event6 :: "g4_platform \<Rightarrow> u32 \<Rightarrow> u32" where
  "mmcr1_event6 K ev = push_bit 11 ev AND G4_PMC6SEL K"

definition MMCR0_INIT :: "g4_platform \<Rightarrow> u32" where
  "MMCR0_INIT K = G4_FC K OR G4_FCS K OR G4_FCP K OR G4_FCM1 K OR G4_FCM0 K"

definition pmc_start_ctrs :: "g4_platform \<Rightarrow> nat \<Rightarrow> g4_state \<Rightarrow> g4_state" where
  "pmc_start_ctrs K c x =
     (let mmcr0 = mfspr32 c G4_MMCR0 x;
          mmcr0 = mmcr0 AND NOT (G4_FC K OR G4_FCM0 K);
          mmcr0 = mmcr0 OR (G4_FCECE K OR G4_PMC1CE K OR G4_PMCnCE K OR G4_PMXE K)
      in mtspr32 c G4_MMCR0 mmcr0 x)"

definition pmc_stop_ctrs :: "g4_platform \<Rightarrow> nat \<Rightarrow> g4_state \<Rightarrow> g4_state" where
  "pmc_stop_ctrs K c x =
     (let mmcr0 = mfspr32 c G4_MMCR0 x;
          mmcr0 = mmcr0 OR G4_FC K;
          mmcr0 = mmcr0 AND NOT (G4_FCECE K OR G4_PMC1CE K OR G4_PMCnCE K OR G4_PMXE K)
      in mtspr32 c G4_MMCR0 mmcr0 x)"

definition fsl7450_cpu_setup :: "g4_platform \<Rightarrow> nat \<Rightarrow> g4_state \<Rightarrow> g4_state" where
  "fsl7450_cpu_setup K c x =
     (let x = pmc_stop_ctrs K c x;
          x = mtspr32 c G4_MMCR0 (g4_mmcr0_val x) x;
          x = mtspr32 c G4_MMCR1 (g4_mmcr1_val x) x
      in mtspr32 c G4_MMCR2 (g4_mmcr2_val x) x)"

definition NUM_CTRS_7450 :: nat where "NUM_CTRS_7450 = 6"

definition fsl7450_reg_setup ::
  "g4_platform \<Rightarrow> op_counter_config32 list \<Rightarrow> op_system_config32 \<Rightarrow> g4_state \<Rightarrow> g4_state option" where
  "fsl7450_reg_setup K cs sys x =
     do { vs \<leftarrow> reset32 NUM_CTRS_7450 cs (g4_reset_value x);
          g0 \<leftarrow> arr_at cs 0;
          g1 \<leftarrow> arr_at cs 1;
          let m0 = MMCR0_INIT K OR mmcr0_event1 K (c32_event g0) OR mmcr0_event2 K (c32_event g1);
          let m0 = (if sys32_enable_kernel sys \<noteq> 0 then m0 AND NOT (G4_FCS K) else m0);
          let m0 = (if sys32_enable_user sys \<noteq> 0 then m0 AND NOT (G4_FCP K) else m0);
          g2 \<leftarrow> arr_at cs 2;
          g3 \<leftarrow> arr_at cs 3;
          g4 \<leftarrow> arr_at cs 4;
          g5 \<leftarrow> arr_at cs 5;
          let m1 = mmcr1_event3 K (c32_event g2) OR mmcr1_event4 K (c32_event g3)
                   OR mmcr1_event5 K (c32_event g4) OR mmcr1_event6 K (c32_event g5);
          Some (x\<lparr>g4_reset_value := vs, g4_mmcr0_val := m0, g4_mmcr1_val := m1, g4_mmcr2_val := 0\<rparr>) }"

definition fsl7450_start ::
  "g4_platform \<Rightarrow> op_counter_config32 list \<Rightarrow> nat \<Rightarrow> g4_state \<Rightarrow> g4_state option" where
  "fsl7450_start K cs c x =
     do { x \<leftarrow> for_each (\<lambda>i x.
                  do { g \<leftarrow> arr_at cs i;
                       if c32_enabled g \<noteq> 0
                       then do { v \<leftarrow> arr_at (g4_reset_value x) i; Some (ctr_write32 c i v x) }
                       else Some (ctr_write32 c i 0 x) }) [0..<NUM_CTRS_7450] (set_PMM32 K c x);
          Some ((pmc_start_ctrs K c x)\<lparr>g4_running := True\<rparr>) }"

definition fsl7450_stop :: "g4_platform \<Rightarrow> nat \<Rightarrow> g4_state \<Rightarrow> g4_state" where
  "fsl7450_stop K c x = (pmc_stop_ctrs K c x)\<lparr>g4_running := False\<rparr>"

text \<open>\<open>add pc i is_kernel\<close> is \<^verbatim>\<open>oprofile_add_ext_sample\<close> with the interrupted registers.\<close>

definition fsl7450_handle_interrupt ::
  "g4_platform \<Rightarrow> (u32 \<Rightarrow> nat \<Rightarrow> int \<Rightarrow> 'b \<Rightarrow> 'b option) \<Rightarrow> op_counter_config32 list \<Rightarrow> nat \<Rightarrow>
   g4_state \<times> 'b \<Rightarrow> (g4_state \<times> 'b) option" where
  "fsl7450_handle_interrupt K add cs c =
     (\<lambda>(x, b).
        do { let x = set_PMM32 K c x;
             let pc = mfspr32 c G4_SIAR x;
             let is_kernel = (if g4_is_kernel_addr K pc then 1 else 0);
             (x, b) \<leftarrow> for_each (\<lambda>i (x, b).
                 if ctr_read32 c i x <s 0 then
                   do { g \<leftarrow> arr_at cs i;
                        if g4_running x \<and> c32_enabled g \<noteq> 0
                        then do { b \<leftarrow> add pc i is_kernel b; v \<leftarrow> arr_at (g4_reset_value x) i;
                                  Some (ctr_write32 c i v x, b) }
                        else Some (ctr_write32 c i 0 x, b) }
                 else Some (x, b)) [0..<NUM_CTRS_7450] (x, b);
             Some (pmc_start_ctrs K c x, b) })"

section \<open>The counters as a bank\<close>

lemma pmc32_Some: "i < 6 \<Longrightarrow> \<exists>r. pmc32 i = Some r"
proof -
  assume "i < 6"
  then consider "i = 0" | "i = 1" | "i = 2" | "i = 3" | "i = 4" | "i = 5" by linarith
  then show ?thesis by cases (simp_all add: pmc32_def)
qed

lemma pmc32_inj: "pmc32 i = Some r \<Longrightarrow> pmc32 j = Some r \<Longrightarrow> i = j"
  by (simp add: pmc32_def split: if_splits)

interpretation g4: counter_bank "ctr_read32 c" "ctr_write32 c" g4_reset_value g4_running NUM_CTRS_7450 for c
proof (unfold_locales, goal_cases)
  case (1 i j v s)
  then obtain r q where "pmc32 i = Some r" "pmc32 j = Some q"
    using pmc32_Some unfolding NUM_CTRS_7450_def by metis
  with pmc32_inj [of i r j] show ?case
    by (auto simp: ctr_read32_def ctr_write32_def mfspr32_def mtspr32_def)
qed (simp_all add: ctr_write32_def mtspr32_def split: option.split)

lemma pmc32_not_control: "pmc32 i = Some r \<Longrightarrow> r \<noteq> G4_MMCR0 \<and> r \<noteq> G4_MMCR1 \<and> r \<noteq> G4_MMCR2 \<and> r \<noteq> G4_SIAR"
  by (auto simp: pmc32_def split: if_splits)

lemma ctr_read32_frame [simp]:
  "ctr_read32 c i (mtspr32 c G4_MMCR0 v x) = ctr_read32 c i x"
  "ctr_read32 c i (set_PMM32 K c' x) = ctr_read32 c i x"
  "ctr_read32 c i (pmc_start_ctrs K c x) = ctr_read32 c i x"
  using pmc32_not_control [of i]
  by (auto simp: ctr_read32_def mfspr32_def mtspr32_def set_PMM32_def pmc_start_ctrs_def Let_def split: option.split)

section \<open>Behaviour\<close>

text \<open>The array has its eight elements, and the six counters their configuration.\<close>

definition g4_wf :: "op_counter_config32 list \<Rightarrow> g4_state \<Rightarrow> bool" where
  "g4_wf cs x \<longleftrightarrow> length cs = 8 \<and> length (g4_reset_value x) = 8"

lemma set_PMM32_vars [simp]:
  "g4_reset_value (set_PMM32 K c x) = g4_reset_value x" "g4_running (set_PMM32 K c x) = g4_running x"
  "mfspr32 c r (set_PMM32 K c x) = mfspr32 c r x"
  by (simp_all add: set_PMM32_def mfspr32_def)

lemma fsl7450_loop:
  "fsl7450_handle_interrupt K add cs c (x, b) =
    map_option (\<lambda>(x, b). (pmc_start_ctrs K c x, b))
      (for_each (bank_check (ctr_read32 c) (ctr_write32 c) g4_reset_value g4_running
         (\<lambda>i. add (mfspr32 c G4_SIAR x) i (if g4_is_kernel_addr K (mfspr32 c G4_SIAR x) then 1 else 0)) cs)
        [0..<NUM_CTRS_7450] (set_PMM32 K c x, b))"
  by (simp add: fsl7450_handle_interrupt_def bank_check_def Let_def map_conv_bind_option case_prod_unfold
      comp_def cong: if_cong)

text \<open>Setup and start together, as the driver runs them on a CPU.\<close>

lemma fsl7450_setup_sets:
  assumes "g4_wf cs x" and "fsl7450_reg_setup K cs sys x = Some x'"
  shows "g4_wf cs x'" "g4_spr x' = g4_spr x" "g4_mmcr2_val x' = 0"
    "\<And>i. i < 6 \<Longrightarrow> g4_reset_value x' ! i = 0x80000000 - c32_count (cs ! i)"
    "sys32_enable_kernel sys \<noteq> 0 \<Longrightarrow> sys32_enable_user sys \<noteq> 0 \<Longrightarrow> g4_mmcr0_val x' =
       ((MMCR0_INIT K OR mmcr0_event1 K (c32_event (cs ! 0)) OR mmcr0_event2 K (c32_event (cs ! 1)))
         AND NOT (G4_FCS K)) AND NOT (G4_FCP K)"
    "g4_mmcr1_val x' = mmcr1_event3 K (c32_event (cs ! 2)) OR mmcr1_event4 K (c32_event (cs ! 3)) OR
       mmcr1_event5 K (c32_event (cs ! 4)) OR mmcr1_event6 K (c32_event (cs ! 5))"
  using assms
  by (auto simp: fsl7450_reg_setup_def g4_wf_def reset32_eq NUM_CTRS_7450_def arr_at_def Let_def nth_append split: if_splits)

lemma fsl7450_cpu_setup_loads:
  "mfspr32 c G4_MMCR0 (fsl7450_cpu_setup K c x) = g4_mmcr0_val x"
  "mfspr32 c G4_MMCR1 (fsl7450_cpu_setup K c x) = g4_mmcr1_val x"
  "mfspr32 c G4_MMCR2 (fsl7450_cpu_setup K c x) = g4_mmcr2_val x"
  "g4_reset_value (fsl7450_cpu_setup K c x) = g4_reset_value x"
  by (simp_all add: fsl7450_cpu_setup_def pmc_stop_ctrs_def mfspr32_def mtspr32_def Let_def)

lemma ctr_write32_vars [simp]:
  "g4_reset_value (ctr_write32 c i v x) = g4_reset_value x" "g4_running (ctr_write32 c i v x) = g4_running x"
  "mfspr32 c G4_MMCR0 (ctr_write32 c i v x) = mfspr32 c G4_MMCR0 x"
  "mfspr32 c G4_MMCR1 (ctr_write32 c i v x) = mfspr32 c G4_MMCR1 x"
  using pmc32_not_control [of i]
  by (auto simp: ctr_write32_def mtspr32_def mfspr32_def split: option.split)

lemma pmc_start_ctrs_control:
  "mfspr32 c G4_MMCR0 (pmc_start_ctrs K c x) = (mfspr32 c G4_MMCR0 x AND NOT (G4_FC K OR G4_FCM0 K)) OR
     (G4_FCECE K OR G4_PMC1CE K OR G4_PMCnCE K OR G4_PMXE K)"
  "mfspr32 c G4_MMCR1 (pmc_start_ctrs K c x) = mfspr32 c G4_MMCR1 x"
  by (simp_all add: pmc_start_ctrs_def mtspr32_def mfspr32_def Let_def)

lemma fsl7450_start_arms:
  assumes "g4_wf cs x"
  shows "\<exists>x'. fsl7450_start K cs c x = Some x' \<and> g4_running x' \<and>
    (\<forall>i < 6. ctr_read32 c i x' = (if c32_enabled (cs ! i) \<noteq> 0 then g4_reset_value x ! i else 0)) \<and>
    mfspr32 c G4_MMCR0 x' = (mfspr32 c G4_MMCR0 x AND NOT (G4_FC K OR G4_FCM0 K)) OR
      (G4_FCECE K OR G4_PMC1CE K OR G4_PMCnCE K OR G4_PMXE K) \<and>
    mfspr32 c G4_MMCR1 x' = mfspr32 c G4_MMCR1 x"
proof -
  let ?f = "\<lambda>i x. do { g \<leftarrow> arr_at cs i;
      if c32_enabled g \<noteq> 0 then do { v \<leftarrow> arr_at (g4_reset_value x) i; Some (ctr_write32 c i v x) }
      else Some (ctr_write32 c i 0 x) }"
  let ?I = "\<lambda>j x'. g4_reset_value x' = g4_reset_value x \<and> mfspr32 c G4_MMCR0 x' = mfspr32 c G4_MMCR0 x \<and>
    mfspr32 c G4_MMCR1 x' = mfspr32 c G4_MMCR1 x \<and>
    (\<forall>i < j. ctr_read32 c i x' = (if c32_enabled (cs ! i) \<noteq> 0 then g4_reset_value x ! i else 0))"
  have "\<exists>x'. for_each ?f [0..<NUM_CTRS_7450] (set_PMM32 K c x) = Some x' \<and> ?I NUM_CTRS_7450 x'"
  proof (rule for_each_upto)
    fix j x'
    assume j: "j < NUM_CTRS_7450" and I: "?I j x'"
    let ?v = "if c32_enabled (cs ! j) \<noteq> 0 then g4_reset_value x ! j else 0"
    have "?f j x' = Some (ctr_write32 c j ?v x')"
      using assms j I by (simp add: g4_wf_def NUM_CTRS_7450_def arr_at_def)
    moreover have "?I (Suc j) (ctr_write32 c j ?v x')"
      using I j by (simp add: g4.read_back less_Suc_eq)
    ultimately show "\<exists>s'. ?f j x' = Some s' \<and> ?I (Suc j) s'" by blast
  qed simp
  then obtain x' where x': "for_each ?f [0..<NUM_CTRS_7450] (set_PMM32 K c x) = Some x'"
    "?I NUM_CTRS_7450 x'" by blast
  then have "fsl7450_start K cs c x = Some ((pmc_start_ctrs K c x')\<lparr>g4_running := True\<rparr>)"
    by (simp add: fsl7450_start_def)
  moreover have "ctr_read32 c i (y\<lparr>g4_running := r\<rparr>) = ctr_read32 c i y"
    "mfspr32 c q (y\<lparr>g4_running := r\<rparr>) = mfspr32 c q y" for i q r y
    by (simp_all add: ctr_read32_def mfspr32_def cong: option.case_cong)
  ultimately show ?thesis
    using x'(2) by (simp add: pmc_start_ctrs_control NUM_CTRS_7450_def)
qed

text \<open>The interrupt of a 7450 logs one sample for each of its six counters that has overflowed, is
  enabled and belongs to a running profile, in their order and at the sampled address, and
  nothing else, and fails only if the log does; each of these starts again \<^verbatim>\<open>count\<close> below its
  overflow, any other that has overflowed is set to 0, the rest is left, and the counters are
  running with their interrupt enabled.\<close>

theorem fsl7450_interrupt_samples:
  assumes "g4_wf cs x" and "pc = mfspr32 c G4_SIAR x"
    and "is_kernel = (if g4_is_kernel_addr K pc then 1 else 0)"
  shows "\<exists>x'. fsl7450_handle_interrupt K add cs c (x, b) =
      map_option (Pair x') (for_each (\<lambda>i. add pc i is_kernel)
        (filter (bank_due (ctr_read32 c) g4_running cs x) [0..<6]) b) \<and>
    (\<forall>i < 6. ctr_read32 c i x' = bank_after (ctr_read32 c) g4_reset_value g4_running cs x i) \<and>
    mfspr32 c G4_MMCR0 x' = (mfspr32 c G4_MMCR0 x AND NOT (G4_FC K OR G4_FCM0 K)) OR
      (G4_FCECE K OR G4_PMC1CE K OR G4_PMCnCE K OR G4_PMXE K)"
proof -
  let ?x = "set_PMM32 K c x"
  let ?x1 = "fold (g4.settle c cs ?x) [0..<NUM_CTRS_7450] ?x"
  have same: "bank_due (ctr_read32 c) g4_running cs ?x = bank_due (ctr_read32 c) g4_running cs x"
    "bank_after (ctr_read32 c) g4_reset_value g4_running cs ?x =
      bank_after (ctr_read32 c) g4_reset_value g4_running cs x"
    by (simp_all add: fun_eq_iff bank_due_def bank_after_def)
  have "mfspr32 c G4_MMCR0 (fold (g4.settle c cs ?x) js y) = mfspr32 c G4_MMCR0 y" for js y
    by (induction js arbitrary: y) (simp_all add: g4.settle_def)
  then have ctl: "mfspr32 c G4_MMCR0 (pmc_start_ctrs K c ?x1) =
      (mfspr32 c G4_MMCR0 x AND NOT (G4_FC K OR G4_FCM0 K)) OR
      (G4_FCECE K OR G4_PMC1CE K OR G4_PMCnCE K OR G4_PMXE K)"
    by (simp add: pmc_start_ctrs_control)
  have len: "NUM_CTRS_7450 \<le> length cs" "NUM_CTRS_7450 \<le> length (g4_reset_value ?x)"
    using assms(1) by (simp_all add: g4_wf_def NUM_CTRS_7450_def)
  have reads: "\<forall>i < 6. ctr_read32 c i (pmc_start_ctrs K c ?x1) =
      bank_after (ctr_read32 c) g4_reset_value g4_running cs x i"
    using g4.settle_reads [of NUM_CTRS_7450 _ c cs ?x] by (simp add: same NUM_CTRS_7450_def)
  show ?thesis
    unfolding fsl7450_loop g4.loop_logs [OF order.refl len] same assms(2,3)
    using reads ctl
    by (intro exI [of _ "pmc_start_ctrs K c ?x1"])
      (simp add: option.map_comp comp_def NUM_CTRS_7450_def)
qed

end
