(* ===== verification/Op_Fsl_Booke.thy ===== *)
theory Op_Fsl_Booke
  imports Counter_Bank
begin

text \<open>
  \<^verbatim>\<open>powerpc/op_model_fsl_booke.c\<close>: the counters of Freescale Book-E processors. Their control
  registers are behind the functions of the kernel's \<^verbatim>\<open>asm/reg_booke.h\<close>, which are parameters here.
\<close>

section \<open>State\<close>

text \<open>
  \<open>be_pmc c i\<close> is the performance counter \<open>i\<close> of CPU \<open>c\<close>, and \<open>be_control c\<close> what its control
  registers hold, in a form that only the kernel's functions know.
\<close>

record 'p booke_state =
  be_pmc :: "nat \<Rightarrow> nat \<Rightarrow> u32"
  be_control :: "nat \<Rightarrow> 'p"
  be_msr :: "nat \<Rightarrow> u32"
  be_reset_value :: "u32 list"
  be_num_counters :: nat
  be_running :: bool

text \<open>
  The kernel's functions for the control registers, each on the CPU it runs on, and its other
  constants. \<open>nip\<close> is the address in the interrupted registers.
\<close>

record ('p, 'r) booke_kernel =
  be_init_pmc_stop :: "nat \<Rightarrow> 'p \<Rightarrow> 'p"
  be_set_pmc_event :: "nat \<Rightarrow> u32 \<Rightarrow> 'p \<Rightarrow> 'p"
  be_set_pmc_user_kernel :: "nat \<Rightarrow> u32 \<Rightarrow> u32 \<Rightarrow> 'p \<Rightarrow> 'p"
  be_set_pmc_marked :: "nat \<Rightarrow> int \<Rightarrow> int \<Rightarrow> 'p \<Rightarrow> 'p"
  be_pmc_start_ctr :: "nat \<Rightarrow> int \<Rightarrow> 'p \<Rightarrow> 'p"
  be_pmc_start_ctrs :: "int \<Rightarrow> 'p \<Rightarrow> 'p"
  be_pmc_stop_ctrs :: "'p \<Rightarrow> 'p"
  be_MSR_PMM :: u32
  be_is_kernel_addr :: "u32 \<Rightarrow> bool"
  nip :: "'r \<Rightarrow> u32"

definition on_control :: "nat \<Rightarrow> ('p \<Rightarrow> 'p) \<Rightarrow> 'p booke_state \<Rightarrow> 'p booke_state" where
  "on_control c f x = x\<lparr>be_control := (be_control x)(c := f (be_control x c))\<rparr>"

definition be_set_PMM :: "('p, 'r) booke_kernel \<Rightarrow> nat \<Rightarrow> 'p booke_state \<Rightarrow> 'p booke_state" where
  "be_set_PMM K c x = x\<lparr>be_msr := (be_msr x)(c := be_msr x c OR be_MSR_PMM K)\<rparr>"

definition be_ctr_read :: "nat \<Rightarrow> nat \<Rightarrow> 'p booke_state \<Rightarrow> u32" where
  "be_ctr_read c i x = (if i < 4 then be_pmc x c i else 0)"

definition be_ctr_write :: "nat \<Rightarrow> nat \<Rightarrow> u32 \<Rightarrow> 'p booke_state \<Rightarrow> 'p booke_state" where
  "be_ctr_write c i v x =
     (if i < 4 then x\<lparr>be_pmc := (be_pmc x)(c := (be_pmc x c)(i := v))\<rparr> else x)"

section \<open>Operations\<close>

text \<open>The setup runs on the CPU \<open>c\<close> of the process that opens the buffer file.\<close>

definition fsl_booke_reg_setup ::
  "('p, 'r) booke_kernel \<Rightarrow> op_counter_config32 list \<Rightarrow> op_system_config32 \<Rightarrow> nat \<Rightarrow> nat \<Rightarrow>
   'p booke_state \<Rightarrow> 'p booke_state option" where
  "fsl_booke_reg_setup K cs sys num_ctrs c x =
     do { let x = x\<lparr>be_num_counters := num_ctrs\<rparr>;
          let x = on_control c (be_pmc_stop_ctrs K) x;
          for_each (\<lambda>i x.
              do { g \<leftarrow> arr_at cs i;
                   vs \<leftarrow> arr_put i (0x80000000 - c32_count g) (be_reset_value x);
                   let x = x\<lparr>be_reset_value := vs\<rparr>;
                   let x = on_control c (be_init_pmc_stop K i) x;
                   let x = on_control c (be_set_pmc_event K i (c32_event g)) x;
                   Some (on_control c (be_set_pmc_user_kernel K i (c32_user g) (c32_kernel g)) x) })
            [0..<be_num_counters x] x }"

definition fsl_booke_start ::
  "('p, 'r) booke_kernel \<Rightarrow> op_counter_config32 list \<Rightarrow> nat \<Rightarrow> 'p booke_state \<Rightarrow> 'p booke_state option" where
  "fsl_booke_start K cs c x =
     do { let x = be_set_PMM K c x;
          x \<leftarrow> for_each (\<lambda>i x.
                  do { g \<leftarrow> arr_at cs i;
                       if c32_enabled g \<noteq> 0
                       then do { v \<leftarrow> arr_at (be_reset_value x) i;
                                 let x = be_ctr_write c i v x;
                                 let x = on_control c (be_set_pmc_marked K i 1 0) x;
                                 Some (on_control c (be_pmc_start_ctr K i 1) x) }
                       else Some (on_control c (be_pmc_start_ctr K i 0) (be_ctr_write c i 0 x)) })
                [0..<be_num_counters x] x;
          let x = on_control c (be_pmc_start_ctrs K 1) x;
          Some (x\<lparr>be_running := True\<rparr>) }"

definition fsl_booke_stop :: "('p, 'r) booke_kernel \<Rightarrow> nat \<Rightarrow> 'p booke_state \<Rightarrow> 'p booke_state" where
  "fsl_booke_stop K c x = (on_control c (be_pmc_stop_ctrs K) x)\<lparr>be_running := False\<rparr>"

text \<open>\<open>add pc i is_kernel\<close> is \<^verbatim>\<open>oprofile_add_ext_sample\<close> with the interrupted registers.\<close>

definition fsl_booke_handle_interrupt ::
  "('p, 'r) booke_kernel \<Rightarrow> (u32 \<Rightarrow> nat \<Rightarrow> int \<Rightarrow> 'b \<Rightarrow> 'b option) \<Rightarrow> 'r \<Rightarrow> op_counter_config32 list \<Rightarrow>
   nat \<Rightarrow> 'p booke_state \<times> 'b \<Rightarrow> ('p booke_state \<times> 'b) option" where
  "fsl_booke_handle_interrupt K add regs cs c =
     (\<lambda>(x, b).
        do { let x = be_set_PMM K c x;
             let pc = nip K regs;
             let is_kernel = (if be_is_kernel_addr K pc then 1 else 0);
             (x, b) \<leftarrow> for_each (\<lambda>i (x, b).
                 if be_ctr_read c i x <s 0 then
                   do { g \<leftarrow> arr_at cs i;
                        if be_running x \<and> c32_enabled g \<noteq> 0
                        then do { b \<leftarrow> add pc i is_kernel b; v \<leftarrow> arr_at (be_reset_value x) i;
                                  Some (be_ctr_write c i v x, b) }
                        else Some (be_ctr_write c i 0 x, b) }
                 else Some (x, b)) [0..<be_num_counters x] (x, b);
             Some (on_control c (be_pmc_start_ctrs K 1) x, b) })"

section \<open>The counters as a bank\<close>

interpretation booke: counter_bank "be_ctr_read c" "be_ctr_write c" be_reset_value be_running 4 for c
  by unfold_locales (auto simp: be_ctr_read_def be_ctr_write_def)

lemma on_control_vars [simp]:
  "be_ctr_read c i (on_control c' f x) = be_ctr_read c i x" "be_reset_value (on_control c' f x) = be_reset_value x"
  "be_running (on_control c' f x) = be_running x" "be_num_counters (on_control c' f x) = be_num_counters x"
  "be_msr (on_control c' f x) = be_msr x"
  by (simp_all add: on_control_def be_ctr_read_def)

lemma be_set_PMM_vars [simp]:
  "be_ctr_read c i (be_set_PMM K c' x) = be_ctr_read c i x" "be_reset_value (be_set_PMM K c' x) = be_reset_value x"
  "be_running (be_set_PMM K c' x) = be_running x" "be_num_counters (be_set_PMM K c' x) = be_num_counters x"
  "be_control (be_set_PMM K c' x) = be_control x"
  by (simp_all add: be_set_PMM_def be_ctr_read_def)

section \<open>Behaviour\<close>

lemma fsl_booke_loop:
  "fsl_booke_handle_interrupt K add regs cs c (x, b) =
    map_option (\<lambda>(x, b). (on_control c (be_pmc_start_ctrs K 1) x, b))
      (for_each (bank_check (be_ctr_read c) (be_ctr_write c) be_reset_value be_running
         (\<lambda>i. add (nip K regs) i (if be_is_kernel_addr K (nip K regs) then 1 else 0)) cs)
        [0..<be_num_counters x] (be_set_PMM K c x, b))"
  by (simp add: fsl_booke_handle_interrupt_def bank_check_def Let_def map_conv_bind_option case_prod_unfold
      comp_def cong: if_cong)

text \<open>
  The interrupt logs the counters that are due, for up to four counters, which all processors
  of this family have at least.
\<close>

lemma fsl_booke_interrupt_samples:
  assumes "n = be_num_counters x" and "n \<le> 4" and "n \<le> length cs" and "n \<le> length (be_reset_value x)"
    and "pc = nip K regs" and "is_kernel = (if be_is_kernel_addr K pc then 1 else 0)"
  shows "\<exists>x'. fsl_booke_handle_interrupt K add regs cs c (x, b) =
      map_option (Pair x') (for_each (\<lambda>i. add pc i is_kernel)
        (filter (bank_due (be_ctr_read c) be_running cs x) [0..<n]) b) \<and>
    (\<forall>i < n. be_ctr_read c i x' = bank_after (be_ctr_read c) be_reset_value be_running cs x i)"
proof -
  let ?x = "be_set_PMM K c x"
  let ?x1 = "fold (booke.settle c cs ?x) [0..<n] ?x"
  have same: "bank_due (be_ctr_read c) be_running cs ?x = bank_due (be_ctr_read c) be_running cs x"
    "bank_after (be_ctr_read c) be_reset_value be_running cs ?x =
      bank_after (be_ctr_read c) be_reset_value be_running cs x"
    by (simp_all add: fun_eq_iff bank_due_def bank_after_def)
  have len: "n \<le> length (be_reset_value ?x)" using assms(4) by simp
  have "\<forall>i < n. be_ctr_read c i ?x1 = bank_after (be_ctr_read c) be_reset_value be_running cs x i"
    using booke.settle_reads [OF assms(2), of _ c cs ?x] assms(2) by (simp add: same)
  then show ?thesis
    unfolding fsl_booke_loop assms(1) [symmetric] booke.loop_logs [OF assms(2,3) len] same assms(5,6)
    by (intro exI [of _ "on_control c (be_pmc_start_ctrs K 1) ?x1"]) (simp add: option.map_comp comp_def)
qed

text \<open>
  The setup programs the control registers of the CPU it runs on only; with no \<^verbatim>\<open>cpu_setup\<close> in
  the structure, nothing programs those of the others.
\<close>

lemma fsl_booke_setup_one_cpu:
  assumes "fsl_booke_reg_setup K cs sys n c x = Some x'" and "c' \<noteq> c"
  shows "be_control x' c' = be_control x c'"
proof -
  have "be_control s' c' = be_control s c'"
    if "for_each (\<lambda>i x.
              do { g \<leftarrow> arr_at cs i;
                   vs \<leftarrow> arr_put i (0x80000000 - c32_count g) (be_reset_value x);
                   let x = x\<lparr>be_reset_value := vs\<rparr>;
                   let x = on_control c (be_init_pmc_stop K i) x;
                   let x = on_control c (be_set_pmc_event K i (c32_event g)) x;
                   Some (on_control c (be_set_pmc_user_kernel K i (c32_user g) (c32_kernel g)) x) }) js s = Some s'"
    for js s s'
    using that assms(2)
    by (induction js arbitrary: s) (auto simp: on_control_def Let_def split: option.splits Option.bind_splits)
  from this [of "[0..<n]" "on_control c (be_pmc_stop_ctrs K) (x\<lparr>be_num_counters := n\<rparr>)" x'] assms
  show ?thesis by (simp add: fsl_booke_reg_setup_def Let_def on_control_def)
qed

end
