(* ===== verification/Nmi_Timer.thy ===== *)
theory Nmi_Timer
  imports Timer_Hook Poll_Idle
begin

text \<open>
  \<^verbatim>\<open>x86/nmi_timer_int_3.3.0.c\<close>: sampling from non-maskable interrupts that the kernel's perf
  events raise once per clock tick, one event per CPU. The events are objects that the kernel
  allocates: the model keeps them in an explicit store, in which using a released event is a
  fault, so that leaks and uses after the release can be stated.
\<close>

section \<open>State\<close>

record perf_event =
  pe_cpu :: nat
  pe_enabled :: bool
  pe_released :: bool

text \<open>
  \<open>perf_events\<close> are the events ever created, in this order; \<open>nmi_timer_events\<close> are the
  pointers of the driver, indices into that list. \<open>nmi_timer_nb\<close> tells whether
  \<^verbatim>\<open>nmi_timer_cpu_nb\<close> is registered, \<open>sample_period\<close> is the field of \<^verbatim>\<open>nmi_timer_attr\<close> that is
  filled in at run time, \<open>nt_running\<close> is \<^verbatim>\<open>ctr_running\<close>, \<open>nt_poll\<close> the state of idle polling.
\<close>

record nmi_timer_state =
  nmi_timer_events :: "nat \<Rightarrow> nat option"
  nt_running :: bool
  sample_period :: u64
  nmi_timer_nb :: bool
  perf_events :: "perf_event list"
  nt_poll :: poll_state

record nmi_timer_kstate = kstate +
  nmi_timer :: nmi_timer_state

text \<open>
  What the kernel provides: the result of \<^verbatim>\<open>perf_event_create_kernel_counter\<close>, which may depend
  on the CPU and on how many events there were before, the result of \<^verbatim>\<open>register_cpu_notifier\<close>,
  the CPUs, \<^verbatim>\<open>cpu_khz\<close> and \<^verbatim>\<open>HZ\<close>.
\<close>

record nmi_timer_env =
  create_result :: "nat \<Rightarrow> nat \<Rightarrow> rc"
  register_nb :: rc
  nt_online :: "nat list"
  nt_possible :: "nat list"
  cpu_khz :: u32
  HZ :: u32

section \<open>Events\<close>

definition with_event ::
  "nat \<Rightarrow> (perf_event \<Rightarrow> perf_event) \<Rightarrow> nmi_timer_state \<Rightarrow> nmi_timer_state option" where
  "with_event i f n =
     (if i < length (perf_events n) \<and> \<not> pe_released (perf_events n ! i)
      then Some (n\<lparr>perf_events := (perf_events n)[i := f (perf_events n ! i)]\<rparr>) else None)"

definition perf_event_enable :: "nat \<Rightarrow> nmi_timer_state \<Rightarrow> nmi_timer_state option" where
  "perf_event_enable i = with_event i (\<lambda>e. e\<lparr>pe_enabled := True\<rparr>)"

definition perf_event_disable :: "nat \<Rightarrow> nmi_timer_state \<Rightarrow> nmi_timer_state option" where
  "perf_event_disable i = with_event i (\<lambda>e. e\<lparr>pe_enabled := False\<rparr>)"

definition perf_event_release_kernel :: "nat \<Rightarrow> nmi_timer_state \<Rightarrow> nmi_timer_state option" where
  "perf_event_release_kernel i = with_event i (\<lambda>e. e\<lparr>pe_released := True\<rparr>)"

section \<open>Operations of \<^verbatim>\<open>nmi_timer_int_3.3.0.c\<close>\<close>

text \<open>The callback on CPU \<open>c\<close>; that it resets the kernel's throttling count has no effect here.\<close>

definition nmi_timer_callback ::
  "'r sampler \<Rightarrow> nat \<Rightarrow> 'r tick \<Rightarrow> 'h kstate_scheme \<Rightarrow> 'h kstate_scheme option" where
  "nmi_timer_callback sp c t k = on_cpu c (take_sample sp (irq_task t) (irq_regs t) 0) k"

definition nmi_timer_start_cpu ::
  "nmi_timer_env \<Rightarrow> nat \<Rightarrow> nmi_timer_state \<Rightarrow> (rc \<times> nmi_timer_state) option" where
  "nmi_timer_start_cpu T c n =
     do { let (err, n) =
            (if nmi_timer_events n c = None then
               let err = create_result T c (length (perf_events n))
               in if err \<noteq> rc_ok then (err, n)
                  else (rc_ok, n\<lparr>perf_events := perf_events n @
                                   [\<lparr>pe_cpu = c, pe_enabled = False, pe_released = False\<rparr>],
                                 nmi_timer_events := (nmi_timer_events n)(c \<mapsto> length (perf_events n))\<rparr>)
             else (rc_ok, n));
          if err \<noteq> rc_ok then Some (err, n)
          else case nmi_timer_events n c of
                 Some e \<Rightarrow>
                   if nt_running n then do { n \<leftarrow> perf_event_enable e n; Some (rc_ok, n) }
                   else Some (rc_ok, n)
               | None \<Rightarrow> Some (rc_ok, n) }"

definition nmi_timer_stop_cpu :: "nat \<Rightarrow> nmi_timer_state \<Rightarrow> nmi_timer_state option" where
  "nmi_timer_stop_cpu c n =
     (case nmi_timer_events n c of
        Some e \<Rightarrow> if nt_running n then perf_event_disable e n else Some n
      | None \<Rightarrow> Some n)"

text \<open>The notifications of the CPU hotplug code that the file tells apart.\<close>

datatype nt_action = NT_DOWN_FAILED | NT_ONLINE | NT_DOWN_PREPARE | NT_OTHER

definition nmi_timer_cpu_notifier ::
  "nmi_timer_env \<Rightarrow> nt_action \<Rightarrow> nat \<Rightarrow> nmi_timer_state \<Rightarrow> nmi_timer_state option" where
  "nmi_timer_cpu_notifier T action c n =
     (case action of
        NT_DOWN_FAILED \<Rightarrow> map_option snd (nmi_timer_start_cpu T c n)
      | NT_ONLINE \<Rightarrow> map_option snd (nmi_timer_start_cpu T c n)
      | NT_DOWN_PREPARE \<Rightarrow> nmi_timer_stop_cpu c n
      | NT_OTHER \<Rightarrow> Some n)"

definition nmi_timer_start ::
  "nmi_timer_env \<Rightarrow> nmi_timer_state \<Rightarrow> (rc \<times> nmi_timer_state) option" where
  "nmi_timer_start T n =
     do { let n = (if poll_idle_enabled (nt_poll n) \<noteq> 0
                   then n\<lparr>nt_poll := enable_poll_idle (nt_poll n)\<rparr> else n);
          n \<leftarrow> for_each (\<lambda>c n. map_option snd (nmi_timer_start_cpu T c n)) (nt_online T)
                 (n\<lparr>nt_running := True\<rparr>);
          Some (rc_ok, n) }"

definition nmi_timer_stop :: "nmi_timer_env \<Rightarrow> nmi_timer_state \<Rightarrow> nmi_timer_state option" where
  "nmi_timer_stop T n =
     do { n \<leftarrow> for_each nmi_timer_stop_cpu (nt_online T) n;
          let n = n\<lparr>nt_running := False\<rparr>;
          Some (n\<lparr>nt_poll := disable_poll_idle (nt_poll n)\<rparr>) }"

definition release_event :: "nat \<Rightarrow> nmi_timer_state \<Rightarrow> nmi_timer_state option" where
  "release_event c n =
     (case nmi_timer_events n c of
        None \<Rightarrow> Some n
      | Some e \<Rightarrow>
          do { n \<leftarrow> perf_event_disable e n;
               perf_event_release_kernel e
                 (n\<lparr>nmi_timer_events := (nmi_timer_events n)(c := None)\<rparr>) })"

definition nmi_timer_shutdown :: "nmi_timer_env \<Rightarrow> nmi_timer_state \<Rightarrow> nmi_timer_state option" where
  "nmi_timer_shutdown T n = for_each release_event (nt_possible T) (n\<lparr>nmi_timer_nb := False\<rparr>)"

text \<open>The loop of \<^verbatim>\<open>nmi_timer_setup\<close>, with its \<^verbatim>\<open>break\<close>.\<close>

fun start_cpus ::
  "nmi_timer_env \<Rightarrow> nat list \<Rightarrow> nmi_timer_state \<Rightarrow> (rc \<times> nmi_timer_state) option" where
  "start_cpus T [] n = Some (rc_ok, n)"
| "start_cpus T (c # cs) n =
     do { (err, n) \<leftarrow> nmi_timer_start_cpu T c n;
          if err \<noteq> rc_ok then Some (err, n) else start_cpus T cs n }"

definition nmi_timer_setup ::
  "nmi_timer_env \<Rightarrow> nmi_timer_state \<Rightarrow> (rc \<times> nmi_timer_state) option" where
  "nmi_timer_setup T n =
     do { let period = (ucast (cpu_khz T) :: u64) * 1000;
          let n = n\<lparr>sample_period := period div ucast (HZ T)\<rparr>;
          if register_nb T \<noteq> rc_ok then Some (register_nb T, n)
          else do { (err, n) \<leftarrow> start_cpus T (nt_online T) (n\<lparr>nmi_timer_nb := True\<rparr>);
                    if err \<noteq> rc_ok then do { n \<leftarrow> nmi_timer_shutdown T n; Some (err, n) }
                    else Some (rc_ok, n) } }"

text \<open>The operations act on the part of the kernel's state that belongs to this file.\<close>

definition nt_rc ::
  "(nmi_timer_state \<Rightarrow> (rc \<times> nmi_timer_state) option) \<Rightarrow> 'h nmi_timer_kstate_scheme \<Rightarrow>
   (rc \<times> 'h nmi_timer_kstate_scheme) option" where
  "nt_rc f k = map_option (\<lambda>(r, n). (r, k\<lparr>nmi_timer := n\<rparr>)) (f (nmi_timer k))"

definition nt_void ::
  "(nmi_timer_state \<Rightarrow> nmi_timer_state option) \<Rightarrow> 'h nmi_timer_kstate_scheme \<Rightarrow>
   'h nmi_timer_kstate_scheme option" where
  "nt_void f k = map_option (\<lambda>n. k\<lparr>nmi_timer := n\<rparr>) (f (nmi_timer k))"

definition op_nmi_timer_init ::
  "nmi_timer_env \<Rightarrow> ('h nmi_timer_kstate_scheme, 'r) oprofile_operations \<Rightarrow>
   'h nmi_timer_kstate_scheme \<Rightarrow>
   (rc \<times> ('h nmi_timer_kstate_scheme, 'r) oprofile_operations \<times> 'h nmi_timer_kstate_scheme) option"
where
  "op_nmi_timer_init T ops k =
     do { (err, k) \<leftarrow> nt_rc (nmi_timer_setup T) k;
          if err \<noteq> rc_ok then Some (err, ops, k)
          else do { k \<leftarrow> nt_void (nmi_timer_shutdown T) k;
                    Some (rc_ok, ops\<lparr>op_create_files := None,
                                     op_setup := Some (nt_rc (nmi_timer_setup T)),
                                     op_shutdown := Some (nt_void (nmi_timer_shutdown T)),
                                     op_start := Some (nt_rc (nmi_timer_start T)),
                                     op_stop := Some (nt_void (nmi_timer_stop T)),
                                     op_cpu_type := Some ''timer''\<rparr>, k) } }"

section \<open>The driver's pointers and the kernel's events\<close>

text \<open>The driver points exactly at the events that are not released, each from the CPU it counts on.\<close>

definition nt_ok :: "nmi_timer_env \<Rightarrow> nmi_timer_state \<Rightarrow> bool" where
  "nt_ok T n \<longleftrightarrow>
     (\<forall>c i. nmi_timer_events n c = Some i \<longrightarrow> c \<in> set (nt_possible T) \<and> i < length (perf_events n) \<and>
        \<not> pe_released (perf_events n ! i) \<and> pe_cpu (perf_events n ! i) = c) \<and>
     (\<forall>i < length (perf_events n). \<not> pe_released (perf_events n ! i) \<longrightarrow>
        nmi_timer_events n (pe_cpu (perf_events n ! i)) = Some i)"

definition no_live_event :: "nmi_timer_state \<Rightarrow> bool" where
  "no_live_event n \<longleftrightarrow> (\<forall>e \<in> set (perf_events n). pe_released e)"

definition nt_idle :: "nmi_timer_env \<Rightarrow> nmi_timer_state \<Rightarrow> bool" where
  "nt_idle T n \<longleftrightarrow> nt_ok T n \<and> (\<forall>c. nmi_timer_events n c = None)"

definition nt_cpus :: "nmi_timer_env \<Rightarrow> bool" where
  "nt_cpus T \<longleftrightarrow> set (nt_online T) \<subseteq> set (nt_possible T)"

lemma nt_ok_fields [simp]:
  "nt_ok T (n\<lparr>nt_running := r\<rparr>) = nt_ok T n" "nt_ok T (n\<lparr>nt_poll := p\<rparr>) = nt_ok T n"
  "nt_ok T (n\<lparr>nmi_timer_nb := b\<rparr>) = nt_ok T n" "nt_ok T (n\<lparr>sample_period := v\<rparr>) = nt_ok T n"
  "nt_idle T (n\<lparr>sample_period := v\<rparr>) = nt_idle T n"
  by (simp_all add: nt_ok_def nt_idle_def)

lemma nt_idle_no_live: "nt_idle T n \<Longrightarrow> no_live_event n"
  by (fastforce simp: nt_idle_def nt_ok_def no_live_event_def in_set_conv_nth)

lemma with_event_ok:
  assumes "nt_ok T n" and "nmi_timer_events n c = Some i"
    and "\<And>e. pe_cpu (f e) = pe_cpu e \<and> pe_released (f e) = pe_released e"
  shows "\<exists>n'. with_event i f n = Some n' \<and> nt_ok T n' \<and>
    nmi_timer_events n' = nmi_timer_events n \<and> nmi_timer_nb n' = nmi_timer_nb n \<and>
    nt_running n' = nt_running n \<and> nt_poll n' = nt_poll n"
proof -
  let ?n = "n\<lparr>perf_events := (perf_events n)[i := f (perf_events n ! i)]\<rparr>"
  have "i < length (perf_events n)" "\<not> pe_released (perf_events n ! i)"
    using assms(1,2) by (auto simp: nt_ok_def)
  moreover have "nt_ok T ?n"
    using assms by (simp add: nt_ok_def nth_list_update)
  ultimately show ?thesis by (simp add: with_event_def)
qed

lemmas enable_event_ok =
  with_event_ok [where f = "\<lambda>e. e\<lparr>pe_enabled := True\<rparr>", simplified, folded perf_event_enable_def]

lemmas disable_event_ok =
  with_event_ok [where f = "\<lambda>e. e\<lparr>pe_enabled := False\<rparr>", simplified, folded perf_event_disable_def]

lemma create_event_ok:
  assumes "nt_ok T n" and "c \<in> set (nt_possible T)" and "nmi_timer_events n c = None"
  shows "nt_ok T (n\<lparr>perf_events := perf_events n @
      [\<lparr>pe_cpu = c, pe_enabled = False, pe_released = False\<rparr>],
    nmi_timer_events := (nmi_timer_events n)(c \<mapsto> length (perf_events n))\<rparr>)"
proof -
  have "pe_cpu (perf_events n ! i) \<noteq> c"
    if "i < length (perf_events n)" "\<not> pe_released (perf_events n ! i)" for i
    using assms(1,3) that unfolding nt_ok_def by (metis option.distinct(1))
  with assms show ?thesis by (fastforce simp: nt_ok_def nth_append less_Suc_eq)
qed

lemma start_cpu_ok:
  assumes "nt_ok T n" and "c \<in> set (nt_possible T)"
  shows "\<exists>r n'. nmi_timer_start_cpu T c n = Some (r, n') \<and> nt_ok T n' \<and>
    nmi_timer_nb n' = nmi_timer_nb n \<and> nt_running n' = nt_running n \<and> nt_poll n' = nt_poll n \<and>
    (r = rc_ok \<longrightarrow> nmi_timer_events n' c \<noteq> None) \<and>
    (\<forall>c'. nmi_timer_events n c' \<noteq> None \<longrightarrow> nmi_timer_events n' c' \<noteq> None)"
proof (cases "nmi_timer_events n c")
  case (Some e)
  with assms enable_event_ok [OF assms(1) Some] show ?thesis
    by (cases "nt_running n") (auto simp: nmi_timer_start_cpu_def)
next
  case None
  show ?thesis
  proof (cases "create_result T c (length (perf_events n)) = rc_ok")
    case False
    with None assms(1) show ?thesis by (auto simp: nmi_timer_start_cpu_def Let_def)
  next
    case True
    let ?n = "n\<lparr>perf_events := perf_events n @
        [\<lparr>pe_cpu = c, pe_enabled = False, pe_released = False\<rparr>],
      nmi_timer_events := (nmi_timer_events n)(c \<mapsto> length (perf_events n))\<rparr>"
    have "nt_ok T ?n" using assms None by (rule create_event_ok)
    with enable_event_ok [OF this, of c] True None show ?thesis
      by (cases "nt_running n") (auto simp: nmi_timer_start_cpu_def Let_def)
  qed
qed

lemma stop_cpu_ok:
  assumes "nt_ok T n"
  shows "\<exists>n'. nmi_timer_stop_cpu c n = Some n' \<and> nt_ok T n' \<and>
    nmi_timer_events n' = nmi_timer_events n \<and> nmi_timer_nb n' = nmi_timer_nb n \<and>
    nt_running n' = nt_running n"
  using disable_event_ok [OF assms, of c] assms
  by (cases "nmi_timer_events n c"; cases "nt_running n") (auto simp: nmi_timer_stop_cpu_def)

lemma release_event_ok:
  assumes "nt_ok T n"
  shows "\<exists>n'. release_event c n = Some n' \<and> nt_ok T n' \<and> nmi_timer_nb n' = nmi_timer_nb n \<and>
    nmi_timer_events n' = (nmi_timer_events n)(c := None)"
proof (cases "nmi_timer_events n c")
  case None
  with assms show ?thesis by (auto simp: release_event_def fun_upd_idem)
next
  case (Some i)
  from disable_event_ok [OF assms Some] obtain n1 where n1: "perf_event_disable i n = Some n1"
    "nt_ok T n1" "nmi_timer_events n1 = nmi_timer_events n" "nmi_timer_nb n1 = nmi_timer_nb n" by blast
  then have i: "i < length (perf_events n1)" "\<not> pe_released (perf_events n1 ! i)"
    "pe_cpu (perf_events n1 ! i) = c" using Some by (auto simp: nt_ok_def)
  let ?n = "n1\<lparr>nmi_timer_events := (nmi_timer_events n1)(c := None),
    perf_events := (perf_events n1)[i := (perf_events n1 ! i)\<lparr>pe_released := True\<rparr>]\<rparr>"
  have ptr: "nmi_timer_events n1 c = Some i" using n1(3) Some by simp
  have other: "i' \<noteq> i" if "nmi_timer_events n1 c' = Some i'" "c' \<noteq> c" for c' i'
    using n1(2) that i(3) unfolding nt_ok_def by blast
  have "nt_ok T ?n"
    unfolding nt_ok_def
  proof (intro conjI allI impI)
    fix c' i'
    assume "nmi_timer_events ?n c' = Some i'"
    then have "nmi_timer_events n1 c' = Some i'" "c' \<noteq> c" by (auto split: if_splits)
    with other [OF this] n1(2) show "c' \<in> set (nt_possible T)" "i' < length (perf_events ?n)"
      "\<not> pe_released (perf_events ?n ! i')" "pe_cpu (perf_events ?n ! i') = c'"
      by (simp_all add: nt_ok_def)
  next
    fix i'
    assume "i' < length (perf_events ?n)" "\<not> pe_released (perf_events ?n ! i')"
    then have "i' < length (perf_events n1)" "\<not> pe_released (perf_events n1 ! i')" "i' \<noteq> i"
      by (cases "i' = i"; simp)+
    with n1(2) ptr show "nmi_timer_events ?n (pe_cpu (perf_events ?n ! i')) = Some i'"
      by (auto simp: nt_ok_def)
  qed
  with n1 i Some show ?thesis
    by (simp add: release_event_def perf_event_release_kernel_def with_event_def)
qed

lemma release_all_ok:
  assumes "nt_ok T n"
  shows "\<exists>n'. for_each release_event cs n = Some n' \<and> nt_ok T n' \<and>
    nmi_timer_nb n' = nmi_timer_nb n \<and>
    (\<forall>c. nmi_timer_events n' c = (if c \<in> set cs then None else nmi_timer_events n c))"
  using assms
proof (induction cs arbitrary: n)
  case (Cons c cs)
  from release_event_ok [OF Cons.prems, of c] obtain n1 where n1: "release_event c n = Some n1"
    "nt_ok T n1" "nmi_timer_nb n1 = nmi_timer_nb n"
    "nmi_timer_events n1 = (nmi_timer_events n)(c := None)" by blast
  from Cons.IH [OF n1(2)] n1 show ?case by auto
qed simp

lemma shutdown_ok:
  assumes "nt_ok T n"
  shows "\<exists>n'. nmi_timer_shutdown T n = Some n' \<and> nt_idle T n' \<and> \<not> nmi_timer_nb n'"
proof -
  from release_all_ok [of T "n\<lparr>nmi_timer_nb := False\<rparr>" "nt_possible T"] assms obtain n' where n':
    "nmi_timer_shutdown T n = Some n'" "nt_ok T n'" "\<not> nmi_timer_nb n'"
    "\<forall>c. nmi_timer_events n' c = (if c \<in> set (nt_possible T) then None else nmi_timer_events n c)"
    by (auto simp: nmi_timer_shutdown_def)
  have "nmi_timer_events n' c = None" for c
    using n'(4) assms by (cases "nmi_timer_events n c") (auto simp: nt_ok_def)
  with n' show ?thesis by (simp add: nt_idle_def)
qed

lemma start_cpus_ok:
  assumes "nt_ok T n" and "set cs \<subseteq> set (nt_possible T)"
  shows "\<exists>r n'. start_cpus T cs n = Some (r, n') \<and> nt_ok T n' \<and> nmi_timer_nb n' = nmi_timer_nb n \<and>
    (r = rc_ok \<longrightarrow> (\<forall>c \<in> set cs. nmi_timer_events n' c \<noteq> None)) \<and>
    (\<forall>c. nmi_timer_events n c \<noteq> None \<longrightarrow> nmi_timer_events n' c \<noteq> None)"
  using assms
proof (induction cs arbitrary: n)
  case (Cons c cs)
  then have "c \<in> set (nt_possible T)" by simp
  from start_cpu_ok [OF Cons.prems(1) this] obtain r n1 where n1:
    "nmi_timer_start_cpu T c n = Some (r, n1)" "nt_ok T n1" "nmi_timer_nb n1 = nmi_timer_nb n"
    "r = rc_ok \<longrightarrow> nmi_timer_events n1 c \<noteq> None"
    "\<forall>c'. nmi_timer_events n c' \<noteq> None \<longrightarrow> nmi_timer_events n1 c' \<noteq> None" by blast
  show ?case
  proof (cases "r = rc_ok")
    case True
    from Cons.IH [OF n1(2)] Cons.prems(2) obtain r' n' where n': "start_cpus T cs n1 = Some (r', n')"
      "nt_ok T n'" "nmi_timer_nb n' = nmi_timer_nb n1"
      "r' = rc_ok \<longrightarrow> (\<forall>c \<in> set cs. nmi_timer_events n' c \<noteq> None)"
      "\<forall>c. nmi_timer_events n1 c \<noteq> None \<longrightarrow> nmi_timer_events n' c \<noteq> None" by auto
    with n1 True show ?thesis by (intro exI [of _ r'] exI [of _ n']) auto
  qed (use n1 in simp)
qed simp

lemma nt_setup_ok:
  assumes "nt_idle T n" and "nt_cpus T"
  shows "\<exists>r n'. nmi_timer_setup T n = Some (r, n') \<and>
    (if r = rc_ok then nt_ok T n' \<and> nmi_timer_nb n' \<and>
       (\<forall>c \<in> set (nt_online T). nmi_timer_events n' c \<noteq> None)
     else nt_idle T n' \<and> (\<not> nmi_timer_nb n \<longrightarrow> \<not> nmi_timer_nb n'))"
proof (cases "register_nb T = rc_ok")
  case False
  with assms show ?thesis by (simp add: nmi_timer_setup_def Let_def)
next
  case True
  let ?n = "n\<lparr>sample_period := (ucast (cpu_khz T) * 1000) div ucast (HZ T), nmi_timer_nb := True\<rparr>"
  have "nt_ok T ?n" "set (nt_online T) \<subseteq> set (nt_possible T)"
    using assms by (simp_all add: nt_idle_def nt_cpus_def)
  from start_cpus_ok [OF this] obtain r n1 where n1: "start_cpus T (nt_online T) ?n = Some (r, n1)"
    "nt_ok T n1" "nmi_timer_nb n1" "r = rc_ok \<longrightarrow> (\<forall>c \<in> set (nt_online T). nmi_timer_events n1 c \<noteq> None)"
    by auto
  with True shutdown_ok [OF n1(2)] show ?thesis
    by (cases "r = rc_ok") (auto simp: nmi_timer_setup_def Let_def)
qed

lemma start_cpus_ignoring:
  assumes "nt_ok T n" and "set cs \<subseteq> set (nt_possible T)"
  shows "\<exists>n'. for_each (\<lambda>c n. map_option snd (nmi_timer_start_cpu T c n)) cs n = Some n' \<and> nt_ok T n' \<and>
    nmi_timer_nb n' = nmi_timer_nb n"
proof (rule for_each_invariant [where I = "\<lambda>n'. nt_ok T n' \<and> nmi_timer_nb n' = nmi_timer_nb n"])
  fix c n'
  assume "c \<in> set cs" "nt_ok T n' \<and> nmi_timer_nb n' = nmi_timer_nb n"
  with start_cpu_ok [of T n' c] assms(2) show
    "\<exists>s'. map_option snd (nmi_timer_start_cpu T c n') = Some s' \<and> nt_ok T s' \<and> nmi_timer_nb s' = nmi_timer_nb n"
    by fastforce
qed (use assms(1) in simp)

lemma nt_start_ok:
  assumes "nt_ok T n" and "nt_cpus T"
  shows "\<exists>n'. nmi_timer_start T n = Some (rc_ok, n') \<and> nt_ok T n' \<and> nmi_timer_nb n' = nmi_timer_nb n"
proof -
  let ?n = "(if poll_idle_enabled (nt_poll n) \<noteq> 0
      then n\<lparr>nt_poll := enable_poll_idle (nt_poll n)\<rparr> else n)\<lparr>nt_running := True\<rparr>"
  have "nt_ok T ?n" "nmi_timer_nb ?n = nmi_timer_nb n" using assms(1) by simp_all
  with start_cpus_ignoring [of T ?n "nt_online T"] assms(2) show ?thesis
    by (auto simp: nmi_timer_start_def nt_cpus_def Let_def)
qed

lemma nt_stop_ok:
  assumes "nt_ok T n"
  shows "\<exists>n'. nmi_timer_stop T n = Some n' \<and> nt_ok T n' \<and> nmi_timer_nb n' = nmi_timer_nb n"
proof -
  have "\<exists>n'. for_each nmi_timer_stop_cpu (nt_online T) n = Some n' \<and>
      nt_ok T n' \<and> nmi_timer_nb n' = nmi_timer_nb n"
    by (rule for_each_invariant [where I = "\<lambda>n'. nt_ok T n' \<and> nmi_timer_nb n' = nmi_timer_nb n"])
      (use assms stop_cpu_ok in \<open>fastforce+\<close>)
  then show ?thesis by (auto simp: nmi_timer_stop_def)
qed

section \<open>As a back end\<close>

definition nt_of :: "'h nmi_timer_kstate_ext \<Rightarrow> nmi_timer_state" where
  "nt_of h = nmi_timer (kstate.extend undefined h)"

lemma nt_of [simp]: "nt_of (kstate.more k) = nmi_timer k"
  by (cases k) (simp add: nt_of_def kstate.defs)

text \<open>The structure that \<^verbatim>\<open>op_nmi_timer_init\<close> fills in.\<close>

abbreviation nmi_timer_operations ::
  "nmi_timer_env \<Rightarrow> ('h nmi_timer_kstate_scheme, 'r) oprofile_operations" where
  "nmi_timer_operations T \<equiv> no_operations\<lparr>op_create_files := None,
     op_setup := Some (nt_rc (nmi_timer_setup T)), op_shutdown := Some (nt_void (nmi_timer_shutdown T)),
     op_start := Some (nt_rc (nmi_timer_start T)), op_stop := Some (nt_void (nmi_timer_stop T)),
     op_cpu_type := Some ''timer''\<rparr>"

lemma nt_keeps [simp]:
  "buffers_ok possible k \<Longrightarrow> kernel_keeps possible k (k\<lparr>nmi_timer := n\<rparr>)"
  by (simp add: kernel_keeps_def buffers_ok_def)

lemma nmi_timer_backend:
  assumes "nt_cpus T"
  shows "backend env (\<lambda>h. nt_idle T (nt_of h)) (\<lambda>h. nt_ok T (nt_of h)) (nmi_timer_operations T)"
proof (unfold_locales, goal_cases)
  case (1 f k)
  with nt_setup_ok [OF _ assms, of "nmi_timer k"] show ?case by (auto simp: nt_rc_def split: if_splits)
next
  case (3 k)
  with nt_start_ok [OF _ assms, of "nmi_timer k"] show ?case by (auto simp: nt_rc_def call_rc_def)
next
  case (4 k)
  with nt_stop_ok [of T "nmi_timer k"] show ?case by (auto simp: nt_void_def call_void_def)
next
  case (6 k)
  with shutdown_ok [of T "nmi_timer k"] show ?case by (auto simp: nt_void_def call_optional_def)
qed (simp_all add: no_operations_def nt_idle_def)

section \<open>Properties\<close>

text \<open>Setting up the NMI timer is all or nothing: on success every online CPU has its event and
  hotplug notifications arrive; when the registration or the creation of any event fails, the
  result is that error, every event created so far has been released, no pointer to one is
  left, and no notification arrives.\<close>

theorem nmi_timer_setup_all_or_nothing:
  assumes "nt_idle T n" and "nt_cpus T" and "\<not> nmi_timer_nb n"
  shows "\<exists>r n'. nmi_timer_setup T n = Some (r, n') \<and>
    (if r = rc_ok then nmi_timer_nb n' \<and>
       (\<forall>c \<in> set (nt_online T). \<exists>i e. nmi_timer_events n' c = Some i \<and> i < length (perf_events n') \<and>
          e = perf_events n' ! i \<and> pe_cpu e = c \<and> \<not> pe_released e)
     else no_live_event n' \<and> (\<forall>c. nmi_timer_events n' c = None) \<and> \<not> nmi_timer_nb n')"
proof -
  from nt_setup_ok [OF assms(1,2)] obtain r n' where n': "nmi_timer_setup T n = Some (r, n')"
    "if r = rc_ok then nt_ok T n' \<and> nmi_timer_nb n' \<and>
       (\<forall>c \<in> set (nt_online T). nmi_timer_events n' c \<noteq> None)
     else nt_idle T n' \<and> \<not> nmi_timer_nb n'" using assms(3) by auto
  show ?thesis
  proof (cases "r = rc_ok")
    case True
    have "\<exists>i. nmi_timer_events n' c = Some i \<and> i < length (perf_events n') \<and>
        pe_cpu (perf_events n' ! i) = c \<and> \<not> pe_released (perf_events n' ! i)"
      if "c \<in> set (nt_online T)" for c
      using n'(2) True that by (fastforce simp: nt_ok_def)
    with n' True show ?thesis by auto
  next
    case False
    with n' show ?thesis by (auto simp: nt_idle_no_live nt_idle_def)
  qed
qed

text \<open>What may happen between the setup and the shutdown.\<close>

datatype nt_op = Nt_start | Nt_stop | Nt_notify nt_action nat

fun run_nt :: "nmi_timer_env \<Rightarrow> nt_op \<Rightarrow> nmi_timer_state \<Rightarrow> nmi_timer_state option" where
  "run_nt T Nt_start n = map_option snd (nmi_timer_start T n)"
| "run_nt T Nt_stop n = nmi_timer_stop T n"
| "run_nt T (Nt_notify action c) n = nmi_timer_cpu_notifier T action c n"

lemma run_nt_ok:
  assumes "nt_ok T n" and "nt_cpus T" and "\<forall>a c. op = Nt_notify a c \<longrightarrow> c \<in> set (nt_possible T)"
  shows "\<exists>n'. run_nt T op n = Some n' \<and> nt_ok T n'"
proof (cases op)
  case Nt_start
  with nt_start_ok [OF assms(1,2)] show ?thesis by auto
next
  case Nt_stop
  with nt_stop_ok [OF assms(1)] show ?thesis by auto
next
  case (Nt_notify a c)
  with assms start_cpu_ok [of T n c] stop_cpu_ok [of T n c] show ?thesis
    by (cases a) (auto simp: nmi_timer_cpu_notifier_def)
qed

text \<open>C17: no event is used after its release and none is leaked: whatever starts, stops and hotplug
  notifications follow a setup, and whichever event creations fail on the way, all of them
  run, and the shutdown ends with every event that was ever created released and no pointer
  to one left.\<close>

theorem nmi_timer_no_leak:
  assumes "nt_idle T n" and "nt_cpus T" and "nmi_timer_setup T n = Some (rc_ok, n1)"
    and "\<forall>a c. Nt_notify a c \<in> set ops \<longrightarrow> c \<in> set (nt_possible T)"
  shows "\<exists>n2 n3. for_each (run_nt T) ops n1 = Some n2 \<and> nmi_timer_shutdown T n2 = Some n3 \<and>
    no_live_event n3 \<and> (\<forall>c. nmi_timer_events n3 c = None) \<and> \<not> nmi_timer_nb n3"
proof -
  have "nt_ok T n1" using nt_setup_ok [OF assms(1,2)] assms(3) by auto
  then have "\<exists>n2. for_each (run_nt T) ops n1 = Some n2 \<and> nt_ok T n2"
  proof (rule for_each_invariant)
    fix op n'
    assume op: "op \<in> set ops" and n': "nt_ok T n'"
    from op assms(4) have "\<forall>a c. op = Nt_notify a c \<longrightarrow> c \<in> set (nt_possible T)" by blast
    with n' assms(2) show "\<exists>n2. run_nt T op n' = Some n2 \<and> nt_ok T n2" by (rule run_nt_ok)
  qed
  then obtain n2 where "for_each (run_nt T) ops n1 = Some n2" "nt_ok T n2" by blast
  with shutdown_ok [of T n2] show ?thesis by (auto simp: nt_idle_no_live nt_idle_def)
qed

text \<open>The initialisation only checks that the events can be had: it leaves none behind, and offers
  the operations exactly if the check succeeds.\<close>

lemma op_nmi_timer_init_checks:
  assumes "nt_idle T (nmi_timer k)" and "nt_cpus T"
  shows "\<exists>r ops' n'. op_nmi_timer_init T no_operations k = Some (r, ops', k\<lparr>nmi_timer := n'\<rparr>) \<and>
    nt_idle T n' \<and> ops' = (if r = rc_ok then nmi_timer_operations T else no_operations)"
proof -
  from nt_setup_ok [OF assms] obtain r n1 where n1: "nmi_timer_setup T (nmi_timer k) = Some (r, n1)"
    "if r = rc_ok then nt_ok T n1 else nt_idle T n1" by (auto split: if_splits)
  show ?thesis
  proof (cases "r = rc_ok")
    case True
    with n1 have "nt_ok T n1" by simp
    with shutdown_ok [of T n1] n1 True show ?thesis
      by (auto simp: op_nmi_timer_init_def nt_rc_def nt_void_def)
  qed (use n1 in \<open>auto simp: op_nmi_timer_init_def nt_rc_def\<close>)
qed

end
