(* ===== verification/Ppc_Witnesses.thy ===== *)
theory Ppc_Witnesses
  imports Ppc_Lifecycle Rs64_Behaviour Op_7450 Op_Fsl_Booke Nmi_Timer Nmi_Watchdog Witnesses
begin

text \<open>
  Instances of the theorems about the PowerPC back end and the NMI timer: a machine with one
  CPU, on a kernel that gives what it is asked for, with the bits of the registers as Linux
  defines them.
\<close>

section \<open>NMI timer\<close>

definition ex_nt :: nmi_timer_state where
  "ex_nt = \<lparr>nmi_timer_events = \<lambda>_. None, nt_running = False, sample_period = 0, nmi_timer_nb = False,
     perf_events = [],
     nt_poll = \<lparr>poll_idle_enabled = 0, pm_idle = Some (kernel_idle 0), pm_idle_p = False,
       pm_idle_save = None, uninstall_handler = False, install_handler = False, cpuidle_installed = True\<rparr>\<rparr>"

text \<open>Two CPUs; the event of the second can be had in \<open>ex_nt_env\<close> and not in \<open>ex_nt_short\<close>.\<close>

definition ex_nt_env :: nmi_timer_env where
  "ex_nt_env = \<lparr>create_result = \<lambda>_ _. rc_ok, register_nb = rc_ok, nt_online = [0, 1], nt_possible = [0, 1],
     cpu_khz = 2000000, HZ = 1000\<rparr>"

definition ex_nt_short :: nmi_timer_env where
  "ex_nt_short = ex_nt_env\<lparr>create_result := \<lambda>c _. if c = 0 then rc_ok else Inl ENODEV\<rparr>"

lemma ex_nt: "nt_idle T ex_nt" "nt_cpus ex_nt_env" "nt_cpus ex_nt_short" "\<not> nmi_timer_nb ex_nt"
  by (simp_all add: nt_idle_def nt_ok_def no_live_event_def ex_nt_def nt_cpus_def ex_nt_env_def ex_nt_short_def)

theorem nmi_timer_setup_all_or_nothing_witness:
  "\<exists>n'. nmi_timer_setup ex_nt_short ex_nt = Some (Inl ENODEV, n') \<and> length (perf_events n') = 1 \<and>
    no_live_event n'"
proof -
  obtain n' where n': "nmi_timer_setup ex_nt_short ex_nt = Some (Inl ENODEV, n')" "length (perf_events n') = 1"
    by (simp add: nmi_timer_setup_def ex_nt_short_def ex_nt_env_def ex_nt_def nmi_timer_start_cpu_def
        nmi_timer_shutdown_def release_event_def perf_event_disable_def perf_event_release_kernel_def
        with_event_def Let_def)
  with nmi_timer_setup_all_or_nothing [OF ex_nt(1,3,4)] show ?thesis by auto
qed

theorem nmi_timer_no_leak_witness:
  "\<exists>n1 n2 n3. nmi_timer_setup ex_nt_env ex_nt = Some (rc_ok, n1) \<and>
    for_each (run_nt ex_nt_env) [Nt_start, Nt_notify NT_DOWN_PREPARE 1, Nt_stop] n1 = Some n2 \<and>
    nmi_timer_shutdown ex_nt_env n2 = Some n3 \<and> no_live_event n3"
proof -
  obtain n1 where n1: "nmi_timer_setup ex_nt_env ex_nt = Some (rc_ok, n1)"
    by (simp add: nmi_timer_setup_def ex_nt_env_def ex_nt_def nmi_timer_start_cpu_def Let_def)
  have "\<forall>a c. Nt_notify a c \<in> set [Nt_start, Nt_notify NT_DOWN_PREPARE 1, Nt_stop] \<longrightarrow>
      c \<in> set (nt_possible ex_nt_env)" by (simp add: ex_nt_env_def)
  from nmi_timer_no_leak [OF ex_nt(1,2) n1 this] n1 show ?thesis by blast
qed

section \<open>The time base\<close>

text \<open>A clock whose upper half changes between the first two instructions.\<close>

theorem get_tb_atomic_witness:
  "oprofile_get_tb_ppc (\<lambda>n. of_nat (min n 100) + 0xFFFFFFFF) 0 \<noteq> None"
proof -
  have "unat (of_nat (min n 100) + 0xFFFFFFFF :: u64) = min n 100 + 0xFFFFFFFF" for n :: nat
  proof -
    have "unat (of_nat (min n 100) :: u64) = min n 100" by (simp add: unat_of_nat)
    then show ?thesis by (simp add: unat_word_ariths)
  qed
  then have "mono (\<lambda>n. unat (of_nat (min n 100) + 0xFFFFFFFF :: u64))" by (simp add: mono_def min_le_iff_disj)
  from get_tb_atomic [OF this, of 0]
  show ?thesis by auto
qed

section \<open>A machine\<close>

definition ex_ppc_platform :: ppc_platform where
  "ex_ppc_platform =
     \<lparr>MMCR0_FC = 0x80000000, MMCR0_FCM1 = 0x10000000, MMCR0_PMXE = 0x04000000, MMCR0_FCECE = 0x02000000,
      MMCR0_PMC1CE = 0x8000, MMCR0_PMCjCE = 0x4000, MMCR0_PMAO = 0x80, MMCR0_KERNEL_DISABLE = 0x40000000,
      MMCR0_PROBLEM_DISABLE = 0x20000000, MMCRA_SAMPLE_ENABLE = 1, MSR_PMM = 4, num_pmcs = 8,
      oprofile_mmcra_sihv = 0, oprofile_mmcra_sipr = 0, has_mmcra = True, processor_version = PV_970,
      firmware_lpar = False, rtas_area = None, is_kernel_addr = \<lambda>a. 0xC000000000000000 \<le> a,
      va = \<lambda>a. a OR 0xC000000000000000, hypervisor_bucket = 1, rtas_bucket = 2, kernel_unknown_bucket = 3,
      enable_pmcs = \<lambda>r. r\<rparr>"

text \<open>Counter 0 counts cycles (event 15), every 100 000 of them; the others are not in use.\<close>

definition ex_ctr :: "op_counter_config_ppc list" where
  "ex_ctr = \<lparr>pc_valid = 0, pc_enabled = 1, pc_event = 15, pc_count = 100000, pc_kernel = 0, pc_user = 0,
      pc_unit_mask = 0\<rparr> #
     replicate 7 \<lparr>pc_valid = 0, pc_enabled = 0, pc_event = 0, pc_count = 0, pc_kernel = 0, pc_user = 0,
      pc_unit_mask = 0\<rparr>"

definition ex_ppc :: ppc_state where
  "ex_ppc = \<lparr>spr = \<lambda>_ _. 0, ppc_msr = \<lambda>_. 0, pmc_reserved = False, ppc_model = None, ppc_ctr = ex_ctr,
     ppc_sys = \<lparr>sys_mmcr0 = 0, sys_mmcr1 = 0, sys_mmcra = 0, enable_kernel = 1, enable_user = 1,
       backtrace_spinlocks = 0\<rparr>,
     ppc_cpu_khz = 0, power4_reset_value = replicate 8 0, power4_start_timestamp = \<lambda>_. 0,
     power4_running = False, mmcr0_val = 0, mmcr1_val = 0, mmcra_val = 0, rs64_reset_value = replicate 8 0,
     rs64_num_counters = 0\<rparr>"

lemma ex_ppc_wf: "ppc_wf ex_ppc_platform ex_ppc" "ppc_idle ex_ppc_platform ex_ppc"
  by (simp_all add: ppc_wf_def ppc_idle_def ex_ppc_platform_def ex_ppc_def ex_ctr_def OP_MAX_COUNTER_ppc_def)

section \<open>POWER4\<close>

theorem power4_setup_reads_back_witness:
  "\<exists>x'. power4_reg_setup ex_ppc_platform ex_ctr (ppc_sys ex_ppc) ex_ppc = Some x' \<and>
    drop_bit 8 (ucast (mmcr0_val x') AND PMCSEL ! 0) = 15 \<and> power4_reset_value x' ! 0 = 0x80000000 - 100000"
proof -
  have c: "ppc_ctr ex_ppc = ex_ctr" by (simp add: ex_ppc_def)
  obtain x' where x': "power4_reg_setup ex_ppc_platform (ppc_ctr ex_ppc) (ppc_sys ex_ppc) ex_ppc = Some x'"
    using power4_setup_keeps [OF ex_ppc_wf(1)] by blast
  have d: "\<forall>i < 2. MMCR0_KERNEL_DISABLE ex_ppc_platform AND ucast (PMCSEL ! i) = 0 \<and>
      MMCR0_PROBLEM_DISABLE ex_ppc_platform AND ucast (PMCSEL ! i) = 0"
    by (simp add: ex_ppc_platform_def PMCSEL_def less_2_cases_iff all_conj_distrib)
  have "0 < num_pmcs ex_ppc_platform" by (simp add: ex_ppc_platform_def)
  with power4_setup_reads_back [OF ex_ppc_wf(1) x' d refl]
  have "drop_bit (PMC_SHIFT ! 0) (ucast (mmcr0_val x') AND PMCSEL ! 0) = ctr_event (ppc_ctr ex_ppc ! 0) \<and>
      power4_reset_value x' ! 0 = 0x80000000 - pc_count (ppc_ctr ex_ppc ! 0)" by fastforce
  with x' show ?thesis by (simp add: c ex_ctr_def PMC_SHIFT_def ctr_event_def)
qed

text \<open>Counter 0 has overflowed in a session that is running.\<close>

definition ex_ppc_kernel :: "oprofile_cpu_buffer \<Rightarrow> ppc_state \<Rightarrow> unit ppc_kstate_scheme" where
  "ex_ppc_kernel b x = timer_kstate.extend (ex_kernel b) (ppc_kstate.fields x)"

lemma ex_ppc_kernel [simp]: "cpu_buffer (ex_ppc_kernel b x) i = b" "evb (ex_ppc_kernel b x) = ex_evb"
  "work_enabled (ex_ppc_kernel b x)" "ppc (ex_ppc_kernel b x) = x" "marked_cpus (ex_ppc_kernel b x) = {}"
  by (simp_all add: ex_ppc_kernel_def ex_kernel_def timer_kstate.defs ppc_kstate.defs)

definition ex_overflow :: ppc_state where
  "ex_overflow = ex_ppc\<lparr>power4_running := True, spr := (\<lambda>_ r. if r = SPRN_PMC1 then 0x80000001 else 0),
     power4_reset_value := replicate 8 0x7FFE7960\<rparr>"

theorem power4_interrupt_samples_witness:
  "\<exists>k'. power4_handle_interrupt ex_ppc_platform ex_sampler 0 ex_tick ex_ctr (ex_ppc_kernel ex_ring ex_overflow) =
      Some k' \<and> ctr_read 0 0 (ppc k') = 0x7FFE7960 \<and> power4_start_timestamp (ppc k') 0 = 21"
proof -
  let ?k = "ex_ppc_kernel ex_ring ex_overflow"
  have 1: "ppc_wf ex_ppc_platform (ppc ?k)" using ex_ppc_wf(1) by (simp add: ppc_wf_def ex_overflow_def OP_MAX_COUNTER_ppc_def)
  have 2: "ring_ok (cpu_buffer ?k 0)" using ex_ring by simp
  have 3: "sampler_ok ex_sampler" by (simp add: sampler_ok_def)
  have c: "ppc_ctr ex_overflow = ex_ctr" by (simp add: ex_overflow_def ex_ppc_def)
  have "(0x80000001 :: u32) <s 0" by code_simp
  then have "due 0 ex_overflow 0"
    by (simp add: due_def ex_overflow_def ex_ppc_def ex_ctr_def ctr_read_def pmc_def mfspr_def)
  then have "ctr_after 0 (ppc ?k) 0 = 0x7FFE7960" by (simp add: ctr_after_def ex_overflow_def)
  moreover have "0 < num_pmcs ex_ppc_platform" by (simp add: ex_ppc_platform_def)
  ultimately show ?thesis
    using power4_interrupt_samples [OF 1 2 3 _ refl refl, where t = ex_tick] by (auto simp: c)
qed

section \<open>RS64\<close>


section \<open>The back chain\<close>

text \<open>A kernel stack with frames at 64, 128 and 192, called from addresses of the kernel but one.\<close>

definition ex_chain :: "unit ppc_stack" where
  "ex_chain = \<lparr>ppc_user_mode = \<lambda>_. False, gpr1 = \<lambda>_. 64, link_register = \<lambda>_. 0,
     validate_sp = \<lambda>sp. sp = 64 \<or> sp = 128 \<or> sp = 192,
     kernel_stack = \<lambda>sp. Some (if sp = 192 then 0 else sp + 64, sp + 0x1000),
     kernel_addr = \<lambda>a. a \<noteq> 0x1040, tif_32bit = False, access_ok_ppc = \<lambda>_ _. False,
     user_stack64 = \<lambda>_. None, user_stack32 = \<lambda>_. None\<rparr>"

lemma ex_chain: "ppc_stack_mapped ex_chain" "ppc_return_addresses ex_chain () 5 = [0x1080, 0x10C0]"
proof -
  have "(5 :: nat) = Suc (Suc (Suc (Suc (Suc 0))))" by simp
  then show "ppc_return_addresses ex_chain () 5 = [0x1080, 0x10C0]"
    by (simp only:) (simp add: ex_chain_def ppc_return_addresses_def kernel_chain_def)
qed (simp add: ppc_stack_mapped_def ex_chain_def)

theorem powerpc_backtrace_refines_witness:
  "op_powerpc_backtrace ex_chain (Some ()) 4 ex_ring = for_each oprofile_add_trace [0x1080, 0x10C0] ex_ring"
proof -
  have "unat ((4 :: u32) + 1) = 5" by simp
  with powerpc_backtrace_refines [where E = ex_chain and r = "()" and depth = 4 and b = ex_ring] ex_chain
  show ?thesis by (simp del: for_each.simps)
qed

section \<open>The whole driver\<close>

definition ex_build :: "unit ppc_build" where
  "ex_build = \<lparr>platform = ex_ppc_platform, spec_cpu_type = Some ''ppc64/970'',
     spec_oprofile_type = PPC_OPROFILE_POWER4, clock_frequency = Some 2000000000,
     hw = \<lparr>reserve_result = rc_ok, add_start_tb = \<lambda>_. 5, model_start_tb = \<lambda>_. 6, add_stop_tb = \<lambda>_. 9\<rparr>,
     backtrace_callback = op_powerpc_backtrace ex_chain\<rparr>"

lemma ex_build: "ppc_build_ok ex_build" "platform ex_build = ex_ppc_platform"
  by (simp_all add: ppc_build_ok_def ex_build_def)

definition ex_ppc_module :: "(unit, unit) ppc_driver" where
  "ex_ppc_module =
     \<lparr>kern = (ex_ppc_kernel (ex_ring\<lparr>buffer := None\<rparr>) ex_ppc)\<lparr>evb := ex_evb\<lparr>event_buffer := None, buffer_opened := False\<rparr>\<rparr>,
      oprofile_ops = no_operations, arch_ops = no_operations, timer_ops = no_operations,
      oprofile_started = False, is_setup = False, oprofile_backtrace_depth = 0,
      oprofile_adapt_value = 1, oprofile_buffer_size = 131072, oprofile_cpu_buffer_size = 8192,
      oprofile_buffer_watershed = 32768, oprofile_cpu_type = ''null'', oprofile_num_counters = 0,
      rrprofile_debug = 0\<rparr>"

lemma ex_ppc_module: "fresh_driver ex_ppc_module" "ppc_idle (platform ex_build) (ppc (kern ex_ppc_module))"
proof -
  show "fresh_driver ex_ppc_module"
    using ex_ring by (simp add: fresh_driver_def ex_ppc_module_def no_work_def ex_evb_def sizes_ok_def)
  have "ppc (kern ex_ppc_module) = ex_ppc" by (simp add: ex_ppc_module_def)
  then show "ppc_idle (platform ex_build) (ppc (kern ex_ppc_module))" using ex_ppc_wf ex_build by simp
qed

lemma ex_ppc_init:
  "\<exists>d0. oprofile_init (oprofile_timer_init rc_ok (online_cpus ex_env) (\<lambda>_. 5))
      (oprofile_arch_init_ppc ex_build (online_cpus ex_env)) rc_ok ex_ppc_module = Some (rc_ok, d0) \<and>
    ppc_model (ppc (kern d0)) = Some op_model_power4 \<and> op_cpu_type (arch_ops d0) = Some ''ppc64/970''"
proof -
  let ?ops = "ppc_operations ex_build ex_env op_model_power4 ''ppc64/970'' ::
    (unit ppc_kstate_scheme, unit) oprofile_operations"
  have a: "oprofile_arch_init_ppc ex_build (online_cpus ex_env) no_operations (kern ex_ppc_module) =
      Some (rc_ok, ?ops, (kern ex_ppc_module)
        \<lparr>ppc := (ppc (kern ex_ppc_module))\<lparr>ppc_model := Some op_model_power4, ppc_cpu_khz := 2000000\<rparr>\<rparr>)"
    by (simp add: oprofile_arch_init_ppc_def choose_powerpc_model_def ex_build_def)
  have "op_cpu_type ?ops = Some ''ppc64/970''" by (simp add: powerpc_operations_def)
  with init_with_arch [where timer_init = "oprofile_timer_init rc_ok (online_cpus ex_env) (\<lambda>_. 5)" and fs = rc_ok
      and arch_init = "oprofile_arch_init_ppc ex_build (online_cpus ex_env)", OF a this] show ?thesis by (simp add: ex_ppc_module_def)
qed

text \<open>The buffer file is opened, which sets the counters up.\<close>

lemma ex_ppc_opened:
  "\<exists>d0 r d1. oprofile_init (oprofile_timer_init rc_ok (online_cpus ex_env) (\<lambda>_. 5))
      (oprofile_arch_init_ppc ex_build (online_cpus ex_env)) rc_ok ex_ppc_module = Some (rc_ok, d0) \<and>
    ppc_model (ppc (kern d0)) = Some op_model_power4 \<and> op_cpu_type (arch_ops d0) \<noteq> None \<and>
    event_buffer_open ex_env True d0 = Some (r, d1) \<and> ppc_reach ex_build ex_env op_model_power4 d0 d1"
proof -
  from ex_ppc_init obtain d0 where d0: "oprofile_init (oprofile_timer_init rc_ok (online_cpus ex_env) (\<lambda>_. 5))
      (oprofile_arch_init_ppc ex_build (online_cpus ex_env)) rc_ok ex_ppc_module = Some (rc_ok, d0)"
    "ppc_model (ppc (kern d0)) = Some op_model_power4" "op_cpu_type (arch_ops d0) = Some ''ppc64/970''" by blast
  from ppc_module_init [OF d0(1) ex_ppc_module(1) ex_build(1) ex_env(1) ex_ppc_module(2)] d0(3)
  have "ppc_inv (platform ex_build) ex_env d0" by auto
  from open_inv [OF this ex_env(1)] obtain r d1 where
    "event_buffer_open ex_env True d0 = Some (r, d1)" by blast
  with d0 ppc_reach.further [OF ppc_reach.initial ppc_step.driver [OF driver_step.open_file [OF this]]]
  show ?thesis by blast
qed


theorem ppc_states_well_typed_witness:
  "\<exists>d0 r d1 :: (unit, unit) ppc_driver. event_buffer_open ex_env True d0 = Some (r, d1) \<and>
    ppc_wf ex_ppc_platform (ppc (kern d1))"
proof -
  from ex_ppc_opened obtain d0 :: "(unit, unit) ppc_driver" and r d1 where o:
    "oprofile_init (oprofile_timer_init rc_ok (online_cpus ex_env) (\<lambda>_. 5))
      (oprofile_arch_init_ppc ex_build (online_cpus ex_env)) rc_ok ex_ppc_module = Some (rc_ok, d0)"
    "op_cpu_type (arch_ops d0) \<noteq> None" "event_buffer_open ex_env True d0 = Some (r, d1)"
    "ppc_reach ex_build ex_env op_model_power4 d0 d1" by blast
  from ppc_states_well_typed [OF ex_ppc_module(1) ex_env(1) ex_build(1) ex_ppc_module(2) o(1,2,4)] o(3) ex_build(2)
  show ?thesis by auto
qed

section \<open>7450\<close>

text \<open>Counters 0 and 2 have overflowed, of which only the first is enabled; the log is a list.\<close>

definition ex_g4_platform :: g4_platform where
  "ex_g4_platform = \<lparr>G4_FC = 0x80000000, G4_FCS = 0x40000000, G4_FCP = 0x20000000, G4_FCM1 = 0x10000000,
     G4_FCM0 = 0x08000000, G4_FCECE = 0x02000000, G4_PMC1CE = 0x8000, G4_PMCnCE = 0x4000, G4_PMXE = 0x04000000,
     G4_PMC1SEL = 0x1FC0, G4_PMC2SEL = 0x3F, G4_PMC3SEL = 0xF8000000, G4_PMC4SEL = 0x07C00000,
     G4_PMC5SEL = 0x003E0000, G4_PMC6SEL = 0x0001F800, G4_MSR_PMM = 4,
     g4_is_kernel_addr = \<lambda>a. 0xC0000000 \<le> a\<rparr>"

definition ex_ctr32 :: "op_counter_config32 list" where
  "ex_ctr32 = \<lparr>c32_enabled = 1, c32_event = 1, c32_count = 1000, c32_kernel = 0, c32_user = 0, c32_unit_mask = 0\<rparr> #
     replicate 7 \<lparr>c32_enabled = 0, c32_event = 0, c32_count = 0, c32_kernel = 0, c32_user = 0, c32_unit_mask = 0\<rparr>"

definition ex_g4 :: g4_state where
  "ex_g4 = \<lparr>g4_spr = \<lambda>_ r. if r = G4_PMC1 \<or> r = G4_PMC3 then 0x80000002 else if r = G4_SIAR then 0x1000 else 0,
     g4_msr = \<lambda>_. 0, g4_reset_value = replicate 8 0x7FFFFC18, g4_running = True, g4_mmcr0_val = 0,
     g4_mmcr1_val = 0, g4_mmcr2_val = 0\<rparr>"

theorem fsl7450_interrupt_samples_witness:
  "\<exists>x'. fsl7450_handle_interrupt ex_g4_platform (\<lambda>pc i k log. Some (log @ [(pc, i, k)])) ex_ctr32 0 (ex_g4, []) =
      Some (x', [(0x1000, 0, 0)]) \<and> ctr_read32 0 0 x' = 0x7FFFFC18 \<and> ctr_read32 0 2 x' = 0"
proof -
  have 1: "g4_wf ex_ctr32 ex_g4" by (simp add: g4_wf_def ex_ctr32_def ex_g4_def)
  have neg: "(0x80000002 :: u32) <s 0" "\<not> (0 :: u32) <s 0" by code_simp+
  have rd: "ctr_read32 0 0 ex_g4 = 0x80000002" "ctr_read32 0 2 ex_g4 = 0x80000002" "mfspr32 0 G4_SIAR ex_g4 = 0x1000"
    "ctr_read32 0 1 ex_g4 = 0" "ctr_read32 0 3 ex_g4 = 0" "ctr_read32 0 4 ex_g4 = 0" "ctr_read32 0 5 ex_g4 = 0"
    by (simp_all add: ctr_read32_def pmc32_def mfspr32_def ex_g4_def)
  have due: "bank_due (ctr_read32 0) g4_running ex_ctr32 ex_g4 i \<longleftrightarrow> i = 0" if "i < 6" for i
  proof -
    have "i = 0 \<or> i = 1 \<or> i = 2 \<or> i = 3 \<or> i = 4 \<or> i = 5" using that by linarith
    then show ?thesis
      by (elim disjE; simp add: bank_due_def rd neg) (simp_all add: ex_g4_def ex_ctr32_def)
  qed
  have "filter (bank_due (ctr_read32 0) g4_running ex_ctr32 ex_g4) [0..<6] = filter (\<lambda>i. i = 0) [0..<6]"
    by (rule filter_cong) (simp_all add: due)
  also have "\<dots> = [0]" by (simp add: upt_rec)
  finally have f: "filter (bank_due (ctr_read32 0) g4_running ex_ctr32 ex_g4) [0..<6] = [0]" .
  have after: "bank_after (ctr_read32 0) g4_reset_value g4_running ex_ctr32 ex_g4 0 = 0x7FFFFC18"
    "bank_after (ctr_read32 0) g4_reset_value g4_running ex_ctr32 ex_g4 2 = 0"
    using due [of 0] due [of 2] by (simp_all add: bank_after_def rd neg) (simp add: ex_g4_def)
  from fsl7450_interrupt_samples [OF 1 rd(3) [symmetric] refl, of ex_g4_platform
      "\<lambda>pc i k log. Some (log @ [(pc, i, k)])" "[]"] f after
  show ?thesis by (auto simp: ex_g4_platform_def)
qed

end
