(* ===== verification/Dcookies.thy ===== *)
theory Dcookies
  imports Driver_State
begin

text \<open>
  \<^verbatim>\<open>driver/buffer_sync.c\<close> without \<^verbatim>\<open>RRPROFILE\<close>: the translation of a user-space address into the
  cookie of the mapped file and an offset (\<^verbatim>\<open>fast_get_dcookie\<close>, \<^verbatim>\<open>get_exec_dcookie\<close>,
  \<^verbatim>\<open>lookup_dcookie\<close>).
\<close>

section \<open>Data\<close>

definition NO_COOKIE :: ulong where "NO_COOKIE = 0"
definition INVALID_COOKIE :: ulong where "INVALID_COOKIE = - 1"

text \<open>
  What the code reads of the kernel's structures. A path is the address of its directory entry
  and the flag \<^verbatim>\<open>d_cookie\<close>; a memory map is the list of its areas in the order of \<^verbatim>\<open>vm_next\<close>. The
  constants are those of \<^verbatim>\<open>linux/mm.h\<close>, and of pages of 4096 bytes.
\<close>

record path =
  dentry :: ulong
  d_cookie :: bool

record vm_area =
  vm_start :: ulong
  vm_end :: ulong
  vm_pgoff :: ulong
  vm_flags :: ulong
  vm_file :: "path option"

definition VM_EXEC :: ulong where "VM_EXEC = 0x4"
definition VM_EXECUTABLE :: ulong where "VM_EXECUTABLE = 0x1000"
definition PAGE_SHIFT :: nat where "PAGE_SHIFT = 12"

text \<open>
  The functions of the kernel that are called: \<^verbatim>\<open>find_vma\<close>, whose result is the list from the area
  it returns on, and \<^verbatim>\<open>get_dcookie\<close>, with the value it stores as result. The contract is their
  documentation: the first area that ends behind the address, and the address of the directory
  entry.
\<close>

record vm_calls =
  find_vma :: "vm_area list \<Rightarrow> ulong \<Rightarrow> vm_area list"
  get_dcookie :: "path \<Rightarrow> ulong"

definition vm_calls_ok :: "vm_calls \<Rightarrow> bool" where
  "vm_calls_ok K \<longleftrightarrow>
     (\<forall>vs addr. find_vma K vs addr = dropWhile (\<lambda>v. vm_end v \<le> addr) vs) \<and>
     (\<forall>p. get_dcookie K p = dentry p)"

section \<open>Operations\<close>

definition fast_get_dcookie :: "vm_calls \<Rightarrow> path \<Rightarrow> ulong" where
  "fast_get_dcookie K p = (if d_cookie p then dentry p else get_dcookie K p)"

fun exec_dcookie_loop :: "vm_calls \<Rightarrow> vm_area list \<Rightarrow> ulong" where
  "exec_dcookie_loop K [] = NO_COOKIE"
| "exec_dcookie_loop K (vma # vs) =
     (case vm_file vma of
        None \<Rightarrow> exec_dcookie_loop K vs
      | Some p \<Rightarrow>
          if and (vm_flags vma) VM_EXECUTABLE = 0 then exec_dcookie_loop K vs
          else fast_get_dcookie K p)"

text \<open>\<^verbatim>\<open>get_exec_dcookie\<close>; a null pointer is \<open>None\<close>.\<close>

definition get_exec_dcookie :: "vm_calls \<Rightarrow> vm_area list option \<Rightarrow> ulong" where
  "get_exec_dcookie K mm =
    (case mm of None \<Rightarrow> NO_COOKIE | Some vs \<Rightarrow> exec_dcookie_loop K vs)"

text \<open>
  The loop of \<^verbatim>\<open>lookup_dcookie\<close> from the area that \<^verbatim>\<open>find_vma\<close> returned on. The result is the cookie
  and the offset, which is left as it was when no area contains the address.
\<close>

fun lookup_loop :: "vm_calls \<Rightarrow> ulong \<Rightarrow> ulong \<Rightarrow> vm_area list \<Rightarrow> ulong \<times> ulong" where
  "lookup_loop K addr off [] = (INVALID_COOKIE, off)"
| "lookup_loop K addr off (vma # vs) =
     (if addr < vm_start vma \<or> addr \<ge> vm_end vma then lookup_loop K addr off vs
      else (case vm_file vma of
              Some p \<Rightarrow> (fast_get_dcookie K p,
                         push_bit PAGE_SHIFT (vm_pgoff vma) + addr - vm_start vma)
            | None \<Rightarrow> (NO_COOKIE, addr)))"

definition lookup_dcookie :: "vm_calls \<Rightarrow> vm_area list \<Rightarrow> ulong \<Rightarrow> ulong \<Rightarrow> ulong \<times> ulong" where
  "lookup_dcookie K mm addr off = lookup_loop K addr off (find_vma K mm addr)"

section \<open>What they compute\<close>

text \<open>The areas of a memory map are nonempty, ordered by address, and do not overlap.\<close>

definition mmap_ok :: "vm_area list \<Rightarrow> bool" where
  "mmap_ok vs \<longleftrightarrow>
     (\<forall>v \<in> set vs. vm_start v < vm_end v) \<and> sorted_wrt (\<lambda>v w. vm_end v \<le> vm_start w) vs"

definition covers :: "vm_area \<Rightarrow> ulong \<Rightarrow> bool" where
  "covers v addr \<longleftrightarrow> vm_start v \<le> addr \<and> addr < vm_end v"

text \<open>Where an address of an area lies: in the file that is mapped, or in anonymous memory.\<close>

definition place_in :: "vm_area \<Rightarrow> ulong \<Rightarrow> ulong \<times> ulong" where
  "place_in v addr =
    (case vm_file v of
       Some p \<Rightarrow> (dentry p, 2 ^ PAGE_SHIFT * vm_pgoff v + (addr - vm_start v))
     | None \<Rightarrow> (NO_COOKIE, addr))"

lemma fast_get_dcookie_ok [simp]: "vm_calls_ok K \<Longrightarrow> fast_get_dcookie K p = dentry p"
  by (simp add: fast_get_dcookie_def vm_calls_ok_def)

lemma lookup_loop_misses:
  "\<forall>v \<in> set vs. \<not> covers v addr \<Longrightarrow> lookup_loop K addr off vs = (INVALID_COOKIE, off)"
  by (induction vs) (auto simp: covers_def not_le not_less)

lemma lookup_loop_hits:
  assumes "vm_calls_ok K" and "sorted_wrt (\<lambda>v w. vm_end v \<le> vm_start w) vs"
    and "v \<in> set vs" and "covers v addr"
  shows "lookup_loop K addr off vs = place_in v addr"
  using assms(2,3)
proof (induction vs)
  case Nil
  then show ?case by simp
next
  case (Cons w ws)
  show ?case
  proof (cases "v = w")
    case True
    with assms(1,4) show ?thesis
      by (auto simp: covers_def place_in_def push_bit_eq_mult not_le not_less algebra_simps
          split: option.split)
  next
    case False
    with Cons.prems have "v \<in> set ws" "vm_end w \<le> vm_start v" by auto
    with assms(4) have "vm_end w \<le> addr" unfolding covers_def by (meson order.trans)
    with Cons \<open>v \<in> set ws\<close> show ?thesis by simp
  qed
qed

lemma dropWhile_keeps: "v \<in> set vs \<Longrightarrow> \<not> P v \<Longrightarrow> v \<in> set (dropWhile P vs)"
  by (induction vs) auto

lemma sorted_wrt_dropWhile: "sorted_wrt R vs \<Longrightarrow> sorted_wrt R (dropWhile P vs)"
  by (induction vs) auto

text \<open>The lookup finds the one area that covers the address, and gives the cookie of its file and
  the position in the file, or the address itself for anonymous memory; it gives the invalid
  cookie exactly when no area covers the address.\<close>

theorem lookup_dcookie_finds_mapping:
  assumes "vm_calls_ok K" and "mmap_ok vs"
  shows "(\<forall>v \<in> set vs. covers v addr \<longrightarrow> lookup_dcookie K vs addr off = place_in v addr) \<and>
    ((\<forall>v \<in> set vs. \<not> covers v addr) \<longrightarrow>
       lookup_dcookie K vs addr off = (INVALID_COOKIE, off))"
proof -
  have find: "find_vma K vs addr = dropWhile (\<lambda>v. vm_end v \<le> addr) vs"
    using assms(1) by (simp add: vm_calls_ok_def)
  have "lookup_dcookie K vs addr off = place_in v addr" if "v \<in> set vs" "covers v addr" for v
  proof -
    have "v \<in> set (find_vma K vs addr)"
      using that by (auto simp: find covers_def intro!: dropWhile_keeps)
    moreover have "sorted_wrt (\<lambda>v w. vm_end v \<le> vm_start w) (find_vma K vs addr)"
      using assms(2) by (simp add: find mmap_ok_def sorted_wrt_dropWhile)
    ultimately show ?thesis
      using lookup_loop_hits [OF assms(1)] that(2) by (simp add: lookup_dcookie_def)
  qed
  moreover have "lookup_dcookie K vs addr off = (INVALID_COOKIE, off)"
    if "\<forall>v \<in> set vs. \<not> covers v addr"
    using that
    by (auto simp: lookup_dcookie_def find intro!: lookup_loop_misses dest: set_dropWhileD)
  ultimately show ?thesis by blast
qed

end
