(* ===== verification/Stock_Sync.thy ===== *)
theory Stock_Sync
  imports Buffer_Sync Stock_Log Dcookies
begin

text \<open>
  \<^verbatim>\<open>driver/buffer_sync.c\<close> without \<^verbatim>\<open>RRPROFILE\<close>: samples of user space become positions in mapped
  files, so \<^verbatim>\<open>sync_buffer\<close> uses the tasks and memory maps that the entries refer to. Exited tasks
  are kept in two lists, the mortuary, until no ring refers to them. Using a task that has been
  freed, or giving back a reference that is not held, is a fault.
\<close>

section \<open>State\<close>

definition MODULE_LOADED_CODE :: ulong where "MODULE_LOADED_CODE = 6"
definition COOKIE_SWITCH_CODE :: ulong where "COOKIE_SWITCH_CODE = 3"
definition CTX_TGID_CODE :: ulong where "CTX_TGID_CODE = 7"

datatype notifier = task_free_nb | task_exit_nb | munmap_nb | module_load_nb

text \<open>
  \<^verbatim>\<open>dying_tasks\<close> and \<^verbatim>\<open>dead_tasks\<close> list task addresses. What the calls of the kernel do to its own
  state: \<open>freed_tasks\<close> are the tasks given to \<^verbatim>\<open>free_task\<close>, in order, \<open>mm_users\<close> and
  \<open>mmap_readers\<close> count, per memory map, the references and read locks taken, and \<open>notifiers\<close>
  are the registered callbacks.
\<close>

record stock_kstate = kstate +
  dying_tasks :: "ulong list"
  dead_tasks :: "ulong list"
  last_cookie :: ulong
  freed_tasks :: "ulong list"
  mm_users :: "ulong \<Rightarrow> nat"
  mmap_readers :: "ulong \<Rightarrow> nat"
  notifiers :: "notifier set"

text \<open>
  What the code reads through a task or memory map pointer: the ids of a task, the address of its
  memory map as \<^verbatim>\<open>get_task_mm\<close> returns it (0 for \<^verbatim>\<open>NULL\<close>), and the areas of a memory map.
\<close>

record stock_env =
  task_at :: "ulong \<Rightarrow> task_struct"
  task_mm :: "ulong \<Rightarrow> ulong"
  mmap :: "ulong \<Rightarrow> vm_area list"
  vm_ops :: vm_calls

section \<open>The task mortuary\<close>

definition task_free_notify :: "ulong \<Rightarrow> 'h stock_kstate_scheme \<Rightarrow> 'h stock_kstate_scheme" where
  "task_free_notify task k = k\<lparr>dying_tasks := task # dying_tasks k\<rparr>"

text \<open>\<^verbatim>\<open>list_splice_init\<close> moves a list to the front of another; the last loop frees in list order.\<close>

definition process_task_mortuary :: "'h stock_kstate_scheme \<Rightarrow> 'h stock_kstate_scheme" where
  "process_task_mortuary k =
    (let local_dead_tasks = dead_tasks k;
         k = k\<lparr>dead_tasks := []\<rparr>;
         k = k\<lparr>dead_tasks := dying_tasks k @ dead_tasks k, dying_tasks := []\<rparr>
     in k\<lparr>freed_tasks := freed_tasks k @ local_dead_tasks\<rparr>)"

definition stock_mark_done ::
  "nat list \<Rightarrow> nat \<Rightarrow> 'h stock_kstate_scheme \<Rightarrow> 'h stock_kstate_scheme" where
  "stock_mark_done online c k =
    (let k = k\<lparr>marked_cpus := insert c (marked_cpus k)\<rparr>
     in if \<exists>i \<in> set online. i \<notin> marked_cpus k then k
        else (process_task_mortuary k)\<lparr>marked_cpus := {}\<rparr>)"

section \<open>References to memory maps\<close>

definition take_tasks_mm ::
  "stock_env \<Rightarrow> ulong \<Rightarrow> 'h stock_kstate_scheme \<Rightarrow> (ulong \<times> 'h stock_kstate_scheme) option" where
  "take_tasks_mm E task k =
    (if task \<in> set (freed_tasks k) then None
     else let mm = task_mm E task in
       if mm \<noteq> 0
       then Some (mm, k\<lparr>mm_users := (mm_users k)(mm := mm_users k mm + 1),
                        mmap_readers := (mmap_readers k)(mm := mmap_readers k mm + 1)\<rparr>)
       else Some (mm, k))"

definition release_mm ::
  "ulong \<Rightarrow> 'h stock_kstate_scheme \<Rightarrow> 'h stock_kstate_scheme option" where
  "release_mm mm k =
    (if mm = 0 then Some k
     else if mmap_readers k mm = 0 \<or> mm_users k mm = 0 then None
     else Some (k\<lparr>mmap_readers := (mmap_readers k)(mm := mmap_readers k mm - 1),
                  mm_users := (mm_users k)(mm := mm_users k mm - 1)\<rparr>))"

section \<open>Writing to the event buffer\<close>

definition stock_add_cpu_switch ::
  "nat \<Rightarrow> 'h stock_kstate_scheme \<Rightarrow> 'h stock_kstate_scheme option" where
  "stock_add_cpu_switch i k =
    map_option (\<lambda>e. k\<lparr>evb := e, last_cookie := INVALID_COOKIE\<rparr>) (add_cpu_switch i (evb k))"

definition add_user_ctx_switch ::
  "task_struct \<Rightarrow> ulong \<Rightarrow> event_buffer_state \<Rightarrow> event_buffer_state option" where
  "add_user_ctx_switch task cookie e =
    do { e \<leftarrow> add_event_entry ESCAPE_CODE e;
         e \<leftarrow> add_event_entry CTX_SWITCH_CODE e;
         e \<leftarrow> add_event_entry (scast (task_pid task)) e;
         e \<leftarrow> add_event_entry cookie e;
         e \<leftarrow> add_event_entry ESCAPE_CODE e;
         e \<leftarrow> add_event_entry CTX_TGID_CODE e;
         add_event_entry (scast (task_tgid task)) e }"

definition add_cookie_switch ::
  "ulong \<Rightarrow> event_buffer_state \<Rightarrow> event_buffer_state option" where
  "add_cookie_switch cookie e =
    do { e \<leftarrow> add_event_entry ESCAPE_CODE e;
         e \<leftarrow> add_event_entry COOKIE_SWITCH_CODE e;
         add_event_entry cookie e }"

text \<open>\<^verbatim>\<open>add_us_sample\<close>; the offset is not set when the lookup fails, and not used then.\<close>

definition add_us_sample ::
  "stock_env \<Rightarrow> ulong \<Rightarrow> op_sample \<Rightarrow> 'h stock_kstate_scheme \<Rightarrow>
   (bool \<times> 'h stock_kstate_scheme) option" where
  "add_us_sample E mm s k =
    (let (cookie, offset) = lookup_dcookie (vm_ops E) (mmap E mm) (eip s) 0 in
     if cookie = INVALID_COOKIE
     then Some (False, k\<lparr>sample_lost_no_mapping := sample_lost_no_mapping k + 1\<rparr>)
     else do { k \<leftarrow> (if cookie \<noteq> last_cookie k
                    then map_option (\<lambda>e. k\<lparr>evb := e, last_cookie := cookie\<rparr>)
                           (add_cookie_switch cookie (evb k))
                    else Some k);
               e \<leftarrow> add_sample_entry offset (event s) (evb k);
               Some (True, k\<lparr>evb := e\<rparr>) })"

definition stock_sync_add_sample ::
  "stock_env \<Rightarrow> ulong \<Rightarrow> op_sample \<Rightarrow> int \<Rightarrow> 'h stock_kstate_scheme \<Rightarrow>
   (bool \<times> 'h stock_kstate_scheme) option" where
  "stock_sync_add_sample E mm s kernel_mode k =
    (if kernel_mode \<noteq> 0 then
       map_option (\<lambda>e. (True, k\<lparr>evb := e\<rparr>)) (add_sample_entry (eip s) (event s) (evb k))
     else if mm \<noteq> 0 then add_us_sample E mm s k
     else Some (False, k\<lparr>sample_lost_no_mm := sample_lost_no_mm k + 1\<rparr>))"

section \<open>sync_buffer\<close>

record stock_locals =
  st_in_kernel :: int
  st_state :: sync_buffer_state
  st_mm :: ulong
  st_cookie :: ulong

definition stock_start_locals :: stock_locals where
  "stock_start_locals =
     \<lparr>st_in_kernel = 1, st_state = sb_buffer_start, st_mm = 0, st_cookie = 0\<rparr>"

text \<open>The areas behind a memory map pointer, which may be \<^verbatim>\<open>NULL\<close>\<close>

definition mm_areas :: "stock_env \<Rightarrow> ulong \<Rightarrow> vm_area list option" where
  "mm_areas E mm = (if mm = 0 then None else Some (mmap E mm))"

text \<open>The loop body\<close>

definition stock_sync_entry ::
  "stock_env \<Rightarrow> op_sample \<Rightarrow> stock_locals \<Rightarrow> 'h stock_kstate_scheme \<Rightarrow>
   (stock_locals \<times> 'h stock_kstate_scheme) option" where
  "stock_sync_entry E s l k =
    (if is_code (eip s) then
       if event s \<le> CPU_IS_KERNEL then
         let l = l\<lparr>st_in_kernel := uint (event s),
                   st_state := (if st_state l = sb_buffer_start then sb_sample_start
                                else st_state l)\<rparr>
         in map_option (\<lambda>e. (l, k\<lparr>evb := e\<rparr>)) (add_kernel_ctx_switch (ucast (event s)) (evb k))
       else if event s = CPU_TRACE_BEGIN then
         let l = l\<lparr>st_state := sb_bt_start\<rparr>
         in map_option (\<lambda>e. (l, k\<lparr>evb := e\<rparr>)) (add_trace_begin (evb k))
       else
         let oldmm = st_mm l; new = event s in
         do { k \<leftarrow> release_mm oldmm k;
              (mm, k) \<leftarrow> take_tasks_mm E new k;
              let cookie = (if mm \<noteq> oldmm then get_exec_dcookie (vm_ops E) (mm_areas E mm)
                            else st_cookie l);
              e \<leftarrow> add_user_ctx_switch (task_at E new) cookie (evb k);
              Some (l\<lparr>st_mm := mm, st_cookie := cookie\<rparr>, k\<lparr>evb := e\<rparr>) }
     else if st_state l \<ge> sb_bt_start then
       do { (ok, k) \<leftarrow> stock_sync_add_sample E (st_mm l) s (st_in_kernel l) k;
            if \<not> ok \<and> st_state l = sb_bt_start
            then Some (l\<lparr>st_state := sb_bt_ignore\<rparr>,
                       k\<lparr>bt_lost_no_mapping := bt_lost_no_mapping k + 1\<rparr>)
            else Some (l, k) }
     else Some (l, k))"

partial_function (option) stock_sync_loop ::
  "stock_env \<Rightarrow> nat \<Rightarrow> u32 \<Rightarrow> ulong \<Rightarrow> stock_locals \<Rightarrow> 'h stock_kstate_scheme \<Rightarrow>
   (stock_locals \<times> 'h stock_kstate_scheme) option" where
  "stock_sync_loop E c i available l k =
    (if ucast i < available then
       do { s \<leftarrow> tail_entry (cpu_buffer k c);
            (l, k) \<leftarrow> stock_sync_entry E s l k;
            stock_sync_loop E c (i + 1) available l (upd_cpu c increment_tail k) }
     else Some (l, k))"

definition stock_sync_buffer ::
  "stock_env \<Rightarrow> nat list \<Rightarrow> nat \<Rightarrow> 'h stock_kstate_scheme \<Rightarrow> 'h stock_kstate_scheme option" where
  "stock_sync_buffer E online c k =
    do { k \<leftarrow> stock_add_cpu_switch c k;
         let (available, b) = get_slots (cpu_buffer k c);
         let k = k\<lparr>cpu_buffer := (cpu_buffer k)(c := b)\<rparr>;
         (l, k) \<leftarrow> stock_sync_loop E c 0 available stock_start_locals k;
         k \<leftarrow> release_mm (st_mm l) k;
         Some (stock_mark_done online c k) }"

section \<open>The notifiers\<close>

text \<open>
  The callbacks of the other notifiers, on CPU \<open>c\<close>. \<^verbatim>\<open>munmap_notify\<close> looks at the memory map of
  the current task.
\<close>

definition task_exit_notify ::
  "stock_env \<Rightarrow> nat list \<Rightarrow> nat \<Rightarrow> 'h stock_kstate_scheme \<Rightarrow> 'h stock_kstate_scheme option" where
  "task_exit_notify E online c k = stock_sync_buffer E online c k"

definition munmap_notify ::
  "stock_env \<Rightarrow> nat list \<Rightarrow> nat \<Rightarrow> vm_area list \<Rightarrow> ulong \<Rightarrow> 'h stock_kstate_scheme \<Rightarrow>
   'h stock_kstate_scheme option" where
  "munmap_notify E online c mm addr k =
    (case find_vma (vm_ops E) mm addr of
       [] \<Rightarrow> Some k
     | mpnt # _ \<Rightarrow>
         if vm_file mpnt \<noteq> None \<and> and (vm_flags mpnt) VM_EXEC \<noteq> 0
         then stock_sync_buffer E online c k else Some k)"

definition module_load_notify ::
  "bool \<Rightarrow> 'h stock_kstate_scheme \<Rightarrow> 'h stock_kstate_scheme option" where
  "module_load_notify coming k =
    (if \<not> coming then Some k
     else do { e \<leftarrow> add_event_entry ESCAPE_CODE (evb k);
               e \<leftarrow> add_event_entry MODULE_LOADED_CODE e;
               Some (k\<lparr>evb := e\<rparr>) })"

section \<open>Start and stop\<close>

definition stock_end_sync :: "nat list \<Rightarrow> 'h stock_kstate_scheme \<Rightarrow> 'h stock_kstate_scheme" where
  "stock_end_sync online k = process_task_mortuary (process_task_mortuary (end_cpu_work online k))"

definition register ::
  "(notifier \<Rightarrow> rc) \<Rightarrow> notifier \<Rightarrow> 'h stock_kstate_scheme \<Rightarrow> rc \<times> 'h stock_kstate_scheme" where
  "register result n k =
    (case result n of Inl e \<Rightarrow> (Inl e, k)
     | Inr u \<Rightarrow> (rc_ok, k\<lparr>notifiers := insert n (notifiers k)\<rparr>))"

definition unregister :: "notifier \<Rightarrow> 'h stock_kstate_scheme \<Rightarrow> 'h stock_kstate_scheme" where
  "unregister n k = k\<lparr>notifiers := notifiers k - {n}\<rparr>"

text \<open>\<^verbatim>\<open>sync_start\<close>; \<open>result\<close> is what registering a callback returns.\<close>

definition stock_sync_start ::
  "(notifier \<Rightarrow> rc) \<Rightarrow> nat list \<Rightarrow> 'h stock_kstate_scheme \<Rightarrow> rc \<times> 'h stock_kstate_scheme" where
  "stock_sync_start result online k =
    (let k = start_cpu_work online k;
         (err, k) = register result task_free_nb k
     in if err \<noteq> rc_ok then (err, stock_end_sync online k) else
     let (err, k) = register result task_exit_nb k
     in if err \<noteq> rc_ok then (err, stock_end_sync online (unregister task_free_nb k)) else
     let (err, k) = register result munmap_nb k
     in if err \<noteq> rc_ok
        then (err, stock_end_sync online (unregister task_free_nb (unregister task_exit_nb k))) else
     let (err, k) = register result module_load_nb k
     in if err \<noteq> rc_ok
        then (err, stock_end_sync online (unregister task_free_nb (unregister task_exit_nb
                     (unregister munmap_nb k))))
        else (err, k))"

definition stock_sync_stop :: "nat list \<Rightarrow> 'h stock_kstate_scheme \<Rightarrow> 'h stock_kstate_scheme" where
  "stock_sync_stop online k =
     stock_end_sync online (unregister task_free_nb (unregister task_exit_nb
       (unregister munmap_nb (unregister module_load_nb k))))"

end
