(* ===== verification/Stock_Behaviour.thy ===== *)
theory Stock_Behaviour
  imports Stock_Sync
begin

text \<open>
  What \<^verbatim>\<open>sync_buffer\<close> writes without \<^verbatim>\<open>RRPROFILE\<close>. The words are a list of notes; a reader that
  follows the notes gets back, for each sample, the task it belongs to and where it lies. The
  memory maps that the loop uses are given back.
\<close>

section \<open>Notes and their reader\<close>

datatype stream_note =
    Cpu_note nat
  | Mode_note bool
  | Trace_note
  | Task_note task_struct ulong
  | Cookie_note ulong
  | Sample_note ulong ulong

primrec note_words :: "stream_note \<Rightarrow> ulong list" where
  "note_words (Cpu_note c) = [ESCAPE_CODE, CPU_SWITCH_CODE, of_nat c]"
| "note_words (Mode_note krn) =
     [ESCAPE_CODE, if krn then KERNEL_ENTER_SWITCH_CODE else KERNEL_EXIT_SWITCH_CODE]"
| "note_words Trace_note = [ESCAPE_CODE, TRACE_BEGIN_CODE]"
| "note_words (Task_note task cookie) =
     [ESCAPE_CODE, CTX_SWITCH_CODE, scast (task_pid task), cookie,
      ESCAPE_CODE, CTX_TGID_CODE, scast (task_tgid task)]"
| "note_words (Cookie_note cookie) = [ESCAPE_CODE, COOKIE_SWITCH_CODE, cookie]"
| "note_words (Sample_note offset ev) = [offset, ev]"

abbreviation notes_words :: "stream_note list \<Rightarrow> ulong list" where
  "notes_words ns \<equiv> concat (map note_words ns)"

text \<open>Where a sample lies: at an address of the kernel, or at an offset of what a cookie names.\<close>

datatype place = Kernel_pc ulong | User_at ulong ulong

text \<open>
  The reader keeps the mode, the task and the cookie that the last notes of each kind named; a
  switch of the CPU resets the mode and the cookie. It returns each sample with its task, place
  and event.
\<close>

fun read_notes ::
  "bool \<Rightarrow> task_struct option \<Rightarrow> ulong \<Rightarrow> stream_note list \<Rightarrow>
   (task_struct option \<times> place \<times> ulong) list" where
  "read_notes m t ck [] = []"
| "read_notes m t ck (Cpu_note c # ns) = read_notes True None INVALID_COOKIE ns"
| "read_notes m t ck (Mode_note krn # ns) = read_notes krn t ck ns"
| "read_notes m t ck (Trace_note # ns) = read_notes m t ck ns"
| "read_notes m t ck (Task_note task app # ns) = read_notes m (Some task) ck ns"
| "read_notes m t ck (Cookie_note ck' # ns) = read_notes m t ck' ns"
| "read_notes m t ck (Sample_note off ev # ns) =
     (t, if m then Kernel_pc off else User_at ck off, ev) # read_notes m t ck ns"

section \<open>What the entries of a ring mean\<close>

text \<open>A note of a task switch holds the address of the task.\<close>

definition task_note :: "op_sample \<Rightarrow> bool" where
  "task_note s \<longleftrightarrow> eip s = ESCAPE_CODE \<and> event s \<notin> {0, CPU_IS_KERNEL, CPU_TRACE_BEGIN}"

text \<open>The place of a sample, if it has one\<close>

definition sample_place :: "stock_env \<Rightarrow> stock_locals \<Rightarrow> op_sample \<Rightarrow> place option" where
  "sample_place E l s =
    (if st_in_kernel l \<noteq> 0 then Some (Kernel_pc (eip s))
     else if st_mm l = 0 then None
     else let (ck, off) = lookup_dcookie (vm_ops E) (mmap E (st_mm l)) (eip s) 0
          in if ck = INVALID_COOKIE then None else Some (User_at ck off))"

definition stock_next :: "stock_env \<Rightarrow> stock_locals \<Rightarrow> op_sample \<Rightarrow> stock_locals" where
  "stock_next E l s =
    (if task_note s then
       let mm = task_mm E (event s)
       in l\<lparr>st_mm := mm,
            st_cookie := (if mm \<noteq> st_mm l then get_exec_dcookie (vm_ops E) (mm_areas E mm)
                          else st_cookie l)\<rparr>
     else if eip s = ESCAPE_CODE then
       if event s = CPU_TRACE_BEGIN then l\<lparr>st_state := sb_bt_start\<rparr>
       else l\<lparr>st_in_kernel := uint (event s),
              st_state := (if st_state l = sb_buffer_start then sb_sample_start
                           else st_state l)\<rparr>
     else if st_state l = sb_bt_start \<and> sample_place E l s = None
     then l\<lparr>st_state := sb_bt_ignore\<rparr> else l)"

text \<open>A sample is looked at once the mode is known or a backtrace has begun.\<close>

definition considered :: "stock_locals \<Rightarrow> op_sample \<Rightarrow> bool" where
  "considered l s \<longleftrightarrow> eip s \<noteq> ESCAPE_CODE \<and> sb_bt_start \<le> st_state l"

fun placed_samples ::
  "stock_env \<Rightarrow> task_struct option \<Rightarrow> stock_locals \<Rightarrow> op_sample list \<Rightarrow>
   (task_struct option \<times> place \<times> ulong) list" where
  "placed_samples E t l [] = []"
| "placed_samples E t l (s # ss) =
     (case (if considered l s then sample_place E l s else None) of
        None \<Rightarrow> [] | Some p \<Rightarrow> [(t, p, event s)]) @
     placed_samples E (if task_note s then Some (task_at E (event s)) else t) (stock_next E l s) ss"

text \<open>The entries that satisfy a predicate in the state they are met in\<close>

fun count_along ::
  "(stock_locals \<Rightarrow> op_sample \<Rightarrow> bool) \<Rightarrow> stock_env \<Rightarrow> stock_locals \<Rightarrow> op_sample list \<Rightarrow> nat" where
  "count_along P E l [] = 0"
| "count_along P E l (s # ss) = of_bool (P l s) + count_along P E (stock_next E l s) ss"

definition lost_no_mm :: "stock_locals \<Rightarrow> op_sample \<Rightarrow> bool" where
  "lost_no_mm l s \<longleftrightarrow> considered l s \<and> st_in_kernel l = 0 \<and> st_mm l = 0"

definition lost_no_mapping :: "stock_env \<Rightarrow> stock_locals \<Rightarrow> op_sample \<Rightarrow> bool" where
  "lost_no_mapping E l s \<longleftrightarrow>
     considered l s \<and> st_in_kernel l = 0 \<and> st_mm l \<noteq> 0 \<and> sample_place E l s = None"

definition lost_trace :: "stock_env \<Rightarrow> stock_locals \<Rightarrow> op_sample \<Rightarrow> bool" where
  "lost_trace E l s \<longleftrightarrow>
     eip s \<noteq> ESCAPE_CODE \<and> st_state l = sb_bt_start \<and> sample_place E l s = None"

section \<open>The notes of an entry\<close>

fun place_notes :: "ulong \<Rightarrow> place \<Rightarrow> ulong \<Rightarrow> stream_note list" where
  "place_notes lc (Kernel_pc pc) ev = [Sample_note pc ev]"
| "place_notes lc (User_at ck off) ev =
     (if ck \<noteq> lc then [Cookie_note ck] else []) @ [Sample_note off ev]"

fun place_cookie :: "ulong \<Rightarrow> place \<Rightarrow> ulong" where
  "place_cookie lc (Kernel_pc pc) = lc"
| "place_cookie lc (User_at ck off) = ck"

definition entry_notes :: "stock_env \<Rightarrow> stock_locals \<Rightarrow> ulong \<Rightarrow> op_sample \<Rightarrow> stream_note list" where
  "entry_notes E l lc s =
    (if task_note s then [Task_note (task_at E (event s)) (st_cookie (stock_next E l s))]
     else if eip s = ESCAPE_CODE then
       if event s = CPU_TRACE_BEGIN then [Trace_note] else [Mode_note (event s \<noteq> 0)]
     else if considered l s then
       (case sample_place E l s of None \<Rightarrow> [] | Some p \<Rightarrow> place_notes lc p (event s))
     else [])"

definition cookie_after :: "stock_env \<Rightarrow> stock_locals \<Rightarrow> ulong \<Rightarrow> op_sample \<Rightarrow> ulong" where
  "cookie_after E l lc s =
    (if considered l s then
       (case sample_place E l s of None \<Rightarrow> lc | Some p \<Rightarrow> place_cookie lc p)
     else lc)"

fun stream_notes :: "stock_env \<Rightarrow> stock_locals \<Rightarrow> ulong \<Rightarrow> op_sample list \<Rightarrow> stream_note list" where
  "stream_notes E l lc [] = []"
| "stream_notes E l lc (s # ss) =
     entry_notes E l lc s @ stream_notes E (stock_next E l s) (cookie_after E l lc s) ss"

fun stream_cookie :: "stock_env \<Rightarrow> stock_locals \<Rightarrow> ulong \<Rightarrow> op_sample list \<Rightarrow> ulong" where
  "stream_cookie E l lc [] = lc"
| "stream_cookie E l lc (s # ss) =
     stream_cookie E (stock_next E l s) (cookie_after E l lc s) ss"

text \<open>Reading the notes gives the samples with their tasks and places.\<close>

lemma sample_place_mode: "sample_place E l s = Some p \<Longrightarrow> (\<exists>pc. p = Kernel_pc pc) = (st_in_kernel l \<noteq> 0)"
  by (auto simp: sample_place_def Let_def split: if_splits prod.splits)

lemma read_stream_notes:
  "read_notes (st_in_kernel l \<noteq> 0) t lc (stream_notes E l lc ss) = placed_samples E t l ss"
proof (induction ss arbitrary: l t lc)
  case Nil
  then show ?case by simp
next
  case (Cons s ss)
  note IH = Cons.IH [of "stock_next E l s"]
  consider "task_note s" | "\<not> task_note s" "eip s = ESCAPE_CODE" | "eip s \<noteq> ESCAPE_CODE"
    by blast
  then show ?case
  proof cases
    case 1
    then have "eip s = ESCAPE_CODE" by (simp add: task_note_def)
    with 1 IH [of "Some (task_at E (event s))" lc] show ?thesis
      by (simp add: entry_notes_def cookie_after_def considered_def stock_next_def Let_def)
  next
    case 2
    then show ?thesis using IH [of t lc]
      by (auto simp: entry_notes_def cookie_after_def considered_def stock_next_def
          uint_0_iff split: if_splits)
  next
    case 3
    have nt: "\<not> task_note s" using 3 by (simp add: task_note_def)
    have mode: "st_in_kernel (stock_next E l s) = st_in_kernel l"
      using 3 nt by (simp add: stock_next_def)
    show ?thesis
    proof (cases "if considered l s then sample_place E l s else None")
      case None
      with 3 nt mode IH [of t lc] show ?thesis
        by (simp add: entry_notes_def cookie_after_def split: if_splits)
    next
      case (Some p)
      then have c: "considered l s" "sample_place E l s = Some p" by (simp_all split: if_splits)
      from sample_place_mode [OF c(2)] 3 nt mode c IH [of t "place_cookie lc p"] show ?thesis
        by (cases p) (auto simp: entry_notes_def cookie_after_def)
    qed
  qed
qed

section \<open>References\<close>

text \<open>The state while the memory map \<open>mm\<close> is held, and the rest of what an entry changes.\<close>

definition holding :: "ulong \<Rightarrow> 'h stock_kstate_scheme \<Rightarrow> 'h stock_kstate_scheme" where
  "holding mm k =
    (if mm = 0 then k
     else k\<lparr>mm_users := (mm_users k)(mm := Suc (mm_users k mm)),
            mmap_readers := (mmap_readers k)(mm := Suc (mmap_readers k mm))\<rparr>)"

definition stock_wrote ::
  "event_buffer_state \<Rightarrow> ulong \<Rightarrow> nat \<Rightarrow> nat \<Rightarrow> nat \<Rightarrow> 'h stock_kstate_scheme \<Rightarrow>
   'h stock_kstate_scheme" where
  "stock_wrote e ck nm np nt k =
    k\<lparr>evb := e, last_cookie := ck,
      sample_lost_no_mm := sample_lost_no_mm k + of_nat nm,
      sample_lost_no_mapping := sample_lost_no_mapping k + of_nat np,
      bt_lost_no_mapping := bt_lost_no_mapping k + of_nat nt\<rparr>"

lemma holding_simps [simp]:
  "holding 0 k = k" "cpu_buffer (holding m k) = cpu_buffer k" "evb (holding m k) = evb k"
  "last_cookie (holding m k) = last_cookie k" "freed_tasks (holding m k) = freed_tasks k"
  by (simp_all add: holding_def)

lemma release_holding [simp]: "release_mm m (holding m k) = Some k"
  by (cases k) (simp add: release_mm_def holding_def)

lemma take_holding:
  "t \<notin> set (freed_tasks k) \<Longrightarrow> take_tasks_mm E t k = Some (task_mm E t, holding (task_mm E t) k)"
  by (simp add: take_tasks_mm_def holding_def Let_def)

lemma stock_wrote_simps [simp]:
  "cpu_buffer (stock_wrote e ck nm np nt k) = cpu_buffer k"
  "evb (stock_wrote e ck nm np nt k) = e" "last_cookie (stock_wrote e ck nm np nt k) = ck"
  "freed_tasks (stock_wrote e ck nm np nt k) = freed_tasks k"
  "stock_wrote e' ck' nm' np' nt' (stock_wrote e ck nm np nt k) =
     stock_wrote e' ck' (nm + nm') (np + np') (nt + nt') k"
  by (simp_all add: stock_wrote_def add.assoc)

lemma holding_commutes:
  "upd_cpu c f (holding m k) = holding m (upd_cpu c f k)"
  "stock_wrote e ck nm np nt (holding m k) = holding m (stock_wrote e ck nm np nt k)"
  "upd_cpu c f (stock_wrote e ck nm np nt k) = stock_wrote e ck nm np nt (upd_cpu c f k)"
  "freed_tasks (upd_cpu c f k) = freed_tasks k" "last_cookie (upd_cpu c f k) = last_cookie k"
  by (simp_all add: holding_def upd_cpu_def stock_wrote_def)

lemma upd_cpu_twice: "upd_cpu c f (upd_cpu c g k) = upd_cpu c (\<lambda>b. f (g b)) k"
  by (simp add: upd_cpu_def)

text \<open>Single writes, so that both sides of an equation below become one write under \<open>holding\<close>.\<close>

lemma stock_wrote_evb: "stock_wrote e (last_cookie k) 0 0 0 k = k\<lparr>evb := e\<rparr>"
  by (cases k) (simp add: stock_wrote_def)

lemma holding_evb:
  "(holding m k)\<lparr>evb := e\<rparr> = holding m (k\<lparr>evb := e\<rparr>)"
  "(holding m k)\<lparr>last_cookie := ck\<rparr> = holding m (k\<lparr>last_cookie := ck\<rparr>)"
  by (simp_all add: holding_def)

lemma stock_wrote_cookie:
  "stock_wrote e ck 0 0 0 k = k\<lparr>evb := e, last_cookie := ck\<rparr>"
  by (cases k) (simp add: stock_wrote_def)

lemma stock_wrote_lost:
  "k\<lparr>sample_lost_no_mm := sample_lost_no_mm k + 1\<rparr> =
     stock_wrote (evb k) (last_cookie k) (Suc 0) 0 0 k"
  "k\<lparr>sample_lost_no_mapping := sample_lost_no_mapping k + 1\<rparr> =
     stock_wrote (evb k) (last_cookie k) 0 (Suc 0) 0 k"
  "k\<lparr>bt_lost_no_mapping := bt_lost_no_mapping k + 1\<rparr> =
     stock_wrote (evb k) (last_cookie k) 0 0 (Suc 0) k"
  by (cases k; simp add: stock_wrote_def)+

section \<open>The loop\<close>

lemma stock_writers_batch:
  "add_user_ctx_switch task ck e = add_event_entries (note_words (Task_note task ck)) e"
  "add_cookie_switch ck e = add_event_entries (note_words (Cookie_note ck)) e"
  by (simp_all add: add_user_ctx_switch_def add_cookie_switch_def Option.bind_def
      split: option.splits)

lemma sample_entry_batch: "add_sample_entry off ev e = add_event_entries (note_words (Sample_note off ev)) e"
  by (simp add: event_writers_batch del: for_each.simps)

lemma add_us_sample_batch:
  assumes "st_in_kernel l = 0" "st_mm l \<noteq> 0"
  shows "add_us_sample E (st_mm l) s k =
    (case sample_place E l s of
       None \<Rightarrow> Some (False, k\<lparr>sample_lost_no_mapping := sample_lost_no_mapping k + 1\<rparr>)
     | Some p \<Rightarrow>
         map_option (\<lambda>e. (True, k\<lparr>evb := e, last_cookie := place_cookie (last_cookie k) p\<rparr>))
           (add_event_entries (notes_words (place_notes (last_cookie k) p (event s))) (evb k)))"
  using assms
  by (cases "lookup_dcookie (vm_ops E) (mmap E (st_mm l)) (eip s) 0")
    (auto simp: add_us_sample_def sample_place_def stock_writers_batch sample_entry_batch
      for_each_append map_option_case simp del: for_each.simps(2) note_words.simps
      split: option.splits)

lemmas sample_entry_defs =
  stock_sync_entry_def stock_sync_add_sample_def is_code_def stock_next_def entry_notes_def
  cookie_after_def considered_def lost_no_mm_def lost_no_mapping_def lost_trace_def Let_def

lemma stock_entry_batch:
  assumes "task_note s \<longrightarrow> event s \<notin> set (freed_tasks k)"
  shows "stock_sync_entry E s l (holding (st_mm l) k) =
    map_option (\<lambda>e. (stock_next E l s, holding (st_mm (stock_next E l s))
        (stock_wrote e (cookie_after E l (last_cookie k) s) (of_bool (lost_no_mm l s))
          (of_bool (lost_no_mapping E l s)) (of_bool (lost_trace E l s)) k)))
      (add_event_entries (notes_words (entry_notes E l (last_cookie k) s)) (evb k))"
proof -
  consider "task_note s" | "\<not> task_note s" "eip s = ESCAPE_CODE" | (sample) "eip s \<noteq> ESCAPE_CODE"
    by blast
  then show ?thesis
  proof cases
    case 1
    then have s: "eip s = ESCAPE_CODE" "\<not> event s \<le> CPU_IS_KERNEL" "event s \<noteq> CPU_TRACE_BEGIN"
      by (auto simp: task_note_def word_le_1_cases CPU_IS_KERNEL_def)
    then show ?thesis
      using 1 assms
      by (simp add: stock_sync_entry_def is_code_def stock_next_def entry_notes_def cookie_after_def
          considered_def lost_no_mm_def lost_no_mapping_def lost_trace_def take_holding Let_def
          stock_writers_batch stock_wrote_evb holding_evb map_option_case split: option.split
          del: for_each.simps(2) note_words.simps)
  next
    case 2
    then have s: "event s \<in> {0, 1, 2}"
      by (simp add: task_note_def cpu_code_defs)
    then show ?thesis
      using 2
      by (auto simp: stock_sync_entry_def is_code_def stock_next_def entry_notes_def
          cookie_after_def considered_def lost_no_mm_def lost_no_mapping_def lost_trace_def Let_def
          event_writers_batch stock_wrote_evb holding_evb map_option_case cpu_code_defs
          word_le_1_cases
          split: option.split simp del: for_each.simps(2))
  next
    case sample
    then have nt: "\<not> task_note s" by (simp add: task_note_def)
    show ?thesis
    proof (cases "sb_bt_start \<le> st_state l")
      case False
      with sample nt show ?thesis
        by (auto simp: stock_sync_entry_def is_code_def stock_next_def entry_notes_def
            cookie_after_def considered_def lost_no_mm_def lost_no_mapping_def lost_trace_def
            stock_wrote_evb)
    next
      case True
      consider "st_in_kernel l \<noteq> 0" | "st_in_kernel l = 0" "st_mm l = 0"
        | "st_in_kernel l = 0" "st_mm l \<noteq> 0" by blast
      then show ?thesis
      proof cases
        case 1
        then have "sample_place E l s = Some (Kernel_pc (eip s))" by (simp add: sample_place_def)
        with 1 sample nt True show ?thesis
          by (simp add: sample_entry_defs sample_entry_batch stock_wrote_evb holding_evb
              map_option_case split: option.split del: for_each.simps(2) note_words.simps)
      next
        case 2
        then have "sample_place E l s = None" by (simp add: sample_place_def)
        with 2 sample nt True show ?thesis
          by (simp add: sample_entry_defs stock_wrote_lost)
      next
        case 3
        show ?thesis
        proof (cases "sample_place E l s")
          case None
          with 3 sample nt True show ?thesis
            by (simp add: sample_entry_defs add_us_sample_batch stock_wrote_lost holding_commutes)
        next
          case (Some p)
          with 3 sample nt True show ?thesis
            by (simp add: sample_entry_defs add_us_sample_batch holding_evb stock_wrote_cookie
                map_option_case split: option.split)
        qed
      qed
    qed
  qed
qed

text \<open>The loop over the \<open>n\<close> oldest entries of a ring, while the map of the current task is held.\<close>

abbreviation stock_lasts :: "stock_env \<Rightarrow> stock_locals \<Rightarrow> op_sample list \<Rightarrow> stock_locals" where
  "stock_lasts E l ss \<equiv> fold (\<lambda>s l. stock_next E l s) ss l"

definition stock_ran ::
  "stock_env \<Rightarrow> stock_locals \<Rightarrow> op_sample list \<Rightarrow> event_buffer_state \<Rightarrow> 'h stock_kstate_scheme \<Rightarrow>
   'h stock_kstate_scheme" where
  "stock_ran E l ss e k =
     stock_wrote e (stream_cookie E l (last_cookie k) ss) (count_along lost_no_mm E l ss)
       (count_along (lost_no_mapping E) E l ss) (count_along (lost_trace E) E l ss) k"

lemma stock_sync_loop_runs:
  assumes "ring_ok (cpu_buffer k c)" and "n \<le> length (contents (cpu_buffer k c))"
    and "eb_ok (evb k)" and "unat available < 2 ^ 32" and "j + n = unat available"
    and "\<forall>s \<in> set (contents (cpu_buffer k c)). task_note s \<longrightarrow> event s \<notin> set (freed_tasks k)"
  shows "\<exists>e. let ss = take n (contents (cpu_buffer k c)) in
    add_event_entries (notes_words (stream_notes E l (last_cookie k) ss)) (evb k) = Some e \<and>
    stock_sync_loop E c (of_nat j) available l (holding (st_mm l) k) =
      Some (stock_lasts E l ss, holding (st_mm (stock_lasts E l ss))
        (upd_cpu c (increment_tail ^^ n) (stock_ran E l ss e k)))"
  using assms
proof (induction n arbitrary: j l k)
  case 0
  then have "\<not> ucast (of_nat j :: u32) < available"
    using counter_less [of j available] by linarith
  then show ?case
    by (subst stock_sync_loop.simps)
      (cases k, simp add: stock_ran_def stock_wrote_def upd_cpu_def)
next
  case (Suc n)
  let ?b = "cpu_buffer k c"
  from Suc.prems have lt: "ucast (of_nat j :: u32) < available"
    by (simp add: counter_less)
  from Suc.prems obtain s ss where c: "contents ?b = s # ss" by (cases "contents ?b") auto
  then have front: "tail_entry ?b = Some s" "contents (increment_tail ?b) = ss"
    using ring_front [OF Suc.prems(1)] by simp_all
  let ?l = "stock_next E l s" and ?lc = "cookie_after E l (last_cookie k) s"
  obtain e1 where e1: "eb_ok e1"
    "add_event_entries (notes_words (entry_notes E l (last_cookie k) s)) (evb k) = Some e1"
    using evlog.add_all [OF Suc.prems(3)] by blast
  let ?w = "stock_wrote e1 ?lc (of_bool (lost_no_mm l s)) (of_bool (lost_no_mapping E l s))
              (of_bool (lost_trace E l s)) k"
  let ?k = "upd_cpu c increment_tail ?w"
  obtain e where e:
    "add_event_entries (notes_words (stream_notes E ?l ?lc (take n ss))) e1 = Some e"
    "stock_sync_loop E c (of_nat (Suc j)) available ?l (holding (st_mm ?l) ?k) =
       Some (stock_lasts E ?l (take n ss), holding (st_mm (stock_lasts E ?l (take n ss)))
         (upd_cpu c (increment_tail ^^ n) (stock_ran E ?l (take n ss) e ?k)))"
    using Suc.IH [of ?k "Suc j" ?l] Suc.prems c front(2) e1(1)
    by (auto simp: ring_simps holding_commutes Let_def simp del: of_nat_Suc)
  have "stock_sync_loop E c (of_nat j) available l (holding (st_mm l) k) =
      stock_sync_loop E c (of_nat (Suc j)) available ?l (holding (st_mm ?l) ?k)"
    using lt front(1) e1(2) stock_entry_batch [of s k E l] Suc.prems(6) c
    by (subst stock_sync_loop.simps) (simp add: holding_commutes add.commute)
  moreover have "upd_cpu c (increment_tail ^^ n) (stock_ran E ?l (take n ss) e ?k) =
      upd_cpu c (increment_tail ^^ Suc n) (stock_ran E l (s # take n ss) e k)"
    by (simp add: stock_ran_def holding_commutes upd_cpu_twice comp_def funpow_swap1)
  ultimately show ?case
    using e e1(2) unfolding c
    by (intro exI [of _ e]) (simp add: for_each_append Let_def del: funpow.simps)
qed

section \<open>sync_buffer\<close>

lemma read_cpu_stream:
  "read_notes m t lc (Cpu_note c # stream_notes E stock_start_locals INVALID_COOKIE ss) =
     placed_samples E None stock_start_locals ss"
  using read_stream_notes [of stock_start_locals None INVALID_COOKIE E ss]
  by (simp add: stock_start_locals_def)

lemma stock_sync_buffer_steps:
  assumes "ring_ok (cpu_buffer k c)" and "eb_ok (evb k)"
    and "length (contents (cpu_buffer k c)) < 2 ^ 32"
    and "\<forall>s \<in> set (contents (cpu_buffer k c)). task_note s \<longrightarrow> event s \<notin> set (freed_tasks k)"
  shows "\<exists>e. let ss = contents (cpu_buffer k c) in
    add_event_entries (notes_words (Cpu_note c # stream_notes E stock_start_locals INVALID_COOKIE ss))
      (evb k) = Some e \<and>
    stock_sync_buffer E online c k = Some (stock_mark_done online c
      (upd_cpu c (\<lambda>b. (increment_tail ^^ length ss) (cpu_buffer_reset b))
        (stock_ran E stock_start_locals ss e (k\<lparr>last_cookie := INVALID_COOKIE\<rparr>))))"
proof -
  let ?ss = "contents (cpu_buffer k c)" and ?r = "cpu_buffer_reset (cpu_buffer k c)"
  obtain e1 where e1: "add_cpu_switch c (evb k) = Some e1" "eb_ok e1"
    using evlog.add_all [OF assms(2), of "[ESCAPE_CODE, CPU_SWITCH_CODE, of_nat c]"]
    by (auto simp: event_writers_batch simp del: for_each.simps)
  obtain av where av: "get_slots (cpu_buffer k c) = (av, ?r)"
    using get_slots_reset by (metis prod.collapse)
  then have n: "unat av = length ?ss"
    using unat_get_slots [OF assms(1)] by simp
  let ?k = "k\<lparr>evb := e1, last_cookie := INVALID_COOKIE, cpu_buffer := (cpu_buffer k)(c := ?r)\<rparr>"
  have mm0: "st_mm stock_start_locals = 0" by (simp add: stock_start_locals_def)
  obtain e where e:
    "add_event_entries (notes_words (stream_notes E stock_start_locals INVALID_COOKIE ?ss)) e1 = Some e"
    "stock_sync_loop E c 0 av stock_start_locals ?k =
       Some (stock_lasts E stock_start_locals ?ss,
         holding (st_mm (stock_lasts E stock_start_locals ?ss))
           (upd_cpu c (increment_tail ^^ length ?ss) (stock_ran E stock_start_locals ?ss e ?k)))"
    using stock_sync_loop_runs [of ?k c "length ?ss" av 0 E stock_start_locals] assms e1 n mm0
    by (auto simp: ring_simps Let_def)
  have "upd_cpu c (increment_tail ^^ length ?ss) (stock_ran E stock_start_locals ?ss e ?k) =
      upd_cpu c (\<lambda>b. (increment_tail ^^ length ?ss) (cpu_buffer_reset b))
        (stock_ran E stock_start_locals ?ss e (k\<lparr>last_cookie := INVALID_COOKIE\<rparr>))"
    by (simp add: stock_ran_def stock_wrote_def upd_cpu_def)
  moreover have "add_event_entries
      (notes_words (Cpu_note c # stream_notes E stock_start_locals INVALID_COOKIE ?ss)) (evb k) = Some e"
    using for_each_append [of add_event_entry "[ESCAPE_CODE, CPU_SWITCH_CODE, of_nat c]"
        "notes_words (stream_notes E stock_start_locals INVALID_COOKIE ?ss)" "evb k"] e1(1) e(1)
    by (simp add: event_writers_batch del: for_each.simps)
  ultimately show ?thesis
    using e(2) e1(1) av
    by (intro exI [of _ e])
      (simp add: stock_sync_buffer_def stock_add_cpu_switch_def Let_def)
qed

lemma stock_ran_simps [simp]:
  "cpu_buffer (stock_ran E l ss e k) = cpu_buffer k" "evb (stock_ran E l ss e k) = e"
  "mm_users (stock_ran E l ss e k) = mm_users k"
  "mmap_readers (stock_ran E l ss e k) = mmap_readers k"
  "dying_tasks (stock_ran E l ss e k) = dying_tasks k"
  "dead_tasks (stock_ran E l ss e k) = dead_tasks k"
  "freed_tasks (stock_ran E l ss e k) = freed_tasks k"
  "marked_cpus (stock_ran E l ss e k) = marked_cpus k"
  by (simp_all add: stock_ran_def stock_wrote_def)

lemma stock_upd_cpu_simps [simp]:
  "mm_users (upd_cpu c f k) = mm_users k" "mmap_readers (upd_cpu c f k) = mmap_readers k"
  "dying_tasks (upd_cpu c f k) = dying_tasks k" "dead_tasks (upd_cpu c f k) = dead_tasks k"
  "freed_tasks (upd_cpu c f k) = freed_tasks k" "notifiers (upd_cpu c f k) = notifiers k"
  by (simp_all add: upd_cpu_def)

lemma stock_mark_done_frame [simp]:
  "cpu_buffer (stock_mark_done online c k) = cpu_buffer k" "evb (stock_mark_done online c k) = evb k"
  "mm_users (stock_mark_done online c k) = mm_users k"
  "mmap_readers (stock_mark_done online c k) = mmap_readers k"
  by (simp_all add: stock_mark_done_def process_task_mortuary_def Let_def)

text \<open>What marking a CPU does to the marks and to the mortuary\<close>

definition mortuary_after ::
  "nat list \<Rightarrow> nat \<Rightarrow> 'h stock_kstate_scheme \<Rightarrow> 'h stock_kstate_scheme \<Rightarrow> bool" where
  "mortuary_after online c k k' \<longleftrightarrow>
    (if set online \<subseteq> insert c (marked_cpus k)
     then marked_cpus k' = {} \<and> dying_tasks k' = [] \<and> dead_tasks k' = dying_tasks k \<and>
       freed_tasks k' = freed_tasks k @ dead_tasks k
     else marked_cpus k' = insert c (marked_cpus k) \<and> dying_tasks k' = dying_tasks k \<and>
       dead_tasks k' = dead_tasks k \<and> freed_tasks k' = freed_tasks k)"

lemma mortuary_after_mark:
  assumes "marked_cpus k = marked_cpus k0" "dying_tasks k = dying_tasks k0"
    "dead_tasks k = dead_tasks k0" "freed_tasks k = freed_tasks k0"
  shows "mortuary_after online c k0 (stock_mark_done online c k)"
  using assms
  by (auto simp: mortuary_after_def stock_mark_done_def process_task_mortuary_def Let_def)

text \<open>C31: Without \<^verbatim>\<open>RRPROFILE\<close>, synchronising a CPU whose ring refers to no freed task ends and never
  faults. It empties the ring and writes notes from which a reader gets back, for every sample
  that has a place, the task that ran, the place and the event; it gives back every reference to
  a memory map, and when it completes a round over the online CPUs it frees the tasks that were
  dead and declares dead those that were dying.\<close>

theorem stock_sync_buffer_places:
  assumes "ring_ok (cpu_buffer k c)" and "eb_ok (evb k)"
    and "length (contents (cpu_buffer k c)) < 2 ^ 32"
    and "\<forall>s \<in> set (contents (cpu_buffer k c)). task_note s \<longrightarrow> event s \<notin> set (freed_tasks k)"
  shows "\<exists>k' ns. stock_sync_buffer E online c k = Some k' \<and>
    ring_ok (cpu_buffer k' c) \<and> contents (cpu_buffer k' c) = [] \<and>
    (\<forall>i. i \<noteq> c \<longrightarrow> cpu_buffer k' i = cpu_buffer k i) \<and>
    eb_ok (evb k') \<and>
    ev_words (evb k') = take (eb_cap (evb k)) (ev_words (evb k) @ notes_words ns) \<and>
    (\<forall>m t lc. read_notes m t lc ns =
       placed_samples E None stock_start_locals (contents (cpu_buffer k c))) \<and>
    mm_users k' = mm_users k \<and> mmap_readers k' = mmap_readers k \<and>
    mortuary_after online c k k'"
proof -
  let ?ss = "contents (cpu_buffer k c)"
  let ?ns = "Cpu_note c # stream_notes E stock_start_locals INVALID_COOKIE ?ss"
  obtain e where e: "add_event_entries (notes_words ?ns) (evb k) = Some e"
    "stock_sync_buffer E online c k = Some (stock_mark_done online c
      (upd_cpu c (\<lambda>b. (increment_tail ^^ length ?ss) (cpu_buffer_reset b))
        (stock_ran E stock_start_locals ?ss e (k\<lparr>last_cookie := INVALID_COOKIE\<rparr>))))"
    (is "_ = Some (stock_mark_done online c ?k)")
    using stock_sync_buffer_steps [OF assms] by (auto simp: Let_def)
  have r: "ring_ok (cpu_buffer_reset (cpu_buffer k c))" using assms(1) by (simp add: ring_simps)
  have "contents (cpu_buffer ?k c) = []" "ring_ok (cpu_buffer ?k c)"
    using drained_ring [OF r] by (simp_all add: ring_simps)
  moreover have "mortuary_after online c k (stock_mark_done online c ?k)"
    by (rule mortuary_after_mark) simp_all
  moreover have "eb_ok e" "ev_words e = take (eb_cap (evb k)) (ev_words (evb k) @ notes_words ?ns)"
    using evlog.add_all [OF assms(2), of "notes_words ?ns"] e(1) by auto
  ultimately show ?thesis
    using e(2) read_cpu_stream [of _ _ _ c E ?ss]
    by (intro exI [of _ "stock_mark_done online c ?k"] exI [of _ ?ns])
      (simp del: read_notes.simps list.map concat.simps)
qed

end
