(* ===== verification/Task_Mortuary.thy ===== *)
theory Task_Mortuary
  imports Stock_Behaviour
begin

text \<open>
  Why the mortuary of \<^verbatim>\<open>driver/buffer_sync.c\<close> has two lists. Interrupts log the tasks they
  meet into the rings, tasks exit and are handed over, and \<^verbatim>\<open>sync_buffer\<close> runs entry by entry, all
  interleaved; a task may be freed only when no ring refers to it. \<open>live\<close> are the tasks that
  exist and have not been handed over, \<open>in_sync\<close> is the CPU that \<^verbatim>\<open>sync_buffer\<close> works on, with the
  number of acquired entries that are left; \<^verbatim>\<open>buffer_mutex\<close> allows one at a time. The callbacks are
  registered, and the set of online CPUs does not change.
\<close>

record mortuary_sys =
  ks :: stock_kstate
  live :: "ulong set"
  in_sync :: "(nat \<times> nat) option"

text \<open>What an interrupt handler may do to the ring of its CPU while \<open>task\<close> runs\<close>

inductive stock_write :: "task_struct \<Rightarrow> oprofile_cpu_buffer \<Rightarrow> oprofile_cpu_buffer \<Rightarrow> bool"
  for task where
  sample: "stock_log_sample task b pc k ev = Some (r, b') \<Longrightarrow> stock_write task b b'"
| begin_trace: "oprofile_begin_trace b = Some (r, b') \<Longrightarrow> stock_write task b b'"
| trace: "oprofile_add_trace pc b = Some b' \<Longrightarrow> stock_write task b b'"
| end_trace: "stock_write task b (oprofile_end_trace b)"

abbreviation set_cpu :: "nat \<Rightarrow> oprofile_cpu_buffer \<Rightarrow> stock_kstate \<Rightarrow> stock_kstate" where
  "set_cpu c b k \<equiv> k\<lparr>cpu_buffer := (cpu_buffer k)(c := b)\<rparr>"

text \<open>
  The steps. A new task may get the address of a freed one. The steps of \<^verbatim>\<open>sync_buffer\<close> are:
  reading how much there is (\<^verbatim>\<open>get_slots\<close>), resetting the switch notes, each entry, and
  \<^verbatim>\<open>mark_done\<close>.
\<close>

inductive mortuary_step :: "nat list \<Rightarrow> mortuary_sys \<Rightarrow> mortuary_sys \<Rightarrow> bool" for online where
  interrupt:
    "c \<in> set online \<Longrightarrow> task_addr task \<in> live s \<Longrightarrow>
     stock_write task (cpu_buffer (ks s) c) b \<Longrightarrow>
     mortuary_step online s (s\<lparr>ks := set_cpu c b (ks s)\<rparr>)"
| new_task:
    "t \<notin> live s \<union> set (dying_tasks (ks s)) \<union> set (dead_tasks (ks s)) \<Longrightarrow>
     mortuary_step online s (s\<lparr>live := insert t (live s),
       ks := (ks s)\<lparr>freed_tasks := removeAll t (freed_tasks (ks s))\<rparr>\<rparr>)"
| handed_over:
    "t \<in> live s \<Longrightarrow>
     mortuary_step online s (s\<lparr>live := live s - {t}, ks := task_free_notify t (ks s)\<rparr>)"
| acquire:
    "in_sync s = None \<Longrightarrow> c \<in> set online \<Longrightarrow>
     mortuary_step online s (s\<lparr>in_sync := Some (c, unat (fst (get_slots (cpu_buffer (ks s) c))))\<rparr>)"
| reset_notes:
    "in_sync s = Some (c, n) \<Longrightarrow>
     mortuary_step online s (s\<lparr>ks := set_cpu c (cpu_buffer_reset (cpu_buffer (ks s) c)) (ks s)\<rparr>)"
| take_entry:
    "in_sync s = Some (c, Suc n) \<Longrightarrow>
     mortuary_step online s (s\<lparr>in_sync := Some (c, n),
       ks := set_cpu c (increment_tail (cpu_buffer (ks s) c)) (ks s)\<rparr>)"
| finish:
    "in_sync s = Some (c, 0) \<Longrightarrow>
     mortuary_step online s (s\<lparr>in_sync := None, ks := stock_mark_done online c (ks s)\<rparr>)"

inductive mortuary_reach :: "nat list \<Rightarrow> mortuary_sys \<Rightarrow> mortuary_sys \<Rightarrow> bool" for online s0 where
  initial: "mortuary_reach online s0 s0"
| further: "mortuary_reach online s0 s \<Longrightarrow> mortuary_step online s t \<Longrightarrow> mortuary_reach online s0 t"

section \<open>The invariant\<close>

definition refs :: "op_sample list \<Rightarrow> ulong set" where
  "refs ss = event ` {s \<in> set ss. task_note s}"

lemma refs_simps [simp]:
  "refs [] = {}" "refs (xs @ ys) = refs xs \<union> refs ys"
  "refs (s # ss) = (if task_note s then insert (event s) (refs ss) else refs ss)"
  by (auto simp: refs_def)

text \<open>A writer appends entries that refer to no other task than the one that runs.\<close>

lemma stock_write_appends:
  assumes "stock_write task b b'" and "ring_ok b"
  shows "ring_ok b' \<and> (\<exists>es. contents b' = contents b @ es \<and> refs es \<subseteq> {task_addr task})"
  using assms
proof cases
  case (sample pc k ev r)
  have "refs (stock_log_entries b task pc k ev) \<subseteq> {task_addr task}" if r
  proof -
    have "pc \<noteq> ESCAPE_CODE" using sample that by (auto simp: stock_log_sample_def)
    then show ?thesis
      by (auto simp: stock_log_entries_def mode_note_def stock_task_note_def task_note_def
          mode_of_def cpu_code_defs split: if_splits)
  qed
  with sample stock_log_sample_never_overruns [OF assms(2), of task pc k ev] show ?thesis
    by (auto split: if_splits)
next
  case (begin_trace r)
  with assms(2) show ?thesis
    by (auto simp: oprofile_begin_trace_def add_code_def ring_simps task_note_def
        split: if_splits)
next
  case (trace pc)
  with assms(2) length_contents_le [OF assms(2)] show ?thesis
    by (auto simp: oprofile_add_trace_def ring_simps task_note_def split: if_splits)
next
  case end_trace
  with assms(2) show ?thesis by (auto simp: oprofile_end_trace_def ring_simps intro: exI [of _ "[]"])
qed

text \<open>
  Rings refer to no freed task; what is dead is not referred to by a CPU that has been
  synchronised in this round, nor by the entries that come after those a running
  synchronisation has acquired.
\<close>

definition rings_refer_ok :: "nat list \<Rightarrow> mortuary_sys \<Rightarrow> bool" where
  "rings_refer_ok online s \<longleftrightarrow>
    (\<forall>c \<in> set online. ring_ok (cpu_buffer (ks s) c) \<and>
       refs (contents (cpu_buffer (ks s) c)) \<subseteq>
         live s \<union> set (dying_tasks (ks s)) \<union> set (dead_tasks (ks s)) \<and>
       (c \<in> marked_cpus (ks s) \<longrightarrow>
          refs (contents (cpu_buffer (ks s) c)) \<inter> set (dead_tasks (ks s)) = {}))"

definition tasks_apart :: "mortuary_sys \<Rightarrow> bool" where
  "tasks_apart s \<longleftrightarrow>
    distinct (dying_tasks (ks s) @ dead_tasks (ks s) @ freed_tasks (ks s)) \<and>
    live s \<inter> set (dying_tasks (ks s) @ dead_tasks (ks s) @ freed_tasks (ks s)) = {}"

definition sync_refer_ok :: "nat list \<Rightarrow> mortuary_sys \<Rightarrow> bool" where
  "sync_refer_ok online s \<longleftrightarrow>
    (\<forall>c n. in_sync s = Some (c, n) \<longrightarrow> c \<in> set online \<and>
       n \<le> length (contents (cpu_buffer (ks s) c)) \<and>
       refs (drop n (contents (cpu_buffer (ks s) c))) \<inter> set (dead_tasks (ks s)) = {})"

definition mortuary_inv :: "nat list \<Rightarrow> mortuary_sys \<Rightarrow> bool" where
  "mortuary_inv online s \<longleftrightarrow> rings_refer_ok online s \<and> tasks_apart s \<and> sync_refer_ok online s"

lemmas mortuary_inv_defs =
  mortuary_inv_def rings_refer_ok_def tasks_apart_def sync_refer_ok_def

lemma mortuary_step_inv:
  assumes "mortuary_step online s t" and "mortuary_inv online s"
  shows "mortuary_inv online t"
  using assms
proof (induction rule: mortuary_step.induct)
  case (interrupt c task s b)
  let ?b = "cpu_buffer (ks s) c"
  from interrupt have "ring_ok ?b" by (simp add: mortuary_inv_defs)
  with stock_write_appends [OF interrupt(3)] obtain es where
    es: "ring_ok b" "contents b = contents ?b @ es" "refs es \<subseteq> {task_addr task}" by blast
  with interrupt have "refs es \<inter> set (dead_tasks (ks s)) = {}" "refs es \<subseteq> live s"
    by (auto simp: mortuary_inv_defs)
  with interrupt.prems es show ?case by (auto simp: mortuary_inv_defs)
next
  case (new_task t s)
  then show ?case by (auto simp: mortuary_inv_defs distinct_removeAll)
next
  case (handed_over t s)
  then show ?case by (auto simp: mortuary_inv_defs task_free_notify_def)
next
  case (acquire s c)
  then show ?case by (auto simp: mortuary_inv_defs ring_simps)
next
  case (reset_notes s c n)
  then show ?case by (auto simp: mortuary_inv_defs ring_simps)
next
  case (take_entry s c n)
  let ?b = "cpu_buffer (ks s) c"
  from take_entry have ok: "ring_ok ?b" "contents ?b \<noteq> []" by (auto simp: mortuary_inv_defs)
  then obtain x xs where xs: "contents ?b = x # xs" by (cases "contents ?b") auto
  then have rest: "contents (increment_tail ?b) = xs" "refs xs \<subseteq> refs (contents ?b)"
    using ring_front(2) [OF ok] by auto
  from take_entry have r:
    "refs (contents ?b) \<subseteq> live s \<union> set (dying_tasks (ks s)) \<union> set (dead_tasks (ks s))"
    "c \<in> marked_cpus (ks s) \<longrightarrow> refs (contents ?b) \<inter> set (dead_tasks (ks s)) = {}"
    and "Suc n \<le> length (contents ?b)"
    "refs (drop (Suc n) (contents ?b)) \<inter> set (dead_tasks (ks s)) = {}"
    by (simp_all add: mortuary_inv_defs)
  then have "n \<le> length xs" "refs (drop n xs) \<inter> set (dead_tasks (ks s)) = {}"
    by (simp_all add: xs)
  moreover from r rest(2) have
    "refs xs \<subseteq> live s \<union> set (dying_tasks (ks s)) \<union> set (dead_tasks (ks s))"
    "c \<in> marked_cpus (ks s) \<longrightarrow> refs xs \<inter> set (dead_tasks (ks s)) = {}"
    by blast+
  ultimately show ?case using take_entry ok rest(1)
    by (auto simp: mortuary_inv_defs ring_simps)
next
  case (finish s c)
  let ?refs = "\<lambda>d. refs (contents (cpu_buffer (ks s) d))"
  show ?case
  proof (cases "\<exists>i \<in> set online. i \<notin> insert c (marked_cpus (ks s))")
    case True
    with finish show ?thesis by (auto simp: mortuary_inv_defs stock_mark_done_def)
  next
    case False
    from finish have "?refs c \<inter> set (dead_tasks (ks s)) = {}" by (simp add: mortuary_inv_defs)
    moreover from finish have
      "\<forall>d \<in> set online. ?refs d \<subseteq> live s \<union> set (dying_tasks (ks s)) \<union> set (dead_tasks (ks s))"
      "\<forall>d \<in> set online. d \<in> marked_cpus (ks s) \<longrightarrow> ?refs d \<inter> set (dead_tasks (ks s)) = {}"
      by (simp_all add: mortuary_inv_defs)
    ultimately have "?refs d \<subseteq> live s \<union> set (dying_tasks (ks s))" if "d \<in> set online" for d
      using False that by (cases "d = c") blast+
    with False finish show ?thesis
      by (auto simp: mortuary_inv_defs stock_mark_done_def process_task_mortuary_def Let_def)
  qed
qed

lemma mortuary_reach_inv:
  "mortuary_reach online s0 s \<Longrightarrow> mortuary_inv online s0 \<Longrightarrow> mortuary_inv online s"
  by (induction rule: mortuary_reach.induct) (auto intro: mortuary_step_inv)

lemma mortuary_refs_not_freed:
  assumes "mortuary_inv online s" and "c \<in> set online"
  shows "refs (contents (cpu_buffer (ks s) c)) \<inter> set (freed_tasks (ks s)) = {}"
proof -
  from assms have "refs (contents (cpu_buffer (ks s) c)) \<subseteq>
      live s \<union> set (dying_tasks (ks s)) \<union> set (dead_tasks (ks s))"
    by (simp add: mortuary_inv_defs)
  moreover from assms have "(live s \<union> set (dying_tasks (ks s)) \<union> set (dead_tasks (ks s))) \<inter>
      set (freed_tasks (ks s)) = {}"
    by (auto simp: mortuary_inv_defs)
  ultimately show ?thesis by blast
qed

text \<open>Before the first task is handed over, with empty rings.\<close>

definition mortuary_start :: "nat list \<Rightarrow> mortuary_sys \<Rightarrow> bool" where
  "mortuary_start online s \<longleftrightarrow>
    (\<forall>c \<in> set online. ring_ok (cpu_buffer (ks s) c) \<and> contents (cpu_buffer (ks s) c) = []) \<and>
    dying_tasks (ks s) = [] \<and> dead_tasks (ks s) = [] \<and> distinct (freed_tasks (ks s)) \<and>
    live s \<inter> set (freed_tasks (ks s)) = {} \<and> in_sync s = None"

lemma mortuary_start_inv: "mortuary_start online s \<Longrightarrow> mortuary_inv online s"
  by (simp add: mortuary_start_def mortuary_inv_defs)

section \<open>What follows\<close>

text \<open>C30: However interrupts, exits of tasks and synchronisations interleave, a running
  synchronisation finds an entry for every slot it has acquired, and an entry that names a task
  names one that has not been freed, so its memory map can be taken; and no task is freed twice.\<close>

theorem mortuary_no_use_after_free:
  assumes "mortuary_start online s0" and "mortuary_reach online s0 s"
  shows "distinct (freed_tasks (ks s)) \<and>
    set (dead_tasks (ks s)) \<inter> set (freed_tasks (ks s)) = {} \<and>
    (\<forall>c n. in_sync s = Some (c, Suc n) \<longrightarrow>
      (\<exists>x. tail_entry (cpu_buffer (ks s) c) = Some x \<and>
         (task_note x \<longrightarrow> take_tasks_mm E (event x) (ks s) \<noteq> None)))"
proof -
  have inv: "mortuary_inv online s"
    using mortuary_reach_inv [OF assms(2) mortuary_start_inv [OF assms(1)]] .
  have "\<exists>x. tail_entry (cpu_buffer (ks s) c) = Some x \<and>
      (task_note x \<longrightarrow> take_tasks_mm E (event x) (ks s) \<noteq> None)"
    if sync: "in_sync s = Some (c, Suc n)" for c n
  proof -
    let ?b = "cpu_buffer (ks s) c"
    from inv sync have ok: "ring_ok ?b" "contents ?b \<noteq> []" "c \<in> set online"
      by (auto simp: mortuary_inv_defs)
    have "event x \<notin> set (freed_tasks (ks s))" if "task_note x" "x \<in> set (contents ?b)" for x
      using that mortuary_refs_not_freed [OF inv ok(3)] by (auto simp: refs_def)
    with ring_front(1) [OF ok(1,2)] ok(2) show ?thesis
      by (auto simp: take_tasks_mm_def Let_def)
  qed
  with inv show ?thesis by (auto simp: mortuary_inv_defs)
qed

text \<open>A CPU of the list that is marked, in the middle of a round: what the marks do.\<close>

lemma stock_mark_round:
  assumes "distinct (cs @ ds)" and "ds \<noteq> []" and "marked_cpus k = set cs"
  shows "\<exists>k'. fold (stock_mark_done (cs @ ds)) ds k = k' \<and> marked_cpus k' = {} \<and>
    dying_tasks k' = [] \<and> dead_tasks k' = dying_tasks k \<and>
    freed_tasks k' = freed_tasks k @ dead_tasks k"
  using assms
proof (induction ds arbitrary: cs k)
  case Nil
  then show ?case by simp
next
  case (Cons d ds)
  show ?case
  proof (cases "ds = []")
    case True
    with Cons.prems show ?thesis
      by (simp add: stock_mark_done_def process_task_mortuary_def Let_def)
  next
    case False
    let ?k = "stock_mark_done (cs @ d # ds) d k"
    have k: "?k = k\<lparr>marked_cpus := insert d (marked_cpus k)\<rparr>"
      using False Cons.prems by (cases ds) (auto simp: stock_mark_done_def Let_def)
    with Cons.IH [of "cs @ [d]" ?k] Cons.prems False show ?thesis by simp
  qed
qed

text \<open>No task is kept for ever: after two rounds in which every online CPU is synchronised once,
  in any order, all tasks that were handed over before have been freed.\<close>

theorem mortuary_two_rounds_free_all:
  assumes "distinct online" and "online \<noteq> []" and "marked_cpus k = {}"
  shows "freed_tasks (fold (stock_mark_done online) (online @ online) k) =
      freed_tasks k @ dead_tasks k @ dying_tasks k \<and>
    dead_tasks (fold (stock_mark_done online) (online @ online) k) = [] \<and>
    dying_tasks (fold (stock_mark_done online) (online @ online) k) = []"
proof -
  let ?k = "fold (stock_mark_done online) online k"
  from stock_mark_round [of "[]" online k] assms
  have k: "marked_cpus ?k = {}" "dying_tasks ?k = []" "dead_tasks ?k = dying_tasks k"
    "freed_tasks ?k = freed_tasks k @ dead_tasks k" by auto
  from stock_mark_round [of "[]" online ?k] assms k show ?thesis by auto
qed

text \<open>Between synchronisations a whole run of \<^verbatim>\<open>sync_buffer\<close> on an online CPU is safe.\<close>

theorem mortuary_sync_never_faults:
  assumes "mortuary_start online s0" and "mortuary_reach online s0 s" and "c \<in> set online"
    and "eb_ok (evb (ks s))" and "length (contents (cpu_buffer (ks s) c)) < 2 ^ 32"
  shows "stock_sync_buffer E online c (ks s) \<noteq> None"
proof -
  have inv: "mortuary_inv online s"
    using mortuary_reach_inv [OF assms(2) mortuary_start_inv [OF assms(1)]] .
  with assms(3) have "ring_ok (cpu_buffer (ks s) c)" by (simp add: mortuary_inv_defs)
  from stock_sync_buffer_steps [OF this assms(4,5)] mortuary_refs_not_freed [OF inv assms(3)]
  show ?thesis by (fastforce simp: refs_def Let_def)
qed

section \<open>Start and stop\<close>

lemma fold_upd_mortuary:
  "notifiers (fold (\<lambda>i. upd_cpu i f) is k) = notifiers k"
  "dying_tasks (fold (\<lambda>i. upd_cpu i f) is k) = dying_tasks k"
  "dead_tasks (fold (\<lambda>i. upd_cpu i f) is k) = dead_tasks k"
  "freed_tasks (fold (\<lambda>i. upd_cpu i f) is k) = freed_tasks k"
  by (induction "is" arbitrary: k) simp_all

lemma stock_end_sync_state:
  "notifiers (stock_end_sync online k) = notifiers k" "\<not> work_enabled (stock_end_sync online k)"
  "dying_tasks (stock_end_sync online k) = []" "dead_tasks (stock_end_sync online k) = []"
  "freed_tasks (stock_end_sync online k) = freed_tasks k @ dead_tasks k @ dying_tasks k"
proof -
  have "notifiers (end_cpu_work online k) = notifiers k"
    "dying_tasks (end_cpu_work online k) = dying_tasks k"
    "dead_tasks (end_cpu_work online k) = dead_tasks k"
    "freed_tasks (end_cpu_work online k) = freed_tasks k"
    using fold_upd_mortuary [of _ online "k\<lparr>work_enabled := False\<rparr>"]
    by (simp_all add: end_cpu_work_def)
  with end_cpu_work_state(3) [of online k]
  show "notifiers (stock_end_sync online k) = notifiers k" "\<not> work_enabled (stock_end_sync online k)"
    "dying_tasks (stock_end_sync online k) = []" "dead_tasks (stock_end_sync online k) = []"
    "freed_tasks (stock_end_sync online k) = freed_tasks k @ dead_tasks k @ dying_tasks k"
    by (simp_all add: stock_end_sync_def process_task_mortuary_def Let_def)
qed

text \<open>Starting synchronisation registers all four callbacks, or none and stops the periodic work
  again; the error is that of the first registration that failed.\<close>

theorem stock_sync_start_all_or_nothing:
  assumes "stock_sync_start result online k = (err, k')" and "notifiers k = {}"
  shows "err = (if \<forall>n. result n = rc_ok then rc_ok
      else the (find (\<lambda>r. r \<noteq> rc_ok)
        (map result [task_free_nb, task_exit_nb, munmap_nb, module_load_nb]))) \<and>
    (if err = rc_ok then notifiers k' = UNIV \<and> work_enabled k'
     else notifiers k' = {} \<and> \<not> work_enabled k')"
proof -
  have univ: "(UNIV :: notifier set) = {task_free_nb, task_exit_nb, munmap_nb, module_load_nb}"
    by (auto intro: notifier.exhaust)
  have start: "notifiers (start_cpu_work online k) = {}" "work_enabled (start_cpu_work online k)"
    using fold_upd_mortuary [of _ online "k\<lparr>work_enabled := True\<rparr>"] assms(2)
      start_cpu_work_state(3) [of online k]
    by (simp_all add: start_cpu_work_def)
  have all: "(\<forall>n. result n = rc_ok) \<longleftrightarrow> result task_free_nb = rc_ok \<and> result task_exit_nb = rc_ok \<and>
      result munmap_nb = rc_ok \<and> result module_load_nb = rc_ok"
    by (metis notifier.exhaust)
  show ?thesis
    using assms(1) start unfolding all
    by (auto simp: stock_sync_start_def register_def unregister_def Let_def univ
        stock_end_sync_state split: sum.splits if_splits)
qed

text \<open>Stopping removes the callbacks, ends the periodic work, and frees every task that was
  handed over.\<close>

theorem stock_sync_stop_frees_all:
  "notifiers (stock_sync_stop online k) = {} \<and> \<not> work_enabled (stock_sync_stop online k) \<and>
   dying_tasks (stock_sync_stop online k) = [] \<and> dead_tasks (stock_sync_stop online k) = [] \<and>
   freed_tasks (stock_sync_stop online k) = freed_tasks k @ dead_tasks k @ dying_tasks k"
proof -
  have "n \<in> {module_load_nb, munmap_nb, task_exit_nb, task_free_nb}" for n
    by (cases n) simp_all
  then show ?thesis
    by (auto simp: stock_sync_stop_def stock_end_sync_state unregister_def)
qed

text \<open>
  While \<^verbatim>\<open>sync_stop\<close> runs: it takes the callbacks away first and waits for running work only then.
  A task that exits in between is freed by the kernel at once.
\<close>

inductive stop_step :: "nat list \<Rightarrow> mortuary_sys \<Rightarrow> mortuary_sys \<Rightarrow> bool" for online where
  unregisters:
    "stop_step online s (s\<lparr>ks := unregister task_free_nb (unregister task_exit_nb
       (unregister munmap_nb (unregister module_load_nb (ks s))))\<rparr>)"
| exits:
    "t \<in> live s \<Longrightarrow> task_free_nb \<notin> notifiers (ks s) \<Longrightarrow>
     stop_step online s (s\<lparr>live := live s - {t},
       ks := (ks s)\<lparr>freed_tasks := freed_tasks (ks s) @ [t]\<rparr>\<rparr>)"

text \<open>So stopping is not safe: if the running synchronisation has yet to take an entry that
  names a task which still exists, there is a run in which it finds that task freed.\<close>

theorem stop_order_uses_freed_task:
  assumes "in_sync s = Some (c, Suc n)" and "tail_entry (cpu_buffer (ks s) c) = Some x"
    and "task_note x" and "event x \<in> live s"
  shows "\<exists>s1 s2. stop_step online s s1 \<and> stop_step online s1 s2 \<and> in_sync s2 = Some (c, Suc n) \<and>
    tail_entry (cpu_buffer (ks s2) c) = Some x \<and> take_tasks_mm E (event x) (ks s2) = None"
proof -
  let ?s1 = "s\<lparr>ks := unregister task_free_nb (unregister task_exit_nb
       (unregister munmap_nb (unregister module_load_nb (ks s))))\<rparr>"
  have "stop_step online s ?s1" by (rule stop_step.unregisters)
  moreover have "event x \<in> live ?s1" "task_free_nb \<notin> notifiers (ks ?s1)"
    using assms(4) by (simp_all add: unregister_def)
  from stop_step.exits [OF this, of online]
  have "stop_step online ?s1 (?s1\<lparr>live := live ?s1 - {event x},
      ks := (ks ?s1)\<lparr>freed_tasks := freed_tasks (ks ?s1) @ [event x]\<rparr>\<rparr>)" .
  ultimately show ?thesis
    using assms(1,2) by (intro exI conjI) (assumption+, simp_all add: unregister_def take_tasks_mm_def)
qed

end
