(* ===== verification/Stock_Witnesses.thy ===== *)
theory Stock_Witnesses
  imports Task_Mortuary Witnesses
begin

text \<open>
  Concrete states for the theorems on the stock configuration: a task with one mapped file, a
  sample of it in the ring of CPU 0, and the states of the mortuary around it.
\<close>

definition ex_file :: path where
  "ex_file = \<lparr>dentry = 0x5000, d_cookie = False\<rparr>"

definition ex_area :: vm_area where
  "ex_area = \<lparr>vm_start = 0x400000, vm_end = 0x500000, vm_pgoff = 2, vm_flags = 0x1004,
              vm_file = Some ex_file\<rparr>"

definition ex_vm :: vm_calls where
  "ex_vm = \<lparr>find_vma = (\<lambda>vs addr. dropWhile (\<lambda>v. vm_end v \<le> addr) vs), get_dcookie = dentry\<rparr>"

definition ex_tasks :: stock_env where
  "ex_tasks = \<lparr>task_at = (\<lambda>_. ex_task), task_mm = (\<lambda>_. 0x9000), mmap = (\<lambda>_. [ex_area]),
               vm_ops = ex_vm\<rparr>"

lemma ex_vm_ok: "vm_calls_ok ex_vm" "mmap_ok [ex_area]"
  by (simp_all add: vm_calls_ok_def ex_vm_def mmap_ok_def ex_area_def)

theorem lookup_dcookie_finds_mapping_witness:
  "lookup_dcookie ex_vm [ex_area] 0x400010 0 = (0x5000, 0x2010) \<and>
   lookup_dcookie ex_vm [ex_area] 0x300000 0 = (INVALID_COOKIE, 0)"
  using lookup_dcookie_finds_mapping [OF ex_vm_ok, of "0x400010" 0]
    lookup_dcookie_finds_mapping [OF ex_vm_ok, of "0x300000" 0]
  by (simp add: covers_def place_in_def ex_area_def ex_file_def PAGE_SHIFT_def)

section \<open>A ring with a sample\<close>

text \<open>A sample in user space at \<open>0x400010\<close> with event 3, logged into the fresh ring\<close>

definition ex_stock_ring :: oprofile_cpu_buffer where
  "ex_stock_ring = snd (the (stock_log_sample ex_task ex_ring 0x400010 0 3))"

abbreviation ex_sample :: op_sample where
  "ex_sample \<equiv> \<lparr>eip = 0x400010, event = 3, timestamp = 0\<rparr>"

lemma ex_stock_log:
  "stock_log_sample ex_task ex_ring 0x400010 0 3 = Some (True, ex_stock_ring)"
  "ring_ok ex_stock_ring"
  "contents ex_stock_ring = [code_entry 0, code_entry 65536, ex_sample]"
proof -
  let ?es = "stock_log_entries ex_ring ex_task 0x400010 0 3"
  obtain r b where l: "stock_log_sample ex_task ex_ring 0x400010 0 3 = Some (r, b)" "ring_ok b"
    "contents b = (if r then ?es else [])"
    using stock_log_sample_never_overruns [OF ex_ring(1), where task = ex_task and pc = "0x400010"
        and k = 0 and ev = 3] ex_ring(2) by auto
  then have r: r
    using ex_ring stock_log_accept [OF ex_ring(1), where pc = "0x400010" and task = ex_task
        and k = 0 and ev = 3]
    by (simp add: ESCAPE_CODE_def)
  have "?es = [code_entry 0, code_entry 65536, ex_sample]"
    using ex_ring by (simp add: stock_log_entries_def mode_note_def stock_task_note_def mode_of_def
        ex_task_def)
  with l r show "stock_log_sample ex_task ex_ring 0x400010 0 3 = Some (True, ex_stock_ring)"
    "ring_ok ex_stock_ring" "contents ex_stock_ring = [code_entry 0, code_entry 65536, ex_sample]"
    by (simp_all add: ex_stock_ring_def)
qed

theorem stock_log_sample_never_overruns_witness:
  "\<exists>r b'. stock_log_sample ex_task ex_ring_full 8192 1 3 = Some (r, b') \<and> ring_ok b'"
  using stock_log_sample_never_overruns [OF ex_ring_full(1), where task = ex_task and pc = 8192
      and k = 1 and ev = 3] by blast

definition ex_stock_kernel :: "oprofile_cpu_buffer \<Rightarrow> stock_kstate" where
  "ex_stock_kernel b =
     \<lparr>cpu_buffer = (\<lambda>_. b), evb = ex_evb, marked_cpus = {}, work_enabled = True,
      sample_lost_no_mm = 0, sample_lost_no_mapping = 0, bt_lost_no_mapping = 0,
      oprofile_timer_count = 10, dying_tasks = [], dead_tasks = [], last_cookie = INVALID_COOKIE,
      freed_tasks = [], mm_users = (\<lambda>_. 1), mmap_readers = (\<lambda>_. 0), notifiers = UNIV\<rparr>"

lemma ex_stock_kernel [simp]:
  "cpu_buffer (ex_stock_kernel b) i = b" "evb (ex_stock_kernel b) = ex_evb"
  "freed_tasks (ex_stock_kernel b) = []" "dead_tasks (ex_stock_kernel b) = []"
  "dying_tasks (ex_stock_kernel b) = []" "marked_cpus (ex_stock_kernel b) = {}"
  "mm_users (ex_stock_kernel b) m = 1"
  by (simp_all add: ex_stock_kernel_def)

text \<open>The sample is found at offset \<open>0x2010\<close> of the file with cookie \<open>0x5000\<close>.\<close>

lemma ex_placed:
  "placed_samples ex_tasks None stock_start_locals [code_entry 0, code_entry 65536, ex_sample] =
     [(Some ex_task, User_at 0x5000 0x2010, 3)]"
proof -
  have "lookup_dcookie ex_vm [ex_area] 0x400010 0 = (0x5000, 0x2010)"
    by (simp add: lookup_dcookie_def ex_vm_def ex_area_def ex_file_def fast_get_dcookie_def
        PAGE_SHIFT_def push_bit_eq_mult)
  then show ?thesis
    by (simp add: considered_def task_note_def stock_next_def sample_place_def stock_start_locals_def
        ex_tasks_def cpu_code_defs INVALID_COOKIE_def Let_def less_eq_sync_buffer_state_def)
qed

theorem stock_sync_buffer_places_witness:
  "\<exists>k' ns. stock_sync_buffer ex_tasks [0] 0 (ex_stock_kernel ex_stock_ring) = Some k' \<and>
    contents (cpu_buffer k' 0) = [] \<and> ev_words (evb k') = take 64 (notes_words ns) \<and>
    read_notes True None 0 ns = [(Some ex_task, User_at 0x5000 0x2010, 3)] \<and>
    mm_users k' 0x9000 = 1"
proof -
  obtain k' ns where
    "stock_sync_buffer ex_tasks [0] 0 (ex_stock_kernel ex_stock_ring) = Some k'"
    "contents (cpu_buffer k' 0) = []" "ev_words (evb k') = take 64 (notes_words ns)"
    "\<forall>m t lc. read_notes m t lc ns = [(Some ex_task, User_at 0x5000 0x2010, 3)]"
    "mm_users k' = mm_users (ex_stock_kernel ex_stock_ring)"
    using stock_sync_buffer_places [of "ex_stock_kernel ex_stock_ring" 0 ex_tasks "[0]"]
      ex_stock_log(2,3) ex_evb(1,2,3) ex_placed
    by (auto simp del: placed_samples.simps)
  then show ?thesis by (intro exI [of _ k'] exI [of _ ns]) simp
qed

section \<open>The mortuary\<close>

definition ex_mortuary :: "oprofile_cpu_buffer \<Rightarrow> (nat \<times> nat) option \<Rightarrow> mortuary_sys" where
  "ex_mortuary b sync = \<lparr>ks = ex_stock_kernel b, live = {65536}, in_sync = sync\<rparr>"

lemma ex_mortuary_start: "mortuary_start [0] (ex_mortuary ex_ring None)"
  using ex_ring by (simp add: mortuary_start_def ex_mortuary_def)

text \<open>The sample is logged, and a synchronisation acquires the entries and takes the first.\<close>

lemma ex_mortuary_reach:
  "\<exists>s. mortuary_reach [0] (ex_mortuary ex_ring None) s \<and> in_sync s = Some (0, Suc 1) \<and>
     tail_entry (cpu_buffer (ks s) 0) = Some (code_entry 65536) \<and> live s = {65536}"
proof -
  let ?s0 = "ex_mortuary ex_ring None"
  let ?s1 = "?s0\<lparr>ks := set_cpu 0 ex_stock_ring (ks ?s0)\<rparr>"
  let ?s2 = "?s1\<lparr>in_sync := Some (0, unat (fst (get_slots (cpu_buffer (ks ?s1) 0))))\<rparr>"
  let ?b = "increment_tail ex_stock_ring"
  let ?s3 = "?s2\<lparr>in_sync := Some (0, Suc 1), ks := set_cpu 0 (increment_tail (cpu_buffer (ks ?s2) 0)) (ks ?s2)\<rparr>"
  have n: "unat (fst (get_slots ex_stock_ring)) = Suc (Suc 1)"
    using unat_get_slots [OF ex_stock_log(2)] ex_stock_log(3) by simp
  have "stock_write ex_task (cpu_buffer (ks ?s0) 0) ex_stock_ring"
    using stock_write.sample [OF ex_stock_log(1)] by (simp add: ex_mortuary_def)
  then have "mortuary_step [0] ?s0 ?s1"
    by (intro mortuary_step.interrupt) (simp_all add: ex_mortuary_def ex_task_def)
  moreover have "mortuary_step [0] ?s1 ?s2"
    by (rule mortuary_step.acquire) (simp_all add: ex_mortuary_def)
  moreover have "mortuary_step [0] ?s2 ?s3"
    using n by (intro mortuary_step.take_entry) simp
  ultimately have "mortuary_reach [0] ?s0 ?s3"
    by (meson mortuary_reach.initial mortuary_reach.further)
  moreover have "ring_ok ?b" "contents ?b = [code_entry 65536, ex_sample]"
    using ring_front(2) [OF ex_stock_log(2)] ex_stock_log(2,3) by (simp_all add: ring_simps)
  then have "tail_entry ?b = Some (code_entry 65536)" using ring_front(1) by fastforce
  ultimately show ?thesis by (intro exI [of _ ?s3]) (simp add: ex_mortuary_def)
qed

theorem mortuary_no_use_after_free_witness:
  "\<exists>s :: mortuary_sys. in_sync s = Some (0, Suc 1) \<and> take_tasks_mm ex_tasks 65536 (ks s) \<noteq> None"
proof -
  obtain s where s: "mortuary_reach [0] (ex_mortuary ex_ring None) s" "in_sync s = Some (0, Suc 1)"
    "tail_entry (cpu_buffer (ks s) 0) = Some (code_entry 65536)"
    using ex_mortuary_reach by blast
  have "task_note (code_entry 65536)" by (simp add: task_note_def cpu_code_defs)
  with mortuary_no_use_after_free [OF ex_mortuary_start s(1), of ex_tasks] s(2,3)
  have "take_tasks_mm ex_tasks 65536 (ks s) \<noteq> None" by fastforce
  with s(2) show ?thesis by blast
qed

theorem mortuary_sync_never_faults_witness:
  "stock_sync_buffer ex_tasks [0] 0 (ex_stock_kernel ex_ring) \<noteq> None"
  using mortuary_sync_never_faults [OF ex_mortuary_start mortuary_reach.initial, of 0 ex_tasks]
    ex_ring(2) ex_evb(1)
  by (simp add: ex_mortuary_def)

theorem mortuary_two_rounds_free_all_witness:
  "freed_tasks (fold (stock_mark_done [0, 1]) [0, 1, 0, 1]
     ((ex_stock_kernel ex_ring)\<lparr>dying_tasks := [7], dead_tasks := [8]\<rparr>)) = [8, 7]"
  using mortuary_two_rounds_free_all [of "[0, 1]"
      "(ex_stock_kernel ex_ring)\<lparr>dying_tasks := [7], dead_tasks := [8]\<rparr>"] by simp

theorem stock_sync_start_all_or_nothing_witness:
  "notifiers (snd (stock_sync_start (\<lambda>n. if n = munmap_nb then Inl ENOMEM else rc_ok) [0]
     ((ex_stock_kernel ex_ring)\<lparr>notifiers := {}\<rparr>))) = {}"
proof -
  let ?r = "\<lambda>n. if n = munmap_nb then Inl ENOMEM else rc_ok"
  let ?k = "(ex_stock_kernel ex_ring)\<lparr>notifiers := {}\<rparr>"
  obtain err k' where s: "stock_sync_start ?r [0] ?k = (err, k')" by fastforce
  from stock_sync_start_all_or_nothing [OF this] have "err = Inl ENOMEM" "notifiers k' = {}"
    by (auto split: if_splits)
  with s show ?thesis by simp
qed

theorem stop_order_uses_freed_task_witness:
  "\<exists>s (s2 :: mortuary_sys). mortuary_reach [0] (ex_mortuary ex_ring None) s \<and> in_sync s2 = Some (0, Suc 1) \<and>
     take_tasks_mm ex_tasks 65536 (ks s2) = None"
proof -
  obtain s where s: "mortuary_reach [0] (ex_mortuary ex_ring None) s" "in_sync s = Some (0, Suc 1)"
    "tail_entry (cpu_buffer (ks s) 0) = Some (code_entry 65536)" "live s = {65536}"
    using ex_mortuary_reach by blast
  have "task_note (code_entry 65536)" "event (code_entry 65536) \<in> live s"
    using s(4) by (simp_all add: task_note_def cpu_code_defs)
  from stop_order_uses_freed_task [OF s(2,3) this, of "[0]" ex_tasks] s(1) show ?thesis by auto
qed

end
