(* ===== verification/Control_Files.thy ===== *)
theory Control_Files
  imports Oprofile_Files Lifecycle
begin

text \<open>
  The control files as the daemon meets them: the tables of handlers (\<^verbatim>\<open>struct
  file_operations\<close>) of \<^verbatim>\<open>driver/oprofile_files.c\<close>, \<^verbatim>\<open>driver/oprofilefs.c\<close> and
  \<^verbatim>\<open>driver/event_buffer.c\<close>, the variables that a file's private data points to, and what follows
  for a request on a file of the mounted file system. How the kernel finds the table of a file,
  and what it does where a table has no handler, is not modelled: a request is a call of a
  handler that the table of an existing file holds.
\<close>

section \<open>The variables behind the files\<close>

text \<open>
  The private data of an inode is the C expression of a variable (theory Oprofilefs). The three
  settings can be read and set; the counters of the CPUs and the atomic counters are only read.
\<close>

type_synonym 'd setting = "('d \<Rightarrow> ulong) \<times> (ulong \<Rightarrow> 'd \<Rightarrow> 'd)"

definition setting_var :: "string \<Rightarrow> ('h, 'r) driver setting option" where
  "setting_var = map_of
     [(''oprofile_buffer_size'', oprofile_buffer_size, \<lambda>v d. d\<lparr>oprofile_buffer_size := v\<rparr>),
      (''oprofile_buffer_watershed'', oprofile_buffer_watershed,
         \<lambda>v d. d\<lparr>oprofile_buffer_watershed := v\<rparr>),
      (''oprofile_cpu_buffer_size'', oprofile_cpu_buffer_size,
         \<lambda>v d. d\<lparr>oprofile_cpu_buffer_size := v\<rparr>)]"

definition cpu_stats :: "(string \<times> (oprofile_cpu_buffer \<Rightarrow> ulong)) list" where
  "cpu_stats =
     [(''sample_received'', sample_received), (''sample_lost_overflow'', sample_lost_overflow),
      (''backtrace_aborted'', backtrace_aborted), (''sample_invalid_eip'', sample_invalid_eip)]"

definition cpu_stat_name :: "nat \<Rightarrow> string \<Rightarrow> string" where
  "cpu_stat_name i name = ''cpu_buffer['' @ dec i @ ''].'' @ name"

definition cpu_stat_var :: "nat list \<Rightarrow> string \<Rightarrow> (('h, 'r) driver \<Rightarrow> ulong) option" where
  "cpu_stat_var possible = map_of (concat (map (\<lambda>i.
     map (\<lambda>(name, field). (cpu_stat_name i name, \<lambda>d. field (cpu_buffer (kern d) i))) cpu_stats)
     possible))"

definition atomic_var :: "string \<Rightarrow> (('h, 'r) driver \<Rightarrow> u32) option" where
  "atomic_var = map_of
     [(''oprofile_stats.sample_lost_no_mm'', \<lambda>d. sample_lost_no_mm (kern d)),
      (''oprofile_stats.sample_lost_no_mapping'', \<lambda>d. sample_lost_no_mapping (kern d)),
      (''oprofile_stats.event_lost_overflow'', \<lambda>d. event_lost_overflow (evb (kern d))),
      (''oprofile_stats.bt_lost_no_mapping'', \<lambda>d. bt_lost_no_mapping (kern d))]"

section \<open>Tables of handlers\<close>

text \<open>
  What a call is made with: the CPUs and allocators, the caller (whether it may administer the
  system, whether a signal is pending for it, whether its memory can be written), the kernel's
  number reader and buffer copy, the content of uninitialised locals, the kernel's constants,
  and the frequency of CPU 0.
\<close>

record ctx =
  c_env :: kernel_env
  c_capable :: bool
  c_signal :: bool
  c_copy_ok :: bool
  c_strtoul :: "string \<Rightarrow> ulong"
  c_read_buf :: read_from_buffer
  c_stack :: ulong
  c_hz :: ulong
  c_user_hz :: ulong
  c_policy :: "u32 option"
  c_cpu_khz :: u32

text \<open>What a read delivers: text with the new file position, or words of the event buffer.\<close>

datatype payload = Text string nat | Words "ulong list"

text \<open>
  \<^verbatim>\<open>struct file_operations\<close>. An \<open>open\<close> gets the private data of the inode and of the file
  (\<^verbatim>\<open>filp->private_data\<close>) and returns the file's; the other handlers get the file's. The outer \<open>option\<close>
  is a null pointer in the table, the inner one a fault.
\<close>

record ('h, 'r) file_operations =
  fop_open :: "(ctx \<Rightarrow> string option \<Rightarrow> string option \<Rightarrow> ('h, 'r) driver \<Rightarrow>
    (rc \<times> string option \<times> ('h, 'r) driver) option) option"
  fop_release :: "(ctx \<Rightarrow> ('h, 'r) driver \<Rightarrow> ('h, 'r) driver option) option"
  fop_read :: "(ctx \<Rightarrow> string option \<Rightarrow> ulong \<Rightarrow> nat \<Rightarrow> ('h, 'r) driver \<Rightarrow>
    ((errno + payload) \<times> ('h, 'r) driver) sysret option) option"
  fop_write :: "(ctx \<Rightarrow> string option \<Rightarrow> write_request \<Rightarrow> ('h, 'r) driver \<Rightarrow>
    ((errno + nat) \<times> ('h, 'r) driver) option) option"

definition no_fops :: "('h, 'r) file_operations" where
  "no_fops = \<lparr>fop_open = None, fop_release = None, fop_read = None, fop_write = None\<rparr>"

definition default_open ::
  "ctx \<Rightarrow> string option \<Rightarrow> string option \<Rightarrow> ('h, 'r) driver \<Rightarrow>
   (rc \<times> string option \<times> ('h, 'r) driver) option" where
  "default_open c i_private private_data d =
     Some (rc_ok, if i_private \<noteq> None then i_private else private_data, d)"

text \<open>A handler that shows a text and changes nothing.\<close>

definition show_text ::
  "(ctx \<Rightarrow> ('h, 'r) driver \<Rightarrow> nat \<Rightarrow> nat \<Rightarrow> errno + (string \<times> nat)) \<Rightarrow>
   ctx \<Rightarrow> string option \<Rightarrow> ulong \<Rightarrow> nat \<Rightarrow> ('h, 'r) driver \<Rightarrow>
   ((errno + payload) \<times> ('h, 'r) driver) sysret option" where
  "show_text h c p count off d =
     Some (Done (case h c d (unat count) off of Inl err \<Rightarrow> Inl err | Inr (s, pos) \<Rightarrow> Inr (Text s pos), d))"

subsection \<open>Files of numbers\<close>

text \<open>Reading or writing through a pointer to no variable is a fault.\<close>

definition read_ulong ::
  "(string \<Rightarrow> (('h, 'r) driver \<Rightarrow> ulong) option) \<Rightarrow> ctx \<Rightarrow> string option \<Rightarrow> ulong \<Rightarrow> nat \<Rightarrow>
   ('h, 'r) driver \<Rightarrow> ((errno + payload) \<times> ('h, 'r) driver) sysret option" where
  "read_ulong vars c p count off d =
     do { var \<leftarrow> p; get \<leftarrow> vars var;
          show_text (\<lambda>c d. ulong_read_file (c_read_buf c) (get d)) c p count off d }"

definition write_ulong ::
  "(string \<Rightarrow> ('h, 'r) driver setting option) \<Rightarrow> ctx \<Rightarrow> string option \<Rightarrow> write_request \<Rightarrow>
   ('h, 'r) driver \<Rightarrow> ((errno + nat) \<times> ('h, 'r) driver) option" where
  "write_ulong vars c p w d =
     do { var \<leftarrow> p; (get, set) \<leftarrow> vars var;
          Some (ulong_write_file (c_strtoul c) (c_stack c) set w d) }"

definition read_atomic ::
  "ctx \<Rightarrow> string option \<Rightarrow> ulong \<Rightarrow> nat \<Rightarrow> ('h, 'r) driver \<Rightarrow>
   ((errno + payload) \<times> ('h, 'r) driver) sysret option" where
  "read_atomic c p count off d =
     do { var \<leftarrow> p; get \<leftarrow> atomic_var var;
          show_text (\<lambda>c d. atomic_read_file (c_read_buf c) (get d)) c p count off d }"

definition ulong_table ::
  "(string \<Rightarrow> ('h, 'r) driver setting option) \<Rightarrow> ('h, 'r) file_operations" where
  "ulong_table vars = no_fops\<lparr>fop_read := Some (read_ulong (\<lambda>p. map_option fst (vars p))),
     fop_write := Some (write_ulong vars), fop_open := Some default_open\<rparr>"

definition ulong_ro_table :: "nat list \<Rightarrow> ('h, 'r) file_operations" where
  "ulong_ro_table possible = no_fops\<lparr>fop_read := Some (read_ulong (cpu_stat_var possible)),
     fop_open := Some default_open\<rparr>"

definition atomic_ro_table :: "('h, 'r) file_operations" where
  "atomic_ro_table = no_fops\<lparr>fop_read := Some read_atomic, fop_open := Some default_open\<rparr>"

subsection \<open>The event buffer\<close>

definition event_buffer_table :: "('h, 'r) file_operations" where
  "event_buffer_table = no_fops\<lparr>
     fop_open := Some (\<lambda>c i_private private_data d.
       do { (r, d) \<leftarrow> event_buffer_open (c_env c) (c_capable c) d; Some (r, private_data, d) }),
     fop_release := Some (\<lambda>c d. event_buffer_release (c_env c) d),
     fop_read := Some (\<lambda>c p count off d.
       do { r \<leftarrow> event_buffer_read (c_signal c) (c_copy_ok c) count (int off) (evb (kern d));
            Some (case r of Blocks \<Rightarrow> Blocks
                  | Done (r, e) \<Rightarrow> Done (map_sum id Words r, on_kern (\<lambda>k. k\<lparr>evb := e\<rparr>) d)) }),
     fop_write := Some (\<lambda>c p w d.
       let (r, e) = event_buffer_write (w_count w) (evb (kern d))
       in Some (r, on_kern (\<lambda>k. k\<lparr>evb := e\<rparr>) d))\<rparr>"

subsection \<open>The other files\<close>

definition depth_table :: "('h, 'r) file_operations" where
  "depth_table = no_fops\<lparr>fop_read := Some (show_text (\<lambda>c. depth_read (c_read_buf c))),
     fop_write := Some (\<lambda>c p w d. Some (depth_write (c_strtoul c) (c_stack c) w d))\<rparr>"

definition pointer_size_table :: "('h, 'r) file_operations" where
  "pointer_size_table = no_fops\<lparr>fop_read := Some (show_text (\<lambda>c d. pointer_size_read (c_read_buf c)))\<rparr>"

definition cpu_type_table :: "('h, 'r) file_operations" where
  "cpu_type_table = no_fops\<lparr>fop_read := Some (show_text (\<lambda>c. cpu_type_read (c_read_buf c)))\<rparr>"

definition enable_table :: "('h, 'r) file_operations" where
  "enable_table = no_fops\<lparr>fop_read := Some (show_text (\<lambda>c. enable_read (c_read_buf c))),
     fop_write := Some (\<lambda>c p. enable_write (c_env c) (c_strtoul c) (c_stack c))\<rparr>"

definition dump_table :: "('h, 'r) file_operations" where
  "dump_table = no_fops\<lparr>fop_write := Some (\<lambda>c p w d. Some (dump_write w d))\<rparr>"

definition debug_table :: "('h, 'r) file_operations" where
  "debug_table = no_fops\<lparr>fop_read := Some (show_text (\<lambda>c. debug_read (c_read_buf c))),
     fop_write := Some (\<lambda>c p w d. Some (debug_write (c_strtoul c) (c_stack c) w d))\<rparr>"

definition timer_count_table :: "('h, 'r) file_operations" where
  "timer_count_table = no_fops\<lparr>fop_read := Some (show_text (\<lambda>c. timer_read (c_read_buf c))),
     fop_write := Some (\<lambda>c p w d. Some (timer_write (c_strtoul c) (c_stack c) w d))\<rparr>"

definition timer_freq_table :: "('h, 'r) file_operations" where
  "timer_freq_table =
     no_fops\<lparr>fop_read := Some (show_text (\<lambda>c d. timer_freq_read (c_read_buf c) (c_hz c)))\<rparr>"

definition user_freq_table :: "('h, 'r) file_operations" where
  "user_freq_table =
     no_fops\<lparr>fop_read := Some (show_text (\<lambda>c d. user_freq_read (c_read_buf c) (c_user_hz c)))\<rparr>"

definition cpu_khz_table :: "('h, 'r) file_operations" where
  "cpu_khz_table =
     no_fops\<lparr>fop_read := Some (show_text (\<lambda>c d. cpu_khz_read (c_read_buf c) (c_policy c) (c_cpu_khz c)))\<rparr>"

definition num_counters_table :: "('h, 'r) file_operations" where
  "num_counters_table = no_fops\<lparr>fop_read := Some (show_text (\<lambda>c. num_counters_read (c_read_buf c)))\<rparr>"

definition adapt_table :: "('h, 'r) file_operations" where
  "adapt_table = no_fops\<lparr>fop_read := Some (show_text (\<lambda>c. adapt_read (c_read_buf c))),
     fop_write := Some (\<lambda>c p. adapt_write (c_env c))\<rparr>"

text \<open>\<open>idle\<close> is the table of the back end's file \<^verbatim>\<open>idle_poll\<close>.\<close>

fun file_table ::
  "(string \<Rightarrow> ('h, 'r) driver setting option) \<Rightarrow> ('h, 'r) file_operations \<Rightarrow> nat list \<Rightarrow> fops \<Rightarrow>
   ('h, 'r) file_operations" where
  "file_table vars idle possible enable_fops = enable_table"
| "file_table vars idle possible dump_fops = dump_table"
| "file_table vars idle possible event_buffer_fops = event_buffer_table"
| "file_table vars idle possible ulong_fops = ulong_table vars"
| "file_table vars idle possible ulong_ro_fops = ulong_ro_table possible"
| "file_table vars idle possible atomic_ro_fops = atomic_ro_table"
| "file_table vars idle possible cpu_type_fops = cpu_type_table"
| "file_table vars idle possible depth_fops = depth_table"
| "file_table vars idle possible pointer_size_fops = pointer_size_table"
| "file_table vars idle possible oprofile_timer_count_fops = timer_count_table"
| "file_table vars idle possible timer_freq_fops = timer_freq_table"
| "file_table vars idle possible user_freq_fops = user_freq_table"
| "file_table vars idle possible cpu_khz_fops = cpu_khz_table"
| "file_table vars idle possible num_counters_fops = num_counters_table"
| "file_table vars idle possible adapt_fops = adapt_table"
| "file_table vars idle possible debug_fops = debug_table"
| "file_table vars idle possible idle_poll_fops = idle"

lemmas table_defs =
  no_fops_def enable_table_def dump_table_def event_buffer_table_def ulong_table_def
  ulong_ro_table_def atomic_ro_table_def cpu_type_table_def depth_table_def
  pointer_size_table_def timer_count_table_def timer_freq_table_def user_freq_table_def
  cpu_khz_table_def num_counters_table_def adapt_table_def debug_table_def

section \<open>Open files and requests\<close>

text \<open>
  An open file is the table reference of its inode with its private data. A request opens a file
  of the file system, or reads, writes or closes an open one; interrupts and the periodic work
  come in between. A write that changes a size must leave the sizes within bounds, as in
  theory Lifecycle.
\<close>

type_synonym open_file = "fops \<times> string option"

inductive file_step ::
  "(fops \<Rightarrow> ('h, 'r) file_operations) \<Rightarrow> kernel_env \<Rightarrow> inode list \<Rightarrow>
   ('h, 'r) driver \<times> open_file list \<Rightarrow> ('h, 'r) driver \<times> open_file list \<Rightarrow> bool"
  for tbl env fs where
  opens: "File path f perm priv \<in> set fs \<Longrightarrow> c_env c = env \<Longrightarrow> fop_open (tbl f) = Some h \<Longrightarrow>
    h c priv None d = Some (r, p, d') \<Longrightarrow>
    file_step tbl env fs (d, files) (d', if r = rc_ok then (f, p) # files else files)"
| opens_plain: "File path f perm priv \<in> set fs \<Longrightarrow> fop_open (tbl f) = None \<Longrightarrow>
    file_step tbl env fs (d, files) (d, (f, None) # files)"
| closes: "(f, p) \<in> set files \<Longrightarrow> c_env c = env \<Longrightarrow> fop_release (tbl f) = Some h \<Longrightarrow>
    h c d = Some d' \<Longrightarrow> file_step tbl env fs (d, files) (d', remove1 (f, p) files)"
| closes_plain: "(f, p) \<in> set files \<Longrightarrow> fop_release (tbl f) = None \<Longrightarrow>
    file_step tbl env fs (d, files) (d, remove1 (f, p) files)"
| reads: "(f, p) \<in> set files \<Longrightarrow> c_env c = env \<Longrightarrow> fop_read (tbl f) = Some h \<Longrightarrow>
    h c p count off d = Some (Done (r, d')) \<Longrightarrow> file_step tbl env fs (d, files) (d', files)"
| writes: "(f, p) \<in> set files \<Longrightarrow> c_env c = env \<Longrightarrow> fop_write (tbl f) = Some h \<Longrightarrow>
    h c p w d = Some (r, d') \<Longrightarrow> sizes_ok d' \<Longrightarrow> file_step tbl env fs (d, files) (d', files)"
| interrupt: "oprofile_started d \<Longrightarrow> i \<in> set (possible_cpus env) \<Longrightarrow>
    on_cpu i (handle ev) (kern d) = Some k \<Longrightarrow> file_step tbl env fs (d, files) (d\<lparr>kern := k\<rparr>, files)"
| work: "work_scheduled (cpu_buffer (kern d) i) \<Longrightarrow>
    wq_sync_buffer (online_cpus env) here i (kern d) = Some k \<Longrightarrow>
    file_step tbl env fs (d, files) (d\<lparr>kern := k\<rparr>, files)"

inductive file_reach ::
  "(fops \<Rightarrow> ('h, 'r) file_operations) \<Rightarrow> kernel_env \<Rightarrow> inode list \<Rightarrow>
   ('h, 'r) driver \<times> open_file list \<Rightarrow> ('h, 'r) driver \<times> open_file list \<Rightarrow> bool"
  for tbl env fs s0 where
  initial: "file_reach tbl env fs s0 s0"
| further: "file_reach tbl env fs s0 s \<Longrightarrow> file_step tbl env fs s s' \<Longrightarrow> file_reach tbl env fs s0 s'"

text \<open>What the private data of a file must be: a pointer to a variable that its handlers know.\<close>

fun private_ok ::
  "(string \<Rightarrow> ('h, 'r) driver setting option) \<Rightarrow> nat list \<Rightarrow> fops \<Rightarrow> string option \<Rightarrow> bool" where
  "private_ok vars possible ulong_fops p \<longleftrightarrow> (\<exists>v. p = Some v \<and> vars v \<noteq> None)"
| "private_ok vars possible ulong_ro_fops p \<longleftrightarrow> (\<exists>i \<in> set possible. \<exists>(name, field) \<in> set cpu_stats.
     p = Some (cpu_stat_name i name))"
| "private_ok vars possible atomic_ro_fops p \<longleftrightarrow> (\<exists>v. p = Some v \<and> v \<in>
     {''oprofile_stats.sample_lost_no_mm'', ''oprofile_stats.sample_lost_no_mapping'',
      ''oprofile_stats.event_lost_overflow'', ''oprofile_stats.bt_lost_no_mapping''})"
| "private_ok vars possible _ p \<longleftrightarrow> True"

text \<open>Who may write: the last octal digit of the permissions is that of the other users.\<close>

definition others_write :: "nat \<Rightarrow> bool" where
  "others_write perm \<longleftrightarrow> odd (perm mod 10 div 2)"

definition inode_ok ::
  "(string \<Rightarrow> ('h, 'r) driver setting option) \<Rightarrow> nat list \<Rightarrow> inode \<Rightarrow> bool" where
  "inode_ok vars possible n \<longleftrightarrow>
     (case n of Dir _ \<Rightarrow> True
      | File path f perm priv \<Rightarrow> private_ok vars possible f priv \<and>
          (others_write perm \<longrightarrow> f \<in> {enable_fops, dump_fops, event_buffer_fops,
             oprofile_timer_count_fops, adapt_fops, debug_fops}))"

lemma cpu_stat_var_known:
  assumes "i \<in> set possible" and "(name, field) \<in> set cpu_stats"
  shows "cpu_stat_var possible (cpu_stat_name i name) \<noteq> None"
  unfolding cpu_stat_var_def map_of_eq_None_iff using assms by force

lemma cpu_stats_names:
  "set cpu_stats = {(''sample_received'', sample_received), (''sample_lost_overflow'', sample_lost_overflow),
     (''backtrace_aborted'', backtrace_aborted), (''sample_invalid_eip'', sample_invalid_eip)}"
  by (simp add: cpu_stats_def)

section \<open>The files of the driver\<close>

text \<open>Every file that the driver creates points to a variable that its handlers know, and the other
  users may write to six of them.\<close>

lemma create_file_all:
  assumes "\<forall>n \<in> set fs. P n" and "P (File (dir @ [name]) fo perm priv)"
  shows "\<forall>n \<in> set (snd (oprofilefs_create_file_priv alloc dir name fo perm priv fs)). P n"
  using assms by (auto simp: oprofilefs_create_file_priv_def split: prod.splits bool.splits)

lemma create_file_ok:
  assumes "\<forall>n \<in> set fs. inode_ok vars possible n" and "private_ok vars possible fo priv"
    and "others_write perm \<longrightarrow> fo \<in> {enable_fops, dump_fops, event_buffer_fops,
      oprofile_timer_count_fops, adapt_fops, debug_fops}"
  shows "\<forall>n \<in> set (snd (oprofilefs_create_file_priv alloc dir name fo perm priv fs)).
    inode_ok vars possible n"
  using assms(2,3) by (intro create_file_all [OF assms(1)]) (simp add: inode_ok_def)

lemma mkdir_ok:
  assumes "\<forall>n \<in> set fs. inode_ok vars possible n" and "oprofilefs_mkdir alloc dir name fs = (r, fs')"
  shows "\<forall>n \<in> set fs'. inode_ok vars possible n"
  using assms by (auto simp: oprofilefs_mkdir_def inode_ok_def split: prod.splits bool.splits)

lemmas create_defs =
  oprofilefs_create_ulong_def oprofilefs_create_ro_ulong_def oprofilefs_create_ro_atomic_def
  oprofilefs_create_file_def oprofilefs_create_file_perm_def

lemma create_control_files_ok:
  assumes "\<forall>n \<in> set fs. inode_ok vars possible n" and "vars ''oprofile_buffer_size'' \<noteq> None"
    and "vars ''oprofile_buffer_watershed'' \<noteq> None" and "vars ''oprofile_cpu_buffer_size'' \<noteq> None"
  shows "\<forall>n \<in> set (create_control_files alloc root fs). inode_ok vars possible n"
  unfolding create_control_files_def create_defs fold.simps o_apply id_apply
  using assms(2-4) by (intro create_file_ok assms(1)) (auto simp: others_write_def)

lemma create_cpu_stats_ok:
  assumes "create_cpu_stats alloc dir i fs = Some fs'" and "i \<in> set possible"
    and "\<forall>n \<in> set fs. inode_ok vars possible n"
  shows "\<forall>n \<in> set fs'. inode_ok vars possible n"
proof -
  obtain r fs1 where m: "oprofilefs_mkdir alloc dir (take 9 (''cpu'' @ dec i)) fs = (r, fs1)" by fastforce
  have "\<forall>n \<in> set (fold (\<lambda>name fs. snd (oprofilefs_create_ro_ulong alloc d name
      (''cpu_buffer['' @ dec i @ ''].'' @ name) fs)) [''sample_received'', ''sample_lost_overflow'',
      ''backtrace_aborted'', ''sample_invalid_eip''] fs1). inode_ok vars possible n" for d
    unfolding oprofilefs_create_ro_ulong_def fold.simps o_apply id_apply cpu_stat_name_def [symmetric]
    using assms(2) by (intro create_file_ok mkdir_ok [OF assms(3) m]) (auto simp: cpu_stats_names others_write_def)
  with assms(1) m show ?thesis by (auto simp: create_cpu_stats_def split: option.splits)
qed

lemma for_each_keeps:
  assumes "for_each f xs s = Some s'" and "P s"
    and "\<And>x s s'. x \<in> set xs \<Longrightarrow> P s \<Longrightarrow> f x s = Some s' \<Longrightarrow> P s'"
  shows "P s'"
  using assms
proof (induction xs arbitrary: s)
  case (Cons x xs)
  then obtain s1 where "f x s = Some s1" "for_each f xs s1 = Some s'" by (auto split: option.splits)
  with Cons show ?case by (metis list.set_intros)
qed simp

lemma create_stats_files_ok:
  assumes "oprofile_create_stats_files alloc possible root fs = Some fs'"
    and "\<forall>n \<in> set fs. inode_ok vars possible n"
  shows "\<forall>n \<in> set fs'. inode_ok vars possible n"
proof -
  obtain r fs1 where m: "oprofilefs_mkdir alloc root ''stats'' fs = (r, fs1)" by fastforce
  from mkdir_ok [OF assms(2) m] have fs1: "\<forall>n \<in> set fs1. inode_ok vars possible n" .
  show ?thesis
  proof (cases r)
    case None
    with assms(1) m fs1 show ?thesis by (simp add: oprofile_create_stats_files_def)
  next
    case (Some dir)
    with assms(1) m obtain fs2 where fs2: "for_each (create_cpu_stats alloc dir) possible fs1 = Some fs2"
      "fs' = fold (\<lambda>name fs. snd (oprofilefs_create_ro_atomic alloc dir name (''oprofile_stats.'' @ name) fs))
         [''sample_lost_no_mm'', ''sample_lost_no_mapping'', ''event_lost_overflow'',
          ''bt_lost_no_mapping''] fs2"
      by (auto simp: oprofile_create_stats_files_def split: Option.bind_splits)
    from fs2(1) fs1 have "\<forall>n \<in> set fs2. inode_ok vars possible n"
      by (rule for_each_keeps) (rule create_cpu_stats_ok)
    then show ?thesis
      unfolding fs2(2) oprofilefs_create_ro_atomic_def fold.simps o_apply id_apply
      by (intro create_file_ok) (auto simp: others_write_def)
  qed
qed

lemma create_files_ok:
  assumes "oprofile_create_files alloc possible root fs d = Some (fs', files, d')"
    and "\<forall>n \<in> set fs. inode_ok vars possible n" and "vars ''oprofile_buffer_size'' \<noteq> None"
    and "vars ''oprofile_buffer_watershed'' \<noteq> None" and "vars ''oprofile_cpu_buffer_size'' \<noteq> None"
  shows "\<forall>n \<in> set fs'. inode_ok vars possible n"
  using assms(1) create_control_files_ok [OF assms(2-5)]
  by (auto simp: oprofile_create_files_def Let_def split: Option.bind_splits
      dest!: create_stats_files_ok [where vars = vars])

text \<open>Mounting changes nothing but the sizes, whatever goes on.\<close>

lemma create_files_inv:
  assumes "oprofile_create_files alloc possible root fs d = Some (fs', files, d')"
    and "life_inv env idle rdy d"
  shows "life_inv env idle rdy d'"
proof -
  from assms(1) have "d' = d\<lparr>oprofile_buffer_size := BUFFER_SIZE_DEFAULT,
      oprofile_cpu_buffer_size := CPU_BUFFER_SIZE_DEFAULT,
      oprofile_buffer_watershed := BUFFER_WATERSHED_DEFAULT\<rparr>"
    by (auto simp: oprofile_create_files_def Let_def split: Option.bind_splits)
  with assms(2) show ?thesis
    by (auto intro!: life_inv_unrelated [OF _ _ _ _ _ _ _ assms(2)]
        simp: sizes_ok_def BUFFER_SIZE_DEFAULT_def CPU_BUFFER_SIZE_DEFAULT_def)
qed

end
