(* ===== verification/File_Requests.thy ===== *)
theory File_Requests
  imports Control_Files
begin

text \<open>
  Requests on the control files as steps of the session: in the contract \<open>control_files\<close> of a back
  end's state machine with its files, every request through a table of handlers is a step of that
  machine or changes nothing, and no handler of an existing file faults. The timer back end
  satisfies it here, the others in theory Backend\_Files.
\<close>

section \<open>What opens and closes the buffer\<close>

lemma start_keeps_open:
  assumes "life_inv env idle rdy d" and "oprofile_start env d = Some (r, d')"
  shows "buffer_opened (evb (kern d')) = buffer_opened (evb (kern d))"
  using assms(1)
proof (cases rule: life_invE)
  case opened
  from backend.start_keeps [OF opened(2,3) refl] assms(2) show ?thesis
    by (auto simp: session_keeps_def kernel_keeps_def)
next
  case closed
  with assms(2) show ?thesis by (auto simp: oprofile_start_def session_down_def)
qed

lemma stop_keeps_open:
  assumes "life_inv env idle rdy d" and "env_ok env" and "oprofile_stop env d = Some d'"
  shows "buffer_opened (evb (kern d')) = buffer_opened (evb (kern d))"
  using assms(1)
proof (cases rule: life_invE)
  case opened
  from assms(2) have on: "set (online_cpus env) \<subseteq> set (possible_cpus env)" by (simp add: env_ok_def)
  from backend.stop_keeps [OF opened(2,3) refl on] assms(3) show ?thesis
    by (auto simp: session_keeps_def kernel_keeps_def)
next
  case closed
  with assms(3) show ?thesis by (auto simp: oprofile_stop_def session_down_def)
qed

lemma adapt_keeps_open:
  assumes "life_inv env idle rdy d" and "env_ok env" and "oprofile_adapt env d = Some (r, d')"
  shows "buffer_opened (evb (kern d')) = buffer_opened (evb (kern d))"
  using assms(1)
proof (cases rule: life_invE)
  case opened
  from assms(2) have on: "set (online_cpus env) \<subseteq> set (possible_cpus env)" by (simp add: env_ok_def)
  from backend.adapt_keeps [OF opened(2,3) refl on] assms(3) show ?thesis
    by (auto simp: session_keeps_def kernel_keeps_def)
next
  case closed
  with assms(3) show ?thesis by (auto simp: oprofile_adapt_def session_down_def)
qed

text \<open>A successful open finds the buffer closed and leaves it open, a failing one changes neither.\<close>

lemma open_opens:
  assumes "life_inv env idle rdy d" and "env_ok env" and "event_buffer_open env cap d = Some (r, d')"
  shows "if r = rc_ok then \<not> buffer_opened (evb (kern d)) \<and> buffer_opened (evb (kern d'))
    else buffer_opened (evb (kern d')) = buffer_opened (evb (kern d))"
  using assms(1)
proof (cases rule: life_invE)
  case opened
  with assms(3) show ?thesis by (auto simp: event_buffer_open_def split: if_splits)
next
  case closed
  let ?d = "on_kern (on_evb (\<lambda>e. e\<lparr>buffer_opened := True\<rparr>)) d"
  from closed have be: "backend env idle (rdy (oprofile_ops d)) (oprofile_ops d)"
    by (auto simp: driver_ops_ok_def good_ops_def)
  have down: "session_down idle ?d" "sizes_ok ?d"
    using closed by (simp_all add: session_down_def no_work_def sizes_ok_def)
  from backend.setup_session [OF be down(1) _ assms(2) down(2)] obtain r' d1 where
    "oprofile_setup env ?d = Some (r', d1)" "buffer_opened (evb (kern d1))" by auto
  with assms(3) closed(1) show ?thesis by (auto simp: event_buffer_open_def split: if_splits)
qed

lemma release_closes:
  "event_buffer_release env d = Some d' \<Longrightarrow> \<not> buffer_opened (evb (kern d'))"
  by (auto simp: event_buffer_release_def split: Option.bind_splits)

lemma event_buffer_read_opened:
  "event_buffer_read sig copy_ok count off e = Some (Done (r, e')) \<Longrightarrow> buffer_opened e' = buffer_opened e"
  by (auto simp: event_buffer_read_def Let_def split: if_splits option.splits bool.splits prod.splits)

lemma on_cpu_keeps_evb: "on_cpu i f k = Some k' \<Longrightarrow> evb k' = evb k"
  by (auto simp: on_cpu_def split: option.splits)

lemma work_keeps_open:
  assumes "life_inv env idle rdy d" and "env_ok env" and "work_scheduled (cpu_buffer (kern d) i)"
    and "wq_sync_buffer (online_cpus env) here i (kern d) = Some k"
  shows "buffer_opened (evb k) = buffer_opened (evb (kern d))"
proof -
  from work_inv [OF assms(1-3), of here] assms(4) have inv: "life_inv env idle rdy (d\<lparr>kern := k\<rparr>)" by simp
  have "is_setup (d\<lparr>kern := k\<rparr>) = is_setup d" by simp
  with life_inv_states [OF inv] life_inv_states [OF assms(1)] show ?thesis by simp
qed

section \<open>Requests without faults\<close>

text \<open>No handler of the table faults when it is called with the private data \<open>p\<close>; an \<open>open\<close> is called
  with that of the inode.\<close>

definition opens_safely ::
  "('h, 'r) file_operations \<Rightarrow> ctx \<Rightarrow> string option \<Rightarrow> ('h, 'r) driver \<Rightarrow> bool" where
  "opens_safely t c priv d \<longleftrightarrow> (\<forall>h. fop_open t = Some h \<longrightarrow> h c priv None d \<noteq> None)"

definition serves_safely ::
  "('h, 'r) file_operations \<Rightarrow> ctx \<Rightarrow> string option \<Rightarrow> ('h, 'r) driver \<Rightarrow> bool" where
  "serves_safely t c p d \<longleftrightarrow>
     (\<forall>h. fop_release t = Some h \<longrightarrow> h c d \<noteq> None) \<and>
     (\<forall>h count off. fop_read t = Some h \<longrightarrow> h c p count off d \<noteq> None) \<and>
     (\<forall>h w. fop_write t = Some h \<longrightarrow> h c p w d \<noteq> None)"

section \<open>The contract\<close>

text \<open>
  \<open>inv\<close> and \<open>step\<close> are the invariant and the steps of a state machine of the whole driver, \<open>vars\<close>
  its settings, and \<open>idle\<close> the table of its file \<^verbatim>\<open>idle_poll\<close>.
\<close>

locale control_files =
  fixes env :: kernel_env
    and down :: "'h \<Rightarrow> bool"
    and rdy :: "('h, 'r) ops_ready"
    and inv :: "('h, 'r) driver \<Rightarrow> bool"
    and step :: "('h, 'r) driver \<Rightarrow> ('h, 'r) driver \<Rightarrow> bool"
    and vars :: "string \<Rightarrow> ('h, 'r) driver setting option"
    and idle :: "('h, 'r) file_operations"
  assumes inv_life: "inv d \<Longrightarrow> env_ok env \<and> life_inv env down rdy d"
    and step_inv: "step d d' \<Longrightarrow> inv d \<Longrightarrow> inv d'"
    and step_driver: "driver_step env d d' \<Longrightarrow> step d d'"
    and vars_step: "vars v = Some (get, upd) \<Longrightarrow> oprofile_set_ulong upd x d = (r, d') \<Longrightarrow>
      sizes_ok d' \<Longrightarrow> step d d'"
    and vars_opened: "vars v = Some (get, upd) \<Longrightarrow>
      buffer_opened (evb (kern (upd x d))) = buffer_opened (evb (kern d))"
    and idle_opens: "fop_open idle = None" "fop_release idle = None"
    and idle_reads: "fop_read idle = Some f \<Longrightarrow> \<exists>r. f c p count off d = Some (Done (r, d))"
    and idle_writes: "fop_write idle = Some g \<Longrightarrow> \<exists>r d'. g c p w d = Some (r, d') \<and>
      (d' = d \<or> step d d') \<and> buffer_opened (evb (kern d')) = buffer_opened (evb (kern d))"
begin

abbreviation tbl :: "fops \<Rightarrow> ('h, 'r) file_operations" where
  "tbl \<equiv> file_table vars idle (possible_cpus env)"

definition moves :: "('h, 'r) driver \<Rightarrow> ('h, 'r) driver \<Rightarrow> bool" where
  "moves d d' \<longleftrightarrow> (d' = d \<or> step d d') \<and> buffer_opened (evb (kern d')) = buffer_opened (evb (kern d))"

lemma moves_refl [simp]: "moves d d"
  by (simp add: moves_def)

lemma set_ulong_moves:
  assumes "oprofile_set_ulong upd x d = (r, d')"
    and "\<And>x d. buffer_opened (evb (kern (upd x d))) = buffer_opened (evb (kern d))"
    and "\<And>r d'. oprofile_set_ulong upd x d = (r, d') \<Longrightarrow> sizes_ok d' \<Longrightarrow> step d d'"
  shows "sizes_ok d' \<Longrightarrow> moves d d'"
  using assms by (auto simp: moves_def oprofile_set_ulong_def split: if_splits)

text \<open>Writes, one lemma for each handler.\<close>

lemma ulong_write_moves:
  assumes "vars v = Some (get, upd)" and "ulong_write_file strtoul stack upd w d = (r, d')"
    and "sizes_ok d'"
  shows "moves d d'"
  using assms(2,3) set_ulong_moves [where upd = upd, OF _ vars_opened [OF assms(1)] vars_step [OF assms(1)]]
  by (auto simp: ulong_write_file_def Let_def split: if_splits prod.splits sum.splits)

lemma depth_write_moves:
  assumes "depth_write strtoul stack w d = (r, d')" and "sizes_ok d'"
  shows "moves d d'"
proof -
  have "moves d d'" if "oprofile_set_ulong (\<lambda>v d. d\<lparr>oprofile_backtrace_depth := v\<rparr>) x d = (r', d')" for x r'
    using set_ulong_moves [OF that] assms(2) by (auto intro: step_driver driver_step.setting)
  with assms(1) show ?thesis
    by (auto simp: depth_write_def Let_def split: if_splits prod.splits sum.splits)
qed

lemma timer_write_moves:
  assumes "timer_write strtoul stack w d = (r, d')"
  shows "moves d d'"
proof -
  have "moves d d'" if "oprofile_set_oprofile_timer_count x d = (r', d')" "\<not> buffer_opened (evb (kern d))" for x r'
    using step_driver [OF driver_step.timer_count [OF that(2,1)]] that
    by (auto simp: moves_def oprofile_set_oprofile_timer_count_def split: if_splits)
  with assms show ?thesis
    by (auto simp: timer_write_def Let_def split: if_splits prod.splits sum.splits)
qed

lemma debug_write_moves:
  assumes "debug_write strtoul stack w d = (r, d')"
  shows "moves d d'"
  using assms by (auto simp: debug_write_def moves_def Let_def split: if_splits prod.splits sum.splits
      intro!: step_driver driver_step.debug)

lemma wake_moves: "moves d (on_kern (on_evb wake_up_buffer_waiter) d)"
  by (simp add: moves_def wake_up_buffer_waiter_def step_driver driver_step.dump [unfolded wake_up_buffer_waiter_def])

lemma enable_write_moves:
  assumes "inv d"
  shows "\<exists>r d'. enable_write env strtoul stack w d = Some (r, d') \<and> moves d d'"
proof -
  from inv_life [OF assms] have i: "life_inv env down rdy d" "env_ok env" by auto
  from start_inv [OF i(1)] obtain r1 d1 where s: "oprofile_start env d = Some (r1, d1)" by blast
  from stop_inv [OF i] obtain d2 where p: "oprofile_stop env d = Some d2" by blast
  have "moves d d1" "moves d d2"
    using start_keeps_open [OF i(1) s] stop_keeps_open [OF i p] s p
    by (auto simp: moves_def intro: step_driver driver_step.start driver_step.stop)
  with s p show ?thesis
    by (cases "oprofilefs_ulong_from_user strtoul (w_user w) (w_count w) stack")
      (auto simp: enable_write_def split: sum.splits)
qed

lemma adapt_write_moves:
  assumes "inv d"
  shows "\<exists>r d'. adapt_write env w d = Some (r, d') \<and> moves d d'"
proof -
  from inv_life [OF assms] have i: "life_inv env down rdy d" "env_ok env" by auto
  from adapt_inv [OF i] obtain r1 d1 where s: "oprofile_adapt env d = Some (r1, d1)" by blast
  with adapt_keeps_open [OF i s] show ?thesis
    by (auto simp: adapt_write_def moves_def intro: step_driver driver_step.adapt)
qed

lemma write_moves:
  assumes "inv d" and "private_ok vars (possible_cpus env) f p" and "c_env c = env"
    and "fop_write (tbl f) = Some h"
  shows "\<exists>r d'. h c p w d = Some (r, d') \<and> (sizes_ok d' \<longrightarrow> moves d d')"
proof (cases f)
  case ulong_fops
  with assms(2) obtain v get upd where v: "p = Some v" "vars v = Some (get, upd)" by auto
  obtain r d' where w: "ulong_write_file (c_strtoul c) (c_stack c) upd w d = (r, d')" by fastforce
  from ulong_fops assms(4) have "h = write_ulong vars" by (simp add: table_defs)
  with v w ulong_write_moves [OF v(2) w] show ?thesis by (simp add: write_ulong_def)
next
  case depth_fops
  obtain r d' where w: "depth_write (c_strtoul c) (c_stack c) w d = (r, d')" by fastforce
  with depth_write_moves [OF w] depth_fops assms(4) show ?thesis by (auto simp: table_defs)
next
  case oprofile_timer_count_fops
  obtain r d' where w: "timer_write (c_strtoul c) (c_stack c) w d = (r, d')" by fastforce
  with timer_write_moves [OF w] oprofile_timer_count_fops assms(4) show ?thesis by (auto simp: table_defs)
next
  case debug_fops
  obtain r d' where w: "debug_write (c_strtoul c) (c_stack c) w d = (r, d')" by fastforce
  with debug_write_moves [OF w] debug_fops assms(4) show ?thesis by (auto simp: table_defs)
next
  case enable_fops
  with enable_write_moves [OF assms(1)] assms(3,4) show ?thesis by (fastforce simp: table_defs)
next
  case adapt_fops
  with adapt_write_moves [OF assms(1)] assms(3,4) show ?thesis by (fastforce simp: table_defs)
next
  case idle_poll_fops
  with idle_writes [of h c p w d] assms(4) show ?thesis by (fastforce simp: moves_def)
qed (use assms(4) wake_moves [of d] in \<open>auto simp: table_defs dump_write_def event_buffer_write_def\<close>)

text \<open>Reads; only that of the event buffer needs the file to be open, and may block.\<close>

lemma read_moves:
  assumes "inv d" and "private_ok vars (possible_cpus env) f p" and "c_env c = env"
    and "fop_read (tbl f) = Some h" and "f = event_buffer_fops \<Longrightarrow> buffer_opened (evb (kern d))"
  shows "\<exists>r. h c p count off d = Some r \<and> (\<forall>x d'. r = Done (x, d') \<longrightarrow> moves d d')"
proof (cases f)
  case event_buffer_fops
  from inv_life [OF assms(1)] have i: "life_inv env down rdy d" by auto
  from event_buffer_fops assms(5) have op: "buffer_opened (evb (kern d))" by simp
  from read_inv [OF i op, of "c_signal c" "c_copy_ok c" count "int off"] obtain r where
    r: "event_buffer_read (c_signal c) (c_copy_ok c) count (int off) (evb (kern d)) = Some r" by blast
  have "moves d (on_kern (\<lambda>k. k\<lparr>evb := e\<rparr>) d)" if "r = Done (x, e)" for x e
    using r that step_driver [OF driver_step.read_buffer [OF op r [unfolded that]]] event_buffer_read_opened [OF r [unfolded that]]
    by (simp add: moves_def)
  with r event_buffer_fops assms(4) show ?thesis
    by (auto simp: table_defs split: sysret.splits prod.splits)
next
  case ulong_fops
  with assms(2) obtain v get upd where "p = Some v" "vars v = Some (get, upd)" by auto
  with ulong_fops assms(4) show ?thesis by (auto simp: table_defs read_ulong_def show_text_def)
next
  case ulong_ro_fops
  with assms(2) obtain i name field where v: "p = Some (cpu_stat_name i name)"
    "i \<in> set (possible_cpus env)" "(name, field) \<in> set cpu_stats" by auto
  from cpu_stat_var_known [OF v(2,3)] obtain get :: "('h, 'r) driver \<Rightarrow> ulong"
    where "cpu_stat_var (possible_cpus env) (cpu_stat_name i name) = Some get" by blast
  with v(1) ulong_ro_fops assms(4) show ?thesis by (auto simp: table_defs read_ulong_def show_text_def)
next
  case atomic_ro_fops
  with assms(2,4) show ?thesis
    by (auto simp: table_defs read_atomic_def show_text_def atomic_var_def)
next
  case idle_poll_fops
  with idle_reads [of h c p count off d] assms(4) show ?thesis by fastforce
qed (use assms(4) in \<open>auto simp: table_defs show_text_def\<close>)

text \<open>The state of the file system: which files are open agrees with the driver.\<close>

definition files_inv :: "('h, 'r) driver \<times> open_file list \<Rightarrow> bool" where
  "files_inv s \<longleftrightarrow> inv (fst s) \<and> (\<forall>(f, p) \<in> set (snd s). private_ok vars (possible_cpus env) f p) \<and>
     length (filter (\<lambda>(f, p). f = event_buffer_fops) (snd s)) = of_bool (buffer_opened (evb (kern (fst s))))"

lemma files_inv_moves:
  assumes "files_inv (d, files)" and "moves d d'"
  shows "files_inv (d', files)"
  using assms step_inv by (auto simp: files_inv_def moves_def)

lemma files_inv_buffer:
  assumes "files_inv (d, files)" and "(event_buffer_fops, p) \<in> set files"
  shows "buffer_opened (evb (kern d))"
proof -
  have "filter (\<lambda>(f, p). f = event_buffer_fops) files \<noteq> []"
    using assms(2) by (auto simp: filter_empty_conv)
  with assms(1) show ?thesis by (cases "buffer_opened (evb (kern d))") (auto simp: files_inv_def)
qed

text \<open>Opening and closing. Only the tables of numbers and of the event buffer have an \<open>open\<close>.\<close>

lemma open_moves:
  assumes "files_inv (d, files)" and "private_ok vars (possible_cpus env) f priv" and "c_env c = env"
    and "fop_open (tbl f) = Some h"
  shows "\<exists>r p d'. h c priv None d = Some (r, p, d') \<and> (d' = d \<or> step d d') \<and>
    files_inv (d', if r = rc_ok then (f, p) # files else files)"
proof (cases "f = event_buffer_fops")
  case True
  from assms(1) have i: "inv d" by (simp add: files_inv_def)
  from inv_life [OF i] have l: "life_inv env down rdy d" "env_ok env" by auto
  from open_inv [OF l] obtain r d' where o: "event_buffer_open env (c_capable c) d = Some (r, d')" by blast
  then have s: "step d d'" by (intro step_driver driver_step.open_file)
  from True assms(3,4) o have "h c priv None d = Some (r, None, d')" by (auto simp: table_defs)
  moreover have "files_inv (d', if r = rc_ok then (f, None) # files else files)"
    using assms(1) open_opens [OF l o] step_inv [OF s i] True by (auto simp: files_inv_def)
  ultimately show ?thesis using s by blast
next
  case False
  have "h = default_open" using assms(4) False idle_opens by (cases f) (auto simp: table_defs)
  moreover have "private_ok vars (possible_cpus env) f (if priv \<noteq> None then priv else None)"
    using assms(2) by (cases priv) auto
  ultimately show ?thesis
    using assms(1) False by (auto simp: default_open_def files_inv_def)
qed

lemma close_moves:
  assumes "files_inv (d, files)" and "(f, p) \<in> set files" and "c_env c = env"
    and "fop_release (tbl f) = Some h"
  shows "\<exists>d'. h c d = Some d' \<and> step d d' \<and> files_inv (d', remove1 (f, p) files)"
proof -
  have f: "f = event_buffer_fops" "h = (\<lambda>c d. event_buffer_release (c_env c) d)"
    using assms(4) idle_opens by (cases f; simp add: table_defs)+
  from assms(1) have i: "inv d" by (simp add: files_inv_def)
  from inv_life [OF i] have l: "life_inv env down rdy d" "env_ok env" by auto
  have op: "buffer_opened (evb (kern d))" using files_inv_buffer [OF assms(1)] assms(2) f by blast
  from release_inv [OF l op] obtain d' where d': "event_buffer_release env d = Some d'" by blast
  then have s: "step d d'" by (intro step_driver driver_step.release [OF op])
  have "length (filter (\<lambda>(f, p). f = event_buffer_fops) (remove1 (f, p) files)) = 0"
    using assms(1,2) op f(1) by (simp add: files_inv_def filter_remove1 length_remove1)
  then have "files_inv (d', remove1 (f, p) files)"
    using assms(1) step_inv [OF s i] release_closes [OF d'] notin_set_remove1 [of _ files "(f, p)"]
    by (auto simp: files_inv_def)
  with d' s f(2) assms(3) show ?thesis by auto
qed

lemma close_plain_inv:
  assumes "files_inv (d, files)" and "(f, p) \<in> set files" and "fop_release (tbl f) = None"
  shows "files_inv (d, remove1 (f, p) files)"
proof -
  have "f \<noteq> event_buffer_fops" using assms(3) by (auto simp: table_defs)
  then have "filter (\<lambda>(f, p). f = event_buffer_fops) (remove1 (f, p) files) =
      filter (\<lambda>(f, p). f = event_buffer_fops) files"
    by (simp add: filter_remove1 remove1_idem)
  with assms(1) notin_set_remove1 [of _ files "(f, p)"] show ?thesis by (auto simp: files_inv_def)
qed

text \<open>Every step with files is a step of the driver or leaves it alone.\<close>

lemma file_step_simulates:
  assumes "file_step tbl env fs s s'" and "files_inv s"
    and "\<forall>n \<in> set fs. inode_ok vars (possible_cpus env) n"
  shows "files_inv s' \<and> (fst s' = fst s \<or> step (fst s) (fst s'))"
  using assms
proof (induction rule: file_step.induct)
  case (opens path f perm priv c h d r p d' files)
  then have "private_ok vars (possible_cpus env) f priv" by (fastforce simp: inode_ok_def)
  from open_moves [OF opens(5) this opens(2,3)] opens(4) show ?case by auto
next
  case (opens_plain path f perm priv d files)
  then have "f \<noteq> event_buffer_fops" by (auto simp: table_defs)
  moreover have "private_ok vars (possible_cpus env) f None"
    using opens_plain(2) by (cases f) (auto simp: table_defs)
  ultimately show ?case using opens_plain(3) by (auto simp: files_inv_def)
next
  case (closes f p files c h d d')
  from close_moves [OF closes(5,1-3)] closes(4) show ?case by auto
next
  case (closes_plain f p files d)
  from close_plain_inv [OF closes_plain(3,1,2)] show ?case by simp
next
  case (reads f p files c h count off d r d')
  from reads(1,5) have "inv d" "private_ok vars (possible_cpus env) f p" by (auto simp: files_inv_def)
  moreover have "buffer_opened (evb (kern d))" if "f = event_buffer_fops"
    using files_inv_buffer [OF reads(5)] reads(1) that by blast
  ultimately have "moves d d'" using read_moves [OF _ _ reads(2,3), of d p count off] reads(4) by auto
  with files_inv_moves [OF reads(5)] show ?case by (simp add: moves_def)
next
  case (writes f p files c h w d r d')
  from writes(1,6) have "inv d" "private_ok vars (possible_cpus env) f p" by (auto simp: files_inv_def)
  from write_moves [OF this writes(2,3), of w] writes(4,5) have "moves d d'" by auto
  with files_inv_moves [OF writes(6)] show ?case by (simp add: moves_def)
next
  case (interrupt d i ev k files)
  then have s: "step d (d\<lparr>kern := k\<rparr>)" by (blast intro: step_driver driver_step.interrupt)
  moreover have "moves d (d\<lparr>kern := k\<rparr>)"
    using s on_cpu_keeps_evb [OF interrupt(3)] by (simp add: moves_def)
  ultimately show ?case using files_inv_moves [OF interrupt(4)] by simp
next
  case (work d i here k files)
  then have s: "step d (d\<lparr>kern := k\<rparr>)" by (blast intro: step_driver driver_step.work)
  have "life_inv env down rdy d" "env_ok env" using inv_life [of d] work(3) by (simp_all add: files_inv_def)
  from work_keeps_open [OF this work(1,2)] s have "moves d (d\<lparr>kern := k\<rparr>)" by (simp add: moves_def)
  with s files_inv_moves [OF work(3)] show ?case by simp
qed

lemma file_reach_inv:
  assumes "file_reach tbl env fs s0 s" and "files_inv s0"
    and "\<forall>n \<in> set fs. inode_ok vars (possible_cpus env) n"
  shows "files_inv s"
  using assms by (induction rule: file_reach.induct) (auto dest: file_step_simulates)

lemma files_inv_initial:
  "inv d \<Longrightarrow> \<not> buffer_opened (evb (kern d)) \<Longrightarrow> files_inv (d, [])"
  by (simp add: files_inv_def)

lemma file_reach_steps:
  assumes "file_reach tbl env fs s0 s" and "files_inv s0"
    and "\<forall>n \<in> set fs. inode_ok vars (possible_cpus env) n"
  shows "step\<^sup>*\<^sup>* (fst s0) (fst s)"
  using assms
proof (induction rule: file_reach.induct)
  case (further s s')
  from file_step_simulates [OF further(2) file_reach_inv [OF further(1,4,5)] further(5)] further
  show ?case by (metis rtranclp.rtrancl_into_rtrancl)
qed simp

text \<open>A file of the buffer is open exactly in a set-up session.\<close>

lemma files_inv_session:
  "files_inv (d, files) \<Longrightarrow>
   length (filter (\<lambda>(f, p). f = event_buffer_fops) files) = of_bool (is_setup d)"
  using inv_life [of d] life_inv_states [of env down rdy d] by (auto simp: files_inv_def)

text \<open>What the invariant says: no request on an existing file faults.\<close>

lemma open_no_fault:
  assumes "files_inv (d, files)" and "c_env c = env" and "inode_ok vars (possible_cpus env) (File path f perm priv)"
  shows "opens_safely (tbl f) c priv d"
  unfolding opens_safely_def
proof (intro allI impI)
  fix h assume "fop_open (tbl f) = Some h"
  moreover have "private_ok vars (possible_cpus env) f priv" using assms(3) by (simp add: inode_ok_def)
  ultimately show "h c priv None d \<noteq> None" using open_moves [OF assms(1) _ assms(2)] by fastforce
qed

lemma requests_no_fault:
  assumes "files_inv (d, files)" and "c_env c = env" and "(f, p) \<in> set files"
  shows "serves_safely (tbl f) c p d"
  unfolding serves_safely_def
proof (intro conjI allI impI)
  from assms(1,3) have i: "inv d" "private_ok vars (possible_cpus env) f p" by (auto simp: files_inv_def)
  fix h assume "fop_release (tbl f) = Some h"
  with close_moves [OF assms(1,3,2)] show "h c d \<noteq> None" by fastforce
next
  from assms(1,3) have i: "inv d" "private_ok vars (possible_cpus env) f p" by (auto simp: files_inv_def)
  fix h count off assume "fop_read (tbl f) = Some h"
  from read_moves [OF i assms(2) this] files_inv_buffer [OF assms(1)] assms(3)
  show "h c p count off d \<noteq> None" by blast
next
  from assms(1,3) have i: "inv d" "private_ok vars (possible_cpus env) f p" by (auto simp: files_inv_def)
  fix h w assume "fop_write (tbl f) = Some h"
  from write_moves [OF i assms(2) this, of w] show "h c p w d \<noteq> None" by auto
qed

end

section \<open>Timer back ends\<close>

text \<open>Without further files of the back end, requests are steps of the session of theory Lifecycle,
  for every back end that satisfies its contract.\<close>

lemma setting_varE:
  assumes "setting_var v = Some (get, upd)"
  shows "upd = (\<lambda>v d. d\<lparr>oprofile_buffer_size := v\<rparr>) \<or> upd = (\<lambda>v d. d\<lparr>oprofile_cpu_buffer_size := v\<rparr>) \<or>
    upd = (\<lambda>v d. d\<lparr>oprofile_buffer_watershed := v\<rparr>)"
  using assms by (auto simp: setting_var_def split: if_splits)

lemma setting_var_step:
  assumes "setting_var v = Some (get, upd)" and "oprofile_set_ulong upd x d = (r, d')" and "sizes_ok d'"
  shows "driver_step env d d'"
  using setting_varE [OF assms(1)] by (intro driver_step.setting [OF assms(2) _ assms(3)]) blast

lemma setting_var_opened:
  "setting_var v = Some (get, upd) \<Longrightarrow> kern (upd x d) = kern d"
  using setting_varE by fastforce

lemma setting_var_names:
  "setting_var ''oprofile_buffer_size'' \<noteq> None" "setting_var ''oprofile_buffer_watershed'' \<noteq> None"
  "setting_var ''oprofile_cpu_buffer_size'' \<noteq> None"
  by (simp_all add: setting_var_def)

interpretation session_files: control_files env down rdy
  "\<lambda>d. env_ok env \<and> life_inv env down rdy d" "driver_step env" setting_var no_fops
  for env and down :: "'h \<Rightarrow> bool" and rdy :: "('h, 'r) ops_ready"
proof unfold_locales
  fix d d' :: "('h, 'r) driver"
  assume "driver_step env d d'" "env_ok env \<and> life_inv env down rdy d"
  then show "env_ok env \<and> life_inv env down rdy d'" using driver_step_inv by blast
qed (auto simp: no_fops_def setting_var_opened intro: setting_var_step)

end
