(* ===== verification/Backend_Files.thy ===== *)
theory Backend_Files
  imports File_Requests X86_Lifecycle Ppc_Lifecycle
begin

text \<open>
  The control files of the counter back ends: the settings of the counters behind the files that
  \<^verbatim>\<open>nmi_create_files\<close> and \<^verbatim>\<open>op_powerpc_create_files\<close> make, and the table of \<^verbatim>\<open>idle_poll\<close>. Both
  back ends satisfy the contract of theory File\_Requests with their own state machines.
\<close>

lemma map_of_known: "(k, v) \<in> set ps \<Longrightarrow> \<exists>w. map_of ps k = Some w"
  by (metis domIff map_of_eq_None_iff image_eqI fst_conv option.exhaust)

lemma map_of_front: "k \<in> fst ` set xs \<Longrightarrow> \<exists>w. map_of (xs @ ys) k = Some w"
  using map_of_known [of k _ "xs @ ys"] by fastforce

lemma create_ulongs_ok:
  assumes "\<forall>n \<in> set fs. inode_ok vars possible n" and "\<forall>name \<in> set names. vars (pre @ name) \<noteq> None"
  shows "\<forall>n \<in> set (fold (\<lambda>name fs. snd (oprofilefs_create_ulong alloc dir name (pre @ name) fs)) names fs).
    inode_ok vars possible n"
  using assms
proof (induction names arbitrary: fs)
  case (Cons a names)
  have "\<forall>n \<in> set (snd (oprofilefs_create_ulong alloc dir a (pre @ a) fs)). inode_ok vars possible n"
    unfolding oprofilefs_create_ulong_def using Cons.prems by (intro create_file_ok) (auto simp: others_write_def)
  from Cons.IH [OF this] Cons.prems(2) show ?case by simp
qed simp

lemma dir_of_ulongs_ok:
  assumes "(case oprofilefs_mkdir alloc root dirname fs of (None, fs) \<Rightarrow> None
      | (Some dir, fs) \<Rightarrow> Some (fold (\<lambda>name fs. snd (oprofilefs_create_ulong alloc dir name
          (p @ dec i @ q @ name) fs)) names fs)) = Some fs'"
    and "\<forall>n \<in> set fs. inode_ok vars possible n"
    and "\<And>name. name \<in> set names \<Longrightarrow> vars (p @ dec i @ q @ name) \<noteq> None"
  shows "\<forall>n \<in> set fs'. inode_ok vars possible n"
proof -
  obtain r fs1 where m: "oprofilefs_mkdir alloc root dirname fs = (r, fs1)" by fastforce
  from mkdir_ok [OF assms(2) m] have "\<forall>n \<in> set (fold (\<lambda>name fs. snd (oprofilefs_create_ulong alloc dir
      name ((p @ dec i @ q) @ name) fs)) names fs1). inode_ok vars possible n" for dir
    using assms(3) by (intro create_ulongs_ok) simp_all
  with assms(1) m show ?thesis by (cases r) auto
qed

section \<open>x86\<close>

text \<open>The members of \<^verbatim>\<open>struct op_counter_config\<close> that have files, and \<^verbatim>\<open>counter_config[i]\<close>.\<close>

definition counter_fields ::
  "(string \<times> (op_counter_config \<Rightarrow> ulong) \<times> (ulong \<Rightarrow> op_counter_config \<Rightarrow> op_counter_config)) list" where
  "counter_fields =
     [(''enabled'', cc_enabled, \<lambda>v g. g\<lparr>cc_enabled := v\<rparr>), (''event'', cc_event, \<lambda>v g. g\<lparr>cc_event := v\<rparr>),
      (''count'', cc_count, \<lambda>v g. g\<lparr>cc_count := v\<rparr>),
      (''unit_mask'', cc_unit_mask, \<lambda>v g. g\<lparr>cc_unit_mask := v\<rparr>),
      (''kernel'', cc_kernel, \<lambda>v g. g\<lparr>cc_kernel := v\<rparr>), (''user'', cc_user, \<lambda>v g. g\<lparr>cc_user := v\<rparr>)]"

definition counter_setting ::
  "nat \<Rightarrow> (op_counter_config \<Rightarrow> ulong) \<Rightarrow> (ulong \<Rightarrow> op_counter_config \<Rightarrow> op_counter_config) \<Rightarrow>
   ('h, 'r) x86_driver setting" where
  "counter_setting i get upd =
     (\<lambda>d. get (counter_config (x86 (kern d)) ! i),
      \<lambda>v. on_kern (\<lambda>k. k\<lparr>x86 := (x86 k)\<lparr>counter_config :=
            (counter_config (x86 k))[i := upd v (counter_config (x86 k) ! i)]\<rparr>\<rparr>))"

definition counter_var :: "string \<Rightarrow> ('h, 'r) x86_driver setting option" where
  "counter_var = map_of (concat (map (\<lambda>i. map (\<lambda>(name, get, upd).
     (''counter_config['' @ dec i @ ''].'' @ name, counter_setting i get upd)) counter_fields)
     [0..<OP_MAX_COUNTER]))"

definition x86_var :: "string \<Rightarrow> ('h, 'r) x86_driver setting option" where
  "x86_var = counter_var ++ setting_var"

definition idle_poll_table :: "(('h nmi_kstate_ext) timer_kstate_ext, 'r) file_operations" where
  "idle_poll_table = no_fops\<lparr>fop_read := Some (show_text (\<lambda>c d. idle_poll_read (c_read_buf c) (x86 (kern d)))),
     fop_write := Some (\<lambda>c p w d.
       let (r, x) = idle_poll_write (c_strtoul c) (c_stack c) w (x86 (kern d))
       in Some (r, on_kern (\<lambda>k. k\<lparr>x86 := x\<rparr>) d))\<rparr>"

lemma counter_varE:
  assumes "counter_var v = Some (get, upd)"
  obtains i g u where "upd = (\<lambda>v. on_kern (\<lambda>k. k\<lparr>x86 := (x86 k)\<lparr>counter_config :=
    (counter_config (x86 k))[i := u v (counter_config (x86 k) ! i)]\<rparr>\<rparr>))"
  using map_of_SomeD [OF assms [unfolded counter_var_def]] by (auto simp: counter_setting_def)

lemma x86_var_step:
  fixes d :: "('h, 'r) x86_driver"
  assumes "x86_var v = Some (get, upd)" and "oprofile_set_ulong upd x d = (r, d')" and "sizes_ok d'"
  shows "x86_step B env m d d'"
proof (cases "setting_var v :: ('h, 'r) x86_driver setting option")
  case (Some s)
  with assms show ?thesis by (auto simp: x86_var_def intro: x86_step.driver setting_var_step)
next
  case None
  with assms(1) have "counter_var v = Some (get, upd)" by (auto simp: x86_var_def)
  then obtain i u where u: "upd = (\<lambda>v. on_kern (\<lambda>k. k\<lparr>x86 := (x86 k)\<lparr>counter_config :=
    (counter_config (x86 k))[i := u v (counter_config (x86 k) ! i)]\<rparr>\<rparr>))" by (rule counter_varE)
  show ?thesis
  proof (cases "oprofile_started d")
    case True
    with assms(2,3) have "oprofile_set_ulong (\<lambda>v d. d\<lparr>oprofile_backtrace_depth := v\<rparr>) x d = (r, d')"
      by (simp add: oprofile_set_ulong_def)
    with assms(3) show ?thesis by (blast intro: x86_step.driver driver_step.setting)
  next
    case False
    with assms(2) u show ?thesis
      by (auto simp: oprofile_set_ulong_def intro!: x86_step.configure)
  qed
qed

lemma x86_var_opened:
  fixes d :: "('h, 'r) x86_driver"
  assumes "x86_var v = Some (get, upd)"
  shows "evb (kern (upd x d)) = evb (kern d)"
proof (cases "setting_var v :: ('h, 'r) x86_driver setting option")
  case (Some s)
  with assms setting_var_opened [of v get upd x d] show ?thesis by (auto simp: x86_var_def)
next
  case None
  with assms have "counter_var v = Some (get, upd)" by (auto simp: x86_var_def)
  then show ?thesis by (rule counter_varE) simp
qed

interpretation x86_files: control_files env "\<lambda>h. x86_idle B env m (x86_of h)" "x86_ready B env m"
  "\<lambda>d. env_ok env \<and> x86_inv B env m d" "x86_step B env m" x86_var idle_poll_table
  for env and B :: "'r x86_platform" and m
proof unfold_locales
  fix d d' :: "('h, 'r) x86_driver"
  assume "x86_step B env m d d'" "env_ok env \<and> x86_inv B env m d"
  then show "env_ok env \<and> x86_inv B env m d'" using x86_step_inv by blast
next
  fix f :: "ctx \<Rightarrow> string option \<Rightarrow> ulong \<Rightarrow> nat \<Rightarrow> ('h, 'r) x86_driver \<Rightarrow>
    ((errno + payload) \<times> ('h, 'r) x86_driver) sysret option"
    and c :: ctx and p count off and d :: "('h, 'r) x86_driver"
  assume "fop_read idle_poll_table = Some f"
  then show "\<exists>r. f c p count off d = Some (Done (r, d))"
    by (auto simp: idle_poll_table_def no_fops_def show_text_def)
next
  fix g :: "ctx \<Rightarrow> string option \<Rightarrow> write_request \<Rightarrow> ('h, 'r) x86_driver \<Rightarrow>
    ((errno + nat) \<times> ('h, 'r) x86_driver) option" and c :: ctx and p w and d :: "('h, 'r) x86_driver"
  assume g: "fop_write idle_poll_table = Some g"
  obtain r x where "idle_poll_write (c_strtoul c) (c_stack c) w (x86 (kern d)) = (r, x)" by fastforce
  with g show "\<exists>r d'. g c p w d = Some (r, d') \<and> (d' = d \<or> x86_step B env m d d') \<and>
      buffer_opened (evb (kern d')) = buffer_opened (evb (kern d))"
    by (auto simp: idle_poll_table_def no_fops_def intro: x86_step.idle_poll)
qed (auto simp: x86_var_opened idle_poll_table_def no_fops_def intro: x86_step.driver x86_var_step)

text \<open>The files that the back end makes, for at most \<^verbatim>\<open>OP_MAX_COUNTER\<close> counters.\<close>

lemma counter_var_known:
  fixes vars :: "string \<Rightarrow> ('h, 'r) x86_driver setting option"
  assumes "vars = x86_var" and "i < OP_MAX_COUNTER" and "name \<in> fst ` set counter_fields"
  shows "vars (''counter_config['' @ dec i @ ''].'' @ name) \<noteq> None"
proof -
  from assms(3) obtain g u where "(name, g, u) \<in> set counter_fields" by auto
  with assms(2) have "\<exists>w. (counter_var :: string \<Rightarrow> ('h, 'r) x86_driver setting option)
      (''counter_config['' @ dec i @ ''].'' @ name) = Some w"
    unfolding counter_var_def by (intro map_of_known [where v = "counter_setting i g u"]) force
  then show ?thesis by (auto simp: assms(1) x86_var_def map_add_None)
qed

lemma create_counter_dir_ok:
  fixes vars :: "string \<Rightarrow> ('h, 'r) x86_driver setting option"
  assumes "vars = x86_var" and "create_counter_dir alloc root i fs = Some fs'"
    and "\<forall>n \<in> set fs. inode_ok vars possible n" and "i < OP_MAX_COUNTER"
  shows "\<forall>n \<in> set fs'. inode_ok vars possible n"
  by (rule dir_of_ulongs_ok [OF assms(2) [unfolded create_counter_dir_def] assms(3)],
      rule counter_var_known [OF assms(1,4)]) (auto simp: counter_fields_def)

lemma nmi_create_files_ok:
  fixes vars :: "string \<Rightarrow> ('h, 'r) x86_driver setting option"
  assumes "vars = x86_var" and "nmi_create_files alloc n root fs = Some fs'"
    and "\<forall>x \<in> set fs. inode_ok vars possible x" and "n \<le> OP_MAX_COUNTER"
  shows "\<forall>x \<in> set fs'. inode_ok vars possible x"
proof -
  from assms(2) obtain fs1 where f: "for_each (create_counter_dir alloc root) [0..<n] fs = Some fs1"
    "fs' = snd (oprofilefs_create_file alloc root ''idle_poll'' idle_poll_fops fs1)"
    by (auto simp: nmi_create_files_def split: Option.bind_splits)
  from f(1) assms(3) have "\<forall>x \<in> set fs1. inode_ok vars possible x"
    by (rule for_each_keeps) (rule create_counter_dir_ok [OF assms(1)], use assms(4) in auto)
  then show ?thesis unfolding f(2) oprofilefs_create_file_def
    by (rule create_file_ok) (simp_all add: others_write_def)
qed

section \<open>PowerPC\<close>

text \<open>\<^verbatim>\<open>ctr[i]\<close> and \<^verbatim>\<open>sys\<close> of \<^verbatim>\<open>powerpc/common.c\<close>, as far as they have files.\<close>

definition ctr_fields ::
  "(string \<times> (op_counter_config_ppc \<Rightarrow> ulong) \<times>
    (ulong \<Rightarrow> op_counter_config_ppc \<Rightarrow> op_counter_config_ppc)) list" where
  "ctr_fields =
     [(''enabled'', pc_enabled, \<lambda>v g. g\<lparr>pc_enabled := v\<rparr>), (''event'', pc_event, \<lambda>v g. g\<lparr>pc_event := v\<rparr>),
      (''count'', pc_count, \<lambda>v g. g\<lparr>pc_count := v\<rparr>), (''kernel'', pc_kernel, \<lambda>v g. g\<lparr>pc_kernel := v\<rparr>),
      (''user'', pc_user, \<lambda>v g. g\<lparr>pc_user := v\<rparr>),
      (''unit_mask'', pc_unit_mask, \<lambda>v g. g\<lparr>pc_unit_mask := v\<rparr>)]"

definition ctr_setting ::
  "nat \<Rightarrow> (op_counter_config_ppc \<Rightarrow> ulong) \<Rightarrow>
   (ulong \<Rightarrow> op_counter_config_ppc \<Rightarrow> op_counter_config_ppc) \<Rightarrow> ('h, 'r) ppc_driver setting" where
  "ctr_setting i get upd =
     (\<lambda>d. get (ppc_ctr (ppc (kern d)) ! i),
      \<lambda>v. on_kern (\<lambda>k. k\<lparr>ppc := (ppc k)\<lparr>ppc_ctr :=
            (ppc_ctr (ppc k))[i := upd v (ppc_ctr (ppc k) ! i)]\<rparr>\<rparr>))"

definition sys_setting ::
  "(op_system_config \<Rightarrow> ulong) \<Rightarrow> (ulong \<Rightarrow> op_system_config \<Rightarrow> op_system_config) \<Rightarrow>
   ('h, 'r) ppc_driver setting" where
  "sys_setting get upd =
     (\<lambda>d. get (ppc_sys (ppc (kern d))),
      \<lambda>v. on_kern (\<lambda>k. k\<lparr>ppc := (ppc k)\<lparr>ppc_sys := upd v (ppc_sys (ppc k))\<rparr>\<rparr>))"

definition ppc_own_var :: "string \<Rightarrow> ('h, 'r) ppc_driver setting option" where
  "ppc_own_var = map_of
     ([(''sys.mmcr0'', sys_setting sys_mmcr0 (\<lambda>v s. s\<lparr>sys_mmcr0 := v\<rparr>)),
       (''sys.mmcr1'', sys_setting sys_mmcr1 (\<lambda>v s. s\<lparr>sys_mmcr1 := v\<rparr>)),
       (''sys.mmcra'', sys_setting sys_mmcra (\<lambda>v s. s\<lparr>sys_mmcra := v\<rparr>))] @
      concat (map (\<lambda>i. map (\<lambda>(name, get, upd). (''ctr['' @ dec i @ ''].'' @ name, ctr_setting i get upd))
        ctr_fields) [0..<OP_MAX_COUNTER_ppc]))"

definition ppc_var :: "string \<Rightarrow> ('h, 'r) ppc_driver setting option" where
  "ppc_var = ppc_own_var ++ setting_var"

text \<open>Whatever a setting of the back end changes is in \<^verbatim>\<open>ctr\<close> or \<^verbatim>\<open>sys\<close>.\<close>

lemma ppc_own_varE:
  assumes "ppc_own_var v = Some (get, upd)"
  shows "\<exists>cfg sys. length cfg = length (ppc_ctr (ppc (kern d))) \<and>
    upd x d = on_kern (\<lambda>k. k\<lparr>ppc := (ppc k)\<lparr>ppc_ctr := cfg, ppc_sys := sys\<rparr>\<rparr>) d"
proof -
  let ?p = "ppc (kern d)"
  have ctr: "\<exists>cfg sys. length cfg = length (ppc_ctr ?p) \<and>
      snd (ctr_setting i g u) x d = on_kern (\<lambda>k. k\<lparr>ppc := (ppc k)\<lparr>ppc_ctr := cfg, ppc_sys := sys\<rparr>\<rparr>) d" for i g u
    by (intro exI [of _ "(ppc_ctr ?p)[i := u x (ppc_ctr ?p ! i)]"] exI [of _ "ppc_sys ?p"])
      (simp add: ctr_setting_def)
  have sys: "\<exists>cfg sys. length cfg = length (ppc_ctr ?p) \<and>
      snd (sys_setting g u) x d = on_kern (\<lambda>k. k\<lparr>ppc := (ppc k)\<lparr>ppc_ctr := cfg, ppc_sys := sys\<rparr>\<rparr>) d" for g u
    by (intro exI [of _ "ppc_ctr ?p"] exI [of _ "u x (ppc_sys ?p)"]) (simp add: sys_setting_def)
  from map_of_SomeD [OF assms [unfolded ppc_own_var_def]]
  consider (s) g u where "(get, upd) = sys_setting g u" | (c) i g u where "(get, upd) = ctr_setting i g u"
    by auto
  then show ?thesis using ctr sys by cases (metis snd_conv)+
qed

lemma ppc_var_step:
  fixes d :: "('h, 'r) ppc_driver"
  assumes "ppc_var v = Some (get, upd)" and "oprofile_set_ulong upd x d = (r, d')" and "sizes_ok d'"
  shows "ppc_step B env m d d'"
proof (cases "setting_var v :: ('h, 'r) ppc_driver setting option")
  case (Some s)
  with assms show ?thesis by (auto simp: ppc_var_def intro: ppc_step.driver setting_var_step)
next
  case None
  with assms(1) have own: "ppc_own_var v = Some (get, upd)" by (auto simp: ppc_var_def)
  show ?thesis
  proof (cases "oprofile_started d")
    case True
    with assms(2,3) have "oprofile_set_ulong (\<lambda>v d. d\<lparr>oprofile_backtrace_depth := v\<rparr>) x d = (r, d')"
      by (simp add: oprofile_set_ulong_def)
    with assms(3) show ?thesis by (blast intro: ppc_step.driver driver_step.setting)
  next
    case False
    from ppc_own_varE [OF own, of d x] obtain cfg sys where "length cfg = length (ppc_ctr (ppc (kern d)))"
      "upd x d = on_kern (\<lambda>k. k\<lparr>ppc := (ppc k)\<lparr>ppc_ctr := cfg, ppc_sys := sys\<rparr>\<rparr>) d" by blast
    with False assms(2) ppc_step.configure [OF False, of cfg B env m sys] show ?thesis
      by (simp add: oprofile_set_ulong_def)
  qed
qed

lemma ppc_var_opened:
  fixes d :: "('h, 'r) ppc_driver"
  assumes "ppc_var v = Some (get, upd)"
  shows "evb (kern (upd x d)) = evb (kern d)"
proof (cases "setting_var v :: ('h, 'r) ppc_driver setting option")
  case (Some s)
  with assms setting_var_opened [of v get upd x d] show ?thesis by (auto simp: ppc_var_def)
next
  case None
  with assms have "ppc_own_var v = Some (get, upd)" by (auto simp: ppc_var_def)
  from ppc_own_varE [OF this, of d x] show ?thesis by auto
qed

interpretation ppc_files: control_files env "\<lambda>h. ppc_idle (platform B) (ppc_of h)" "ppc_ready (platform B)"
  "\<lambda>d. env_ok env \<and> ppc_inv (platform B) env d" "ppc_step B env m" ppc_var no_fops
  for env and B :: "'r ppc_build" and m
proof unfold_locales
  fix d d' :: "('h, 'r) ppc_driver"
  assume "ppc_step B env m d d'" "env_ok env \<and> ppc_inv (platform B) env d"
  then show "env_ok env \<and> ppc_inv (platform B) env d'" using ppc_step_inv by blast
qed (auto simp: ppc_var_opened no_fops_def intro: ppc_step.driver ppc_var_step)

lemma ctr_var_known:
  fixes vars :: "string \<Rightarrow> ('h, 'r) ppc_driver setting option"
  assumes "vars = ppc_var" and "i < OP_MAX_COUNTER_ppc" and "name \<in> fst ` set ctr_fields"
  shows "vars (''ctr['' @ dec i @ ''].'' @ name) \<noteq> None"
proof -
  from assms(3) obtain g u where "(name, g, u) \<in> set ctr_fields" by auto
  with assms(2) have "\<exists>w. (ppc_own_var :: string \<Rightarrow> ('h, 'r) ppc_driver setting option)
      (''ctr['' @ dec i @ ''].'' @ name) = Some w"
    unfolding ppc_own_var_def by (intro map_of_known [where v = "ctr_setting i g u"]) force
  then show ?thesis by (auto simp: assms(1) ppc_var_def map_add_None)
qed

lemma create_pmc_dir_ok:
  fixes vars :: "string \<Rightarrow> ('h, 'r) ppc_driver setting option"
  assumes "vars = ppc_var" and "create_pmc_dir alloc root i fs = Some fs'"
    and "\<forall>n \<in> set fs. inode_ok vars possible n" and "i < OP_MAX_COUNTER_ppc"
  shows "\<forall>n \<in> set fs'. inode_ok vars possible n"
  by (rule dir_of_ulongs_ok [OF assms(2) [unfolded create_pmc_dir_def] assms(3)],
      rule ctr_var_known [OF assms(1,4)]) (auto simp: ctr_fields_def)

lemma powerpc_files_ok:
  fixes vars :: "string \<Rightarrow> ('h, 'r) ppc_driver setting option"
  assumes "vars = ppc_var" and "powerpc_files alloc n root fs = Some fs'"
    and "\<forall>x \<in> set fs. inode_ok vars possible x" and "n \<le> OP_MAX_COUNTER_ppc"
  shows "\<forall>x \<in> set fs'. inode_ok vars possible x"
proof -
  have "\<exists>w. (ppc_own_var :: string \<Rightarrow> ('h, 'r) ppc_driver setting option) (''sys.'' @ name) = Some w"
    if "name \<in> set [''mmcr0'', ''mmcr1'', ''mmcra'']" for name
    unfolding ppc_own_var_def by (rule map_of_front) (use that in auto)
  then have "\<forall>name \<in> set [''mmcr0'', ''mmcr1'', ''mmcra'']. vars (''sys.'' @ name) \<noteq> None"
    unfolding assms(1) ppc_var_def map_add_None by (metis option.distinct(1))
  from create_ulongs_ok [OF assms(3) this] obtain fs1 where fs1:
    "for_each (create_pmc_dir alloc root) [0..<n] fs1 = Some fs'" "\<forall>x \<in> set fs1. inode_ok vars possible x"
    using assms(2) [unfolded powerpc_files_def] by blast
  then show ?thesis by (rule for_each_keeps) (rule create_pmc_dir_ok [OF assms(1)], use assms(4) in auto)
qed

end
