(* ===== verification/File_Sessions.thy ===== *)
theory File_Sessions
  imports Backend_Files Session
begin

text \<open>
  What the control files of a mounted file system promise: no request on them faults, requests
  follow the session, a number written to a file of a setting is read back from it, the files of
  the statistics show the counters they are named after, and other users cannot change a size.
\<close>

section \<open>Mounting\<close>

lemma init_keeps_setup:
  assumes "oprofile_init ti ai fs d = Some (r, d0)"
  shows "is_setup d0 = is_setup d"
proof -
  obtain t timer where t: "ti no_operations = (t, timer)" by fastforce
  from assms obtain err arch k where a: "ai no_operations (kern d) = Some (err, arch, k)"
    by (cases "ai no_operations (kern d)") (auto simp: oprofile_init_def t)
  show ?thesis
    using assms by (cases "err = rc_ok"; cases "op_cpu_type arch"; cases "op_cpu_type timer")
      (auto simp: oprofile_init_def t a Let_def oprofile_set_ulong_def split: if_splits)
qed

lemma fill_super_mounts:
  assumes "oprofilefs_fill_super alloc root_alloc possible d0 = Some (rc_ok, fs, paths, dm)"
  shows "oprofile_create_files alloc possible [] [Dir []] d0 = Some (fs, paths, dm)"
  using assms by (auto simp: oprofilefs_fill_super_def split: Option.bind_splits prod.splits bool.splits)

lemma create_files_frame:
  assumes "oprofile_create_files alloc possible root fs d = Some (fs', paths, d')"
  shows "kern d' = kern d" "is_setup d' = is_setup d"
  using assms by (auto simp: oprofile_create_files_def Let_def split: Option.bind_splits)

lemmas model_sizes =
  arch_wf_def OP_MAX_COUNTER_def op_ppro_spec_def op_p4_spec_def op_p4_ht2_spec_def op_athlon_spec_def
  Op_Athlon.NUM_COUNTERS_def NUM_COUNTERS_NON_HT_def NUM_COUNTERS_HT2_def

lemma model_counters_few:
  assumes "x86_inv B env m d"
  shows "unat (num_counters (spec_of B m) (x86 (kern d))) \<le> OP_MAX_COUNTER"
  using assms
proof (cases rule: x86_inv_cases)
  case quiet
  then show ?thesis
    by (cases m) (auto simp: x86_idle_def model_sizes)
next
  case armed
  then show ?thesis
    by (cases m) (auto simp: x86_armed_def model_sizes)
qed

text \<open>
  The module on x86 that found the counter model \<open>m\<close>, and its mounted file system \<open>fs\<close> with the
  files of the back end.
\<close>

definition x86_mounted ::
  "'r x86_platform \<Rightarrow> kernel_env \<Rightarrow> model_spec \<Rightarrow> inode list \<Rightarrow> ('h, 'r) x86_driver \<Rightarrow> bool" where
  "x86_mounted B env m fs dm \<longleftrightarrow>
     (\<exists>d reg tb r rfs d0 alloc core paths. platform_ok B env \<and> fresh_driver d \<and> x86_fresh (x86 (kern d)) \<and>
        oprofile_init (oprofile_timer_init reg (online_cpus env) tb) (oprofile_arch_init B env) rfs d =
          Some (r, d0) \<and> nmi_model (x86 (kern d0)) = Some m \<and> op_cpu_type (arch_ops d0) \<noteq> None \<and>
        oprofilefs_fill_super alloc (True, True) (possible_cpus env) d0 = Some (rc_ok, core, paths, dm) \<and>
        nmi_create_files alloc (unat (num_counters (spec_of B m :: ('h, 'r) op_x86_model_spec) (x86 (kern dm))))
          [] core = Some fs)"

abbreviation x86_table :: "kernel_env \<Rightarrow> fops \<Rightarrow> (('h nmi_kstate_ext) timer_kstate_ext, 'r) file_operations" where
  "x86_table env \<equiv> file_table x86_var idle_poll_table (possible_cpus env)"

lemma x86_mounted_inv:
  fixes dm :: "('h, 'r) x86_driver" and vars :: "string \<Rightarrow> ('h, 'r) x86_driver setting option"
  assumes "x86_mounted B env m fs dm" and "vars = x86_var"
  shows "env_ok env" "x86_inv B env m dm" "\<not> buffer_opened (evb (kern dm))"
    "\<forall>n \<in> set fs. inode_ok vars (possible_cpus env) n"
proof -
  from assms(1) obtain d reg tb r rfs d0 alloc core paths where *: "platform_ok B env" "fresh_driver d"
    "x86_fresh (x86 (kern d))"
    "oprofile_init (oprofile_timer_init reg (online_cpus env) tb) (oprofile_arch_init B env) rfs d =
       Some (r, d0)" "nmi_model (x86 (kern d0)) = Some m" "op_cpu_type (arch_ops d0) \<noteq> None"
    "oprofilefs_fill_super alloc (True, True) (possible_cpus env) d0 = Some (rc_ok, core, paths, dm)"
    "nmi_create_files alloc (unat (num_counters (spec_of B m :: ('h, 'r) op_x86_model_spec) (x86 (kern dm)))) []
       core = Some fs"
    unfolding x86_mounted_def by blast
  show "env_ok env" using *(1) by (simp add: platform_ok_def sys_ok_def)
  have i0: "x86_inv B env m d0" using x86_module_init [OF *(4,2,1,3,6)] *(5) by auto
  note c = fill_super_mounts [OF *(7)]
  from create_files_inv [OF c i0] show im: "x86_inv B env m dm" .
  from init_keeps_setup [OF *(4)] *(2) create_files_frame(2) [OF c] life_inv_states [OF im]
  show "\<not> buffer_opened (evb (kern dm))" by (simp add: fresh_driver_def)
  have "vars v \<noteq> None" if "setting_var v \<noteq> (None :: ('h, 'r) x86_driver setting option)" for v
    using that by (simp add: assms(2) x86_var_def map_add_None)
  then have "\<forall>n \<in> set core. inode_ok vars (possible_cpus env) n"
    using setting_var_names by (intro create_files_ok [OF c]) (simp_all add: inode_ok_def)
  from nmi_create_files_ok [OF assms(2) *(8) this model_counters_few [OF im]]
  show "\<forall>n \<in> set fs. inode_ok vars (possible_cpus env) n" .
qed



section \<open>Settings\<close>

lemma number_read:
  assumes "delivers (c_read_buf c)" and "21 \<le> unat count"
  shows "\<exists>pos. show_text (\<lambda>c d. ulong_read_file (c_read_buf c) (get d)) c p count 0 d =
    Some (Done (Inr (Text (dec (unat (get d)) @ [NEWLINE]) pos), d))"
proof -
  have "length (dec (unat (get d)) @ [NEWLINE]) \<le> unat count" using ulong_text_fits [of "get d"] assms(2) by simp
  with assms(1) show ?thesis
    by (simp add: show_text_def ulong_read_file_def ulong_to_user_text delivers_def)
qed

lemma number_written:
  assumes "reads_decimal strtoul" and "n < 2 ^ 64"
  shows "oprofilefs_ulong_from_user strtoul (Some (dec n @ [NEWLINE])) (Suc (length (dec n))) old = (rc_ok, of_nat n)"
proof -
  have "takeWhile (\<lambda>c. c \<noteq> NUL) (dec n @ [NEWLINE]) = dec n @ [NEWLINE]"
    using dec_digits [of n] by (intro takeWhile_eq_all_conv [THEN iffD2]) auto
  moreover have "strtoul (dec n @ [NEWLINE]) = of_nat n" using assms by (simp add: reads_decimal_def)
  moreover have "length (dec n) \<le> 20" using length_dec [of n 19] assms(2) by simp
  ultimately show ?thesis by (simp add: oprofilefs_ulong_from_user_def TMPBUFSIZE_def)
qed

lemma setting_var_cases:
  assumes "setting_var v = Some (get, upd)"
  obtains (size) "v = ''oprofile_buffer_size''" "get = oprofile_buffer_size"
      "upd = (\<lambda>v d. d\<lparr>oprofile_buffer_size := v\<rparr>)"
  | (watershed) "v = ''oprofile_buffer_watershed''" "get = oprofile_buffer_watershed"
      "upd = (\<lambda>v d. d\<lparr>oprofile_buffer_watershed := v\<rparr>)"
  | (cpu_size) "v = ''oprofile_cpu_buffer_size''" "get = oprofile_cpu_buffer_size"
      "upd = (\<lambda>v d. d\<lparr>oprofile_cpu_buffer_size := v\<rparr>)"
  using assms unfolding setting_var_def by (simp split: if_splits)

lemma setting_set: "setting_var v = Some (get, upd) \<Longrightarrow> get (upd x d) = x"
  by (erule setting_var_cases) simp_all

lemma settings_independent:
  "setting_var v = Some (get, upd) \<Longrightarrow> setting_var v' = Some (get', upd') \<Longrightarrow> v' \<noteq> v \<Longrightarrow>
   get' (upd x d) = get' d"
  by (elim setting_var_cases) simp_all

text \<open>C36: a number written as a line to the file of a setting while no profile runs is taken whole, is
  the line that the file shows from then on, and leaves the other settings as they are.\<close>

theorem setting_file_roundtrip:
  fixes d :: "('h, 'r) driver"
  assumes "setting_var v = Some (get, upd :: ulong \<Rightarrow> ('h, 'r) driver \<Rightarrow> ('h, 'r) driver)" and "\<not> oprofile_started d"
    and "reads_decimal (c_strtoul c)" and "delivers (c_read_buf c)" and "n < 2 ^ 64"
    and "w = \<lparr>w_user = Some (dec n @ [NEWLINE]), w_count = Suc (length (dec n)), w_offset = 0\<rparr>"
    and "21 \<le> unat count"
    and "fop_write (ulong_table setting_var) = Some wr" and "fop_read (ulong_table setting_var) = Some rd"
  shows "\<exists>d' pos. wr c (Some v) w d = Some (Inr (w_count w), d') \<and>
    rd c (Some v) count 0 d' = Some (Done (Inr (Text (dec n @ [NEWLINE]) pos), d')) \<and>
    (\<forall>v' get' upd'. v' \<noteq> v \<and> setting_var v' = Some (get', upd') \<longrightarrow> get' d' = get' d)"
proof -
  let ?d = "upd (of_nat n) d"
  have h: "wr = write_ulong setting_var" "rd = read_ulong (\<lambda>p. map_option fst (setting_var p))"
    using assms(8,9) by (simp_all add: table_defs)
  have u: "unat (of_nat n :: ulong) = n" using assms(5) by (simp add: unat_of_nat)
  note g = setting_set [OF assms(1), of "of_nat n" d]
  have o: "\<forall>v' get' upd'. v' \<noteq> v \<and> setting_var v' = Some (get', upd') \<longrightarrow> get' ?d = get' d"
    using settings_independent [OF assms(1)] by blast
  have "wr c (Some v) w d = Some (Inr (w_count w), ?d)"
    unfolding h using assms(1,2,6) number_written [OF assms(3,5), of "c_stack c"]
    by (simp add: write_ulong_def ulong_write_file_def oprofile_set_ulong_def count_or_error_def)
  moreover obtain pos where "rd c (Some v) count 0 ?d = Some (Done (Inr (Text (dec n @ [NEWLINE]) pos), ?d))"
    unfolding h using assms(1) number_read [OF assms(4,7), of get "Some v" ?d] g u
    by (auto simp: read_ulong_def)
  ultimately show ?thesis using o by blast
qed

section \<open>Statistics\<close>

lemma is_digit_bracket: "\<not> is_digit (CHR '']'')"
  by (simp add: is_digit_def)

lemma cpu_stat_name_inj:
  assumes "cpu_stat_name i name = cpu_stat_name j name'"
  shows "i = j" "name = name'"
proof -
  have eq: "dec i @ CHR '']'' # CHR ''.'' # name = dec j @ CHR '']'' # CHR ''.'' # name'"
    using assms by (simp add: cpu_stat_name_def)
  have t: "takeWhile is_digit (dec k @ CHR '']'' # r) = dec k" for k r
    using dec_digits [of k] by (subst takeWhile_append2) (auto simp: is_digit_bracket)
  from arg_cong [OF eq, of "takeWhile is_digit"] have d: "dec i = dec j" by (simp add: t)
  then show "i = j" by (metis dec_value)
  from eq d show "name = name'" by simp
qed

lemma cpu_stat_var_value:
  assumes "i \<in> set possible" and "(name, field) \<in> set cpu_stats"
  shows "cpu_stat_var possible (cpu_stat_name i name) =
    Some (\<lambda>d :: ('h, 'r) driver. field (cpu_buffer (kern d) i))"
proof -
  obtain get :: "('h, 'r) driver \<Rightarrow> ulong" where g: "cpu_stat_var possible (cpu_stat_name i name) = Some get"
    using cpu_stat_var_known [OF assms] by blast
  from map_of_SomeD [OF g [unfolded cpu_stat_var_def]] obtain j name' field' where
    "(name', field') \<in> set cpu_stats" "cpu_stat_name i name = cpu_stat_name j name'"
    "get = (\<lambda>d. field' (cpu_buffer (kern d) j))" by auto
  moreover from cpu_stat_name_inj [OF this(2)] have "j = i" "name' = name" by simp_all
  ultimately show ?thesis using g assms(2) by (auto simp: cpu_stats_names)
qed

text \<open>The file system when every allocation succeeds.\<close>

definition cpu_files :: "string list \<Rightarrow> nat \<Rightarrow> inode list" where
  "cpu_files dir i =
     (let cpudir = dir @ [take 9 (''cpu'' @ dec i)]
      in Dir cpudir # map (\<lambda>(name, _). File (cpudir @ [name]) ulong_ro_fops 444 (Some (cpu_stat_name i name)))
           cpu_stats)"

lemma create_cpu_stats_all:
  "create_cpu_stats (\<lambda>_. (True, True)) dir i fs = Some (fs @ cpu_files dir i)"
  by (simp add: create_cpu_stats_def oprofilefs_mkdir_def cpu_files_def Let_def cpu_stats_def
      oprofilefs_create_ro_ulong_def oprofilefs_create_file_priv_def cpu_stat_name_def)

lemma create_stats_all:
  "\<exists>rest. oprofile_create_stats_files (\<lambda>_. (True, True)) possible root fs =
     Some (fs @ [Dir (root @ [''stats''])] @ concat (map (cpu_files (root @ [''stats''])) possible) @ rest) \<and>
   (\<forall>n \<in> set rest. \<exists>name priv. n = File (root @ [''stats'', name]) atomic_ro_fops 444 priv)"
proof -
  have "for_each (create_cpu_stats (\<lambda>_. (True, True)) dir) is fs =
      Some (fs @ concat (map (cpu_files dir) is))" for dir "is" fs
    by (induction "is" arbitrary: fs) (simp_all add: create_cpu_stats_all)
  then show ?thesis
    by (simp add: oprofile_create_stats_files_def oprofilefs_mkdir_def oprofilefs_create_ro_atomic_def
        oprofilefs_create_file_priv_def)
qed

text \<open>C35: for every possible CPU below a million the mounted file system has, for each of the four
  counters, a file in the directory of that CPU, no other file has its path, and reading it shows
  the counter of that CPU that it is named after.\<close>

theorem stats_files_show_counters:
  assumes "oprofile_create_files (\<lambda>_. (True, True)) possible [] [Dir []] d0 = Some (fs, paths, dm)"
    and "\<forall>j \<in> set possible. j < 10 ^ 6" and "i \<in> set possible"
    and "(name, field) \<in> set cpu_stats" and "delivers (c_read_buf c)" and "21 \<le> unat count"
    and "fop_read (ulong_ro_table possible) = Some rd"
  shows "\<exists>priv pos. File [''stats'', ''cpu'' @ dec i, name] ulong_ro_fops 444 priv \<in> set fs \<and>
    (\<forall>f perm priv'. File [''stats'', ''cpu'' @ dec i, name] f perm priv' \<in> set fs \<longrightarrow>
       f = ulong_ro_fops \<and> perm = 444 \<and> priv' = priv) \<and>
    rd c priv count 0 d =
      Some (Done (Inr (Text (dec (unat (field (cpu_buffer (kern d) i))) @ [NEWLINE]) pos), d))"
proof -
  have cpu: "take 9 (''cpu'' @ dec j) = ''cpu'' @ dec j" if "j \<in> set possible" for j
    using length_dec [of j 5] assms(2) that by simp
  obtain rest where fs: "fs = create_control_files (\<lambda>_. (True, True)) [] [Dir []] @ [Dir [''stats'']] @
      concat (map (cpu_files [''stats'']) possible) @ rest"
    and rest: "\<forall>n \<in> set rest. \<exists>name priv. n = File [''stats'', name] atomic_ro_fops 444 priv"
    using create_stats_all [of possible "[]" "create_control_files (\<lambda>_. (True, True)) [] [Dir []]"] assms(1)
    by (auto simp: oprofile_create_files_def Let_def)
  have flat: "\<forall>n \<in> set (create_control_files (\<lambda>_. (True, True)) [] [Dir []]).
      n = Dir [] \<or> (\<exists>name f perm priv. n = File [name] f perm priv)"
    unfolding create_control_files_def create_defs fold.simps o_apply id_apply
    by (intro create_file_all) auto
  have files: "File [''stats'', ''cpu'' @ dec i, name] f perm priv \<in> set fs \<longleftrightarrow>
      f = ulong_ro_fops \<and> perm = 444 \<and> priv = Some (cpu_stat_name i name)" for f perm priv
  proof
    assume "File [''stats'', ''cpu'' @ dec i, name] f perm priv \<in> set fs"
    then have "File [''stats'', ''cpu'' @ dec i, name] f perm priv \<in> set (concat (map (cpu_files [''stats'']) possible))"
      using fs flat rest by fastforce
    then obtain j where "j \<in> set possible"
      "File [''stats'', ''cpu'' @ dec i, name] f perm priv \<in> set (cpu_files [''stats''] j)" by auto
    moreover from this have "dec j = dec i" using cpu [of j] by (auto simp: cpu_files_def Let_def)
    then have "j = i" by (metis dec_value)
    ultimately show "f = ulong_ro_fops \<and> perm = 444 \<and> priv = Some (cpu_stat_name i name)"
      by (auto simp: cpu_files_def Let_def)
  next
    assume "f = ulong_ro_fops \<and> perm = 444 \<and> priv = Some (cpu_stat_name i name)"
    then have "File [''stats'', ''cpu'' @ dec i, name] f perm priv \<in> set (cpu_files [''stats''] i)"
      using cpu [OF assms(3)] assms(4) by (force simp: cpu_files_def Let_def)
    with assms(3) fs show "File [''stats'', ''cpu'' @ dec i, name] f perm priv \<in> set fs" by auto
  qed
  from assms(7) have "rd = read_ulong (cpu_stat_var possible)" by (simp add: table_defs)
  then obtain pos where "rd c (Some (cpu_stat_name i name)) count 0 d =
      Some (Done (Inr (Text (dec (unat (field (cpu_buffer (kern d) i))) @ [NEWLINE]) pos), d))"
    using number_read [OF assms(5,6), of "\<lambda>d. field (cpu_buffer (kern d) i)" "Some (cpu_stat_name i name)" d]
    by (auto simp: read_ulong_def cpu_stat_var_value [OF assms(3,4)])
  with files show ?thesis by blast
qed

section \<open>Other users\<close>

definition settings :: "('h, 'r) driver \<Rightarrow> ulong \<times> ulong \<times> ulong \<times> ulong" where
  "settings d = (oprofile_buffer_size d, oprofile_cpu_buffer_size d, oprofile_buffer_watershed d,
     oprofile_backtrace_depth d)"

lemma note_adapt_settings: "note_adapt_value d = Some d' \<Longrightarrow> settings d' = settings d"
  by (auto simp: note_adapt_value_def settings_def split: Option.bind_splits)

lemma sync_all_settings: "sync_all env d = Some d' \<Longrightarrow> settings d' = settings d"
  by (auto simp: sync_all_def settings_def)

lemma settings_frame [simp]:
  "settings (d\<lparr>kern := k\<rparr>) = settings d" "settings (d\<lparr>oprofile_started := s\<rparr>) = settings d"
  "settings (d\<lparr>oprofile_adapt_value := a\<rparr>) = settings d"
  "settings (d\<lparr>oprofile_ops := ops\<rparr>) = settings d"
  "settings (d\<lparr>rrprofile_debug := v\<rparr>) = settings d"
  by (simp_all add: settings_def)

lemma start_settings: "oprofile_start env d = Some (r, d') \<Longrightarrow> settings d' = settings d"
  by (auto simp: oprofile_start_def Let_def split: if_splits Option.bind_splits dest!: note_adapt_settings)

lemma stop_settings: "oprofile_stop env d = Some d' \<Longrightarrow> settings d' = settings d"
  by (auto simp: oprofile_stop_def split: if_splits Option.bind_splits
      dest!: note_adapt_settings sync_all_settings)

lemma adapt_settings: "oprofile_adapt env d = Some (r, d') \<Longrightarrow> settings d' = settings d"
  by (auto simp: oprofile_adapt_def Let_def split: if_splits Option.bind_splits option.splits
      dest!: note_adapt_settings sync_all_settings)

text \<open>C37: a write by another user, to any file that the permissions let him write, leaves the sizes of
  the buffers, the watershed and the backtrace depth as they are, and without the privilege to
  administer the system he cannot open the event buffer.\<close>

theorem others_cannot_change_settings:
  assumes "oprofile_create_files alloc possible [] [Dir []] d0 = Some (fs, paths, dm)"
    and "File path f perm priv \<in> set fs" and "others_write perm"
    and "fop_write (file_table vars idle possible f) = Some wr" and "wr c p w d = Some (r, d')"
    and "fop_open (file_table vars idle possible event_buffer_fops) = Some op" and "\<not> c_capable c"
  shows "settings d' = settings d \<and> op c priv None d = Some (Inl EPERM, None, d)"
proof
  have "\<forall>n \<in> set fs. inode_ok setting_var possible n"
    using setting_var_names by (intro create_files_ok [OF assms(1)]) (simp_all add: inode_ok_def)
  with assms(2,3) have "f \<in> {enable_fops, dump_fops, event_buffer_fops, oprofile_timer_count_fops,
      adapt_fops, debug_fops}" by (fastforce simp: inode_ok_def)
  then show "settings d' = settings d"
    using assms(4,5)
    by (auto simp: table_defs dump_write_def event_buffer_write_def enable_write_def timer_write_def
        adapt_write_def debug_write_def oprofile_set_oprofile_timer_count_def Let_def
        split: if_splits prod.splits sum.splits Option.bind_splits
        dest!: start_settings stop_settings adapt_settings)
  from assms(6,7) show "op c priv None d = Some (Inl EPERM, None, d)"
    by (auto simp: table_defs event_buffer_open_def)
qed

end
