(* ===== verification/Control_Witnesses.thy ===== *)
theory Control_Witnesses
  imports File_Sessions File_Witnesses X86_Witnesses
begin

text \<open>Instances of the theorems about the control files: the Athlon module of theory X86\_Witnesses
  with its mounted file system, and a caller without privileges.\<close>

definition ex_ctx :: ctx where
  "ex_ctx = \<lparr>c_env = ex_env, c_capable = False, c_signal = False, c_copy_ok = True,
     c_strtoul = ex_strtoul, c_read_buf = ex_read_buf, c_stack = 0, c_hz = 250, c_user_hz = 100,
     c_policy = None, c_cpu_khz = 2000000\<rparr>"

lemma ex_ctx: "c_env ex_ctx = ex_env" "\<not> c_capable ex_ctx" "reads_decimal (c_strtoul ex_ctx)"
  "delivers (c_read_buf ex_ctx)"
  by (simp_all add: ex_ctx_def ex_strtoul ex_read_buf)

lemma ex_create_files:
  fixes d :: "('h, 'r) driver"
  shows "\<exists>fs paths d'. oprofile_create_files (\<lambda>_. (True, True)) possible [] [Dir []] d = Some (fs, paths, d') \<and>
    File [''enable''] enable_fops 666 None \<in> set fs"
proof -
  have e: "File [''enable''] enable_fops 666 None \<in> set (create_control_files (\<lambda>_. (True, True)) [] [Dir []])"
    by (simp add: create_control_files_def create_defs oprofilefs_create_file_priv_def)
  from create_stats_all [of possible "[]" "create_control_files (\<lambda>_. (True, True)) [] [Dir []]"]
  obtain rest where "oprofile_create_stats_files (\<lambda>_. (True, True)) possible []
      (create_control_files (\<lambda>_. (True, True)) [] [Dir []]) =
    Some (create_control_files (\<lambda>_. (True, True)) [] [Dir []] @ rest)" by auto
  with e show ?thesis by (simp add: oprofile_create_files_def Let_def)
qed

lemma ex_nmi_create_files:
  "\<exists>fs'. nmi_create_files (\<lambda>_. (True, True)) n root fs = Some fs' \<and> set fs \<subseteq> set fs'"
proof -
  have "\<exists>s'. for_each (create_counter_dir (\<lambda>_. (True, True)) root) [0..<n] fs = Some s' \<and> set fs \<subseteq> set s'"
    by (rule for_each_invariant [where I = "\<lambda>s. set fs \<subseteq> set s"])
      (auto simp: create_counter_dir_def oprofilefs_mkdir_def oprofilefs_create_ulong_def
        oprofilefs_create_file_priv_def)
  then show ?thesis
    by (auto simp: nmi_create_files_def oprofilefs_create_file_def oprofilefs_create_file_priv_def)
qed

lemma ex_mounted:
  "\<exists>fs (dm :: (unit, unit) x86_driver). x86_mounted ex_platform ex_env athlon_spec fs dm \<and>
    File [''enable''] enable_fops 666 None \<in> set fs"
proof -
  from ex_x86_init obtain d0 where i: "oprofile_init (oprofile_timer_init rc_ok (online_cpus ex_env) (\<lambda>_. 5))
      (oprofile_arch_init ex_platform ex_env) rc_ok ex_x86_module = Some (rc_ok, d0)"
    "nmi_model (x86 (kern d0)) = Some athlon_spec" "op_cpu_type (arch_ops d0) \<noteq> None" by blast
  have fresh: "x86_fresh (x86 (kern ex_x86_module))"
    using ex_static_fresh ex_x86_module_fresh(2) by simp
  from ex_create_files [of "possible_cpus ex_env" d0] obtain core paths dm where
    c: "oprofile_create_files (\<lambda>_. (True, True)) (possible_cpus ex_env) [] [Dir []] d0 = Some (core, paths, dm)"
      "File [''enable''] enable_fops 666 None \<in> set core" by blast
  then have m: "oprofilefs_fill_super (\<lambda>_. (True, True)) (True, True) (possible_cpus ex_env) d0 =
      Some (rc_ok, core, paths, dm)" by (simp add: oprofilefs_fill_super_def)
  from ex_nmi_create_files [of "unat (num_counters (spec_of ex_platform athlon_spec ::
      (unit, unit) op_x86_model_spec) (x86 (kern dm)))" "[]" core] obtain fs where
    fs: "nmi_create_files (\<lambda>_. (True, True)) (unat (num_counters (spec_of ex_platform athlon_spec ::
      (unit, unit) op_x86_model_spec) (x86 (kern dm)))) [] core = Some fs" "set core \<subseteq> set fs" by blast
  have "x86_mounted ex_platform ex_env athlon_spec fs dm"
    unfolding x86_mounted_def using ex_platform_ok ex_x86_module_fresh(1) fresh i m fs(1) by blast
  with fs(2) c(2) show ?thesis by blast
qed

lemma ex_enable_opened:
  assumes "File [''enable''] enable_fops 666 None \<in> set fs"
  shows "file_reach (x86_table ex_env) ex_env fs (dm, []) (dm, [(enable_fops, None)])"
  by (rule file_reach.further [OF file_reach.initial file_step.opens_plain [OF assms]])
    (simp add: table_defs)



theorem setting_file_roundtrip_witness:
  "\<exists>d' pos. read_ulong (\<lambda>p. map_option fst (setting_var p)) ex_ctx (Some ''oprofile_buffer_size'') 64 0 d' =
    Some (Done (Inr (Text (dec 4096 @ [NEWLINE]) pos), d' :: (unit timer_kstate_ext, unit) driver))"
proof -
  have v: "(setting_var :: string \<Rightarrow> (unit timer_kstate_ext, unit) driver setting option) ''oprofile_buffer_size'' =
      Some (oprofile_buffer_size, \<lambda>v d. d\<lparr>oprofile_buffer_size := v\<rparr>)" by (simp add: setting_var_def)
  have s: "\<not> oprofile_started ex_module" by (simp add: ex_module_def)
  from setting_file_roundtrip [OF v s ex_ctx(3,4) _ refl, of 4096 64 "write_ulong setting_var"
      "read_ulong (\<lambda>p. map_option fst (setting_var p))"] show ?thesis
    by (simp add: table_defs) blast
qed

theorem stats_files_show_counters_witness:
  "\<exists>priv pos. read_ulong (cpu_stat_var [0]) ex_ctx priv 64 0 ex_session =
    Some (Done (Inr (Text (dec (unat (sample_received (cpu_buffer (kern ex_session) 0))) @ [NEWLINE]) pos), ex_session))"
proof -
  from ex_create_files [of "[0]" ex_module] obtain fs paths dm where
    c: "oprofile_create_files (\<lambda>_. (True, True)) [0] [] [Dir []] ex_module = Some (fs, paths, dm)" by blast
  have "(''sample_received'', sample_received) \<in> set cpu_stats" by (simp add: cpu_stats_def)
  from stats_files_show_counters [OF c _ _ this ex_ctx(4), of 0 64 "read_ulong (cpu_stat_var [0])" ex_session]
  show ?thesis by (simp add: table_defs) blast
qed

theorem others_cannot_change_settings_witness:
  "\<exists>op. fop_open event_buffer_table = Some op \<and> op ex_ctx None None ex_module = Some (Inl EPERM, None, ex_module)"
proof -
  from ex_create_files [of "[0]" ex_module] obtain fs paths dm where
    c: "oprofile_create_files (\<lambda>_. (True, True)) [0] [] [Dir []] ex_module = Some (fs, paths, dm)"
      "File [''enable''] enable_fops 666 None \<in> set fs" by blast
  let ?d = ex_module
  have w: "enable_write (c_env ex_ctx) (c_strtoul ex_ctx) (c_stack ex_ctx) (ex_write []\<lparr>w_offset := 1\<rparr>) ?d =
      Some (Inl EINVAL, ?d)" by (simp add: enable_write_def)
  obtain op where op: "fop_open (event_buffer_table :: (unit timer_kstate_ext, unit) file_operations) = Some op"
    by (simp add: table_defs)
  from others_cannot_change_settings [OF c _ _ _ _ ex_ctx(2), where vars = setting_var and
      idle = no_fops and wr = "\<lambda>c p. enable_write (c_env c) (c_strtoul c) (c_stack c)" and p = None and
      w = "ex_write []\<lparr>w_offset := 1\<rparr>" and d = ?d and r = "Inl EINVAL" and d' = ?d and op = op] op w
  show ?thesis by (auto simp: others_write_def table_defs)
qed

end
