(* ===== verification/Spec2Isabelle.thy ===== *)
theory Spec2Isabelle
  imports Old_Witnesses Ppc_Witnesses Stock_Witnesses Control_Witnesses
begin

text \<open>
  rrprofile is a sampling profiler for Linux, derived from OProfile: a kernel module that samples
  the program counter on interrupts of a timer or of performance counters, queues the samples
  per CPU, and hands them to a daemon in user space. These theories model the module in the
  configuration \<^verbatim>\<open>RRPROFILE\<close> for 64-bit x86 with \<^verbatim>\<open>CONFIG_SMP\<close>, \<^verbatim>\<open>CONFIG_X86_LOCAL_APIC\<close> and
  \<^verbatim>\<open>CONFIG_PM\<close>, and for 64-bit PowerPC, in the branches for the newest kernels that each file knows;
  where an older kernel or a build without \<^verbatim>\<open>RRPROFILE\<close> makes a difference to what the code does, the
  other branch is modelled too, in theories of its own.

  \<^bold>\<open>How the parts interact.\<close> An interrupt logs entries into the ring of its CPU
  (\<^verbatim>\<open>driver/cpu_buffer.c\<close>), without locks. Periodic work, the end of a profile and a change of its
  settings move the entries of a ring as words into the event buffer
  (\<^verbatim>\<open>driver/buffer_sync.c\<close>), from which the daemon reads (\<^verbatim>\<open>driver/event_buffer.c\<close>).
  \<^verbatim>\<open>driver/oprof.c\<close> sets a session up when the daemon opens the buffer file and starts, stops and
  adapts it as the control files say (\<^verbatim>\<open>driver/oprofilefs.c\<close>, \<^verbatim>\<open>driver/oprofile_files.c\<close>), through
  the operations of a back end: the timer (\<^verbatim>\<open>driver/timer_int_2.6.35.c\<close>, or \<^verbatim>\<open>timer_int_2.6.9.c\<close> on
  older kernels) or the performance counters (\<^verbatim>\<open>x86/nmi_int.c\<close> with one of the counter models
  \<^verbatim>\<open>x86/op_model_*.c\<close>; \<^verbatim>\<open>powerpc/common.c\<close> with one of \<^verbatim>\<open>powerpc/op_model_*.c\<close>), which
  \<^verbatim>\<open>oprofile_init\<close> and \<^verbatim>\<open>oprofile_arch_init\<close> (\<^verbatim>\<open>x86/init.c\<close>, \<^verbatim>\<open>powerpc/common.c\<close>) choose.

  \<^bold>\<open>Theories.\<close> In the order of their imports:
  \<^item> Prelude: machine types, error codes, loops, generic lemmas, and the conventions of the model.
  \<^item> Bounded\_Fifo, Bounded\_Log: the interfaces of a ring to its writers and its reader and of the
    event buffer to the code that fills it, as locales.
  \<^item> Cpu\_Buffer, Cpu\_Log: \<^verbatim>\<open>driver/cpu_buffer.c\<close>, its operations, and what they queue. The ring is
    an instance of the queue; \<open>ring_ok\<close> is its invariant and \<open>contents\<close> its abstraction.
  \<^item> Ring\_Concurrency: the hand-over between the interrupt handler and the reader as a transition
    system whose steps are the single accesses of the code.
  \<^item> Event\_Buffer: \<^verbatim>\<open>driver/event_buffer.c\<close>; an instance of the bounded log.
  \<^item> Driver\_State, Buffer\_Sync: the state that the files share, and \<^verbatim>\<open>driver/buffer_sync.c\<close>.
  \<^item> Event\_Stream: the format of the words that the daemon reads, and a reader of it.
  \<^item> Oprof: \<^verbatim>\<open>driver/oprof.c\<close>, over the operations of an arbitrary back end.
  \<^item> Backend, Lifecycle: the contract between \<^verbatim>\<open>oprof.c\<close> and a back end, and the state machine of
    sessions with its invariant \<open>life_inv\<close>.
  \<^item> Timer\_Int, Session: the timer back end, which fulfils the contract, and sessions with it.
  \<^item> Timer\_Hook: \<^verbatim>\<open>driver/timer_int_2.6.9.c\<close>, another such back end, shown to log the same.
  \<^item> Oprofilefs, Oprofile\_Files: the control files.
  \<^item> Poll\_Idle: \<^verbatim>\<open>x86/process.c\<close>.
  \<^item> Nmi\_Timer, Nmi\_Watchdog: \<^verbatim>\<open>x86/nmi_timer_int_3.3.0.c\<close>, with the perf events of the kernel as
    objects that are created and released, and the files for older kernels, \<^verbatim>\<open>_2.6.19\<close> and \<^verbatim>\<open>_2.6.9\<close>.
  \<^item> Sampling: what taking a sample keeps of a ring, for the interrupts of all back ends.
  \<^item> X86\_Machine, Nmi\_Int: registers, APIC and the variables of the x86 files; \<^verbatim>\<open>x86/nmi_int.c\<close> over an
    arbitrary counter model (\<^verbatim>\<open>struct op_x86_model_spec\<close>).
  \<^item> Nmi\_Contract: the contract between \<^verbatim>\<open>nmi_int.c\<close> and a counter model (locales \<open>x86_model\<close> and
    \<open>nmi_backend\<close>); every model that meets it gives a back end for theory Lifecycle.
  \<^item> Op\_Ppro, Op\_Athlon, Op\_P4 with P4\_Contract: the counter models of the files
    \<^verbatim>\<open>x86/op_model_ppro.c\<close>, \<^verbatim>\<open>op_model_athlon.c\<close> and \<^verbatim>\<open>op_model_p4.c\<close>, which meet the contract.
  \<^item> Ppro\_Interrupt, P4\_Setup: what the interrupt of the P6 counters logs, and what the setup of
    the Pentium 4 counters programs.
  \<^item> Backtrace: \<^verbatim>\<open>x86/backtrace.c\<close>.
  \<^item> X86\_Init, X86\_Lifecycle, X86\_Behaviour: the choice of the model, \<^verbatim>\<open>x86/init.c\<close>, the state
    machine of the whole driver on x86, and the behaviour of its sessions.
  \<^item> Ppc\_Machine: the registers of a 64-bit PowerPC, \<^verbatim>\<open>powerpc/oprofile_impl.h\<close> and the time base.
  \<^item> Op\_Power4, Op\_Rs64: the counter models \<^verbatim>\<open>op_model_power4.c\<close> and \<^verbatim>\<open>op_model_rs64.c\<close>.
  \<^item> Ppc\_Common, Ppc\_Contract: \<^verbatim>\<open>powerpc/common.c\<close> over an arbitrary model that meets the locale
    \<open>powerpc_model\<close>, and that the two models meet it.
  \<^item> Power4\_Behaviour, Rs64\_Behaviour: what setup, start and interrupt of these models program and
    log, field by field of the control registers.
  \<^item> Ppc\_Backtrace: \<^verbatim>\<open>powerpc/backtrace.c\<close>; its three walks are instances of the locale \<open>back_chain\<close>.
  \<^item> Ppc\_Lifecycle: the state machine of the whole driver on a 64-bit PowerPC.
  \<^item> Counter\_Bank, Op\_7450, Op\_Fsl\_Booke: the counter models of 32-bit kernels, \<^verbatim>\<open>op_model_7450.c\<close>
    and \<^verbatim>\<open>op_model_fsl_booke.c\<close>, whose counters are instances of the locale \<open>counter_bank\<close>.
  \<^item> Stock\_Log, Dcookies, Stock\_Sync: the branches of \<^verbatim>\<open>cpu_buffer.c\<close> and \<^verbatim>\<open>buffer_sync.c\<close> that are
    compiled without \<^verbatim>\<open>RRPROFILE\<close>, as in the stock OProfile driver: samples become positions in mapped files.
  \<^item> Stock\_Behaviour, Task\_Mortuary: what they write, as notes with a reader of them, and the life of
    exited tasks as a transition system in which interrupts, exits and \<^verbatim>\<open>sync_buffer\<close> interleave.
  \<^item> Control\_Files, File\_Requests, Backend\_Files, File\_Sessions: the control files as a whole. The
    tables of handlers of all files and the variables they point to; requests as steps, in the
    locale \<open>control_files\<close>; the files of the counter back ends; and what no request can do to a session.
  \<^item> Old\_Kernels, Old\_Nmi, Old\_Walks: the branches for older kernels of \<^verbatim>\<open>timer_int_2.6.35.c\<close> and \<^verbatim>\<open>process.c\<close>,
    of \<^verbatim>\<open>nmi_int.c\<close>, and of the two files \<^verbatim>\<open>backtrace.c\<close>, with their stock walks.
  \<^item> Stock\_Module, Multiplex: loading and unloading the module, the start of the stock driver with its
    counter models and timers, and event multiplexing.
  \<^item> Witnesses, File\_Witnesses, X86\_Witnesses, Ppc\_Witnesses, Stock\_Witnesses, Control\_Witnesses,
    Old\_Witnesses: concrete states at which the theorems apply.

  \<^bold>\<open>State and operations.\<close> A C structure is a record with the fields of the structure; the static
  variables of the files are the records \<open>kstate\<close> (extended by \<open>timer_kstate\<close>,
  \<open>hook_kstate\<close>, \<open>nmi_kstate\<close>, \<open>ppc_kstate\<close> and others for the back ends), \<open>event_buffer_state\<close>,
  \<open>x86_state\<close>, \<open>ppc_state\<close> and \<open>driver\<close>. A C function
  is a definition of the same name that takes the state and returns it; one that runs on every
  CPU through \<^verbatim>\<open>on_each_cpu\<close> takes the CPU as an argument. What the code obtains from the
  kernel or the hardware (allocations, clocks, the interrupted registers, addresses of registers,
  \<^verbatim>\<open>cpuid\<close>) are arguments, grouped in records such as \<open>kernel_env\<close>, \<open>x86_hw\<close>,
  \<open>x86_platform\<close> and \<open>ppc_platform\<close>. \<open>None\<close> is a fault or a loop without end, errors are values of a sum type.
  Words have their width in C, with wrap-around.

  \<^bold>\<open>What is shown.\<close> The groups of lemmas: the ring and the event buffer behave as bounded queue
  and log, also when accesses interleave; samples reach the daemon as logged, and losses are
  counted or happen in the cases named; sessions of any back end never fault, in any order
  of operations, and leave no work and no changed register behind; the numbers that
  adaption computes stay in range; what the counter models program and log; the backtrace walks
  the frames of a reference walk. Several theorems state defects that the model shows.

  \<^bold>\<open>Bounds and fuel.\<close> No definition uses fuel. Loops over CPUs, counters and addresses are recursion
  over lists; the loop of \<^verbatim>\<open>sync_buffer\<close> with its 32-bit counter is a partial function with
  the result \<open>None\<close> if it does not end, and returns for every ring of less than \<open>2 ^ 32\<close> slots; the
  stack walk is recursion on its depth. Reading the time base of a PowerPC is a partial function
  too, which returns for every clock that does not run backwards. The loops of \<^verbatim>\<open>op_model_p4.c\<close> over
  addresses are lists of addresses, which end because the bounds are far below \<open>2 ^ 32\<close>.

  \<^bold>\<open>Not modelled.\<close> Differences between kernel versions that change only how the kernel is called;
  the stock driver's \<^verbatim>\<open>op_nmi_init\<close> beyond its choice of a model; that a 32-bit PowerPC kernel
  chooses the models 7450 and Book-E, whose samples would go to rings of 32-bit words: the log of
  their interrupts is a parameter; 32-bit x86, where some walks and registers differ; logging of
  messages; locks, which make each session operation
  one step (the ring is accessed without locks, and theory Ring\_Concurrency models its
  interleavings); delays of the periodic work; CPU hotplug during a session with the NMI back end;
  the allocation of inodes and the registration with the kernel's virtual file system and driver
  model, which are arguments and flags. For
  Pentium 4 processors with two hyper-threads, which share registers, the operations and
  tables are modelled but the sessions are not. The timers of theories Nmi\_Timer and
  Nmi\_Watchdog are modelled as back ends, but \<^verbatim>\<open>oprofile_arch_init\<close> does not choose them in the
  \<^verbatim>\<open>RRPROFILE\<close> build. The operation that switches the counters for multiplexing is a parameter: no
  back end of this repository has one.
\<close>

section \<open>The whole driver\<close>



end
